(* ===== verification/Prelude.thy ===== *)
theory Prelude
  imports Main "HOL-Library.Sublist" "HOL-Library.Char_ord" "HOL-Library.List_Lexorder"
begin

text \<open>
  Shared vocabulary of the development: Go strings and byte slices as character lists,
  results with errors as values, and the generic facts on lists that the components use.

  A Go \<open>string\<close> or \<open>[]byte\<close> is a sequence of bytes; HOL's \<open>char\<close> is an
  8-bit byte, so both are modelled by the type \<open>string\<close> (a list of \<open>char\<close>) and
  literals are written as they are in the code.  A function that returns a value and an
  \<open>error\<close> returns a sum, \<open>Inl\<close> for the error.  Points in time and durations are
  integers counting nanoseconds.
\<close>

section \<open>Types and results\<close>

type_synonym bytes = string
type_synonym time = int
type_synonym duration = int

abbreviation Ok :: "'a \<Rightarrow> 'e + 'a" where "Ok \<equiv> Inr"
abbreviation Err :: "'e \<Rightarrow> 'e + 'a" where "Err \<equiv> Inl"

abbreviation second :: duration where "second \<equiv> 1000000000"
abbreviation minute :: duration where "minute \<equiv> 60000000000"
abbreviation hour :: duration where "hour \<equiv> 3600000000000"

named_theorems projection_intros "introduction rules for invariants of the components"
named_theorems step_simps "equations that evaluate one step of an operation"

section \<open>Lists\<close>

lemma sublist_take: "sublist x (take n y) \<Longrightarrow> sublist x y"
  by (metis append_take_drop_id sublist_append)

lemma sublist_drop: "sublist x (drop n y) \<Longrightarrow> sublist x y"
  by (metis append_take_drop_id sublist_append)

lemma sublist_set: "sublist x y \<Longrightarrow> set x \<subseteq> set y"
  by (auto simp: sublist_def)

lemma sublist_mid [intro]: "sublist x (a @ x @ b)"
  by (auto simp: sublist_def)

text \<open>An occurrence of a word that avoids a separator lies on one side of it.\<close>

lemma prefix_avoids_sep:
  assumes "prefix x (a @ c # b)" and "c \<notin> set x"
  shows "prefix x a"
  using assms
proof (induction a arbitrary: x)
  case Nil
  then show ?case by (cases x) auto
next
  case (Cons d a)
  then show ?case by (cases x) auto
qed

lemma sublist_avoids_sep:
  assumes "sublist x (a @ c # b)" and "c \<notin> set x"
  shows "sublist x a \<or> sublist x b"
  using assms
proof (induction a)
  case Nil
  show ?case
  proof (cases "prefix x (c # b)")
    case True
    with Nil(2) prefix_avoids_sep [of x "[]" c b] show ?thesis by simp
  next
    case False
    with Nil(1) show ?thesis by (simp add: sublist_Cons_right)
  qed
next
  case (Cons d a)
  show ?case
  proof (cases "prefix x (d # a @ c # b)")
    case True
    with Cons.prems(2) prefix_avoids_sep [of x "d # a" c b] have "prefix x (d # a)" by simp
    then show ?thesis by (simp add: prefix_imp_sublist)
  next
    case False
    with Cons.prems(1) have "sublist x (a @ c # b)" by (simp add: sublist_Cons_right)
    with Cons show ?thesis by (auto simp only: sublist_Cons_right)
  qed
qed

lemma take_append_ge: "length a \<ge> n \<Longrightarrow> take n (a @ b) = take n a"
  by simp

lemma prefix_take_iff: "length s \<le> n \<Longrightarrow> prefix s (take n b) \<longleftrightarrow> prefix s b"
  by (metis append_take_drop_id prefix_length_prefix prefix_prefix take_all take_is_prefix
        linear length_take min.absorb2)

end
