(* ===== verification/Redactor.thy ===== *)
theory Redactor
  imports Prelude
begin

text \<open>
  The streaming redactor of \<open>src/internal/redact/redact.go\<close>: the writer's state, the three
  matching tiers, the scanner with its hold-back, the output cap and the index that
  \<open>New\<close> and \<open>AddSecret\<close> rebuild.

  The underlying \<open>io.Writer\<close> is a state \<open>'o\<close> with a function that writes bytes to it and
  returns the new state, the count and an optional error.  Each operation of the code runs
  under the writer's mutex, so it is one atomic function of the state here.  Go's
  \<open>sort.Slice\<close> leaves the order of equally long secrets open; the model sorts stably.
  The fragment index, a Go map, is an association list whose newest entry for a key counts.
  The \<open>int64\<close> counters are unbounded integers: they count bytes that were really written.
\<close>

section \<open>Data\<close>

definition placeholder :: bytes where
  "placeholder = ''[REDACTED]''"

definition fragmentLen :: nat where
  "fragmentLen = 12"

definition fragmentMinSecretLen :: nat where
  "fragmentMinSecretLen = 24"

definition fragmentMaxSecretLen :: nat where
  "fragmentMaxSecretLen = 64 * 1024"

record fragHit =
  fh_secret :: bytes
  fh_off :: nat

record 'o redactor =
  w_out :: 'o
  w_secrets :: "bytes list"
  w_buf :: bytes
  w_maxLen :: nat
  w_maxSpan :: nat
  w_byFirst :: "char \<Rightarrow> nat list"
  w_fragments :: "(bytes \<times> fragHit) list"
  w_written :: int
  w_maxOut :: int
  w_redactions :: int

type_synonym ('o, 'e) sink = "'o \<Rightarrow> bytes \<Rightarrow> 'o \<times> nat \<times> 'e option"

section \<open>Matching\<close>

definition isFlexGap :: "char \<Rightarrow> bool" where
  "isFlexGap b \<longleftrightarrow> of_char b \<le> (0x20 :: nat) \<or> of_char b = (0x7F :: nat)"

definition flexSpanCap :: "nat \<Rightarrow> nat" where
  "flexSpanCap secretLen = 2 * secretLen + 32"

fun hasPrefix :: "bytes \<Rightarrow> bytes \<Rightarrow> bool" where
  "hasPrefix b [] \<longleftrightarrow> True"
| "hasPrefix [] (c # p) \<longleftrightarrow> False"
| "hasPrefix (d # b) (c # p) \<longleftrightarrow> d = c \<and> hasPrefix b p"

text \<open>The inner loop of \<open>matchFlex\<close> that skips gap bytes of the buffer from index \<open>i\<close>.\<close>

function skipGaps :: "bytes \<Rightarrow> nat \<Rightarrow> nat \<Rightarrow> nat" where
  "skipGaps buf maxSpan i =
     (if i < length buf \<and> i < maxSpan \<and> isFlexGap (buf ! i)
      then skipGaps buf maxSpan (Suc i) else i)"
  by pat_completeness auto
termination by (relation "measure (\<lambda>(buf, _, i). length buf - i)") auto

declare skipGaps.simps [simp del]

text \<open>
  The loop of \<open>matchFlex\<close>; the part of the secret from index \<open>j\<close> on is the list argument.
\<close>

function matchFlexLoop :: "bytes \<Rightarrow> bytes \<Rightarrow> nat \<Rightarrow> nat \<Rightarrow> nat \<Rightarrow> nat \<times> bool" where
  "matchFlexLoop buf secret maxSpan i endp =
     (case dropWhile isFlexGap secret of
        [] \<Rightarrow> (endp, True)
      | c # secret' \<Rightarrow>
          (let i = skipGaps buf maxSpan i in
           if i \<ge> length buf \<or> i \<ge> maxSpan then (0, False)
           else if buf ! i \<noteq> c then (0, False)
           else matchFlexLoop buf secret' maxSpan (Suc i) (Suc i)))"
  by pat_completeness auto
termination
proof (relation "measure (\<lambda>(_, secret, _). length secret)")
  fix buf secret :: bytes and maxSpan i i' :: nat and c secret'
  assume "dropWhile isFlexGap secret = c # secret'"
  then have "length (c # secret') \<le> length secret"
    by (metis length_dropWhile_le)
  then show "((buf, secret', maxSpan, Suc i', Suc i'), (buf, secret, maxSpan, i, e)) \<in>
      measure (\<lambda>(_, secret, _). length secret)" for e
    by simp
qed simp_all

declare matchFlexLoop.simps [simp del]

definition matchFlex :: "bytes \<Rightarrow> bytes \<Rightarrow> nat \<Rightarrow> nat \<times> bool" where
  "matchFlex buf secret maxSpan = matchFlexLoop buf secret maxSpan 0 0"

text \<open>The first loop of \<open>matchFragment\<close>: the index reached and the key collected.\<close>

function collectKey :: "bytes \<Rightarrow> nat \<Rightarrow> nat \<Rightarrow> bytes \<Rightarrow> nat \<times> bytes" where
  "collectKey buf limit i key =
     (if i < limit \<and> length key < fragmentLen
      then collectKey buf limit (Suc i) (if isFlexGap (buf ! i) then key else key @ [buf ! i])
      else (i, key))"
  by pat_completeness auto
termination by (relation "measure (\<lambda>(_, limit, i, _). limit - i)") auto

declare collectKey.simps [simp del]

text \<open>Its second loop: extend the run over the rest of the secret.\<close>

function extendRun :: "bytes \<Rightarrow> nat \<Rightarrow> bytes \<Rightarrow> nat \<Rightarrow> nat \<Rightarrow> nat \<Rightarrow> nat" where
  "extendRun buf limit secret i j endp =
     (if i < limit \<and> j < length secret
      then if isFlexGap (buf ! i) then extendRun buf limit secret (Suc i) j endp
           else if buf ! i \<noteq> secret ! j then endp
           else extendRun buf limit secret (Suc i) (Suc j) (Suc i)
      else endp)"
  by pat_completeness auto
termination by (relation "measure (\<lambda>(_, limit, _, i, _). limit - i)") auto

declare extendRun.simps [simp del]

definition matchFragment :: "'o redactor \<Rightarrow> bytes \<Rightarrow> nat" where
  "matchFragment w buf =
     (let limit = min (length buf) (w_maxSpan w);
          (i, key) = collectKey buf limit 0 []
      in if length key < fragmentLen then 0
         else case map_of (w_fragments w) key of
                None \<Rightarrow> 0
              | Some fh \<Rightarrow> extendRun buf limit (fh_secret fh) i (fh_off fh + fragmentLen) i)"

text \<open>The two candidate loops of \<open>matchAt\<close>; \<open>None\<close> falls through to the next tier.\<close>

fun exactTier :: "bytes list \<Rightarrow> bytes \<Rightarrow> nat list \<Rightarrow> nat option" where
  "exactTier secrets buf [] = None"
| "exactTier secrets buf (i # cands) =
     (let s = secrets ! i in
      if length s > length buf then exactTier secrets buf cands
      else if hasPrefix buf s then Some (length s)
      else exactTier secrets buf cands)"

fun flexTier :: "bytes list \<Rightarrow> nat \<Rightarrow> bytes \<Rightarrow> nat list \<Rightarrow> nat option" where
  "flexTier secrets maxSpan buf [] = None"
| "flexTier secrets maxSpan buf (i # cands) =
     (let (n, ok) = matchFlex buf (secrets ! i) maxSpan in
      if ok \<and> n > 0 then Some n else flexTier secrets maxSpan buf cands)"

text \<open>\<open>matchAt\<close> on the slice that starts at the position, and at a position of the buffer.\<close>

definition matchSlice :: "'o redactor \<Rightarrow> bytes \<Rightarrow> nat" where
  "matchSlice w buf =
     (case buf of
        [] \<Rightarrow> 0
      | b # _ \<Rightarrow>
          (let cands = w_byFirst w b in
           case exactTier (w_secrets w) buf cands of
             Some n \<Rightarrow> n
           | None \<Rightarrow>
              (case flexTier (w_secrets w) (w_maxSpan w) buf cands of
                 Some n \<Rightarrow> n
               | None \<Rightarrow>
                   if w_fragments w \<noteq> [] \<and> \<not> isFlexGap b
                   then matchFragment w buf else 0)))"

definition matchAt :: "'o redactor \<Rightarrow> nat \<Rightarrow> nat" where
  "matchAt w pos = matchSlice w (drop pos (w_buf w))"

section \<open>Output\<close>

text \<open>\<open>emit\<close>: the new state and the error of the underlying writer, if any.\<close>

definition emit :: "('o, 'e) sink \<Rightarrow> 'o redactor \<Rightarrow> bytes \<Rightarrow> 'o redactor \<times> 'e option" where
  "emit wr w data =
     (if data = [] then (w, None)
      else if w_maxOut w > 0 \<and> w_maxOut w - w_written w \<le> 0 then (w, None)
      else
        let remaining = w_maxOut w - w_written w;
            data = (if w_maxOut w > 0 \<and> int (length data) > remaining
                    then take (nat remaining) data else data);
            (out', n, err) = wr (w_out w) data
        in (w\<lparr>w_out := out', w_written := w_written w + int n\<rparr>, err))"

definition holdBack :: "bool \<Rightarrow> 'o redactor \<Rightarrow> nat" where
  "holdBack final w = (if \<not> final \<and> w_maxSpan w > 1 then w_maxSpan w - 1 else 0)"

text \<open>
  The inner loop of \<open>scan\<close>: from \<open>safeEnd\<close> look at no more than \<open>k\<close> positions, and return
  the first one with a match and its length (0 when there is none).
\<close>

fun scanFrom :: "'o redactor \<Rightarrow> nat \<Rightarrow> nat \<Rightarrow> nat \<times> nat" where
  "scanFrom w safeEnd 0 = (safeEnd, 0)"
| "scanFrom w safeEnd (Suc k) =
     (let n = matchAt w safeEnd in
      if n > 0 then (safeEnd, n) else scanFrom w (Suc safeEnd) k)"

lemma scanFrom_bound:
  "scanFrom w p k = (q, n) \<Longrightarrow> p \<le> q \<and> q \<le> p + k \<and> (n > 0 \<longrightarrow> q < p + k \<and> matchAt w q = n)"
  by (induction w p k rule: scanFrom.induct) (auto simp: Let_def split: if_splits)

lemma emit_buf [simp]: "w_buf (fst (emit wr w d)) = w_buf w"
  by (simp add: emit_def Let_def case_prod_beta)

lemma scan_shrinks:
  assumes "(safeEnd, matchedLen) = scanFrom w 0 (length (w_buf w) - h)"
    and "(w1, e1) = emit wr w (take safeEnd (w_buf w))"
    and "(w3, e3) = emit wr (w1\<lparr>w_buf := drop safeEnd (w_buf w1)\<rparr>) d"
    and "matchedLen > 0"
  shows "length (w_buf w3) - matchedLen < length (w_buf w)"
proof -
  have "w_buf w1 = w_buf w"
    using emit_buf [of wr w "take safeEnd (w_buf w)"] assms(2) by (simp add: prod_eq_iff)
  moreover have "w_buf w3 = drop safeEnd (w_buf w1)"
    using emit_buf [of wr "w1\<lparr>w_buf := drop safeEnd (w_buf w1)\<rparr>" d] assms(3)
    by (simp add: prod_eq_iff)
  moreover have "safeEnd < length (w_buf w)"
    using scanFrom_bound [OF assms(1) [symmetric]] assms(4) by auto
  ultimately show ?thesis
    using assms(4) by simp
qed

text \<open>
  The outer loop of \<open>scan\<close>.  It recurses after each match; the buffer gets shorter each
  time.  (Shrinking the buffer's capacity at the end has no counterpart in the model.)
\<close>

function scan :: "('o, 'e) sink \<Rightarrow> bool \<Rightarrow> 'o redactor \<Rightarrow> 'o redactor \<times> 'e option" where
  "scan wr final w =
     (if length (w_buf w) \<le> holdBack final w then (w, None)
      else
        let (safeEnd, matchedLen) = scanFrom w 0 (length (w_buf w) - holdBack final w);
            (w1, err) = emit wr w (take safeEnd (w_buf w))
        in if err \<noteq> None then (w1, err)
           else let w2 = w1\<lparr>w_buf := drop safeEnd (w_buf w1)\<rparr> in
                if matchedLen > 0
                then let (w3, err) = emit wr w2 placeholder in
                     if err \<noteq> None then (w3, err)
                     else scan wr final (w3\<lparr>w_redactions := w_redactions w3 + 1,
                                            w_buf := drop matchedLen (w_buf w3)\<rparr>)
                else (w2, None))"
  by pat_completeness auto
termination
  by (relation "measure (\<lambda>(_, _, w). length (w_buf w))") (simp, clarsimp, metis scan_shrinks)

declare scan.simps [simp del]

definition Write :: "('o, 'e) sink \<Rightarrow> 'o redactor \<Rightarrow> bytes \<Rightarrow> 'o redactor \<times> nat \<times> 'e option" where
  "Write wr w p =
     (if p = [] then (w, 0, None)
      else case scan wr False (w\<lparr>w_buf := w_buf w @ p\<rparr>) of
             (w', Some e) \<Rightarrow> (w', 0, Some e)
           | (w', None) \<Rightarrow> (w', length p, None))"

definition Flush :: "('o, 'e) sink \<Rightarrow> 'o redactor \<Rightarrow> 'o redactor \<times> 'e option" where
  "Flush wr w = scan wr True w"

definition BytesWritten :: "'o redactor \<Rightarrow> int" where
  "BytesWritten w = w_written w"

definition RedactionCount :: "'o redactor \<Rightarrow> int" where
  "RedactionCount w = w_redactions w"

section \<open>The index\<close>

definition proj :: "bytes \<Rightarrow> bytes" where
  "proj s = List.filter (\<lambda>c. \<not> isFlexGap c) s"

text \<open>The windows of a projected secret, added to the index in order of their offset.\<close>

definition addFragments :: "bytes \<Rightarrow> (bytes \<times> fragHit) list \<Rightarrow> (bytes \<times> fragHit) list" where
  "addFragments p frs =
     (if fragmentMinSecretLen \<le> length p \<and> length p \<le> fragmentMaxSecretLen
      then fold (\<lambda>off m. (take fragmentLen (drop off p), \<lparr>fh_secret = p, fh_off = off\<rparr>) # m)
             [0..<length p + 1 - fragmentLen] frs
      else frs)"

definition addCand :: "char \<Rightarrow> nat \<Rightarrow> (char \<Rightarrow> nat list) \<Rightarrow> char \<Rightarrow> nat list" where
  "addCand b i m = m(b := m b @ [i])"

text \<open>One iteration of the loop of \<open>reindexLocked\<close>.\<close>

definition reindexStep :: "nat \<times> bytes \<Rightarrow> 'o redactor \<Rightarrow> 'o redactor" where
  "reindexStep = (\<lambda>(i, s) w.
     let p = proj s;
         m1 = addCand (hd s) i (w_byFirst w);
         m2 = (if p \<noteq> [] \<and> hd p \<noteq> hd s then addCand (hd p) i m1 else m1)
     in w\<lparr>w_maxLen := max (w_maxLen w) (length s),
          w_maxSpan := max (w_maxSpan w) (flexSpanCap (length s)),
          w_byFirst := m2,
          w_fragments := addFragments p (w_fragments w)\<rparr>)"

definition sortLongestFirst :: "bytes list \<Rightarrow> bytes list" where
  "sortLongestFirst ss = sort_key (\<lambda>s. - int (length s)) ss"

definition reindexLocked :: "'o redactor \<Rightarrow> 'o redactor" where
  "reindexLocked w =
     (let ss = sortLongestFirst (w_secrets w) in
      fold reindexStep (List.enumerate 0 ss)
        (w\<lparr>w_secrets := ss, w_byFirst := (\<lambda>_. []), w_fragments := []\<rparr>))"

definition New :: "'o \<Rightarrow> bytes list \<Rightarrow> int \<Rightarrow> 'o redactor" where
  "New out secrets maxOutputBytes =
     reindexLocked \<lparr>w_out = out, w_secrets = List.filter (\<lambda>s. s \<noteq> []) secrets, w_buf = [],
       w_maxLen = 0, w_maxSpan = 0, w_byFirst = (\<lambda>_. []), w_fragments = [],
       w_written = 0, w_maxOut = maxOutputBytes, w_redactions = 0\<rparr>"

definition AddSecret :: "bytes \<Rightarrow> 'o redactor \<Rightarrow> 'o redactor" where
  "AddSecret s w =
     (if s = [] then w else reindexLocked (w\<lparr>w_secrets := w_secrets w @ [s]\<rparr>))"

end
