(* ===== verification/Redactor_Match.thy ===== *)
theory Redactor_Match
  imports Redactor
begin

text \<open>
  What the three tiers of \<open>matchAt\<close> recognise: they read only the bytes the hold-back
  guarantees, never consume more than there is, and find every exact, gap-tolerant and
  fragment occurrence of a secret that the index holds.
\<close>

declare dropWhile_eq_Nil_conv [simp del]

section \<open>The projection to non-gap bytes\<close>

lemma proj_Nil [simp]: "proj [] = []"
  by (simp add: proj_def)

lemma proj_append [simp]: "proj (a @ b) = proj a @ proj b"
  by (simp add: proj_def)

lemma proj_Cons [simp]: "proj (c # b) = (if isFlexGap c then proj b else c # proj b)"
  by (simp add: proj_def)

lemma set_proj: "set (proj s) \<subseteq> set s"
  by (auto simp: proj_def)

lemma length_proj: "length (proj s) \<le> length s"
  by (simp add: proj_def)

lemma proj_dropWhile [simp]: "proj (dropWhile isFlexGap s) = proj s"
  by (induction s) auto

lemma proj_eq_Nil_iff: "proj s = [] \<longleftrightarrow> dropWhile isFlexGap s = []"
  by (induction s) auto

lemma hd_proj: "dropWhile isFlexGap s = c # r \<Longrightarrow> proj s = c # proj r \<and> \<not> isFlexGap c"
  by (induction s) (auto split: if_splits)

lemma proj_drop_Suc:
  assumes "i < n" "n \<le> length b"
  shows "proj (drop i (take n b)) =
    (if isFlexGap (b ! i) then [] else [b ! i]) @ proj (drop (Suc i) (take n b))"
proof -
  have "drop i (take n b) = b ! i # drop (Suc i) (take n b)"
    using assms by (simp add: Cons_nth_drop_Suc [symmetric])
  then show ?thesis by simp
qed

section \<open>Exact prefixes\<close>

lemma hasPrefix_iff: "hasPrefix b p \<longleftrightarrow> prefix p b"
  by (induction b p rule: hasPrefix.induct) auto

section \<open>Skipping gaps\<close>

lemma skipGaps_spec:
  "i \<le> skipGaps b m i \<and>
   (\<forall>k. i \<le> k \<and> k < skipGaps b m i \<longrightarrow> isFlexGap (b ! k)) \<and>
   (skipGaps b m i < length b \<and> skipGaps b m i < m \<longrightarrow> \<not> isFlexGap (b ! skipGaps b m i))"
proof (induction b m i rule: skipGaps.induct)
  case (1 b m i)
  show ?case
  proof (cases "i < length b \<and> i < m \<and> isFlexGap (b ! i)")
    case True
    then have eq: "skipGaps b m i = skipGaps b m (Suc i)"
      by (simp add: skipGaps.simps [of b m i])
    note ih = 1 [OF True]
    have "isFlexGap (b ! k)" if "i \<le> k" "k < skipGaps b m (Suc i)" for k
      using ih True that by (cases "k = i") auto
    with ih show ?thesis unfolding eq by auto
  next
    case False
    then have "skipGaps b m i = i" by (subst skipGaps.simps) auto
    with False show ?thesis by auto
  qed
qed

lemma skipGaps_take: "skipGaps (take m b) m i = skipGaps b m i"
  by (induction b m i rule: skipGaps.induct) (subst (1 2) skipGaps.simps, auto)

lemma proj_gaps: "(\<And>k. k < length u \<Longrightarrow> isFlexGap (u ! k)) \<Longrightarrow> proj u = []"
  by (auto simp: proj_def filter_empty_conv in_set_conv_nth)

lemma skipGaps_proj:
  assumes "skipGaps b m i \<le> n" "n \<le> length b"
  shows "proj (drop i (take n b)) = proj (drop (skipGaps b m i) (take n b))"
proof -
  let ?j = "skipGaps b m i"
  have ij: "i \<le> ?j" using skipGaps_spec by blast
  have "take n b = take ?j b @ drop ?j (take n b)"
    using assms(1) by (metis append_take_drop_id min.absorb1 take_take)
  then have "drop i (take n b) = drop i (take ?j b @ drop ?j (take n b))"
    by (rule arg_cong)
  also have "\<dots> = drop i (take ?j b) @ drop ?j (take n b)"
    using ij assms by simp
  finally have "drop i (take n b) = drop i (take ?j b) @ drop ?j (take n b)" .
  moreover have "proj (drop i (take ?j b)) = []"
    by (rule proj_gaps) (use skipGaps_spec [of i b m] in auto)
  ultimately show ?thesis by simp
qed

section \<open>Gap-tolerant matching\<close>

lemma matchFlexLoop_take: "matchFlexLoop (take m b) s m i e = matchFlexLoop b s m i e"
proof (induction b s m i e rule: matchFlexLoop.induct)
  case (1 b s m i e)
  show ?case
  proof (cases "dropWhile isFlexGap s")
    case Nil
    then show ?thesis by (simp add: matchFlexLoop.simps)
  next
    case (Cons c s')
    with 1 show ?thesis
      by (subst (1 2) matchFlexLoop.simps) (auto simp: skipGaps_take Let_def)
  qed
qed

lemma matchFlexLoop_sound:
  assumes "matchFlexLoop b s m i e = (n, True)" "e = i" "i \<le> length b" "i \<le> m"
  shows "i \<le> n \<and> n \<le> length b \<and> n \<le> m \<and> proj (drop i (take n b)) = proj s
    \<and> (i < n \<longrightarrow> \<not> isFlexGap (b ! (n - 1)))"
  using assms
proof (induction b s m i e rule: matchFlexLoop.induct)
  case (1 b s m i e)
  show ?case
  proof (cases "dropWhile isFlexGap s")
    case Nil
    then show ?thesis
      using "1.prems" proj_eq_Nil_iff [of s] by (simp add: matchFlexLoop.simps [of b s])
  next
    case (Cons c s')
    let ?j = "skipGaps b m i"
    from hd_proj [OF Cons] have ps: "proj s = c # proj s'" "\<not> isFlexGap c" by auto
    from "1.prems"(1,2) Cons have j: "?j < length b" "?j < m" "b ! ?j = c"
      and rec: "matchFlexLoop b s' m (Suc ?j) (Suc ?j) = (n, True)"
      by (auto simp: matchFlexLoop.simps [of b s] Let_def split: if_splits)
    from "1.IH" [OF Cons refl] j rec
    have ih: "Suc ?j \<le> n" "n \<le> length b" "n \<le> m" "proj (drop (Suc ?j) (take n b)) = proj s'"
      "Suc ?j < n \<longrightarrow> \<not> isFlexGap (b ! (n - 1))" by auto
    have ij: "i \<le> ?j" using skipGaps_spec by blast
    have "proj (drop i (take n b)) = proj (drop ?j (take n b))"
      by (rule skipGaps_proj) (use ih in auto)
    also have "\<dots> = c # proj s'"
      using proj_drop_Suc [of ?j n b] ih j ps by simp
    finally have "proj (drop i (take n b)) = proj s" using ps by simp
    moreover have "\<not> isFlexGap (b ! (n - 1))"
      using ih j ps by (cases "n = Suc ?j") auto
    ultimately show ?thesis using ih ij by auto
  qed
qed

lemma matchFlexLoop_complete:
  assumes "e = i" "i \<le> n" "n \<le> length b" "n \<le> m" "proj (drop i (take n b)) = proj s"
  shows "\<exists>k. i \<le> k \<and> (k \<le> n \<or> k = i) \<and> matchFlexLoop b s m i e = (k, True)"
  using assms
proof (induction b s m i e rule: matchFlexLoop.induct)
  case (1 b s m i e)
  show ?case
  proof (cases "dropWhile isFlexGap s")
    case Nil
    with "1.prems"(1) show ?thesis by (simp add: matchFlexLoop.simps [of b s])
  next
    case (Cons c s')
    let ?j = "skipGaps b m i"
    from hd_proj [OF Cons] have ps: "proj s = c # proj s'" "\<not> isFlexGap c" by auto
    have ij: "i \<le> ?j" using skipGaps_spec by blast
    have jn: "?j < n"
    proof (rule ccontr)
      assume "\<not> ?j < n"
      then have "isFlexGap (drop i (take n b) ! k)" if "k < length (drop i (take n b))" for k
        using skipGaps_spec [of i b m] that "1.prems"(3) by auto
      then have "proj (drop i (take n b)) = []" by (rule proj_gaps)
      with "1.prems"(5) ps show False by simp
    qed
    with skipGaps_spec [of i b m] "1.prems" have ng: "\<not> isFlexGap (b ! ?j)" by auto
    have "proj (drop i (take n b)) = b ! ?j # proj (drop (Suc ?j) (take n b))"
      using skipGaps_proj [of b m i n] proj_drop_Suc [of ?j n b] "1.prems" jn ng by auto
    with "1.prems"(5) ps have eq: "b ! ?j = c" "proj (drop (Suc ?j) (take n b)) = proj s'"
      by auto
    from jn "1.prems" have "\<not> (?j \<ge> length b \<or> ?j \<ge> m)" by auto
    with "1.IH" [OF Cons refl] eq jn "1.prems"
    obtain k where k: "Suc ?j \<le> k" "k \<le> n \<or> k = Suc ?j"
      "matchFlexLoop b s' m (Suc ?j) (Suc ?j) = (k, True)" by auto
    with eq jn "1.prems" Cons have "matchFlexLoop b s m i e = (k, True)"
      by (simp add: matchFlexLoop.simps [of b s] Let_def)
    with k ij jn show ?thesis by (intro exI [of _ k]) auto
  qed
qed

lemma matchFlex_take: "matchFlex (take m b) s m = matchFlex b s m"
  by (simp add: matchFlex_def matchFlexLoop_take)

lemma matchFlex_sound:
  "matchFlex b s m = (n, True) \<Longrightarrow>
   n \<le> length b \<and> n \<le> m \<and> proj (take n b) = proj s \<and> (0 < n \<longrightarrow> \<not> isFlexGap (b ! (n - 1)))"
  unfolding matchFlex_def by (drule matchFlexLoop_sound) auto

lemma matchFlex_complete:
  assumes "n \<le> length b" "n \<le> m" "proj (take n b) = proj s"
  shows "\<exists>k \<le> n. matchFlex b s m = (k, True)"
  using matchFlexLoop_complete [of 0 0 n b m s] assms by (auto simp: matchFlex_def)

section \<open>Fragments\<close>

lemma collectKey_take:
  "limit \<le> m \<Longrightarrow> collectKey (take m b) limit i key = collectKey b limit i key"
proof (induction b limit i key rule: collectKey.induct)
  case (1 b limit i key)
  then show ?case
    by (subst (1 2) collectKey.simps) (auto simp del: length_append)
qed

lemma extendRun_take:
  "limit \<le> m \<Longrightarrow> extendRun (take m b) limit s i j e = extendRun b limit s i j e"
proof (induction b limit s i j e rule: extendRun.induct)
  case (1 b limit s i j e)
  then show ?case by (subst (1 2) extendRun.simps) auto
qed

lemma collectKey_spec:
  assumes "collectKey b limit i key = (i', key')" "i \<le> limit" "limit \<le> length b"
    "length key \<le> fragmentLen"
  shows "i \<le> i' \<and> i' \<le> limit \<and> key' = key @ proj (drop i (take i' b))
    \<and> length key' \<le> fragmentLen \<and> (length key' = fragmentLen \<or> i' = limit)"
  using assms
proof (induction b limit i key rule: collectKey.induct)
  case (1 b limit i key)
  show ?case
  proof (cases "i < limit \<and> length key < fragmentLen")
    case True
    let ?k = "if isFlexGap (b ! i) then key else key @ [b ! i]"
    from "1.prems"(1) True have "collectKey b limit (Suc i) ?k = (i', key')"
      by (subst (asm) collectKey.simps) simp
    with "1.IH" [OF True] "1.prems" True
    have ih: "Suc i \<le> i'" "i' \<le> limit" "key' = ?k @ proj (drop (Suc i) (take i' b))"
      "length key' \<le> fragmentLen" "length key' = fragmentLen \<or> i' = limit"
      by auto
    have "key' = key @ proj (drop i (take i' b))"
      using proj_drop_Suc [of i i' b] ih "1.prems"(3) by auto
    with ih show ?thesis by auto
  next
    case False
    with "1.prems" have "i' = i" "key' = key"
      by (auto simp: collectKey.simps [of b limit])
    with False "1.prems" show ?thesis by auto
  qed
qed

lemma extendRun_bound:
  "e \<le> i \<Longrightarrow> i \<le> limit \<Longrightarrow> e \<le> extendRun b limit s i j e \<and> extendRun b limit s i j e \<le> limit"
proof (induction b limit s i j e rule: extendRun.induct)
  case (1 b limit s i j e)
  then show ?case by (subst (1 2) extendRun.simps) (fastforce intro: order.trans)
qed

lemma matchFragment_bound: "matchFragment w b \<le> min (length b) (w_maxSpan w)"
proof -
  obtain i key where ck: "collectKey b (min (length b) (w_maxSpan w)) 0 [] = (i, key)"
    by fastforce
  have "i \<le> min (length b) (w_maxSpan w)"
    using collectKey_spec [OF ck] by simp
  then show ?thesis
    using extendRun_bound [of i i "min (length b) (w_maxSpan w)"]
    by (auto simp: matchFragment_def ck Let_def split: option.split)
qed

lemma matchFragment_take: "matchFragment w (take (w_maxSpan w) b) = matchFragment w b"
proof -
  let ?l = "min (length b) (w_maxSpan w)"
  have *: "min (length (take (w_maxSpan w) b)) (w_maxSpan w) = ?l" by simp
  show ?thesis
    unfolding matchFragment_def *
    by (simp add: collectKey_take extendRun_take Let_def split: prod.split option.split)
qed

lemma matchFragment_hit:
  assumes n: "n \<le> length b" "n \<le> w_maxSpan w"
    and key: "proj (take n b) = key" "length key = fragmentLen"
    and hit: "map_of (w_fragments w) key \<noteq> None"
  shows "matchFragment w b > 0"
proof -
  let ?l = "min (length b) (w_maxSpan w)"
  obtain i k where ck: "collectKey b ?l 0 [] = (i, k)"
    by fastforce
  have spec: "i \<le> ?l" "k = proj (take i b)" "length k \<le> fragmentLen"
    "length k = fragmentLen \<or> i = ?l"
    using collectKey_spec [OF ck] by (auto simp: fragmentLen_def)
  have k: "k = key"
  proof (cases "i \<le> n")
    case True
    then have t: "take n b = take i b @ drop i (take n b)"
      by (metis append_take_drop_id min.absorb1 take_take)
    have "length k = fragmentLen"
      using spec(4) True n t spec(2) key by (auto simp: le_antisym)
    with key spec(2) t show ?thesis
      by (metis append_Nil2 append_eq_append_conv proj_append)
  next
    case False
    then have "take i b = take n b @ drop n (take i b)"
      by (metis append_take_drop_id min.absorb1 nat_le_linear take_take)
    with spec(2) key(1) have "k = key @ proj (drop n (take i b))"
      by (metis proj_append)
    with spec(3) key(2) show ?thesis by simp
  qed
  have "0 < i"
    using k key(2) spec(2) by (cases i) (auto simp: fragmentLen_def)
  moreover have "i \<le> extendRun b ?l s i j i" for s j
    using extendRun_bound [of i i ?l b s j] spec(1) by blast
  ultimately show ?thesis
    using hit k key(2) by (auto simp: matchFragment_def ck Let_def intro: less_le_trans)
qed

end
