(* ===== verification/Redactor_Index.thy ===== *)
theory Redactor_Index
  imports Redactor_Match
begin

text \<open>
  The invariant of the match index, that \<open>New\<close> establishes it and every operation keeps it,
  and what \<open>matchAt\<close> does on a writer that satisfies it.
\<close>

section \<open>The invariant\<close>

definition longSecret :: "bytes \<Rightarrow> bool" where
  "longSecret s \<longleftrightarrow> fragmentMinSecretLen \<le> length (proj s) \<and> length (proj s) \<le> fragmentMaxSecretLen"

definition window :: "bytes \<Rightarrow> nat \<Rightarrow> bytes" where
  "window p off = take fragmentLen (drop off p)"

text \<open>
  The first \<open>k\<close> secrets are indexed: each is a candidate under its first byte and under its
  first non-gap byte, and each window of a long one is in the fragment index.
\<close>

definition indexed :: "nat \<Rightarrow> 'o redactor \<Rightarrow> bool" where
  "indexed k w \<longleftrightarrow>
     (\<forall>i < k. let s = w_secrets w ! i in
        flexSpanCap (length s) \<le> w_maxSpan w \<and> length s \<le> w_maxLen w \<and>
        i \<in> set (w_byFirst w (hd s)) \<and>
        (proj s \<noteq> [] \<longrightarrow> i \<in> set (w_byFirst w (hd (proj s)))) \<and>
        (longSecret s \<longrightarrow> (\<forall>off. off + fragmentLen \<le> length (proj s) \<longrightarrow>
           map_of (w_fragments w) (window (proj s) off) \<noteq> None)))"

text \<open>Nothing else is in the index.\<close>

definition index_sound :: "nat \<Rightarrow> 'o redactor \<Rightarrow> bool" where
  "index_sound k w \<longleftrightarrow>
     (\<forall>b. \<forall>i \<in> set (w_byFirst w b). i < k) \<and>
     (\<forall>(key, fh) \<in> set (w_fragments w).
        key = window (fh_secret fh) (fh_off fh) \<and>
        fh_off fh + fragmentLen \<le> length (fh_secret fh) \<and>
        (\<exists>i < k. longSecret (w_secrets w ! i) \<and> fh_secret fh = proj (w_secrets w ! i)))"

definition wf_index :: "'o redactor \<Rightarrow> bool" where
  "wf_index w \<longleftrightarrow>
     [] \<notin> set (w_secrets w) \<and> sorted_wrt (\<lambda>s t. length s \<ge> length t) (w_secrets w) \<and>
     indexed (length (w_secrets w)) w \<and> index_sound (length (w_secrets w)) w"

section \<open>Rebuilding the index\<close>

lemma fold_windows:
  "set (fold (\<lambda>off m. (f off, g off) # m) xs m) = (\<lambda>off. (f off, g off)) ` set xs \<union> set m"
  by (induction xs arbitrary: m) auto

lemma set_addFragments:
  "set (addFragments (proj s) m) =
     (if longSecret s
      then (\<lambda>off. (window (proj s) off, \<lparr>fh_secret = proj s, fh_off = off\<rparr>)) `
             {off. off + fragmentLen \<le> length (proj s)} \<union> set m
      else set m)"
proof -
  have "set [0..<length (proj s) + 1 - fragmentLen] = {off. off + fragmentLen \<le> length (proj s)}"
    by auto
  then show ?thesis
    unfolding addFragments_def longSecret_def window_def by (simp add: fold_windows)
qed

lemma addFragments_mono:
  "map_of m key \<noteq> None \<Longrightarrow> map_of (addFragments (proj s) m) key \<noteq> None"
  by (auto simp: map_of_eq_None_iff set_addFragments)

lemma addFragments_window:
  "longSecret s \<Longrightarrow> off + fragmentLen \<le> length (proj s) \<Longrightarrow>
   map_of (addFragments (proj s) m) (window (proj s) off) \<noteq> None"
  unfolding map_of_eq_None_iff by (auto simp: set_addFragments image_Un image_image)

lemma reindexStep_simps [simp]:
  "w_secrets (reindexStep (i, s) w) = w_secrets w"
  "w_buf (reindexStep (i, s) w) = w_buf w"
  "w_out (reindexStep (i, s) w) = w_out w"
  "w_written (reindexStep (i, s) w) = w_written w"
  "w_maxOut (reindexStep (i, s) w) = w_maxOut w"
  "w_redactions (reindexStep (i, s) w) = w_redactions w"
  "w_maxSpan (reindexStep (i, s) w) = max (w_maxSpan w) (flexSpanCap (length s))"
  "w_maxLen (reindexStep (i, s) w) = max (w_maxLen w) (length s)"
  "w_fragments (reindexStep (i, s) w) = addFragments (proj s) (w_fragments w)"
  by (simp_all add: reindexStep_def Let_def)

lemma set_byFirst_reindexStep:
  "set (w_byFirst (reindexStep (i, s) w) b) =
     set (w_byFirst w b) \<union>
     (if b = hd s \<or> (proj s \<noteq> [] \<and> b = hd (proj s)) then {i} else {})"
  by (auto simp: reindexStep_def addCand_def Let_def)

lemma reindexStep_indexed:
  assumes "indexed i w" "w_secrets w ! i = s"
  shows "indexed (Suc i) (reindexStep (i, s) w)"
  unfolding indexed_def Let_def
proof (intro allI impI)
  fix j
  assume "j < Suc i"
  let ?t = "w_secrets (reindexStep (i, s) w) ! j"
  let ?w = "reindexStep (i, s) w"
  consider "j < i" | "j = i" "?t = s"
    using \<open>j < Suc i\<close> assms(2) by (auto simp: less_Suc_eq)
  then show "flexSpanCap (length ?t) \<le> w_maxSpan ?w \<and> length ?t \<le> w_maxLen ?w \<and>
        j \<in> set (w_byFirst ?w (hd ?t)) \<and>
        (proj ?t \<noteq> [] \<longrightarrow> j \<in> set (w_byFirst ?w (hd (proj ?t)))) \<and>
        (longSecret ?t \<longrightarrow> (\<forall>off. off + fragmentLen \<le> length (proj ?t) \<longrightarrow>
           map_of (w_fragments ?w) (window (proj ?t) off) \<noteq> None))"
  proof cases
    case 1
    with assms(1) show ?thesis
      unfolding indexed_def Let_def
      by (simp add: set_byFirst_reindexStep le_max_iff_disj addFragments_mono)
  next
    case 2
    then show ?thesis
      by (simp add: set_byFirst_reindexStep addFragments_window)
  qed
qed

lemma reindexStep_sound:
  assumes "index_sound i w" "w_secrets w ! i = s"
  shows "index_sound (Suc i) (reindexStep (i, s) w)"
proof -
  have "j < Suc i" if "j \<in> set (w_byFirst (reindexStep (i, s) w) b)" for j b
    using that assms(1) by (auto simp: set_byFirst_reindexStep index_sound_def less_Suc_eq split: if_splits)
  moreover have "key = window (fh_secret fh) (fh_off fh) \<and>
        fh_off fh + fragmentLen \<le> length (fh_secret fh) \<and>
        (\<exists>j < Suc i. longSecret (w_secrets w ! j) \<and> fh_secret fh = proj (w_secrets w ! j))"
    if "(key, fh) \<in> set (addFragments (proj s) (w_fragments w))" for key fh
  proof (cases "(key, fh) \<in> set (w_fragments w)")
    case True
    with assms(1) show ?thesis by (auto simp: index_sound_def less_Suc_eq)
  next
    case False
    with that assms(2) show ?thesis by (auto simp: set_addFragments split: if_splits)
  qed
  ultimately show ?thesis by (auto simp: index_sound_def)
qed

lemma fold_reindexStep:
  assumes "indexed k w" "index_sound k w" "drop k (w_secrets w) = ss" "k \<le> length (w_secrets w)"
  shows "let w' = fold reindexStep (List.enumerate k ss) w in
    w_secrets w' = w_secrets w \<and> w_buf w' = w_buf w \<and> w_out w' = w_out w \<and>
    w_written w' = w_written w \<and> w_maxOut w' = w_maxOut w \<and> w_redactions w' = w_redactions w \<and>
    indexed (length (w_secrets w)) w' \<and> index_sound (length (w_secrets w)) w' \<and>
    w_maxSpan w \<le> w_maxSpan w'"
  using assms
proof (induction ss arbitrary: k w)
  case Nil
  then show ?case by simp
next
  case (Cons s ss)
  then have k: "k < length (w_secrets w)" "w_secrets w ! k = s"
    by (metis drop_all list.distinct(1) not_less, metis hd_drop_conv_nth drop_all list.distinct(1)
        list.sel(1) not_less)
  let ?w = "reindexStep (k, s) w"
  have "drop (Suc k) (w_secrets ?w) = ss"
    using Cons.prems(3) by (metis reindexStep_simps(1) drop_Suc list.sel(3) tl_drop)
  with Cons.IH [of "Suc k" ?w] reindexStep_indexed [OF Cons.prems(1) k(2)]
    reindexStep_sound [OF Cons.prems(2) k(2)] k
  show ?case by (auto simp: Let_def)
qed

lemma sortLongestFirst_sorted: "sorted_wrt (\<lambda>s t. length s \<ge> length t) (sortLongestFirst ss)"
proof -
  have "sorted (List.map (\<lambda>s. - int (length s)) (sortLongestFirst ss))"
    by (simp add: sortLongestFirst_def)
  then show ?thesis by (simp add: sorted_wrt_map)
qed

lemma set_sortLongestFirst [simp]: "set (sortLongestFirst ss) = set ss"
  by (simp add: sortLongestFirst_def)

lemma reindexLocked_props:
  assumes "[] \<notin> set (w_secrets w)"
  shows "wf_index (reindexLocked w)"
    "w_secrets (reindexLocked w) = sortLongestFirst (w_secrets w)"
    "w_buf (reindexLocked w) = w_buf w" "w_out (reindexLocked w) = w_out w"
    "w_written (reindexLocked w) = w_written w" "w_maxOut (reindexLocked w) = w_maxOut w"
    "w_redactions (reindexLocked w) = w_redactions w"
    "w_maxSpan w \<le> w_maxSpan (reindexLocked w)"
proof -
  let ?ss = "sortLongestFirst (w_secrets w)"
  let ?w = "w\<lparr>w_secrets := ?ss, w_byFirst := (\<lambda>_. []), w_fragments := []\<rparr>"
  have "indexed 0 ?w" "index_sound 0 ?w"
    by (simp_all add: indexed_def index_sound_def)
  from fold_reindexStep [OF this, of ?ss] assms
  show "wf_index (reindexLocked w)"
    "w_secrets (reindexLocked w) = sortLongestFirst (w_secrets w)"
    "w_buf (reindexLocked w) = w_buf w" "w_out (reindexLocked w) = w_out w"
    "w_written (reindexLocked w) = w_written w" "w_maxOut (reindexLocked w) = w_maxOut w"
    "w_redactions (reindexLocked w) = w_redactions w"
    "w_maxSpan w \<le> w_maxSpan (reindexLocked w)"
    by (simp_all add: wf_index_def reindexLocked_def Let_def sortLongestFirst_sorted)
qed

lemma New_props:
  "wf_index (New out ss mx)" "set (w_secrets (New out ss mx)) = set ss - {[]}"
  "w_buf (New out ss mx) = []" "w_out (New out ss mx) = out" "w_written (New out ss mx) = 0"
  "w_maxOut (New out ss mx) = mx" "w_redactions (New out ss mx) = 0"
  unfolding New_def by (subst reindexLocked_props; auto)+

lemma AddSecret_props:
  assumes "wf_index w"
  shows "wf_index (AddSecret s w)" "set (w_secrets (AddSecret s w)) = set (w_secrets w) \<union> ({s} - {[]})"
    "w_buf (AddSecret s w) = w_buf w" "w_out (AddSecret s w) = w_out w"
    "w_written (AddSecret s w) = w_written w" "w_maxOut (AddSecret s w) = w_maxOut w"
    "w_redactions (AddSecret s w) = w_redactions w"
    "w_maxSpan w \<le> w_maxSpan (AddSecret s w)"
proof -
  have "[] \<notin> set (w_secrets (w\<lparr>w_secrets := w_secrets w @ [s]\<rparr>))" if "s \<noteq> []"
    using assms that by (auto simp: wf_index_def)
  note facts = reindexLocked_props [OF this]
  show "wf_index (AddSecret s w)" "w_buf (AddSecret s w) = w_buf w"
    "set (w_secrets (AddSecret s w)) = set (w_secrets w) \<union> ({s} - {[]})"
    "w_out (AddSecret s w) = w_out w" "w_written (AddSecret s w) = w_written w"
    "w_maxOut (AddSecret s w) = w_maxOut w" "w_redactions (AddSecret s w) = w_redactions w"
    using assms facts(1-7) by (cases "s = []"; simp add: AddSecret_def)+
  show "w_maxSpan w \<le> w_maxSpan (AddSecret s w)"
    using facts(8) by (cases "s = []"; simp add: AddSecret_def)
qed

end
