(* ===== verification/Redactor_Tiers.thy ===== *)
theory Redactor_Tiers
  imports Redactor_Index
begin

text \<open>
  \<open>matchAt\<close> on a writer with a well-formed index: it reads only what the hold-back keeps, it
  finds every exact, gap-tolerant and fragment occurrence that starts at the position, and
  it finds nothing without one of these reasons.
\<close>

section \<open>What \<open>matchAt\<close> recognises\<close>

lemma exactTier_Some:
  "exactTier ss b cands = Some n \<Longrightarrow> \<exists>i \<in> set cands. prefix (ss ! i) b \<and> n = length (ss ! i)"
  by (induction ss b cands rule: exactTier.induct)
    (auto simp: Let_def hasPrefix_iff split: if_splits)

lemma exactTier_None:
  "exactTier ss b cands = None \<longleftrightarrow> (\<forall>i \<in> set cands. \<not> prefix (ss ! i) b)"
  by (induction ss b cands rule: exactTier.induct)
    (auto simp: Let_def hasPrefix_iff dest: prefix_length_le)

lemma flexTier_Some:
  "flexTier ss m b cands = Some n \<Longrightarrow>
   \<exists>i \<in> set cands. matchFlex b (ss ! i) m = (n, True) \<and> n > 0"
  by (induction cands) (auto split: prod.splits if_splits)

lemma flexTier_None:
  "flexTier ss m b cands = None \<longleftrightarrow>
   (\<forall>i \<in> set cands. \<forall>n > 0. matchFlex b (ss ! i) m \<noteq> (n, True))"
  by (induction cands) (auto split: prod.splits if_splits)

lemma exactTier_take:
  "(\<And>i. i \<in> set cands \<Longrightarrow> length (ss ! i) \<le> m) \<Longrightarrow>
   exactTier ss (take m b) cands = exactTier ss b cands"
proof (induction cands)
  case (Cons a cands)
  then have "length (ss ! a) \<le> m" by simp
  then have "length (take m b) < length (ss ! a) \<longleftrightarrow> length b < length (ss ! a)" by auto
  with Cons show ?case by (simp add: Let_def hasPrefix_iff prefix_take_iff del: length_take)
qed simp

lemma flexTier_take: "flexTier ss m (take m b) cands = flexTier ss m b cands"
  by (induction cands) (simp_all add: matchFlex_take split: prod.split)

lemma matchSlice_Nil [simp]: "matchSlice w [] = 0"
  by (simp add: matchSlice_def)

lemma matchSlice_eq:
  "b \<noteq> [] \<Longrightarrow> matchSlice w b =
     (case exactTier (w_secrets w) b (w_byFirst w (hd b)) of
        Some n \<Rightarrow> n
      | None \<Rightarrow>
         (case flexTier (w_secrets w) (w_maxSpan w) b (w_byFirst w (hd b)) of
            Some n \<Rightarrow> n
          | None \<Rightarrow>
              if w_fragments w \<noteq> [] \<and> \<not> isFlexGap (hd b) then matchFragment w b else 0))"
proof -
  assume "b \<noteq> []"
  then obtain c b' where b: "b = c # b'" by (cases b) auto
  show ?thesis unfolding b matchSlice_def Let_def list.case list.sel ..
qed

lemma matchSlice_cong:
  assumes "w_secrets w' = w_secrets w" "w_byFirst w' = w_byFirst w"
    "w_fragments w' = w_fragments w" "w_maxSpan w' = w_maxSpan w"
  shows "matchSlice w' = matchSlice w"
proof (rule ext)
  fix b
  have "matchFragment w' b = matchFragment w b"
    using assms(3,4) by (simp only: matchFragment_def)
  then show "matchSlice w' b = matchSlice w b"
    unfolding matchSlice_def assms by (rule ssubst) (rule refl)
qed

lemma matchSlice_le: "matchSlice w b \<le> length b"
proof (cases b)
  case (Cons c b')
  show ?thesis
  proof (cases "exactTier (w_secrets w) b (w_byFirst w c)")
    case (Some n)
    with Cons show ?thesis
      using exactTier_Some [OF Some] by (auto simp: matchSlice_def dest: prefix_length_le)
  next
    case None
    note exact = this
    show ?thesis
    proof (cases "flexTier (w_secrets w) (w_maxSpan w) b (w_byFirst w c)")
      case (Some n)
      with exact Cons show ?thesis
        using flexTier_Some [OF Some] matchFlex_sound by (fastforce simp: matchSlice_def)
    next
      case None
      with exact Cons show ?thesis
        using matchFragment_bound [of w b] by (auto simp: matchSlice_def)
    qed
  qed
qed simp

lemma wf_cand:
  assumes "wf_index w" "i \<in> set (w_byFirst w c)"
  shows "i < length (w_secrets w)" "length (w_secrets w ! i) \<le> w_maxSpan w"
    "w_secrets w ! i \<in> set (w_secrets w)" "w_secrets w ! i \<noteq> []"
proof -
  show i: "i < length (w_secrets w)"
    using assms by (auto simp: wf_index_def index_sound_def)
  then show "w_secrets w ! i \<in> set (w_secrets w)" by simp
  then show "w_secrets w ! i \<noteq> []"
    using assms(1) by (metis wf_index_def)
  have "flexSpanCap (length (w_secrets w ! i)) \<le> w_maxSpan w"
    using assms(1) i by (simp add: wf_index_def indexed_def Let_def)
  then show "length (w_secrets w ! i) \<le> w_maxSpan w"
    by (simp add: flexSpanCap_def)
qed

lemma wf_secret:
  assumes "wf_index w" "s \<in> set (w_secrets w)"
  obtains i where "s = w_secrets w ! i" "s \<noteq> []" "i \<in> set (w_byFirst w (hd s))"
    "proj s \<noteq> [] \<longrightarrow> i \<in> set (w_byFirst w (hd (proj s)))"
    "longSecret s \<longrightarrow> (\<forall>off. off + fragmentLen \<le> length (proj s) \<longrightarrow>
       map_of (w_fragments w) (window (proj s) off) \<noteq> None)"
proof -
  from assms(2) obtain i where i: "i < length (w_secrets w)" "s = w_secrets w ! i"
    by (auto simp: in_set_conv_nth)
  have "indexed (length (w_secrets w)) w" using assms(1) by (simp add: wf_index_def)
  with i(1) have "i \<in> set (w_byFirst w (hd s))"
    "proj s \<noteq> [] \<longrightarrow> i \<in> set (w_byFirst w (hd (proj s)))"
    "longSecret s \<longrightarrow> (\<forall>off. off + fragmentLen \<le> length (proj s) \<longrightarrow>
       map_of (w_fragments w) (window (proj s) off) \<noteq> None)"
    unfolding indexed_def Let_def i(2) by blast+
  moreover have "s \<noteq> []" using assms by (auto simp: wf_index_def)
  ultimately show ?thesis using that i(2) by blast
qed

lemma exactTier_pos:
  assumes "wf_index w" "exactTier (w_secrets w) b (w_byFirst w c) = Some n"
  shows "n > 0"
  using exactTier_Some [OF assms(2)] wf_cand(4) [OF assms(1)] by auto

lemma flexTier_pos: "flexTier ss m b cands = Some n \<Longrightarrow> n > 0"
  by (drule flexTier_Some) blast

text \<open>Whatever tier finds something, the result is positive.\<close>

lemma matchSlice_pos:
  assumes "wf_index w" "b \<noteq> []"
    and "exactTier (w_secrets w) b (w_byFirst w (hd b)) \<noteq> None \<or>
      flexTier (w_secrets w) (w_maxSpan w) b (w_byFirst w (hd b)) \<noteq> None \<or>
      w_fragments w \<noteq> [] \<and> \<not> isFlexGap (hd b) \<and> matchFragment w b > 0"
  shows "matchSlice w b > 0"
proof (cases "exactTier (w_secrets w) b (w_byFirst w (hd b))")
  case (Some n)
  then show ?thesis
    using exactTier_pos [OF assms(1) Some] by (simp add: matchSlice_eq [OF assms(2)])
next
  case None
  note ex = this
  show ?thesis
  proof (cases "flexTier (w_secrets w) (w_maxSpan w) b (w_byFirst w (hd b))")
    case (Some n)
    then show ?thesis
      using ex flexTier_pos [OF Some] by (simp add: matchSlice_eq [OF assms(2)])
  next
    case None
    with ex assms(3) show ?thesis by (simp add: matchSlice_eq [OF assms(2)])
  qed
qed

lemma matchSlice_take:
  assumes "wf_index w"
  shows "matchSlice w (take (w_maxSpan w) b) = matchSlice w b"
proof (cases "w_maxSpan w")
  case 0
  then have "i \<notin> set (w_byFirst w c)" for i c
    using wf_cand(2,4) [OF assms] by fastforce
  then have "w_byFirst w c = []" for c
    by (metis ex_in_conv set_empty)
  then have "matchSlice w b = 0"
    using 0 matchFragment_bound [of w b] by (cases b) (simp_all add: matchSlice_def)
  with 0 show ?thesis by simp
next
  case (Suc m)
  show ?thesis
  proof (cases "b = []")
    case False
    let ?t = "take (w_maxSpan w) b"
    have t: "?t \<noteq> []" "hd ?t = hd b"
      using Suc False by (auto simp: hd_take)
    have "exactTier (w_secrets w) ?t (w_byFirst w (hd b)) =
        exactTier (w_secrets w) b (w_byFirst w (hd b))"
      by (rule exactTier_take) (use wf_cand [OF assms] in blast)
    then show ?thesis
      unfolding matchSlice_eq [OF t(1)] matchSlice_eq [OF False] t(2) flexTier_take
        matchFragment_take by simp
  qed simp
qed

text \<open>The result at a position is decided by the bytes the hold-back keeps.\<close>

lemma matchSlice_append:
  assumes "wf_index w" "w_maxSpan w \<le> length b"
  shows "matchSlice w (b @ z) = matchSlice w b"
  using matchSlice_take [OF assms(1), of "b @ z"] matchSlice_take [OF assms(1), of b] assms(2)
  by simp

lemma matchSlice_exact:
  assumes "wf_index w" "s \<in> set (w_secrets w)" "prefix s b"
  shows "matchSlice w b > 0"
proof -
  obtain i where i: "s = w_secrets w ! i" "s \<noteq> []" "i \<in> set (w_byFirst w (hd s))"
    using wf_secret [OF assms(1,2)] .
  from i(2) assms(3) have b: "b \<noteq> []" "hd s = hd b"
    by (auto simp: prefix_def)
  have "exactTier (w_secrets w) b (w_byFirst w (hd b)) \<noteq> None"
    using i b assms(3) by (metis exactTier_None)
  then show ?thesis
    using matchSlice_pos [OF assms(1) b(1)] by blast
qed

lemma matchSlice_flex:
  assumes "wf_index w" "s \<in> set (w_secrets w)" "proj s \<noteq> []"
    and u: "prefix u b" "length u \<le> w_maxSpan w" "proj u = proj s" "\<not> isFlexGap (hd b)"
  shows "matchSlice w b > 0"
proof -
  obtain i where i: "s = w_secrets w ! i" "proj s \<noteq> [] \<longrightarrow> i \<in> set (w_byFirst w (hd (proj s)))"
    using wf_secret [OF assms(1,2)] .
  have ne: "u \<noteq> []" using u(3) assms(3) by auto
  with u(1) have b: "b \<noteq> []" "hd b = hd u" by (auto simp: prefix_def)
  have hd: "hd (proj s) = hd b"
    unfolding u(3) [symmetric] using ne u(4) b(2) by (cases u) auto
  have tk: "take (length u) b = u" using u(1) by (auto simp: prefix_def)
  obtain k where k: "matchFlex b s (w_maxSpan w) = (k, True)"
    using matchFlex_complete [of "length u" b "w_maxSpan w" s] u tk prefix_length_le by metis
  have "k > 0" using matchFlex_sound [OF k] assms(3) by (cases k) auto
  then have "flexTier (w_secrets w) (w_maxSpan w) b (w_byFirst w (hd b)) \<noteq> None"
    using i k hd assms(3) by (metis flexTier_None)
  then show ?thesis
    using matchSlice_pos [OF assms(1) b(1)] by blast
qed

lemma matchSlice_fragment:
  assumes "wf_index w" "s \<in> set (w_secrets w)" "longSecret s"
    and off: "off + fragmentLen \<le> length (proj s)"
    and u: "prefix u b" "length u \<le> w_maxSpan w" "proj u = window (proj s) off"
    and ng: "\<not> isFlexGap (hd b)"
  shows "matchSlice w b > 0"
proof -
  have hit: "map_of (w_fragments w) (window (proj s) off) \<noteq> None"
    using wf_secret [OF assms(1,2)] assms(3) off by metis
  have len: "length (window (proj s) off) = fragmentLen"
    using off by (simp add: window_def)
  have tk: "take (length u) b = u" using u(1) by (auto simp: prefix_def)
  have frag: "matchFragment w b > 0"
    by (rule matchFragment_hit [of "length u"])
      (use u tk len hit in \<open>auto dest: prefix_length_le\<close>)
  then have "b \<noteq> []" using matchFragment_bound [of w b] by auto
  moreover have "w_fragments w \<noteq> []" using hit by auto
  ultimately show ?thesis
    using matchSlice_pos [OF assms(1)] frag ng by blast
qed

section \<open>Why something is redacted\<close>

lemma extendRun_spec:
  assumes "e \<le> i" "i \<le> limit" "limit \<le> length b" "off \<le> j" "j \<le> length s"
    and "proj (take e b) = take (j - off) (drop off s)" "proj (take i b) = proj (take e b)"
  shows "\<exists>j'. j \<le> j' \<and> j' \<le> length s \<and>
    proj (take (extendRun b limit s i j e) b) = take (j' - off) (drop off s)"
  using assms
proof (induction b limit s i j e rule: extendRun.induct)
  case (1 b limit s i j e)
  consider "\<not> (i < limit \<and> j < length s)" | "i < limit" "j < length s" "isFlexGap (b ! i)"
    | "i < limit" "j < length s" "\<not> isFlexGap (b ! i)" "b ! i \<noteq> s ! j"
    | "i < limit" "j < length s" "\<not> isFlexGap (b ! i)" "b ! i = s ! j"
    by blast
  then show ?case
  proof cases
    case 1
    with "1.prems" show ?thesis by (subst extendRun.simps) auto
  next
    case 2
    have "proj (take (Suc i) b) = proj (take i b)"
      using 2 "1.prems" by (simp add: take_Suc_conv_app_nth)
    with "1.IH"(1) 2 "1.prems" show ?thesis by (subst extendRun.simps) simp
  next
    case 3
    with "1.prems" show ?thesis by (subst extendRun.simps) auto
  next
    case 4
    have "proj (take (Suc i) b) = take (j - off) (drop off s) @ [s ! j]"
      using 4 "1.prems" by (simp add: take_Suc_conv_app_nth)
    also have "\<dots> = take (Suc j - off) (drop off s)"
      using 4 "1.prems" take_Suc_conv_app_nth [of "j - off" "drop off s"] by (simp add: Suc_diff_le)
    finally have p: "proj (take (Suc i) b) = take (Suc j - off) (drop off s)" .
    have "\<exists>j'. Suc j \<le> j' \<and> j' \<le> length s \<and>
      proj (take (extendRun b limit s (Suc i) (Suc j) (Suc i)) b) = take (j' - off) (drop off s)"
      by (rule "1.IH"(2)) (use 4 "1.prems" p in auto)
    then obtain j' where "Suc j \<le> j'" "j' \<le> length s"
      "proj (take (extendRun b limit s (Suc i) (Suc j) (Suc i)) b) = take (j' - off) (drop off s)"
      by blast
    with 4 show ?thesis by (subst extendRun.simps) (auto intro!: exI [of _ j'])
  qed
qed

text \<open>
  The three reasons for redacting \<open>t\<close>: it is a secret, it is a secret up to gap bytes, or its
  non-gap bytes are a run of at least twelve bytes of a long secret.
\<close>

definition justified :: "bytes list \<Rightarrow> bytes \<Rightarrow> bool" where
  "justified ss t \<longleftrightarrow>
     (\<exists>s \<in> set ss. t = s \<or> (proj t = proj s \<and> proj s \<noteq> []) \<or>
        (longSecret s \<and> fragmentLen \<le> length (proj t) \<and> sublist (proj t) (proj s)))"

lemma matchFragment_justified:
  assumes "wf_index w" "matchFragment w b = n" "n > 0"
  shows "\<exists>s \<in> set (w_secrets w). longSecret s \<and>
    fragmentLen \<le> length (proj (take n b)) \<and> sublist (proj (take n b)) (proj s)"
proof -
  let ?l = "min (length b) (w_maxSpan w)"
  obtain i k where ck: "collectKey b ?l 0 [] = (i, k)" by fastforce
  have spec: "i \<le> ?l" "k = proj (take i b)" "length k \<le> fragmentLen"
    using collectKey_spec [OF ck] by auto
  from assms(2,3) ck obtain fh where fh: "length k = fragmentLen" "map_of (w_fragments w) k = Some fh"
    and n: "n = extendRun b ?l (fh_secret fh) i (fh_off fh + fragmentLen) i"
    using spec(3) by (auto simp: matchFragment_def Let_def split: if_splits option.splits)
  from fh(2) have "(k, fh) \<in> set (w_fragments w)" by (rule map_of_SomeD)
  with assms(1) have k: "k = window (fh_secret fh) (fh_off fh)"
      "fh_off fh + fragmentLen \<le> length (fh_secret fh)"
    and ex: "\<exists>j < length (w_secrets w). longSecret (w_secrets w ! j) \<and> fh_secret fh = proj (w_secrets w ! j)"
    by (auto simp: wf_index_def index_sound_def)
  from ex obtain s where s: "s \<in> set (w_secrets w)" "longSecret s" "fh_secret fh = proj s"
    by (metis nth_mem)
  have "\<exists>j'. fh_off fh + fragmentLen \<le> j' \<and> j' \<le> length (fh_secret fh) \<and>
      proj (take n b) = take (j' - fh_off fh) (drop (fh_off fh) (fh_secret fh))"
    unfolding n by (rule extendRun_spec) (use spec k in \<open>auto simp: window_def\<close>)
  then obtain j' where j': "fh_off fh + fragmentLen \<le> j'" "j' \<le> length (fh_secret fh)"
    "proj (take n b) = take (j' - fh_off fh) (drop (fh_off fh) (fh_secret fh))" by blast
  have "sublist (proj (take n b)) (proj s)"
    unfolding j'(3) s(3) by (rule sublist_drop [OF prefix_imp_sublist [OF take_is_prefix]])
  with j' s show ?thesis by auto
qed

lemma matchSlice_justified:
  assumes "wf_index w" "matchSlice w b = n" "n > 0"
  shows "justified (w_secrets w) (take n b)"
proof -
  have b: "b \<noteq> []" using assms(2,3) by (cases b) auto
  consider m where "exactTier (w_secrets w) b (w_byFirst w (hd b)) = Some m"
    | m where "exactTier (w_secrets w) b (w_byFirst w (hd b)) = None"
      "flexTier (w_secrets w) (w_maxSpan w) b (w_byFirst w (hd b)) = Some m"
    | "exactTier (w_secrets w) b (w_byFirst w (hd b)) = None"
      "flexTier (w_secrets w) (w_maxSpan w) b (w_byFirst w (hd b)) = None"
    by fastforce
  then show ?thesis
  proof cases
    case 1
    with assms(2) have "n = m" by (simp add: matchSlice_eq [OF b])
    with exactTier_Some [OF 1] obtain i where "i \<in> set (w_byFirst w (hd b))"
      "prefix (w_secrets w ! i) b" "n = length (w_secrets w ! i)" by blast
    with wf_cand(3) [OF assms(1)] show ?thesis
      by (auto simp: justified_def prefix_def)
  next
    case 2
    with assms(2) have "n = m" by (simp add: matchSlice_eq [OF b])
    with flexTier_Some [OF 2(2)] obtain i where i: "i \<in> set (w_byFirst w (hd b))"
      "matchFlex b (w_secrets w ! i) (w_maxSpan w) = (n, True)" by blast
    from matchFlex_sound [OF i(2)] assms(3)
    have p: "n \<le> length b" "proj (take n b) = proj (w_secrets w ! i)" "\<not> isFlexGap (b ! (n - 1))"
      by auto
    have "b ! (n - 1) \<in> set (take n b)"
      using p(1) assms(3) by (auto simp: in_set_conv_nth intro!: exI [of _ "n - 1"])
    with p(3) have "b ! (n - 1) \<in> set (proj (take n b))"
      by (simp add: proj_def)
    then have "proj (take n b) \<noteq> []" by auto
    with p(2) wf_cand(3) [OF assms(1) i(1)] show ?thesis
      by (auto simp: justified_def)
  next
    case 3
    with assms(2,3) have "matchFragment w b = n"
      by (simp add: matchSlice_eq [OF b] split: if_splits)
    from matchFragment_justified [OF assms(1) this assms(3)] show ?thesis
      by (auto simp: justified_def)
  qed
qed

end
