(* ===== verification/Redactor_Stream.thy ===== *)
theory Redactor_Stream
  imports Redactor_Tiers
begin

text \<open>
  The abstract specification of the redactor, a function on the whole stream, and the
  refinement: a writer that receives the stream in any chunks and is flushed sends its
  underlying writer exactly the capped rendering of that specification.  The contract of the
  underlying writer is the locale \<open>byte_sink\<close>.
\<close>

section \<open>The specification\<close>

datatype segment = Plain char | Hit bytes

function segs :: "(bytes \<Rightarrow> nat) \<Rightarrow> bytes \<Rightarrow> segment list" where
  "segs m b =
     (if b = [] then []
      else if m b = 0 then Plain (hd b) # segs m (tl b)
      else Hit (take (m b) b) # segs m (drop (m b) b))"
  by pat_completeness auto
termination by (relation "measure (\<lambda>(_, b). length b)") auto

declare segs.simps [simp del]

primrec rawSeg :: "segment \<Rightarrow> bytes" where
  "rawSeg (Plain c) = [c]"
| "rawSeg (Hit t) = t"

primrec renderSeg :: "segment \<Rightarrow> bytes" where
  "renderSeg (Plain c) = [c]"
| "renderSeg (Hit t) = placeholder"

definition render :: "segment list \<Rightarrow> bytes" where
  "render S = concat (List.map renderSeg S)"

definition hits :: "segment list \<Rightarrow> nat" where
  "hits S = length (List.filter (\<lambda>x. case x of Hit _ \<Rightarrow> True | Plain _ \<Rightarrow> False) S)"

text \<open>What the redactor is for: the whole stream with every match replaced.\<close>

definition redactAll :: "'o redactor \<Rightarrow> bytes \<Rightarrow> bytes" where
  "redactAll w b = render (segs (matchSlice w) b)"

definition capTake :: "int \<Rightarrow> bytes \<Rightarrow> bytes" where
  "capTake mx l = (if mx > 0 then take (nat mx) l else l)"

lemma segs_Nil [simp]: "segs m [] = []"
  by (simp add: segs.simps)

lemma render_simps [simp]:
  "render [] = []" "render (x # S) = renderSeg x @ render S" "render (S @ T) = render S @ render T"
  by (simp_all add: render_def)

lemma hits_simps [simp]:
  "hits [] = 0" "hits (Plain c # S) = hits S" "hits (Hit t # S) = Suc (hits S)"
  "hits (S @ T) = hits S + hits T"
  by (simp_all add: hits_def)

lemma render_Plain [simp]: "render (List.map Plain b) = b"
  by (induction b) auto

lemma hits_Plain [simp]: "hits (List.map Plain b) = 0"
  by (induction b) auto

lemma raw_segs: "concat (List.map rawSeg (segs m b)) = b"
proof (induction m b rule: segs.induct)
  case (1 m b)
  then show ?case by (cases "b = []") (auto simp: segs.simps [of m b])
qed

lemma segs_plain:
  assumes "\<And>r. r < q \<Longrightarrow> m (drop r b) = 0" "q \<le> length b"
  shows "segs m b = List.map Plain (take q b) @ segs m (drop q b)"
  using assms
proof (induction q arbitrary: b)
  case (Suc q)
  then obtain c b' where b: "b = c # b'" by (cases b) auto
  have "segs m b' = List.map Plain (take q b') @ segs m (drop q b')"
  proof (rule Suc.IH)
    fix r assume "r < q"
    then show "m (drop r b') = 0" using Suc.prems(1) [of "Suc r"] b by simp
  qed (use Suc.prems(2) b in simp)
  moreover have "m b = 0" using Suc.prems(1) [of 0] by simp
  ultimately show ?case by (simp add: b segs.simps [of m "c # b'"])
qed simp

lemma segs_hit:
  assumes "m b = n" "n > 0" "b \<noteq> []"
  shows "segs m b = Hit (take n b) # segs m (drop n b)"
  using assms by (simp add: segs.simps [of m b])

lemma scanFrom_spec:
  "scanFrom w p k = (q, n) \<Longrightarrow>
   p \<le> q \<and> q \<le> p + k \<and> (\<forall>r. p \<le> r \<and> r < q \<longrightarrow> matchAt w r = 0) \<and>
   (n = 0 \<longrightarrow> q = p + k) \<and> (n > 0 \<longrightarrow> q < p + k \<and> matchAt w q = n)"
proof (induction w p k rule: scanFrom.induct)
  case (2 w p k)
  show ?case
  proof (cases "matchAt w p > 0")
    case True
    with 2 show ?thesis by (auto simp: Let_def)
  next
    case False
    with "2.prems" have "scanFrom w (Suc p) k = (q, n)" by (simp add: Let_def)
    with "2.IH" False have ih: "Suc p \<le> q" "q \<le> Suc p + k" "n = 0 \<longrightarrow> q = Suc p + k"
      "\<forall>r. Suc p \<le> r \<and> r < q \<longrightarrow> matchAt w r = 0" "n > 0 \<longrightarrow> q < Suc p + k \<and> matchAt w q = n"
      by (auto simp: Let_def)
    have "matchAt w r = 0" if "p \<le> r" "r < q" for r
      using ih(4) False that by (cases "r = p") auto
    with ih show ?thesis by auto
  qed
qed simp

section \<open>What survives\<close>

lemma prefix_render_segs:
  "prefix u (render (segs m b)) \<Longrightarrow> CHR ''['' \<notin> set u \<Longrightarrow> prefix u b"
proof (induction m b arbitrary: u rule: segs.induct)
  case (1 m b)
  show ?case
  proof (cases "b = [] \<or> u = []")
    case False
    then obtain c b' d u' where b: "b = c # b'" and u: "u = d # u'"
      by (cases b; cases u) auto
    show ?thesis
    proof (cases "m b = 0")
      case True
      with "1.prems" have "d = c" "prefix u' (render (segs m b'))"
        by (simp_all add: b u segs.simps [of m "c # b'"])
      with "1.IH"(1) "1.prems"(2) True show ?thesis by (simp add: b u)
    next
      case False
      with "1.prems" show ?thesis
        by (simp add: b u segs.simps [of m "c # b'"] placeholder_def)
    qed
  qed (use "1.prems" in auto)
qed

text \<open>
  A word that \<open>m\<close> always matches, that has no bracket and is no part of the placeholder's
  letters, does not occur in the rendering.
\<close>

lemma no_survivor:
  assumes "\<And>b. prefix u b \<Longrightarrow> m b > 0" "u \<noteq> []"
    and br: "CHR ''['' \<notin> set u" "CHR '']'' \<notin> set u" and ph: "\<not> sublist u ''REDACTED''"
  shows "\<not> sublist u (render (segs m b))"
  using assms(1)
proof (induction m b rule: segs.induct)
  case (1 m b)
  show ?case
  proof (cases "b = []")
    case True
    then show ?thesis using assms(2) by simp
  next
    case False
    show ?thesis
    proof (cases "m b = 0")
      case True
      let ?r = "render (segs m (tl b))"
      have eq: "render (segs m b) = hd b # ?r"
        using False True by (simp add: segs.simps [of m b])
      have "\<not> prefix u (render (segs m b))"
        using prefix_render_segs [of u m b] br(1) "1.prems" [of b] True by auto
      with 1 False True show ?thesis unfolding eq by (simp add: sublist_Cons_right)
    next
      case hit: False
      let ?r = "render (segs m (drop (m b) b))"
      have eq: "render (segs m b) = [] @ CHR ''['' # (''REDACTED'' @ CHR '']'' # ?r)"
        using False hit by (simp add: segs.simps [of m b] placeholder_def)
      show ?thesis
      proof
        assume "sublist u (render (segs m b))"
        then have "sublist u [] \<or> sublist u (''REDACTED'' @ CHR '']'' # ?r)"
          unfolding eq by (rule sublist_avoids_sep) (rule br(1))
        then have "sublist u (''REDACTED'' @ CHR '']'' # ?r)"
          using assms(2) by (metis sublist_Nil_right)
        then have "sublist u ''REDACTED'' \<or> sublist u ?r"
          by (rule sublist_avoids_sep) (rule br(2))
        with 1 False hit ph show False by auto
      qed
    qed
  qed
qed

text \<open>For a gap-tolerant match the gaps in front of the first secret byte do not matter.\<close>

lemma no_gap_survivor:
  assumes "\<And>u b. prefix u b \<Longrightarrow> length u \<le> n \<Longrightarrow> proj u = p \<Longrightarrow> \<not> isFlexGap (hd b) \<Longrightarrow> m b > 0"
    and "p \<noteq> []" "proj u = p" "length u \<le> n"
    and br: "CHR ''['' \<notin> set u" "CHR '']'' \<notin> set u" and ph: "\<not> sublist p ''REDACTED''"
  shows "\<not> sublist u (render (segs m b))"
proof
  assume sub: "sublist u (render (segs m b))"
  let ?u = "dropWhile isFlexGap u"
  have u: "u = takeWhile isFlexGap u @ ?u" by simp
  have pu: "proj ?u = p" using assms(3) by simp
  then have ne: "?u \<noteq> []" using assms(2) by (metis proj_Nil)
  have ng: "\<not> isFlexGap (hd ?u)" using ne by (rule hd_dropWhile)
  have "sublist ?u u" by (metis u sublist_append_leftI sublist_order.order_refl)
  then have sub': "sublist ?u (render (segs m b))" using sub by (rule sublist_order.order_trans)
  have br': "CHR ''['' \<notin> set ?u" "CHR '']'' \<notin> set ?u"
    using br by (auto dest: set_dropWhileD)
  have ph': "\<not> sublist ?u ''REDACTED''"
  proof
    assume s: "sublist ?u ''REDACTED''"
    have "\<not> isFlexGap c" if "c \<in> set ''REDACTED''" for c
      using that by (auto simp: isFlexGap_def)
    with sublist_set [OF s] have "proj ?u = ?u"
      by (auto simp: proj_def filter_id_conv)
    with s pu ph show False by simp
  qed
  have "m b' > 0" if "prefix ?u b'" for b'
  proof (rule assms(1) [OF that])
    show "length ?u \<le> n" using assms(4) length_dropWhile_le [of isFlexGap u] by linarith
    show "\<not> isFlexGap (hd b')" using that ne ng by (auto simp: prefix_def)
  qed (rule pu)
  from no_survivor [where m = m, OF this ne br' ph'] sub' show False by blast
qed

section \<open>The contract of the underlying writer\<close>

text \<open>
  A sink that accepts everything: one write of \<open>d\<close> moves its state by \<open>upd\<close>, reports
  \<open>length d\<close> bytes and no error, and two writes are one write of the concatenation.
\<close>

locale byte_sink =
  fixes wr :: "'o \<Rightarrow> bytes \<Rightarrow> 'o \<times> nat \<times> 'e option"
    and upd :: "'o \<Rightarrow> bytes \<Rightarrow> 'o"
  assumes wr_ok: "d \<noteq> [] \<Longrightarrow> wr st d = (upd st d, length d, None)"
    and upd_nil: "upd st [] = st"
    and upd_append: "upd (upd st a) b = upd st (a @ b)"

definition delivered :: "('o \<Rightarrow> bytes \<Rightarrow> 'o) \<Rightarrow> 'o \<Rightarrow> bytes \<Rightarrow> 'o redactor \<Rightarrow> bool" where
  "delivered upd st acc w \<longleftrightarrow>
     w_out w = upd st (capTake (w_maxOut w) acc) \<and>
     w_written w = int (length (capTake (w_maxOut w) acc))"

text \<open>The writer differs only in its output, buffer and count.\<close>

definition same_index :: "'o redactor \<Rightarrow> 'o redactor \<Rightarrow> bool" where
  "same_index w' w \<longleftrightarrow> w_secrets w' = w_secrets w \<and> w_byFirst w' = w_byFirst w \<and>
     w_fragments w' = w_fragments w \<and> w_maxSpan w' = w_maxSpan w \<and> w_maxLen w' = w_maxLen w \<and>
     w_maxOut w' = w_maxOut w"

lemma same_index_refl [simp]: "same_index w w"
  by (simp add: same_index_def)

lemma same_index_trans: "same_index w'' w' \<Longrightarrow> same_index w' w \<Longrightarrow> same_index w'' w"
  by (simp add: same_index_def)

lemma same_index_matchSlice: "same_index w' w \<Longrightarrow> matchSlice w' = matchSlice w"
  by (rule matchSlice_cong) (simp_all add: same_index_def)

lemma same_index_wf: "same_index w' w \<Longrightarrow> wf_index w' = wf_index w"
  by (simp add: same_index_def wf_index_def indexed_def index_sound_def)

lemma emit_same_index: "same_index (fst (emit wr w d)) w"
  by (simp add: emit_def Let_def case_prod_beta same_index_def)

lemma emit_redactions [simp]: "w_redactions (fst (emit wr w d)) = w_redactions w"
  by (simp add: emit_def Let_def case_prod_beta)

text \<open>One round of \<open>scan\<close> decides a piece of the segmentation, whatever comes later.\<close>

lemma matchSlice_held:
  assumes "wf_index w" "r < length b - holdBack final w" "final \<longrightarrow> z = []"
  shows "matchSlice w (drop r b @ z) = matchSlice w (drop r b)"
proof (cases final)
  case False
  with assms(2) have "w_maxSpan w \<le> length (drop r b)"
    by (auto simp: holdBack_def split: if_splits)
  then show ?thesis by (rule matchSlice_append [OF assms(1)])
qed (use assms(3) in simp)

lemma scanFrom_segs:
  assumes wf: "wf_index w" and z: "final \<longrightarrow> z = []"
    and scan: "scanFrom w 0 (length (w_buf w) - holdBack final w) = (q, n)"
  shows "segs (matchSlice w) (w_buf w @ z) =
      List.map Plain (take q (w_buf w)) @
      (if n > 0
       then Hit (take n (drop q (w_buf w))) # segs (matchSlice w) (drop (q + n) (w_buf w) @ z)
       else segs (matchSlice w) (drop q (w_buf w) @ z))"
    and "q \<le> length (w_buf w) - holdBack final w"
    and "n = 0 \<Longrightarrow> q = length (w_buf w) - holdBack final w"
proof -
  let ?b = "w_buf w" and ?m = "matchSlice w"
  let ?k = "length ?b - holdBack final w"
  have spec: "q \<le> ?k" "n = 0 \<longrightarrow> q = ?k" "n > 0 \<longrightarrow> q < ?k \<and> ?m (drop q ?b) = n"
    "\<And>r. r < q \<Longrightarrow> ?m (drop r ?b) = 0"
    using scanFrom_spec [OF scan] by (auto simp: matchAt_def)
  show "q \<le> ?k" "n = 0 \<Longrightarrow> q = ?k" using spec by auto
  have "?m (drop r (?b @ z)) = 0" if "r < q" for r
    using matchSlice_held [OF wf, of r ?b final z] z spec(1) spec(4) [OF that] that by simp
  then have plain: "segs ?m (?b @ z) = List.map Plain (take q ?b) @ segs ?m (drop q ?b @ z)"
    using segs_plain [of q ?m "?b @ z"] spec(1) by simp
  show "segs ?m (?b @ z) = List.map Plain (take q ?b) @
      (if n > 0 then Hit (take n (drop q ?b)) # segs ?m (drop (q + n) ?b @ z)
       else segs ?m (drop q ?b @ z))"
  proof (cases "n > 0")
    case True
    with spec have q: "q < ?k" "?m (drop q ?b) = n" by auto
    have n: "n \<le> length (drop q ?b)"
      using matchSlice_le [of w "drop q ?b"] q(2) by simp
    have "?m (drop q ?b @ z) = n"
      using matchSlice_held [OF wf q(1)] z q(2) by simp
    moreover have "drop q ?b @ z \<noteq> []" using n True by auto
    ultimately have "segs ?m (drop q ?b @ z) =
        Hit (take n (drop q ?b @ z)) # segs ?m (drop n (drop q ?b @ z))"
      using True by (intro segs_hit) auto
    also have "\<dots> = Hit (take n (drop q ?b)) # segs ?m (drop (q + n) ?b @ z)"
      using n by (simp add: add.commute)
    finally show ?thesis using plain True by simp
  qed (use plain in simp)
qed

context byte_sink
begin

lemma emit_delivered:
  assumes "delivered upd st acc w"
  shows "\<exists>w'. emit wr w d = (w', None) \<and> delivered upd st (acc @ d) w'"
proof (cases "d = []")
  case True
  with assms show ?thesis by (simp add: emit_def)
next
  case False
  let ?mx = "w_maxOut w"
  consider "?mx \<le> 0" | "?mx > 0" "?mx \<le> int (length acc)" | "?mx > 0" "int (length acc) < ?mx"
    by linarith
  then show ?thesis
  proof cases
    case 1
    with False assms show ?thesis
      by (simp add: emit_def delivered_def capTake_def wr_ok upd_append Let_def)
  next
    case 2
    then have "nat ?mx \<le> length acc" by linarith
    with 2 False assms show ?thesis
      by (simp add: emit_def delivered_def capTake_def)
  next
    case 3
    then have le: "length acc \<le> nat ?mx" by linarith
    let ?r = "?mx - w_written w"
    have r: "nat ?r = nat ?mx - length acc" "w_written w = int (length acc)"
      using 3 le assms by (auto simp: delivered_def capTake_def)
    let ?d = "if int (length d) > ?r then take (nat ?r) d else d"
    have "?d = take (nat ?mx - length acc) d"
      using r 3 by auto
    then have "capTake ?mx (acc @ d) = acc @ ?d" "capTake ?mx acc = acc"
      using 3 le by (simp_all add: capTake_def)
    moreover have "\<not> nat ?mx \<le> length acc" using 3 by linarith
    ultimately show ?thesis
      using 3 r False assms by (simp add: emit_def delivered_def wr_ok upd_append Let_def)
  qed
qed

lemma scan_delivered:
  assumes "wf_index w" "delivered upd st acc w"
  shows "\<exists>w' S. scan wr final w = (w', None) \<and> delivered upd st (acc @ render S) w' \<and>
    same_index w' w \<and> w_redactions w' = w_redactions w + int (hits S) \<and>
    length (w_buf w') \<le> holdBack final w \<and>
    (\<forall>z. (final \<longrightarrow> z = []) \<longrightarrow>
      segs (matchSlice w) (w_buf w @ z) = S @ segs (matchSlice w) (w_buf w' @ z))"
  using assms
proof (induction "length (w_buf w)" arbitrary: w acc rule: less_induct)
  case less
  let ?h = "holdBack final w" and ?b = "w_buf w"
  show ?case
  proof (cases "length ?b \<le> ?h")
    case True
    then have "scan wr final w = (w, None)" by (simp add: scan.simps)
    with True less.prems show ?thesis by (intro exI [of _ w] exI [of _ "[]"]) simp
  next
    case False
    obtain q n where qn: "scanFrom w 0 (length ?b - ?h) = (q, n)" by fastforce
    note segs = scanFrom_segs [OF less.prems(1) _ qn, of z for z]
    obtain w1 where w1: "emit wr w (take q ?b) = (w1, None)"
      "delivered upd st (acc @ take q ?b) w1"
      using emit_delivered [OF less.prems(2)] by blast
    have s1: "same_index w1 w" "w_buf w1 = ?b" "w_redactions w1 = w_redactions w"
      using emit_same_index [of wr w "take q ?b"] emit_buf [of wr w "take q ?b"]
        emit_redactions [of wr w "take q ?b"] w1(1) by simp_all
    let ?w2 = "w1\<lparr>w_buf := drop q ?b\<rparr>"
    have d2: "delivered upd st (acc @ take q ?b) ?w2"
      using w1(2) by (simp add: delivered_def)
    have s2: "same_index ?w2 w" using s1(1) by (simp add: same_index_def)
    show ?thesis
    proof (cases "n > 0")
      case False
      with \<open>\<not> length ?b \<le> ?h\<close> qn w1 s1 have "scan wr final w = (?w2, None)"
        by (simp add: scan.simps)
      moreover have "length (drop q ?b) \<le> ?h"
        using segs(3) [of "[]"] False by simp
      ultimately show ?thesis
        using False d2 s2 s1(3) segs(1)
        by (intro exI [of _ ?w2] exI [of _ "List.map Plain (take q ?b)"]) simp
    next
      case True
      obtain w3 where w3: "emit wr ?w2 placeholder = (w3, None)"
        "delivered upd st ((acc @ take q ?b) @ placeholder) w3"
        using emit_delivered [OF d2] by blast
      have s3: "same_index w3 w" "w_buf w3 = drop q ?b" "w_redactions w3 = w_redactions w"
        using emit_same_index [of wr ?w2 placeholder] emit_buf [of wr ?w2 placeholder]
          emit_redactions [of wr ?w2 placeholder] w3(1) s1 s2
        by (auto intro: same_index_trans)
      let ?w4 = "w3\<lparr>w_redactions := w_redactions w3 + 1, w_buf := drop n (drop q ?b)\<rparr>"
      have scan4: "scan wr final w = scan wr final ?w4"
        using True \<open>\<not> length ?b \<le> ?h\<close> qn w1 w3 s1 s3 by (simp add: scan.simps [of wr final w])
      have s4: "same_index ?w4 w" using s3(1) by (simp add: same_index_def)
      have m4: "matchSlice ?w4 = matchSlice w" using same_index_matchSlice [OF s4] .
      have h4: "holdBack final ?w4 = ?h" using s4 by (simp add: same_index_def holdBack_def)
      have wf4: "wf_index ?w4" using same_index_wf [OF s4] less.prems(1) by simp
      have shorter: "length (w_buf ?w4) < length ?b"
        using True False by simp
      have d4: "delivered upd st (acc @ take q ?b @ placeholder) ?w4"
        using w3(2) by (simp add: delivered_def)
      from less.hyps [OF shorter wf4 d4] obtain w' S where ih:
        "scan wr final ?w4 = (w', None)"
        "delivered upd st ((acc @ take q ?b @ placeholder) @ render S) w'"
        "same_index w' ?w4" "w_redactions w' = w_redactions ?w4 + int (hits S)"
        "length (w_buf w') \<le> ?h"
        "\<And>z. (final \<longrightarrow> z = []) \<Longrightarrow>
          segs (matchSlice w) (w_buf ?w4 @ z) = S @ segs (matchSlice w) (w_buf w' @ z)"
        unfolding m4 h4 by blast
      let ?S = "List.map Plain (take q ?b) @ Hit (take n (drop q ?b)) # S"
      have "segs (matchSlice w) (?b @ z) = ?S @ segs (matchSlice w) (w_buf w' @ z)"
        if "final \<longrightarrow> z = []" for z
        using segs(1) [OF that] ih(6) [OF that] True by (simp add: add.commute)
      moreover have "same_index w' w" using ih(3) s4 same_index_trans by blast
      ultimately show ?thesis
        using ih(1,2,4,5) scan4 s3(3)
        by (intro exI [of _ w'] exI [of _ ?S]) simp
    qed
  qed
qed

lemma Write_delivered:
  assumes "wf_index w" "delivered upd st acc w" "length (w_buf w) \<le> holdBack False w"
  shows "\<exists>w' S. Write wr w p = (w', length p, None) \<and> delivered upd st (acc @ render S) w' \<and>
    same_index w' w \<and> w_redactions w' = w_redactions w + int (hits S) \<and>
    length (w_buf w') \<le> holdBack False w \<and>
    (\<forall>z. segs (matchSlice w) (w_buf w @ p @ z) = S @ segs (matchSlice w) (w_buf w' @ z))"
proof (cases "p = []")
  case True
  with assms show ?thesis
    by (intro exI [of _ w] exI [of _ "[]"]) (simp add: Write_def)
next
  case False
  let ?w = "w\<lparr>w_buf := w_buf w @ p\<rparr>"
  have same: "same_index ?w w" by (simp add: same_index_def)
  have hold: "holdBack False ?w = holdBack False w" by (simp add: holdBack_def)
  have "delivered upd st acc ?w" using assms(2) by (simp add: delivered_def)
  with scan_delivered [of ?w st acc False] same assms(1) same_index_wf same_index_matchSlice [OF same]
  obtain w' S where "scan wr False ?w = (w', None)" "delivered upd st (acc @ render S) w'"
    "same_index w' ?w" "w_redactions w' = w_redactions w + int (hits S)"
    "length (w_buf w') \<le> holdBack False w"
    "\<forall>z. segs (matchSlice w) ((w_buf w @ p) @ z) = S @ segs (matchSlice w) (w_buf w' @ z)"
    unfolding hold by force
  with False same same_index_trans [of w' ?w w] show ?thesis
    by (intro exI [of _ w'] exI [of _ S]) (simp add: Write_def)
qed

lemma Flush_delivered:
  assumes "wf_index w" "delivered upd st acc w"
  shows "\<exists>w'. Flush wr w = (w', None) \<and> delivered upd st (acc @ redactAll w (w_buf w)) w' \<and>
    same_index w' w \<and> w_buf w' = [] \<and>
    w_redactions w' = w_redactions w + int (hits (segs (matchSlice w) (w_buf w)))"
proof -
  from scan_delivered [OF assms, of True] obtain w' S where
    w': "scan wr True w = (w', None)" "delivered upd st (acc @ render S) w'" "same_index w' w"
    "w_redactions w' = w_redactions w + int (hits S)" "length (w_buf w') \<le> 0"
    "segs (matchSlice w) (w_buf w @ []) = S @ segs (matchSlice w) (w_buf w' @ [])"
    by (auto simp: holdBack_def)
  then show ?thesis by (auto simp: Flush_def redactAll_def)
qed

end

end
