(* ===== verification/Redactor_Props.thy ===== *)
theory Redactor_Props
  imports Redactor_Stream
begin

text \<open>
  The redactor over a byte buffer (the \<open>bytes.Buffer\<close> or \<open>strings.Builder\<close> the callers pass to
  \<open>New\<close>), runs of its operations, and its correctness properties.
\<close>

section \<open>A buffer as the underlying writer\<close>

definition bufferWrite :: "bytes \<Rightarrow> bytes \<Rightarrow> bytes \<times> nat \<times> string option" where
  "bufferWrite st d = (st @ d, length d, None)"

text \<open>Writing chunks, in the locale of sinks that accept everything.\<close>

primrec writeAll :: "('o, 'e) sink \<Rightarrow> bytes list \<Rightarrow> 'o redactor \<Rightarrow> 'o redactor" where
  "writeAll wr [] w = w"
| "writeAll wr (p # ps) w = writeAll wr ps (fst (Write wr w p))"

context byte_sink
begin

lemma writeAll_delivered:
  assumes "wf_index w" "delivered upd st acc w" "length (w_buf w) \<le> holdBack False w"
  shows "\<exists>S. let w' = writeAll wr ps w in delivered upd st (acc @ render S) w' \<and> same_index w' w \<and>
    w_redactions w' = w_redactions w + int (hits S) \<and> length (w_buf w') \<le> holdBack False w \<and>
    (\<forall>z. segs (matchSlice w) (w_buf w @ concat ps @ z) = S @ segs (matchSlice w) (w_buf w' @ z))"
  using assms
proof (induction ps arbitrary: w acc)
  case Nil
  then show ?case by (intro exI [of _ "[]"]) simp
next
  case (Cons p ps)
  from Write_delivered [OF Cons.prems] obtain w1 S where w1: "Write wr w p = (w1, length p, None)"
    "delivered upd st (acc @ render S) w1" "same_index w1 w"
    "w_redactions w1 = w_redactions w + int (hits S)" "length (w_buf w1) \<le> holdBack False w"
    "\<And>z. segs (matchSlice w) (w_buf w @ p @ z) = S @ segs (matchSlice w) (w_buf w1 @ z)" by blast
  have same: "wf_index w1" "holdBack False w1 = holdBack False w" "matchSlice w1 = matchSlice w"
    using w1(3) Cons.prems(1) same_index_wf same_index_matchSlice
    by (blast, simp add: same_index_def holdBack_def, blast)
  from Cons.IH [OF same(1) w1(2)] w1(5) obtain T where T:
    "delivered upd st ((acc @ render S) @ render T) (writeAll wr ps w1)"
    "same_index (writeAll wr ps w1) w1"
    "w_redactions (writeAll wr ps w1) = w_redactions w1 + int (hits T)"
    "length (w_buf (writeAll wr ps w1)) \<le> holdBack False w"
    "\<And>z. segs (matchSlice w) (w_buf w1 @ concat ps @ z) =
      T @ segs (matchSlice w) (w_buf (writeAll wr ps w1) @ z)"
    unfolding same Let_def by auto
  have "segs (matchSlice w) (w_buf w @ p @ concat ps @ z) =
      (S @ T) @ segs (matchSlice w) (w_buf (writeAll wr ps w1) @ z)" for z
    using w1(6) [of "concat ps @ z"] T(5) [of z] by simp
  with T(1-4) w1 same_index_trans show ?case
    by (intro exI [of _ "S @ T"]) (auto simp: Let_def)
qed

text \<open>
  The contract of the redactor: after the last flush the sink has received the capped
  redaction of the whole stream, however it was cut into chunks.
\<close>

lemma session_delivered:
  assumes "wf_index w" "delivered upd st acc w" "length (w_buf w) \<le> holdBack False w"
  shows "let w' = fst (Flush wr (writeAll wr ps w)); b = w_buf w @ concat ps in
    w_out w' = upd st (capTake (w_maxOut w) (acc @ redactAll w b)) \<and>
    w_written w' = int (length (capTake (w_maxOut w) (acc @ redactAll w b))) \<and>
    w_redactions w' = w_redactions w + int (hits (segs (matchSlice w) b)) \<and> w_buf w' = []"
proof -
  let ?w1 = "writeAll wr ps w"
  from writeAll_delivered [OF assms, of ps] obtain S where S:
    "delivered upd st (acc @ render S) ?w1" "same_index ?w1 w"
    "w_redactions ?w1 = w_redactions w + int (hits S)"
    "\<forall>z. segs (matchSlice w) (w_buf w @ concat ps @ z) = S @ segs (matchSlice w) (w_buf ?w1 @ z)"
    unfolding Let_def by blast
  have S4: "segs (matchSlice w) (w_buf w @ concat ps) = S @ segs (matchSlice w) (w_buf ?w1)"
    using S(4) [THEN spec, of "[]"] by simp
  have same: "wf_index ?w1" "matchSlice ?w1 = matchSlice w"
    using S(2) assms(1) same_index_wf same_index_matchSlice by blast+
  from Flush_delivered [OF same(1) S(1)] obtain w' where w': "Flush wr ?w1 = (w', None)"
    "delivered upd st ((acc @ render S) @ redactAll ?w1 (w_buf ?w1)) w'" "same_index w' ?w1"
    "w_buf w' = []" "w_redactions w' = w_redactions ?w1 + int (hits (segs (matchSlice w) (w_buf ?w1)))"
    unfolding same by blast
  have "w_maxOut w' = w_maxOut w" using w'(3) S(2) by (simp add: same_index_def)
  moreover have "(acc @ render S) @ redactAll ?w1 (w_buf ?w1) = acc @ redactAll w (w_buf w @ concat ps)"
    using S4 by (simp add: redactAll_def same)
  ultimately show ?thesis
    using w'(1,2,4,5) S(3) S4 by (simp add: delivered_def Let_def)
qed

end

interpretation buf: byte_sink bufferWrite "(@)"
  by unfold_locales (simp_all add: bufferWrite_def)

section \<open>Runs\<close>

datatype redactorOp = OpWrite bytes | OpFlush | OpAddSecret bytes

fun redactorStep :: "('o, 'e) sink \<Rightarrow> redactorOp \<Rightarrow> 'o redactor \<Rightarrow> 'o redactor" where
  "redactorStep wr (OpWrite p) w = fst (Write wr w p)"
| "redactorStep wr OpFlush w = fst (Flush wr w)"
| "redactorStep wr (OpAddSecret s) w = AddSecret s w"

definition redactorRun :: "('o, 'e) sink \<Rightarrow> redactorOp list \<Rightarrow> 'o redactor \<Rightarrow> 'o redactor" where
  "redactorRun wr = fold (redactorStep wr)"

lemma scan_same_index: "same_index (fst (scan wr final w)) w"
proof (induction wr final w rule: scan.induct)
  case (1 wr final w)
  show ?case
  proof (cases "length (w_buf w) \<le> holdBack final w")
    case True
    then show ?thesis by (simp add: scan.simps)
  next
    case False
    obtain q n where qn: "scanFrom w 0 (length (w_buf w) - holdBack final w) = (q, n)" by fastforce
    obtain w1 e1 where e1: "emit wr w (take q (w_buf w)) = (w1, e1)" by fastforce
    have s1: "same_index w1 w" using emit_same_index [of wr w "take q (w_buf w)"] e1 by simp
    let ?w2 = "w1\<lparr>w_buf := drop q (w_buf w1)\<rparr>"
    have s2: "same_index ?w2 w" using s1 by (simp add: same_index_def)
    obtain w3 e3 where e3: "emit wr ?w2 placeholder = (w3, e3)" by fastforce
    have s3: "same_index w3 w"
      using emit_same_index [of wr ?w2 placeholder] e3 s2 by (auto intro: same_index_trans)
    show ?thesis
    proof (cases "e1 \<noteq> None \<or> n = 0 \<or> e3 \<noteq> None")
      case True
      with False qn e1 e3 s1 s2 s3 show ?thesis by (auto simp: scan.simps [of wr final w] Let_def)
    next
      case rec: False
      let ?w4 = "w3\<lparr>w_redactions := w_redactions w3 + 1, w_buf := drop n (w_buf w3)\<rparr>"
      have "same_index (fst (scan wr final ?w4)) ?w4"
        by (rule 1 [OF False refl qn [symmetric] refl e1 [symmetric] _ refl _ refl e3 [symmetric]])
          (use rec in auto)
      moreover have "same_index ?w4 w" using s3 by (simp add: same_index_def)
      moreover have "scan wr final w = scan wr final ?w4"
        using False qn e1 e3 rec by (simp add: scan.simps [of wr final w])
      ultimately show ?thesis by (auto intro: same_index_trans)
    qed
  qed
qed

lemma redactorStep_wf: "wf_index w \<Longrightarrow> wf_index (redactorStep wr op w)"
proof (cases op)
  case (OpWrite p)
  assume wf: "wf_index w"
  let ?w = "w\<lparr>w_buf := w_buf w @ p\<rparr>"
  have "same_index (fst (scan wr False ?w)) w"
    using scan_same_index [of wr False ?w] by (simp add: same_index_def)
  then have "same_index (fst (Write wr w p)) w"
    by (auto simp: Write_def split: prod.splits option.splits)
  with wf OpWrite show ?thesis by (simp add: same_index_wf)
next
  case OpFlush
  assume "wf_index w"
  with OpFlush scan_same_index [of wr True w] show ?thesis by (simp add: Flush_def same_index_wf)
next
  case (OpAddSecret s)
  assume "wf_index w"
  with OpAddSecret show ?thesis by (simp add: AddSecret_props)
qed

lemma redactorRun_wf: "wf_index w \<Longrightarrow> wf_index (redactorRun wr ops w)"
  unfolding redactorRun_def by (induction ops arbitrary: w) (simp_all add: redactorStep_wf)

abbreviation bufferRedactor :: "bytes list \<Rightarrow> int \<Rightarrow> bytes redactor" where
  "bufferRedactor \<equiv> New []"

lemma New_delivered: "delivered (@) out [] (New out ss mx)"
  by (simp add: delivered_def New_props capTake_def)

lemma New_hold: "length (w_buf (New out ss mx)) \<le> holdBack False (New out ss mx)"
  by (simp add: New_props)

lemma New_session:
  fixes ss mx ps
  defines "w \<equiv> bufferRedactor ss mx"
  defines "w' \<equiv> fst (Flush bufferWrite (writeAll bufferWrite ps w))"
  shows "w_out w' = capTake mx (redactAll w (concat ps))"
    and "w_written w' = int (length (w_out w'))"
    and "w_redactions w' = int (hits (segs (matchSlice w) (concat ps)))"
  using buf.session_delivered [of "bufferRedactor ss mx" "[]" "[]" ps, OF New_props(1) New_delivered New_hold]
  by (simp_all add: w'_def w_def Let_def New_props)

lemma New_span:
  "s \<in> set ss \<Longrightarrow> s \<noteq> [] \<Longrightarrow> flexSpanCap (length s) \<le> w_maxSpan (New out ss mx)"
proof -
  assume "s \<in> set ss" "s \<noteq> []"
  then have "s \<in> set (w_secrets (New out ss mx))" by (simp add: New_props)
  with New_props(1) [of out ss mx] show ?thesis
    by (auto simp: wf_index_def indexed_def Let_def in_set_conv_nth)
qed

section \<open>Properties\<close>

text \<open>C1: Streaming equals batch. A writer created by \<open>New\<close> that is given the stream in any
  chunks and flushed leaves in its buffer exactly the redaction of the whole stream, cut at
  the output cap; the hold-back never lets the chunking change the result.\<close>

theorem redactor_streaming:
  "w_out (fst (Flush bufferWrite (writeAll bufferWrite ps (bufferRedactor secrets mx)))) =
     capTake mx (redactAll (bufferRedactor secrets mx) (concat ps))"
  by (rule New_session(1))

text \<open>C2: No registered secret survives. For a non-empty secret without square brackets that is not
  part of the letters of the placeholder, the flushed output never contains it, whatever the
  chunks, the other secrets and the cap. The placeholder itself may show the secrets that are excluded.\<close>

theorem redactor_no_secret:
  assumes "s \<in> set secrets" "s \<noteq> []" "CHR ''['' \<notin> set s" "CHR '']'' \<notin> set s"
    and "\<not> sublist s ''REDACTED''"
  shows "\<not> sublist s (w_out (fst (Flush bufferWrite (writeAll bufferWrite ps (bufferRedactor secrets mx)))))"
proof -
  let ?w = "bufferRedactor secrets mx"
  have "s \<in> set (w_secrets ?w)" using assms(1,2) by (simp add: New_props)
  then have "matchSlice ?w b > 0" if "prefix s b" for b
    by (intro matchSlice_exact [OF New_props(1) _ that])
  from no_survivor [OF this assms(2-5)] have "\<not> sublist s (redactAll ?w (concat ps))"
    by (simp add: redactAll_def)
  then show ?thesis
    unfolding New_session(1) capTake_def using sublist_take by auto
qed

theorem redactor_no_secret_witness:
  "\<not> sublist ''hunter2'' (w_out (fst (Flush bufferWrite
     (writeAll bufferWrite [''pw=hun'', ''ter2 ok''] (bufferRedactor [''hunter2''] 0)))))"
  by (rule redactor_no_secret) (simp_all add: sublist_code)

text \<open>C3: Gap-tolerant redaction. No stretch of the flushed output that is no longer than the writer's span cap and has no square bracket
  shows exactly the non-gap bytes of a secret in order, with white space or control bytes anywhere between them, if the
  secret has any and they are not part of the letters of the placeholder. Wider stretches may.\<close>

theorem redactor_no_gapped_secret:
  assumes "s \<in> set secrets" "proj s \<noteq> []" "proj u = proj s"
    and "length u \<le> w_maxSpan (bufferRedactor secrets mx)"
    and "CHR ''['' \<notin> set u" "CHR '']'' \<notin> set u" "\<not> sublist (proj s) ''REDACTED''"
  shows "\<not> sublist u (w_out (fst (Flush bufferWrite (writeAll bufferWrite ps (bufferRedactor secrets mx)))))"
proof -
  let ?w = "bufferRedactor secrets mx"
  have s: "s \<in> set (w_secrets ?w)" using assms(1,2) by (auto simp: New_props)
  have "\<not> sublist u (redactAll ?w (concat ps))"
    unfolding redactAll_def
    by (rule no_gap_survivor [where n = "w_maxSpan ?w" and p = "proj s"])
      (use matchSlice_flex [OF New_props(1) s assms(2)] assms in auto)
  then show ?thesis
    unfolding New_session(1) capTake_def using sublist_take by auto
qed

theorem redactor_no_gapped_secret_witness:
  "\<not> sublist ''hun te r2'' (w_out (fst (Flush bufferWrite
     (writeAll bufferWrite [''pw=hun te'', '' r2 ok''] (bufferRedactor [''hunter2''] 0)))))"
proof (rule redactor_no_gapped_secret [of "''hunter2''"])
  show "length ''hun te r2'' \<le> w_maxSpan (bufferRedactor [''hunter2''] 0)"
    using New_span [of "''hunter2''" "[''hunter2'']" "[] :: bytes" 0] by (simp add: flexSpanCap_def)
qed (simp_all add: proj_def isFlexGap_def sublist_code)

text \<open>C4: Fragments of long secrets. For a secret that has between 24 and 65536 non-gap bytes, no stretch of the flushed output that is
  no longer than the writer's span cap and has no square bracket shows exactly twelve consecutive ones of them, again up to gap bytes.\<close>

theorem redactor_no_fragment:
  assumes "s \<in> set secrets" "longSecret s" "off + fragmentLen \<le> length (proj s)"
    and "proj u = window (proj s) off" "length u \<le> w_maxSpan (bufferRedactor secrets mx)"
    and "CHR ''['' \<notin> set u" "CHR '']'' \<notin> set u"
  shows "\<not> sublist u (w_out (fst (Flush bufferWrite (writeAll bufferWrite ps (bufferRedactor secrets mx)))))"
proof -
  let ?w = "bufferRedactor secrets mx"
  have s: "s \<in> set (w_secrets ?w)"
    using assms(1,2) by (auto simp: New_props longSecret_def fragmentMinSecretLen_def)
  have len: "length (window (proj s) off) = fragmentLen"
    using assms(3) by (simp add: window_def)
  have "\<not> sublist (window (proj s) off) ''REDACTED''"
    using len by (auto simp: fragmentLen_def dest: sublist_length_le)
  moreover have "window (proj s) off \<noteq> []" using len by (auto simp: fragmentLen_def)
  ultimately have "\<not> sublist u (redactAll ?w (concat ps))"
    unfolding redactAll_def
    by (intro no_gap_survivor [where n = "w_maxSpan ?w" and p = "window (proj s) off"])
      (use matchSlice_fragment [OF New_props(1) s assms(2,3)] assms in auto)
  then show ?thesis
    unfolding New_session(1) capTake_def using sublist_take by auto
qed

theorem redactor_no_fragment_witness:
  "\<not> sublist ''cdefghijklmn'' (w_out (fst (Flush bufferWrite
     (writeAll bufferWrite [''x cdefghijklmn''] (bufferRedactor [''abcdefghijklmnopqrstuvwxyz''] 100)))))"
proof (rule redactor_no_fragment [of "''abcdefghijklmnopqrstuvwxyz''" _ 2])
  show "length ''cdefghijklmn'' \<le> w_maxSpan (bufferRedactor [''abcdefghijklmnopqrstuvwxyz''] 100)"
    using New_span [of "''abcdefghijklmnopqrstuvwxyz''" "[''abcdefghijklmnopqrstuvwxyz'']" "[] :: bytes" 100]
    by (simp add: flexSpanCap_def)
qed (simp_all add: longSecret_def fragmentMinSecretLen_def fragmentMaxSecretLen_def window_def
    fragmentLen_def proj_def isFlexGap_def)

primrec justifiedSeg :: "bytes list \<Rightarrow> segment \<Rightarrow> bool" where
  "justifiedSeg ss (Plain c) \<longleftrightarrow> True"
| "justifiedSeg ss (Hit t) \<longleftrightarrow> justified ss t"

text \<open>Every redaction is counted and justified. The stream splits into the plain bytes that
  are copied and the matches that become placeholders; \<open>RedactionCount\<close> is the number of
  matches, and each is a secret, a secret up to gaps, or a long run of a long secret.\<close>

lemma redactor_justified:
  "\<exists>S. concat (List.map rawSeg S) = concat ps \<and>
     (let w' = fst (Flush bufferWrite (writeAll bufferWrite ps (bufferRedactor secrets mx)))
      in w_out w' = capTake mx (render S) \<and> RedactionCount w' = int (hits S) \<and>
         BytesWritten w' = int (length (w_out w'))) \<and>
     list_all (justifiedSeg (List.filter (\<lambda>s. s \<noteq> []) secrets)) S"
proof -
  let ?w = "bufferRedactor secrets mx"
  have eq: "justified (w_secrets ?w) t = justified (List.filter (\<lambda>s. s \<noteq> []) secrets) t" for t
    by (auto simp: justified_def New_props)
  have "list_all (justifiedSeg (List.filter (\<lambda>s. s \<noteq> []) secrets)) (segs (matchSlice ?w) b)" for b
  proof (induction "matchSlice ?w" b rule: segs.induct)
    case (1 b)
    then show ?case
      using matchSlice_justified [OF New_props(1) refl, of "[] :: bytes" secrets mx b]
      by (auto simp: segs.simps [of _ b] eq)
  qed
  then show ?thesis
    by (intro exI [of _ "segs (matchSlice ?w) (concat ps)"])
      (simp add: raw_segs New_session Let_def redactAll_def RedactionCount_def BytesWritten_def)
qed

text \<open>The index invariant. Whatever the underlying writer does, every run of writes,
  flushes and added secrets from \<open>New\<close> keeps the index well-formed: candidates in range,
  every secret and every window of a long secret indexed, the span cap large enough.\<close>

lemma redactor_index_invariant:
  "wf_index (redactorRun wr ops (New out secrets mx))"
  by (rule redactorRun_wf [OF New_props(1)])

text \<open>A secret added late. What is written after \<open>AddSecret\<close>, including the bytes still held
  back at that point, is redacted under the new set of secrets, and what was already written
  stays.\<close>

lemma redactor_late_secret:
  "let w1 = writeAll bufferWrite ps (bufferRedactor secrets 0); w2 = AddSecret s w1;
       w3 = fst (Flush bufferWrite (writeAll bufferWrite qs w2))
   in w_out w3 = w_out w1 @ redactAll w2 (w_buf w1 @ concat qs)"
proof -
  let ?w0 = "bufferRedactor secrets 0"
  let ?w1 = "writeAll bufferWrite ps ?w0"
  let ?w2 = "AddSecret s ?w1"
  from buf.writeAll_delivered [of "bufferRedactor secrets 0" "[]" "[]" ps, OF New_props(1) New_delivered New_hold]
  obtain S where S: "delivered (@) [] (render S) ?w1" "same_index ?w1 ?w0"
    "length (w_buf ?w1) \<le> holdBack False ?w0"
    unfolding Let_def by (metis append_Nil)
  have wf1: "wf_index ?w1" using same_index_wf [OF S(2)] by (simp add: New_props)
  have "w_maxSpan ?w1 = w_maxSpan ?w0" "w_maxOut ?w1 = 0"
    using S(2) New_props(6) by (simp_all add: same_index_def)
  note facts = this AddSecret_props [OF wf1, of s]
  have "delivered (@) [] (render S) ?w2"
    using S(1) facts by (simp add: delivered_def)
  moreover have "length (w_buf ?w2) \<le> holdBack False ?w2"
    using S(3) facts by (auto simp: holdBack_def split: if_splits)
  ultimately show ?thesis
    using buf.session_delivered [of ?w2 "[]" "render S" qs, OF facts(3)] S(1) facts
    by (simp add: Let_def delivered_def capTake_def)
qed

end
