(* ===== verification/GoStrings.thy ===== *)
theory GoStrings
  imports Prelude
begin

text \<open>
  The functions of Go's \<open>strings\<close>, \<open>unicode/utf8\<close>, \<open>encoding/hex\<close> and \<open>sort\<close> packages that the
  components use, on byte strings.

  White space is \<open>unicode.IsSpace\<close>.  Its runes are listed by their UTF-8 encodings: a decoder
  that walks over a string, valid or not, is aligned at every lead byte, so a space rune is
  decoded at a position exactly when one of these encodings starts there, and
  \<open>DecodeLastRune\<close> finds one exactly when one of them ends the string.
\<close>

section \<open>White space\<close>

definition byteChar :: "nat \<Rightarrow> char" where
  "byteChar n = char_of n"

definition spaceEncodings :: "bytes list" where
  "spaceEncodings =
     List.map (List.map byteChar)
       ([[0x09], [0x0A], [0x0B], [0x0C], [0x0D], [0x20], [0xC2, 0x85], [0xC2, 0xA0],
         [0xE1, 0x9A, 0x80]] @
        List.map (\<lambda>k. [0xE2, 0x80, 0x80 + k]) [0..<11] @
        [[0xE2, 0x80, 0xA8], [0xE2, 0x80, 0xA9], [0xE2, 0x80, 0xAF], [0xE2, 0x81, 0x9F],
         [0xE3, 0x80, 0x80]])"

text \<open>The non-empty word of a list that starts a string, if there is one.\<close>

definition front :: "bytes list \<Rightarrow> bytes \<Rightarrow> bytes option" where
  "front encs s = find (\<lambda>e. e \<noteq> [] \<and> prefix e s) encs"

lemma front_Some: "front encs s = Some e \<Longrightarrow> e \<noteq> [] \<and> prefix e s \<and> e \<in> set encs"
  by (auto simp: front_def find_Some_iff)

lemma front_None: "front encs s = None \<longleftrightarrow> (\<forall>e \<in> set encs. e = [] \<or> \<not> prefix e s)"
  by (auto simp: front_def find_None_iff)

function strip :: "bytes list \<Rightarrow> bytes \<Rightarrow> bytes" where
  "strip encs s = (case front encs s of None \<Rightarrow> s | Some e \<Rightarrow> strip encs (drop (length e) s))"
  by pat_completeness auto
termination
  by (relation "measure (\<lambda>(_, s). length s)")
    (auto dest!: front_Some simp: prefix_def)

declare strip.simps [simp del]

definition TrimLeftSpace :: "bytes \<Rightarrow> bytes" where
  "TrimLeftSpace s = strip spaceEncodings s"

definition TrimRightSpace :: "bytes \<Rightarrow> bytes" where
  "TrimRightSpace s = rev (strip (List.map rev spaceEncodings) (rev s))"

definition TrimSpace :: "bytes \<Rightarrow> bytes" where
  "TrimSpace s = TrimRightSpace (TrimLeftSpace s)"

text \<open>\<open>strings.Fields\<close>: the maximal runs without a space rune; \<open>cur\<close> is the current run.\<close>

function fieldsFrom :: "bytes \<Rightarrow> bytes \<Rightarrow> bytes list" where
  "fieldsFrom cur s =
     (case s of
        [] \<Rightarrow> if cur = [] then [] else [cur]
      | c # s' \<Rightarrow>
          (case front spaceEncodings s of
             Some e \<Rightarrow> (if cur = [] then [] else [cur]) @ fieldsFrom [] (drop (length e) s)
           | None \<Rightarrow> fieldsFrom (cur @ [c]) s'))"
  by pat_completeness auto
termination
  by (relation "measure (\<lambda>(_, s). length s)")
    (auto dest!: front_Some simp: prefix_def)

declare fieldsFrom.simps [simp del]

definition Fields :: "bytes \<Rightarrow> bytes list" where
  "Fields s = fieldsFrom [] s"

fun Join :: "bytes list \<Rightarrow> bytes \<Rightarrow> bytes" where
  "Join [] sep = []"
| "Join [a] sep = a"
| "Join (a # b # as) sep = a @ sep @ Join (b # as) sep"

lemma strip_stripped: "front encs (strip encs s) = None"
  by (induction encs s rule: strip.induct)
    (subst strip.simps, auto split: option.split)

lemma strip_id: "front encs s = None \<Longrightarrow> strip encs s = s"
  by (subst strip.simps) simp

lemma strip_suffix: "suffix (strip encs s) s"
proof (induction encs s rule: strip.induct)
  case (1 encs s)
  show ?case
  proof (cases "front encs s")
    case None
    then show ?thesis by (simp add: strip_id)
  next
    case (Some e)
    with 1 [OF Some] have "suffix (strip encs s) (drop (length e) s)"
      by (simp add: strip.simps [of encs s])
    then show ?thesis by (meson suffix_drop suffix_order.trans)
  qed
qed

lemma front_prefix: "prefix t s \<Longrightarrow> front encs s = None \<Longrightarrow> front encs t = None"
  unfolding front_None by (meson prefix_order.trans)

lemma TrimRight_prefix: "prefix (TrimRightSpace s) s"
  using strip_suffix [of "List.map rev spaceEncodings" "rev s"]
  by (simp add: TrimRightSpace_def suffix_to_prefix)

lemma TrimSpace_idem [simp]: "TrimSpace (TrimSpace s) = TrimSpace s"
proof -
  let ?t = "TrimLeftSpace s"
  have "front spaceEncodings ?t = None"
    by (simp add: TrimLeftSpace_def strip_stripped)
  then have "front spaceEncodings (TrimRightSpace ?t) = None"
    by (rule front_prefix [OF TrimRight_prefix])
  then have "TrimLeftSpace (TrimRightSpace ?t) = TrimRightSpace ?t"
    by (simp add: TrimLeftSpace_def strip_id)
  moreover have "TrimRightSpace (TrimRightSpace ?t) = TrimRightSpace ?t"
    by (simp add: TrimRightSpace_def strip_id strip_stripped)
  ultimately show ?thesis by (simp add: TrimSpace_def)
qed

lemma TrimSpace_sublist: "sublist (TrimSpace s) s"
  unfolding TrimSpace_def TrimLeftSpace_def
  by (meson TrimRight_prefix prefix_imp_sublist strip_suffix suffix_imp_sublist
      sublist_order.order_trans)

text \<open>For evaluating the trimming of a literal.\<close>

lemma spaceEncodings_eq:
  "spaceEncodings = [[CHR 0x09],[CHR 0x0A],[CHR 0x0B],[CHR 0x0C],[CHR 0x0D],[CHR '' ''],
 [CHR 0xC2, CHR 0x85],[CHR 0xC2, CHR 0xA0],[CHR 0xE1,CHR 0x9A,CHR 0x80],
 [CHR 0xE2,CHR 0x80,CHR 0x80],[CHR 0xE2,CHR 0x80,CHR 0x81],[CHR 0xE2,CHR 0x80,CHR 0x82],[CHR 0xE2,CHR 0x80,CHR 0x83],
 [CHR 0xE2,CHR 0x80,CHR 0x84],[CHR 0xE2,CHR 0x80,CHR 0x85],[CHR 0xE2,CHR 0x80,CHR 0x86],[CHR 0xE2,CHR 0x80,CHR 0x87],
 [CHR 0xE2,CHR 0x80,CHR 0x88],[CHR 0xE2,CHR 0x80,CHR 0x89],[CHR 0xE2,CHR 0x80,CHR 0x8A],
 [CHR 0xE2,CHR 0x80,CHR 0xA8],[CHR 0xE2,CHR 0x80,CHR 0xA9],[CHR 0xE2,CHR 0x80,CHR 0xAF],[CHR 0xE2,CHR 0x81,CHR 0x9F],[CHR 0xE3,CHR 0x80,CHR 0x80]]"
  by (simp add: spaceEncodings_def byteChar_def upt_rec char_of_def bit_iff_odd)

lemmas trim_eval = TrimSpace_def TrimLeftSpace_def TrimRightSpace_def strip.simps front_def
  spaceEncodings_eq

section \<open>UTF-8\<close>

definition runeError :: nat where
  "runeError = 0xFFFD"

definition contByte :: "char \<Rightarrow> bool" where
  "contByte c \<longleftrightarrow> 0x80 \<le> (of_char c :: nat) \<and> of_char c \<le> (0xBF :: nat)"

text \<open>\<open>utf8.DecodeRune\<close>: the rune and its width; an invalid sequence is \<open>RuneError\<close> of width 1.\<close>

fun decodeRune :: "bytes \<Rightarrow> nat \<times> nat" where
  "decodeRune [] = (runeError, 0)"
| "decodeRune (c0 # s) =
     (let b0 = of_char c0 in
      if b0 < 0x80 then (b0, 1)
      else if 0xC2 \<le> b0 \<and> b0 \<le> 0xDF then
        (case s of
           c1 # _ \<Rightarrow> if contByte c1 then ((b0 - 0xC0) * 64 + (of_char c1 - 0x80), 2) else (runeError, 1)
         | [] \<Rightarrow> (runeError, 1))
      else if 0xE0 \<le> b0 \<and> b0 \<le> 0xEF then
        (case s of
           c1 # c2 # _ \<Rightarrow>
             (let b1 = of_char c1 in
              if (if b0 = 0xE0 then 0xA0 else 0x80) \<le> b1 \<and> b1 \<le> (if b0 = 0xED then 0x9F else 0xBF)
                 \<and> contByte c2
              then ((b0 - 0xE0) * 4096 + (b1 - 0x80) * 64 + (of_char c2 - 0x80), 3)
              else (runeError, 1))
         | _ \<Rightarrow> (runeError, 1))
      else if 0xF0 \<le> b0 \<and> b0 \<le> 0xF4 then
        (case s of
           c1 # c2 # c3 # _ \<Rightarrow>
             (let b1 = of_char c1 in
              if (if b0 = 0xF0 then 0x90 else 0x80) \<le> b1 \<and> b1 \<le> (if b0 = 0xF4 then 0x8F else 0xBF)
                 \<and> contByte c2 \<and> contByte c3
              then ((b0 - 0xF0) * 262144 + (b1 - 0x80) * 4096 + (of_char c2 - 0x80) * 64
                     + (of_char c3 - 0x80), 4)
              else (runeError, 1))
         | _ \<Rightarrow> (runeError, 1))
      else (runeError, 1))"

definition runeErrorBytes :: bytes where
  "runeErrorBytes = [byteChar 0xEF, byteChar 0xBF, byteChar 0xBD]"

lemma decodeRune_pos: "s \<noteq> [] \<Longrightarrow> 0 < snd (decodeRune s)"
  by (cases s) (auto simp: Let_def split: list.split)

section \<open>Hexadecimal\<close>

definition hexDigit :: "nat \<Rightarrow> char" where
  "hexDigit n = ''0123456789abcdef'' ! n"

definition hexByte :: "char \<Rightarrow> bytes" where
  "hexByte c = [hexDigit (of_char c div 16), hexDigit (of_char c mod 16)]"

definition hexEncode :: "bytes \<Rightarrow> bytes" where
  "hexEncode s = concat (List.map hexByte s)"

section \<open>Splitting and paths\<close>

text \<open>\<open>strings.Split(s, sep)\<close> for a separator of one byte, and \<open>strings.ContainsAny\<close>.\<close>

fun splitByte :: "char \<Rightarrow> bytes \<Rightarrow> bytes list" where
  "splitByte sep [] = [[]]"
| "splitByte sep (c # s) =
     (if c = sep then [] # splitByte sep s
      else (case splitByte sep s of
              [] \<Rightarrow> [[c]]
            | w # ws \<Rightarrow> (c # w) # ws))"

definition ContainsAny :: "bytes \<Rightarrow> bytes \<Rightarrow> bool" where
  "ContainsAny s chars \<longleftrightarrow> list_ex (\<lambda>c. c \<in> set chars) s"

lemma splitByte_nonempty [simp]: "splitByte sep s \<noteq> []"
  by (induction s) (auto split: list.split)

lemma splitByte_append_sep: "splitByte sep (a @ sep # b) = splitByte sep a @ splitByte sep b"
proof (induction a)
  case (Cons c a)
  then show ?case
    by (cases "splitByte sep a") (auto split: list.split)
qed simp

lemma splitByte_free: "sep \<notin> set s \<Longrightarrow> splitByte sep s = [s]"
  by (induction s) auto

text \<open>
  \<open>filepath.Clean\<close> on Unix, by components: empty ones and dots are dropped, a dot-dot
  removes the component before it, and is kept in front of a relative path only.
\<close>

fun cleanParts :: "bool \<Rightarrow> bytes list \<Rightarrow> bytes list \<Rightarrow> bytes list" where
  "cleanParts rooted out [] = rev out"
| "cleanParts rooted out (c # cs) =
     (if c = [] \<or> c = ''.'' then cleanParts rooted out cs
      else if c = ''..'' then
        (case out of
           [] \<Rightarrow> cleanParts rooted (if rooted then [] else [c]) cs
         | p # out' \<Rightarrow> if p = ''..'' then cleanParts rooted (c # out) cs else cleanParts rooted out' cs)
      else cleanParts rooted (c # out) cs)"

definition Clean :: "bytes \<Rightarrow> bytes" where
  "Clean path =
     (let rooted = prefix ''/'' path;
          body = Join (cleanParts rooted [] (splitByte (CHR ''/'') path)) ''/''
      in if rooted then ''/'' @ body else if body = [] then ''.'' else body)"

text \<open>\<open>filepath.Base\<close>: the last element, trailing slashes removed.\<close>

definition Base :: "bytes \<Rightarrow> bytes" where
  "Base path =
     (if path = [] then ''.''
      else let p = rev (dropWhile (\<lambda>c. c = CHR ''/'') (rev path));
               b = rev (takeWhile (\<lambda>c. c \<noteq> CHR ''/'') (rev p))
           in if b = [] then ''/'' else b)"

section \<open>Lower case\<close>

text \<open>
  \<open>strings.ToLower\<close> as far as a comparison with an ASCII name can see it: ASCII letters, and
  the two other runes whose lower case is ASCII (U+212A KELVIN SIGN and U+0130).  The
  remaining runes keep a lower case outside ASCII and are left as they are.
\<close>

definition lowerByte :: "char \<Rightarrow> char" where
  "lowerByte c = (let n = of_char c in if 65 \<le> n \<and> n \<le> (90 :: nat) then char_of (n + 32) else c)"

fun ToLower :: "bytes \<Rightarrow> bytes" where
  "ToLower (a # b # c # s) =
     (if [a, b, c] = [byteChar 0xE2, byteChar 0x84, byteChar 0xAA] then CHR ''k'' # ToLower s
      else if [a, b] = [byteChar 0xC4, byteChar 0xB0] then CHR ''i'' # ToLower (c # s)
      else lowerByte a # ToLower (b # c # s))"
| "ToLower [a, b] =
     (if [a, b] = [byteChar 0xC4, byteChar 0xB0] then ''i'' else [lowerByte a, lowerByte b])"
| "ToLower [a] = [lowerByte a]"
| "ToLower [] = []"

lemma ToLower_ascii: "\<forall>c \<in> set s. (of_char c :: nat) < 128 \<Longrightarrow> ToLower s = List.map lowerByte s"
proof (induction s rule: ToLower.induct)
  case (1 a b c s)
  have "a \<noteq> byteChar 0xE2" "a \<noteq> byteChar 0xC4"
    using "1.prems" by (auto simp: byteChar_def)
  with 1 show ?case by simp
next
  case (2 a b)
  have "a \<noteq> byteChar 0xC4" using "2.prems" by (auto simp: byteChar_def)
  then show ?case by simp
qed simp_all

text \<open>
  \<open>strings.EqualFold\<close>: ASCII letters are compared without case, and with the two other runes
  that fold to one (U+212A KELVIN SIGN and U+017F LATIN SMALL LETTER LONG S).  The other runes are
  compared as they are, so a difference in their case counts as a difference.
\<close>

fun foldBytes :: "bytes \<Rightarrow> bytes" where
  "foldBytes (a # b # c # s) =
     (if [a, b, c] = [byteChar 0xE2, byteChar 0x84, byteChar 0xAA] then CHR ''k'' # foldBytes s
      else if [a, b] = [byteChar 0xC5, byteChar 0xBF] then CHR ''s'' # foldBytes (c # s)
      else lowerByte a # foldBytes (b # c # s))"
| "foldBytes [a, b] =
     (if [a, b] = [byteChar 0xC5, byteChar 0xBF] then ''s'' else [lowerByte a, lowerByte b])"
| "foldBytes [a] = [lowerByte a]"
| "foldBytes [] = []"

lemma foldBytes_ascii: "\<forall>c \<in> set s. (of_char c :: nat) < 128 \<Longrightarrow> foldBytes s = List.map lowerByte s"
proof (induction s rule: foldBytes.induct)
  case (1 a b c s)
  have "a \<noteq> byteChar 0xE2" "a \<noteq> byteChar 0xC5"
    using "1.prems" by (auto simp: byteChar_def)
  with 1 show ?case by simp
next
  case (2 a b)
  have "a \<noteq> byteChar 0xC5" using "2.prems" by (auto simp: byteChar_def)
  then show ?case by simp
qed simp_all

definition EqualFold :: "bytes \<Rightarrow> bytes \<Rightarrow> bool" where
  "EqualFold s t \<longleftrightarrow> foldBytes s = foldBytes t"

section \<open>Lines\<close>

abbreviation newline :: char where "newline \<equiv> CHR 0x0A"

definition rawLines :: "bytes \<Rightarrow> bytes list" where
  "rawLines s = (let ps = splitByte newline s in if last ps = [] then butlast ps else ps)"

definition dropCR :: "bytes \<Rightarrow> bytes" where
  "dropCR l = (if l \<noteq> [] \<and> last l = CHR 0x0D then butlast l else l)"

text \<open>
  \<open>bufio.Scanner\<close> with a buffer of at most \<open>maxToken\<close> bytes: the lines before the first one that
  does not fit, and whether there is such a line.
\<close>

definition Scanner :: "nat \<Rightarrow> bytes \<Rightarrow> bytes list \<times> bool" where
  "Scanner maxToken s =
     (let ls = rawLines s in
      (List.map dropCR (takeWhile (\<lambda>l. length l < maxToken) ls), list_ex (\<lambda>l. length l \<ge> maxToken) ls))"

end
