(* ===== verification/GoEncoding.thy ===== *)
theory GoEncoding
  imports GoStrings
begin

text \<open>
  The encoders of Go's \<open>encoding/base64\<close>, \<open>net/url\<close> and \<open>encoding/json\<close> packages that the
  components use, on byte strings.
\<close>

section \<open>Base64\<close>

definition b64Std :: bytes where
  "b64Std = ''ABCDEFGHIJKLMNOPQRSTUVWXYZabcdefghijklmnopqrstuvwxyz0123456789+/''"

definition b64URL :: bytes where
  "b64URL = ''ABCDEFGHIJKLMNOPQRSTUVWXYZabcdefghijklmnopqrstuvwxyz0123456789-_''"

fun sextets :: "nat list \<Rightarrow> nat list" where
  "sextets (a # b # c # r) =
     [a div 4, (a mod 4) * 16 + b div 16, (b mod 16) * 4 + c div 64, c mod 64] @ sextets r"
| "sextets [a, b] = [a div 4, (a mod 4) * 16 + b div 16, (b mod 16) * 4]"
| "sextets [a] = [a div 4, (a mod 4) * 16]"
| "sextets [] = []"

definition byteVals :: "bytes \<Rightarrow> nat list" where
  "byteVals s = List.map of_char s"

text \<open>\<open>RawStdEncoding\<close> and \<open>RawURLEncoding\<close>, and with padding \<open>StdEncoding\<close> and \<open>URLEncoding\<close>.\<close>

definition b64Raw :: "bytes \<Rightarrow> bytes \<Rightarrow> bytes" where
  "b64Raw alphabet s = List.map (\<lambda>i. alphabet ! i) (sextets (byteVals s))"

definition b64Padded :: "bytes \<Rightarrow> bytes \<Rightarrow> bytes" where
  "b64Padded alphabet s = b64Raw alphabet s @ replicate ((3 - length s mod 3) mod 3) (CHR ''='')"

section \<open>Percent encoding\<close>

definition hexUpper :: "nat \<Rightarrow> char" where
  "hexUpper n = ''0123456789ABCDEF'' ! n"

definition pctByte :: "char \<Rightarrow> bytes" where
  "pctByte c = [CHR ''%'', hexUpper (of_char c div 16), hexUpper (of_char c mod 16)]"

definition alnum :: "char \<Rightarrow> bool" where
  "alnum c \<longleftrightarrow> (let n = of_char c in (97 \<le> n \<and> n \<le> 122) \<or> (65 \<le> n \<and> n \<le> 90) \<or> (48 \<le> n \<and> n \<le> (57 :: nat)))"

definition QueryEscape :: "bytes \<Rightarrow> bytes" where
  "QueryEscape s = concat (List.map (\<lambda>c.
     if alnum c \<or> c \<in> set ''-_.~'' then [c] else if c = CHR '' '' then ''+'' else pctByte c) s)"

definition PathEscape :: "bytes \<Rightarrow> bytes" where
  "PathEscape s = concat (List.map (\<lambda>c.
     if alnum c \<or> c \<in> set ''-_.~$&+=:@'' then [c] else pctByte c) s)"

text \<open>\<open>PathUnescape\<close> and \<open>QueryUnescape\<close>, the decoders the escapes are checked against.\<close>

definition hexValue :: "char \<Rightarrow> nat option" where
  "hexValue c =
     (let n = of_char c in
      if 48 \<le> n \<and> n \<le> 57 then Some (n - 48)
      else if 97 \<le> n \<and> n \<le> 102 then Some (n - 87)
      else if 65 \<le> n \<and> n \<le> 70 then Some (n - 55)
      else None)"

fun unescape :: "bool \<Rightarrow> bytes \<Rightarrow> bytes option" where
  "unescape query [] = Some []"
| "unescape query (c # s) =
     (if c = CHR ''%'' then
        (case s of
           h # l # r \<Rightarrow>
             (case (hexValue h, hexValue l) of
                (Some x, Some y) \<Rightarrow> map_option ((#) (char_of (16 * x + y))) (unescape query r)
              | _ \<Rightarrow> None)
         | _ \<Rightarrow> None)
      else if query \<and> c = CHR ''+'' then map_option ((#) (CHR '' '')) (unescape query s)
      else map_option ((#) c) (unescape query s))"

section \<open>JSON strings\<close>

text \<open>
  The body of a string literal as \<open>encoding/json\<close> writes it.  Invalid UTF-8 becomes the escape
  of U+FFFD; the line separators U+2028 and U+2029 are escaped; the HTML characters are escaped
  when the flag is set.
\<close>

definition jsonByte :: "bool \<Rightarrow> char \<Rightarrow> bytes" where
  "jsonByte html c =
     (let n = of_char c in
      if c = CHR 0x22 \<or> c = CHR 0x5C then [CHR 0x5C, c]
      else if 0x20 \<le> n \<and> \<not> (html \<and> c \<in> set ''<>&'') then [c]
      else if n = 8 then [CHR 0x5C, CHR ''b'']
      else if n = 12 then [CHR 0x5C, CHR ''f'']
      else if n = 10 then [CHR 0x5C, CHR ''n'']
      else if n = 13 then [CHR 0x5C, CHR ''r'']
      else if n = (9 :: nat) then [CHR 0x5C, CHR ''t'']
      else CHR 0x5C # ''u00'' @ hexByte c)"

function jsonBody :: "bool \<Rightarrow> bytes \<Rightarrow> bytes" where
  "jsonBody html s =
     (if s = [] then []
      else let (r, n) = decodeRune s in
           (if r < 0x80 \<and> n = 1 then jsonByte html (hd s)
            else if r = runeError \<and> n = 1 then CHR 0x5C # ''ufffd''
            else if r = 0x2028 then CHR 0x5C # ''u2028''
            else if r = 0x2029 then CHR 0x5C # ''u2029''
            else take n s) @ jsonBody html (drop n s))"
  by pat_completeness auto
termination
proof (relation "measure (\<lambda>(_, s). length s)", simp, clarify)
  fix html and s :: bytes and r n
  assume "s \<noteq> []" "(r, n) = decodeRune s"
  then show "((html, drop n s), html, s) \<in> measure (\<lambda>(_, s). length s)"
    using decodeRune_pos [of s] by (cases s) (auto simp: prod_eq_iff)
qed

declare jsonBody.simps [simp del]

section \<open>Facts about base64\<close>

lemma sextets_append3: "length p mod 3 = 0 \<Longrightarrow> sextets (p @ r) = sextets p @ sextets r"
  by (induction p rule: sextets.induct) auto

lemma length_sextets: "length (sextets s) = (8 * length s + 5) div 6"
  by (induction s rule: sextets.induct) auto

text \<open>The complete symbols of a message do not change when it is continued.\<close>

lemma sextets_take: "take (8 * length x div 6) (sextets (x @ q)) = take (8 * length x div 6) (sextets x)"
proof (induction x rule: sextets.induct)
  case (1 a b c r)
  have "8 * length (a # b # c # r) div 6 = Suc (Suc (Suc (Suc (8 * length r div 6))))" by simp
  with 1 show ?case by (simp only: sextets.simps append_Cons append_Nil take_Suc_Cons)
next
  case (2 a b)
  show ?case by (cases q) auto
next
  case (3 a)
  show ?case
  proof (cases q)
    case (Cons b q')
    then show ?thesis by (cases q') auto
  qed simp
qed simp

lemma sextets_drop1: "drop 2 (sextets (a # t)) = drop 2 (sextets (a' # t))"
proof (cases t)
  case (Cons b t')
  then show ?thesis by (cases t') auto
qed simp

lemma sextets_drop2: "drop 3 (sextets (a # b # t)) = drop 3 (sextets (a' # b' # t))"
  by (cases t) auto

lemma b64Raw_append3: "length p mod 3 = 0 \<Longrightarrow> b64Raw al (p @ r) = b64Raw al p @ b64Raw al r"
  by (simp add: b64Raw_def byteVals_def sextets_append3)

lemma b64Raw_take:
  "take (8 * length x div 6) (b64Raw al (x @ q)) = take (8 * length x div 6) (b64Raw al x)"
proof -
  have "take (8 * length x div 6) (sextets (byteVals (x @ q))) =
      take (8 * length x div 6) (sextets (byteVals x))"
    using sextets_take [of "byteVals x" "byteVals q"]
    by (simp only: byteVals_def map_append length_map)
  then show ?thesis by (simp only: b64Raw_def take_map)
qed

lemma length_b64Raw: "length (b64Raw al s) = (8 * length s + 5) div 6"
  by (simp add: b64Raw_def byteVals_def length_sextets)

text \<open>With \<open>k\<close> bytes in front, the symbols from \<open>(8 * k + 5) div 6\<close> on do not depend on them.\<close>

lemma b64Raw_drop:
  assumes "length p = length z" "length z < 3"
  shows "drop ((8 * length z + 5) div 6) (b64Raw al (p @ t)) = drop ((8 * length z + 5) div 6) (b64Raw al (z @ t))"
proof -
  consider "length z = 0" | "length z = 1" | "length z = 2" using assms(2) by linarith
  then show ?thesis
  proof cases
    case 1
    with assms show ?thesis by simp
  next
    case 2
    with assms obtain a b where "p = [a]" "z = [b]" by (auto simp: length_Suc_conv)
    then show ?thesis
      using sextets_drop1 [of "of_char a" "byteVals t" "of_char b"]
      by (simp add: b64Raw_def byteVals_def drop_map)
  next
    case 3
    with assms obtain a b c d where "p = [a, b]" "z = [c, d]"
      by (auto simp: length_Suc_conv numeral_2_eq_2)
    then show ?thesis
      using sextets_drop2 [of "of_char a" "of_char b" "byteVals t" "of_char c" "of_char d"]
      by (simp add: b64Raw_def byteVals_def drop_map)
  qed
qed

end
