(* ===== verification/Encodings.thy ===== *)
theory Encodings
  imports GoEncoding
begin

text \<open>
  The encoded forms of a secret that are registered for redaction:
  \<open>src/internal/redact/encodings.go\<close>.
\<close>

section \<open>Definitions\<close>

definition lowerHexDigit :: "char \<Rightarrow> char" where
  "lowerHexDigit c =
     (if CHR ''A'' \<le> c \<and> c \<le> CHR ''F'' then char_of (of_char c + (97 - 65) :: nat) else c)"

fun lowerPctEscapes :: "bytes \<Rightarrow> bytes" where
  "lowerPctEscapes (c # d # e # s) =
     (if c = CHR ''%'' then c # lowerHexDigit d # lowerHexDigit e # lowerPctEscapes s
      else c # lowerPctEscapes (d # e # s))"
| "lowerPctEscapes s = s"

text \<open>The loop of \<open>wrapLines\<close> from a chunk boundary on; \<open>first\<close> says whether it is at index 0.\<close>

function wrapFrom :: "nat \<Rightarrow> bool \<Rightarrow> bytes \<Rightarrow> bytes" where
  "wrapFrom width first s =
     (if s = [] \<or> width = 0 then []
      else (if first then [] else [CHR 0x0A]) @ take width s @ wrapFrom width False (drop width s))"
  by pat_completeness auto
termination by (relation "measure (\<lambda>(_, _, s). length s)") auto

declare wrapFrom.simps [simp del]

definition wrapLines :: "bytes \<Rightarrow> nat \<Rightarrow> bytes" where
  "wrapLines s width = (if length s \<le> width then s else wrapFrom width True s)"

definition slice :: "'a list \<Rightarrow> nat \<Rightarrow> nat \<Rightarrow> 'a list" where
  "slice s start end' = drop start (take end' s)"

definition Base64Cores :: "bytes \<Rightarrow> bytes list" where
  "Base64Cores secret =
     concat (List.map (\<lambda>k.
       let padded = replicate k (CHR 0x00) @ secret;
           start = (8 * k + 5) div 6;
           end' = 8 * (k + length secret) div 6
       in List.map (\<lambda>al. slice (b64Raw al padded) start end') [b64Std, b64URL]) [0..<3])"

definition JSONEscapes :: "bytes \<Rightarrow> bytes list" where
  "JSONEscapes secret = [jsonBody False secret, jsonBody True secret]"

definition percentEncode :: "bytes \<Rightarrow> bytes \<Rightarrow> bytes" where
  "percentEncode s safe =
     concat (List.map (\<lambda>c. if alnum c \<or> c \<in> set (''-_.~'' @ safe) then [c] else pctByte c) s)"

definition hexUpperCase :: "bytes \<Rightarrow> bytes" where
  "hexUpperCase s = List.map (\<lambda>c. if CHR ''a'' \<le> c \<and> c \<le> CHR ''z'' then char_of (of_char c - 32 :: nat) else c) s"

definition deriveNested :: "bytes \<Rightarrow> bytes list" where
  "deriveNested encoded =
     [b64Padded b64Std encoded, b64Padded b64URL encoded, hexEncode encoded,
      QueryEscape encoded, lowerPctEscapes (QueryEscape encoded)]"

text \<open>The four groups of forms and the list of all candidates, in the order of the code.\<close>

definition b64forms :: "bytes \<Rightarrow> bytes list" where
  "b64forms raw = [b64Padded b64Std raw, b64Raw b64Std raw, b64Padded b64URL raw, b64Raw b64URL raw]"

definition hexforms :: "bytes \<Rightarrow> bytes list" where
  "hexforms raw = [hexEncode raw, hexUpperCase (hexEncode raw)]"

definition urlforms :: "bytes \<Rightarrow> bytes list" where
  "urlforms secret =
     (let qesc = QueryEscape secret; pesc = PathEscape secret in
      [qesc, lowerPctEscapes qesc, pesc, lowerPctEscapes pesc] @
      concat (List.map (\<lambda>safe. let e = percentEncode secret safe in [e, lowerPctEscapes e])
        [[], [CHR ''!'', CHR ''*'', CHR 0x27, CHR ''('', CHR '')''], ''/'']))"

definition candidates :: "bytes \<Rightarrow> int \<Rightarrow> bytes list" where
  "candidates secret depth =
     b64forms secret @ Base64Cores secret @ hexforms secret @ urlforms secret @ JSONEscapes secret @
     (if depth \<ge> 2 then concat (List.map deriveNested (b64forms secret @ hexforms secret)) else []) @
     concat (List.map (\<lambda>b64. [wrapLines b64 64, wrapLines b64 76]) (b64forms secret))"

text \<open>The final loop: keep what is long enough and new.\<close>

fun keepNew :: "int \<Rightarrow> bytes list \<Rightarrow> bytes list \<Rightarrow> bytes list" where
  "keepNew minLen seen [] = []"
| "keepNew minLen seen (c # cs) =
     (if int (length c) < minLen \<or> c \<in> set seen then keepNew minLen seen cs
      else c # keepNew minLen (c # seen) cs)"

definition EncodingsWithDepth :: "bytes \<Rightarrow> int \<Rightarrow> int \<Rightarrow> bytes list" where
  "EncodingsWithDepth secret minLen depth =
     (if secret = [] then [] else keepNew minLen [secret] (candidates secret depth))"

definition Encodings :: "bytes \<Rightarrow> int \<Rightarrow> bytes list" where
  "Encodings secret minLen = EncodingsWithDepth secret minLen 2"

section \<open>Facts\<close>

lemma set_keepNew:
  "x \<in> set (keepNew minLen seen cs) \<longleftrightarrow> x \<in> set cs \<and> minLen \<le> int (length x) \<and> x \<notin> set seen"
proof (induction minLen seen cs rule: keepNew.induct)
  case (2 minLen seen c cs)
  show ?case
  proof (cases "int (length c) < minLen \<or> c \<in> set seen")
    case True
    with 2(1) show ?thesis by auto
  next
    case False
    with 2(2) show ?thesis by (cases "x = c") auto
  qed
qed simp

lemma distinct_keepNew: "distinct (keepNew minLen seen cs)"
  by (induction minLen seen cs rule: keepNew.induct) (simp_all add: set_keepNew)

lemma wrapFrom_unwrap:
  "width > 0 \<Longrightarrow> CHR 0x0A \<notin> set s \<Longrightarrow>
   List.filter (\<lambda>c. c \<noteq> CHR 0x0A) (wrapFrom width first s) = s"
proof (induction width first s rule: wrapFrom.induct)
  case (1 width first s)
  show ?case
  proof (cases "s = []")
    case True
    then show ?thesis by (simp add: wrapFrom.simps)
  next
    case False
    have "CHR 0x0A \<notin> set (drop width s)" "CHR 0x0A \<notin> set (take width s)"
      using "1.prems"(2) by (auto dest: in_set_dropD in_set_takeD)
    moreover have "List.filter (\<lambda>c. c \<noteq> CHR 0x0A) (take width s) = take width s"
      using calculation(2) by (auto simp: filter_id_conv)
    ultimately show ?thesis
      using 1 False by (simp add: wrapFrom.simps [of width first s])
  qed
qed

lemma core_in_raw:
  assumes "k < 3" "length p mod 3 = k"
  shows "sublist (slice (b64Raw al (replicate k (CHR 0x00) @ s)) ((8 * k + 5) div 6)
      (8 * (k + length s) div 6)) (b64Raw al (p @ s @ q))"
proof -
  let ?z = "replicate k (CHR 0x00)"
  let ?n = "8 * (k + length s) div 6" and ?b = "(8 * k + 5) div 6"
  define p1 where "p1 = take (length p - k) p"
  define p2 where "p2 = drop (length p - k) p"
  have p: "p = p1 @ p2" by (simp add: p1_def p2_def)
  have kl: "k \<le> length p" using assms(2) mod_less_eq_dividend by metis
  then have l2: "length p2 = k" by (simp add: p2_def)
  have l1: "length p1 mod 3 = 0"
    using assms(2) kl by (simp add: p1_def mod_eq_dvd_iff_nat mod_diff_eq [symmetric])
      (metis minus_mod_eq_div_mult mod_mult_self2_is_0)
  have eq: "b64Raw al (p @ s @ q) = b64Raw al p1 @ b64Raw al (p2 @ s @ q)"
    using b64Raw_append3 [OF l1, of al "p2 @ s @ q"] by (simp add: p)
  have t1: "take ?n (b64Raw al (p2 @ s @ q)) = take ?n (b64Raw al (p2 @ s))"
    using b64Raw_take [of "p2 @ s" al q] l2 by (simp add: add.commute)
  have d: "drop ?b (b64Raw al (p2 @ s)) = drop ?b (b64Raw al (?z @ s))"
    using b64Raw_drop [of p2 ?z al s] l2 assms(1) by simp
  have "slice (b64Raw al (?z @ s)) ?b ?n = take (?n - ?b) (drop ?b (b64Raw al (?z @ s)))"
    by (simp add: slice_def drop_take)
  also have "\<dots> = drop ?b (take ?n (b64Raw al (p2 @ s @ q)))"
    unfolding d [symmetric] t1 by (simp add: drop_take)
  finally have "sublist (slice (b64Raw al (?z @ s)) ?b ?n) (b64Raw al (p2 @ s @ q))"
    by (metis sublist_drop sublist_take suffix_drop suffix_imp_sublist)
  then show ?thesis unfolding eq by (simp add: sublist_append)
qed

lemma core_length:
  assumes "k < 3"
  shows "3 * length (slice (b64Raw al (replicate k (CHR 0x00) @ s)) ((8 * k + 5) div 6)
      (8 * (k + length s) div 6)) + 4 \<ge> 4 * length s"
proof -
  have "8 * (k + length s) div 6 \<le> (8 * (k + length s) + 5) div 6" by linarith
  then have "length (slice (b64Raw al (replicate k (CHR 0x00) @ s)) ((8 * k + 5) div 6)
      (8 * (k + length s) div 6)) = 8 * (k + length s) div 6 - (8 * k + 5) div 6"
    by (simp add: slice_def length_b64Raw min_def)
  moreover have "k = 0 \<or> k = 1 \<or> k = 2" using assms by linarith
  ultimately show ?thesis by auto
qed

text \<open>Percent escapes decode to what was escaped, in either case of the hex digits.\<close>

lemma hexValue_hexUpper: "n < 16 \<Longrightarrow> hexValue (hexUpper n) = Some n"
  and hexValue_lower: "n < 16 \<Longrightarrow> hexValue (lowerHexDigit (hexUpper n)) = Some n"
proof -
  have "\<forall>n \<in> set [0..<16]. hexValue (hexUpper n) = Some n \<and>
      hexValue (lowerHexDigit (hexUpper n)) = Some n" by code_simp
  then show "n < 16 \<Longrightarrow> hexValue (hexUpper n) = Some n"
    "n < 16 \<Longrightarrow> hexValue (lowerHexDigit (hexUpper n)) = Some n" by auto
qed

lemma pct_value: "char_of (16 * (of_char c div 16) + of_char c mod (16 :: nat)) = c"
  by (simp add: mult_div_mod_eq)

lemma nat_of_char_div: "of_char c div 16 < (16 :: nat)"
  using nat_of_char_less_256 [of c] by linarith

lemma unescape_pct:
  "unescape query (pctByte c @ s) = map_option ((#) c) (unescape query s)"
  by (simp add: pctByte_def hexValue_hexUpper nat_of_char_div pct_value)

lemma unescape_pct_lower:
  "unescape query (CHR ''%'' # lowerHexDigit (hexUpper (of_char c div 16)) #
     lowerHexDigit (hexUpper (of_char c mod 16)) # s) = map_option ((#) c) (unescape query s)"
  by (simp add: hexValue_lower nat_of_char_div pct_value)

text \<open>
  An escaper that copies bytes it keeps (never a percent sign, and in a query never a plus)
  and writes the others as escapes, or a blank as a plus in a query.
\<close>

definition escapeWith :: "bool \<Rightarrow> (char \<Rightarrow> bool) \<Rightarrow> bytes \<Rightarrow> bytes" where
  "escapeWith query keep s =
     concat (List.map (\<lambda>c. if keep c then [c] else if query \<and> c = CHR '' '' then ''+'' else pctByte c) s)"

lemma unescape_escape:
  assumes "\<not> keep (CHR ''%'')" "query \<Longrightarrow> \<not> keep (CHR ''+'')"
  shows "unescape query (escapeWith query keep s) = Some s"
proof (induction s)
  case (Cons c s)
  have e: "escapeWith query keep (c # s) = (if keep c then [c] else if query \<and> c = CHR '' '' then ''+''
      else pctByte c) @ escapeWith query keep s" by (simp add: escapeWith_def)
  consider "keep c" | "\<not> keep c" "query" "c = CHR '' ''" | "\<not> keep c" "\<not> (query \<and> c = CHR '' '')" by blast
  then show ?case
  proof cases
    case 1
    with assms have "c \<noteq> CHR ''%''" "\<not> (query \<and> c = CHR ''+'')" by auto
    with 1 Cons show ?thesis unfolding e by simp
  next
    case 2
    with Cons show ?thesis unfolding e by simp
  next
    case 3
    then show ?thesis unfolding e by (auto simp: unescape_pct Cons simp del: unescape.simps)
  qed
qed (simp add: escapeWith_def)

lemma lower_keep:
  "c \<noteq> CHR ''%'' \<Longrightarrow> lowerPctEscapes (c # s) = c # lowerPctEscapes s"
proof (cases s)
  case (Cons a s')
  then show "c \<noteq> CHR ''%'' \<Longrightarrow> ?thesis" by (cases s') simp_all
qed simp

lemma unescape_lower_escape:
  assumes "\<not> keep (CHR ''%'')" "query \<Longrightarrow> \<not> keep (CHR ''+'')"
  shows "unescape query (lowerPctEscapes (escapeWith query keep s)) = Some s"
proof (induction s)
  case (Cons c s)
  have e: "escapeWith query keep (c # s) = (if keep c then [c] else if query \<and> c = CHR '' '' then ''+''
      else pctByte c) @ escapeWith query keep s" by (simp add: escapeWith_def)
  consider "keep c" | "\<not> keep c" "query" "c = CHR '' ''" | "\<not> keep c" "\<not> (query \<and> c = CHR '' '')" by blast
  then show ?case
  proof cases
    case 1
    with assms have "c \<noteq> CHR ''%''" "\<not> (query \<and> c = CHR ''+'')" by auto
    with 1 Cons show ?thesis unfolding e by (simp add: lower_keep)
  next
    case 2
    with Cons show ?thesis unfolding e by (simp add: lower_keep)
  next
    case 3
    then show ?thesis unfolding e pctByte_def
      using unescape_pct_lower [of query c "lowerPctEscapes (escapeWith query keep s)"] Cons
      by (auto simp del: unescape.simps)
  qed
qed (simp add: escapeWith_def)

lemma urlforms_escapes:
  "QueryEscape s = escapeWith True (\<lambda>c. alnum c \<or> c \<in> set ''-_.~'') s"
  "PathEscape s = escapeWith False (\<lambda>c. alnum c \<or> c \<in> set ''-_.~$&+=:@'') s"
  "percentEncode s safe = escapeWith False (\<lambda>c. alnum c \<or> c \<in> set (''-_.~'' @ safe)) s"
  by (simp_all add: QueryEscape_def PathEscape_def percentEncode_def escapeWith_def cong: if_cong)

lemma core_in_padded:
  assumes "al \<in> {b64Std, b64URL}"
  shows "\<exists>core \<in> set (Base64Cores s). 4 * length s \<le> 3 * length core + 4 \<and>
    sublist core (b64Padded al (p @ s @ q))"
proof -
  let ?k = "length p mod 3"
  let ?core = "slice (b64Raw al (replicate ?k (CHR 0x00) @ s)) ((8 * ?k + 5) div 6)
      (8 * (?k + length s) div 6)"
  have k: "?k < 3" by simp
  then have "?k \<in> set [0..<3]" by simp
  then have "?core \<in> set (Base64Cores s)"
    unfolding Base64Cores_def Let_def using assms by fastforce
  moreover have "sublist ?core (b64Padded al (p @ s @ q))"
    using core_in_raw [OF k refl, of al s q] by (simp add: b64Padded_def sublist_append)
  ultimately show ?thesis using core_length [OF k, of s al] by blast
qed

section \<open>Properties\<close>

text \<open>A secret inside a larger base64 message is caught. Whatever bytes stand before and
  after the secret, the standard and the URL encoding of the message contain one of the
  registered cores, and the core is only about one symbol shorter than the secret's own
  encoding.\<close>

lemma encodings_core_found:
  "(\<exists>core \<in> set (Base64Cores s). 4 * length s \<le> 3 * length core + 4 \<and>
     sublist core (b64Padded b64Std (p @ s @ q))) \<and>
   (\<exists>core \<in> set (Base64Cores s). 4 * length s \<le> 3 * length core + 4 \<and>
     sublist core (b64Padded b64URL (p @ s @ q)))"
  by (intro conjI core_in_padded) simp_all

text \<open>Which forms are registered. The result of \<open>EncodingsWithDepth\<close> has no duplicates and
  consists of exactly the candidates that are long enough and differ from the secret; an
  empty secret has none.\<close>

lemma encodings_exact:
  "distinct (EncodingsWithDepth secret minLen depth) \<and>
   set (EncodingsWithDepth secret minLen depth) =
     {c \<in> set (candidates secret depth). secret \<noteq> [] \<and> minLen \<le> int (length c) \<and> c \<noteq> secret}"
  by (auto simp: EncodingsWithDepth_def set_keepNew distinct_keepNew)

text \<open>The percent-encoded forms are encodings of the secret. Each of the ten forms, with
  upper or lower case digits and for each set of safe characters, decodes to the secret as a
  query component or as a path segment.\<close>

lemma encodings_url_roundtrip:
  "list_all (\<lambda>u. unescape True u = Some s \<or> unescape False u = Some s) (urlforms s)"
proof -
  have keep: "\<not> alnum (CHR ''%'')" "\<not> alnum (CHR ''+'')" by (simp_all add: alnum_def)
  show ?thesis
    unfolding urlforms_def Let_def urlforms_escapes
    by (simp add: unescape_escape unescape_lower_escape keep)
qed

end
