(* ===== verification/Scrub.thy ===== *)
theory Scrub
  imports Encodings
begin

text \<open>
  The exact-value scrubber: \<open>src/internal/scrub/matcher.go\<close> (the needle trie and the
  left-to-right longest-match redaction) and \<open>src/internal/scrub/stores.go\<close> (the walk over
  transcript files).

  SHA-256 is an argument, any function from byte strings to byte strings.  The file system is
  a map from paths to contents; what a directory walk and the operating system report about
  an entry is part of the entry.
\<close>

section \<open>Needles\<close>

definition MinSecretLen :: nat where "MinSecretLen = 8"

record scrubSecret =
  ss_Alias :: string
  ss_Value :: bytes

definition Sha8 :: "(bytes \<Rightarrow> bytes) \<Rightarrow> bytes \<Rightarrow> bytes" where
  "Sha8 sha256 value = take 8 (hexEncode (sha256 value))"

definition Placeholder :: "(bytes \<Rightarrow> bytes) \<Rightarrow> string \<Rightarrow> bytes \<Rightarrow> bytes" where
  "Placeholder sha256 alias value = ''[REDACTED:'' @ alias @ '':'' @ Sha8 sha256 value @ '']''"

definition scrubUnreserved :: "char \<Rightarrow> bool" where
  "scrubUnreserved c \<longleftrightarrow> c \<in> set ''-_.~'' \<or> alnum c"

definition scrubPercent :: "bytes \<Rightarrow> bool \<Rightarrow> bytes" where
  "scrubPercent b upper =
     (let digit = (if upper then hexUpper else hexDigit) in
      if list_all scrubUnreserved b then b
      else concat (List.map (\<lambda>c. if scrubUnreserved c then [c]
             else [CHR ''%'', digit (of_char c div 16), digit (of_char c mod 16)]) b))"

text \<open>The closure \<open>add\<close> of \<open>Variants\<close>: its output so far also is the set of seen strings.\<close>

definition addVariant :: "bytes \<Rightarrow> bytes list \<Rightarrow> bytes list" where
  "addVariant s out = (if s = [] \<or> s \<in> set out then out else out @ [s])"

definition Variants :: "bytes \<Rightarrow> bytes list" where
  "Variants value =
     fold addVariant
       (b64forms value @ [scrubPercent value True, scrubPercent value False] @
        List.filter (\<lambda>v. length v \<ge> MinSecretLen) (Base64Cores value @ JSONEscapes value))
       [value]"

section \<open>The trie\<close>

datatype trieNode = TrieNode (trie_repl: bytes) (trie_next: "char \<Rightarrow> trieNode option")

definition emptyNode :: trieNode where
  "emptyNode = TrieNode [] (\<lambda>_. None)"

primrec insertNeedle :: "bytes \<Rightarrow> bytes \<Rightarrow> trieNode \<Rightarrow> trieNode" where
  "insertNeedle [] repl n =
     TrieNode (if trie_repl n = [] then repl else trie_repl n) (trie_next n)"
| "insertNeedle (c # needle) repl n =
     TrieNode (trie_repl n) ((trie_next n)(c := Some (insertNeedle needle repl
       (case trie_next n c of None \<Rightarrow> emptyNode | Some child \<Rightarrow> child))))"

record matcher =
  mt_root :: trieNode
  mt_secrets :: "scrubSecret list"
  mt_needles :: nat
  mt_skipped :: nat

text \<open>One secret of the loop of \<open>NewMatcher\<close>; the values seen are those of \<open>mt_secrets\<close>.\<close>

definition addSecretNeedles :: "(bytes \<Rightarrow> bytes) \<Rightarrow> scrubSecret \<Rightarrow> matcher \<Rightarrow> matcher" where
  "addSecretNeedles sha256 s m =
     (if length (ss_Value s) < MinSecretLen then m\<lparr>mt_skipped := mt_skipped m + 1\<rparr>
      else if ss_Value s \<in> ss_Value ` set (mt_secrets m) then m
      else let repl = Placeholder sha256 (ss_Alias s) (ss_Value s);
               vs = Variants (ss_Value s)
           in m\<lparr>mt_root := fold (\<lambda>v. insertNeedle v repl) vs (mt_root m),
                mt_needles := mt_needles m + length vs,
                mt_secrets := mt_secrets m @ [s]\<rparr>)"

definition NewMatcher :: "(bytes \<Rightarrow> bytes) \<Rightarrow> scrubSecret list \<Rightarrow> matcher" where
  "NewMatcher sha256 secrets =
     fold (addSecretNeedles sha256) secrets
       \<lparr>mt_root = emptyNode, mt_secrets = [], mt_needles = 0, mt_skipped = 0\<rparr>"

section \<open>Redaction\<close>

text \<open>
  The inner loop of \<open>Redact\<close> from a position on: the node reached, the bytes read so far and
  the longest terminal seen with its replacement.
\<close>

primrec longestFrom :: "bytes \<Rightarrow> trieNode \<Rightarrow> nat \<Rightarrow> (nat \<times> bytes) option \<Rightarrow> (nat \<times> bytes) option" where
  "longestFrom [] n j best = best"
| "longestFrom (c # s) n j best =
     (case trie_next n c of
        None \<Rightarrow> best
      | Some child \<Rightarrow>
          longestFrom s child (Suc j) (if trie_repl child \<noteq> [] then Some (Suc j, trie_repl child) else best))"

lemma longestFrom_bound:
  "longestFrom s n j best = Some (k, r) \<Longrightarrow> best = Some (k, r) \<or> (j < k \<and> k \<le> j + length s \<and> r \<noteq> [])"
proof (induction s arbitrary: n j best)
  case (Cons c s)
  show ?case
  proof (cases "trie_next n c")
    case None
    with Cons.prems show ?thesis by simp
  next
    case (Some child)
    let ?b = "if trie_repl child \<noteq> [] then Some (Suc j, trie_repl child) else best"
    have "longestFrom s child (Suc j) ?b = Some (k, r)" using Cons.prems Some by simp
    from Cons.IH [OF this] show ?thesis by (auto split: if_splits)
  qed
qed simp

function redactLoop :: "trieNode \<Rightarrow> bytes \<Rightarrow> bytes \<times> nat" where
  "redactLoop root s =
     (if s = [] then ([], 0)
      else case longestFrom s root 0 None of
             None \<Rightarrow> (let (out, count) = redactLoop root (tl s) in (hd s # out, count))
           | Some (k, repl) \<Rightarrow>
               (let (out, count) = redactLoop root (drop k s) in (repl @ out, count + 1)))"
  by pat_completeness auto
termination
  by (relation "measure (\<lambda>(_, s). length s)") (auto dest: longestFrom_bound)

declare redactLoop.simps [simp del]

definition Redact :: "matcher \<Rightarrow> bytes \<Rightarrow> bytes \<times> nat" where
  "Redact m s = (if mt_needles m = 0 \<or> length s = 0 then (s, 0) else redactLoop (mt_root m) s)"

definition Contains :: "matcher \<Rightarrow> bytes \<Rightarrow> bool" where
  "Contains m s \<longleftrightarrow> snd (Redact m s) > 0"

section \<open>Transcript files\<close>

definition MaxFileSize :: int where "MaxFileSize = 128 * 1024 * 1024"

definition textExts :: "string list" where
  "textExts = [''.jsonl'', ''.json'', ''.txt'', ''.log'', ''.md'']"

definition binaryExts :: "string list" where
  "binaryExts = [''.vscdb'', ''.db'', ''.sqlite'', ''.sqlite3'', ''.pb'', ''.wal'', ''.shm'', ''.bin'']"

text \<open>\<open>filepath.Ext\<close>: from the last dot of the last path element on.\<close>

definition Ext :: "bytes \<Rightarrow> bytes" where
  "Ext path =
     (let e = rev (takeWhile (\<lambda>c. c \<noteq> CHR ''/'') (rev path)) in
      if CHR ''.'' \<in> set e then CHR ''.'' # rev (takeWhile (\<lambda>c. c \<noteq> CHR ''.'') (rev e)) else [])"

definition scrubbable :: "string \<Rightarrow> bool" where
  "scrubbable path =
     (let ext = ToLower (Ext path) in
      if ext \<in> set binaryExts then False
      else if ext = [] then True
      else ext \<in> set textExts)"

definition isBinary :: "bytes \<Rightarrow> bool" where
  "isBinary data \<longleftrightarrow> list_ex (\<lambda>c. c = CHR 0x00) (take 8192 data)"

datatype skipReason =
    SkipUnreadable string | SkipSymlink | SkipExtension | SkipStat string | SkipTooLarge
  | SkipRead string | SkipBinary

record fileResult =
  fr_Store :: string
  fr_Path :: string
  fr_Matches :: nat
  fr_Rewritten :: bool
  fr_Skipped :: "skipReason option"

record scanResult =
  sc_Files :: "fileResult list"
  sc_Scanned :: nat
  sc_Matched :: nat
  sc_Rewrote :: nat
  sc_SkippedN :: nat

text \<open>
  An entry of a directory walk: the walk's error, its type, its size or the error of \<open>Info\<close>,
  the error of reading it, and the error of replacing it, if any.
\<close>

record walkEntry =
  we_Path :: string
  we_Err :: "string option"
  we_IsDir :: bool
  we_Symlink :: bool
  we_Info :: "string + int"
  we_ReadErr :: "string option"
  we_ReplaceErr :: "string option"

record scanState =
  sn_seen :: "string list"
  sn_res :: scanResult
  sn_fs :: "string \<Rightarrow> bytes"

definition skipFile :: "string \<Rightarrow> string \<Rightarrow> skipReason \<Rightarrow> scanResult \<Rightarrow> scanResult" where
  "skipFile store path reason res =
     res\<lparr>sc_SkippedN := sc_SkippedN res + 1,
         sc_Files := sc_Files res @ [\<lparr>fr_Store = store, fr_Path = path, fr_Matches = 0,
           fr_Rewritten = False, fr_Skipped = Some reason\<rparr>]\<rparr>"

definition addFile :: "string \<Rightarrow> string \<Rightarrow> nat \<Rightarrow> bool \<Rightarrow> scanResult \<Rightarrow> scanResult" where
  "addFile store path n rewritten res =
     res\<lparr>sc_Files := sc_Files res @ [\<lparr>fr_Store = store, fr_Path = path, fr_Matches = n,
           fr_Rewritten = rewritten, fr_Skipped = None\<rparr>]\<rparr>"

text \<open>The callback of \<open>walkDir\<close>; \<open>Inl\<close> ends the walk with the error of a failed rewrite.\<close>

definition walkOne :: "matcher \<Rightarrow> string \<Rightarrow> bool \<Rightarrow> walkEntry \<Rightarrow> scanState \<Rightarrow> (string \<times> scanState) + scanState" where
  "walkOne m store apply' e st =
     (let path = we_Path e; res = sn_res st;
          seen' = st\<lparr>sn_seen := path # sn_seen st\<rparr>
      in case we_Err e of
           Some err \<Rightarrow> Inr (st\<lparr>sn_res := skipFile store path (SkipUnreadable err) res\<rparr>)
         | None \<Rightarrow>
             if we_IsDir e then Inr st
             else if path \<in> set (sn_seen st) then Inr st
             else if we_Symlink e then Inr (seen'\<lparr>sn_res := skipFile store path SkipSymlink res\<rparr>)
             else if \<not> scrubbable path then Inr (seen'\<lparr>sn_res := skipFile store path SkipExtension res\<rparr>)
             else (case we_Info e of
                Inl err \<Rightarrow> Inr (seen'\<lparr>sn_res := skipFile store path (SkipStat err) res\<rparr>)
              | Inr size' \<Rightarrow>
                  if size' > MaxFileSize then Inr (seen'\<lparr>sn_res := skipFile store path SkipTooLarge res\<rparr>)
                  else (case we_ReadErr e of
                     Some err \<Rightarrow> Inr (seen'\<lparr>sn_res := skipFile store path (SkipRead err) res\<rparr>)
                   | None \<Rightarrow>
                       (let data = sn_fs st path in
                        if isBinary data then Inr (seen'\<lparr>sn_res := skipFile store path SkipBinary res\<rparr>)
                        else
                          (let res = res\<lparr>sc_Scanned := sc_Scanned res + 1\<rparr>;
                               (redacted, n) = Redact m data
                           in if n = 0 then Inr (seen'\<lparr>sn_res := addFile store path n False res\<rparr>)
                              else
                                (let res = res\<lparr>sc_Matched := sc_Matched res + 1\<rparr> in
                                 if \<not> apply' then Inr (seen'\<lparr>sn_res := addFile store path n False res\<rparr>)
                                 else case we_ReplaceErr e of
                                        Some err \<Rightarrow> Inl (err, seen'\<lparr>sn_res := res\<rparr>)
                                      | None \<Rightarrow>
                                          Inr (seen'\<lparr>sn_res := addFile store path n True
                                                 (res\<lparr>sc_Rewrote := sc_Rewrote res + 1\<rparr>),
                                               sn_fs := (sn_fs st)(path := redacted)\<rparr>)))))))"

fun walkDir :: "matcher \<Rightarrow> string \<Rightarrow> bool \<Rightarrow> walkEntry list \<Rightarrow> scanState \<Rightarrow> (string \<times> scanState) + scanState" where
  "walkDir m store apply' [] st = Inr st"
| "walkDir m store apply' (e # es) st =
     (case walkOne m store apply' e st of
        Inl r \<Rightarrow> Inl r
      | Inr st' \<Rightarrow> walkDir m store apply' es st')"

text \<open>
  The directories of the roots in order: the store, the absolute path (\<open>None\<close> if it has
  none), whether it is a directory, and the entries a walk of it yields.
\<close>

type_synonym rootDir = "string \<times> string option \<times> bool \<times> walkEntry list"

fun scrubDirs :: "matcher \<Rightarrow> bool \<Rightarrow> string list \<Rightarrow> rootDir list \<Rightarrow> scanState \<Rightarrow> (string \<times> scanState) + scanState" where
  "scrubDirs m apply' seen [] st = Inr st"
| "scrubDirs m apply' seen ((store, dir, isDir, entries) # rest) st =
     (case dir of
        None \<Rightarrow> scrubDirs m apply' seen rest st
      | Some absDir \<Rightarrow>
          if absDir \<in> set seen then scrubDirs m apply' seen rest st
          else if \<not> isDir then scrubDirs m apply' (absDir # seen) rest st
          else (case walkDir m store apply' entries st of
                  Inl r \<Rightarrow> Inl r
                | Inr st' \<Rightarrow> scrubDirs m apply' (absDir # seen) rest st'))"

definition Scrub :: "matcher \<Rightarrow> rootDir list \<Rightarrow> bool \<Rightarrow> (string \<Rightarrow> bytes) \<Rightarrow> (string \<times> scanState) + scanState" where
  "Scrub m roots apply' fs =
     scrubDirs m apply' [] roots
       \<lparr>sn_seen = [], sn_res = \<lparr>sc_Files = [], sc_Scanned = 0, sc_Matched = 0, sc_Rewrote = 0,
          sc_SkippedN = 0\<rparr>, sn_fs = fs\<rparr>"

end
