(* ===== verification/Scrub_Props.thy ===== *)
theory Scrub_Props
  imports Scrub
begin

text \<open>
  The trie against the set of needles it stands for, the redaction loop against leftmost
  longest matching, and the walk over files: it reports exactly the files that contain a
  needle, and a file is either untouched or replaced by its redaction.
\<close>

section \<open>The trie as a map from needles to replacements\<close>

primrec replAt :: "bytes \<Rightarrow> trieNode \<Rightarrow> bytes" where
  "replAt [] n = trie_repl n"
| "replAt (c # w) n = (case trie_next n c of None \<Rightarrow> [] | Some child \<Rightarrow> replAt w child)"

lemma replAt_empty [simp]: "replAt w emptyNode = []"
  by (cases w) (simp_all add: emptyNode_def)

lemma replAt_insert:
  "replAt v (insertNeedle w r n) =
     (if v = w then (if replAt w n = [] then r else replAt w n) else replAt v n)"
proof (induction w arbitrary: n v)
  case Nil
  show ?case by (cases v) auto
next
  case (Cons c w)
  show ?case
  proof (cases v)
    case (Cons d v')
    show ?thesis
    proof (cases "trie_next n c")
      case None
      with Cons Cons.IH [of v' emptyNode] show ?thesis by auto
    next
      case (Some child)
      with Cons Cons.IH [of v' child] show ?thesis by auto
    qed
  qed simp
qed

lemma replAt_fold:
  assumes "r \<noteq> []"
  shows "replAt v (fold (\<lambda>w. insertNeedle w r) ws n) =
    (if replAt v n \<noteq> [] then replAt v n else if v \<in> set ws then r else [])"
  using assms by (induction ws arbitrary: n) (auto simp: replAt_insert)

text \<open>The longest needle that starts the string, or none.\<close>

definition noNeedle :: "trieNode \<Rightarrow> bytes \<Rightarrow> nat \<Rightarrow> bool" where
  "noNeedle n s k \<longleftrightarrow> (\<forall>l. k < l \<and> l \<le> length s \<longrightarrow> replAt (take l s) n = [])"

lemma noNeedle_Cons:
  "noNeedle n (c # s) 0 \<longleftrightarrow>
     (case trie_next n c of None \<Rightarrow> True | Some child \<Rightarrow> trie_repl child = [] \<and> noNeedle child s 0)"
proof (cases "trie_next n c")
  case None
  then show ?thesis by (auto simp: noNeedle_def take_Cons')
next
  case (Some child)
  have "(\<forall>l. 0 < l \<and> l \<le> Suc (length s) \<longrightarrow> replAt (take l (c # s)) n = []) \<longleftrightarrow>
      (\<forall>l. l \<le> length s \<longrightarrow> replAt (take l s) child = [])"
    using Some by (auto simp: take_Cons' dest: spec [of _ "Suc _"])
  also have "\<dots> \<longleftrightarrow> trie_repl child = [] \<and> noNeedle child s 0"
    by (auto simp: noNeedle_def) (metis bot_nat_0.not_eq_extremum replAt.simps(1) take0)
  finally show ?thesis using Some by (simp add: noNeedle_def)
qed

lemma noNeedle_Suc:
  "trie_next n c = Some child \<Longrightarrow> noNeedle n (c # s) (Suc k) \<longleftrightarrow> noNeedle child s k"
  by (auto simp: noNeedle_def take_Cons' dest: spec [of _ "Suc _"] split: if_splits)
    (metis Suc_le_mono Suc_less_eq Suc_pred bot_nat_0.not_eq_extremum diff_Suc_1 not_less_zero)

lemma longestFrom_spec:
  "longestFrom s n j best = Some (m, r) \<Longrightarrow>
     (best = Some (m, r) \<and> noNeedle n s 0) \<or>
     (\<exists>k. 0 < k \<and> k \<le> length s \<and> m = j + k \<and> r = replAt (take k s) n \<and> r \<noteq> [] \<and> noNeedle n s k)"
  "longestFrom s n j best = None \<Longrightarrow> best = None \<and> noNeedle n s 0"
proof (induction s arbitrary: n j best)
  case Nil
  { case 1 then show ?case by (simp add: noNeedle_def) }
  { case 2 then show ?case by (simp add: noNeedle_def) }
next
  case (Cons c s)
  { case 1
    show ?case
    proof (cases "trie_next n c")
      case None
      with 1 show ?thesis by (simp add: noNeedle_Cons)
    next
      case (Some child)
      let ?b = "if trie_repl child \<noteq> [] then Some (Suc j, trie_repl child) else best"
      have "longestFrom s child (Suc j) ?b = Some (m, r)" using 1 Some by simp
      from Cons.IH(1) [OF this] show ?thesis
      proof (elim disjE exE)
        assume "?b = Some (m, r) \<and> noNeedle child s 0"
        then show ?thesis
          using Some noNeedle_Suc [OF Some, of s 0]
          by (auto simp: noNeedle_Cons split: if_splits intro!: exI [of _ "Suc 0"])
      next
        fix k assume "0 < k \<and> k \<le> length s \<and> m = Suc j + k \<and> r = replAt (take k s) child \<and>
            r \<noteq> [] \<and> noNeedle child s k"
        then show ?thesis
          using Some noNeedle_Suc [OF Some, of s k] by (intro disjI2 exI [of _ "Suc k"]) auto
      qed
    qed }
  { case 2
    show ?case
    proof (cases "trie_next n c")
      case None
      with 2 show ?thesis by (simp add: noNeedle_Cons)
    next
      case (Some child)
      with 2 Cons.IH(2) [of child "Suc j" "if trie_repl child \<noteq> [] then Some (Suc j, trie_repl child) else best"]
      show ?thesis by (auto simp: noNeedle_Cons split: if_splits)
    qed }
qed

section \<open>The matcher of a list of secrets\<close>

definition needleSet :: "scrubSecret list \<Rightarrow> bytes set" where
  "needleSet ss = (\<Union>s \<in> {s \<in> set ss. MinSecretLen \<le> length (ss_Value s)}. set (Variants (ss_Value s)))"

lemma set_fold_addVariant: "set (fold addVariant vs out) = set out \<union> (set vs - {[]})"
  by (induction vs arbitrary: out) (auto simp: addVariant_def)

lemma Variants_nonempty: "v \<noteq> [] \<Longrightarrow> [] \<notin> set (Variants v) \<and> v \<in> set (Variants v)"
  unfolding Variants_def set_fold_addVariant by auto

lemma needleSet_nonempty: "[] \<notin> needleSet (ss :: scrubSecret list)"
proof
  assume "[] \<in> needleSet ss"
  then obtain s :: scrubSecret where "MinSecretLen \<le> length (ss_Value s)" "[] \<in> set (Variants (ss_Value s))"
    unfolding needleSet_def by blast
  moreover from this have "ss_Value s \<noteq> []" by (auto simp: MinSecretLen_def)
  ultimately show False using Variants_nonempty [of "ss_Value s"] by simp
qed

text \<open>What the trie of a matcher holds after the secrets \<open>ss\<close>.\<close>

definition matcherFor :: "(bytes \<Rightarrow> bytes) \<Rightarrow> scrubSecret list \<Rightarrow> matcher \<Rightarrow> bool" where
  "matcherFor sha256 ss m \<longleftrightarrow>
     (\<forall>v. (replAt v (mt_root m) \<noteq> [] \<longleftrightarrow> v \<in> needleSet ss) \<and>
        (replAt v (mt_root m) \<noteq> [] \<longrightarrow>
          (\<exists>s \<in> set ss. replAt v (mt_root m) = Placeholder sha256 (ss_Alias s) (ss_Value s)))) \<and>
     (mt_needles m = 0 \<longleftrightarrow> needleSet ss = {}) \<and>
     ss_Value ` set (mt_secrets m) = ss_Value ` {s \<in> set ss. MinSecretLen \<le> length (ss_Value s)}"

lemma Placeholder_nonempty [simp]: "Placeholder sha256 a v \<noteq> []"
  by (simp add: Placeholder_def)

lemma needleSet_append:
  "needleSet (ss @ [s]) = needleSet ss \<union>
     (if MinSecretLen \<le> length (ss_Value s) then set (Variants (ss_Value s)) else {})"
  by (auto simp: needleSet_def)

lemma addSecretNeedles_for:
  assumes "matcherFor sha256 ss m"
  shows "matcherFor sha256 (ss @ [s]) (addSecretNeedles sha256 s m)"
proof -
  consider (short) "length (ss_Value s) < MinSecretLen"
    | (dup) "MinSecretLen \<le> length (ss_Value s)" "ss_Value s \<in> ss_Value ` set (mt_secrets m)"
    | (new) "MinSecretLen \<le> length (ss_Value s)" "ss_Value s \<notin> ss_Value ` set (mt_secrets m)"
    by linarith
  then show ?thesis
  proof cases
    case short
    with assms show ?thesis
      by (auto simp: addSecretNeedles_def matcherFor_def needleSet_append)
  next
    case dup
    have "ss_Value s \<in> ss_Value ` {t \<in> set ss. MinSecretLen \<le> length (ss_Value t)}"
      using dup(2) assms by (simp add: matcherFor_def)
    then have "set (Variants (ss_Value s)) \<subseteq> needleSet ss"
      by (auto simp: needleSet_def)
    then have "needleSet (ss @ [s]) = needleSet ss" by (auto simp: needleSet_append)
    with dup assms show ?thesis
      by (auto simp: addSecretNeedles_def matcherFor_def)
  next
    case new
    let ?r = "Placeholder sha256 (ss_Alias s) (ss_Value s)"
    let ?vs = "Variants (ss_Value s)"
    have ne: "ss_Value s \<noteq> []" using new(1) by (auto simp: MinSecretLen_def)
    from Variants_nonempty [OF ne] have "?vs \<noteq> []" by auto
    have at: "replAt v (mt_root (addSecretNeedles sha256 s m)) =
        (if replAt v (mt_root m) \<noteq> [] then replAt v (mt_root m) else if v \<in> set ?vs then ?r else [])" for v
      using new replAt_fold [of ?r v ?vs "mt_root m"] by (simp add: addSecretNeedles_def Let_def)
    have "needleSet (ss @ [s]) = needleSet ss \<union> set ?vs" using new by (simp add: needleSet_append)
    moreover have "mt_needles (addSecretNeedles sha256 s m) \<noteq> 0"
      using new \<open>?vs \<noteq> []\<close> by (simp add: addSecretNeedles_def Let_def)
    moreover have "ss_Value ` set (mt_secrets (addSecretNeedles sha256 s m)) =
        ss_Value ` {t \<in> set (ss @ [s]). MinSecretLen \<le> length (ss_Value t)}"
      using new assms by (auto simp: addSecretNeedles_def Let_def matcherFor_def)
    ultimately show ?thesis
      using assms \<open>?vs \<noteq> []\<close> unfolding matcherFor_def at by auto
  qed
qed

lemma NewMatcher_for: "matcherFor sha256 ss (NewMatcher sha256 ss)"
proof (induction ss rule: rev_induct)
  case Nil
  show ?case by (simp add: NewMatcher_def matcherFor_def needleSet_def)
next
  case (snoc s ss)
  then show ?case
    using addSecretNeedles_for [of sha256 ss "NewMatcher sha256 ss" s] by (simp add: NewMatcher_def)
qed

section \<open>The redaction loop\<close>

definition trieNeedle :: "trieNode \<Rightarrow> bytes \<Rightarrow> bool" where
  "trieNeedle n v \<longleftrightarrow> v \<noteq> [] \<and> replAt v n \<noteq> []"

lemma longestFrom_None: "longestFrom s n 0 None = None \<longleftrightarrow> (\<forall>v. trieNeedle n v \<longrightarrow> \<not> prefix v s)"
proof
  assume "longestFrom s n 0 None = None"
  from longestFrom_spec(2) [OF this] have none: "noNeedle n s 0" by simp
  show "\<forall>v. trieNeedle n v \<longrightarrow> \<not> prefix v s"
  proof (intro allI impI notI)
    fix v assume "trieNeedle n v" "prefix v s"
    then have "0 < length v" "length v \<le> length s" "take (length v) s = v" "replAt v n \<noteq> []"
      by (auto simp: trieNeedle_def prefix_def)
    with none show False by (auto simp: noNeedle_def)
  qed
next
  assume none: "\<forall>v. trieNeedle n v \<longrightarrow> \<not> prefix v s"
  show "longestFrom s n 0 None = None"
  proof (cases "longestFrom s n 0 None")
    case (Some a)
    obtain m r where "a = (m, r)" by force
    with Some longestFrom_spec(1) [of s n 0 None m r]
    obtain k where "0 < k" "k \<le> length s" "replAt (take k s) n \<noteq> []" by auto
    then have "trieNeedle n (take k s)" by (auto simp: trieNeedle_def)
    with none show ?thesis using take_is_prefix by blast
  qed simp
qed

lemma longestFrom_Some:
  assumes "longestFrom s n 0 None = Some (k, r)"
  shows "0 < k \<and> k \<le> length s \<and> r = replAt (take k s) n \<and> r \<noteq> [] \<and>
    (\<forall>v. trieNeedle n v \<and> prefix v s \<longrightarrow> length v \<le> k)"
proof -
  from longestFrom_spec(1) [OF assms]
  have k: "0 < k" "k \<le> length s" "r = replAt (take k s) n" "r \<noteq> []" and none: "noNeedle n s k" by auto
  have "length v \<le> k" if v: "trieNeedle n v" "prefix v s" for v
  proof (rule ccontr)
    assume "\<not> length v \<le> k"
    moreover have "length v \<le> length s" "take (length v) s = v" "replAt v n \<noteq> []"
      using v by (auto simp: trieNeedle_def prefix_def)
    moreover from none have "k < length v \<and> length v \<le> length s \<longrightarrow> replAt (take (length v) s) n = []"
      unfolding noNeedle_def by blast
    ultimately show False by simp
  qed
  with k show ?thesis by blast
qed

lemma redactLoop_Nil [simp]: "redactLoop root [] = ([], 0)"
  by (simp add: redactLoop.simps)

lemma redactLoop_None:
  "longestFrom (c # s) root 0 None = None \<Longrightarrow>
     redactLoop root (c # s) = (c # fst (redactLoop root s), snd (redactLoop root s))"
  by (subst redactLoop.simps) (simp add: split_def Let_def del: longestFrom.simps)

lemma redactLoop_Some:
  "longestFrom s root 0 None = Some (k, r) \<Longrightarrow>
     redactLoop root s = (r @ fst (redactLoop root (drop k s)), Suc (snd (redactLoop root (drop k s))))"
  using longestFrom_Some [of s root k r] by (subst redactLoop.simps) (auto simp: split_def Let_def)

lemma redactLoop_induct [case_names Nil literal needle]:
  assumes "P []"
    and "\<And>c s. longestFrom (c # s) root 0 None = None \<Longrightarrow> P s \<Longrightarrow> P (c # s)"
    and "\<And>s k r. s \<noteq> [] \<Longrightarrow> longestFrom s root 0 None = Some (k, r) \<Longrightarrow> P (drop k s) \<Longrightarrow> P s"
  shows "P s"
proof (induction "length s" arbitrary: s rule: less_induct)
  case less
  show ?case
  proof (cases s)
    case (Cons c t)
    show ?thesis
    proof (cases "longestFrom s root 0 None")
      case None
      with less Cons assms(2) show ?thesis by simp
    next
      case (Some a)
      obtain k r where a: "a = (k, r)" by force
      with Some longestFrom_Some [of s root k r] less Cons have "P (drop k s)" by simp
      with assms(3) [of s k r] Some a Cons show ?thesis by simp
    qed
  qed (simp add: assms)
qed

lemma redactLoop_count: "snd (redactLoop root s) = 0 \<longleftrightarrow> (\<forall>v. trieNeedle root v \<longrightarrow> \<not> sublist v s)"
proof (induction s rule: redactLoop_induct [where root = root])
  case Nil
  show ?case by (auto simp: trieNeedle_def)
next
  case (literal c s)
  then show ?case
    by (auto simp: redactLoop_None longestFrom_None sublist_Cons_right simp del: longestFrom.simps)
next
  case (needle s k r)
  from longestFrom_Some [OF needle(2)] have "trieNeedle root (take k s)"
    using needle(1) by (auto simp: trieNeedle_def)
  then show ?case by (auto simp: redactLoop_Some [OF needle(2)] intro: sublist_take)
qed

lemma redactLoop_unchanged: "snd (redactLoop root s) = 0 \<Longrightarrow> fst (redactLoop root s) = s"
  by (induction s rule: redactLoop_induct [where root = root]) (simp_all add: redactLoop_None redactLoop_Some)

lemma trieNeedle_matcher: "trieNeedle (mt_root (NewMatcher sha256 ss)) v \<longleftrightarrow> v \<in> needleSet ss"
  using NewMatcher_for [of sha256 ss] needleSet_nonempty [of ss]
  by (auto simp: matcherFor_def trieNeedle_def)

lemma Redact_loop:
  "Redact (NewMatcher sha256 ss) s = redactLoop (mt_root (NewMatcher sha256 ss)) s"
proof (cases "mt_needles (NewMatcher sha256 ss) = 0")
  case True
  then have "needleSet ss = {}" using NewMatcher_for [of sha256 ss] by (simp add: matcherFor_def)
  then have "snd (redactLoop (mt_root (NewMatcher sha256 ss)) s) = 0"
    by (simp add: redactLoop_count trieNeedle_matcher)
  with True redactLoop_unchanged [OF this] show ?thesis by (simp add: Redact_def prod_eq_iff)
qed (auto simp: Redact_def)

lemma Redact_none: "snd (Redact (NewMatcher sha256 ss) s) = 0 \<longleftrightarrow> (\<forall>v \<in> needleSet ss. \<not> sublist v s)"
  by (auto simp: Redact_loop redactLoop_count trieNeedle_matcher)

text \<open>Scrub's output around the placeholders is the input, so a needle that survives overlaps one.\<close>

definition placeholderBody :: "(bytes \<Rightarrow> bytes) \<Rightarrow> scrubSecret \<Rightarrow> bytes" where
  "placeholderBody sha256 s = ''REDACTED:'' @ ss_Alias s @ '':'' @ Sha8 sha256 (ss_Value s)"

lemma Placeholder_body:
  "Placeholder sha256 (ss_Alias s) (ss_Value s) = CHR ''['' # placeholderBody sha256 s @ '']''"
  by (simp add: Placeholder_def placeholderBody_def)

lemma redactLoop_prefix:
  assumes "\<And>v. trieNeedle root v \<Longrightarrow> hd (replAt v root) = sep"
  shows "prefix w (fst (redactLoop root s)) \<Longrightarrow> sep \<notin> set w \<Longrightarrow> prefix w s"
proof (induction s arbitrary: w rule: redactLoop_induct [where root = root])
  case (literal c s)
  then show ?case by (cases w) (auto simp: redactLoop_None)
next
  case (needle s k r)
  from longestFrom_Some [OF needle(2)] have "trieNeedle root (take k s)" "r = replAt (take k s) root" "r \<noteq> []"
    using needle(1) by (auto simp: trieNeedle_def)
  with assms obtain r' where "r = sep # r'" by (metis list.collapse)
  with needle show ?case by (cases w) (auto simp: redactLoop_Some)
qed simp

lemma redactLoop_complete:
  assumes repl: "\<And>v. trieNeedle root v \<Longrightarrow> \<exists>body. replAt v root = CHR ''['' # body @ '']'' \<and> \<not> sublist w body"
    and w: "trieNeedle root w" "CHR ''['' \<notin> set w" "CHR '']'' \<notin> set w"
  shows "\<not> sublist w (fst (redactLoop root s))"
proof (induction s rule: redactLoop_induct [where root = root])
  case Nil
  show ?case using w(1) by (simp add: trieNeedle_def)
next
  case (literal c s)
  have hd: "\<And>v. trieNeedle root v \<Longrightarrow> hd (replAt v root) = CHR ''[''" using repl by fastforce
  have "\<not> prefix w (c # s)" using literal(1) w(1) longestFrom_None by blast
  then have "\<not> prefix w (fst (redactLoop root (c # s)))"
    using redactLoop_prefix [of root "CHR ''[''" w "c # s"] hd w(2) by blast
  with literal show ?case by (auto simp: redactLoop_None sublist_Cons_right)
next
  case (needle s k r)
  from longestFrom_Some [OF needle(2)] have "trieNeedle root (take k s)" "r = replAt (take k s) root"
    using needle(1) by (auto simp: trieNeedle_def)
  with repl obtain body where body: "r = CHR ''['' # body @ '']''" "\<not> sublist w body" by blast
  show ?case
  proof
    assume "sublist w (fst (redactLoop root s))"
    then have "sublist w ([] @ CHR ''['' # body @ CHR '']'' # fst (redactLoop root (drop k s)))"
      by (simp add: redactLoop_Some [OF needle(2)] body(1))
    from sublist_avoids_sep [OF this w(2)] w(1)
    have "sublist w (body @ CHR '']'' # fst (redactLoop root (drop k s)))"
      by (auto simp: trieNeedle_def)
    from sublist_avoids_sep [OF this w(3)] body(2) needle(3) show False by blast
  qed
qed

lemma Redact_complete:
  assumes "w \<in> needleSet ss" "CHR ''['' \<notin> set w" "CHR '']'' \<notin> set w"
    and "list_all (\<lambda>s. \<not> sublist w (placeholderBody sha256 s)) ss"
  shows "\<not> sublist w (fst (Redact (NewMatcher sha256 ss) text))"
proof -
  let ?root = "mt_root (NewMatcher sha256 ss)"
  have "\<exists>body. replAt v ?root = CHR ''['' # body @ '']'' \<and> \<not> sublist w body" if "trieNeedle ?root v" for v
  proof -
    from that NewMatcher_for [of sha256 ss]
    obtain s where "s \<in> set ss" "replAt v ?root = Placeholder sha256 (ss_Alias s) (ss_Value s)"
      unfolding matcherFor_def trieNeedle_def by meson
    with assms(4) show ?thesis by (auto simp: Placeholder_body list_all_iff)
  qed
  then show ?thesis
    using redactLoop_complete [of ?root w] assms by (simp add: Redact_loop trieNeedle_matcher)
qed

section \<open>The walk over transcript files\<close>

definition rewritten :: "string \<Rightarrow> scanResult \<Rightarrow> bool" where
  "rewritten p res \<longleftrightarrow> list_ex (\<lambda>f. fr_Path f = p \<and> fr_Rewritten f) (sc_Files res)"

text \<open>What the report says of one file, and what the tallies say of the report.\<close>

definition reportOk :: "matcher \<Rightarrow> bool \<Rightarrow> (string \<Rightarrow> bytes) \<Rightarrow> fileResult \<Rightarrow> bool" where
  "reportOk m apply' fs f \<longleftrightarrow>
     (if fr_Skipped f \<noteq> None then fr_Matches f = 0 \<and> \<not> fr_Rewritten f
      else fr_Matches f = snd (Redact m (fs (fr_Path f))) \<and>
           (fr_Rewritten f \<longleftrightarrow> apply' \<and> fr_Matches f > 0))"

definition filesOk :: "matcher \<Rightarrow> bool \<Rightarrow> (string \<Rightarrow> bytes) \<Rightarrow> scanState \<Rightarrow> bool" where
  "filesOk m apply' fs st \<longleftrightarrow>
     (\<forall>p. sn_fs st p = (if rewritten p (sn_res st) then fst (Redact m (fs p)) else fs p)) \<and>
     list_all (reportOk m apply' fs) (sc_Files (sn_res st)) \<and>
     sc_Rewrote (sn_res st) = length (List.filter fr_Rewritten (sc_Files (sn_res st))) \<and>
     sc_SkippedN (sn_res st) = length (List.filter (\<lambda>f. fr_Skipped f \<noteq> None) (sc_Files (sn_res st)))"

definition talliesOk :: "scanResult \<Rightarrow> bool" where
  "talliesOk res \<longleftrightarrow>
     sc_Scanned res = length (List.filter (\<lambda>f. fr_Skipped f = None) (sc_Files res)) \<and>
     sc_Matched res = length (List.filter (\<lambda>f. fr_Matches f > 0) (sc_Files res))"

definition walkInv :: "matcher \<Rightarrow> bool \<Rightarrow> (string \<Rightarrow> bytes) \<Rightarrow> scanState \<Rightarrow> bool" where
  "walkInv m apply' fs st \<longleftrightarrow>
     filesOk m apply' fs st \<and> talliesOk (sn_res st) \<and> (\<forall>p. rewritten p (sn_res st) \<longrightarrow> p \<in> set (sn_seen st))"

lemma walkInv_skip:
  "walkInv m a fs st \<Longrightarrow> set (sn_seen st) \<subseteq> set seen \<Longrightarrow>
     walkInv m a fs (st\<lparr>sn_seen := seen, sn_res := skipFile store path reason (sn_res st)\<rparr>)"
  by (auto simp: walkInv_def filesOk_def talliesOk_def rewritten_def reportOk_def skipFile_def)

lemma walkInv_scan:
  assumes "walkInv m a fs st" "path \<notin> set (sn_seen st)" "Redact m (fs path) = (redacted, n)"
  shows "walkInv m a fs (st\<lparr>sn_seen := path # sn_seen st,
      sn_res := addFile store path n (a \<and> n > 0)
        ((sn_res st)\<lparr>sc_Scanned := sc_Scanned (sn_res st) + 1,
           sc_Matched := sc_Matched (sn_res st) + (if n > 0 then 1 else 0),
           sc_Rewrote := sc_Rewrote (sn_res st) + (if a \<and> n > 0 then 1 else 0)\<rparr>),
      sn_fs := (if a \<and> n > 0 then (sn_fs st)(path := redacted) else sn_fs st)\<rparr>)"
proof -
  have "fst (Redact m (fs path)) = redacted" "snd (Redact m (fs path)) = n"
    using assms(3) by simp_all
  moreover have "\<not> rewritten path (sn_res st)" using assms(1,2) by (auto simp: walkInv_def)
  ultimately show ?thesis
    using assms(1)
    by (auto simp: walkInv_def filesOk_def talliesOk_def rewritten_def reportOk_def addFile_def)
qed

lemma walkInv_failed:
  assumes "walkInv m a fs st"
  shows "filesOk m a fs (st\<lparr>sn_seen := seen, sn_res := (sn_res st)\<lparr>sc_Scanned := x, sc_Matched := y\<rparr>\<rparr>)"
  using assms by (auto simp: walkInv_def filesOk_def rewritten_def)

lemma walkOne_inv:
  assumes "walkInv m a fs st"
  shows "case walkOne m store a e st of
      Inl (err, st') \<Rightarrow> filesOk m a fs st' | Inr st' \<Rightarrow> walkInv m a fs st'"
proof (cases "we_Err e = None \<and> \<not> we_IsDir e \<and> we_Path e \<notin> set (sn_seen st) \<and> \<not> we_Symlink e \<and>
    scrubbable (we_Path e) \<and> (\<exists>n. we_Info e = Inr n \<and> n \<le> MaxFileSize) \<and> we_ReadErr e = None \<and>
    \<not> isBinary (sn_fs st (we_Path e))")
  case True
  obtain redacted n where R: "Redact m (fs (we_Path e)) = (redacted, n)" by force
  have fs: "sn_fs st (we_Path e) = fs (we_Path e)"
    using True assms by (auto simp: walkInv_def filesOk_def)
  from True obtain sz where sz: "we_Info e = Inr sz" "sz \<le> MaxFileSize" by blast
  have scan: "walkInv m a fs (st\<lparr>sn_seen := we_Path e # sn_seen st,
      sn_res := addFile store (we_Path e) n (a \<and> n > 0)
        ((sn_res st)\<lparr>sc_Scanned := sc_Scanned (sn_res st) + 1,
           sc_Matched := sc_Matched (sn_res st) + (if n > 0 then 1 else 0),
           sc_Rewrote := sc_Rewrote (sn_res st) + (if a \<and> n > 0 then 1 else 0)\<rparr>),
      sn_fs := (if a \<and> n > 0 then (sn_fs st)(we_Path e := redacted) else sn_fs st)\<rparr>)"
    using walkInv_scan [OF assms _ R] True by blast
  from walkInv_failed [OF assms] scan show ?thesis
    using True sz R fs
    by (cases "n = 0"; cases a; cases "we_ReplaceErr e") (simp_all add: walkOne_def Let_def)
next
  case False
  note skip = walkInv_skip [OF assms, of "we_Path e # sn_seen st"] walkInv_skip [OF assms, of "sn_seen st"]
  have upd: "st\<lparr>sn_res := r\<rparr> = st\<lparr>sn_seen := sn_seen st, sn_res := r\<rparr>" for r by simp
  show ?thesis
  proof (cases "we_Info e")
    case (Inl err)
    then show ?thesis using skip assms
      by (auto simp: walkOne_def Let_def split: option.split simp flip: upd)
  next
    case (Inr sz)
    with False show ?thesis using skip assms
      by (auto simp: walkOne_def Let_def split: option.split simp flip: upd)
  qed
qed

definition walkRes :: "matcher \<Rightarrow> bool \<Rightarrow> (string \<Rightarrow> bytes) \<Rightarrow> (string \<times> scanState) + scanState \<Rightarrow> bool" where
  "walkRes m a fs r \<longleftrightarrow>
     (case r of Inl (err, st) \<Rightarrow> filesOk m a fs st | Inr st \<Rightarrow> walkInv m a fs st)"

lemma walkRes_simps [simp]:
  "walkRes m a fs (Inl p) \<longleftrightarrow> filesOk m a fs (snd p)"
  "walkRes m a fs (Inr st) \<longleftrightarrow> walkInv m a fs st"
  by (simp_all add: walkRes_def split_def)

lemma walkDir_inv: "walkInv m a fs st \<Longrightarrow> walkRes m a fs (walkDir m store a es st)"
proof (induction es arbitrary: st)
  case (Cons e es)
  from walkOne_inv [OF Cons.prems, of store e] show ?case
    by (auto split: sum.splits intro: Cons.IH)
qed simp

lemma scrubDirs_inv: "walkInv m a fs st \<Longrightarrow> walkRes m a fs (scrubDirs m a seen dirs st)"
proof (induction dirs arbitrary: st seen)
  case (Cons d dirs)
  obtain store dir isDir entries where d: "d = (store, dir, isDir, entries)" by (cases d)
  show ?case
  proof (cases "walkDir m store a entries st")
    case (Inl r)
    with walkDir_inv [OF Cons.prems, of store entries] Cons show ?thesis
      by (simp add: d split: option.split)
  next
    case (Inr st')
    with walkDir_inv [OF Cons.prems, of store entries] Cons show ?thesis
      by (simp add: d split: option.split)
  qed
qed simp

lemma Scrub_inv: "walkRes m a fs (Scrub m roots a fs)"
  unfolding Scrub_def
  by (rule scrubDirs_inv) (simp add: walkInv_def filesOk_def talliesOk_def rewritten_def)

lemma filesOk_dry:
  assumes "filesOk m False fs st"
  shows "sn_fs st = fs"
proof -
  have "\<not> rewritten p (sn_res st)" for p
    using assms by (fastforce simp: filesOk_def rewritten_def reportOk_def list_all_iff list_ex_iff split: if_splits)
  then show ?thesis using assms by (auto simp: filesOk_def)
qed

section \<open>Properties\<close>

text \<open>\<open>Contains\<close> decides whether the text contains a needle: some secret of at least
  \<open>MinSecretLen\<close> bytes, or one of its encoded variants, anywhere in it.
\<close>

lemma scrub_contains_iff:
  "Contains (NewMatcher sha256 ss) s \<longleftrightarrow> (\<exists>v \<in> needleSet ss. sublist v s)"
  using Redact_none [of sha256 ss s] by (auto simp: Contains_def)

text \<open>A needle without brackets that is not part of the text between the brackets of a
  placeholder does not occur in the output of \<open>Redact\<close>, wherever it occurred in the input.
\<close>

lemma scrub_redact_complete:
  assumes "w \<in> needleSet ss" "CHR ''['' \<notin> set w" "CHR '']'' \<notin> set w"
    and "list_all (\<lambda>s. \<not> sublist w (placeholderBody sha256 s)) ss"
  shows "\<not> sublist w (fst (Redact (NewMatcher sha256 ss) text))"
  using assms by (rule Redact_complete)

lemma scrub_redact_complete_witness:
  "\<not> sublist ''hunter2-password'' (fst (Redact (NewMatcher (\<lambda>_. replicate 32 CHR 0x07)
     [\<lparr>ss_Alias = ''db'', ss_Value = ''hunter2-password''\<rparr>]) ''login hunter2-password ok''))"
proof (rule scrub_redact_complete)
  show "''hunter2-password'' \<in> needleSet [\<lparr>ss_Alias = ''db'', ss_Value = ''hunter2-password''\<rparr>]"
    using Variants_nonempty [of "''hunter2-password''"] by (simp add: needleSet_def MinSecretLen_def)
qed (code_simp, code_simp, code_simp)

text \<open>\<open>Scrub\<close> leaves each file as it was or replaces it by its redaction, and it replaces it
  exactly when the report says so; a dry run changes no file; each report entry states the
  true number of matches; and the tallies count the entries of the report, also when a failed
  rewrite ends the walk, in which case only the file that failed is missing from it.
\<close>

lemma scrub_files:
  "case Scrub m roots apply' fs of
     Inl (err, st) \<Rightarrow> filesOk m apply' fs st \<and> (apply' \<or> sn_fs st = fs)
   | Inr st \<Rightarrow> filesOk m apply' fs st \<and> talliesOk (sn_res st) \<and> (apply' \<or> sn_fs st = fs)"
  using Scrub_inv [of m apply' fs roots] filesOk_dry [of m fs]
  by (cases apply') (auto simp: walkInv_def split: sum.split)

text \<open>
  The comment on \<open>Redact\<close> calls it idempotent.  It is not when a value is part of a
  placeholder: the second pass redacts inside the first one's placeholder.
\<close>

theorem scrub_not_idempotent:
  "\<exists>sha256 ss s. fst (Redact (NewMatcher sha256 ss) (fst (Redact (NewMatcher sha256 ss) s)))
     \<noteq> fst (Redact (NewMatcher sha256 ss) s)"
proof -
  let ?m = "NewMatcher (\<lambda>_. replicate 32 CHR 0x07) [\<lparr>ss_Alias = ''ci'', ss_Value = ''REDACTED''\<rparr>]"
  have "fst (Redact ?m (fst (Redact ?m ''REDACTED''))) \<noteq> fst (Redact ?m ''REDACTED'')"
    by code_simp
  then show ?thesis by blast
qed

end
