(* ===== verification/GoJSON.thy ===== *)
theory GoJSON
  imports GoEncoding
begin

text \<open>
  The output of \<open>json.Marshal\<close> for the values that the components encode (strings, integers,
  booleans, slices and structs), and the raw standard base64 decoder.
\<close>

section \<open>JSON values\<close>

definition jsonString :: "string \<Rightarrow> bytes" where
  "jsonString s = CHR 0x22 # jsonBody True s @ [CHR 0x22]"

fun natDigits :: "nat \<Rightarrow> bytes" where
  "natDigits n = (if n < 10 then [hexDigit n] else natDigits (n div 10) @ [hexDigit (n mod 10)])"

declare natDigits.simps [simp del]

definition jsonInt :: "int \<Rightarrow> bytes" where
  "jsonInt i = (if i < 0 then CHR ''-'' # natDigits (nat (- i)) else natDigits (nat i))"

definition jsonBool :: "bool \<Rightarrow> bytes" where
  "jsonBool b = (if b then ''true'' else ''false'')"

definition jsonArray :: "bytes list \<Rightarrow> bytes" where
  "jsonArray xs = ''['' @ Join xs '','' @ '']''"

definition jsonStrings :: "string list option \<Rightarrow> bytes" where
  "jsonStrings xs = (case xs of None \<Rightarrow> ''null'' | Some xs \<Rightarrow> jsonArray (List.map jsonString xs))"

definition jsonField :: "string \<Rightarrow> bytes \<Rightarrow> bytes" where
  "jsonField name v = jsonString name @ '':'' @ v"

definition jsonObject :: "bytes list \<Rightarrow> bytes" where
  "jsonObject fs = ''{'' @ Join fs '','' @ ''}''"

section \<open>Base64 decoding\<close>

fun unsextets :: "nat list \<Rightarrow> nat list option" where
  "unsextets (a # b # c # d # r) =
     map_option (\<lambda>s. [a * 4 + b div 16, (b mod 16) * 16 + c div 4, (c mod 4) * 64 + d] @ s) (unsextets r)"
| "unsextets [a, b, c] = Some [a * 4 + b div 16, (b mod 16) * 16 + c div 4]"
| "unsextets [a, b] = Some [a * 4 + b div 16]"
| "unsextets [a] = None"
| "unsextets [] = Some []"

fun byteIndex :: "char \<Rightarrow> bytes \<Rightarrow> nat option" where
  "byteIndex c [] = None"
| "byteIndex c (d # ds) = (if c = d then Some 0 else map_option Suc (byteIndex c ds))"

definition unsextet :: "bytes \<Rightarrow> bytes \<Rightarrow> nat list option" where
  "unsextet alphabet s = those (List.map (\<lambda>c. byteIndex c alphabet) s)"

text \<open>\<open>DecodeString\<close> of the raw encodings: line breaks are skipped, padding is not accepted.\<close>

definition b64DecodeWith :: "bytes \<Rightarrow> bytes \<Rightarrow> bytes option" where
  "b64DecodeWith alphabet s =
     (case unsextet alphabet (List.filter (\<lambda>c. c \<noteq> CHR 0x0A \<and> c \<noteq> CHR 0x0D) s) of
        None \<Rightarrow> None
      | Some vs \<Rightarrow> map_option (List.map char_of) (unsextets vs))"

definition b64Decode :: "bytes \<Rightarrow> bytes option" where
  "b64Decode = b64DecodeWith b64Std"

definition b64URLDecode :: "bytes \<Rightarrow> bytes option" where
  "b64URLDecode = b64DecodeWith b64URL"

lemma unsextets_sextets: "list_all (\<lambda>n. n < 256) s \<Longrightarrow> unsextets (sextets s) = Some s"
  by (induction s rule: sextets.induct) auto

lemma sextets_bound: "list_all (\<lambda>n. n < 256) s \<Longrightarrow> list_all (\<lambda>n. n < 64) (sextets s)"
  by (induction s rule: sextets.induct) auto

lemma indexOf_nth: "distinct al \<Longrightarrow> i < length al \<Longrightarrow> byteIndex (al ! i) al = Some i"
proof (induction al arbitrary: i)
  case (Cons d al)
  then show ?case by (cases i) auto
qed simp

lemma those_map_Some: "(\<And>x. x \<in> set xs \<Longrightarrow> f x = Some (g x)) \<Longrightarrow> those (List.map f xs) = Some (List.map g xs)"
  by (induction xs) auto

definition plainAlphabet :: "bytes \<Rightarrow> bool" where
  "plainAlphabet al \<longleftrightarrow> distinct al \<and> length al = 64 \<and> CHR 0x0A \<notin> set al \<and> CHR 0x0D \<notin> set al"

lemma plainAlphabets: "plainAlphabet b64Std" "plainAlphabet b64URL"
  by (simp_all add: plainAlphabet_def b64Std_def b64URL_def)

lemma b64DecodeWith_Raw:
  assumes "plainAlphabet al"
  shows "b64DecodeWith al (b64Raw al s) = Some s"
proof -
  note al = assms [unfolded plainAlphabet_def]
  have bytes: "list_all (\<lambda>n. n < 256) (byteVals s)" by (simp add: byteVals_def list_all_iff)
  have small: "i < 64" if "i \<in> set (sextets (byteVals s))" for i
    using sextets_bound [OF bytes] that by (simp add: list_all_iff)
  have "set (b64Raw al s) \<subseteq> set al"
    using small al by (auto simp: b64Raw_def)
  then have "List.filter (\<lambda>c. c \<noteq> CHR 0x0A \<and> c \<noteq> CHR 0x0D) (b64Raw al s) = b64Raw al s"
    using al by (auto intro!: filter_True)
  moreover have "unsextet al (b64Raw al s) = Some (sextets (byteVals s))"
    using small al those_map_Some [of "sextets (byteVals s)" "\<lambda>i. byteIndex (al ! i) al" id]
    by (simp add: unsextet_def b64Raw_def comp_def indexOf_nth)
  ultimately show ?thesis
    using unsextets_sextets [OF bytes] by (simp add: b64DecodeWith_def byteVals_def comp_def)
qed

lemma b64Decode_Raw [simp]: "b64Decode (b64Raw b64Std s) = Some s" "b64URLDecode (b64Raw b64URL s) = Some s"
  by (simp_all add: b64Decode_def b64URLDecode_def b64DecodeWith_Raw plainAlphabets)

end
