(* ===== verification/AuditLog.thy ===== *)
theory AuditLog
  imports Encodings GoJSON
begin

text \<open>
  The audit log of \<open>src/internal/audit/audit.go\<close>: records in a JSON lines file, linked by a
  SHA-256 hash chain.

  A log file is its bytes.  Encoding a record (\<open>json.Marshal\<close> with the struct's tags) is written
  out; SHA-256 and decoding a line (\<open>json.Unmarshal\<close>) are arguments.  A timestamp is the RFC 3339
  text it is marshalled to, a nil slice is \<open>None\<close>, and what the operating system answers
  during one \<open>Append\<close> is a record of its own; the locks make an \<open>Append\<close> one step.
\<close>

section \<open>Records\<close>

definition schemaVersion :: int where "schemaVersion = 1"

definition genesisHash :: string where "genesisHash = replicate 64 (CHR ''0'')"

record secretUse =
  su_Name :: string
  su_Kind :: string
  su_Target :: string

record auditEntry =
  en_Timestamp :: string
  en_Schema :: int
  en_SessionID :: string
  en_Cwd :: string
  en_CommandID :: string
  en_Argv :: "string list option"
  en_SecretNames :: "string list option"
  en_SecretUses :: "secretUse list"
  en_CleanupResult :: string
  en_RedactionCount :: int
  en_EntropyWarnings :: int
  en_ExitCode :: int
  en_DurationMs :: int
  en_Truncated :: bool
  en_KillReason :: string
  en_SeccompRequested :: bool
  en_SeccompInstalled :: bool
  en_SeccompDetail :: string
  en_NoNetwork :: bool
  en_PrevHash :: string
  en_Hash :: string
  en_ScrubValues :: "string list"

definition jsonSecretUse :: "secretUse \<Rightarrow> bytes" where
  "jsonSecretUse u =
     jsonObject [jsonField ''name'' (jsonString (su_Name u)), jsonField ''kind'' (jsonString (su_Kind u)),
       jsonField ''target'' (jsonString (su_Target u))]"

definition MarshalEntry :: "auditEntry \<Rightarrow> bytes" where
  "MarshalEntry e = jsonObject
     ([jsonField ''ts'' (jsonString (en_Timestamp e)),
       jsonField ''schema'' (jsonInt (en_Schema e)),
       jsonField ''session_id'' (jsonString (en_SessionID e)),
       jsonField ''cwd'' (jsonString (en_Cwd e)),
       jsonField ''command_id'' (jsonString (en_CommandID e)),
       jsonField ''argv'' (jsonStrings (en_Argv e)),
       jsonField ''secret_names'' (jsonStrings (en_SecretNames e))] @
      (if en_SecretUses e = [] then []
       else [jsonField ''secret_uses'' (jsonArray (List.map jsonSecretUse (en_SecretUses e)))]) @
      (if en_CleanupResult e = [] then [] else [jsonField ''cleanup_result'' (jsonString (en_CleanupResult e))]) @
      [jsonField ''redaction_count'' (jsonInt (en_RedactionCount e)),
       jsonField ''entropy_warnings'' (jsonInt (en_EntropyWarnings e)),
       jsonField ''exit_code'' (jsonInt (en_ExitCode e)),
       jsonField ''duration_ms'' (jsonInt (en_DurationMs e)),
       jsonField ''truncated'' (jsonBool (en_Truncated e)),
       jsonField ''kill_reason'' (jsonString (en_KillReason e)),
       jsonField ''seccomp_requested'' (jsonBool (en_SeccompRequested e))] @
      (if en_SeccompInstalled e then [jsonField ''seccomp_installed'' (jsonBool True)] else []) @
      (if en_SeccompDetail e = [] then [] else [jsonField ''seccomp_detail'' (jsonString (en_SeccompDetail e))]) @
      [jsonField ''no_network'' (jsonBool (en_NoNetwork e)),
       jsonField ''prev_hash'' (jsonString (en_PrevHash e)),
       jsonField ''hash'' (jsonString (en_Hash e))])"

text \<open>The text that a record's hash is taken of.\<close>

definition recordText :: "auditEntry \<Rightarrow> bytes" where
  "recordText e = MarshalEntry (e\<lparr>en_Hash := ''''\<rparr>)"

definition computeHash :: "(bytes \<Rightarrow> bytes) \<Rightarrow> auditEntry \<Rightarrow> string" where
  "computeHash sha256 e = hexEncode (sha256 (recordText e))"

section \<open>Scrubbing argv\<close>

definition scrubPlaceholder :: bytes where "scrubPlaceholder = ''[REDACTED]''"
definition minScrubSecretLen :: nat where "minScrubSecretLen = 4"
definition minEncodableSecretLen :: nat where "minEncodableSecretLen = 8"

text \<open>\<open>strings.ReplaceAll\<close>, for a pattern that is not empty.\<close>

function ReplaceAll :: "bytes \<Rightarrow> bytes \<Rightarrow> bytes \<Rightarrow> bytes" where
  "ReplaceAll s old new =
     (if s = [] \<or> old = [] then s
      else if prefix old s then new @ ReplaceAll (drop (length old) s) old new
      else hd s # ReplaceAll (tl s) old new)"
  by pat_completeness auto
termination
  by (relation "measure (\<lambda>(s, _, _). length s)") auto

declare ReplaceAll.simps [simp del]

definition scrubNeedles :: "string list \<Rightarrow> string list" where
  "scrubNeedles values =
     concat (List.map (\<lambda>v. if length v < minScrubSecretLen then []
       else v # (if length v \<ge> minEncodableSecretLen then Encodings v (int minEncodableSecretLen) else [])) values)"

definition dedupe :: "string list \<Rightarrow> string list" where
  "dedupe needles = fold (\<lambda>n uniq. if n \<in> set uniq then uniq else uniq @ [n]) needles []"

definition scrubArg :: "string list \<Rightarrow> string \<Rightarrow> string" where
  "scrubArg uniq arg =
     fold (\<lambda>n arg. if sublist n arg then ReplaceAll arg n scrubPlaceholder else arg) uniq arg"

definition sliceElems :: "'a list option \<Rightarrow> 'a list" where
  "sliceElems xs = (case xs of None \<Rightarrow> [] | Some xs \<Rightarrow> xs)"

definition scrubSecrets :: "string list option \<Rightarrow> string list \<Rightarrow> string list option" where
  "scrubSecrets argv values =
     (let needles = scrubNeedles values in
      if needles = [] then argv
      else Some (List.map (scrubArg (sort_key (\<lambda>n. - int (length n)) (dedupe needles))) (sliceElems argv)))"

section \<open>Reading the log\<close>

datatype auditError =
    ErrCreateDir string | ErrOpenLog string | ErrCannotVerify auditError | TamperDetected nat
  | ErrTooLong | ErrLock string | ErrReadLog string | UnreadableLastRecord
  | ErrWriteLog string | ErrSyncLog string | ErrNoLog string

text \<open>
  The scanner of \<open>Verify\<close> has a buffer of at most 8 MiB.
\<close>

definition maxTokenSize :: nat where "maxTokenSize = 8 * 1024 * 1024"

definition scanLines :: "bytes \<Rightarrow> bytes list \<times> bool" where
  "scanLines s = Scanner maxTokenSize s"

text \<open>The loop of \<open>Verify\<close>: the number of the first broken line, if there is one.\<close>

fun verifyLines :: "(bytes \<Rightarrow> bytes) \<Rightarrow> (bytes \<Rightarrow> auditEntry option) \<Rightarrow> string \<Rightarrow> nat \<Rightarrow> bytes list \<Rightarrow> nat option" where
  "verifyLines sha256 unmarshal prev line [] = None"
| "verifyLines sha256 unmarshal prev line (l # ls) =
     (let line = line + 1; raw = TrimSpace l in
      if raw = [] then verifyLines sha256 unmarshal prev line ls
      else case unmarshal raw of
             None \<Rightarrow> Some line
           | Some e \<Rightarrow>
               if en_PrevHash e \<noteq> prev \<or> computeHash sha256 e \<noteq> en_Hash e then Some line
               else verifyLines sha256 unmarshal (en_Hash e) line ls)"

definition Verify :: "(bytes \<Rightarrow> bytes) \<Rightarrow> (bytes \<Rightarrow> auditEntry option) \<Rightarrow> bytes \<Rightarrow> auditError + int" where
  "Verify sha256 unmarshal f =
     (let (ls, tooLong) = scanLines f in
      case verifyLines sha256 unmarshal genesisHash 0 ls of
        Some n \<Rightarrow> Inr (int n)
      | None \<Rightarrow> if tooLong then Inl ErrTooLong else Inr (-1))"

definition tailWindow :: nat where "tailWindow = 64 * 1024"

definition lastHash :: "(bytes \<Rightarrow> auditEntry option) \<Rightarrow> bytes \<Rightarrow> auditError + string" where
  "lastHash unmarshal f =
     (let size' = length f in
      if size' = 0 then Inr genesisHash
      else let buf = drop (size' - tailWindow) f;
               trimmed = rev (dropWhile (\<lambda>c. c = newline) (rev buf));
               lastLine = rev (takeWhile (\<lambda>c. c \<noteq> newline) (rev trimmed))
           in case unmarshal lastLine of
                None \<Rightarrow> Inl UnreadableLastRecord
              | Some e \<Rightarrow> Inr (en_Hash e))"

section \<open>Open and Append\<close>

text \<open>
  \<open>Open\<close> of a path whose file holds \<open>f\<close> (empty if it was just created).  \<open>Inr None\<close> is the
  disabled log; \<open>Inr (Some f)\<close> is a logger on the file.
\<close>

definition Open :: "(bytes \<Rightarrow> bytes) \<Rightarrow> (bytes \<Rightarrow> auditEntry option) \<Rightarrow> string \<Rightarrow> string option \<Rightarrow>
    string + bytes \<Rightarrow> auditError + bytes option" where
  "Open sha256 unmarshal path mkdirErr opened =
     (if path = '''' then Inr None
      else case mkdirErr of
        Some err \<Rightarrow> Inl (ErrCreateDir err)
      | None \<Rightarrow> (case opened of
          Inl err \<Rightarrow> Inl (ErrOpenLog err)
        | Inr f \<Rightarrow> (case Verify sha256 unmarshal f of
            Inl verr \<Rightarrow> Inl (ErrCannotVerify verr)
          | Inr broken \<Rightarrow>
              if broken \<noteq> -1 then Inl (TamperDetected (nat broken)) else Inr (Some f))))"

record auditIO =
  ai_Lock :: "string option"
  ai_Read :: "string option"
  ai_Write :: "(nat \<times> string) option"
  ai_Sync :: "string option"

definition auditOk :: auditIO where
  "auditOk = \<lparr>ai_Lock = None, ai_Read = None, ai_Write = None, ai_Sync = None\<rparr>"

text \<open>The record that \<open>Append\<close> stores for an entry after a record with the hash \<open>prev\<close>.\<close>

definition storedEntry :: "(bytes \<Rightarrow> bytes) \<Rightarrow> string \<Rightarrow> auditEntry \<Rightarrow> auditEntry" where
  "storedEntry sha256 prev e =
     (let e = (if length (en_ScrubValues e) > 0
               then e\<lparr>en_Argv := scrubSecrets (en_Argv e) (en_ScrubValues e),
                      en_ScrubValues := []\<rparr>
               else e);
          e = e\<lparr>en_Schema := schemaVersion, en_PrevHash := prev\<rparr>
      in e\<lparr>en_Hash := computeHash sha256 e\<rparr>)"

text \<open>A failed write leaves the bytes that were written.\<close>

definition Append :: "(bytes \<Rightarrow> bytes) \<Rightarrow> (bytes \<Rightarrow> auditEntry option) \<Rightarrow> auditIO \<Rightarrow> auditEntry \<Rightarrow>
    bytes option \<Rightarrow> bytes option \<times> auditError option" where
  "Append sha256 unmarshal io e l =
     (case l of
        None \<Rightarrow> (None, None)
      | Some f \<Rightarrow>
          (case ai_Lock io of
             Some err \<Rightarrow> (Some f, Some (ErrLock err))
           | None \<Rightarrow> (case ai_Read io of
               Some err \<Rightarrow> (Some f, Some (ErrReadLog err))
             | None \<Rightarrow> (case lastHash unmarshal f of
                 Inl err \<Rightarrow> (Some f, Some err)
               | Inr prev \<Rightarrow>
                   (let line = MarshalEntry (storedEntry sha256 prev e) @ [newline] in
                    case ai_Write io of
                      Some (n, err) \<Rightarrow> (Some (f @ take n line), Some (ErrWriteLog err))
                    | None \<Rightarrow> (Some (f @ line), map_option ErrSyncLog (ai_Sync io)))))))"

section \<open>Where the log lives\<close>

text \<open>The environment variables and the home directory that \<open>defaultPath\<close> looks at.\<close>

record pathEnv =
  pe_XDGStateHome :: string
  pe_Windows :: bool
  pe_LocalAppData :: string
  pe_Home :: "string option"

text \<open>\<open>filepath.Join\<close>: the non-empty elements joined by slashes and cleaned.\<close>

definition pathJoin :: "string list \<Rightarrow> string" where
  "pathJoin elems =
     (let es = dropWhile (\<lambda>e. e = []) elems in if es = [] then [] else Clean (Join es ''/''))"

definition auditDefaultPath :: "pathEnv \<Rightarrow> string" where
  "auditDefaultPath env =
     (if pe_XDGStateHome env \<noteq> [] then pathJoin [pe_XDGStateHome env, ''ironrun'', ''audit.log'']
      else if pe_Windows env \<and> pe_LocalAppData env \<noteq> [] then
        pathJoin [pe_LocalAppData env, ''ironrun'', ''audit.log'']
      else case pe_Home env of
        None \<Rightarrow> []
      | Some home \<Rightarrow> if home = [] then [] else pathJoin [home, ''.local'', ''state'', ''ironrun'', ''audit.log''])"

definition expandHome :: "pathEnv \<Rightarrow> string \<Rightarrow> string" where
  "expandHome env p =
     (if p = ''~'' \<or> length p \<ge> 2 \<and> take 2 p = ''~/'' then
        (case pe_Home env of
           None \<Rightarrow> p
         | Some home \<Rightarrow>
             if home = [] then p else if p = ''~'' then home else pathJoin [home, drop 2 p])
      else p)"

definition ResolvePath :: "pathEnv \<Rightarrow> string \<Rightarrow> string" where
  "ResolvePath env policyField =
     (if policyField \<noteq> [] then (if policyField = ''off'' then [] else expandHome env policyField)
      else auditDefaultPath env)"

end
