(* ===== verification/AuditLog_Props.thy ===== *)
theory AuditLog_Props
  imports AuditLog
begin

text \<open>
  The audit log: appending keeps the chain intact, an intact chain pins down every record by
  its last hash, and scrubbing takes every needle out of the arguments.
\<close>

section \<open>Shape of the encoding\<close>

lemma of_char_less_16 [simp]: "of_char c div 16 < (16 :: nat)"
proof -
  have "of_char c < (256 :: nat)" by (rule nat_of_char_less_256)
  then show ?thesis by linarith
qed

definition hexChars :: bytes where "hexChars = ''0123456789abcdef''"

lemma hexDigit_mem [simp]: "n < 16 \<Longrightarrow> hexDigit n \<in> set hexChars"
  unfolding hexDigit_def hexChars_def by (rule nth_mem) simp

lemma hexDigit_not_newline [simp]: "n < 16 \<Longrightarrow> hexDigit n \<noteq> newline"
  using hexDigit_mem [of n] by (auto simp: hexChars_def)

lemma hexByte_no_newline [simp]: "newline \<notin> set (hexByte c)"
  using hexDigit_not_newline [of "of_char c div 16"] hexDigit_not_newline [of "of_char c mod 16"]
  by (simp add: hexByte_def eq_commute [of newline])

lemma jsonByte_no_newline [simp]: "newline \<notin> set (jsonByte html c)"
proof (cases "c = newline")
  case True
  then show ?thesis by (simp add: jsonByte_def)
next
  case False
  then show ?thesis by (auto simp: jsonByte_def Let_def)
qed

lemma decodeRune_ascii:
  assumes "decodeRune (c # s) = (r, n)" "c = newline"
  shows "r < 0x80 \<and> n = 1"
  using assms by auto

definition highByte :: "char \<Rightarrow> bool" where "highByte c \<longleftrightarrow> (0x80 :: nat) \<le> of_char c"

lemma contByte_high: "contByte c \<Longrightarrow> highByte c"
  by (simp add: contByte_def highByte_def)

lemma decodeRune_tail:
  assumes "decodeRune (c0 # s) = (r, Suc n)"
  shows "list_all highByte (take n s)"
proof -
  let ?b0 = "of_char c0 :: nat"
  consider (one) "?b0 < 0xC2 \<or> ?b0 > 0xF4" | (two) "0xC2 \<le> ?b0" "?b0 \<le> 0xDF"
    | (three) "0xE0 \<le> ?b0" "?b0 \<le> 0xEF" | (four) "0xF0 \<le> ?b0" "?b0 \<le> 0xF4" by linarith
  then show ?thesis
  proof cases
    case one
    with assms show ?thesis by (auto simp: Let_def split: if_splits)
  next
    case two
    with assms show ?thesis
      by (cases s) (auto simp: contByte_high Let_def split: if_splits)
  next
    case three
    show ?thesis
    proof (cases s)
      case s: (Cons c1 t)
      show ?thesis
      proof (cases t)
        case (Cons c2 u)
        show ?thesis
        proof (cases "n = 0")
          case False
          with assms three s Cons
          have "(if ?b0 = 0xE0 then 0xA0 else 0x80) \<le> (of_char c1 :: nat)" "contByte c2" "n = 2"
            by (simp_all add: Let_def split: if_split_asm)
          then have "highByte c1" "highByte c2" "n = Suc (Suc 0)"
            by (simp_all add: highByte_def contByte_def split: if_split_asm)
          with s Cons show ?thesis by simp
        qed simp
      qed (use assms three s in \<open>simp add: Let_def\<close>)
    qed simp
  next
    case four
    show ?thesis
    proof (cases "n = 0")
      case False
      with four assms obtain c1 c2 c3 u where s: "s = c1 # c2 # c3 # u"
        by (cases s; cases "tl s"; cases "tl (tl s)") (auto simp: Let_def)
      with assms four False
      have "(if ?b0 = 0xF0 then 0x90 else 0x80) \<le> (of_char c1 :: nat)" "contByte c2" "contByte c3" "n = 3"
        by (simp_all add: Let_def split: if_split_asm)
      then have "highByte c1" "highByte c2" "highByte c3" "n = Suc (Suc (Suc 0))"
        by (simp_all add: highByte_def contByte_def split: if_split_asm)
      with s show ?thesis by simp
    qed simp
  qed
qed

lemma jsonBody_no_newline [simp]: "newline \<notin> set (jsonBody html s)"
proof (induction html s rule: jsonBody.induct)
  case (1 html s)
  obtain r n where rn: "decodeRune s = (r, n)" by force
  show ?case
  proof (cases "s = []")
    case False
    have IH: "newline \<notin> set (jsonBody html (drop n s))" using 1 False rn by simp
    have "newline \<notin> set (take n s)" if "\<not> (r < 0x80 \<and> n = 1)"
    proof -
      obtain c t where s: "s = c # t" using False by (cases s) auto
      have "c \<noteq> newline" using that rn s decodeRune_ascii by blast
      moreover have "newline \<notin> set (take (n - 1) t)"
        using decodeRune_tail [of c t r "n - 1"] rn s decodeRune_pos [of s]
        by (auto simp: list_all_iff highByte_def)
      ultimately show ?thesis using s by (cases n) auto
    qed
    with IH False rn show ?thesis by (subst jsonBody.simps) auto
  qed (simp add: jsonBody.simps)
qed

lemma natDigits_no_newline [simp]: "newline \<notin> set (natDigits n)"
  by (induction n rule: natDigits.induct) (subst natDigits.simps, simp add: eq_commute [of newline])

lemma Join_set: "set (Join xs sep) \<subseteq> \<Union> (set ` set xs) \<union> set sep"
  by (induction xs sep rule: Join.induct) auto

lemma Join_no_newline: "newline \<notin> set sep \<Longrightarrow> list_all (\<lambda>x. newline \<notin> set x) xs \<Longrightarrow> newline \<notin> set (Join xs sep)"
  using Join_set [of xs sep] by (auto simp: list_all_iff)

lemma json_no_newline [simp]:
  "newline \<notin> set (jsonString s)" "newline \<notin> set (jsonInt i)" "newline \<notin> set (jsonBool b)"
  "newline \<notin> set v \<Longrightarrow> newline \<notin> set (jsonField name v)"
  "list_all (\<lambda>x. newline \<notin> set x) xs \<Longrightarrow> newline \<notin> set (jsonArray xs)"
  "list_all (\<lambda>x. newline \<notin> set x) xs \<Longrightarrow> newline \<notin> set (jsonObject xs)"
  by (simp_all add: jsonString_def jsonInt_def jsonBool_def jsonField_def jsonArray_def jsonObject_def Join_no_newline)

lemma jsonStrings_no_newline [simp]: "newline \<notin> set (jsonStrings xs)"
  by (cases xs) (simp_all add: jsonStrings_def list_all_iff)

lemma Marshal_no_newline [simp]: "newline \<notin> set (MarshalEntry e)"
  unfolding MarshalEntry_def by (rule json_no_newline) (simp add: list_all_iff jsonSecretUse_def)

lemma Marshal_braces: "\<exists>b. MarshalEntry e = CHR ''{'' # b @ ''}''"
  by (simp add: MarshalEntry_def jsonObject_def)

lemma TrimSpace_braces: "TrimSpace (CHR ''{'' # b @ ''}'') = CHR ''{'' # b @ ''}''"
proof -
  have "front spaceEncodings (CHR ''{'' # b @ ''}'') = None"
    by (simp add: front_def spaceEncodings_eq)
  moreover have "front (List.map rev spaceEncodings) (rev (CHR ''{'' # b @ ''}'')) = None"
    by (simp add: front_def spaceEncodings_eq)
  ultimately show ?thesis
    by (simp add: TrimSpace_def TrimLeftSpace_def TrimRightSpace_def strip_id)
qed

lemma TrimSpace_Marshal [simp]: "TrimSpace (MarshalEntry e) = MarshalEntry e"
  using Marshal_braces [of e] TrimSpace_braces by auto

lemma dropCR_Marshal [simp]: "dropCR (MarshalEntry e) = MarshalEntry e"
  using Marshal_braces [of e] by (auto simp: dropCR_def)

lemma Marshal_nonempty [simp]: "MarshalEntry e \<noteq> []"
  using Marshal_braces [of e] by auto

section \<open>The chain of a log\<close>

primrec chainOk :: "(bytes \<Rightarrow> bytes) \<Rightarrow> string \<Rightarrow> auditEntry list \<Rightarrow> bool" where
  "chainOk sha256 prev [] \<longleftrightarrow> True"
| "chainOk sha256 prev (r # rs) \<longleftrightarrow>
     en_PrevHash r = prev \<and> computeHash sha256 r = en_Hash r \<and> chainOk sha256 (en_Hash r) rs"

definition chainEnd :: "string \<Rightarrow> auditEntry list \<Rightarrow> string" where
  "chainEnd prev rs = (if rs = [] then prev else en_Hash (last rs))"

text \<open>The records of a log file that decode.\<close>

definition logRecords :: "(bytes \<Rightarrow> auditEntry option) \<Rightarrow> bytes \<Rightarrow> auditEntry list" where
  "logRecords unmarshal f =
     List.map_filter unmarshal (List.filter (\<lambda>l. l \<noteq> []) (List.map TrimSpace (fst (scanLines f))))"

lemma verifyLines_chain:
  "verifyLines sha256 um prev n ls = None \<Longrightarrow>
     chainOk sha256 prev (List.map_filter um (List.filter (\<lambda>l. l \<noteq> []) (List.map TrimSpace ls)))"
  by (induction sha256 um prev n ls rule: verifyLines.induct)
    (auto simp: Let_def map_filter_simps split: if_splits option.splits)

lemma Verify_chain: "Verify sha256 um f = Inr (-1) \<Longrightarrow> chainOk sha256 genesisHash (logRecords um f)"
  using verifyLines_chain [of sha256 um genesisHash 0 "fst (scanLines f)"]
  by (auto simp: Verify_def logRecords_def split_def Let_def split: option.splits if_splits)

section \<open>An intact chain determines its records\<close>

definition hexString :: "bytes \<Rightarrow> bool" where
  "hexString s \<longleftrightarrow> set s \<subseteq> set hexChars"

lemma hexString_hexEncode [simp]: "hexString (hexEncode s)"
  by (auto simp: hexString_def hexEncode_def hexByte_def)

lemma hexString_genesis [simp]: "hexString genesisHash"
  by (simp add: hexString_def genesisHash_def hexChars_def)

lemma jsonBody_hex: "hexString s \<Longrightarrow> jsonBody True s = s"
proof (induction s)
  case (Cons c s)
  then have "c \<in> set ''0123456789abcdef''" by (simp add: hexString_def hexChars_def)
  then have "decodeRune (c # s) = (of_char c, 1)" "(of_char c :: nat) < 128" "jsonByte True c = [c]"
    by (auto simp: jsonByte_def)
  with Cons show ?case by (subst jsonBody.simps) (simp add: hexString_def)
qed (simp add: jsonBody.simps)

lemma hexDigit_inj: "m < 16 \<Longrightarrow> n < 16 \<Longrightarrow> hexDigit m = hexDigit n \<Longrightarrow> m = n"
  unfolding hexDigit_def by (subst (asm) nth_eq_iff_index_eq) auto

lemma hexByte_inj: "hexByte c = hexByte d \<Longrightarrow> c = d"
proof -
  assume "hexByte c = hexByte d"
  then have "of_char c div 16 = (of_char d div 16 :: nat)" "of_char c mod 16 = (of_char d mod 16 :: nat)"
    by (auto simp: hexByte_def intro!: hexDigit_inj)
  then have "of_char c = (of_char d :: nat)" by (metis div_mult_mod_eq)
  then show "c = d" by simp
qed

lemma hexEncode_inj: "hexEncode s = hexEncode t \<Longrightarrow> s = t"
proof (induction s arbitrary: t)
  case Nil
  then show ?case by (cases t) (simp_all add: hexEncode_def hexByte_def)
next
  case (Cons c s)
  then obtain d t' where t: "t = d # t'" by (cases t) (simp_all add: hexEncode_def hexByte_def)
  with Cons.prems have "hexByte c @ hexEncode s = hexByte d @ hexEncode t'"
    by (simp add: hexEncode_def)
  then have "hexByte c = hexByte d" "hexEncode s = hexEncode t'" by (simp_all add: hexByte_def)
  with t Cons.IH hexByte_inj show ?case by blast
qed

lemma last_quoted:
  assumes "x @ q # p @ s = x' @ q # p' @ s" "q \<notin> set p" "q \<notin> set p'"
  shows "p = p'"
proof -
  from assms(1) have "(x @ q # p) @ s = (x' @ q # p') @ s" by simp
  then have "x @ q # p = x' @ q # p'" by (simp only: append_same_eq)
  then have "rev (x @ q # p) = rev (x' @ q # p')" by (rule arg_cong)
  then have "takeWhile (\<lambda>c. c \<noteq> q) (rev p @ q # rev x) = takeWhile (\<lambda>c. c \<noteq> q) (rev p' @ q # rev x')"
    by simp
  moreover have "takeWhile (\<lambda>c. c \<noteq> q) (rev p @ q # rev x) = rev p"
    "takeWhile (\<lambda>c. c \<noteq> q) (rev p' @ q # rev x') = rev p'"
    using assms(2,3) by (auto simp: takeWhile_append)
  ultimately show ?thesis by simp
qed

lemma Join_snoc: "xs \<noteq> [] \<Longrightarrow> Join (xs @ [x]) sep = Join xs sep @ sep @ x"
  by (induction xs sep rule: Join.induct) auto

lemma ends_append: "\<exists>x xs. b = x # xs @ e \<Longrightarrow> \<exists>x xs. a @ b = x # xs @ e"
  by (cases a) auto

lemma object_ends: "\<exists>a b. fs = a # b @ e \<Longrightarrow> \<exists>a b. jsonObject fs = jsonObject (a # b @ e)"
  by blast

lemma recordText_tail:
  "\<exists>x. recordText r = x @ CHR 0x22 # jsonBody True (en_PrevHash r) @
     CHR 0x22 # '','' @ jsonField ''hash'' (jsonString []) @ ''}''"
proof -
  let ?p = "jsonField ''prev_hash'' (jsonString (en_PrevHash r))"
  let ?h = "jsonField ''hash'' (jsonString [])"
  have "\<exists>a b. recordText r = jsonObject (a # b @ [?p, ?h])"
    unfolding recordText_def MarshalEntry_def
    by (rule object_ends, (rule ends_append)+, simp)
  then obtain a b where "recordText r = jsonObject (a # b @ [?p, ?h])" by blast
  then show ?thesis
    using Join_snoc [of "(a # b) @ [?p]" ?h "'',''"] Join_snoc [of "a # b" ?p "'',''"]
    by (simp add: jsonObject_def jsonField_def [of "''prev_hash''"] jsonString_def [of "en_PrevHash r"])
qed

lemma recordText_prev:
  assumes "recordText r = recordText r'" "hexString (en_PrevHash r)" "hexString (en_PrevHash r')"
  shows "en_PrevHash r = en_PrevHash r'"
proof -
  let ?s = "CHR 0x22 # '','' @ jsonField ''hash'' (jsonString []) @ ''}''"
  obtain x where x: "recordText r = x @ CHR 0x22 # en_PrevHash r @ ?s"
    using recordText_tail [of r] by (auto simp: jsonBody_hex [OF assms(2)])
  obtain x' where x': "recordText r' = x' @ CHR 0x22 # en_PrevHash r' @ ?s"
    using recordText_tail [of r'] by (auto simp: jsonBody_hex [OF assms(3)])
  have "CHR 0x22 \<notin> set hexChars" by (simp add: hexChars_def)
  then have "CHR 0x22 \<notin> set (en_PrevHash r)" "CHR 0x22 \<notin> set (en_PrevHash r')"
    using assms(2,3) by (auto simp: hexString_def)
  moreover have "x @ CHR 0x22 # en_PrevHash r @ ?s = x' @ CHR 0x22 # en_PrevHash r' @ ?s"
    using x x' assms(1) by (simp only:)
  ultimately show ?thesis by (rule last_quoted [rotated 1])
qed

text \<open>Two records that hash alike and two chains that end alike.\<close>

definition collision :: "(bytes \<Rightarrow> bytes) \<Rightarrow> bytes list \<Rightarrow> bytes list \<Rightarrow> bool" where
  "collision sha256 xs ys \<longleftrightarrow> (\<exists>x \<in> set xs. \<exists>y \<in> set ys. x \<noteq> y \<and> sha256 x = sha256 y)"

definition genesisPreimage :: "(bytes \<Rightarrow> bytes) \<Rightarrow> bytes list \<Rightarrow> bool" where
  "genesisPreimage sha256 xs \<longleftrightarrow> (\<exists>x \<in> set xs. hexEncode (sha256 x) = genesisHash)"

lemma chainOk_snoc:
  "chainOk sha256 prev (rs @ [r]) \<longleftrightarrow>
     chainOk sha256 prev rs \<and> en_PrevHash r = chainEnd prev rs \<and> computeHash sha256 r = en_Hash r"
  by (induction rs arbitrary: prev) (auto simp: chainEnd_def)

lemma chainEnd_hex: "chainOk sha256 prev rs \<Longrightarrow> hexString prev \<Longrightarrow> hexString (chainEnd prev rs)"
  by (cases rs rule: rev_cases) (auto simp: chainEnd_def chainOk_snoc computeHash_def, metis hexString_hexEncode)

lemma chain_unique:
  assumes "chainOk sha256 genesisHash rs" "chainOk sha256 genesisHash rs'"
    and "chainEnd genesisHash rs = chainEnd genesisHash rs'"
  shows "List.map recordText rs = List.map recordText rs' \<or>
    collision sha256 (List.map recordText rs) (List.map recordText rs') \<or>
    genesisPreimage sha256 (List.map recordText rs @ List.map recordText rs')"
  using assms
proof (induction rs arbitrary: rs' rule: rev_induct)
  case Nil
  then show ?case
    by (cases rs' rule: rev_cases)
      (auto simp: chainEnd_def chainOk_snoc computeHash_def genesisPreimage_def)
next
  case (snoc r rs)
  show ?case
  proof (cases rs' rule: rev_cases)
    case Nil
    with snoc.prems show ?thesis
      by (auto simp: chainEnd_def chainOk_snoc computeHash_def genesisPreimage_def)
  next
    case rs': (snoc ts t)
    from snoc.prems have "computeHash sha256 r = computeHash sha256 t"
      by (simp add: rs' chainEnd_def chainOk_snoc)
    then have hash: "sha256 (recordText r) = sha256 (recordText t)"
      unfolding computeHash_def by (rule hexEncode_inj)
    show ?thesis
    proof (cases "recordText r = recordText t")
      case False
      with hash show ?thesis by (auto simp: rs' collision_def)
    next
      case True
      have hex: "hexString (en_PrevHash r)" "hexString (en_PrevHash t)"
        using snoc.prems chainEnd_hex [of sha256 genesisHash] by (auto simp: rs' chainOk_snoc)
      have "chainEnd genesisHash rs = chainEnd genesisHash ts"
        using recordText_prev [OF True hex] snoc.prems by (simp add: rs' chainOk_snoc)
      with snoc.prems snoc.IH [of ts] True show ?thesis
        by (auto simp: rs' chainOk_snoc collision_def genesisPreimage_def)
    qed
  qed
qed

section \<open>Appending\<close>

primrec chainOf :: "(bytes \<Rightarrow> bytes) \<Rightarrow> string \<Rightarrow> auditEntry list \<Rightarrow> auditEntry list" where
  "chainOf sha256 prev [] = []"
| "chainOf sha256 prev (e # es) =
     storedEntry sha256 prev e # chainOf sha256 (en_Hash (storedEntry sha256 prev e)) es"

definition logText :: "auditEntry list \<Rightarrow> bytes" where
  "logText rs = concat (List.map (\<lambda>r. MarshalEntry r @ [newline]) rs)"

text \<open>A record that fits the window of \<open>lastHash\<close> and that decodes to itself.\<close>

definition storable :: "(bytes \<Rightarrow> auditEntry option) \<Rightarrow> auditEntry \<Rightarrow> bool" where
  "storable unmarshal r \<longleftrightarrow> unmarshal (MarshalEntry r) = Some r \<and> length (MarshalEntry r) < tailWindow"

primrec appendAll :: "(bytes \<Rightarrow> bytes) \<Rightarrow> (bytes \<Rightarrow> auditEntry option) \<Rightarrow> auditEntry list \<Rightarrow> bytes \<Rightarrow> auditError + bytes" where
  "appendAll sha256 unmarshal [] f = Inr f"
| "appendAll sha256 unmarshal (e # es) f =
     (case Append sha256 unmarshal auditOk e (Some f) of
        (Some f', None) \<Rightarrow> appendAll sha256 unmarshal es f'
      | (_, Some err) \<Rightarrow> Inl err
      | (None, None) \<Rightarrow> Inr f)"

lemma logText_simps [simp]:
  "logText [] = []"
  "logText (r # rs) = MarshalEntry r @ newline # logText rs"
  "logText (rs @ rs') = logText rs @ logText rs'"
  by (simp_all add: logText_def)

lemma splitByte_logText: "splitByte newline (logText rs) = List.map MarshalEntry rs @ [[]]"
  by (induction rs) (simp_all add: splitByte_append_sep splitByte_free)

lemma rawLines_logText: "rawLines (logText rs) = List.map MarshalEntry rs"
  by (simp add: rawLines_def splitByte_logText)

lemma scanLines_logText:
  "list_all (storable um) rs \<Longrightarrow> scanLines (logText rs) = (List.map MarshalEntry rs, False)"
  unfolding scanLines_def Scanner_def rawLines_logText
  by (induction rs) (auto simp: storable_def tailWindow_def maxTokenSize_def Let_def)

lemma verifyLines_logText:
  "list_all (storable um) rs \<Longrightarrow> chainOk sha256 prev rs \<Longrightarrow>
     verifyLines sha256 um prev n (List.map MarshalEntry rs) = None"
  by (induction rs arbitrary: prev n) (auto simp: storable_def Let_def)

lemma Verify_logText:
  "list_all (storable um) rs \<Longrightarrow> chainOk sha256 genesisHash rs \<Longrightarrow> Verify sha256 um (logText rs) = Inr (-1)"
  by (simp add: Verify_def scanLines_logText verifyLines_logText)

lemma chainOk_chainOf: "chainOk sha256 prev (chainOf sha256 prev es)"
proof (induction es arbitrary: prev)
  case (Cons e es)
  have "en_PrevHash (storedEntry sha256 prev e) = prev"
    "computeHash sha256 (storedEntry sha256 prev e) = en_Hash (storedEntry sha256 prev e)"
    by (simp_all add: storedEntry_def Let_def computeHash_def recordText_def)
  with Cons show ?case by simp
qed simp

lemma lastHash_logText:
  assumes "storable um r"
  shows "lastHash um (logText (rs @ [r])) = Inr (en_Hash r)"
proof -
  let ?M = "MarshalEntry r"
  let ?f = "logText rs @ ?M @ [newline]"
  obtain p where p: "drop (length ?f - tailWindow) ?f = p @ ?M @ [newline]" "p = [] \<or> last p = newline"
  proof -
    have "length ?f - tailWindow \<le> length (logText rs)" using assms by (auto simp: storable_def)
    then have "drop (length ?f - tailWindow) ?f = drop (length ?f - tailWindow) (logText rs) @ ?M @ [newline]"
      by simp
    moreover have "drop k (logText rs) = [] \<or> last (drop k (logText rs)) = newline" for k
    proof (cases "k < length (logText rs)")
      case True
      then have "last (drop k (logText rs)) = last (logText rs)" by (rule last_drop)
      with True show ?thesis by (cases rs rule: rev_cases) auto
    qed simp
    ultimately show thesis using that by blast
  qed
  have "last ?M \<noteq> newline" using Marshal_braces [of r] by auto
  then have A: "rev (dropWhile (\<lambda>c. c = newline) (rev (p @ ?M @ [newline]))) = p @ ?M"
    by (cases ?M rule: rev_cases) auto
  have B: "rev (takeWhile (\<lambda>c. c \<noteq> newline) (rev (p @ ?M))) = ?M"
  proof -
    have all: "c \<in> set (rev ?M) \<Longrightarrow> c \<noteq> newline" for c using Marshal_no_newline [of r] by auto
    have "takeWhile (\<lambda>c. c \<noteq> newline) (rev ?M @ rev p) = rev ?M @ takeWhile (\<lambda>c. c \<noteq> newline) (rev p)"
      by (rule takeWhile_append2) (rule all)
    moreover have "takeWhile (\<lambda>c. c \<noteq> newline) (rev p) = []"
      using p(2) by (cases p rule: rev_cases) simp_all
    ultimately show ?thesis by simp
  qed
  have f: "logText (rs @ [r]) = ?f" by simp
  have ne: "length ?f \<noteq> 0" by simp
  have um: "um ?M = Some r" using assms by (simp add: storable_def)
  show ?thesis
    unfolding f lastHash_def Let_def p(1) A B by (simp only: ne um if_False option.case)
qed

lemma appendAll_logText:
  "list_all (storable um) (rs @ chainOf sha256 (chainEnd genesisHash rs) es) \<Longrightarrow>
     appendAll sha256 um es (logText rs) = Inr (logText (rs @ chainOf sha256 (chainEnd genesisHash rs) es))"
proof (induction es arbitrary: rs)
  case (Cons e es)
  have last: "lastHash um (logText rs) = Inr (chainEnd genesisHash rs)"
  proof (cases rs rule: rev_cases)
    case Nil
    then show ?thesis by (simp add: lastHash_def chainEnd_def)
  next
    case (snoc ts t)
    with Cons.prems lastHash_logText [of um t ts] show ?thesis by (simp add: chainEnd_def)
  qed
  let ?r = "storedEntry sha256 (chainEnd genesisHash rs) e"
  have "chainEnd genesisHash (rs @ [?r]) = en_Hash ?r" by (simp add: chainEnd_def)
  with Cons.IH [of "rs @ [?r]"] Cons.prems show ?case
    by (simp add: Append_def auditOk_def last Let_def)
qed simp

section \<open>Scrubbing\<close>

text \<open>A word that can neither overlap a placeholder nor lie inside one.\<close>

definition plainWord :: "bytes \<Rightarrow> bool" where
  "plainWord w \<longleftrightarrow> CHR ''['' \<notin> set w \<and> CHR '']'' \<notin> set w \<and> \<not> sublist w ''REDACTED''"

lemma plainWord_nonempty: "plainWord w \<Longrightarrow> w \<noteq> []"
  by (auto simp: plainWord_def)

lemma scrubPlaceholder_eq: "scrubPlaceholder @ s = CHR ''['' # ''REDACTED'' @ CHR '']'' # s"
  by (simp add: scrubPlaceholder_def)

lemma ReplaceAll_trivial [simp]: "s = [] \<or> old = [] \<Longrightarrow> ReplaceAll s old new = s"
  by (subst ReplaceAll.simps) simp

lemma ReplaceAll_prefix:
  "prefix w (ReplaceAll s old scrubPlaceholder) \<Longrightarrow> CHR ''['' \<notin> set w \<Longrightarrow> prefix w s"
proof (induction s old "scrubPlaceholder" arbitrary: w rule: ReplaceAll.induct)
  case (1 s old)
  show ?case
  proof (cases "s = [] \<or> old = []")
    case True
    with 1 show ?thesis by simp
  next
    case False
    show ?thesis
    proof (cases "prefix old s")
      case True
      with False 1 have "prefix w (scrubPlaceholder @ ReplaceAll (drop (length old) s) old scrubPlaceholder)"
        by (subst (asm) ReplaceAll.simps) simp
      with 1(4) show ?thesis by (cases w) (auto simp: scrubPlaceholder_eq)
    next
      case nopre: False
      with False 1 have "prefix w (hd s # ReplaceAll (tl s) old scrubPlaceholder)"
        by (subst (asm) ReplaceAll.simps) simp
      with 1(2) [OF False nopre, of "tl w"] 1(4) False show ?thesis
        by (cases w; cases s) auto
    qed
  qed
qed

lemma ReplaceAll_avoids:
  assumes "plainWord w"
  shows "w = old \<or> \<not> sublist w s \<Longrightarrow> \<not> sublist w (ReplaceAll s old scrubPlaceholder)"
proof (induction s old "scrubPlaceholder" rule: ReplaceAll.induct)
  case (1 s old)
  have w: "w \<noteq> []" using assms by (rule plainWord_nonempty)
  show ?case
  proof (cases "s = [] \<or> old = []")
    case True
    with 1 w show ?thesis by auto
  next
    case False
    show ?thesis
    proof (cases "prefix old s")
      case True
      let ?r = "ReplaceAll (drop (length old) s) old scrubPlaceholder"
      have IH: "\<not> sublist w ?r" using 1(1) [OF False True] 1(3) sublist_drop by blast
      have "\<not> sublist w (scrubPlaceholder @ ?r)"
      proof
        assume "sublist w (scrubPlaceholder @ ?r)"
        then have "sublist w ([] @ CHR ''['' # ''REDACTED'' @ CHR '']'' # ?r)"
          unfolding scrubPlaceholder_eq by simp
        then have "sublist w (''REDACTED'' @ CHR '']'' # ?r)"
          using sublist_avoids_sep [of w "[]" "CHR ''[''"] assms w by (auto simp: plainWord_def)
        then show False
          using sublist_avoids_sep [of w "''REDACTED''" "CHR '']''" ?r] assms IH by (auto simp: plainWord_def)
      qed
      with False True show ?thesis by (subst ReplaceAll.simps) simp
    next
      case nopre: False
      obtain c t where s: "s = c # t" using False by (cases s) auto
      let ?r = "ReplaceAll t old scrubPlaceholder"
      have eq: "ReplaceAll s old scrubPlaceholder = c # ?r"
        using False nopre s by (subst ReplaceAll.simps) simp
      have "\<not> sublist w ?r" using 1(2) [OF False nopre] 1(3) s by (auto simp: sublist_Cons_right)
      moreover have "\<not> prefix w (c # ?r)"
      proof
        assume "prefix w (c # ?r)"
        then have "prefix w s" using ReplaceAll_prefix [of w s old] assms eq by (simp add: plainWord_def)
        with 1(3) nopre show False by (auto dest: prefix_imp_sublist)
      qed
      ultimately show ?thesis by (simp add: eq sublist_Cons_right)
    qed
  qed
qed

lemma scrubArg_avoids:
  "plainWord w \<Longrightarrow> w \<in> set ns \<or> \<not> sublist w arg \<Longrightarrow> \<not> sublist w (scrubArg ns arg)"
proof (induction ns arbitrary: arg)
  case Nil
  then show ?case by (simp add: scrubArg_def)
next
  case (Cons n ns)
  let ?a = "if sublist n arg then ReplaceAll arg n scrubPlaceholder else arg"
  have "w \<in> set ns \<or> \<not> sublist w ?a"
    using Cons.prems ReplaceAll_avoids [of w n arg] by auto
  with Cons.IH [OF Cons.prems(1), of ?a] show ?case by (simp add: scrubArg_def)
qed

lemma set_dedupe: "set (dedupe ns) = set ns"
proof -
  have "set (fold (\<lambda>n uniq. if n \<in> set uniq then uniq else uniq @ [n]) ns acc) = set acc \<union> set ns" for acc
    by (induction ns arbitrary: acc) auto
  then show ?thesis by (simp add: dedupe_def)
qed

lemma scrubSecrets_avoids:
  "plainWord w \<Longrightarrow> w \<in> set (scrubNeedles values) \<Longrightarrow>
     list_all (\<lambda>arg. \<not> sublist w arg) (sliceElems (scrubSecrets argv values))"
  using scrubArg_avoids [of w "sort_key (\<lambda>n. - int (length n)) (dedupe (scrubNeedles values))"]
  by (auto simp: scrubSecrets_def sliceElems_def Let_def list_all_iff set_dedupe)

lemma scrubNeedles_empty [simp]: "scrubNeedles [] = []"
  by (simp add: scrubNeedles_def)

lemma storedEntry_argv:
  "en_Argv (storedEntry sha256 prev e) =
     (if en_ScrubValues e = [] then en_Argv e else scrubSecrets (en_Argv e) (en_ScrubValues e))"
  by (simp add: storedEntry_def Let_def)

section \<open>An example log\<close>

definition exampleEntry :: auditEntry where
  "exampleEntry = \<lparr>en_Timestamp = ''2025-01-02T03:04:05Z'', en_Schema = 0, en_SessionID = ''s1'',
     en_Cwd = ''/w'', en_CommandID = ''deploy'', en_Argv = Some [''curl'', ''--token=hunter2-password''],
     en_SecretNames = Some [''TOKEN''], en_SecretUses = [], en_CleanupResult = [], en_RedactionCount = 2,
     en_EntropyWarnings = 0, en_ExitCode = 0, en_DurationMs = 120, en_Truncated = False, en_KillReason = [],
     en_SeccompRequested = True, en_SeccompInstalled = True, en_SeccompDetail = [], en_NoNetwork = True,
     en_PrevHash = [], en_Hash = [], en_ScrubValues = [''hunter2-password'']\<rparr>"

definition exampleRecord :: auditEntry where
  "exampleRecord = storedEntry (\<lambda>_. []) genesisHash (exampleEntry\<lparr>en_ScrubValues := []\<rparr>)"

definition exampleDecoder :: "bytes \<Rightarrow> auditEntry option" where
  "exampleDecoder b = (if b = MarshalEntry exampleRecord then Some exampleRecord else None)"

lemma exampleRecord_storable: "storable exampleDecoder exampleRecord"
proof -
  have "length (MarshalEntry exampleRecord) < 700" by code_simp
  then show ?thesis by (simp add: storable_def exampleDecoder_def tailWindow_def)
qed

lemma exampleRecord_chain: "chainOk (\<lambda>_. []) genesisHash [exampleRecord]"
  using chainOk_chainOf [of "\<lambda>_. []" genesisHash "[exampleEntry\<lparr>en_ScrubValues := []\<rparr>]"]
  by (simp add: exampleRecord_def)

lemma TrimSpace_Nil [simp]: "TrimSpace [] = []"
  using TrimSpace_sublist [of "[]"] by simp

lemma dropCR_Nil: "dropCR [] = []"
  by (simp add: dropCR_def)

lemma exampleRecord_scan:
  "scanLines (newline # logText [exampleRecord]) = ([[], MarshalEntry exampleRecord], False)"
proof -
  have "splitByte newline (newline # logText [exampleRecord]) = [[], MarshalEntry exampleRecord, []]"
    using splitByte_logText [of "[exampleRecord]"] by (simp del: logText_simps)
  then show ?thesis
    using exampleRecord_storable
    by (simp add: scanLines_def Scanner_def rawLines_def Let_def storable_def tailWindow_def maxTokenSize_def dropCR_Nil
        del: logText_simps)
qed

section \<open>Properties\<close>

text \<open>C8: Appending keeps the log intact. Whatever entries are appended to a new log, as long
  as each stored record decodes to itself and fits the 64 KiB that \<open>lastHash\<close> looks at,
  every \<open>Append\<close> succeeds, the file holds one line for each record in order, \<open>Verify\<close> finds the
  chain unbroken and \<open>Open\<close> accepts the file.\<close>

theorem audit_append_intact:
  assumes "list_all (storable unmarshal) (chainOf sha256 genesisHash es)" "path \<noteq> ''''"
  shows "appendAll sha256 unmarshal es [] = Inr (logText (chainOf sha256 genesisHash es)) \<and>
    Verify sha256 unmarshal (logText (chainOf sha256 genesisHash es)) = Inr (-1) \<and>
    Open sha256 unmarshal path None (Inr (logText (chainOf sha256 genesisHash es))) =
      Inr (Some (logText (chainOf sha256 genesisHash es)))"
  using assms appendAll_logText [of unmarshal "[]" sha256 es] Verify_logText [OF assms(1) chainOk_chainOf]
  by (simp add: chainEnd_def Open_def)

lemma audit_append_intact_witness:
  "appendAll (\<lambda>_. []) exampleDecoder [exampleEntry\<lparr>en_ScrubValues := []\<rparr>] [] = Inr (logText [exampleRecord]) \<and>
   Verify (\<lambda>_. []) exampleDecoder (logText [exampleRecord]) = Inr (-1)"
  using audit_append_intact [of exampleDecoder "\<lambda>_. []" "[exampleEntry\<lparr>en_ScrubValues := []\<rparr>]" "''audit.log''"]
    exampleRecord_storable by (simp add: exampleRecord_def)

text \<open>C9: The log is tamper-evident. Two log files that both verify and end in the same
  hash hold the same records, field by field as they are hashed, unless two of their
  records are a collision of SHA-256 or one of them hashes to the genesis hash. Nothing
  is assumed of the decoder.\<close>

theorem audit_tamper_evident:
  assumes "Verify sha256 unmarshal f = Inr (-1)" "Verify sha256 unmarshal f' = Inr (-1)"
    and "chainEnd genesisHash (logRecords unmarshal f) = chainEnd genesisHash (logRecords unmarshal f')"
  shows "List.map recordText (logRecords unmarshal f) = List.map recordText (logRecords unmarshal f') \<or>
    collision sha256 (List.map recordText (logRecords unmarshal f)) (List.map recordText (logRecords unmarshal f')) \<or>
    genesisPreimage sha256 (List.map recordText (logRecords unmarshal f) @
      List.map recordText (logRecords unmarshal f'))"
  using chain_unique [OF Verify_chain [OF assms(1)] Verify_chain [OF assms(2)] assms(3)] .

lemma audit_tamper_evident_witness:
  "List.map recordText (logRecords exampleDecoder (logText [exampleRecord])) =
     List.map recordText (logRecords exampleDecoder (newline # logText [exampleRecord])) \<or>
   collision (\<lambda>_. []) (List.map recordText (logRecords exampleDecoder (logText [exampleRecord])))
     (List.map recordText (logRecords exampleDecoder (newline # logText [exampleRecord]))) \<or>
   genesisPreimage (\<lambda>_. []) (List.map recordText (logRecords exampleDecoder (logText [exampleRecord])) @
     List.map recordText (logRecords exampleDecoder (newline # logText [exampleRecord])))"
proof (rule audit_tamper_evident)
  show "Verify (\<lambda>_. []) exampleDecoder (logText [exampleRecord]) = Inr (-1)"
    using exampleRecord_storable exampleRecord_chain by (intro Verify_logText) simp_all
  show "Verify (\<lambda>_. []) exampleDecoder (newline # logText [exampleRecord]) = Inr (-1)"
    using exampleRecord_storable exampleRecord_chain
    by (simp add: Verify_def exampleRecord_scan storable_def Let_def del: logText_simps)
  show "chainEnd genesisHash (logRecords exampleDecoder (logText [exampleRecord])) =
      chainEnd genesisHash (logRecords exampleDecoder (newline # logText [exampleRecord]))"
    using exampleRecord_storable scanLines_logText [of exampleDecoder "[exampleRecord]"]
    by (simp add: logRecords_def exampleRecord_scan del: logText_simps)
qed

text \<open>No needle of the secrets given to \<open>Append\<close> (a value of at least four bytes, or an
  encoding of one of at least eight) occurs in the arguments it stores, unless it has a
  bracket or is part of the word of the placeholder.\<close>

lemma audit_argv_scrubbed:
  assumes "plainWord w" "w \<in> set (scrubNeedles (en_ScrubValues e))"
  shows "list_all (\<lambda>arg. \<not> sublist w arg) (sliceElems (en_Argv (storedEntry sha256 prev e)))"
  using scrubSecrets_avoids [OF assms, of "en_Argv e"] assms(2) by (auto simp: storedEntry_argv)

lemma audit_argv_scrubbed_witness:
  "list_all (\<lambda>arg. \<not> sublist ''hunter2-password'' arg)
     (sliceElems (en_Argv (storedEntry (\<lambda>_. []) genesisHash exampleEntry)))"
proof (rule audit_argv_scrubbed)
  show "plainWord ''hunter2-password''" by code_simp
  show "''hunter2-password'' \<in> set (scrubNeedles (en_ScrubValues exampleEntry))"
    by (simp add: exampleEntry_def scrubNeedles_def minScrubSecretLen_def)
qed

text \<open>
  A record whose working directory is not valid UTF-8 breaks the chain of its own log:
  \<open>json.Marshal\<close> writes the escape of U+FFFD, the decoder reads that as the character, and
  marshalling it again writes the character's own bytes, so the hash differs.
\<close>

lemma jsonBody_ascii: "(of_char c :: nat) < 128 \<Longrightarrow> jsonBody html (c # s) = jsonByte html c @ jsonBody html s"
  by (subst jsonBody.simps) simp

lemma runeErrorBytes_eq: "runeErrorBytes = [CHR 0xEF, CHR 0xBF, CHR 0xBD]"
  by code_simp

lemma jsonBody_Nil [simp]: "jsonBody html [] = []"
  by (simp add: jsonBody.simps)

lemma jsonBody_invalid: "jsonBody True [byteChar 0xFF] = CHR 0x5C # ''ufffd''"
proof -
  have "byteChar 0xFF = CHR 0xFF" by code_simp
  then show ?thesis by (subst jsonBody.simps) (simp add: runeError_def)
qed

lemma jsonBody_runeError: "jsonBody True runeErrorBytes = runeErrorBytes"
  unfolding runeErrorBytes_eq by (subst jsonBody.simps) (simp add: contByte_def)

lemma audit_invalid_utf8_text:
  assumes "en_Cwd r = ''/w'' @ [byteChar 0xFF]"
  shows "recordText (r\<lparr>en_Cwd := ''/w'' @ runeErrorBytes\<rparr>) \<noteq> recordText r"
proof -
  have "jsonByte True CHR ''/'' = ''/''" "jsonByte True CHR ''w'' = ''w''" by code_simp+
  then have 1: "jsonString (''/w'' @ [byteChar 0xFF]) = CHR 0x22 # ''/w'' @ (CHR 0x5C # ''ufffd'') @ [CHR 0x22]"
    and 2: "jsonString (''/w'' @ runeErrorBytes) = CHR 0x22 # ''/w'' @ runeErrorBytes @ [CHR 0x22]"
    by (simp_all add: jsonString_def jsonBody_ascii jsonBody_invalid jsonBody_runeError)
  have "jsonString (''/w'' @ runeErrorBytes) @ s \<noteq> jsonString (''/w'' @ [byteChar 0xFF]) @ s'" for s s'
    unfolding 1 2 by (simp add: runeErrorBytes_eq)
  then show ?thesis
    using assms by (simp add: recordText_def MarshalEntry_def jsonObject_def jsonField_def)
qed

lemma audit_invalid_utf8_breaks:
  assumes "r = storedEntry sha256 genesisHash e" "en_Cwd e = ''/w'' @ [byteChar 0xFF]"
    and "length (MarshalEntry r) < maxTokenSize"
    and "unmarshal (MarshalEntry r) = Some (r\<lparr>en_Cwd := ''/w'' @ runeErrorBytes\<rparr>)"
    and "sha256 (recordText (r\<lparr>en_Cwd := ''/w'' @ runeErrorBytes\<rparr>)) \<noteq> sha256 (recordText r)"
  shows "Verify sha256 unmarshal (logText [r]) = Inr 1"
proof -
  have "scanLines (logText [r]) = ([MarshalEntry r], False)"
    using assms(3) rawLines_logText [of "[r]"] by (simp add: scanLines_def Scanner_def Let_def)
  moreover have "computeHash sha256 (r\<lparr>en_Cwd := ''/w'' @ runeErrorBytes\<rparr>) \<noteq> en_Hash r"
  proof -
    have "en_Hash r = computeHash sha256 r"
      by (simp add: assms(1) storedEntry_def Let_def computeHash_def recordText_def)
    then show ?thesis using assms(5) hexEncode_inj by (auto simp: computeHash_def)
  qed
  ultimately show ?thesis using assms(4) by (simp add: Verify_def Let_def)
qed

end
