(* ===== verification/GoMaps.thy ===== *)
theory GoMaps
  imports Prelude
begin

text \<open>
  A Go map with string keys as the list of its entries in the order of the keys, the order in
  which \<open>encoding/json\<close> writes it and in which the code visits it where the order matters.
  The contract of a map is a locale; the operations on sorted lists provide it.
\<close>

section \<open>The contract of a map\<close>

locale go_map =
  fixes empty' :: "'m" and get :: "'m \<Rightarrow> 'k \<Rightarrow> 'v option" and put :: "'k \<Rightarrow> 'v \<Rightarrow> 'm \<Rightarrow> 'm"
    and del :: "'k \<Rightarrow> 'm \<Rightarrow> 'm" and inv :: "'m \<Rightarrow> bool"
  assumes get_empty: "get empty' k = None"
    and get_put: "inv m \<Longrightarrow> get (put k v m) k' = (if k' = k then Some v else get m k')"
    and get_del: "inv m \<Longrightarrow> get (del k m) k' = (if k' = k then None else get m k')"
    and inv_empty: "inv empty'"
    and inv_put: "inv m \<Longrightarrow> inv (put k v m)"
    and inv_del: "inv m \<Longrightarrow> inv (del k m)"
    and ext: "inv m \<Longrightarrow> inv m' \<Longrightarrow> (\<And>k. get m k = get m' k) \<Longrightarrow> m = m'"
begin

lemma put_same: "inv m \<Longrightarrow> get m k = Some v \<Longrightarrow> put k v m = m"
  by (rule ext) (auto simp: get_put inv_put)

lemma del_absent: "inv m \<Longrightarrow> get m k = None \<Longrightarrow> del k m = m"
  by (rule ext) (auto simp: get_del inv_del)

lemma put_put: "inv m \<Longrightarrow> put k v (put k w m) = put k v m"
  by (rule ext) (auto simp: get_put inv_put)

lemma put_commute: "inv m \<Longrightarrow> k \<noteq> k' \<Longrightarrow> put k v (put k' w m) = put k' w (put k v m)"
  by (rule ext) (auto simp: get_put inv_put)

lemma del_put: "inv m \<Longrightarrow> del k (put k v m) = del k m"
  by (rule ext) (auto simp: get_put get_del inv_put inv_del)

end

section \<open>Sorted entries\<close>

type_synonym 'v gomap = "(string \<times> 'v) list"

fun mapPut :: "string \<Rightarrow> 'v \<Rightarrow> 'v gomap \<Rightarrow> 'v gomap" where
  "mapPut k v [] = [(k, v)]"
| "mapPut k v ((a, b) # m) =
     (if k < a then (k, v) # (a, b) # m else if k = a then (k, v) # m else (a, b) # mapPut k v m)"

definition mapGet :: "'v gomap \<Rightarrow> string \<Rightarrow> 'v option" where
  "mapGet m k = map_of m k"

definition mapDel :: "string \<Rightarrow> 'v gomap \<Rightarrow> 'v gomap" where
  "mapDel k m = List.filter (\<lambda>(a, _). a \<noteq> k) m"

definition mapKeys :: "'v gomap \<Rightarrow> string list" where
  "mapKeys m = List.map fst m"

definition mapInv :: "'v gomap \<Rightarrow> bool" where
  "mapInv m \<longleftrightarrow> sorted_wrt (<) (mapKeys m)"

lemma mapInv_simps [simp]:
  "mapInv []"
  "mapInv ((a, b) # m) \<longleftrightarrow> (\<forall>k \<in> fst ` set m. a < k) \<and> mapInv m"
  by (auto simp: mapInv_def mapKeys_def)

lemma mapPut_keys: "fst ` set (mapPut k v m) = insert k (fst ` set m)"
  by (induction k v m rule: mapPut.induct) auto

lemma mapPut_set: "set (mapPut k v m) \<subseteq> insert (k, v) (set m)"
  by (induction k v m rule: mapPut.induct) auto

lemma fold_mapPut_set: "set (fold (\<lambda>(k, v). mapPut k v) xs m) \<subseteq> set xs \<union> set m"
proof (induction xs arbitrary: m)
  case (Cons x xs)
  then show ?case using mapPut_set [of "fst x" "snd x" m] by (cases x) fastforce
qed simp

lemma fold_mapPut_keys: "fst ` set (fold (\<lambda>(k, v). mapPut k v) xs m) = fst ` set xs \<union> fst ` set m"
proof (induction xs arbitrary: m)
  case (Cons x xs)
  then show ?case by (cases x) (simp only: fold_simps prod.case mapPut_keys list.set image_insert fst_conv; blast)
qed simp

lemma mapInv_put: "mapInv m \<Longrightarrow> mapInv (mapPut k v m)"
  by (induction k v m rule: mapPut.induct) (auto simp: mapPut_keys)

lemma mapInv_filter: "mapInv m \<Longrightarrow> mapInv (List.filter P m)"
  by (induction m) auto

lemma mapGet_absent: "mapInv m \<Longrightarrow> (\<And>a. a \<in> fst ` set m \<Longrightarrow> k < a) \<Longrightarrow> map_of m k = None"
  by (auto simp: map_of_eq_None_iff)

lemma mapGet_put: "mapInv m \<Longrightarrow> mapGet (mapPut k v m) k' = (if k' = k then Some v else mapGet m k')"
  by (induction k v m rule: mapPut.induct) (auto simp: mapGet_def)

lemma mapGet_del: "mapGet (mapDel k m) k' = (if k' = k then None else mapGet m k')"
  by (induction m) (auto simp: mapGet_def mapDel_def)

lemma mapGet_eq_Some: "mapInv m \<Longrightarrow> mapGet m k = Some v \<longleftrightarrow> (k, v) \<in> set m"
proof -
  assume "mapInv m"
  then have "distinct (List.map fst m)"
    unfolding mapInv_def mapKeys_def using strict_sorted_iff by blast
  then show ?thesis by (simp add: mapGet_def)
qed

lemma mapInv_ext:
  assumes "mapInv m" "mapInv m'" "\<And>k. mapGet m k = mapGet m' k"
  shows "m = m'"
proof -
  have "set m = set m'"
    using mapGet_eq_Some [OF assms(1)] mapGet_eq_Some [OF assms(2)] assms(3) by auto
  moreover have "sorted (mapKeys m)" "sorted (mapKeys m')" "distinct (mapKeys m)" "distinct (mapKeys m')"
    using assms(1,2) unfolding mapInv_def strict_sorted_iff by auto
  ultimately show ?thesis
    by (auto simp: mapKeys_def intro!: map_sorted_distinct_set_unique [of fst])
      (auto simp: distinct_map inj_on_def)
qed

interpretation sm: go_map "[]" mapGet mapPut mapDel mapInv
proof unfold_locales
  fix m m' :: "'v gomap"
  assume "mapInv m" "mapInv m'" "\<And>k. mapGet m k = mapGet m' k"
  then show "m = m'" by (rule mapInv_ext)
next
  fix m :: "'v gomap" and k k' :: string and v :: 'v
  show "mapGet ([] :: 'v gomap) k = None" by (simp add: mapGet_def)
  show "mapInv m \<Longrightarrow> mapGet (mapPut k v m) k' = (if k' = k then Some v else mapGet m k')"
    by (rule mapGet_put)
  show "mapGet (mapDel k m) k' = (if k' = k then None else mapGet m k')" by (rule mapGet_del)
  show "mapInv m \<Longrightarrow> mapInv (mapPut k v m)" by (rule mapInv_put)
  show "mapInv m \<Longrightarrow> mapInv (mapDel k m)" unfolding mapDel_def by (rule mapInv_filter)
qed simp

lemmas mapGet_simps [simp] = sm.get_empty sm.get_put sm.get_del sm.inv_put sm.inv_del

lemma mapKeys_put: "mapInv m \<Longrightarrow> set (mapKeys (mapPut k v m)) = insert k (set (mapKeys m))"
  using mapPut_keys [of k v m] by (simp add: mapKeys_def)

lemma mapKeys_del: "set (mapKeys (mapDel k m)) = set (mapKeys m) - {k}"
  by (auto simp: mapKeys_def mapDel_def)

lemma mapGet_None: "mapGet m k = None \<longleftrightarrow> k \<notin> set (mapKeys m)"
  by (simp add: mapGet_def mapKeys_def map_of_eq_None_iff)

end
