(* ===== verification/Vault.thy ===== *)
theory Vault
  imports GoJSON GoMaps "HOL-Library.Word"
begin

text \<open>
  The encrypted project vault of \<open>src/internal/vault/store.go\<close>.

  The vault file is the document it decodes to, or \<open>None\<close> if there is none; its maps are sorted
  lists.  The block cipher in GCM mode, HMAC, SHA-256 and the decoder of a scope's plain text
  are a record of functions; the text that is sealed and the text that is authenticated are
  written out.  What the operating system, the clock and the random source deliver to one
  operation is part of its environment, and a revision is a 64-bit word.
\<close>

section \<open>Documents\<close>

definition formatVersion :: int where "formatVersion = 1"
definition cipherName :: string where "cipherName = ''AES-256-GCM+wrapped-scope-keys''"
definition rootKeySize :: nat where "rootKeySize = 32"

record sealedScope =
  sl_KeyNonce :: string
  sl_WrappedKey :: string
  sl_DataNonce :: string
  sl_Ciphertext :: string

record vaultDoc =
  vd_Version :: int
  vd_Cipher :: string
  vd_ProjectID :: string
  vd_Revision :: "64 word"
  vd_UpdatedAt :: string
  vd_Scopes :: "sealedScope gomap"
  vd_MAC :: string

record scopePayload =
  sp_Values :: "string gomap"
  sp_Blobs :: "string gomap"

datatype vaultError =
    VaultMissing | VaultKeyMissing | VaultIntegrity | EmptyName string | NulName string
  | OlderRevision "64 word" "64 word" | ConflictingRevision "64 word"
  | NotAuthentic vaultError | KeySize nat | InvalidKey | EmptyProject | VaultLock string
  | VaultRead string | VaultWrite string | VaultDir string | LoadKey string | SaveKey string | InspectVault string

text \<open>The primitives of the standard library; the decoder yields \<open>None\<close> for a map that is nil.\<close>

record vaultCrypto =
  vc_Seal :: "bytes \<Rightarrow> bytes \<Rightarrow> bytes \<Rightarrow> bytes \<Rightarrow> bytes"
  vc_Open :: "bytes \<Rightarrow> bytes \<Rightarrow> bytes \<Rightarrow> bytes \<Rightarrow> bytes option"
  vc_HMAC :: "bytes \<Rightarrow> bytes \<Rightarrow> bytes"
  vc_SHA256 :: "bytes \<Rightarrow> bytes"
  vc_Decode :: "bytes \<Rightarrow> (string gomap option \<times> string gomap option) option"

record vaultStore =
  vs_ProjectID :: string
  vs_RootKey :: bytes

text \<open>A failed write says whether the new file was already in place.\<close>

record vaultEnv =
  ve_Crypto :: vaultCrypto
  ve_Store :: vaultStore
  ve_Lock :: "string option"
  ve_Read :: "string option"
  ve_Write :: "(bool \<times> string) option"
  ve_DataKey :: bytes
  ve_DataNonce :: bytes
  ve_KeyNonce :: bytes
  ve_Now :: string

definition encodeBytes :: "bytes \<Rightarrow> string" where "encodeBytes value = b64Raw b64Std value"
definition decodeBytes :: "string \<Rightarrow> bytes option" where "decodeBytes value = b64Decode value"

definition shortHash :: "vaultCrypto \<Rightarrow> string \<Rightarrow> string" where
  "shortHash c value = hexEncode (take 16 (vc_SHA256 c value))"

definition projectFilename :: "vaultCrypto \<Rightarrow> string \<Rightarrow> string" where
  "projectFilename c projectID = shortHash c projectID @ ''.irvault''"

definition validateVaultName :: "string \<Rightarrow> string \<Rightarrow> vaultError option" where
  "validateVaultName value label =
     (if TrimSpace value = '''' then Some (EmptyName label)
      else if CHR 0x00 \<in> set value then Some (NulName label)
      else None)"

section \<open>Authentication and sealing\<close>

definition jsonSealed :: "sealedScope \<Rightarrow> bytes" where
  "jsonSealed s = jsonObject
     [jsonField ''key_nonce'' (jsonString (sl_KeyNonce s)),
      jsonField ''wrapped_key'' (jsonString (sl_WrappedKey s)),
      jsonField ''data_nonce'' (jsonString (sl_DataNonce s)),
      jsonField ''ciphertext'' (jsonString (sl_Ciphertext s))]"

definition marshalDoc :: "vaultDoc \<Rightarrow> bytes" where
  "marshalDoc d = jsonObject
     [jsonField ''version'' (jsonInt (vd_Version d)),
      jsonField ''cipher'' (jsonString (vd_Cipher d)),
      jsonField ''project_id'' (jsonString (vd_ProjectID d)),
      jsonField ''revision'' (jsonInt (uint (vd_Revision d))),
      jsonField ''updated_at'' (jsonString (vd_UpdatedAt d)),
      jsonField ''scopes'' (jsonObject (List.map (\<lambda>(k, s). jsonField k (jsonSealed s)) (vd_Scopes d))),
      jsonField ''mac'' (jsonString (vd_MAC d))]"

definition jsonStringMap :: "string gomap \<Rightarrow> bytes" where
  "jsonStringMap m = jsonObject (List.map (\<lambda>(k, v). jsonField k (jsonString v)) m)"

definition marshalPayload :: "scopePayload \<Rightarrow> bytes" where
  "marshalPayload p = jsonObject
     (jsonField ''values'' (jsonStringMap (sp_Values p)) #
      (if sp_Blobs p = [] then [] else [jsonField ''blobs'' (jsonStringMap (sp_Blobs p))]))"

definition computeMAC :: "vaultEnv \<Rightarrow> vaultDoc \<Rightarrow> bytes" where
  "computeMAC env doc =
     vc_HMAC (ve_Crypto env) (vs_RootKey (ve_Store env))
       (''ironrun-vault-manifest-v1'' @ [CHR 0x00] @ marshalDoc doc)"

definition verifyMAC :: "vaultEnv \<Rightarrow> vaultDoc \<Rightarrow> vaultError option" where
  "verifyMAC env doc =
     (case decodeBytes (vd_MAC doc) of
        None \<Rightarrow> Some VaultIntegrity
      | Some provided \<Rightarrow>
          if length provided = 0 then Some VaultIntegrity
          else if provided \<noteq> computeMAC env (doc\<lparr>vd_MAC := ''''\<rparr>) then Some VaultIntegrity
          else None)"

definition scopeAAD :: "vaultEnv \<Rightarrow> string \<Rightarrow> string \<Rightarrow> bytes" where
  "scopeAAD env kind scope =
     ''ironrun-vault-v'' @ jsonInt formatVersion @ [CHR 0x00] @ kind @ [CHR 0x00] @
     vs_ProjectID (ve_Store env) @ [CHR 0x00] @ scope"

text \<open>\<open>aes.NewCipher\<close> accepts keys of 16, 24 and 32 bytes.\<close>

definition newAEAD :: "bytes \<Rightarrow> vaultError + bytes" where
  "newAEAD key = (if length key \<in> {16, 24, 32} then Inr key else Inl (KeySize (length key)))"

definition sealScope :: "vaultEnv \<Rightarrow> string \<Rightarrow> scopePayload \<Rightarrow> vaultError + sealedScope" where
  "sealScope env scope payload =
     (let plain = marshalPayload payload; c = ve_Crypto env in
      case newAEAD (ve_DataKey env) of
        Inl e \<Rightarrow> Inl e
      | Inr dataKey \<Rightarrow>
          (let ciphertext = vc_Seal c dataKey (ve_DataNonce env) plain (scopeAAD env ''data'' scope) in
           case newAEAD (vs_RootKey (ve_Store env)) of
             Inl e \<Rightarrow> Inl e
           | Inr rootKey \<Rightarrow>
               (let wrapped = vc_Seal c rootKey (ve_KeyNonce env) dataKey (scopeAAD env ''key'' scope) in
                Inr \<lparr>sl_KeyNonce = encodeBytes (ve_KeyNonce env), sl_WrappedKey = encodeBytes wrapped,
                     sl_DataNonce = encodeBytes (ve_DataNonce env), sl_Ciphertext = encodeBytes ciphertext\<rparr>)))"

definition openScope :: "vaultEnv \<Rightarrow> string \<Rightarrow> sealedScope \<Rightarrow> vaultError + scopePayload" where
  "openScope env scope sealed =
     (let c = ve_Crypto env in
      case decodeBytes (sl_KeyNonce sealed) of
        None \<Rightarrow> Inl VaultIntegrity
      | Some keyNonce \<Rightarrow> (case decodeBytes (sl_WrappedKey sealed) of
        None \<Rightarrow> Inl VaultIntegrity
      | Some wrapped \<Rightarrow> (case newAEAD (vs_RootKey (ve_Store env)) of
        Inl e \<Rightarrow> Inl e
      | Inr rootKey \<Rightarrow> (case vc_Open c rootKey keyNonce wrapped (scopeAAD env ''key'' scope) of
        None \<Rightarrow> Inl VaultIntegrity
      | Some dataKey \<Rightarrow> (case decodeBytes (sl_DataNonce sealed) of
        None \<Rightarrow> Inl VaultIntegrity
      | Some dataNonce \<Rightarrow> (case decodeBytes (sl_Ciphertext sealed) of
        None \<Rightarrow> Inl VaultIntegrity
      | Some ciphertext \<Rightarrow> (case newAEAD dataKey of
        Inl e \<Rightarrow> Inl e
      | Inr dataKey \<Rightarrow> (case vc_Open c dataKey dataNonce ciphertext (scopeAAD env ''data'' scope) of
        None \<Rightarrow> Inl VaultIntegrity
      | Some plain \<Rightarrow> (case vc_Decode c plain of
        None \<Rightarrow> Inl VaultIntegrity
      | Some (None, _) \<Rightarrow> Inl VaultIntegrity
      | Some (Some vals, blobs) \<Rightarrow>
          Inr \<lparr>sp_Values = vals, sp_Blobs = (case blobs of None \<Rightarrow> [] | Some b \<Rightarrow> b)\<rparr>)))))))))"

section \<open>Loading and saving\<close>

definition parseDoc :: "vaultEnv \<Rightarrow> vaultDoc \<Rightarrow> vaultError + vaultDoc" where
  "parseDoc env doc =
     (if vd_Version doc \<noteq> formatVersion \<or> vd_Cipher doc \<noteq> cipherName \<or>
         vd_ProjectID doc \<noteq> vs_ProjectID (ve_Store env) then Inl VaultIntegrity
      else case verifyMAC env doc of Some e \<Rightarrow> Inl e | None \<Rightarrow> Inr doc)"

definition newDoc :: "vaultEnv \<Rightarrow> vaultDoc" where
  "newDoc env = \<lparr>vd_Version = formatVersion, vd_Cipher = cipherName,
     vd_ProjectID = vs_ProjectID (ve_Store env), vd_Revision = 0, vd_UpdatedAt = ''0001-01-01T00:00:00Z'',
     vd_Scopes = [], vd_MAC = ''''\<rparr>"

definition loadDoc :: "vaultEnv \<Rightarrow> vaultDoc option \<Rightarrow> vaultError + vaultDoc" where
  "loadDoc env disk =
     (case disk of
        None \<Rightarrow> Inr (newDoc env)
      | Some doc \<Rightarrow>
          (case ve_Read env of
             Some err \<Rightarrow> Inl (VaultRead err)
           | None \<Rightarrow> parseDoc env doc))"

type_synonym vaultResult = "vaultDoc option \<times> vaultError option"

definition macDoc :: "vaultEnv \<Rightarrow> vaultDoc \<Rightarrow> vaultDoc" where
  "macDoc env doc =
     (let doc = doc\<lparr>vd_MAC := ''''\<rparr> in doc\<lparr>vd_MAC := encodeBytes (computeMAC env doc)\<rparr>)"

definition saveDoc :: "vaultEnv \<Rightarrow> vaultDoc \<Rightarrow> vaultDoc option \<Rightarrow> vaultResult" where
  "saveDoc env doc disk =
     (case ve_Write env of
        None \<Rightarrow> (Some (macDoc env doc), None)
      | Some (committed, err) \<Rightarrow>
          (if committed then Some (macDoc env doc) else disk, Some (VaultWrite err)))"

text \<open>Every mutation runs under the lock and starts from the document on disk.\<close>

definition withVault :: "vaultEnv \<Rightarrow> (vaultDoc \<Rightarrow> vaultDoc option \<Rightarrow> vaultResult) \<Rightarrow> vaultDoc option \<Rightarrow> vaultResult" where
  "withVault env f disk =
     (case ve_Lock env of
        Some err \<Rightarrow> (disk, Some (VaultLock err))
      | None \<Rightarrow>
          (case loadDoc env disk of
             Inl e \<Rightarrow> (disk, Some e)
           | Inr doc \<Rightarrow> f doc disk))"

definition checkNames :: "string \<Rightarrow> string \<Rightarrow> vaultError option" where
  "checkNames scope key =
     (case validateVaultName scope ''scope'' of
        Some e \<Rightarrow> Some e
      | None \<Rightarrow> validateVaultName key ''key'')"

definition commitDoc :: "vaultEnv \<Rightarrow> vaultDoc \<Rightarrow> vaultDoc option \<Rightarrow> vaultResult" where
  "commitDoc env doc disk =
     saveDoc env (doc\<lparr>vd_Revision := vd_Revision doc + 1, vd_UpdatedAt := ve_Now env\<rparr>) disk"

definition openOrEmpty :: "vaultEnv \<Rightarrow> vaultDoc \<Rightarrow> string \<Rightarrow> vaultError + scopePayload" where
  "openOrEmpty env doc scope =
     (case mapGet (vd_Scopes doc) scope of
        None \<Rightarrow> Inr \<lparr>sp_Values = [], sp_Blobs = []\<rparr>
      | Some sealed \<Rightarrow> openScope env scope sealed)"

section \<open>Operations\<close>

definition vaultSet :: "vaultEnv \<Rightarrow> string \<Rightarrow> string \<Rightarrow> string \<Rightarrow> vaultDoc option \<Rightarrow> vaultResult" where
  "vaultSet env scope key val disk =
     (case checkNames scope key of
        Some e \<Rightarrow> (disk, Some e)
      | None \<Rightarrow> withVault env (\<lambda>doc disk.
          case openOrEmpty env doc scope of
            Inl e \<Rightarrow> (disk, Some e)
          | Inr payload \<Rightarrow>
              (case sealScope env scope (payload\<lparr>sp_Values := mapPut key val (sp_Values payload),
                                               sp_Blobs := mapDel key (sp_Blobs payload)\<rparr>) of
                 Inl e \<Rightarrow> (disk, Some e)
               | Inr sealed \<Rightarrow> commitDoc env (doc\<lparr>vd_Scopes := mapPut scope sealed (vd_Scopes doc)\<rparr>) disk)) disk)"

definition vaultSetBytes :: "vaultEnv \<Rightarrow> string \<Rightarrow> string \<Rightarrow> bytes \<Rightarrow> vaultDoc option \<Rightarrow> vaultResult" where
  "vaultSetBytes env scope key val disk =
     (case checkNames scope key of
        Some e \<Rightarrow> (disk, Some e)
      | None \<Rightarrow> withVault env (\<lambda>doc disk.
          case openOrEmpty env doc scope of
            Inl e \<Rightarrow> (disk, Some e)
          | Inr payload \<Rightarrow>
              (case sealScope env scope (payload\<lparr>sp_Blobs := mapPut key (encodeBytes val) (sp_Blobs payload),
                                               sp_Values := mapDel key (sp_Values payload)\<rparr>) of
                 Inl e \<Rightarrow> (disk, Some e)
               | Inr sealed \<Rightarrow> commitDoc env (doc\<lparr>vd_Scopes := mapPut scope sealed (vd_Scopes doc)\<rparr>) disk)) disk)"

definition openExisting :: "vaultEnv \<Rightarrow> string \<Rightarrow> string \<Rightarrow> vaultDoc option \<Rightarrow> vaultError + scopePayload" where
  "openExisting env scope key disk =
     (case checkNames scope key of
        Some e \<Rightarrow> Inl e
      | None \<Rightarrow>
          (case loadDoc env disk of
             Inl e \<Rightarrow> Inl e
           | Inr doc \<Rightarrow>
               (case mapGet (vd_Scopes doc) scope of
                  None \<Rightarrow> Inl VaultMissing
                | Some sealed \<Rightarrow> openScope env scope sealed)))"

definition vaultGet :: "vaultEnv \<Rightarrow> string \<Rightarrow> string \<Rightarrow> vaultDoc option \<Rightarrow> vaultError + string" where
  "vaultGet env scope key disk =
     (case openExisting env scope key disk of
        Inl e \<Rightarrow> Inl e
      | Inr payload \<Rightarrow>
          (case mapGet (sp_Values payload) key of None \<Rightarrow> Inl VaultMissing | Some v \<Rightarrow> Inr v))"

definition vaultGetBytes :: "vaultEnv \<Rightarrow> string \<Rightarrow> string \<Rightarrow> vaultDoc option \<Rightarrow> vaultError + bytes" where
  "vaultGetBytes env scope key disk =
     (case openExisting env scope key disk of
        Inl e \<Rightarrow> Inl e
      | Inr payload \<Rightarrow>
          (case mapGet (sp_Blobs payload) key of
             Some encoded \<Rightarrow>
               (case decodeBytes encoded of None \<Rightarrow> Inl VaultIntegrity | Some v \<Rightarrow> Inr v)
           | None \<Rightarrow>
               (case mapGet (sp_Values payload) key of Some v \<Rightarrow> Inr v | None \<Rightarrow> Inl VaultMissing)))"

definition vaultDelete :: "vaultEnv \<Rightarrow> string \<Rightarrow> string \<Rightarrow> vaultDoc option \<Rightarrow> vaultResult" where
  "vaultDelete env scope key disk =
     (case checkNames scope key of
        Some e \<Rightarrow> (disk, Some e)
      | None \<Rightarrow> withVault env (\<lambda>doc disk.
          case mapGet (vd_Scopes doc) scope of
            None \<Rightarrow> (disk, None)
          | Some sealed \<Rightarrow>
              (case openScope env scope sealed of
                 Inl e \<Rightarrow> (disk, Some e)
               | Inr payload \<Rightarrow>
                   if mapGet (sp_Values payload) key = None \<and> mapGet (sp_Blobs payload) key = None then (disk, None)
                   else
                     (let payload = payload\<lparr>sp_Values := mapDel key (sp_Values payload),
                                           sp_Blobs := mapDel key (sp_Blobs payload)\<rparr> in
                      if sp_Values payload = [] \<and> sp_Blobs payload = [] then
                        commitDoc env (doc\<lparr>vd_Scopes := mapDel scope (vd_Scopes doc)\<rparr>) disk
                      else (case sealScope env scope payload of
                              Inl e \<Rightarrow> (disk, Some e)
                            | Inr sealed \<Rightarrow>
                                commitDoc env (doc\<lparr>vd_Scopes := mapPut scope sealed (vd_Scopes doc)\<rparr>) disk)))) disk)"

definition vaultDeleteScope :: "vaultEnv \<Rightarrow> string \<Rightarrow> vaultDoc option \<Rightarrow> vaultResult" where
  "vaultDeleteScope env scope disk =
     (case validateVaultName scope ''scope'' of
        Some e \<Rightarrow> (disk, Some e)
      | None \<Rightarrow> withVault env (\<lambda>doc disk.
          if mapGet (vd_Scopes doc) scope = None then (disk, None)
          else commitDoc env (doc\<lparr>vd_Scopes := mapDel scope (vd_Scopes doc)\<rparr>) disk) disk)"

text \<open>
  \<open>Replace\<close> of a document that decodes to \<open>incoming\<close>, or does not decode.
\<close>

definition vaultReplace :: "vaultEnv \<Rightarrow> vaultDoc option \<Rightarrow> vaultDoc option \<Rightarrow> vaultResult" where
  "vaultReplace env incoming disk =
     (case ve_Lock env of
        Some err \<Rightarrow> (disk, Some (VaultLock err))
      | None \<Rightarrow>
          (case (case incoming of None \<Rightarrow> Inl VaultIntegrity | Some d \<Rightarrow> parseDoc env d) of
             Inl e \<Rightarrow> (disk, Some (NotAuthentic e))
           | Inr doc \<Rightarrow>
               (case loadDoc env disk of
                  Inl e \<Rightarrow> (disk, Some e)
                | Inr local \<Rightarrow>
                    if vd_Revision doc < vd_Revision local then
                      (disk, Some (OlderRevision (vd_Revision doc) (vd_Revision local)))
                    else if vd_Revision doc = vd_Revision local \<and> vd_MAC doc \<noteq> vd_MAC local then
                      (disk, Some (ConflictingRevision (vd_Revision doc)))
                    else if vd_Revision doc = vd_Revision local then (disk, None)
                    else saveDoc env doc disk)))"

section \<open>Opening\<close>

text \<open>
  The keys that the platform protects, what it answers to \<open>Load\<close> and \<open>Save\<close> beyond them, whether the
  vault directory could be created and secured, and the fresh random key.
\<close>

record protector =
  pr_Keys :: "string \<Rightarrow> string option"
  pr_LoadErr :: "string option"
  pr_SaveErr :: "string option"
  pr_StatErr :: "string option"
  pr_DirErr :: "string option"
  pr_Fresh :: bytes

definition decodeRootKey :: "vaultEnv \<Rightarrow> vaultDoc option \<Rightarrow> string \<Rightarrow> vaultError + vaultStore" where
  "decodeRootKey env disk encoded =
     (case decodeBytes encoded of
        None \<Rightarrow> Inl InvalidKey
      | Some key \<Rightarrow>
          if length key \<noteq> rootKeySize then Inl InvalidKey
          else (let s = (ve_Store env)\<lparr>vs_RootKey := key\<rparr> in
                case loadDoc (env\<lparr>ve_Store := s\<rparr>) disk of
                  Inl e \<Rightarrow> Inl e
                | Inr _ \<Rightarrow> Inr s))"

definition openProtected :: "vaultEnv \<Rightarrow> vaultDoc option \<Rightarrow> protector \<Rightarrow> protector \<times> (vaultError + vaultStore)" where
  "openProtected env disk p =
     (let keyName = ''project-'' @ shortHash (ve_Crypto env) (vs_ProjectID (ve_Store env)) in
      case pr_LoadErr p of
        Some err \<Rightarrow> (p, Inl (LoadKey err))
      | None \<Rightarrow>
          (case pr_Keys p keyName of
             Some encoded \<Rightarrow> (p, decodeRootKey env disk encoded)
           | None \<Rightarrow>
               if disk \<noteq> None then (p, Inl VaultKeyMissing)
               else (case pr_StatErr p of
                  Some err \<Rightarrow> (p, Inl (InspectVault err))
                | None \<Rightarrow>
                    (let encoded = encodeBytes (pr_Fresh p) in
                     case pr_SaveErr p of
                       Some err \<Rightarrow> (p, Inl (SaveKey err))
                     | None \<Rightarrow>
                         (p\<lparr>pr_Keys := (pr_Keys p)(keyName \<mapsto> encoded)\<rparr>, decodeRootKey env disk encoded)))))"

definition openVault :: "vaultEnv \<Rightarrow> vaultDoc option \<Rightarrow> protector \<Rightarrow> protector \<times> (vaultError + vaultStore)" where
  "openVault env disk p =
     (if TrimSpace (vs_ProjectID (ve_Store env)) = '''' then (p, Inl EmptyProject)
      else case pr_DirErr p of
             Some err \<Rightarrow> (p, Inl (VaultDir err))
           | None \<Rightarrow>
               (case ve_Lock env of
                  Some err \<Rightarrow> (p, Inl (VaultLock err))
                | None \<Rightarrow> openProtected env disk p))"

end
