(* ===== verification/Vault_Props.thy ===== *)
theory Vault_Props
  imports Vault
begin

text \<open>
  The vault as an encrypted implementation of a map from scopes and keys to values: every
  mutation that reports success has exactly the effect of the map update, a replacement is
  authentic and newer, and opening never replaces a key that a document needs.
\<close>

section \<open>The abstract vault\<close>

datatype vaultVal = Text string | Blob bytes

type_synonym vaultMap = "string \<Rightarrow> string \<Rightarrow> vaultVal option"

datatype vaultOp =
    OpSet string string string
  | OpSetBytes string string bytes
  | OpDelete string string
  | OpDeleteScope string

fun vaultRun :: "vaultEnv \<Rightarrow> vaultOp \<Rightarrow> vaultDoc option \<Rightarrow> vaultResult" where
  "vaultRun env (OpSet s k v) disk = vaultSet env s k v disk"
| "vaultRun env (OpSetBytes s k b) disk = vaultSetBytes env s k b disk"
| "vaultRun env (OpDelete s k) disk = vaultDelete env s k disk"
| "vaultRun env (OpDeleteScope s) disk = vaultDeleteScope env s disk"

fun vaultSpec :: "vaultOp \<Rightarrow> vaultMap \<Rightarrow> vaultMap" where
  "vaultSpec (OpSet s k v) V = V(s := (V s)(k \<mapsto> Text v))"
| "vaultSpec (OpSetBytes s k b) V = V(s := (V s)(k \<mapsto> Blob b))"
| "vaultSpec (OpDelete s k) V = V(s := (V s)(k := None))"
| "vaultSpec (OpDeleteScope s) V = V(s := (\<lambda>_. None))"

section \<open>The map that a document stands for\<close>

definition payloadAt :: "scopePayload \<Rightarrow> string \<Rightarrow> vaultVal option" where
  "payloadAt p k =
     (case mapGet (sp_Blobs p) k of
        Some encoded \<Rightarrow> map_option Blob (decodeBytes encoded)
      | None \<Rightarrow> map_option Text (mapGet (sp_Values p) k))"

definition payloadInv :: "scopePayload \<Rightarrow> bool" where
  "payloadInv p \<longleftrightarrow>
     mapInv (sp_Values p) \<and> mapInv (sp_Blobs p) \<and>
     (\<forall>k. mapGet (sp_Values p) k = None \<or> mapGet (sp_Blobs p) k = None) \<and>
     (\<forall>k e. mapGet (sp_Blobs p) k = Some e \<longrightarrow> decodeBytes e \<noteq> None)"

definition scopesView :: "vaultEnv \<Rightarrow> sealedScope gomap \<Rightarrow> vaultMap" where
  "scopesView env m s =
     (case mapGet m s of
        None \<Rightarrow> (\<lambda>_. None)
      | Some sealed \<Rightarrow> (case openScope env s sealed of Inl _ \<Rightarrow> (\<lambda>_. None) | Inr p \<Rightarrow> payloadAt p))"

definition scopesOk :: "vaultEnv \<Rightarrow> sealedScope gomap \<Rightarrow> bool" where
  "scopesOk env m \<longleftrightarrow>
     mapInv m \<and> (\<forall>s sealed. mapGet m s = Some sealed \<longrightarrow>
       (\<exists>p. openScope env s sealed = Inr p \<and> payloadInv p))"

definition vaultView :: "vaultEnv \<Rightarrow> vaultDoc option \<Rightarrow> vaultMap" where
  "vaultView env disk =
     (case loadDoc env disk of Inl _ \<Rightarrow> (\<lambda>_ _. None) | Inr doc \<Rightarrow> scopesView env (vd_Scopes doc))"

text \<open>The vault file is absent, or a document of this project whose scopes all open.\<close>

definition vaultOk :: "vaultEnv \<Rightarrow> vaultDoc option \<Rightarrow> bool" where
  "vaultOk env disk \<longleftrightarrow>
     ve_Read env = None \<and>
     (case loadDoc env disk of Inl _ \<Rightarrow> False | Inr doc \<Rightarrow> scopesOk env (vd_Scopes doc))"

text \<open>
  What is relied on of the primitives: decryption inverts encryption, a MAC is not empty, and
  the JSON decoder reads back the payload that an operation writes.
\<close>

definition cryptoOk :: "vaultCrypto \<Rightarrow> bool" where
  "cryptoOk c \<longleftrightarrow>
     (\<forall>k n p a. vc_Open c k n (vc_Seal c k n p a) a = Some p) \<and> (\<forall>k d. vc_HMAC c k d \<noteq> [])"

definition codecOk :: "vaultCrypto \<Rightarrow> scopePayload \<Rightarrow> bool" where
  "codecOk c p \<longleftrightarrow>
     vc_Decode c (marshalPayload p) = Some (Some (sp_Values p), if sp_Blobs p = [] then None else Some (sp_Blobs p))"

fun newPayload :: "vaultOp \<Rightarrow> scopePayload \<Rightarrow> scopePayload" where
  "newPayload (OpSet s k v) p = p\<lparr>sp_Values := mapPut k v (sp_Values p), sp_Blobs := mapDel k (sp_Blobs p)\<rparr>"
| "newPayload (OpSetBytes s k b) p =
     p\<lparr>sp_Blobs := mapPut k (encodeBytes b) (sp_Blobs p), sp_Values := mapDel k (sp_Values p)\<rparr>"
| "newPayload (OpDelete s k) p = p\<lparr>sp_Values := mapDel k (sp_Values p), sp_Blobs := mapDel k (sp_Blobs p)\<rparr>"
| "newPayload (OpDeleteScope s) p = p"

fun opScope :: "vaultOp \<Rightarrow> string" where
  "opScope (OpSet s k v) = s"
| "opScope (OpSetBytes s k b) = s"
| "opScope (OpDelete s k) = s"
| "opScope (OpDeleteScope s) = s"

definition resultCodec :: "vaultEnv \<Rightarrow> vaultOp \<Rightarrow> vaultDoc option \<Rightarrow> bool" where
  "resultCodec env op disk \<longleftrightarrow>
     (case loadDoc env disk of
        Inl _ \<Rightarrow> True
      | Inr doc \<Rightarrow> (case openOrEmpty env doc (opScope op) of
          Inl _ \<Rightarrow> True
        | Inr p \<Rightarrow> codecOk (ve_Crypto env) (newPayload op p)))"

section \<open>Payloads\<close>

lemma payload_new:
  assumes "payloadInv p"
  shows "payloadInv (newPayload op p)"
    "payloadAt (newPayload (OpSet s k v) p) = (payloadAt p)(k \<mapsto> Text v)"
    "payloadAt (newPayload (OpSetBytes s k b) p) = (payloadAt p)(k \<mapsto> Blob b)"
    "payloadAt (newPayload (OpDelete s k) p) = (payloadAt p)(k := None)"
  using assms
  by (cases op; force simp: payloadInv_def encodeBytes_def decodeBytes_def)
    (use assms in \<open>auto simp: payloadInv_def payloadAt_def encodeBytes_def decodeBytes_def fun_eq_iff split: option.split\<close>)

lemma payload_empty: "payloadInv \<lparr>sp_Values = [], sp_Blobs = []\<rparr>" "payloadAt \<lparr>sp_Values = [], sp_Blobs = []\<rparr> = (\<lambda>_. None)"
  by (simp_all add: payloadInv_def payloadAt_def fun_eq_iff)

lemma payload_none: "sp_Values p = [] \<Longrightarrow> sp_Blobs p = [] \<Longrightarrow> payloadAt p = (\<lambda>_. None)"
  by (simp add: payloadAt_def fun_eq_iff)

section \<open>Sealing and committing\<close>

text \<open>The payload that the decoder reads; it may differ from the one that was written.\<close>

definition decodedPayload :: "vaultCrypto \<Rightarrow> bytes \<Rightarrow> scopePayload option" where
  "decodedPayload c b =
     (case vc_Decode c b of
        Some (Some vals, blobs) \<Rightarrow> Some \<lparr>sp_Values = vals, sp_Blobs = (case blobs of None \<Rightarrow> [] | Some bs \<Rightarrow> bs)\<rparr>
      | _ \<Rightarrow> None)"

lemma codecOk_decoded: "codecOk c p \<Longrightarrow> decodedPayload c (marshalPayload p) = Some p"
  by (simp add: codecOk_def decodedPayload_def)

lemma decodedPayload_case:
  "(case vc_Decode c plain of None \<Rightarrow> Inl VaultIntegrity | Some (None, _) \<Rightarrow> Inl VaultIntegrity
    | Some (Some vals, blobs) \<Rightarrow> Inr \<lparr>sp_Values = vals, sp_Blobs = (case blobs of None \<Rightarrow> [] | Some b \<Rightarrow> b)\<rparr>) =
   (case decodedPayload c plain of None \<Rightarrow> Inl VaultIntegrity | Some p \<Rightarrow> Inr p)"
  by (simp add: decodedPayload_def split: option.split)

lemma openScope_decoded: "openScope env s sealed = Inr p \<Longrightarrow> \<exists>b. decodedPayload (ve_Crypto env) b = Some p"
  unfolding openScope_def decodedPayload_case Let_def by (auto split: option.splits sum.splits)

lemma open_seal:
  assumes "sealScope env s p = Inr sealed" "cryptoOk (ve_Crypto env)" "decodedPayload (ve_Crypto env) (marshalPayload p) = Some q"
  shows "openScope env s sealed = Inr q"
  using assms unfolding openScope_def decodedPayload_case
  by (auto simp: sealScope_def newAEAD_def encodeBytes_def decodeBytes_def cryptoOk_def Let_def split: if_splits)

definition docHeader :: "vaultEnv \<Rightarrow> vaultDoc \<Rightarrow> bool" where
  "docHeader env doc \<longleftrightarrow>
     vd_Version doc = formatVersion \<and> vd_Cipher doc = cipherName \<and> vd_ProjectID doc = vs_ProjectID (ve_Store env)"

lemma loadDoc_header: "loadDoc env disk = Inr doc \<Longrightarrow> docHeader env doc"
  by (auto simp: loadDoc_def newDoc_def parseDoc_def docHeader_def split: option.splits if_splits)

lemma macDoc_parses:
  assumes "docHeader env doc" "cryptoOk (ve_Crypto env)"
  shows "parseDoc env (macDoc env doc) = Inr (macDoc env doc)"
  using assms
  by (simp add: parseDoc_def macDoc_def verifyMAC_def docHeader_def encodeBytes_def decodeBytes_def Let_def
      computeMAC_def cryptoOk_def)

lemma commitDoc_loads:
  assumes "commitDoc env doc disk = (disk', None)" "docHeader env doc" "cryptoOk (ve_Crypto env)"
    and "ve_Read env = None"
  obtains doc' where "loadDoc env disk' = Inr doc'" "vd_Scopes doc' = vd_Scopes doc"
proof -
  let ?d = "doc\<lparr>vd_Revision := vd_Revision doc + 1, vd_UpdatedAt := ve_Now env\<rparr>"
  have disk': "disk' = Some (macDoc env ?d)"
    using assms(1) by (auto simp: commitDoc_def saveDoc_def split: option.splits)
  have "docHeader env ?d" using assms(2) by (simp add: docHeader_def)
  from macDoc_parses [OF this assms(3)] have "loadDoc env disk' = Inr (macDoc env ?d)"
    by (simp add: disk' loadDoc_def assms(4))
  moreover have "vd_Scopes (macDoc env ?d) = vd_Scopes doc" by (simp add: macDoc_def Let_def)
  ultimately show thesis using that by blast
qed

lemma scopes_put:
  assumes "scopesOk env m" "openScope env s sealed = Inr p" "payloadInv p"
  shows "scopesOk env (mapPut s sealed m)" "scopesView env (mapPut s sealed m) = (scopesView env m)(s := payloadAt p)"
  using assms by (auto simp: scopesOk_def scopesView_def fun_eq_iff)

lemma scopes_del:
  assumes "scopesOk env m"
  shows "scopesOk env (mapDel s m)" "scopesView env (mapDel s m) = (scopesView env m)(s := (\<lambda>_. None))"
  using assms by (auto simp: scopesOk_def scopesView_def fun_eq_iff)

lemma scopes_open:
  assumes "scopesOk env (vd_Scopes doc)" "openOrEmpty env doc s = Inr p"
  shows "payloadInv p" "scopesView env (vd_Scopes doc) s = payloadAt p"
proof -
  show "payloadInv p"
  proof (cases "mapGet (vd_Scopes doc) s")
    case None
    with assms(2) payload_empty show ?thesis by (auto simp: openOrEmpty_def)
  next
    case (Some sealed)
    with assms obtain q where "openScope env s sealed = Inr q" "payloadInv q" by (auto simp: scopesOk_def)
    with Some assms(2) show ?thesis by (simp add: openOrEmpty_def)
  qed
  show "scopesView env (vd_Scopes doc) s = payloadAt p"
    using assms(2) payload_empty by (auto simp: openOrEmpty_def scopesView_def split: option.splits)
qed

text \<open>The common end of the operations that write a scope.\<close>

lemma seal_commit_decoded:
  assumes "sealScope env s p = Inr sealed"
    and "commitDoc env (doc\<lparr>vd_Scopes := mapPut s sealed (vd_Scopes doc)\<rparr>) disk = (disk', None)"
    and "docHeader env doc" "cryptoOk (ve_Crypto env)" "ve_Read env = None"
    and "decodedPayload (ve_Crypto env) (marshalPayload p) = Some q" "scopesOk env (vd_Scopes doc)" "payloadInv q"
  shows "vaultOk env disk'" "vaultView env disk' = (scopesView env (vd_Scopes doc))(s := payloadAt q)"
proof -
  note op = open_seal [OF assms(1,4,6)]
  have "docHeader env (doc\<lparr>vd_Scopes := mapPut s sealed (vd_Scopes doc)\<rparr>)"
    using assms(3) by (simp add: docHeader_def)
  from commitDoc_loads [OF assms(2) this assms(4,5)]
  obtain doc' where "loadDoc env disk' = Inr doc'" "vd_Scopes doc' = mapPut s sealed (vd_Scopes doc)" by auto
  with scopes_put [OF assms(7) op assms(8)] assms(5)
  show "vaultOk env disk'" "vaultView env disk' = (scopesView env (vd_Scopes doc))(s := payloadAt q)"
    by (simp_all add: vaultOk_def vaultView_def)
qed

lemmas seal_commit = seal_commit_decoded [OF _ _ _ _ _ codecOk_decoded]

lemma del_commit:
  assumes "commitDoc env (doc\<lparr>vd_Scopes := mapDel s (vd_Scopes doc)\<rparr>) disk = (disk', None)"
    and "docHeader env doc" "cryptoOk (ve_Crypto env)" "ve_Read env = None" "scopesOk env (vd_Scopes doc)"
  shows "vaultOk env disk'" "vaultView env disk' = (scopesView env (vd_Scopes doc))(s := (\<lambda>_. None))"
proof -
  have "docHeader env (doc\<lparr>vd_Scopes := mapDel s (vd_Scopes doc)\<rparr>)"
    using assms(2) by (simp add: docHeader_def)
  from commitDoc_loads [OF assms(1) this assms(3,4)]
  obtain doc' where "loadDoc env disk' = Inr doc'" "vd_Scopes doc' = mapDel s (vd_Scopes doc)" by auto
  with scopes_del [OF assms(5), of s] assms(4)
  show "vaultOk env disk'" "vaultView env disk' = (scopesView env (vd_Scopes doc))(s := (\<lambda>_. None))"
    by (simp_all add: vaultOk_def vaultView_def)
qed

section \<open>The operations refine the map\<close>

lemma withVault_ok:
  assumes "withVault env f disk = (disk', None)"
  obtains doc where "loadDoc env disk = Inr doc" "f doc disk = (disk', None)"
  using assms by (auto simp: withVault_def split: option.splits sum.splits)

lemma vaultOk_load:
  "vaultOk env disk \<Longrightarrow> loadDoc env disk = Inr doc \<Longrightarrow>
     ve_Read env = None \<and> docHeader env doc \<and> scopesOk env (vd_Scopes doc) \<and>
     vaultView env disk = scopesView env (vd_Scopes doc)"
  by (auto simp: vaultOk_def vaultView_def loadDoc_header)

lemma vaultSet_refines:
  assumes "vaultOk env disk" "cryptoOk (ve_Crypto env)" "resultCodec env (OpSet s k v) disk"
    and "vaultSet env s k v disk = (disk', None)"
  shows "vaultOk env disk' \<and> vaultView env disk' = vaultSpec (OpSet s k v) (vaultView env disk)"
proof -
  from assms(4) obtain doc p sealed where doc: "loadDoc env disk = Inr doc" "openOrEmpty env doc s = Inr p"
    and seal: "sealScope env s (newPayload (OpSet s k v) p) = Inr sealed"
      "commitDoc env (doc\<lparr>vd_Scopes := mapPut s sealed (vd_Scopes doc)\<rparr>) disk = (disk', None)"
    by (auto simp: vaultSet_def withVault_def split: option.splits sum.splits)
  note ok = vaultOk_load [OF assms(1) doc(1)]
  note p = scopes_open [OF _ doc(2)]
  have "codecOk (ve_Crypto env) (newPayload (OpSet s k v) p)"
    using assms(3) doc by (simp add: resultCodec_def)
  from seal_commit [OF seal _ assms(2) _ this] ok p payload_new(1) [of p "OpSet s k v"] payload_new(2) [of p]
  show ?thesis by (simp del: newPayload.simps add: fun_eq_iff)
qed

lemma vaultSetBytes_refines:
  assumes "vaultOk env disk" "cryptoOk (ve_Crypto env)" "resultCodec env (OpSetBytes s k b) disk"
    and "vaultSetBytes env s k b disk = (disk', None)"
  shows "vaultOk env disk' \<and> vaultView env disk' = vaultSpec (OpSetBytes s k b) (vaultView env disk)"
proof -
  from assms(4) obtain doc p sealed where doc: "loadDoc env disk = Inr doc" "openOrEmpty env doc s = Inr p"
    and seal: "sealScope env s (newPayload (OpSetBytes s k b) p) = Inr sealed"
      "commitDoc env (doc\<lparr>vd_Scopes := mapPut s sealed (vd_Scopes doc)\<rparr>) disk = (disk', None)"
    by (auto simp: vaultSetBytes_def withVault_def split: option.splits sum.splits)
  note ok = vaultOk_load [OF assms(1) doc(1)]
  note p = scopes_open [OF _ doc(2)]
  have "codecOk (ve_Crypto env) (newPayload (OpSetBytes s k b) p)"
    using assms(3) doc by (simp add: resultCodec_def)
  from seal_commit [OF seal _ assms(2) _ this] ok p payload_new(1) [of p "OpSetBytes s k b"] payload_new(3) [of p]
  show ?thesis by (simp del: newPayload.simps add: fun_eq_iff)
qed

lemma vaultDelete_refines:
  assumes "vaultOk env disk" "cryptoOk (ve_Crypto env)" "resultCodec env (OpDelete s k) disk"
    and "vaultDelete env s k disk = (disk', None)"
  shows "vaultOk env disk' \<and> vaultView env disk' = vaultSpec (OpDelete s k) (vaultView env disk)"
proof -
  from assms(4) obtain doc where doc: "loadDoc env disk = Inr doc"
    by (auto simp: vaultDelete_def withVault_def split: option.splits sum.splits)
  note ok = vaultOk_load [OF assms(1) doc]
  show ?thesis
  proof (cases "mapGet (vd_Scopes doc) s")
    case None
    with assms(4) doc have "disk' = disk"
      by (auto simp: vaultDelete_def withVault_def split: option.splits sum.splits)
    moreover have "vaultView env disk s = (\<lambda>_. None)" using None ok by (simp add: scopesView_def)
    ultimately show ?thesis using assms(1) by (auto simp: fun_eq_iff)
  next
    case (Some sealed)
    with assms(4) doc obtain p where op: "openScope env s sealed = Inr p"
      by (auto simp: vaultDelete_def withVault_def split: option.splits sum.splits)
    with Some have open': "openOrEmpty env doc s = Inr p" by (simp add: openOrEmpty_def)
    note p = scopes_open [OF _ open']
    let ?p = "newPayload (OpDelete s k) p"
    consider (absent) "mapGet (sp_Values p) k = None \<and> mapGet (sp_Blobs p) k = None"
      | (last) "sp_Values ?p = [] \<and> sp_Blobs ?p = []"
          "\<not> (mapGet (sp_Values p) k = None \<and> mapGet (sp_Blobs p) k = None)"
      | (some) "\<not> (sp_Values ?p = [] \<and> sp_Blobs ?p = [])"
          "\<not> (mapGet (sp_Values p) k = None \<and> mapGet (sp_Blobs p) k = None)" by satx
    then show ?thesis
    proof cases
      case absent
      with assms(4) doc Some op have "disk' = disk"
        by (auto simp: vaultDelete_def withVault_def split: option.splits)
      moreover have "vaultView env disk s k = None"
        using absent ok p by (simp add: payloadAt_def)
      ultimately show ?thesis using assms(1) by (auto simp: fun_eq_iff)
    next
      case last
      with assms(4) doc Some op
      have "commitDoc env (doc\<lparr>vd_Scopes := mapDel s (vd_Scopes doc)\<rparr>) disk = (disk', None)"
        by (auto simp: vaultDelete_def withVault_def Let_def split: option.splits)
      from del_commit [OF this _ assms(2)] ok
      have "vaultOk env disk'" "vaultView env disk' = (vaultView env disk)(s := (\<lambda>_. None))" by simp_all
      moreover have "(payloadAt p)(k := None) = (\<lambda>_. None)"
        using payload_new(4) [of p s k] payload_none [of ?p] last(1) p ok by simp
      ultimately show ?thesis using ok p by simp
    next
      case some
      with assms(4) doc Some op obtain sealed' where seal: "sealScope env s ?p = Inr sealed'"
        "commitDoc env (doc\<lparr>vd_Scopes := mapPut s sealed' (vd_Scopes doc)\<rparr>) disk = (disk', None)"
        by (auto simp: vaultDelete_def withVault_def Let_def split: option.splits sum.splits if_splits)
      have "codecOk (ve_Crypto env) ?p"
        using assms(3) doc open' by (simp add: resultCodec_def)
      from seal_commit [OF seal _ assms(2) _ this] ok p payload_new(1) [of p "OpDelete s k"] payload_new(4) [of p]
      show ?thesis by (simp del: newPayload.simps add: fun_eq_iff)
    qed
  qed
qed

lemma vaultDeleteScope_cases:
  assumes "vaultDeleteScope env s disk = (disk', None)"
  obtains (none) doc where "loadDoc env disk = Inr doc" "mapGet (vd_Scopes doc) s = None" "disk' = disk"
    | (some) doc where "loadDoc env disk = Inr doc"
        "commitDoc env (doc\<lparr>vd_Scopes := mapDel s (vd_Scopes doc)\<rparr>) disk = (disk', None)"
proof -
  have "withVault env (\<lambda>doc disk. if mapGet (vd_Scopes doc) s = None then (disk, None)
      else commitDoc env (doc\<lparr>vd_Scopes := mapDel s (vd_Scopes doc)\<rparr>) disk) disk = (disk', None)"
    using assms by (cases "validateVaultName s ''scope''") (simp_all add: vaultDeleteScope_def)
  then show thesis
  proof (rule withVault_ok)
    fix doc assume doc: "loadDoc env disk = Inr doc" and run: "(if mapGet (vd_Scopes doc) s = None then (disk, None)
        else commitDoc env (doc\<lparr>vd_Scopes := mapDel s (vd_Scopes doc)\<rparr>) disk) = (disk', None)"
    show thesis
    proof (cases "mapGet (vd_Scopes doc) s = None")
      case True
      with run have "disk' = disk" by simp
      with doc True show thesis by (rule none)
    next
      case False
      with run have "commitDoc env (doc\<lparr>vd_Scopes := mapDel s (vd_Scopes doc)\<rparr>) disk = (disk', None)"
        by (simp only: if_False)
      with doc show thesis by (rule some)
    qed
  qed
qed

lemma vaultDeleteScope_refines:
  assumes "vaultOk env disk" "cryptoOk (ve_Crypto env)" "vaultDeleteScope env s disk = (disk', None)"
  shows "vaultOk env disk' \<and> vaultView env disk' = vaultSpec (OpDeleteScope s) (vaultView env disk)"
  using assms(3)
proof (cases rule: vaultDeleteScope_cases)
  case (none doc)
  then have "vaultView env disk s = (\<lambda>_. None)"
    using vaultOk_load [OF assms(1)] by (simp add: scopesView_def)
  with assms(1) none(3) show ?thesis by (auto simp: fun_eq_iff)
next
  case (some doc)
  note ok = vaultOk_load [OF assms(1) some(1)]
  from del_commit [OF some(2) _ assms(2)] ok show ?thesis by simp
qed

lemma vaultRun_refines:
  assumes "vaultOk env disk" "cryptoOk (ve_Crypto env)" "resultCodec env op disk"
    and "vaultRun env op disk = (disk', None)"
  shows "vaultOk env disk' \<and> vaultView env disk' = vaultSpec op (vaultView env disk)"
proof (cases op)
  case (OpSet s k v)
  with assms vaultSet_refines [of env disk s k v disk'] show ?thesis by (simp del: vaultSpec.simps)
next
  case (OpSetBytes s k b)
  with assms vaultSetBytes_refines [of env disk s k b disk'] show ?thesis by (simp del: vaultSpec.simps)
next
  case (OpDelete s k)
  with assms vaultDelete_refines [of env disk s k disk'] show ?thesis by (simp del: vaultSpec.simps)
next
  case (OpDeleteScope s)
  with assms vaultDeleteScope_refines [of env disk s disk'] show ?thesis by (simp del: vaultSpec.simps)
qed

text \<open>Reading.\<close>

lemma openExisting_view:
  assumes "vaultOk env disk" "checkNames s k = None"
  shows "case openExisting env s k disk of
      Inl e \<Rightarrow> e = VaultMissing \<and> vaultView env disk s = (\<lambda>_. None)
    | Inr p \<Rightarrow> payloadInv p \<and> vaultView env disk s = payloadAt p"
proof -
  from assms(1) obtain doc where doc: "loadDoc env disk = Inr doc" by (auto simp: vaultOk_def split: sum.splits)
  note ok = vaultOk_load [OF assms(1) doc]
  show ?thesis
  proof (cases "mapGet (vd_Scopes doc) s")
    case None
    with ok doc assms(2) show ?thesis by (simp add: openExisting_def scopesView_def)
  next
    case (Some sealed)
    with ok obtain p where "openScope env s sealed = Inr p" "payloadInv p" by (auto simp: scopesOk_def)
    with Some ok doc assms(2) show ?thesis by (simp add: openExisting_def scopesView_def)
  qed
qed

lemma vaultGet_view:
  assumes "vaultOk env disk" "checkNames s k = None"
  shows "vaultGet env s k disk = (case vaultView env disk s k of Some (Text v) \<Rightarrow> Inr v | _ \<Rightarrow> Inl VaultMissing)"
    "vaultGetBytes env s k disk =
       (case vaultView env disk s k of Some (Text v) \<Rightarrow> Inr v | Some (Blob b) \<Rightarrow> Inr b | None \<Rightarrow> Inl VaultMissing)"
proof -
  have view: "case openExisting env s k disk of
      Inl e \<Rightarrow> e = VaultMissing \<and> vaultView env disk s = (\<lambda>_. None)
    | Inr p \<Rightarrow> payloadInv p \<and> vaultView env disk s = payloadAt p" by (rule openExisting_view [OF assms])
  have none: "mapGet (sp_Blobs p) k = Some e \<Longrightarrow> payloadInv p \<Longrightarrow> mapGet (sp_Values p) k = None" for p e
    unfolding payloadInv_def by (metis option.distinct(1))
  have dec: "mapGet (sp_Blobs p) k = Some e \<Longrightarrow> payloadInv p \<Longrightarrow> \<exists>b. decodeBytes e = Some b" for p e
    unfolding payloadInv_def by blast
  show "vaultGet env s k disk = (case vaultView env disk s k of Some (Text v) \<Rightarrow> Inr v | _ \<Rightarrow> Inl VaultMissing)"
    using view none dec by (fastforce simp: vaultGet_def payloadAt_def split: sum.splits option.splits)
  show "vaultGetBytes env s k disk =
       (case vaultView env disk s k of Some (Text v) \<Rightarrow> Inr v | Some (Blob b) \<Rightarrow> Inr b | None \<Rightarrow> Inl VaultMissing)"
    using view none dec by (fastforce simp: vaultGetBytes_def payloadAt_def split: sum.splits option.splits)
qed

text \<open>
  The assumption on the decoder cannot hold for every text: two texts that are not UTF-8 are
  written alike, so a vault cannot tell them apart after a \<open>Set\<close>.
\<close>

lemma vault_text_not_injective:
  "marshalPayload \<lparr>sp_Values = [(k, [CHR 0xFE])], sp_Blobs = b\<rparr> =
   marshalPayload \<lparr>sp_Values = [(k, [CHR 0xFF])], sp_Blobs = b\<rparr>"
proof -
  have "jsonBody True [CHR 0xFE] = CHR 0x5C # ''ufffd''" "jsonBody True [CHR 0xFF] = CHR 0x5C # ''ufffd''"
    by (subst jsonBody.simps, simp add: runeError_def jsonBody.simps)+
  then show ?thesis by (simp add: marshalPayload_def jsonStringMap_def jsonString_def)
qed

section \<open>Revisions, replacement and opening\<close>

definition revisionOf :: "vaultDoc option \<Rightarrow> 64 word" where
  "revisionOf disk = (case disk of None \<Rightarrow> 0 | Some doc \<Rightarrow> vd_Revision doc)"

lemma loadDoc_revision: "loadDoc env disk = Inr doc \<Longrightarrow> vd_Revision doc = revisionOf disk"
  by (auto simp: loadDoc_def newDoc_def parseDoc_def revisionOf_def split: option.splits if_splits)

lemma macDoc_revision [simp]: "vd_Revision (macDoc env doc) = vd_Revision doc"
  by (simp add: macDoc_def Let_def)

definition bumped :: "vaultDoc option \<Rightarrow> vaultDoc option \<Rightarrow> bool" where
  "bumped disk disk' \<longleftrightarrow> disk' = disk \<or> revisionOf disk' = revisionOf disk + 1"

lemma bumped_refl [simp]: "bumped disk disk"
  by (simp add: bumped_def)

lemma commitDoc_bumped: "vd_Revision doc = revisionOf disk \<Longrightarrow> bumped disk (fst (commitDoc env doc disk))"
  by (auto simp: bumped_def commitDoc_def saveDoc_def revisionOf_def split: option.split)

lemma withVault_bumped:
  assumes "\<And>doc. vd_Revision doc = revisionOf disk \<Longrightarrow> bumped disk (fst (f doc disk))"
  shows "bumped disk (fst (withVault env f disk))"
  using assms by (auto simp: withVault_def dest: loadDoc_revision split: option.split sum.split)

lemma vaultRun_bumped: "bumped disk (fst (vaultRun env op disk))"
proof (cases op)
  case (OpSet s k v)
  show ?thesis
    unfolding OpSet vaultRun.simps vaultSet_def
    by (auto intro!: withVault_bumped commitDoc_bumped split: option.split sum.split)
next
  case (OpSetBytes s k b)
  show ?thesis
    unfolding OpSetBytes vaultRun.simps vaultSetBytes_def
    by (auto intro!: withVault_bumped commitDoc_bumped split: option.split sum.split)
next
  case (OpDelete s k)
  show ?thesis
    unfolding OpDelete vaultRun.simps vaultDelete_def
    by (auto intro!: withVault_bumped commitDoc_bumped simp: Let_def split: option.split sum.split)
next
  case (OpDeleteScope s)
  show ?thesis
    unfolding OpDeleteScope vaultRun.simps vaultDeleteScope_def
    by (auto intro!: withVault_bumped commitDoc_bumped split: option.split sum.split)
qed

lemma vaultReplace_cases:
  "fst (vaultReplace env incoming disk) = disk \<or>
     (\<exists>doc. incoming = Some doc \<and> parseDoc env doc = Inr doc \<and> revisionOf disk < vd_Revision doc \<and>
       fst (vaultReplace env incoming disk) = Some (macDoc env doc))"
proof (cases incoming)
  case None
  then show ?thesis by (auto simp: vaultReplace_def split: option.split)
next
  case (Some doc)
  have parse: "parseDoc env doc = Inr d \<Longrightarrow> d = doc" for d
    by (auto simp: parseDoc_def split: if_splits option.splits)
  show ?thesis
  proof (cases "parseDoc env doc")
    case (Inl e)
    with Some show ?thesis by (auto simp: vaultReplace_def split: option.split)
  next
    case (Inr d)
    with parse have d: "d = doc" by simp
    show ?thesis
    proof (cases "loadDoc env disk")
      case (Inl e)
      with Some Inr show ?thesis by (auto simp: vaultReplace_def split: option.split)
    next
      case load: (Inr local)
      then show ?thesis
        using Some Inr d loadDoc_revision [OF load]
        by (auto simp: vaultReplace_def saveDoc_def split: option.split)
    qed
  qed
qed

section \<open>Properties\<close>

text \<open>C10: Every operation that reports success does exactly its map update. If all scopes of the
  vault open, decryption inverts encryption and the JSON decoder reads back the payload the
  operation writes, then after a successful \<open>Set\<close>, \<open>SetBytes\<close>, \<open>Delete\<close> or \<open>DeleteScope\<close> all
  scopes open again, the vault stands for the updated map with every other entry unchanged,
  and \<open>Get\<close> and \<open>GetBytes\<close> return what that map holds.\<close>

theorem vault_refines_map:
  assumes "vaultOk env disk" "cryptoOk (ve_Crypto env)" "resultCodec env op disk"
    and "vaultRun env op disk = (disk', None)"
  shows "vaultOk env disk' \<and> vaultView env disk' = vaultSpec op (vaultView env disk) \<and>
    (\<forall>s k. checkNames s k = None \<longrightarrow>
       vaultGet env s k disk' =
         (case vaultSpec op (vaultView env disk) s k of Some (Text v) \<Rightarrow> Inr v | _ \<Rightarrow> Inl VaultMissing) \<and>
       vaultGetBytes env s k disk' =
         (case vaultSpec op (vaultView env disk) s k of
            Some (Text v) \<Rightarrow> Inr v | Some (Blob b) \<Rightarrow> Inr b | None \<Rightarrow> Inl VaultMissing))"
  using vaultRun_refines [OF assms] vaultGet_view [of env disk'] by simp

definition exampleVault :: vaultEnv where
  "exampleVault =
     \<lparr>ve_Crypto = \<lparr>vc_Seal = (\<lambda>k n p a. p), vc_Open = (\<lambda>k n c a. Some c), vc_HMAC = (\<lambda>k d. ''mac''),
        vc_SHA256 = (\<lambda>s. s),
        vc_Decode = (\<lambda>b. if b = marshalPayload \<lparr>sp_Values = [(''TOKEN'', ''t0'')], sp_Blobs = []\<rparr>
                        then Some (Some [(''TOKEN'', ''t0'')], None) else None)\<rparr>,
      ve_Store = \<lparr>vs_ProjectID = ''p1'', vs_RootKey = replicate 32 CHR 0x01\<rparr>,
      ve_Lock = None, ve_Read = None, ve_Write = None, ve_DataKey = replicate 32 CHR 0x02,
      ve_DataNonce = replicate 12 CHR 0x03, ve_KeyNonce = replicate 12 CHR 0x04,
      ve_Now = ''2025-01-02T03:04:05Z''\<rparr>"

lemma checkNames_example: "checkNames ''prod'' ''TOKEN'' = None"
  by (simp add: checkNames_def validateVaultName_def trim_eval)

lemma vault_refines_map_witness:
  "vaultGet exampleVault ''prod'' ''TOKEN'' (fst (vaultRun exampleVault (OpSet ''prod'' ''TOKEN'' ''t0'') None)) = Inr ''t0''"
proof -
  let ?op = "OpSet ''prod'' ''TOKEN'' ''t0''"
  have ok: "vaultOk exampleVault None"
    by (simp add: vaultOk_def loadDoc_def newDoc_def scopesOk_def exampleVault_def)
  have crypto: "cryptoOk (ve_Crypto exampleVault)" by (simp add: cryptoOk_def exampleVault_def)
  have codec: "resultCodec exampleVault ?op None"
    by (simp add: resultCodec_def loadDoc_def newDoc_def openOrEmpty_def codecOk_def exampleVault_def mapDel_def)
  have "snd (vaultRun exampleVault ?op None) = None"
    by (simp add: vaultSet_def checkNames_example withVault_def loadDoc_def openOrEmpty_def newDoc_def sealScope_def
        newAEAD_def commitDoc_def saveDoc_def exampleVault_def Let_def mapGet_def)
  then have run: "vaultRun exampleVault ?op None = (fst (vaultRun exampleVault ?op None), None)"
    by (metis prod.collapse)
  from vault_refines_map [OF ok crypto codec run] checkNames_example
  have "vaultGet exampleVault ''prod'' ''TOKEN'' (fst (vaultRun exampleVault ?op None)) =
      (case vaultSpec ?op (vaultView exampleVault None) ''prod'' ''TOKEN'' of Some (Text v) \<Rightarrow> Inr v | _ \<Rightarrow> Inl VaultMissing)"
    by blast
  then show ?thesis by simp
qed

text \<open>C11: The revision of the vault only moves forward. An operation leaves the document as it is
  or adds one to its 64-bit revision. \<open>Replace\<close> leaves it as it is or installs the given
  document, which then authenticates for this project and root key and has a greater
  revision than the local one.\<close>

theorem vault_revision_forward:
  "(fst (vaultRun env op disk) = disk \<or> revisionOf (fst (vaultRun env op disk)) = revisionOf disk + 1) \<and>
   (fst (vaultReplace env incoming disk) = disk \<or>
     (\<exists>doc. incoming = Some doc \<and> parseDoc env doc = Inr doc \<and> revisionOf disk < vd_Revision doc \<and>
       fst (vaultReplace env incoming disk) = Some (macDoc env doc)))"
  using vaultRun_bumped [of disk env op] vaultReplace_cases [of env incoming disk] by (simp add: bumped_def)

text \<open>C12: Opening fails closed. \<open>Open\<close> never changes a protected key that exists; it creates one
  only if there is no vault document, and it never yields a store whose root key is not 32
  bytes long or under which the document does not authenticate.\<close>

theorem vault_open_fails_closed:
  "(pr_Keys (fst (openVault env disk p)) = pr_Keys p \<or>
     (\<exists>n k. pr_Keys p n = None \<and> disk = None \<and> pr_Keys (fst (openVault env disk p)) = (pr_Keys p)(n \<mapsto> k))) \<and>
   (case snd (openVault env disk p) of
      Inl _ \<Rightarrow> True
    | Inr s \<Rightarrow> length (vs_RootKey s) = rootKeySize \<and> vs_ProjectID s = vs_ProjectID (ve_Store env) \<and>
        (\<exists>doc. loadDoc (env\<lparr>ve_Store := s\<rparr>) disk = Inr doc))"
proof -
  have decode: "case decodeRootKey env disk encoded of Inl _ \<Rightarrow> True
      | Inr s \<Rightarrow> length (vs_RootKey s) = rootKeySize \<and> vs_ProjectID s = vs_ProjectID (ve_Store env) \<and>
          (\<exists>doc. loadDoc (env\<lparr>ve_Store := s\<rparr>) disk = Inr doc)" for encoded
    by (auto simp: decodeRootKey_def Let_def split: option.split sum.split)
  show ?thesis
    using decode by (auto simp: openVault_def openProtected_def Let_def split: option.split)
qed

end
