(* ===== verification/Envset.thy ===== *)
theory Envset
  imports Vault
begin

text \<open>
  Project environments: \<open>src/internal/envset/manager.go\<close>, \<open>store.go\<close> and \<open>inspect.go\<close>.

  The metadata file is what it decodes to.  The value store is a record of functions on an
  abstract state, as the Go interface \<open>ValueStore\<close> is; the two optional methods that the
  manager looks for by type assertion are optional fields.  URL parsing and SHA-256 are
  arguments; the clock and the failures of the file system are part of the environment of one
  call.
\<close>

section \<open>Names and entries\<close>

definition metadataVersion :: int where "metadataVersion = 2"
definition DefaultTTL :: duration where "DefaultTTL = 24 * hour"
definition EntryEnvironment :: string where "EntryEnvironment = ''env''"
definition EntryFile :: string where "EntryFile = ''file''"

record entry =
  ee_Name :: string
  ee_Kind :: string
  ee_Target :: string
  ee_Filename :: string
  ee_CreatedAt :: time
  ee_UpdatedAt :: time

record identity =
  id_RemoteURL :: string
  id_CanonicalPath :: string

record envSet =
  es_Name :: string
  es_Temporary :: bool
  es_CreatedAt :: time
  es_ExpiresAt :: "time option"
  es_Keys :: "string list"
  es_Entries :: "entry list"

record metadata =
  md_Version :: int
  md_Identity :: identity
  md_Active :: string
  md_Sets :: "envSet gomap"

datatype storeError = StoreMissing | StoreFailure string

datatype envError =
    EmptySetName | BadNameCharacter string | SetExists string | SetNotFound string | SetExpired string
  | NoActiveSet | ActiveMissing | SharedTarget string string string | NoFileSupport
  | StoreErr storeError | UnsupportedKind string | EmptyTarget | BadTarget string | UnsafeFilename
  | IdentityChanged | ParseMetadata string | UnsupportedVersion int | EnvIO string
  | NotRegular | NotOwnerOnly | InsideProject | MalformedLine | DuplicateKey string | Unterminated string
  | LineTooLong

definition nameChar :: "char \<Rightarrow> bool" where
  "nameChar c \<longleftrightarrow> alnum c \<or> c \<in> set ''-_.''"

definition validateName :: "string \<Rightarrow> envError option" where
  "validateName name =
     (let name = TrimSpace name in
      if name = '''' then Some EmptySetName
      else if \<not> list_all nameChar name then Some (BadNameCharacter name)
      else None)"

primrec targetFrom :: "nat \<Rightarrow> string \<Rightarrow> bool" where
  "targetFrom i [] = True"
| "targetFrom i (r # name) =
     ((r = CHR ''_'' \<or> (alnum r \<and> \<not> (CHR ''0'' \<le> r \<and> r \<le> CHR ''9'')) \<or>
       (i > 0 \<and> CHR ''0'' \<le> r \<and> r \<le> CHR ''9'')) \<and> targetFrom (Suc i) name)"

definition validateEnvironmentTarget :: "string \<Rightarrow> envError option" where
  "validateEnvironmentTarget name =
     (if name = '''' then Some EmptyTarget else if \<not> targetFrom 0 name then Some (BadTarget name) else None)"

definition validateEntry :: "entry \<Rightarrow> envError option" where
  "validateEntry entry =
     (case validateName (ee_Name entry) of
        Some e \<Rightarrow> Some e
      | None \<Rightarrow>
          (let kind = (if ee_Kind entry = '''' then EntryEnvironment else ee_Kind entry) in
           if kind \<noteq> EntryEnvironment \<and> kind \<noteq> EntryFile then Some (UnsupportedKind kind)
           else case validateEnvironmentTarget (ee_Target entry) of
                  Some e \<Rightarrow> Some e
                | None \<Rightarrow>
                    if kind = EntryFile \<and>
                       (ee_Filename entry = '''' \<or> Base (ee_Filename entry) \<noteq> ee_Filename entry \<or>
                        ee_Filename entry = ''.'' \<or> ee_Filename entry = ''..'')
                    then Some UnsafeFilename else None))"

definition migratedEntry :: "string \<Rightarrow> time \<Rightarrow> entry" where
  "migratedEntry key created =
     \<lparr>ee_Name = key, ee_Kind = EntryEnvironment, ee_Target = key, ee_Filename = '''',
      ee_CreatedAt = created, ee_UpdatedAt = created\<rparr>"

section \<open>Identity\<close>

record url =
  ur_Scheme :: string
  ur_Host :: string
  ur_Hostname :: string
  ur_Path :: string

text \<open>\<open>strings.TrimRight\<close> for one byte and \<open>strings.TrimSuffix\<close>.\<close>

definition trimRightByte :: "char \<Rightarrow> string \<Rightarrow> string" where
  "trimRightByte c s = rev (dropWhile (\<lambda>d. d = c) (rev s))"

definition TrimSuffix :: "string \<Rightarrow> string \<Rightarrow> string" where
  "TrimSuffix s suf = (if suffix suf s then take (length s - length suf) s else s)"

fun replaceFirst :: "char \<Rightarrow> char \<Rightarrow> string \<Rightarrow> string" where
  "replaceFirst a b [] = []"
| "replaceFirst a b (c # s) = (if c = a then b # s else c # replaceFirst a b s)"

text \<open>
  \<open>parseURL\<close> stands for \<open>url.Parse\<close> and \<open>showURL\<close> for \<open>String\<close> of a URL without user, query and
  fragment.
\<close>

definition normalizeRemote :: "(string \<Rightarrow> url option) \<Rightarrow> (url \<Rightarrow> string) \<Rightarrow> string \<Rightarrow> string" where
  "normalizeRemote parseURL showURL raw =
     (let raw = TrimSpace raw in
      if raw = '''' then ''''
      else
        let raw = (if prefix ''git@'' raw then ''ssh://'' @ replaceFirst CHR '':'' CHR ''/'' raw else raw);
            plain = TrimSuffix (trimRightByte CHR ''/'' raw) ''.git''
        in case parseURL raw of
             None \<Rightarrow> plain
           | Some u \<Rightarrow>
               if ur_Host u = '''' then plain
               else
                 let u = u\<lparr>ur_Scheme := ToLower (ur_Scheme u), ur_Host := ToLower (ur_Host u),
                           ur_Hostname := ToLower (ur_Hostname u)\<rparr>;
                     u = (if ur_Scheme u \<in> {''ssh'', ''git+ssh'', ''git''}
                          then u\<lparr>ur_Scheme := ''https'', ur_Host := ur_Hostname u\<rparr> else u)
                 in showURL (u\<lparr>ur_Path := TrimSuffix (trimRightByte CHR ''/'' (ur_Path u)) ''.git''\<rparr>))"

record identityEnv =
  ie_parseURL :: "string \<Rightarrow> url option"
  ie_showURL :: "url \<Rightarrow> string"
  ie_SHA256 :: "bytes \<Rightarrow> bytes"

definition sameIdentity :: "identityEnv \<Rightarrow> identity \<Rightarrow> identity \<Rightarrow> bool" where
  "sameIdentity ie a b \<longleftrightarrow>
     id_CanonicalPath a = id_CanonicalPath b \<and>
     normalizeRemote (ie_parseURL ie) (ie_showURL ie) (id_RemoteURL a) =
       normalizeRemote (ie_parseURL ie) (ie_showURL ie) (id_RemoteURL b)"

definition identityHash :: "identityEnv \<Rightarrow> identity \<Rightarrow> string" where
  "identityHash ie i = hexEncode (ie_SHA256 ie (id_RemoteURL i @ [CHR 0x00] @ id_CanonicalPath i))"

definition envScope :: "identityEnv \<Rightarrow> metadata \<Rightarrow> string \<Rightarrow> string" where
  "envScope ie meta setName = identityHash ie (md_Identity meta) @ ''/'' @ setName"

section \<open>Metadata\<close>

definition migrateSet :: "envSet \<Rightarrow> envSet" where
  "migrateSet s =
     (if length (es_Entries s) = 0
      then s\<lparr>es_Entries := List.map (\<lambda>key. migratedEntry key (es_CreatedAt s)) (es_Keys s)\<rparr>
      else s)"

definition migrateMetadata :: "metadata \<Rightarrow> metadata \<times> bool" where
  "migrateMetadata meta =
     (if md_Version meta \<noteq> 1 then (meta, False)
      else (meta\<lparr>md_Sets := List.map (\<lambda>(name, s). (name, migrateSet s)) (md_Sets meta),
                 md_Version := metadataVersion\<rparr>, True))"

text \<open>
  The metadata file: absent, not readable or not JSON, or the value it decodes to.
\<close>

datatype metadataFile = NoFile | BadFile envError | File metadata

definition readMetadata :: "metadata \<Rightarrow> envError + metadata" where
  "readMetadata meta =
     (if md_Version meta \<noteq> 1 \<and> md_Version meta \<noteq> metadataVersion then Inl (UnsupportedVersion (md_Version meta))
      else Inr meta)"

definition InspectMetadata :: "identityEnv \<Rightarrow> envError + identity \<Rightarrow> metadataFile \<Rightarrow> envError + metadata" where
  "InspectMetadata ie discovered file =
     (case file of
        NoFile \<Rightarrow> Inl (EnvIO ''not exist'')
      | BadFile e \<Rightarrow> Inl e
      | File meta \<Rightarrow>
          (case readMetadata meta of
             Inl e \<Rightarrow> Inl e
           | Inr meta \<Rightarrow>
               (case discovered of
                  Inl e \<Rightarrow> Inl e
                | Inr identity \<Rightarrow>
                    if \<not> sameIdentity ie (md_Identity meta) identity then Inl IdentityChanged
                    else Inr (fst (migrateMetadata meta)))))"

section \<open>The manager\<close>

record 's valueStore =
  vst_Set :: "string \<Rightarrow> string \<Rightarrow> string \<Rightarrow> 's \<Rightarrow> 's \<times> storeError option"
  vst_Get :: "string \<Rightarrow> string \<Rightarrow> 's \<Rightarrow> 's \<times> (storeError + string)"
  vst_Delete :: "string \<Rightarrow> string \<Rightarrow> 's \<Rightarrow> 's \<times> storeError option"
  vst_SetBytes :: "(string \<Rightarrow> string \<Rightarrow> bytes \<Rightarrow> 's \<Rightarrow> 's \<times> storeError option) option"
  vst_GetBytes :: "(string \<Rightarrow> string \<Rightarrow> 's \<Rightarrow> 's \<times> (storeError + bytes)) option"

record 's envManager =
  mg_Meta :: metadata
  mg_File :: metadataFile
  mg_Values :: 's

record 's envEnv =
  ev_Identity :: identityEnv
  ev_Store :: "'s valueStore"
  ev_Now :: time
  ev_Mkdir :: "string option"
  ev_Lock :: "string option"
  ev_Write :: "(bool \<times> string) option"

definition envExpired :: "'s envEnv \<Rightarrow> envSet \<Rightarrow> bool" where
  "envExpired env s \<longleftrightarrow> (case es_ExpiresAt s of None \<Rightarrow> False | Some t \<Rightarrow> \<not> ev_Now env < t)"

text \<open>
  \<open>update\<close>: reload under the lock, mutate, commit.  A failing \<open>WriteFileAtomic\<close> says whether it had
  renamed the new file into place before it failed.
\<close>

definition updateCommit ::
  "'s envEnv \<Rightarrow> ('s envManager \<Rightarrow> 's envManager \<times> envError option) \<Rightarrow> 's envManager \<Rightarrow> 's envManager \<times> envError option" where
  "updateCommit env fn m =
     (case fn m of
        (m, Some e) \<Rightarrow> (m, Some e)
      | (m, None) \<Rightarrow>
          (case ev_Write env of
             Some (committed, err) \<Rightarrow>
               (if committed then m\<lparr>mg_File := File (mg_Meta m)\<rparr> else m, Some (EnvIO err))
           | None \<Rightarrow> (m\<lparr>mg_File := File (mg_Meta m)\<rparr>, None)))"

definition updateMeta ::
  "'s envEnv \<Rightarrow> ('s envManager \<Rightarrow> 's envManager \<times> envError option) \<Rightarrow> 's envManager \<Rightarrow> 's envManager \<times> envError option" where
  "updateMeta env fn m =
     (case ev_Mkdir env of
        Some err \<Rightarrow> (m, Some (EnvIO err))
      | None \<Rightarrow> (case ev_Lock env of
          Some err \<Rightarrow> (m, Some (EnvIO err))
        | None \<Rightarrow> (case mg_File m of
            NoFile \<Rightarrow> updateCommit env fn m
          | BadFile e \<Rightarrow> (m, Some e)
          | File meta \<Rightarrow> (case readMetadata meta of
              Inl e \<Rightarrow> (m, Some e)
            | Inr meta \<Rightarrow>
                if \<not> sameIdentity (ev_Identity env) (md_Identity meta) (md_Identity (mg_Meta m)) then (m, Some IdentityChanged)
                else updateCommit env fn (m\<lparr>mg_Meta := fst (migrateMetadata meta)\<rparr>)))))"

definition SetOf :: "'s envManager \<Rightarrow> string \<Rightarrow> envSet option" where
  "SetOf m name = mapGet (md_Sets (mg_Meta m)) name"

definition Names :: "'s envManager \<Rightarrow> string list" where
  "Names m = mapKeys (md_Sets (mg_Meta m))"

definition newSet :: "'s envEnv \<Rightarrow> string \<Rightarrow> bool \<Rightarrow> duration \<Rightarrow> envSet" where
  "newSet env name temporary ttl =
     \<lparr>es_Name = name, es_Temporary = temporary, es_CreatedAt = ev_Now env,
      es_ExpiresAt = (if temporary then Some (ev_Now env + ttl) else None), es_Keys = [], es_Entries = []\<rparr>"

definition createSet :: "'s envEnv \<Rightarrow> string \<Rightarrow> bool \<Rightarrow> duration \<Rightarrow> 's envManager \<Rightarrow> 's envManager \<times> envError option" where
  "createSet env name temporary ttl m =
     (if SetOf m name \<noteq> None then (m, Some (SetExists name))
      else let meta = mg_Meta m;
               meta = meta\<lparr>md_Sets := mapPut name (newSet env name temporary ttl) (md_Sets meta)\<rparr>;
               meta = (if md_Active meta = '''' then meta\<lparr>md_Active := name\<rparr> else meta)
           in (m\<lparr>mg_Meta := meta\<rparr>, None))"

definition CreateEnv :: "'s envEnv \<Rightarrow> string \<Rightarrow> bool \<Rightarrow> duration \<Rightarrow> 's envManager \<Rightarrow> 's envManager \<times> envError option" where
  "CreateEnv env name temporary ttl m =
     (case validateName name of
        Some e \<Rightarrow> (m, Some e)
      | None \<Rightarrow>
          (let ttl = (if temporary \<and> ttl \<le> 0 then DefaultTTL else ttl) in
           updateMeta env (createSet env name temporary ttl) m))"

definition Ensure :: "'s envEnv \<Rightarrow> string \<Rightarrow> 's envManager \<Rightarrow> 's envManager \<times> envError option" where
  "Ensure env name m = (if SetOf m name \<noteq> None then (m, None) else CreateEnv env name False 0 m)"

definition useSet :: "string \<Rightarrow> 's envManager \<Rightarrow> 's envManager \<times> envError option" where
  "useSet name m =
     (if SetOf m name = None then (m, Some (SetNotFound name))
      else (m\<lparr>mg_Meta := (mg_Meta m)\<lparr>md_Active := name\<rparr>\<rparr>, None))"

definition Use :: "'s envEnv \<Rightarrow> string \<Rightarrow> 's envManager \<Rightarrow> 's envManager \<times> envError option" where
  "Use env name m = updateMeta env (useSet name) m"

definition Active :: "'s envEnv \<Rightarrow> 's envManager \<Rightarrow> envError + envSet" where
  "Active env m =
     (let active = md_Active (mg_Meta m) in
      if active = '''' then Inl NoActiveSet
      else case SetOf m active of
             None \<Rightarrow> Inl ActiveMissing
           | Some s \<Rightarrow> if envExpired env s then Inl (SetExpired (es_Name s)) else Inr s)"

section \<open>Entries\<close>

text \<open>The stored entries with the new one in its place, in the order of the names.\<close>

definition replaceEntry :: "time \<Rightarrow> entry \<Rightarrow> entry list \<Rightarrow> entry list" where
  "replaceEntry now entry entries =
     (case find (\<lambda>e. ee_Name e = ee_Name entry) entries of
        Some old \<Rightarrow>
          (let new = entry\<lparr>ee_CreatedAt := ee_CreatedAt old, ee_UpdatedAt := now\<rparr>;
               i = length (takeWhile (\<lambda>e. ee_Name e \<noteq> ee_Name entry) entries)
           in entries[i := new])
      | None \<Rightarrow> entries @ [entry\<lparr>ee_CreatedAt := now, ee_UpdatedAt := now\<rparr>])"

definition addKey :: "string \<Rightarrow> string list \<Rightarrow> string list" where
  "addKey name keys = (if name \<in> set keys then keys else sort (keys @ [name]))"

definition writeValue ::
  "'s envEnv \<Rightarrow> string \<Rightarrow> entry \<Rightarrow> bytes \<Rightarrow> 's envManager \<Rightarrow> 's envManager \<times> envError option" where
  "writeValue env scope entry val m =
     (let run = (\<lambda>op. case op (mg_Values m) of (vs, err) \<Rightarrow> (m\<lparr>mg_Values := vs\<rparr>, map_option StoreErr err)) in
      if ee_Kind entry = EntryFile then
        (case vst_SetBytes (ev_Store env) of
           None \<Rightarrow> (m, Some NoFileSupport)
         | Some setBytes \<Rightarrow> run (setBytes scope (ee_Name entry) val))
      else run (vst_Set (ev_Store env) scope (ee_Name entry) val))"

definition normalEntry :: "entry \<Rightarrow> entry" where
  "normalEntry entry =
     (let entry = (if ee_Kind entry = '''' then entry\<lparr>ee_Kind := EntryEnvironment\<rparr> else entry)
      in if ee_Target entry = '''' then entry\<lparr>ee_Target := ee_Name entry\<rparr> else entry)"

definition putEntry :: "'s envEnv \<Rightarrow> string \<Rightarrow> entry \<Rightarrow> bytes \<Rightarrow> 's envManager \<Rightarrow> 's envManager \<times> envError option" where
  "putEntry env setName entry val m =
     (case SetOf m setName of
        None \<Rightarrow> (m, Some (SetNotFound setName))
      | Some s \<Rightarrow>
          if envExpired env s then (m, Some (SetExpired setName))
          else
            let entry = normalEntry entry
            in case validateEntry entry of
                 Some e \<Rightarrow> (m, Some e)
               | None \<Rightarrow>
                   (case find (\<lambda>e. ee_Name e \<noteq> ee_Name entry \<and> ee_Target e = ee_Target entry) (es_Entries s) of
                      Some other \<Rightarrow> (m, Some (SharedTarget (ee_Name other) (ee_Name entry) (ee_Target entry)))
                    | None \<Rightarrow>
                        (case writeValue env (envScope (ev_Identity env) (mg_Meta m) setName) entry val m of
                           (m, Some e) \<Rightarrow> (m, Some e)
                         | (m, None) \<Rightarrow>
                             (let s = s\<lparr>es_Entries := sort_key ee_Name (replaceEntry (ev_Now env) entry (es_Entries s)),
                                        es_Keys := addKey (ee_Name entry) (es_Keys s)\<rparr>
                              in (m\<lparr>mg_Meta := (mg_Meta m)\<lparr>md_Sets := mapPut setName s (md_Sets (mg_Meta m))\<rparr>\<rparr>, None)))))"

definition PutEntry :: "'s envEnv \<Rightarrow> string \<Rightarrow> entry \<Rightarrow> bytes \<Rightarrow> 's envManager \<Rightarrow> 's envManager \<times> envError option" where
  "PutEntry env setName entry val m = updateMeta env (putEntry env setName entry val) m"

definition envEntry :: "string \<Rightarrow> entry" where
  "envEntry key = \<lparr>ee_Name = key, ee_Kind = EntryEnvironment, ee_Target = key, ee_Filename = '''',
     ee_CreatedAt = 0, ee_UpdatedAt = 0\<rparr>"

definition Put :: "'s envEnv \<Rightarrow> string \<Rightarrow> string \<Rightarrow> string \<Rightarrow> 's envManager \<Rightarrow> 's envManager \<times> envError option" where
  "Put env setName key val m = PutEntry env setName (envEntry key) val m"

definition liveSet :: "'s envEnv \<Rightarrow> string \<Rightarrow> 's envManager \<Rightarrow> envError option" where
  "liveSet env setName m =
     (case SetOf m setName of
        None \<Rightarrow> Some (SetNotFound setName)
      | Some s \<Rightarrow> if envExpired env s then Some (SetExpired setName) else None)"

definition liftGet :: "'s envManager \<Rightarrow> 's \<times> (storeError + 'v) \<Rightarrow> 's envManager \<times> (envError + 'v)" where
  "liftGet m r = (m\<lparr>mg_Values := fst r\<rparr>, case snd r of Inl e \<Rightarrow> Inl (StoreErr e) | Inr v \<Rightarrow> Inr v)"

definition GetValue :: "'s envEnv \<Rightarrow> string \<Rightarrow> string \<Rightarrow> 's envManager \<Rightarrow> 's envManager \<times> (envError + string)" where
  "GetValue env setName key m =
     (case liveSet env setName m of
        Some e \<Rightarrow> (m, Inl e)
      | None \<Rightarrow> liftGet m (vst_Get (ev_Store env) (envScope (ev_Identity env) (mg_Meta m) setName) key (mg_Values m)))"

definition GetBytes :: "'s envEnv \<Rightarrow> string \<Rightarrow> string \<Rightarrow> 's envManager \<Rightarrow> 's envManager \<times> (envError + bytes)" where
  "GetBytes env setName key m =
     (case liveSet env setName m of
        Some e \<Rightarrow> (m, Inl e)
      | None \<Rightarrow>
          (let scope = envScope (ev_Identity env) (mg_Meta m) setName in
           case vst_GetBytes (ev_Store env) of
             Some getBytes \<Rightarrow> liftGet m (getBytes scope key (mg_Values m))
           | None \<Rightarrow> liftGet m (vst_Get (ev_Store env) scope key (mg_Values m))))"

definition EntryOf :: "'s envManager \<Rightarrow> string \<Rightarrow> string \<Rightarrow> entry option" where
  "EntryOf m setName name =
     (case SetOf m setName of None \<Rightarrow> None | Some s \<Rightarrow> find (\<lambda>e. ee_Name e = name) (es_Entries s))"

text \<open>The first entry of the name is removed, all keys equal to it.\<close>

fun removeEntry :: "string \<Rightarrow> entry list \<Rightarrow> entry list" where
  "removeEntry key [] = []"
| "removeEntry key (e # es) = (if ee_Name e = key then es else e # removeEntry key es)"

definition deleteKey :: "'s envEnv \<Rightarrow> string \<Rightarrow> string \<Rightarrow> 's envManager \<Rightarrow> 's envManager \<times> envError option" where
  "deleteKey env setName key m =
     (case SetOf m setName of
        None \<Rightarrow> (m, Some (SetNotFound setName))
      | Some s \<Rightarrow>
          (case vst_Delete (ev_Store env) (envScope (ev_Identity env) (mg_Meta m) setName) key (mg_Values m) of
             (vs, Some e) \<Rightarrow> (m\<lparr>mg_Values := vs\<rparr>, Some (StoreErr e))
           | (vs, None) \<Rightarrow>
               (let s = s\<lparr>es_Keys := List.filter (\<lambda>k. k \<noteq> key) (es_Keys s),
                          es_Entries := removeEntry key (es_Entries s)\<rparr>
                in (m\<lparr>mg_Values := vs,
                      mg_Meta := (mg_Meta m)\<lparr>md_Sets := mapPut setName s (md_Sets (mg_Meta m))\<rparr>\<rparr>, None))))"

definition DeleteKey :: "'s envEnv \<Rightarrow> string \<Rightarrow> string \<Rightarrow> 's envManager \<Rightarrow> 's envManager \<times> envError option" where
  "DeleteKey env setName key m = updateMeta env (deleteKey env setName key) m"

fun deleteValues :: "'s valueStore \<Rightarrow> string \<Rightarrow> string list \<Rightarrow> 's \<Rightarrow> 's \<times> storeError option" where
  "deleteValues st scope [] vs = (vs, None)"
| "deleteValues st scope (key # keys) vs =
     (case vst_Delete st scope key vs of
        (vs, None) \<Rightarrow> deleteValues st scope keys vs
      | (vs, Some StoreMissing) \<Rightarrow> deleteValues st scope keys vs
      | (vs, Some e) \<Rightarrow> (vs, Some e))"

definition removeSet :: "'s envEnv \<Rightarrow> string \<Rightarrow> 's envManager \<Rightarrow> 's envManager \<times> envError option" where
  "removeSet env setName m =
     (case SetOf m setName of
        None \<Rightarrow> (m, Some (SetNotFound setName))
      | Some s \<Rightarrow>
          (case deleteValues (ev_Store env) (envScope (ev_Identity env) (mg_Meta m) setName) (es_Keys s) (mg_Values m) of
             (vs, Some e) \<Rightarrow> (m\<lparr>mg_Values := vs\<rparr>, Some (StoreErr e))
           | (vs, None) \<Rightarrow>
               (let meta = (mg_Meta m)\<lparr>md_Sets := mapDel setName (md_Sets (mg_Meta m))\<rparr>;
                    names = mapKeys (md_Sets meta);
                    meta = (if md_Active meta = setName
                            then meta\<lparr>md_Active := (if length names > 0 then names ! 0 else '''')\<rparr> else meta)
                in (m\<lparr>mg_Values := vs, mg_Meta := meta\<rparr>, None))))"

definition RemoveEnv :: "'s envEnv \<Rightarrow> string \<Rightarrow> 's envManager \<Rightarrow> 's envManager \<times> envError option" where
  "RemoveEnv env setName m = updateMeta env (removeSet env setName) m"

text \<open>The loop of \<open>Clone\<close> over the entries of the source.\<close>

fun cloneEntries :: "'s envEnv \<Rightarrow> string \<Rightarrow> string \<Rightarrow> entry list \<Rightarrow> 's envManager \<Rightarrow> 's envManager \<times> envError option" where
  "cloneEntries env src dst [] m = (m, None)"
| "cloneEntries env src dst (entry # es) m =
     (case (if ee_Kind entry = EntryFile then GetBytes env src (ee_Name entry) m
            else GetValue env src (ee_Name entry) m) of
        (m, Inl e) \<Rightarrow> (m, Some e)
      | (m, Inr val) \<Rightarrow>
          (case PutEntry env dst (entry\<lparr>ee_CreatedAt := 0, ee_UpdatedAt := 0\<rparr>) val m of
             (m, Some e) \<Rightarrow> (m, Some e)
           | (m, None) \<Rightarrow> cloneEntries env src dst es m))"

definition CloneEnv :: "'s envEnv \<Rightarrow> string \<Rightarrow> string \<Rightarrow> 's envManager \<Rightarrow> 's envManager \<times> envError option" where
  "CloneEnv env src dst m =
     (case SetOf m src of
        None \<Rightarrow> (m, Some (SetNotFound src))
      | Some s \<Rightarrow>
          if SetOf m dst \<noteq> None then (m, Some (SetExists dst))
          else (case CreateEnv env dst False 0 m of
                  (m, Some e) \<Rightarrow> (m, Some e)
                | (m, None) \<Rightarrow> cloneEntries env src dst (es_Entries (migrateSet s)) m))"

text \<open>The loop of \<open>Prune\<close> over the sets that the manager held when it began.\<close>

fun pruneSets :: "'s envEnv \<Rightarrow> (string \<times> envSet) list \<Rightarrow> nat \<Rightarrow> 's envManager \<Rightarrow> 's envManager \<times> nat \<times> envError option" where
  "pruneSets env [] removed m = (m, removed, None)"
| "pruneSets env ((name, s) # sets) removed m =
     (if es_Temporary s \<and> envExpired env s then
        (case RemoveEnv env name m of
           (m, Some e) \<Rightarrow> (m, removed, Some e)
         | (m, None) \<Rightarrow> pruneSets env sets (removed + 1) m)
      else pruneSets env sets removed m)"

definition Prune :: "'s envEnv \<Rightarrow> 's envManager \<Rightarrow> 's envManager \<times> nat \<times> envError option" where
  "Prune env m = pruneSets env (md_Sets (mg_Meta m)) 0 m"

definition templateText :: "string list \<Rightarrow> string" where
  "templateText keys = concat (List.map (\<lambda>key. key @ ''='' @ [newline]) (sort keys))"

definition Template :: "'s envManager \<Rightarrow> string \<Rightarrow> string list \<Rightarrow> envError + string" where
  "Template m setName keys =
     (if SetOf m setName = None then Inl (SetNotFound setName) else Inr (templateText keys))"

section \<open>Dotenv files\<close>

record dotenvInfo =
  di_Regular :: bool
  di_Symlink :: bool
  di_OwnerOnly :: bool
  di_Inside :: bool

definition maxScanToken :: nat where "maxScanToken = 64 * 1024"

text \<open>\<open>strings.ReplaceAll(value, "\\n", "\n")\<close>: a backslash and an n become a line break.\<close>

fun unescapeNewlines :: "string \<Rightarrow> string" where
  "unescapeNewlines (a # b # s) =
     (if a = CHR 0x5C \<and> b = CHR ''n'' then newline # unescapeNewlines s else a # unescapeNewlines (b # s))"
| "unescapeNewlines s = s"

text \<open>The inner loop of \<open>ParseDotenv\<close>: lines are appended until the value ends in the quote.\<close>

fun extendQuoted :: "char \<Rightarrow> string \<Rightarrow> string list \<Rightarrow> string \<times> string list" where
  "extendQuoted q val [] = (val, [])"
| "extendQuoted q val (l # ls) =
     (if last val \<noteq> q then extendQuoted q (val @ [newline] @ l) ls else (val, l # ls))"

lemma extendQuoted_length: "length (snd (extendQuoted q val ls)) \<le> length ls"
  by (induction q val ls rule: extendQuoted.induct) auto

text \<open>What becomes of the text after the equals sign.\<close>

definition unquote :: "string \<Rightarrow> string" where
  "unquote val =
     (let literal = (length val \<ge> 2 \<and> hd val = CHR 0x27 \<and> last val = CHR 0x27);
          val = (if length val \<ge> 2 \<and> ((hd val = CHR 0x22 \<and> last val = CHR 0x22) \<or> literal)
                 then butlast (tl val) else val)
      in if literal then val else unescapeNewlines val)"

function dotenvLines :: "string list \<Rightarrow> (string \<times> string) list \<Rightarrow> envError + (string \<times> string) list" where
  "dotenvLines [] entries = Inr entries"
| "dotenvLines (l # ls) entries =
     (let line = TrimSpace l in
      if line = '''' \<or> prefix ''#'' line then dotenvLines ls entries
      else if CHR ''='' \<notin> set line then Inl MalformedLine
      else
        let key = TrimSpace (takeWhile (\<lambda>c. c \<noteq> CHR ''='') line);
            val = TrimSpace (tl (dropWhile (\<lambda>c. c \<noteq> CHR ''='') line))
        in case validateName key of
             Some e \<Rightarrow> Inl e
           | None \<Rightarrow>
               if key \<in> fst ` set entries then Inl (DuplicateKey key)
               else if val \<noteq> '''' \<and> hd val \<in> {CHR 0x22, CHR 0x27} \<and> last val \<noteq> hd val then
                 (let (val', ls') = extendQuoted (hd val) val ls in
                  if last val' \<noteq> hd val then Inl (Unterminated key)
                  else dotenvLines ls' (entries @ [(key, unquote val')]))
               else dotenvLines ls (entries @ [(key, unquote val)]))"
  by pat_completeness auto
termination
proof (relation "measure (\<lambda>(ls, _). length ls)", simp_all)
  fix ls ls' :: "string list" and q :: char and val val' :: string
  assume "(val', ls') = extendQuoted q val ls"
  then show "length ls' < Suc (length ls)" using extendQuoted_length [of q val ls] by (metis le_imp_less_Suc snd_conv)
qed

text \<open>
  \<open>ParseDotenv\<close> of a file with the given content, after the checks on the file itself; when the
  scanner stops at a line that is too long the lines before it have been read.
\<close>

definition ParseDotenv :: "dotenvInfo \<Rightarrow> bool \<Rightarrow> bytes \<Rightarrow> envError + (string \<times> string) list" where
  "ParseDotenv info checkInside content =
     (if di_Symlink info \<or> \<not> di_Regular info then Inl NotRegular
      else if \<not> di_OwnerOnly info then Inl NotOwnerOnly
      else if checkInside \<and> di_Inside info then Inl InsideProject
      else let (ls, tooLong) = Scanner maxScanToken content in
           case dotenvLines ls [] of
             Inl e \<Rightarrow> Inl e
           | Inr entries \<Rightarrow> if tooLong then Inl LineTooLong else Inr entries)"

end
