(* ===== verification/Envset_Props.thy ===== *)
theory Envset_Props
  imports Envset
begin

text \<open>
  The metadata of project environments: its invariant under every operation, what a successful
  write leaves behind, and the dotenv format.
\<close>

section \<open>The invariant of the metadata\<close>

text \<open>
  The keys mirror the entries, the entries are in the order of their distinct names, and no two
  of them share a target.
\<close>

definition setInv :: "envSet \<Rightarrow> bool" where
  "setInv s \<longleftrightarrow>
     es_Keys s = List.map ee_Name (es_Entries s) \<and> sorted_wrt (<) (es_Keys s) \<and>
     distinct (List.map ee_Target (es_Entries s))"

definition metaInv :: "metadata \<Rightarrow> bool" where
  "metaInv meta \<longleftrightarrow>
     mapInv (md_Sets meta) \<and>
     (md_Active meta = '''' \<or> md_Active meta \<in> set (mapKeys (md_Sets meta))) \<and>
     list_all (\<lambda>(name, s). setInv (if md_Version meta = 1 then migrateSet s else s)) (md_Sets meta)"

definition managerInv :: "'s envManager \<Rightarrow> bool" where
  "managerInv m \<longleftrightarrow>
     metaInv (mg_Meta m) \<and> md_Version (mg_Meta m) = metadataVersion \<and>
     (case mg_File m of File meta \<Rightarrow> metaInv meta | _ \<Rightarrow> True)"

datatype envOp =
    DoCreate string bool duration | DoEnsure string | DoUse string | DoPut string entry bytes
  | DoDeleteKey string string | DoRemove string | DoClone string string | DoPrune

fun envRun :: "'s envEnv \<Rightarrow> envOp \<Rightarrow> 's envManager \<Rightarrow> 's envManager" where
  "envRun env (DoCreate name temporary ttl) m = fst (CreateEnv env name temporary ttl m)"
| "envRun env (DoEnsure name) m = fst (Ensure env name m)"
| "envRun env (DoUse name) m = fst (Use env name m)"
| "envRun env (DoPut setName entry val) m = fst (PutEntry env setName entry val m)"
| "envRun env (DoDeleteKey setName key) m = fst (DeleteKey env setName key m)"
| "envRun env (DoRemove setName) m = fst (RemoveEnv env setName m)"
| "envRun env (DoClone src dst) m = fst (CloneEnv env src dst m)"
| "envRun env DoPrune m = fst (Prune env m)"

section \<open>Sets of entries\<close>

lemma setInv_sorted: "setInv s \<Longrightarrow> sorted_wrt (<) (List.map ee_Name (es_Entries s))"
  by (auto simp: setInv_def)

lemma setInv_distinct: "setInv s \<Longrightarrow> distinct (List.map ee_Name (es_Entries s))"
  using setInv_sorted [of s] strict_sorted_iff by blast

lemma find_Some_mem: "find P xs = Some x \<Longrightarrow> x \<in> set xs \<and> P x"
  by (induction xs) (auto split: if_splits)

lemma takeWhile_less: "x \<in> set xs \<Longrightarrow> \<not> P x \<Longrightarrow> length (takeWhile P xs) < length xs"
  by (induction xs) auto

lemma replaceEntry_names:
  "List.map ee_Name (replaceEntry now e es) =
     (if ee_Name e \<in> ee_Name ` set es then List.map ee_Name es else List.map ee_Name es @ [ee_Name e])"
proof (cases "find (\<lambda>x. ee_Name x = ee_Name e) es")
  case None
  moreover from None have "ee_Name e \<notin> ee_Name ` set es" by (force simp: find_None_iff)
  ultimately show ?thesis by (simp add: replaceEntry_def)
next
  case (Some old)
  let ?i = "length (takeWhile (\<lambda>x. ee_Name x \<noteq> ee_Name e) es)"
  have mem: "ee_Name e \<in> ee_Name ` set es" using find_Some_mem [OF Some] by (metis image_eqI)
  have i: "?i < length es" using find_Some_mem [OF Some] by (intro takeWhile_less [of old]) auto
  have "\<not> ee_Name (es ! ?i) \<noteq> ee_Name e" by (rule nth_length_takeWhile [OF i])
  then have "(List.map ee_Name es)[?i := ee_Name e] = List.map ee_Name es"
    using i by (metis list_update_id nth_map)
  with Some mem i show ?thesis by (simp add: replaceEntry_def Let_def map_update)
qed

text \<open>An entry that is written again keeps the time at which it was created.\<close>

definition createdAt :: "time \<Rightarrow> entry \<Rightarrow> entry list \<Rightarrow> time" where
  "createdAt now e es = (case find (\<lambda>x. ee_Name x = ee_Name e) es of Some old \<Rightarrow> ee_CreatedAt old | None \<Rightarrow> now)"

lemma replaceEntry_set:
  assumes "distinct (List.map ee_Name es)"
  shows "set (replaceEntry now e es) =
    insert (e\<lparr>ee_CreatedAt := createdAt now e es, ee_UpdatedAt := now\<rparr>) {x \<in> set es. ee_Name x \<noteq> ee_Name e}"
proof (cases "find (\<lambda>x. ee_Name x = ee_Name e) es")
  case None
  then have "{x \<in> set es. ee_Name x \<noteq> ee_Name e} = set es" by (auto simp: find_None_iff)
  with None show ?thesis by (auto simp: replaceEntry_def createdAt_def)
next
  case (Some old)
  let ?i = "length (takeWhile (\<lambda>x. ee_Name x \<noteq> ee_Name e) es)"
  have i: "?i < length es" using find_Some_mem [OF Some] by (intro takeWhile_less [of old]) auto
  have nth: "ee_Name (es ! ?i) = ee_Name e" using nth_length_takeWhile [OF i] by simp
  have "distinct es" using assms by (simp add: distinct_map)
  then have "set (es[?i := new]) = insert new (set es - {es ! ?i})" for new
    using i by (rule set_update_distinct)
  moreover have "set es - {es ! ?i} = {x \<in> set es. ee_Name x \<noteq> ee_Name e}"
  proof -
    have "x = es ! ?i" if "x \<in> set es" "ee_Name x = ee_Name e" for x
      using assms that nth nth_mem [OF i] unfolding distinct_map by (metis inj_onD)
    then show ?thesis using nth by auto
  qed
  ultimately show ?thesis using Some by (auto simp: replaceEntry_def createdAt_def Let_def)
qed

lemma replaceEntry_targets:
  assumes "distinct (List.map ee_Name es)" "distinct (List.map ee_Target es)"
    and "\<And>x. x \<in> set es \<Longrightarrow> ee_Name x \<noteq> ee_Name e \<Longrightarrow> ee_Target x \<noteq> ee_Target e"
  shows "distinct (List.map ee_Target (replaceEntry now e es))"
proof -
  obtain c where set: "set (replaceEntry now e es) =
      insert (e\<lparr>ee_CreatedAt := c, ee_UpdatedAt := now\<rparr>) {x \<in> set es. ee_Name x \<noteq> ee_Name e}"
    using replaceEntry_set [OF assms(1)] by metis
  have names: "distinct (List.map ee_Name (replaceEntry now e es))"
    using assms(1) by (auto simp: replaceEntry_names)
  then have "distinct (replaceEntry now e es)" by (simp add: distinct_map)
  moreover have "inj_on ee_Target (set (replaceEntry now e es))"
  proof (rule inj_onI)
    fix x y assume "x \<in> set (replaceEntry now e es)" "y \<in> set (replaceEntry now e es)" and eq: "ee_Target x = ee_Target y"
    then consider "x = y" | "x \<in> set es" "y \<in> set es" | "x \<in> set es" "ee_Name x \<noteq> ee_Name e" "ee_Target y = ee_Target e"
      | "y \<in> set es" "ee_Name y \<noteq> ee_Name e" "ee_Target x = ee_Target e"
      unfolding set by auto
    then show "x = y"
    proof cases
      case 2
      with assms(2) eq show ?thesis by (auto simp: distinct_map inj_on_def)
    qed (use assms(3) eq in auto)
  qed
  ultimately show ?thesis by (simp add: distinct_map)
qed

lemma sort_key_map: "List.map f (sort_key f xs) = sort (List.map f xs)"
proof (induction xs)
  case (Cons x xs)
  have "List.map f (insort_key f x ys) = insort (f x) (List.map f ys)" for ys
    by (induction ys) auto
  with Cons show ?case by simp
qed simp

lemma strict_sorted_sort: "distinct xs \<Longrightarrow> sorted_wrt (<) (sort xs)"
  by (simp add: strict_sorted_iff)

lemma sorted_wrt_id: "sorted_wrt (<) (xs :: 'a :: linorder list) \<Longrightarrow> sort xs = xs"
  by (simp add: strict_sorted_iff sorted_sort_id)

lemma setInv_put:
  assumes "setInv s" "\<And>x. x \<in> set (es_Entries s) \<Longrightarrow> ee_Name x \<noteq> ee_Name e \<Longrightarrow> ee_Target x \<noteq> ee_Target e"
  shows "setInv (s\<lparr>es_Entries := sort_key ee_Name (replaceEntry now e (es_Entries s)),
      es_Keys := addKey (ee_Name e) (es_Keys s)\<rparr>)"
proof -
  let ?es = "es_Entries s"
  have keys: "es_Keys s = List.map ee_Name ?es" and sorted: "sorted_wrt (<) (List.map ee_Name ?es)"
    and targets: "distinct (List.map ee_Target ?es)" using assms(1) by (auto simp: setInv_def)
  have names: "List.map ee_Name (sort_key ee_Name (replaceEntry now e ?es)) = addKey (ee_Name e) (es_Keys s)"
    using sorted_wrt_id [OF sorted] by (auto simp: sort_key_map replaceEntry_names addKey_def keys)
  moreover have "sorted_wrt (<) (addKey (ee_Name e) (es_Keys s))"
    using sorted by (auto simp: addKey_def keys strict_sorted_iff)
  moreover have "distinct (List.map ee_Target (sort_key ee_Name (replaceEntry now e ?es)))"
  proof -
    have "distinct (List.map ee_Target (replaceEntry now e ?es))"
      using replaceEntry_targets [OF setInv_distinct [OF assms(1)] targets] assms(2) by blast
    then show ?thesis by (simp add: distinct_map)
  qed
  ultimately show ?thesis by (simp add: setInv_def)
qed

lemma removeEntry_filter:
  "distinct (List.map ee_Name es) \<Longrightarrow> removeEntry key es = List.filter (\<lambda>e. ee_Name e \<noteq> key) es"
proof (induction es)
  case (Cons e es)
  have "ee_Name x \<noteq> ee_Name e" if "x \<in> set es" for x
    using Cons.prems that by (metis distinct.simps(2) image_eqI image_set list.simps(9))
  then have "ee_Name e = key \<Longrightarrow> List.filter (\<lambda>x. ee_Name x \<noteq> key) es = es"
    by (intro filter_True) auto
  with Cons show ?case by auto
qed simp

lemma setInv_delete:
  assumes "setInv s"
  shows "setInv (s\<lparr>es_Keys := List.filter (\<lambda>k. k \<noteq> key) (es_Keys s), es_Entries := removeEntry key (es_Entries s)\<rparr>)"
proof -
  have "List.filter (\<lambda>k. k \<noteq> key) (es_Keys s) = List.map ee_Name (List.filter (\<lambda>e. ee_Name e \<noteq> key) (es_Entries s))"
    using assms by (simp add: setInv_def filter_map comp_def)
  moreover have "sorted_wrt (<) (List.filter (\<lambda>k. k \<noteq> key) (es_Keys s))"
    using assms unfolding setInv_def by (blast intro: sorted_wrt_filter)
  ultimately show ?thesis
    using assms setInv_distinct [OF assms] by (simp add: setInv_def removeEntry_filter distinct_map_filter)
qed

lemma setInv_migrate [simp]: "setInv s \<Longrightarrow> migrateSet s = s"
  by (auto simp: setInv_def migrateSet_def)

section \<open>Metadata\<close>

definition setsInv :: "envSet gomap \<Rightarrow> bool" where
  "setsInv sets \<longleftrightarrow> mapInv sets \<and> (\<forall>name s. mapGet sets name = Some s \<longrightarrow> setInv s)"

text \<open>The invariant of metadata of the current version.\<close>

definition currentInv :: "metadata \<Rightarrow> bool" where
  "currentInv meta \<longleftrightarrow>
     md_Version meta = metadataVersion \<and> setsInv (md_Sets meta) \<and>
     (md_Active meta = '''' \<or> mapGet (md_Sets meta) (md_Active meta) \<noteq> None)"

lemma setsInv_all: "mapInv sets \<Longrightarrow> setsInv sets \<longleftrightarrow> list_all (\<lambda>(_, s). setInv s) sets"
  using mapGet_eq_Some [of sets] by (auto simp: setsInv_def list_all_iff)

lemma currentInv_iff: "currentInv meta \<longleftrightarrow> metaInv meta \<and> md_Version meta = metadataVersion"
proof (cases "md_Version meta = metadataVersion \<and> mapInv (md_Sets meta)")
  case True
  then have "md_Version meta \<noteq> 1" by (simp add: metadataVersion_def)
  with True setsInv_all [of "md_Sets meta"] show ?thesis
    by (simp add: currentInv_def metaInv_def mapGet_None conj_commute)
next
  case False
  then show ?thesis by (auto simp: currentInv_def metaInv_def setsInv_def)
qed

lemma setsInv_put: "setsInv sets \<Longrightarrow> setInv s \<Longrightarrow> setsInv (mapPut name s sets)"
  by (auto simp: setsInv_def)

lemma setsInv_del: "setsInv sets \<Longrightarrow> setsInv (mapDel name sets)"
  by (auto simp: setsInv_def)

lemma migrate_inv:
  assumes "metaInv meta" "readMetadata meta = Inr meta'"
  shows "currentInv (fst (migrateMetadata meta'))"
proof -
  have meta': "meta' = meta" "md_Version meta = 1 \<or> md_Version meta = metadataVersion"
    using assms(2) by (auto simp: readMetadata_def split: if_splits)
  show ?thesis
  proof (cases "md_Version meta = 1")
    case True
    have keys: "mapKeys (List.map (\<lambda>(name, s). (name, migrateSet s)) (md_Sets meta)) = mapKeys (md_Sets meta)"
      by (simp add: mapKeys_def comp_def split_def)
    have mapInv: "mapInv (List.map (\<lambda>(name, s). (name, migrateSet s)) (md_Sets meta))"
      using assms(1) by (simp add: metaInv_def mapInv_def keys)
    have "setsInv (List.map (\<lambda>(name, s). (name, migrateSet s)) (md_Sets meta))"
      using assms(1) True by (auto simp: setsInv_all [OF mapInv] metaInv_def list_all_iff)
    then show ?thesis
      using assms(1) True keys by (auto simp: migrateMetadata_def meta'(1) currentInv_def metaInv_def mapGet_None)
  next
    case False
    with assms(1) meta' show ?thesis by (simp add: migrateMetadata_def currentInv_iff)
  qed
qed

text \<open>The invariant of a manager, and what a mutation under the lock may rely on.\<close>

lemma managerInv_iff:
  "managerInv m \<longleftrightarrow> currentInv (mg_Meta m) \<and> (case mg_File m of File meta \<Rightarrow> metaInv meta | _ \<Rightarrow> True)"
  by (auto simp: managerInv_def currentInv_iff)

definition keepsInv :: "('s envManager \<Rightarrow> 's envManager \<times> envError option) \<Rightarrow> bool" where
  "keepsInv fn \<longleftrightarrow>
     (\<forall>m. currentInv (mg_Meta m) \<longrightarrow> currentInv (mg_Meta (fst (fn m))) \<and> mg_File (fst (fn m)) = mg_File m)"

lemma updateCommit_inv:
  assumes "keepsInv fn" "currentInv (mg_Meta m)" "case mg_File m of File meta \<Rightarrow> metaInv meta | _ \<Rightarrow> True"
  shows "managerInv (fst (updateCommit env fn m))"
proof -
  obtain m' err where fn: "fn m = (m', err)" by force
  have "currentInv (mg_Meta (fst (fn m))) \<and> mg_File (fst (fn m)) = mg_File m"
    using assms(1,2) unfolding keepsInv_def by blast
  then have inv: "currentInv (mg_Meta m')" and same: "mg_File m' = mg_File m" using fn by simp_all
  then have "metaInv (mg_Meta m')" by (simp add: currentInv_iff)
  with inv same assms(3) fn show ?thesis
    by (auto simp: updateCommit_def managerInv_iff split: option.split)
qed

lemma updateMeta_inv:
  assumes "keepsInv fn" "managerInv m"
  shows "managerInv (fst (updateMeta env fn m))"
proof (cases "mg_File m")
  case NoFile
  have "managerInv (fst (updateCommit env fn m))"
    using assms NoFile by (intro updateCommit_inv) (auto simp: managerInv_iff)
  with NoFile assms(2) show ?thesis by (simp add: updateMeta_def split: option.split)
next
  case (BadFile e)
  with assms show ?thesis by (auto simp: updateMeta_def split: option.split)
next
  case (File meta)
  with assms(2) have meta: "metaInv meta" by (simp add: managerInv_iff)
  show ?thesis
  proof (cases "readMetadata meta")
    case (Inl e)
    with File assms show ?thesis by (auto simp: updateMeta_def split: option.split)
  next
    case (Inr meta')
    have "managerInv (fst (updateCommit env fn (m\<lparr>mg_Meta := fst (migrateMetadata meta')\<rparr>)))"
      using assms(1) migrate_inv [OF meta Inr] meta File by (intro updateCommit_inv) simp_all
    with File Inr assms show ?thesis by (auto simp: updateMeta_def split: option.split)
  qed
qed

lemma setInv_new [simp]: "setInv (newSet env name temporary ttl)"
  by (simp add: newSet_def setInv_def)

lemma createSet_inv: "keepsInv (createSet env name temporary ttl)"
proof -
  have "mapInv (md_Sets meta)" if "currentInv meta" for meta using that by (auto simp: currentInv_def setsInv_def)
  then show ?thesis
    by (auto simp: keepsInv_def createSet_def currentInv_def Let_def intro: setsInv_put)
qed

lemma useSet_inv: "keepsInv (useSet name)"
  by (auto simp: keepsInv_def useSet_def SetOf_def currentInv_def)

lemma writeValue_meta:
  "writeValue env scope entry val m = (m', err) \<Longrightarrow> mg_Meta m' = mg_Meta m \<and> mg_File m' = mg_File m"
  by (auto simp: writeValue_def Let_def split: if_splits option.splits prod.splits)

lemma currentInv_put:
  assumes "currentInv meta" "setInv s"
  shows "currentInv (meta\<lparr>md_Sets := mapPut name s (md_Sets meta)\<rparr>)"
proof -
  have "mapInv (md_Sets meta)" using assms(1) by (auto simp: currentInv_def setsInv_def)
  then show ?thesis using assms setsInv_put [of "md_Sets meta" s name] by (auto simp: currentInv_def)
qed

lemma SetOf_inv: "currentInv (mg_Meta m) \<Longrightarrow> SetOf m name = Some s \<Longrightarrow> setInv s"
  by (auto simp: currentInv_def setsInv_def SetOf_def)

lemma putEntry_inv: "keepsInv (putEntry env setName entry val)"
  unfolding keepsInv_def
proof (intro allI impI)
  fix m :: "'a envManager" assume inv: "currentInv (mg_Meta m)"
  let ?r = "putEntry env setName entry val m"
  show "currentInv (mg_Meta (fst ?r)) \<and> mg_File (fst ?r) = mg_File m"
  proof (cases "SetOf m setName")
    case None
    with inv show ?thesis by (simp add: putEntry_def)
  next
    case (Some s)
    define e2 where "e2 = normalEntry entry"
    have s: "setInv s" using SetOf_inv [OF inv Some] .
    show ?thesis
    proof (cases "envExpired env s \<or> validateEntry e2 \<noteq> None \<or>
        find (\<lambda>e. ee_Name e \<noteq> ee_Name e2 \<and> ee_Target e = ee_Target e2) (es_Entries s) \<noteq> None")
      case True
      with Some inv show ?thesis
        by (auto simp: putEntry_def Let_def simp flip: e2_def split: option.split)
    next
      case False
      obtain m' err where w: "writeValue env (envScope (ev_Identity env) (mg_Meta m) setName) e2 val m = (m', err)"
        by force
      note same = writeValue_meta [OF w]
      have other: "ee_Target x \<noteq> ee_Target e2" if "x \<in> set (es_Entries s)" "ee_Name x \<noteq> ee_Name e2" for x
        using False that by (auto simp: find_None_iff)
      note put = currentInv_put [OF inv setInv_put [OF s other, of "ev_Now env"], of setName]
      show ?thesis
      proof (cases err)
        case None
        with False Some w same put show ?thesis
          by (simp add: putEntry_def Let_def flip: e2_def)
      next
        case (Some e)
        with False \<open>SetOf m setName = _\<close> w same inv show ?thesis
          by (simp add: putEntry_def Let_def flip: e2_def)
      qed
    qed
  qed
qed

lemma deleteKey_inv: "keepsInv (deleteKey env setName key)"
  unfolding keepsInv_def
proof (intro allI impI)
  fix m :: "'a envManager" assume inv: "currentInv (mg_Meta m)"
  show "currentInv (mg_Meta (fst (deleteKey env setName key m))) \<and> mg_File (fst (deleteKey env setName key m)) = mg_File m"
  proof (cases "SetOf m setName")
    case None
    with inv show ?thesis by (simp add: deleteKey_def)
  next
    case (Some s)
    note del = currentInv_put [OF inv setInv_delete [OF SetOf_inv [OF inv Some], of key], of setName]
    with Some inv show ?thesis
      by (auto simp: deleteKey_def Let_def split: prod.split option.split)
  qed
qed

lemma removeSet_inv: "keepsInv (removeSet env setName)"
  unfolding keepsInv_def
proof (intro allI impI)
  fix m :: "'a envManager" assume inv: "currentInv (mg_Meta m)"
  let ?sets = "mapDel setName (md_Sets (mg_Meta m))"
  have sets: "setsInv ?sets" using inv by (auto simp: currentInv_def intro: setsInv_del)
  have first: "mapGet ?sets (mapKeys ?sets ! 0) \<noteq> None" if "mapKeys ?sets \<noteq> []"
    using that mapGet_None [of ?sets "mapKeys ?sets ! 0"] by (metis length_greater_0_conv nth_mem)
  have keep: "mapGet ?sets (md_Active (mg_Meta m)) \<noteq> None"
    if "md_Active (mg_Meta m) \<noteq> setName" "md_Active (mg_Meta m) \<noteq> ''''"
    using that inv by (auto simp: currentInv_def setsInv_def)
  show "currentInv (mg_Meta (fst (removeSet env setName m))) \<and> mg_File (fst (removeSet env setName m)) = mg_File m"
    using inv sets first keep
    by (auto simp: removeSet_def Let_def currentInv_def split: option.split prod.split)
qed

text \<open>The operations.\<close>

lemma CreateEnv_inv: "managerInv m \<Longrightarrow> managerInv (fst (CreateEnv env name temporary ttl m))"
  by (auto simp: CreateEnv_def Let_def createSet_inv intro: updateMeta_inv split: option.split)

lemma PutEntry_inv: "managerInv m \<Longrightarrow> managerInv (fst (PutEntry env setName entry val m))"
  by (simp add: PutEntry_def updateMeta_inv putEntry_inv)

lemma RemoveEnv_inv: "managerInv m \<Longrightarrow> managerInv (fst (RemoveEnv env setName m))"
  by (simp add: RemoveEnv_def updateMeta_inv removeSet_inv)

lemma managerInv_values [simp]: "managerInv (m\<lparr>mg_Values := vs\<rparr>) = managerInv m"
  by (simp add: managerInv_def)

lemma GetValue_inv: "managerInv m \<Longrightarrow> managerInv (fst (GetValue env setName key m))"
  by (auto simp: GetValue_def liftGet_def split: option.split)

lemma GetBytes_inv: "managerInv m \<Longrightarrow> managerInv (fst (GetBytes env setName key m))"
  by (auto simp: GetBytes_def liftGet_def Let_def split: option.split)

lemma cloneEntries_inv: "managerInv m \<Longrightarrow> managerInv (fst (cloneEntries env src dst es m))"
proof (induction es arbitrary: m)
  case (Cons e es)
  let ?g = "if ee_Kind e = EntryFile then GetBytes env src (ee_Name e) m else GetValue env src (ee_Name e) m"
  obtain m1 r where g: "?g = (m1, r)" by force
  with Cons.prems GetValue_inv [of m env src] GetBytes_inv [of m env src] have m1: "managerInv m1"
    by (metis fst_conv)
  show ?case
  proof (cases r)
    case (Inl err)
    with g m1 show ?thesis by simp
  next
    case (Inr v)
    obtain m2 err where p: "PutEntry env dst (e\<lparr>ee_CreatedAt := 0, ee_UpdatedAt := 0\<rparr>) v m1 = (m2, err)" by force
    with PutEntry_inv [OF m1] have "managerInv m2" by (metis fst_conv)
    with g Inr p Cons.IH show ?thesis by (cases err) simp_all
  qed
qed simp

lemma CloneEnv_inv: "managerInv m \<Longrightarrow> managerInv (fst (CloneEnv env src dst m))"
proof -
  assume inv: "managerInv m"
  obtain m1 err where c: "CreateEnv env dst False 0 m = (m1, err)" by force
  with CreateEnv_inv [OF inv] have "managerInv m1" by (metis fst_conv)
  with c inv cloneEntries_inv show ?thesis
    by (auto simp: CloneEnv_def split: option.split)
qed

lemma pruneSets_inv: "managerInv m \<Longrightarrow> managerInv (fst (pruneSets env sets n m))"
proof (induction env sets n m rule: pruneSets.induct)
  case (2 env name s sets n m)
  obtain m1 err where r: "RemoveEnv env name m = (m1, err)" by force
  with RemoveEnv_inv [OF 2(3)] have "managerInv m1" by (metis fst_conv)
  with 2 r show ?case by (cases err) auto
qed simp

lemma envRun_inv: "managerInv m \<Longrightarrow> managerInv (envRun env op m)"
  by (cases op)
    (auto simp: Ensure_def Use_def DeleteKey_def Prune_def CreateEnv_inv PutEntry_inv RemoveEnv_inv CloneEnv_inv
      pruneSets_inv updateMeta_inv useSet_inv deleteKey_inv)

section \<open>What a successful write leaves\<close>

definition loadedMeta :: "'s envManager \<Rightarrow> metadata" where
  "loadedMeta m = (case mg_File m of File meta \<Rightarrow> fst (migrateMetadata meta) | _ \<Rightarrow> mg_Meta m)"

lemma loadedMeta_inv:
  assumes "managerInv m" "updateMeta env fn m = (m', None)"
  shows "currentInv (loadedMeta m)" "updateCommit env fn (m\<lparr>mg_Meta := loadedMeta m\<rparr>) = (m', None)"
proof -
  consider "mg_File m = NoFile" | meta where "mg_File m = File meta" "readMetadata meta = Inr meta"
    using assms(2) by (auto simp: updateMeta_def readMetadata_def split: option.splits metadataFile.splits sum.splits if_splits)
  then have "currentInv (loadedMeta m) \<and> updateCommit env fn (m\<lparr>mg_Meta := loadedMeta m\<rparr>) = (m', None)"
  proof cases
    case 1
    with assms show ?thesis
      by (auto simp: loadedMeta_def managerInv_iff updateMeta_def split: option.splits)
  next
    case (2 meta)
    then have "metaInv meta" using assms(1) by (simp add: managerInv_iff)
    from migrate_inv [OF this 2(2)] 2 assms(2) show ?thesis
      by (auto simp: loadedMeta_def updateMeta_def split: option.splits if_splits)
  qed
  then show "currentInv (loadedMeta m)" "updateCommit env fn (m\<lparr>mg_Meta := loadedMeta m\<rparr>) = (m', None)"
    by simp_all
qed

lemma normalEntry_name [simp]: "ee_Name (normalEntry entry) = ee_Name entry"
  by (simp add: normalEntry_def Let_def)

lemma putEntry_ok:
  assumes "putEntry env setName entry val m = (m', None)" "currentInv (mg_Meta m)"
  obtains s m1 where "SetOf m setName = Some s" "\<not> envExpired env s" "validateName (ee_Name entry) = None"
    "writeValue env (envScope (ev_Identity env) (mg_Meta m) setName) (normalEntry entry) val m = (m1, None)"
    "m' = m1\<lparr>mg_Meta := (mg_Meta m)\<lparr>md_Sets := mapPut setName
       (s\<lparr>es_Entries := sort_key ee_Name (replaceEntry (ev_Now env) (normalEntry entry) (es_Entries s)),
          es_Keys := addKey (ee_Name entry) (es_Keys s)\<rparr>) (md_Sets (mg_Meta m))\<rparr>\<rparr>"
proof -
  from assms(1) obtain s where s: "SetOf m setName = Some s" by (auto simp: putEntry_def split: option.splits)
  obtain m1 err where w: "writeValue env (envScope (ev_Identity env) (mg_Meta m) setName) (normalEntry entry) val m = (m1, err)"
    by force
  note same = writeValue_meta [OF w]
  show thesis
  proof (rule that [OF s])
    show "\<not> envExpired env s" using assms(1) s by (auto simp: putEntry_def)
    show "validateName (ee_Name entry) = None"
      using assms(1) s by (auto simp: putEntry_def validateEntry_def Let_def split: if_splits option.splits)
    show "writeValue env (envScope (ev_Identity env) (mg_Meta m) setName) (normalEntry entry) val m = (m1, None)"
      using assms(1) s w by (auto simp: putEntry_def Let_def split: if_splits option.splits)
    show "m' = m1\<lparr>mg_Meta := (mg_Meta m)\<lparr>md_Sets := mapPut setName
       (s\<lparr>es_Entries := sort_key ee_Name (replaceEntry (ev_Now env) (normalEntry entry) (es_Entries s)),
          es_Keys := addKey (ee_Name entry) (es_Keys s)\<rparr>) (md_Sets (mg_Meta m))\<rparr>\<rparr>"
      using assms(1) s w same by (auto simp: putEntry_def Let_def split: if_splits option.splits)
  qed
qed

text \<open>
  What a set is after an entry is put into it: the entry is there with the time of the write, all others
  are as they were, in the order of their names, with the keys that mirror them; nothing else of the
  set changes.
\<close>

definition putInto :: "time \<Rightarrow> entry \<Rightarrow> envSet \<Rightarrow> envSet \<Rightarrow> bool" where
  "putInto now e s s' \<longleftrightarrow>
     s' = s\<lparr>es_Entries := es_Entries s', es_Keys := List.map ee_Name (es_Entries s')\<rparr> \<and>
     sorted_wrt (<) (List.map ee_Name (es_Entries s')) \<and>
     set (es_Entries s') = insert (e\<lparr>ee_CreatedAt := createdAt now e (es_Entries s), ee_UpdatedAt := now\<rparr>)
       {x \<in> set (es_Entries s). ee_Name x \<noteq> ee_Name e}"

lemma putInto_replace:
  assumes "setInv s"
  shows "putInto now e s (s\<lparr>es_Entries := sort_key ee_Name (replaceEntry now e (es_Entries s)),
    es_Keys := addKey (ee_Name e) (es_Keys s)\<rparr>)"
proof -
  let ?es = "es_Entries s"
  have keys: "es_Keys s = List.map ee_Name ?es" and sorted: "sorted_wrt (<) (List.map ee_Name ?es)"
    using assms by (auto simp: setInv_def)
  have names: "List.map ee_Name (sort_key ee_Name (replaceEntry now e ?es)) = addKey (ee_Name e) (es_Keys s)"
    using sorted_wrt_id [OF sorted] by (auto simp: sort_key_map replaceEntry_names addKey_def keys)
  moreover have "sorted_wrt (<) (addKey (ee_Name e) (es_Keys s))"
    using sorted by (auto simp: addKey_def keys strict_sorted_iff)
  ultimately show ?thesis
    using replaceEntry_set [OF setInv_distinct [OF assms], of now e] by (simp add: putInto_def)
qed

lemma PutEntry_exact:
  assumes "managerInv m" "PutEntry env setName entry val m = (m', None)"
  obtains s s' m1 where "mapGet (md_Sets (loadedMeta m)) setName = Some s" "\<not> envExpired env s"
    "validateName (ee_Name entry) = None"
    "putInto (ev_Now env) (normalEntry entry) s s'"
    "writeValue env (envScope (ev_Identity env) (loadedMeta m) setName) (normalEntry entry) val
       (m\<lparr>mg_Meta := loadedMeta m\<rparr>) = (m1, None)"
    "m' = m1\<lparr>mg_Meta := (loadedMeta m)\<lparr>md_Sets := mapPut setName s' (md_Sets (loadedMeta m))\<rparr>,
       mg_File := File ((loadedMeta m)\<lparr>md_Sets := mapPut setName s' (md_Sets (loadedMeta m))\<rparr>)\<rparr>"
proof -
  let ?m0 = "m\<lparr>mg_Meta := loadedMeta m\<rparr>"
  note load = loadedMeta_inv [OF assms(1) assms(2) [unfolded PutEntry_def]]
  from load(2) obtain m2 where put: "putEntry env setName entry val ?m0 = (m2, None)"
    and m': "m' = m2\<lparr>mg_File := File (mg_Meta m2)\<rparr>"
    by (auto simp: updateCommit_def split: prod.splits option.splits)
  have inv0: "currentInv (mg_Meta ?m0)" using load(1) by simp
  from putEntry_ok [OF put inv0] show thesis
  proof cases
    case (1 s m1)
    have "setInv s" using SetOf_inv [OF inv0 1(1)] .
    from putInto_replace [OF this, of "ev_Now env" "normalEntry entry"] 1 show thesis
      by (intro that [of s "s\<lparr>es_Entries := sort_key ee_Name (replaceEntry (ev_Now env) (normalEntry entry) (es_Entries s)),
          es_Keys := addKey (ee_Name entry) (es_Keys s)\<rparr>" m1]) (simp_all add: SetOf_def m')
  qed
qed

section \<open>Dotenv files\<close>

definition quotedLine :: "string \<times> string \<Rightarrow> string" where
  "quotedLine kv = fst kv @ CHR ''='' # CHR 0x27 # snd kv @ [CHR 0x27]"

definition plainName :: "string \<Rightarrow> bool" where
  "plainName k \<longleftrightarrow> k \<noteq> '''' \<and> list_all nameChar k"

text \<open>Bytes that neither begin nor end white space.\<close>

definition inkChar :: "char \<Rightarrow> bool" where
  "inkChar c \<longleftrightarrow> 0x21 \<le> (of_char c :: nat) \<and> (of_char c :: nat) < 0x7F"

lemma nameChar_ink: "nameChar c \<Longrightarrow> inkChar c \<and> c \<noteq> CHR ''='' \<and> c \<noteq> CHR ''#''"
  by (auto simp: nameChar_def alnum_def inkChar_def Let_def)

lemma space_not_ink:
  "list_all (\<lambda>e. e \<noteq> [] \<and> \<not> inkChar (hd e)) spaceEncodings"
  "list_all (\<lambda>e. e \<noteq> [] \<and> \<not> inkChar (hd e)) (List.map rev spaceEncodings)"
  by (simp_all add: spaceEncodings_eq inkChar_def)

lemma front_ink:
  assumes "list_all (\<lambda>e. e \<noteq> [] \<and> \<not> inkChar (hd e)) encs" "inkChar c"
  shows "front encs (c # s) = None"
  unfolding front_None
proof
  fix e assume "e \<in> set encs"
  with assms(1) have "e \<noteq> []" "\<not> inkChar (hd e)" by (auto simp: list_all_iff)
  with assms(2) show "e = [] \<or> \<not> prefix e (c # s)" by (cases e) auto
qed

lemma TrimSpace_ink:
  assumes "s \<noteq> []" "inkChar (hd s)" "inkChar (last s)"
  shows "TrimSpace s = s"
proof -
  have "front spaceEncodings s = None"
    using assms front_ink [OF space_not_ink(1)] by (cases s) auto
  moreover have "front (List.map rev spaceEncodings) (rev s) = None"
    using assms front_ink [OF space_not_ink(2)] by (cases s rule: rev_cases) auto
  ultimately show ?thesis by (simp add: TrimSpace_def TrimLeftSpace_def TrimRightSpace_def strip_id)
qed

lemma plainName_facts:
  assumes "plainName k"
  shows "validateName k = None" "TrimSpace k = k" "CHR ''='' \<notin> set k" "inkChar (hd k)" "hd k \<noteq> CHR ''#''"
proof -
  have all: "list_all (\<lambda>c. inkChar c \<and> c \<noteq> CHR ''='' \<and> c \<noteq> CHR ''#'') k" and ne: "k \<noteq> []"
    using assms nameChar_ink by (auto simp: plainName_def list_all_iff)
  then show trim: "TrimSpace k = k" by (intro TrimSpace_ink) (auto simp: list_all_iff)
  show "CHR ''='' \<notin> set k" "inkChar (hd k)" "hd k \<noteq> CHR ''#''" using all ne by (auto simp: list_all_iff)
  show "validateName k = None" using assms trim by (simp add: validateName_def plainName_def)
qed

lemma unquote_literal: "unquote (CHR 0x27 # v @ [CHR 0x27]) = v"
  by (simp add: unquote_def)

lemma ink_quote: "inkChar CHR 0x27"
  by (simp add: inkChar_def)

lemma dotenvLines_quoted:
  assumes "plainName (fst kv)" "fst kv \<notin> fst ` set entries"
  shows "dotenvLines (quotedLine kv # ls) entries = dotenvLines ls (entries @ [kv])"
proof -
  obtain k v where kv: "kv = (k, v)" by force
  note name = plainName_facts [of k]
  let ?val = "CHR 0x27 # v @ [CHR 0x27]"
  have k: "plainName k" "k \<noteq> []" using assms(1) by (auto simp: kv plainName_def)
  have line: "TrimSpace (quotedLine kv) = k @ CHR ''='' # ?val"
    using k name(4) ink_quote by (subst TrimSpace_ink) (auto simp: quotedLine_def kv)
  have val: "TrimSpace ?val = ?val" using ink_quote by (intro TrimSpace_ink) auto
  have key: "takeWhile (\<lambda>c. c \<noteq> CHR ''='') (k @ CHR ''='' # ?val) = k"
    "dropWhile (\<lambda>c. c \<noteq> CHR ''='') (k @ CHR ''='' # ?val) = CHR ''='' # ?val"
    using name(3) [OF k(1)] by (auto simp: takeWhile_append dropWhile_append takeWhile_eq_all_conv)
  have "\<not> prefix ''#'' (k @ CHR ''='' # ?val)" using name(5) [OF k(1)] k(2) by (cases k) auto
  with k name(1,2) line val key assms(2) unquote_literal [of v] show ?thesis
    by (simp add: Let_def kv)
qed

lemma dotenvLines_roundtrip:
  "list_all (\<lambda>kv. plainName (fst kv)) kvs \<Longrightarrow> distinct (List.map fst (entries @ kvs)) \<Longrightarrow>
     dotenvLines (List.map quotedLine kvs) entries = Inr (entries @ kvs)"
proof (induction kvs arbitrary: entries)
  case (Cons kv kvs)
  then have "dotenvLines (quotedLine kv # List.map quotedLine kvs) entries =
      dotenvLines (List.map quotedLine kvs) (entries @ [kv])"
    by (intro dotenvLines_quoted) auto
  with Cons.IH [of "entries @ [kv]"] Cons.prems show ?case by simp
qed simp

lemma quotedLine_newline:
  assumes "plainName (fst kv)" "newline \<notin> set (snd kv)"
  shows "newline \<notin> set (quotedLine kv)"
proof -
  have "newline \<notin> set (fst kv)"
  proof
    assume "newline \<in> set (fst kv)"
    then have "nameChar newline" using assms(1) by (auto simp: plainName_def list_all_iff)
    then show False by (simp add: nameChar_def alnum_def)
  qed
  with assms(2) show ?thesis by (simp add: quotedLine_def)
qed

lemma quotedLine_dropCR: "dropCR (quotedLine kv) = quotedLine kv"
  by (simp add: quotedLine_def dropCR_def)

lemma Scanner_lines:
  assumes "\<And>x. x \<in> set xs \<Longrightarrow> newline \<notin> set (f x) \<and> length (f x) < n \<and> dropCR (f x) = f x"
  shows "Scanner n (concat (List.map (\<lambda>x. f x @ [newline]) xs)) = (List.map f xs, False)"
proof -
  have "splitByte newline (concat (List.map (\<lambda>x. f x @ [newline]) xs)) = List.map f xs @ [[]]"
    using assms by (induction xs) (simp_all add: splitByte_append_sep splitByte_free)
  then have "rawLines (concat (List.map (\<lambda>x. f x @ [newline]) xs)) = List.map f xs"
    by (simp add: rawLines_def)
  moreover have "takeWhile (\<lambda>l. length l < n) (List.map f xs) = List.map f xs"
    unfolding takeWhile_eq_all_conv using assms by auto
  moreover have "\<not> list_ex (\<lambda>l. n \<le> length l) (List.map f xs)"
    using assms by (fastforce simp: list_ex_iff)
  moreover have "List.map dropCR (List.map f xs) = List.map f xs" using assms by simp
  ultimately show ?thesis by (simp only: Scanner_def Let_def simp_thms)
qed

section \<open>Properties\<close>

text \<open>C13: No operation breaks the metadata. After any sequence of operations, whatever their
  arguments and whether they succeed, the metadata in memory and on disk has its sets in order,
  an active set that exists or none, and in each set keys that mirror the entries, entries in
  the order of distinct names, and distinct targets.\<close>

theorem envset_invariant:
  assumes "managerInv m"
  shows "managerInv (fold (\<lambda>(env, op) m. envRun env op m) ops m)"
  using assms by (induction ops arbitrary: m) (auto simp: envRun_inv)

definition mapStore :: "(string \<Rightarrow> string \<Rightarrow> string option) valueStore" where
  "mapStore = \<lparr>vst_Set = (\<lambda>scope key v vs. (vs(scope := (vs scope)(key \<mapsto> v)), None)),
     vst_Get = (\<lambda>scope key vs. (vs, case vs scope key of None \<Rightarrow> Inl StoreMissing | Some v \<Rightarrow> Inr v)),
     vst_Delete = (\<lambda>scope key vs. (vs(scope := (vs scope)(key := None)), None)),
     vst_SetBytes = None, vst_GetBytes = None\<rparr>"

definition exampleEnvEnv :: "(string \<Rightarrow> string \<Rightarrow> string option) envEnv" where
  "exampleEnvEnv = \<lparr>ev_Identity = \<lparr>ie_parseURL = (\<lambda>_. None), ie_showURL = (\<lambda>_. ''''), ie_SHA256 = (\<lambda>s. s)\<rparr>,
     ev_Store = mapStore, ev_Now = 1000, ev_Mkdir = None, ev_Lock = None, ev_Write = None\<rparr>"

definition exampleManager :: "(string \<Rightarrow> string \<Rightarrow> string option) envManager" where
  "exampleManager = \<lparr>mg_Meta = \<lparr>md_Version = metadataVersion,
       md_Identity = \<lparr>id_RemoteURL = '''', id_CanonicalPath = ''/w''\<rparr>, md_Active = ''dev'',
       md_Sets = [(''dev'', newSet exampleEnvEnv ''dev'' False 0)]\<rparr>,
     mg_File = NoFile, mg_Values = (\<lambda>_ _. None)\<rparr>"

lemma exampleManager_inv: "managerInv exampleManager"
  by (simp add: managerInv_def exampleManager_def metaInv_def mapKeys_def metadataVersion_def)

lemma envset_invariant_witness:
  "managerInv (fold (\<lambda>(env, op) m. envRun env op m)
     [(exampleEnvEnv, DoPut ''dev'' (envEntry ''TOKEN'') ''t0''), (exampleEnvEnv, DoClone ''dev'' ''ci''),
      (exampleEnvEnv, DoRemove ''dev'')] exampleManager)"
  by (rule envset_invariant [OF exampleManager_inv])

text \<open>The dotenv format round-trips. A file with one line \<open>KEY='value'\<close> for each of a list of
  entries with distinct valid names parses to exactly that list, whatever bytes other than a
  line break the values contain: quotes, comment signs, backslashes and spaces included.\<close>

lemma envset_dotenv_roundtrip:
  assumes "list_all (\<lambda>kv. plainName (fst kv) \<and> newline \<notin> set (snd kv) \<and>
      length (quotedLine kv) < maxScanToken) kvs"
    and "distinct (List.map fst kvs)" "di_Regular info" "\<not> di_Symlink info" "di_OwnerOnly info" "\<not> di_Inside info"
  shows "ParseDotenv info checkInside (concat (List.map (\<lambda>kv. quotedLine kv @ [newline]) kvs)) = Inr kvs"
proof -
  have "Scanner maxScanToken (concat (List.map (\<lambda>kv. quotedLine kv @ [newline]) kvs)) =
      (List.map quotedLine kvs, False)"
    using assms(1) quotedLine_newline quotedLine_dropCR by (intro Scanner_lines) (auto simp: list_all_iff)
  moreover have "dotenvLines (List.map quotedLine kvs) [] = Inr kvs"
    using assms(1,2) dotenvLines_roundtrip [of kvs "[]"] by (simp add: list_all_iff)
  ultimately show ?thesis using assms(3-6) by (simp add: ParseDotenv_def)
qed

lemma envset_dotenv_roundtrip_witness:
  "ParseDotenv \<lparr>di_Regular = True, di_Symlink = False, di_OwnerOnly = True, di_Inside = False\<rparr> True
     (concat (List.map (\<lambda>kv. quotedLine kv @ [newline]) [(''A'', ''x # y''), (''B.2'', ''\"it=s'')])) =
   Inr [(''A'', ''x # y''), (''B.2'', ''\"it=s'')]"
proof (rule envset_dotenv_roundtrip)
  show "list_all (\<lambda>kv. plainName (fst kv) \<and> newline \<notin> set (snd kv) \<and> length (quotedLine kv) < maxScanToken)
      [(''A'', ''x # y''), (''B.2'', ''\"it=s'')]"
    by (simp add: plainName_def nameChar_def alnum_def quotedLine_def maxScanToken_def)
qed simp_all

text \<open>
  A double-quoted value with a comment behind it is taken to go on, over the following lines, up
  to the next line that ends in a quote: the entries in between are swallowed into the value.
\<close>

lemma envset_dotenv_swallows:
  "dotenvLines [''A=\"x\" #c'', ''B=\"y\"''] [] = Inr [(''A'', ''x\" #c'' @ [newline] @ ''B=\"y'')]"
proof -
  have trim: "TrimSpace ''A=\"x\" #c'' = ''A=\"x\" #c''" "TrimSpace ''A'' = ''A''" "TrimSpace ''\"x\" #c'' = ''\"x\" #c''"
    by (rule TrimSpace_ink; simp add: inkChar_def)+
  have name: "validateName ''A'' = None"
    by (simp add: validateName_def trim(2) nameChar_def alnum_def)
  show ?thesis by (simp add: trim name unquote_def Let_def)
qed

end
