(* ===== verification/Access.thy ===== *)
theory Access
  imports GoStrings
begin

text \<open>
  Agent requests, leases and workspace grants: \<open>src/internal/access/access.go\<close>.

  A manager is a project root and the contents of its state file.  Every operation runs in an
  environment that fixes what the operating system answers: the polls of the lock, the clock,
  the random bytes, and how far \<open>saveAtomic\<close> gets.  The file is modelled by the state that
  \<open>encoding/json\<close> decodes from it, or as one that does not decode; text is taken to be valid
  UTF-8, which JSON writes and reads back unchanged.
  The value a Go function returns next to a non-nil error is not modelled.
\<close>

section \<open>Data\<close>

definition stateVersion :: int where "stateVersion = 2"
definition DefaultRequestTTL :: duration where "DefaultRequestTTL = 15 * minute"
definition DefaultLeaseTTL :: duration where "DefaultLeaseTTL = hour"
definition DefaultWorkspaceTTL :: duration where "DefaultWorkspaceTTL = 2 * hour"
definition MaxLeaseTTL :: duration where "MaxLeaseTTL = 24 * hour"
definition maxPendingSession :: nat where "maxPendingSession = 32"

datatype requestKind = RequestSecret | RequestLease | RequestWorkspace

datatype requestStatus =
  StatusPending | StatusFulfilled | StatusApproved | StatusDenied | StatusExpired

datatype accessError =
    ErrNotFound
  | ErrNotPending requestStatus
  | ErrUnauthorized
  | ErrSessionRequired
  | ErrEnvironmentRequired
  | ErrSecretRequired
  | ErrCommandRequired
  | ErrArgvRequired
  | ErrTTL
  | ErrTooManyPending
  | ErrKind requestKind requestKind
  | ErrCommit string
  | ErrSystem string
  | ErrSpinning
  | ErrParse
  | ErrVersion int

record request =
  rq_ID :: string
  rq_Kind :: requestKind
  rq_Status :: requestStatus
  rq_SessionID :: string
  rq_Environment :: string
  rq_SecretAlias :: string
  rq_SecretKey :: string
  rq_Commands :: "string list"
  rq_FirstArgv :: "string list"
  rq_Reason :: string
  rq_RequestedTTL :: duration
  rq_CreatedAt :: time
  rq_ExpiresAt :: time
  rq_ResolvedAt :: "time option"
  rq_ResultingLeaseID :: string

record lease =
  ls_ID :: string
  ls_RequestID :: string
  ls_SessionID :: string
  ls_Environment :: string
  ls_Commands :: "string list"
  ls_CreatedAt :: time
  ls_ExpiresAt :: time
  ls_RevokedAt :: "time option"

record workspaceGrant =
  wg_ID :: string
  wg_RequestID :: string
  wg_SessionID :: string
  wg_ProjectRoot :: string
  wg_Environment :: string
  wg_Network :: string
  wg_CreatedAt :: time
  wg_ExpiresAt :: time
  wg_PausedAt :: "time option"
  wg_RevokedAt :: "time option"

record accessState =
  st_Version :: int
  st_Requests :: "request list"
  st_Leases :: "lease list"
  st_WorkspaceGrants :: "workspaceGrant list"

datatype stateFile = NoFile | ReadError string | Malformed | Stored accessState

record manager =
  m_file :: stateFile
  m_root :: string

text \<open>What one poll of the lock directory sees, and how far an atomic save gets.\<close>

datatype lockPoll = LockMade | LockError string | LockBusy bool bool

datatype saveOutcome = SaveOk | SaveFailed string | ChmodFailed string

record osEnv =
  os_lock :: "lockPoll list"
  os_now :: time
  os_rand :: "string + bytes"
  os_save :: saveOutcome

section \<open>Text helpers\<close>

fun contains :: "string list \<Rightarrow> string \<Rightarrow> bool" where
  "contains [] target \<longleftrightarrow> False"
| "contains (v # vs) target \<longleftrightarrow> v = target \<or> contains vs target"

definition validateIdentity :: "string \<Rightarrow> string \<Rightarrow> accessError option" where
  "validateIdentity sessionID environment =
     (if TrimSpace sessionID = [] then Some ErrSessionRequired
      else if TrimSpace environment = [] then Some ErrEnvironmentRequired
      else None)"

definition randomID :: "string \<Rightarrow> string + bytes \<Rightarrow> accessError + string" where
  "randomID pre rand =
     (case rand of
        Inl e \<Rightarrow> Err (ErrSystem e)
      | Inr value \<Rightarrow> Ok (pre @ ''_'' @ hexEncode value))"

text \<open>The loop of \<open>canonicalCommands\<close>, with the commands seen so far.\<close>

fun collectCommands :: "string set \<Rightarrow> string list \<Rightarrow> string list" where
  "collectCommands seen [] = []"
| "collectCommands seen (c # cs) =
     (let command = TrimSpace c in
      if command \<noteq> [] \<and> command \<notin> seen
      then command # collectCommands (insert command seen) cs
      else collectCommands seen cs)"

definition canonicalCommands :: "string list \<Rightarrow> string list" where
  "canonicalCommands commands = sort (collectCommands {} commands)"

text \<open>
  The \<open>strings.Map\<close> of \<open>cleanReason\<close>: control characters become blanks; an invalid byte is a
  \<open>RuneError\<close>, which is written out in UTF-8.
\<close>

function blankControls :: "bytes \<Rightarrow> bytes" where
  "blankControls s =
     (if s = [] then []
      else let (r, n) = decodeRune s in
           (if r < 0x20 \<or> r = 0x7F then '' ''
            else if r = runeError \<and> n = 1 then runeErrorBytes
            else take n s) @ blankControls (drop n s))"
  by pat_completeness auto
termination
proof (relation "measure length", simp, clarify)
  fix s :: bytes and r n
  assume "s \<noteq> []" "(r, n) = decodeRune s"
  then show "(drop n s, s) \<in> measure length"
    using decodeRune_pos [of s] by (cases s) (auto simp: prod_eq_iff)
qed

declare blankControls.simps [simp del]

definition cleanReason :: "bytes \<Rightarrow> bytes" where
  "cleanReason reason =
     (let reason = Join (Fields (blankControls (TrimSpace reason))) '' '' in
      if length reason > 500 then take 500 reason else reason)"

definition sameRequest :: "request \<Rightarrow> request \<Rightarrow> bool" where
  "sameRequest a b \<longleftrightarrow>
     rq_Kind a = rq_Kind b \<and> rq_Environment a = rq_Environment b \<and>
     rq_SecretAlias a = rq_SecretAlias b \<and> rq_SecretKey a = rq_SecretKey b \<and>
     Join (rq_Commands a) [CHR 0x00] = Join (rq_Commands b) [CHR 0x00]"

section \<open>Loading, locking, saving\<close>

definition emptyState :: accessState where
  "emptyState = \<lparr>st_Version = stateVersion, st_Requests = [], st_Leases = [], st_WorkspaceGrants = []\<rparr>"

definition load :: "manager \<Rightarrow> accessError + accessState" where
  "load m =
     (case m_file m of
        NoFile \<Rightarrow> Ok emptyState
      | ReadError e \<Rightarrow> Err (ErrSystem e)
      | Malformed \<Rightarrow> Err ErrParse
      | Stored st \<Rightarrow>
          if st_Version st \<noteq> 1 \<and> st_Version st \<noteq> stateVersion then Err (ErrVersion (st_Version st))
          else if st_Version st = 1 then Ok (st\<lparr>st_Version := stateVersion\<rparr>)
          else Ok st)"

text \<open>
  The loop of \<open>withLock\<close> over what successive polls see; a busy poll says whether the lock
  directory is stale and whether the deadline has passed.  A stale lock is removed and tried
  again at once, before the deadline is looked at, so a stale lock that cannot be removed keeps
  the loop going for good.  \<open>ErrSpinning\<close> stands for a call that is still in this loop when the
  polls end: it has not returned, and an answer that a caller makes of this error is none of the code's.
\<close>

fun withLock :: "lockPoll list \<Rightarrow> accessError option" where
  "withLock [] = Some ErrSpinning"
| "withLock (LockMade # polls) = None"
| "withLock (LockError e # polls) = Some (ErrSystem e)"
| "withLock (LockBusy stale late # polls) =
     (if stale then withLock polls
      else if late then Some (ErrSystem ''timed out waiting for access-state lock'')
      else withLock polls)"

definition lockReturns :: "osEnv \<Rightarrow> bool" where
  "lockReturns env \<longleftrightarrow> withLock (os_lock env) \<noteq> Some ErrSpinning"

definition saveAtomic :: "saveOutcome \<Rightarrow> accessState \<Rightarrow> manager \<Rightarrow> manager \<times> accessError option" where
  "saveAtomic outcome st m =
     (case outcome of
        SaveOk \<Rightarrow> (m\<lparr>m_file := Stored st\<rparr>, None)
      | SaveFailed e \<Rightarrow> (m, Some (ErrSystem e))
      | ChmodFailed e \<Rightarrow> (m\<lparr>m_file := Stored st\<rparr>, Some (ErrSystem e)))"

text \<open>
  A change of the state that may also act on the world \<open>'w\<close> (the secret store a commit
  callback writes to), and \<open>mutate\<close>, which runs it between load and save under the lock.
\<close>

type_synonym ('w, 'a) change = "'w \<Rightarrow> accessState \<Rightarrow> 'w \<times> (accessError + accessState \<times> 'a)"

definition mutate ::
  "osEnv \<Rightarrow> ('w, 'a) change \<Rightarrow> manager \<Rightarrow> 'w \<Rightarrow> manager \<times> 'w \<times> (accessError + 'a)" where
  "mutate env f m w =
     (case withLock (os_lock env) of
        Some e \<Rightarrow> (m, w, Err e)
      | None \<Rightarrow>
          (case load m of
             Inl e \<Rightarrow> (m, w, Err e)
           | Inr st \<Rightarrow>
               (case f w st of
                  (w', Inl e) \<Rightarrow> (m, w', Err e)
                | (w', Inr (st', a)) \<Rightarrow>
                    (case saveAtomic (os_save env) st' m of
                       (m', None) \<Rightarrow> (m', w', Ok a)
                     | (m', Some e) \<Rightarrow> (m', w', Err e)))))"

definition expireRequest :: "time \<Rightarrow> request \<Rightarrow> request" where
  "expireRequest now r =
     (if rq_Status r = StatusPending \<and> \<not> now < rq_ExpiresAt r
      then r\<lparr>rq_Status := StatusExpired, rq_ResolvedAt := Some now\<rparr> else r)"

definition expire :: "time \<Rightarrow> accessState \<Rightarrow> accessState" where
  "expire now st = st\<lparr>st_Requests := List.map (expireRequest now) (st_Requests st)\<rparr>"

section \<open>Requests\<close>

text \<open>
  The loop of \<open>createRequest\<close>: the first pending request of the session that asks for the
  same, or else the number of pending ones.
\<close>

fun scanPending :: "request \<Rightarrow> nat \<Rightarrow> request list \<Rightarrow> nat + request" where
  "scanPending candidate pending [] = Inl pending"
| "scanPending candidate pending (existing # rs) =
     (if rq_SessionID existing = rq_SessionID candidate \<and> rq_Status existing = StatusPending
      then if sameRequest existing candidate then Inr existing
           else scanPending candidate (pending + 1) rs
      else scanPending candidate pending rs)"

definition createChange :: "osEnv \<Rightarrow> request \<Rightarrow> (unit, request) change" where
  "createChange env candidate w st =
     (let now = os_now env;
          st = expire now st
      in case scanPending candidate 0 (st_Requests st) of
           Inr existing \<Rightarrow> (w, Ok (st, existing))
         | Inl pending \<Rightarrow>
             if pending \<ge> maxPendingSession then (w, Err ErrTooManyPending)
             else (case randomID ''req'' (os_rand env) of
                     Inl e \<Rightarrow> (w, Err e)
                   | Inr rid \<Rightarrow>
                       let r = candidate\<lparr>rq_ID := rid, rq_Status := StatusPending, rq_CreatedAt := now,
                                         rq_ExpiresAt := now + DefaultRequestTTL\<rparr>
                       in (w, Ok (st\<lparr>st_Requests := st_Requests st @ [r]\<rparr>, r))))"

definition createRequest ::
  "osEnv \<Rightarrow> request \<Rightarrow> manager \<Rightarrow> manager \<times> unit \<times> (accessError + request)" where
  "createRequest env candidate m = mutate env (createChange env candidate) m ()"

text \<open>The zero value of \<open>Request\<close>, which the composite literals start from.\<close>

definition zeroRequest :: request where
  "zeroRequest = \<lparr>rq_ID = [], rq_Kind = RequestSecret, rq_Status = StatusPending, rq_SessionID = [],
     rq_Environment = [], rq_SecretAlias = [], rq_SecretKey = [], rq_Commands = [], rq_FirstArgv = [],
     rq_Reason = [], rq_RequestedTTL = 0, rq_CreatedAt = 0, rq_ExpiresAt = 0, rq_ResolvedAt = None,
     rq_ResultingLeaseID = []\<rparr>"

definition CreateWorkspaceRequest ::
  "osEnv \<Rightarrow> string \<Rightarrow> string \<Rightarrow> string list \<Rightarrow> duration \<Rightarrow> string \<Rightarrow> manager \<Rightarrow>
   manager \<times> unit \<times> (accessError + request)" where
  "CreateWorkspaceRequest env sessionID environment firstArgv ttl reason m =
     (case validateIdentity sessionID environment of
        Some e \<Rightarrow> (m, (), Err e)
      | None \<Rightarrow>
          if firstArgv = [] \<or> TrimSpace (hd firstArgv) = [] then (m, (), Err ErrArgvRequired)
          else let ttl = (if ttl \<le> 0 then DefaultWorkspaceTTL else ttl) in
               if ttl > MaxLeaseTTL then (m, (), Err ErrTTL)
               else createRequest env (zeroRequest\<lparr>rq_Kind := RequestWorkspace,
                      rq_SessionID := sessionID, rq_Environment := environment,
                      rq_FirstArgv := firstArgv, rq_RequestedTTL := ttl,
                      rq_Reason := cleanReason reason\<rparr>) m)"

definition CreateSecretRequestForCommands ::
  "osEnv \<Rightarrow> string \<Rightarrow> string \<Rightarrow> string \<Rightarrow> string \<Rightarrow> string list \<Rightarrow> string \<Rightarrow> manager \<Rightarrow>
   manager \<times> unit \<times> (accessError + request)" where
  "CreateSecretRequestForCommands env sessionID environment alias key commands reason m =
     (case validateIdentity sessionID environment of
        Some e \<Rightarrow> (m, (), Err e)
      | None \<Rightarrow>
          if TrimSpace alias = [] \<or> TrimSpace key = [] then (m, (), Err ErrSecretRequired)
          else createRequest env (zeroRequest\<lparr>rq_Kind := RequestSecret,
                 rq_SessionID := sessionID, rq_Environment := environment,
                 rq_SecretAlias := alias, rq_SecretKey := key,
                 rq_Commands := canonicalCommands commands, rq_Reason := cleanReason reason\<rparr>) m)"

definition CreateSecretRequest ::
  "osEnv \<Rightarrow> string \<Rightarrow> string \<Rightarrow> string \<Rightarrow> string \<Rightarrow> string \<Rightarrow> manager \<Rightarrow>
   manager \<times> unit \<times> (accessError + request)" where
  "CreateSecretRequest env sessionID environment alias key reason m =
     CreateSecretRequestForCommands env sessionID environment alias key [] reason m"

definition CreateLeaseRequest ::
  "osEnv \<Rightarrow> string \<Rightarrow> string \<Rightarrow> string list \<Rightarrow> duration \<Rightarrow> string \<Rightarrow> manager \<Rightarrow>
   manager \<times> unit \<times> (accessError + request)" where
  "CreateLeaseRequest env sessionID environment commands ttl reason m =
     (case validateIdentity sessionID environment of
        Some e \<Rightarrow> (m, (), Err e)
      | None \<Rightarrow>
          let commands = canonicalCommands commands in
          if commands = [] then (m, (), Err ErrCommandRequired)
          else let ttl = (if ttl \<le> 0 then DefaultLeaseTTL else ttl);
                   ttl = (if ttl > MaxLeaseTTL then MaxLeaseTTL else ttl)
               in createRequest env (zeroRequest\<lparr>rq_Kind := RequestLease,
                    rq_SessionID := sessionID, rq_Environment := environment,
                    rq_Commands := commands, rq_Reason := cleanReason reason,
                    rq_RequestedTTL := ttl\<rparr>) m)"

definition Request :: "osEnv \<Rightarrow> string \<Rightarrow> manager \<Rightarrow> accessError + request" where
  "Request env rid m =
     (case load m of
        Inl e \<Rightarrow> Err e
      | Inr st \<Rightarrow>
          (case find (\<lambda>r. rq_ID r = rid) (st_Requests st) of
             None \<Rightarrow> Err ErrNotFound
           | Some r \<Rightarrow>
               Ok (if rq_Status r = StatusPending \<and> \<not> os_now env < rq_ExpiresAt r
                   then r\<lparr>rq_Status := StatusExpired\<rparr> else r)))"

definition expireChange :: "osEnv \<Rightarrow> (unit, unit) change" where
  "expireChange env w st = (w, Ok (expire (os_now env) st, ()))"

definition Requests :: "osEnv \<Rightarrow> manager \<Rightarrow> manager \<times> (accessError + request list)" where
  "Requests env m =
     (case mutate env (expireChange env) m () of
        (m', _, Inl e) \<Rightarrow> (m', Err e)
      | (m', _, Inr _) \<Rightarrow>
          (case load m' of
             Inl e \<Rightarrow> (m', Err e)
           | Inr st \<Rightarrow> (m', Ok (sort_key (\<lambda>r. - rq_CreatedAt r) (st_Requests st)))))"

section \<open>Resolving requests\<close>

fun indexOf :: "('a \<Rightarrow> bool) \<Rightarrow> 'a list \<Rightarrow> nat option" where
  "indexOf P [] = None"
| "indexOf P (x # xs) = (if P x then Some 0 else map_option Suc (indexOf P xs))"

text \<open>
  The body of \<open>resolveRequest\<close>.  The callback gets the state and a copy of the request it
  may update (the pointer in the code) and returns both; \<open>kind\<close> is \<open>None\<close> for the empty kind.
\<close>

definition resolveChange ::
  "osEnv \<Rightarrow> string \<Rightarrow> requestKind option \<Rightarrow> requestStatus \<Rightarrow>
   ('w \<Rightarrow> accessState \<Rightarrow> request \<Rightarrow> time \<Rightarrow> 'w \<times> (accessError + accessState \<times> request \<times> 'a)) \<Rightarrow>
   ('w, 'a) change" where
  "resolveChange env rid kind status fn w st =
     (let now = os_now env;
          st = expire now st
      in case indexOf (\<lambda>r. rq_ID r = rid) (st_Requests st) of
           None \<Rightarrow> (w, Err ErrNotFound)
         | Some i \<Rightarrow>
             let r = st_Requests st ! i in
             if rq_Status r \<noteq> StatusPending then (w, Err (ErrNotPending (rq_Status r)))
             else (case (case kind of None \<Rightarrow> None | Some k \<Rightarrow> if rq_Kind r \<noteq> k then Some k else None) of
                     Some k \<Rightarrow> (w, Err (ErrKind (rq_Kind r) k))
                   | None \<Rightarrow>
                       (case fn w st r now of
                          (w', Inl e) \<Rightarrow> (w', Err e)
                        | (w', Inr (st', r', a)) \<Rightarrow>
                            (w', Ok (st'\<lparr>st_Requests := (st_Requests st')[i :=
                                 r'\<lparr>rq_Status := status, rq_ResolvedAt := Some now\<rparr>]\<rparr>, a)))))"

text \<open>The callbacks of the three resolving operations.\<close>

definition commitSecret ::
  "(request \<Rightarrow> 'w \<Rightarrow> 'w \<times> string option) option \<Rightarrow> 'w \<Rightarrow> accessState \<Rightarrow> request \<Rightarrow> time \<Rightarrow>
   'w \<times> (accessError + accessState \<times> request \<times> request)" where
  "commitSecret commit w st r now =
     (case commit of
        None \<Rightarrow> (w, Ok (st, r, r))
      | Some c \<Rightarrow> (case c r w of
                     (w', Some e) \<Rightarrow> (w', Err (ErrCommit e))
                   | (w', None) \<Rightarrow> (w', Ok (st, r, r))))"

definition FulfillSecretWith ::
  "osEnv \<Rightarrow> string \<Rightarrow> (request \<Rightarrow> 'w \<Rightarrow> 'w \<times> string option) option \<Rightarrow> manager \<Rightarrow> 'w \<Rightarrow>
   manager \<times> 'w \<times> (accessError + request)" where
  "FulfillSecretWith env rid commit m w =
     (case mutate env (resolveChange env rid (Some RequestSecret) StatusFulfilled
             (commitSecret commit)) m w of
        (m', w', Inl e) \<Rightarrow> (m', w', Err e)
      | (m', w', Inr r) \<Rightarrow> (m', w', Ok (r\<lparr>rq_Status := StatusFulfilled\<rparr>)))"

definition FulfillSecret :: "osEnv \<Rightarrow> string \<Rightarrow> manager \<Rightarrow> manager \<times> unit \<times> (accessError + request)" where
  "FulfillSecret env rid m = FulfillSecretWith env rid None m ()"

text \<open>The lifetime both approvals compute: the human's, else the requested, else the default.\<close>

definition approvedTTL :: "duration \<Rightarrow> duration \<Rightarrow> duration \<Rightarrow> duration" where
  "approvedTTL ttl requested dflt =
     (let ttl = (if ttl \<le> 0 then requested else ttl) in if ttl \<le> 0 then dflt else ttl)"

definition grantLease ::
  "osEnv \<Rightarrow> duration \<Rightarrow> unit \<Rightarrow> accessState \<Rightarrow> request \<Rightarrow> time \<Rightarrow>
   unit \<times> (accessError + accessState \<times> request \<times> lease)" where
  "grantLease env ttl w st r now =
     (let ttl = approvedTTL ttl (rq_RequestedTTL r) DefaultLeaseTTL in
      if ttl > MaxLeaseTTL then (w, Err ErrTTL)
      else (case randomID ''lease'' (os_rand env) of
              Inl e \<Rightarrow> (w, Err e)
            | Inr lid \<Rightarrow>
                let l = \<lparr>ls_ID = lid, ls_RequestID = rq_ID r, ls_SessionID = rq_SessionID r,
                         ls_Environment = rq_Environment r, ls_Commands = rq_Commands r,
                         ls_CreatedAt = now, ls_ExpiresAt = now + ttl, ls_RevokedAt = None\<rparr>
                in (w, Ok (st\<lparr>st_Leases := st_Leases st @ [l]\<rparr>,
                          r\<lparr>rq_ResultingLeaseID := lid\<rparr>, l))))"

definition ApproveLease ::
  "osEnv \<Rightarrow> string \<Rightarrow> duration \<Rightarrow> manager \<Rightarrow> manager \<times> unit \<times> (accessError + lease)" where
  "ApproveLease env rid ttl m =
     mutate env (resolveChange env rid (Some RequestLease) StatusApproved (grantLease env ttl)) m ()"

definition grantWorkspace ::
  "osEnv \<Rightarrow> string \<Rightarrow> duration \<Rightarrow> unit \<Rightarrow> accessState \<Rightarrow> request \<Rightarrow> time \<Rightarrow>
   unit \<times> (accessError + accessState \<times> request \<times> workspaceGrant)" where
  "grantWorkspace env root ttl w st r now =
     (let ttl = approvedTTL ttl (rq_RequestedTTL r) DefaultWorkspaceTTL in
      if ttl > MaxLeaseTTL then (w, Err ErrTTL)
      else (case randomID ''trust'' (os_rand env) of
              Inl e \<Rightarrow> (w, Err e)
            | Inr gid \<Rightarrow>
                let g = \<lparr>wg_ID = gid, wg_RequestID = rq_ID r, wg_SessionID = rq_SessionID r,
                         wg_ProjectRoot = root, wg_Environment = rq_Environment r,
                         wg_Network = ''normal'', wg_CreatedAt = now, wg_ExpiresAt = now + ttl,
                         wg_PausedAt = None, wg_RevokedAt = None\<rparr>
                in (w, Ok (st\<lparr>st_WorkspaceGrants := st_WorkspaceGrants st @ [g]\<rparr>,
                          r\<lparr>rq_ResultingLeaseID := gid\<rparr>, g))))"

definition ApproveWorkspace ::
  "osEnv \<Rightarrow> string \<Rightarrow> duration \<Rightarrow> manager \<Rightarrow> manager \<times> unit \<times> (accessError + workspaceGrant)" where
  "ApproveWorkspace env rid ttl m =
     mutate env (resolveChange env rid (Some RequestWorkspace) StatusApproved
       (grantWorkspace env (m_root m) ttl)) m ()"

text \<open>A nil callback.\<close>

definition noCallback ::
  "unit \<Rightarrow> accessState \<Rightarrow> request \<Rightarrow> time \<Rightarrow> unit \<times> (accessError + accessState \<times> request \<times> unit)" where
  "noCallback w st r now = (w, Ok (st, r, ()))"

definition Deny :: "osEnv \<Rightarrow> string \<Rightarrow> manager \<Rightarrow> manager \<times> unit \<times> (accessError + unit)" where
  "Deny env rid m = mutate env (resolveChange env rid None StatusDenied noCallback) m ()"

section \<open>Authorization and revocation\<close>

fun authorizeLoop :: "time \<Rightarrow> string \<Rightarrow> string \<Rightarrow> string \<Rightarrow> lease list \<Rightarrow> bool" where
  "authorizeLoop now sessionID environment command [] \<longleftrightarrow> False"
| "authorizeLoop now sessionID environment command (l # ls) \<longleftrightarrow>
     (if ls_SessionID l \<noteq> sessionID \<or> ls_Environment l \<noteq> environment \<or> ls_RevokedAt l \<noteq> None
         \<or> \<not> now < ls_ExpiresAt l
      then authorizeLoop now sessionID environment command ls
      else if contains (ls_Commands l) command then True
      else authorizeLoop now sessionID environment command ls)"

definition Authorize :: "osEnv \<Rightarrow> string \<Rightarrow> string \<Rightarrow> string \<Rightarrow> manager \<Rightarrow> accessError + unit" where
  "Authorize env sessionID environment command m =
     (case load m of
        Inl e \<Rightarrow> Err e
      | Inr st \<Rightarrow>
          if authorizeLoop (os_now env) sessionID environment command (st_Leases st) then Ok ()
          else Err ErrUnauthorized)"

definition Leases :: "string \<Rightarrow> manager \<Rightarrow> accessError + lease list" where
  "Leases sessionID m =
     (case load m of
        Inl e \<Rightarrow> Err e
      | Inr st \<Rightarrow> Ok (sort_key (\<lambda>l. - ls_CreatedAt l)
          (List.filter (\<lambda>l. sessionID = [] \<or> ls_SessionID l = sessionID) (st_Leases st))))"

definition revokeChange :: "osEnv \<Rightarrow> string \<Rightarrow> string \<Rightarrow> (unit, unit) change" where
  "revokeChange env lid sessionID w st =
     (case indexOf (\<lambda>l. ls_ID l = lid) (st_Leases st) of
        None \<Rightarrow> (w, Err ErrNotFound)
      | Some i \<Rightarrow>
          let l = st_Leases st ! i in
          if sessionID \<noteq> [] \<and> ls_SessionID l \<noteq> sessionID then (w, Err ErrUnauthorized)
          else let l' = (if ls_RevokedAt l = None then l\<lparr>ls_RevokedAt := Some (os_now env)\<rparr> else l)
               in (w, Ok (st\<lparr>st_Leases := (st_Leases st)[i := l']\<rparr>, ())))"

definition Revoke ::
  "osEnv \<Rightarrow> string \<Rightarrow> string \<Rightarrow> manager \<Rightarrow> manager \<times> unit \<times> (accessError + unit)" where
  "Revoke env lid sessionID m = mutate env (revokeChange env lid sessionID) m ()"

definition activeGrant :: "time \<Rightarrow> string \<Rightarrow> string \<Rightarrow> string \<Rightarrow> workspaceGrant \<Rightarrow> bool" where
  "activeGrant now root sessionID environment g \<longleftrightarrow>
     wg_SessionID g = sessionID \<and> wg_ProjectRoot g = root \<and> wg_Environment g = environment \<and>
     wg_PausedAt g = None \<and> wg_RevokedAt g = None \<and> now < wg_ExpiresAt g"

definition AuthorizeWorkspace ::
  "osEnv \<Rightarrow> string \<Rightarrow> string \<Rightarrow> manager \<Rightarrow> accessError + workspaceGrant" where
  "AuthorizeWorkspace env sessionID environment m =
     (case load m of
        Inl e \<Rightarrow> Err e
      | Inr st \<Rightarrow>
          (case find (activeGrant (os_now env) (m_root m) sessionID environment)
                  (st_WorkspaceGrants st) of
             None \<Rightarrow> Err ErrUnauthorized
           | Some g \<Rightarrow> Ok g))"

definition WorkspaceGrants :: "string \<Rightarrow> manager \<Rightarrow> accessError + workspaceGrant list" where
  "WorkspaceGrants sessionID m =
     (case load m of
        Inl e \<Rightarrow> Err e
      | Inr st \<Rightarrow> Ok (sort_key (\<lambda>g. - wg_CreatedAt g)
          (List.filter (\<lambda>g. sessionID = [] \<or> wg_SessionID g = sessionID) (st_WorkspaceGrants st))))"

text \<open>The loop shared by the three changes of a grant: find it by ID and update it in place.\<close>

definition updateGrant ::
  "string \<Rightarrow> (workspaceGrant \<Rightarrow> accessError + workspaceGrant) \<Rightarrow> (unit, workspaceGrant) change" where
  "updateGrant gid f w st =
     (case indexOf (\<lambda>g. wg_ID g = gid) (st_WorkspaceGrants st) of
        None \<Rightarrow> (w, Err ErrNotFound)
      | Some i \<Rightarrow>
          (case f (st_WorkspaceGrants st ! i) of
             Inl e \<Rightarrow> (w, Err e)
           | Inr g \<Rightarrow> (w, Ok (st\<lparr>st_WorkspaceGrants := (st_WorkspaceGrants st)[i := g]\<rparr>, g))))"

definition PauseWorkspace ::
  "osEnv \<Rightarrow> string \<Rightarrow> bool \<Rightarrow> manager \<Rightarrow> manager \<times> unit \<times> (accessError + workspaceGrant)" where
  "PauseWorkspace env gid paused m =
     mutate env (updateGrant gid (\<lambda>g.
       if wg_RevokedAt g \<noteq> None then Err ErrUnauthorized
       else Ok (g\<lparr>wg_PausedAt := (if paused then Some (os_now env) else None)\<rparr>))) m ()"

definition ExtendWorkspace ::
  "osEnv \<Rightarrow> string \<Rightarrow> duration \<Rightarrow> manager \<Rightarrow> manager \<times> unit \<times> (accessError + workspaceGrant)" where
  "ExtendWorkspace env gid ttl m =
     (if ttl \<le> 0 \<or> ttl > MaxLeaseTTL then (m, (), Err ErrTTL)
      else mutate env (updateGrant gid (\<lambda>g.
        if wg_RevokedAt g \<noteq> None then Err ErrUnauthorized
        else Ok (g\<lparr>wg_ExpiresAt := os_now env + ttl\<rparr>))) m ())"

definition RevokeWorkspace ::
  "osEnv \<Rightarrow> string \<Rightarrow> manager \<Rightarrow> manager \<times> unit \<times> (accessError + workspaceGrant)" where
  "RevokeWorkspace env gid m =
     mutate env (updateGrant gid (\<lambda>g.
       Ok (if wg_RevokedAt g = None then g\<lparr>wg_RevokedAt := Some (os_now env)\<rparr> else g))) m ()"

section \<open>Opening a project\<close>

text \<open>\<open>Open\<close>, once the directory exists: it refuses a state file it cannot load.\<close>

definition OpenManager :: "string \<Rightarrow> stateFile \<Rightarrow> accessError + manager" where
  "OpenManager root file =
     (let m = \<lparr>m_file = file, m_root = root\<rparr> in
      case load m of Inl e \<Rightarrow> Err e | Inr _ \<Rightarrow> Ok m)"

end
