(* ===== verification/Access_Props.thy ===== *)
theory Access_Props
  imports Access
begin

text \<open>
  The access manager as a transition system: every operation of the API is a step, in any
  environment (clock, randomness, failing saves), and the properties are invariants of all
  reachable managers.
\<close>

section \<open>Steps\<close>

datatype accessOp =
    OpCreateWorkspace string string "string list" duration string
  | OpCreateSecret string string string string "string list" string
  | OpCreateLease string string "string list" duration string
  | OpRequests
  | OpFulfill string "string option"
  | OpApproveLease string duration
  | OpApproveWorkspace string duration
  | OpDeny string
  | OpRevoke string string
  | OpPause string bool
  | OpExtend string duration
  | OpRevokeWorkspace string

fun accessStep :: "osEnv \<Rightarrow> accessOp \<Rightarrow> manager \<Rightarrow> manager" where
  "accessStep env (OpCreateWorkspace s e argv ttl r) m = fst (CreateWorkspaceRequest env s e argv ttl r m)"
| "accessStep env (OpCreateSecret s e a k cs r) m = fst (CreateSecretRequestForCommands env s e a k cs r m)"
| "accessStep env (OpCreateLease s e cs ttl r) m = fst (CreateLeaseRequest env s e cs ttl r m)"
| "accessStep env OpRequests m = fst (Requests env m)"
| "accessStep env (OpFulfill rid c) m = fst (FulfillSecretWith env rid (Some (\<lambda>r w. (w, c))) m ())"
| "accessStep env (OpApproveLease rid ttl) m = fst (ApproveLease env rid ttl m)"
| "accessStep env (OpApproveWorkspace rid ttl) m = fst (ApproveWorkspace env rid ttl m)"
| "accessStep env (OpDeny rid) m = fst (Deny env rid m)"
| "accessStep env (OpRevoke lid s) m = fst (Revoke env lid s m)"
| "accessStep env (OpPause gid p) m = fst (PauseWorkspace env gid p m)"
| "accessStep env (OpExtend gid ttl) m = fst (ExtendWorkspace env gid ttl m)"
| "accessStep env (OpRevokeWorkspace gid) m = fst (RevokeWorkspace env gid m)"

text \<open>Managers reachable from a project without a state file.\<close>

inductive reachable :: "manager \<Rightarrow> bool" where
  start: "reachable \<lparr>m_file = NoFile, m_root = root\<rparr>"
| step: "reachable m \<Longrightarrow> reachable (accessStep env op m)"

section \<open>Evolution of the state\<close>

text \<open>What no operation may undo: a resolved request, the terms of a pending one, a lease but
  for its revocation, a revoked grant, the identity and scope of every grant.\<close>

definition requestEvolves :: "request \<Rightarrow> request \<Rightarrow> bool" where
  "requestEvolves r r' \<longleftrightarrow>
     (if rq_Status r = StatusPending
      then rq_ID r' = rq_ID r \<and> rq_Kind r' = rq_Kind r \<and> rq_SessionID r' = rq_SessionID r \<and>
           rq_Environment r' = rq_Environment r \<and> rq_Commands r' = rq_Commands r \<and>
           rq_SecretAlias r' = rq_SecretAlias r \<and> rq_SecretKey r' = rq_SecretKey r \<and>
           rq_RequestedTTL r' = rq_RequestedTTL r \<and> rq_CreatedAt r' = rq_CreatedAt r \<and>
           rq_ExpiresAt r' = rq_ExpiresAt r \<and> rq_Reason r' = rq_Reason r \<and>
           rq_FirstArgv r' = rq_FirstArgv r
      else r' = r)"

definition leaseEvolves :: "lease \<Rightarrow> lease \<Rightarrow> bool" where
  "leaseEvolves l l' \<longleftrightarrow> (if ls_RevokedAt l = None then \<exists>t. l' = l\<lparr>ls_RevokedAt := t\<rparr> else l' = l)"

definition grantEvolves :: "workspaceGrant \<Rightarrow> workspaceGrant \<Rightarrow> bool" where
  "grantEvolves g g' \<longleftrightarrow>
     (if wg_RevokedAt g = None
      then \<exists>e p t. g' = g\<lparr>wg_ExpiresAt := e, wg_PausedAt := p, wg_RevokedAt := t\<rparr>
      else g' = g)"

definition listEvolves :: "('a \<Rightarrow> 'a \<Rightarrow> bool) \<Rightarrow> 'a list \<Rightarrow> 'a list \<Rightarrow> bool" where
  "listEvolves R xs ys \<longleftrightarrow> length xs \<le> length ys \<and> (\<forall>i < length xs. R (xs ! i) (ys ! i))"

definition evolves :: "accessState \<Rightarrow> accessState \<Rightarrow> bool" where
  "evolves st st' \<longleftrightarrow>
     listEvolves requestEvolves (st_Requests st) (st_Requests st') \<and>
     listEvolves leaseEvolves (st_Leases st) (st_Leases st') \<and>
     listEvolves grantEvolves (st_WorkspaceGrants st) (st_WorkspaceGrants st')"

lemma listEvolves_refl: "(\<And>x. R x x) \<Longrightarrow> listEvolves R xs xs"
  by (simp add: listEvolves_def)

lemma listEvolves_trans:
  "(\<And>x y z. R x y \<Longrightarrow> R y z \<Longrightarrow> R x z) \<Longrightarrow> listEvolves R xs ys \<Longrightarrow> listEvolves R ys zs \<Longrightarrow>
   listEvolves R xs zs"
  unfolding listEvolves_def by (meson le_trans less_le_trans)

lemma listEvolves_map: "(\<And>x. R x (f x)) \<Longrightarrow> listEvolves R xs (List.map f xs)"
  by (simp add: listEvolves_def)

lemma listEvolves_append: "(\<And>x. R x x) \<Longrightarrow> listEvolves R xs (xs @ ys)"
  by (simp add: listEvolves_def nth_append)

lemma listEvolves_update:
  "(\<And>x. R x x) \<Longrightarrow> i < length xs \<Longrightarrow> R (xs ! i) y \<Longrightarrow> listEvolves R xs (xs[i := y])"
  by (simp add: listEvolves_def nth_list_update)

lemma requestEvolves_refl [simp]: "requestEvolves r r"
  by (simp add: requestEvolves_def)

lemma leaseEvolves_refl [simp]: "leaseEvolves l l"
  by (auto simp: leaseEvolves_def intro: exI [of _ None])

lemma grantEvolves_refl [simp]: "grantEvolves g g"
  by (cases g) (auto simp: grantEvolves_def)

lemma grantEvolves_fields:
  "grantEvolves g g' \<longleftrightarrow>
     (if wg_RevokedAt g = None
      then wg_ID g' = wg_ID g \<and> wg_RequestID g' = wg_RequestID g \<and> wg_SessionID g' = wg_SessionID g \<and>
           wg_ProjectRoot g' = wg_ProjectRoot g \<and> wg_Environment g' = wg_Environment g \<and>
           wg_Network g' = wg_Network g \<and> wg_CreatedAt g' = wg_CreatedAt g
      else g' = g)"
  by (cases g; cases g') (auto simp: grantEvolves_def)

lemma requestEvolves_trans: "requestEvolves a b \<Longrightarrow> requestEvolves b c \<Longrightarrow> requestEvolves a c"
  by (auto simp: requestEvolves_def split: if_splits)

lemma leaseEvolves_trans: "leaseEvolves a b \<Longrightarrow> leaseEvolves b c \<Longrightarrow> leaseEvolves a c"
  by (cases a; cases b; cases c) (auto simp: leaseEvolves_def split: if_splits)

lemma grantEvolves_trans: "grantEvolves a b \<Longrightarrow> grantEvolves b c \<Longrightarrow> grantEvolves a c"
  by (cases a; cases b; cases c) (auto simp: grantEvolves_def split: if_splits)

lemma evolves_refl: "evolves st st"
  by (simp add: evolves_def listEvolves_refl)

lemma evolves_trans: "evolves a b \<Longrightarrow> evolves b c \<Longrightarrow> evolves a c"
  unfolding evolves_def
  by (meson listEvolves_trans requestEvolves_trans leaseEvolves_trans grantEvolves_trans)

lemma expireRequest_evolves: "requestEvolves r (expireRequest now r)"
  by (simp add: expireRequest_def requestEvolves_def)

lemma expire_evolves: "evolves st (expire now st)"
  by (simp add: evolves_def expire_def listEvolves_map listEvolves_refl expireRequest_evolves)

section \<open>Mutations\<close>

lemma indexOf_Some: "indexOf P xs = Some i \<Longrightarrow> i < length xs \<and> P (xs ! i) \<and> (\<forall>j < i. \<not> P (xs ! j))"
  by (induction xs arbitrary: i) (auto split: if_splits simp: nth_Cons split: nat.split)

lemma indexOf_None: "indexOf P xs = None \<longleftrightarrow> (\<forall>x \<in> set xs. \<not> P x)"
  by (induction xs) auto

lemma load_Stored [simp]: "st_Version st = stateVersion \<Longrightarrow> load (m\<lparr>m_file := Stored st\<rparr>) = Ok st"
  by (simp add: load_def stateVersion_def)

lemma load_version: "load m = Ok st \<Longrightarrow> st_Version st = stateVersion"
  by (auto simp: load_def emptyState_def split: stateFile.splits if_splits)

text \<open>
  \<open>mutate\<close> leaves the manager alone, or the state it will load next is the one the change
  returned.
\<close>

lemma mutate_effect:
  assumes "mutate env f m w = (m', w', res)"
  shows "m' = m \<or> (\<exists>st st' a. load m = Ok st \<and> f w st = (w', Ok (st', a)) \<and>
    m' = m\<lparr>m_file := Stored st'\<rparr>)"
proof (cases "withLock (os_lock env) = None \<and> (\<exists>st. load m = Ok st)")
  case False
  with assms show ?thesis
    by (cases "withLock (os_lock env)"; cases "load m") (simp_all add: mutate_def)
next
  case True
  then obtain st where st: "withLock (os_lock env) = None" "load m = Ok st" by blast
  obtain w1 r where f: "f w st = (w1, r)" by fastforce
  show ?thesis
  proof (cases r)
    case (Inl e)
    with st f assms show ?thesis by (simp add: mutate_def)
  next
    case (Inr sa)
    obtain st' a where sa: "sa = (st', a)" by fastforce
    show ?thesis
      using assms unfolding mutate_def st f Inr sa
      by (cases "os_save env") (simp_all add: saveAtomic_def st f Inr sa)
  qed
qed

lemma mutate_cases:
  assumes "mutate env f m w = (m', w', res)"
  obtains (unchanged) "m' = m"
    | (changed) st st' a where "load m = Ok st" "f w st = (w', Ok (st', a))"
      "m' = m\<lparr>m_file := Stored st'\<rparr>"
  using mutate_effect [OF assms] by blast

lemma mutate_root: "mutate env f m w = (m', w', res) \<Longrightarrow> m_root m' = m_root m"
  by (erule mutate_cases) simp_all

text \<open>A relation on states that every successful change keeps holds of the loaded states.\<close>

lemma mutate_rel:
  assumes "mutate env f m w = (m', w', res)" "load m = Ok st"
    and "\<And>st' a. f w st = (w', Ok (st', a)) \<Longrightarrow> R st st' \<and> st_Version st' = stateVersion"
    and "R st st"
  shows "\<exists>st'. load m' = Ok st' \<and> R st st'"
  using assms(1)
proof (cases rule: mutate_cases)
  case unchanged
  with assms show ?thesis by auto
next
  case (changed st0 st' a)
  with assms(2) have "f w st = (w', Ok (st', a))" by simp
  from assms(3) [OF this] changed(3) show ?thesis by auto
qed

section \<open>The invariant\<close>

definition leaseLicensed :: "request list \<Rightarrow> lease \<Rightarrow> bool" where
  "leaseLicensed rs l \<longleftrightarrow>
     (\<exists>r \<in> set rs. rq_Kind r = RequestLease \<and> rq_Status r = StatusApproved \<and>
        rq_ID r = ls_RequestID l \<and> rq_SessionID r = ls_SessionID l \<and>
        rq_Environment r = ls_Environment l \<and> rq_Commands r = ls_Commands l \<and>
        rq_ResultingLeaseID r = ls_ID l \<and> rq_ResolvedAt r = Some (ls_CreatedAt l)) \<and>
     ls_CreatedAt l < ls_ExpiresAt l \<and> ls_ExpiresAt l \<le> ls_CreatedAt l + MaxLeaseTTL"

definition grantLicensed :: "string \<Rightarrow> request list \<Rightarrow> workspaceGrant \<Rightarrow> bool" where
  "grantLicensed root rs g \<longleftrightarrow>
     (\<exists>r \<in> set rs. rq_Kind r = RequestWorkspace \<and> rq_Status r = StatusApproved \<and>
        rq_ID r = wg_RequestID g \<and> rq_SessionID r = wg_SessionID g \<and>
        rq_Environment r = wg_Environment g \<and> rq_ResultingLeaseID r = wg_ID g \<and>
        rq_ResolvedAt r = Some (wg_CreatedAt g)) \<and> wg_ProjectRoot g = root"

definition isPendingOf :: "string \<Rightarrow> request \<Rightarrow> bool" where
  "isPendingOf s r \<longleftrightarrow> rq_SessionID r = s \<and> rq_Status r = StatusPending"

definition sessionPending :: "string \<Rightarrow> request list \<Rightarrow> nat" where
  "sessionPending s rs = length (List.filter (isPendingOf s) rs)"

definition canonical :: "string list \<Rightarrow> bool" where
  "canonical cs \<longleftrightarrow> sorted cs \<and> distinct cs \<and> (\<forall>c \<in> set cs. c \<noteq> [] \<and> TrimSpace c = c)"

definition accessInv :: "string \<Rightarrow> accessState \<Rightarrow> bool" where
  "accessInv root st \<longleftrightarrow>
     (\<forall>l \<in> set (st_Leases st). leaseLicensed (st_Requests st) l) \<and>
     (\<forall>g \<in> set (st_WorkspaceGrants st). grantLicensed root (st_Requests st) g) \<and>
     (\<forall>s. sessionPending s (st_Requests st) \<le> maxPendingSession) \<and>
     (\<forall>r \<in> set (st_Requests st). canonical (rq_Commands r))"

lemma evolved_final:
  assumes "listEvolves requestEvolves rs rs'" "r \<in> set rs" "rq_Status r \<noteq> StatusPending"
  shows "r \<in> set rs'"
proof -
  from assms(2) obtain i where i: "i < length rs" "r = rs ! i" by (auto simp: in_set_conv_nth)
  with assms(1,3) have "rs' ! i = r" "i < length rs'"
    by (auto simp: listEvolves_def requestEvolves_def)
  then show ?thesis by (metis nth_mem)
qed

lemma leaseLicensed_mono:
  "listEvolves requestEvolves rs rs' \<Longrightarrow> leaseLicensed rs l \<Longrightarrow> leaseLicensed rs' l"
  unfolding leaseLicensed_def using evolved_final by (metis requestStatus.distinct(3))

lemma grantLicensed_mono:
  "listEvolves requestEvolves rs rs' \<Longrightarrow> grantLicensed root rs g \<Longrightarrow> grantLicensed root rs' g"
  unfolding grantLicensed_def using evolved_final by (metis requestStatus.distinct(3))

lemma leaseLicensed_weaken: "leaseLicensed [r] l \<Longrightarrow> r \<in> set rs \<Longrightarrow> leaseLicensed rs l"
  unfolding leaseLicensed_def by (metis list.set_intros(1) set_ConsD empty_iff empty_set)

lemma grantLicensed_weaken: "grantLicensed root [r] g \<Longrightarrow> r \<in> set rs \<Longrightarrow> grantLicensed root rs g"
  unfolding grantLicensed_def by (metis list.set_intros(1) set_ConsD empty_iff empty_set)

lemma leaseLicensed_revoke: "leaseEvolves l l' \<Longrightarrow> leaseLicensed rs l \<Longrightarrow> leaseLicensed rs l'"
  by (auto simp: leaseEvolves_def leaseLicensed_def split: if_splits)

lemma grantLicensed_update: "grantEvolves g g' \<Longrightarrow> grantLicensed root rs g \<Longrightarrow> grantLicensed root rs g'"
  by (auto simp: grantEvolves_def grantLicensed_def split: if_splits)

text \<open>A state that evolves with new leases and grants that are licensed keeps the invariant.\<close>

lemma accessInv_evolve:
  assumes inv: "accessInv root st" and ev: "evolves st st'"
    and leases: "\<And>i. length (st_Leases st) \<le> i \<Longrightarrow> i < length (st_Leases st') \<Longrightarrow>
      leaseLicensed (st_Requests st') (st_Leases st' ! i)"
    and grants: "\<And>i. length (st_WorkspaceGrants st) \<le> i \<Longrightarrow> i < length (st_WorkspaceGrants st') \<Longrightarrow>
      grantLicensed root (st_Requests st') (st_WorkspaceGrants st' ! i)"
    and pending: "\<And>s. sessionPending s (st_Requests st') \<le> maxPendingSession"
    and cmds: "\<forall>r \<in> set (st_Requests st'). canonical (rq_Commands r)"
  shows "accessInv root st'"
proof -
  have rs: "listEvolves requestEvolves (st_Requests st) (st_Requests st')"
    using ev by (simp add: evolves_def)
  have "leaseLicensed (st_Requests st') (st_Leases st' ! i)" if "i < length (st_Leases st')" for i
  proof (cases "i < length (st_Leases st)")
    case True
    then have "leaseLicensed (st_Requests st) (st_Leases st ! i)"
      "leaseEvolves (st_Leases st ! i) (st_Leases st' ! i)"
      using inv ev by (auto simp: accessInv_def evolves_def listEvolves_def)
    then show ?thesis by (meson leaseLicensed_mono leaseLicensed_revoke rs)
  qed (use leases that in simp)
  moreover have "grantLicensed root (st_Requests st') (st_WorkspaceGrants st' ! i)"
    if "i < length (st_WorkspaceGrants st')" for i
  proof (cases "i < length (st_WorkspaceGrants st)")
    case True
    then have "grantLicensed root (st_Requests st) (st_WorkspaceGrants st ! i)"
      "grantEvolves (st_WorkspaceGrants st ! i) (st_WorkspaceGrants st' ! i)"
      using inv ev by (auto simp: accessInv_def evolves_def listEvolves_def)
    then show ?thesis by (meson grantLicensed_mono grantLicensed_update rs)
  qed (use grants that in simp)
  ultimately show ?thesis
    using pending cmds unfolding accessInv_def by (metis in_set_conv_nth)
qed

lemma sessionPending_mono:
  assumes "length rs' = length rs" "\<And>i. i < length rs \<Longrightarrow> isPendingOf s (rs' ! i) \<Longrightarrow> isPendingOf s (rs ! i)"
  shows "sessionPending s rs' \<le> sessionPending s rs"
proof -
  have "{i. i < length rs' \<and> isPendingOf s (rs' ! i)} \<subseteq> {i. i < length rs \<and> isPendingOf s (rs ! i)}"
    using assms by auto
  then show ?thesis
    unfolding sessionPending_def length_filter_conv_card by (rule card_mono [rotated]) simp
qed

lemma expireRequest_simps [simp]:
  "rq_SessionID (expireRequest now r) = rq_SessionID r"
  "rq_Commands (expireRequest now r) = rq_Commands r"
  "rq_ID (expireRequest now r) = rq_ID r"
  "rq_Status (expireRequest now r) = StatusPending \<Longrightarrow> rq_Status r = StatusPending"
  by (auto simp: expireRequest_def split: if_splits)

lemma expire_simps [simp]:
  "st_Version (expire now st) = st_Version st" "st_Leases (expire now st) = st_Leases st"
  "st_WorkspaceGrants (expire now st) = st_WorkspaceGrants st"
  "st_Requests (expire now st) = List.map (expireRequest now) (st_Requests st)"
  by (simp_all add: expire_def)

lemma expire_inv:
  assumes "accessInv root st"
  shows "accessInv root (expire now st)"
proof (rule accessInv_evolve [OF assms expire_evolves])
  show "sessionPending s (st_Requests (expire now st)) \<le> maxPendingSession" for s
  proof -
    have "sessionPending s (st_Requests (expire now st)) \<le> sessionPending s (st_Requests st)"
      by (rule sessionPending_mono) (auto simp: isPendingOf_def)
    then show ?thesis using assms unfolding accessInv_def by (meson le_trans)
  qed
  show "\<forall>r \<in> set (st_Requests (expire now st)). canonical (rq_Commands r)"
    using assms by (auto simp: accessInv_def)
qed simp_all

section \<open>Every change keeps it\<close>

definition goodChange :: "string \<Rightarrow> ('w, 'a) change \<Rightarrow> bool" where
  "goodChange root f \<longleftrightarrow>
     (\<forall>w st w' st' a. f w st = (w', Ok (st', a)) \<longrightarrow>
        evolves st st' \<and> st_Version st' = st_Version st \<and> (accessInv root st \<longrightarrow> accessInv root st'))"

lemma mutate_good:
  assumes "goodChange (m_root m) f" "mutate env f m w = (m', w', res)" "load m = Ok st"
  shows "\<exists>st'. load m' = Ok st' \<and> evolves st st' \<and> (accessInv (m_root m) st \<longrightarrow> accessInv (m_root m) st')"
  using mutate_rel [OF assms(2,3), of "\<lambda>st st'. evolves st st' \<and>
      (accessInv (m_root m) st \<longrightarrow> accessInv (m_root m) st')"]
    assms(1) load_version [OF assms(3)] evolves_refl
  unfolding goodChange_def by metis

text \<open>Canonical command lists.\<close>

lemma collectCommands_spec:
  "set (collectCommands seen cs) = {c. c \<in> TrimSpace ` set cs \<and> c \<noteq> [] \<and> c \<notin> seen} \<and>
   distinct (collectCommands seen cs)"
  by (induction seen cs rule: collectCommands.induct) (auto simp: Let_def)

lemma canonical_canonicalCommands: "canonical (canonicalCommands cs)"
  using collectCommands_spec [of "{}" cs] by (auto simp: canonical_def canonicalCommands_def)

lemma set_canonicalCommands: "set (canonicalCommands cs) = TrimSpace ` set cs - {[]}"
  using collectCommands_spec [of "{}" cs] by (auto simp: canonicalCommands_def)

lemma canonical_id: "canonical cs \<Longrightarrow> canonicalCommands cs = cs"
proof -
  assume c: "canonical cs"
  have "collectCommands seen cs = cs" if "canonical cs" "seen \<inter> set cs = {}" for seen
    using that
  proof (induction cs arbitrary: seen)
    case (Cons x xs)
    then show ?case by (auto simp: canonical_def Let_def)
  qed simp
  with c show ?thesis by (simp add: canonicalCommands_def canonical_def sorted_sort_id)
qed

lemma scanPending_count:
  "scanPending c n rs = Inl k \<Longrightarrow> k = n + sessionPending (rq_SessionID c) rs"
  by (induction c n rs rule: scanPending.induct)
    (auto simp: sessionPending_def isPendingOf_def split: if_splits)

lemma scanPending_found:
  "scanPending c n rs = Inr r \<Longrightarrow> r \<in> set rs \<and> isPendingOf (rq_SessionID c) r \<and> sameRequest r c"
  by (induction c n rs rule: scanPending.induct) (auto simp: isPendingOf_def split: if_splits)

lemma createChange_good:
  assumes "canonical (rq_Commands c)"
  shows "goodChange root (createChange env c)"
  unfolding goodChange_def
proof (intro allI impI)
  fix w st w' st' a
  assume f: "createChange env c w st = (w', Ok (st', a))"
  let ?st = "expire (os_now env) st"
  show "evolves st st' \<and> st_Version st' = st_Version st \<and> (accessInv root st \<longrightarrow> accessInv root st')"
  proof (cases "scanPending c 0 (st_Requests ?st)")
    case (Inr r)
    with f have "st' = ?st" by (simp add: createChange_def Let_def)
    then show ?thesis using expire_evolves expire_inv by simp
  next
    case (Inl k)
    with f obtain r where r: "st' = ?st\<lparr>st_Requests := st_Requests ?st @ [r]\<rparr>"
      "rq_Commands r = rq_Commands c" "rq_SessionID r = rq_SessionID c" "k < maxPendingSession"
      by (auto simp: createChange_def Let_def split: if_splits sum.splits)
    have ev: "evolves ?st st'"
      unfolding evolves_def r(1) by (simp add: listEvolves_append listEvolves_refl)
    moreover have "accessInv root st'" if "accessInv root st"
    proof (rule accessInv_evolve [OF expire_inv [OF that] ev])
      fix s
      have k: "sessionPending (rq_SessionID c) (st_Requests ?st) < maxPendingSession"
        using scanPending_count [OF Inl] r(4) by simp
      have "sessionPending s (st_Requests ?st) \<le> maxPendingSession"
        using expire_inv [OF that, of "os_now env"] unfolding accessInv_def by blast
      with k show "sessionPending s (st_Requests st') \<le> maxPendingSession"
        unfolding r(1) using r(3) by (auto simp: sessionPending_def isPendingOf_def)
    next
      show "\<forall>r \<in> set (st_Requests st'). canonical (rq_Commands r)"
        using expire_inv [OF that, of "os_now env"] assms r by (auto simp: accessInv_def)
    qed (use r(1) in auto)
    ultimately show ?thesis
      using expire_evolves [of st "os_now env"] r(1) by (auto intro: evolves_trans)
  qed
qed

lemma resolveChange_Ok:
  assumes "resolveChange env rid kind status fn w st = (w', Ok (st', a))"
  obtains i r st1 r' where "indexOf (\<lambda>r. rq_ID r = rid) (st_Requests (expire (os_now env) st)) = Some i"
    "i < length (st_Requests st)" "r = st_Requests (expire (os_now env) st) ! i" "rq_ID r = rid"
    "rq_Status r = StatusPending" "\<And>k. kind = Some k \<Longrightarrow> rq_Kind r = k"
    "fn w (expire (os_now env) st) r (os_now env) = (w', Ok (st1, r', a))"
    "st' = st1\<lparr>st_Requests := (st_Requests st1)[i :=
       r'\<lparr>rq_Status := status, rq_ResolvedAt := Some (os_now env)\<rparr>]\<rparr>"
proof -
  let ?st = "expire (os_now env) st"
  obtain i where i: "indexOf (\<lambda>r. rq_ID r = rid) (st_Requests ?st) = Some i"
    using assms by (auto simp: resolveChange_def Let_def split: option.splits)
  from indexOf_Some [OF i] have il: "i < length (st_Requests st)" "rq_ID (st_Requests ?st ! i) = rid"
    by auto
  have kind: "rq_Status (st_Requests ?st ! i) = StatusPending"
    "\<And>k. kind = Some k \<Longrightarrow> rq_Kind (st_Requests ?st ! i) = k"
    using assms i by (auto simp: resolveChange_def Let_def split: option.splits if_splits)
  then have none: "(case kind of None \<Rightarrow> None | Some k \<Rightarrow>
      if rq_Kind (st_Requests ?st ! i) \<noteq> k then Some k else None) = None"
    by (cases kind) auto
  obtain w1 x where fn: "fn w ?st (st_Requests ?st ! i) (os_now env) = (w1, x)" by fastforce
  with assms i kind(1) none obtain st1 r' where "w1 = w'" "x = Inr (st1, r', a)"
    "st' = st1\<lparr>st_Requests := (st_Requests st1)[i :=
       r'\<lparr>rq_Status := status, rq_ResolvedAt := Some (os_now env)\<rparr>]\<rparr>"
    unfolding resolveChange_def Let_def i option.case none
    by (cases x) auto
  then show ?thesis using that [OF i il(1) refl il(2) kind] fn by blast
qed

text \<open>
  A resolution that leaves the requests to \<open>resolveRequest\<close>, changes at most the resulting ID
  of its request and adds leases and grants the resolved request licenses.
\<close>

lemma resolveChange_good:
  assumes status: "status \<noteq> StatusPending"
    and fn: "\<And>w st r w' st1 r' a. fn w st r (os_now env) = (w', Ok (st1, r', a)) \<Longrightarrow>
      (\<And>k. kind = Some k \<Longrightarrow> rq_Kind r = k) \<Longrightarrow>
      st_Requests st1 = st_Requests st \<and> st_Version st1 = st_Version st \<and>
      (\<exists>x. r' = r\<lparr>rq_ResultingLeaseID := x\<rparr>) \<and>
      (\<exists>ls. st_Leases st1 = st_Leases st @ ls \<and> (\<forall>l \<in> set ls. leaseLicensed
        [r'\<lparr>rq_Status := status, rq_ResolvedAt := Some (os_now env)\<rparr>] l)) \<and>
      (\<exists>gs. st_WorkspaceGrants st1 = st_WorkspaceGrants st @ gs \<and> (\<forall>g \<in> set gs. grantLicensed root
        [r'\<lparr>rq_Status := status, rq_ResolvedAt := Some (os_now env)\<rparr>] g))"
  shows "goodChange root (resolveChange env rid kind status fn)"
  unfolding goodChange_def
proof (intro allI impI)
  fix w st w' st' a
  assume "resolveChange env rid kind status fn w st = (w', Ok (st', a))"
  then obtain i r st1 r' where i: "i < length (st_Requests st)"
    and r: "r = st_Requests (expire (os_now env) st) ! i" "rq_Status r = StatusPending"
    and kind: "\<And>k. kind = Some k \<Longrightarrow> rq_Kind r = k"
    and call: "fn w (expire (os_now env) st) r (os_now env) = (w', Ok (st1, r', a))"
    and st': "st' = st1\<lparr>st_Requests := (st_Requests st1)[i :=
       r'\<lparr>rq_Status := status, rq_ResolvedAt := Some (os_now env)\<rparr>]\<rparr>"
    by (rule resolveChange_Ok) blast
  let ?st = "expire (os_now env) st"
  let ?r = "r'\<lparr>rq_Status := status, rq_ResolvedAt := Some (os_now env)\<rparr>"
  from fn [OF call kind] obtain x ls gs where fx: "st_Requests st1 = st_Requests ?st"
    "st_Version st1 = st_Version ?st" "r' = r\<lparr>rq_ResultingLeaseID := x\<rparr>"
    "st_Leases st1 = st_Leases ?st @ ls" "\<And>l. l \<in> set ls \<Longrightarrow> leaseLicensed [?r] l"
    "st_WorkspaceGrants st1 = st_WorkspaceGrants ?st @ gs"
    "\<And>g. g \<in> set gs \<Longrightarrow> grantLicensed root [?r] g" by blast
  have rev: "requestEvolves r ?r" using r(2) fx(3) by (simp add: requestEvolves_def)
  have rs': "st_Requests st' = (st_Requests ?st)[i := ?r]" using st' fx(1) by simp
  have ev: "evolves ?st st'"
    unfolding evolves_def
  proof (intro conjI)
    show "listEvolves requestEvolves (st_Requests ?st) (st_Requests st')"
      unfolding rs' by (rule listEvolves_update) (use i rev r in auto)
  qed (use st' fx(4,6) in \<open>simp_all add: listEvolves_append\<close>)
  have mem: "?r \<in> set (st_Requests st')" unfolding rs' using i by (simp add: set_update_memI)
  have "accessInv root st'" if inv: "accessInv root st"
  proof (rule accessInv_evolve [OF expire_inv [OF inv] ev])
    fix j assume "length (st_Leases ?st) \<le> j" "j < length (st_Leases st')"
    then have "st_Leases st' ! j \<in> set ls" using st' fx(4) by (simp add: nth_append)
    from fx(5) [OF this] mem show "leaseLicensed (st_Requests st') (st_Leases st' ! j)"
      by (rule leaseLicensed_weaken)
  next
    fix j assume "length (st_WorkspaceGrants ?st) \<le> j" "j < length (st_WorkspaceGrants st')"
    then have "st_WorkspaceGrants st' ! j \<in> set gs" using st' fx(6) by (simp add: nth_append)
    from fx(7) [OF this] mem show "grantLicensed root (st_Requests st') (st_WorkspaceGrants st' ! j)"
      by (rule grantLicensed_weaken)
  next
    fix s
    have "sessionPending s (st_Requests st') \<le> sessionPending s (st_Requests ?st)"
      by (rule sessionPending_mono)
        (use status i in \<open>auto simp: rs' isPendingOf_def nth_list_update split: if_splits\<close>)
    also have "\<dots> \<le> maxPendingSession"
      using expire_inv [OF inv, of "os_now env"] unfolding accessInv_def by blast
    finally show "sessionPending s (st_Requests st') \<le> maxPendingSession" .
  next
    have all: "\<forall>r \<in> set (st_Requests ?st). canonical (rq_Commands r)"
      using expire_inv [OF inv, of "os_now env"] unfolding accessInv_def by blast
    moreover have "r \<in> set (st_Requests ?st)" using r(1) i by simp
    ultimately have "canonical (rq_Commands r)" by blast
    then have "canonical (rq_Commands ?r)" using fx(3) by simp
    with all show "\<forall>r \<in> set (st_Requests st'). canonical (rq_Commands r)"
      unfolding rs' using set_update_subset_insert by fastforce
  qed
  then show "evolves st st' \<and> st_Version st' = st_Version st \<and> (accessInv root st \<longrightarrow> accessInv root st')"
    using evolves_trans [OF expire_evolves ev] st' fx(2) by auto
qed

lemma updateGrant_good:
  assumes "\<And>g g'. f g = Ok g' \<Longrightarrow> grantEvolves g g'"
  shows "goodChange root (updateGrant gid f)"
  unfolding goodChange_def
proof (intro allI impI)
  fix w st w' st' a
  assume "updateGrant gid f w st = (w', Ok (st', a))"
  then obtain i g where i: "i < length (st_WorkspaceGrants st)" "f (st_WorkspaceGrants st ! i) = Ok g"
    and st': "st' = st\<lparr>st_WorkspaceGrants := (st_WorkspaceGrants st)[i := g]\<rparr>"
    by (auto simp: updateGrant_def split: option.splits sum.splits dest: indexOf_Some)
  have ev: "evolves st st'"
    unfolding evolves_def st'
    by (simp add: listEvolves_refl listEvolves_update i assms)
  then show "evolves st st' \<and> st_Version st' = st_Version st \<and> (accessInv root st \<longrightarrow> accessInv root st')"
    using accessInv_evolve [OF _ ev] st' by (auto simp: accessInv_def)
qed

lemma revokeChange_Ok:
  assumes "revokeChange env lid s w st = (w', Ok (st', a))"
  obtains i l' where "i < length (st_Leases st)" "ls_ID (st_Leases st ! i) = lid"
    "s \<noteq> [] \<longrightarrow> ls_SessionID (st_Leases st ! i) = s"
    "leaseEvolves (st_Leases st ! i) l'" "ls_RevokedAt l' \<noteq> None"
    "st' = st\<lparr>st_Leases := (st_Leases st)[i := l']\<rparr>"
proof -
  obtain i where i: "indexOf (\<lambda>l. ls_ID l = lid) (st_Leases st) = Some i"
    using assms by (auto simp: revokeChange_def split: option.splits)
  let ?l = "st_Leases st ! i"
  let ?l' = "if ls_RevokedAt ?l = None then ?l\<lparr>ls_RevokedAt := Some (os_now env)\<rparr> else ?l"
  have "s \<noteq> [] \<longrightarrow> ls_SessionID ?l = s" "st' = st\<lparr>st_Leases := (st_Leases st)[i := ?l']\<rparr>"
    using assms i by (auto simp: revokeChange_def Let_def split: if_splits)
  moreover have "leaseEvolves ?l ?l'" "ls_RevokedAt ?l' \<noteq> None"
    by (auto simp: leaseEvolves_def)
  ultimately show ?thesis using that indexOf_Some [OF i] by blast
qed

lemma revokeChange_good: "goodChange root (revokeChange env lid s)"
  unfolding goodChange_def
proof (intro allI impI)
  fix w st w' st' a
  assume "revokeChange env lid s w st = (w', Ok (st', a))"
  then obtain i l' where i: "i < length (st_Leases st)" "leaseEvolves (st_Leases st ! i) l'"
    and st': "st' = st\<lparr>st_Leases := (st_Leases st)[i := l']\<rparr>"
    by (rule revokeChange_Ok)
  have ev: "evolves st st'"
    unfolding evolves_def st' by (simp add: listEvolves_refl listEvolves_update i)
  then show "evolves st st' \<and> st_Version st' = st_Version st \<and> (accessInv root st \<longrightarrow> accessInv root st')"
    using accessInv_evolve [OF _ ev] st' by (auto simp: accessInv_def)
qed

lemma approvedTTL_pos: "dflt > 0 \<Longrightarrow> approvedTTL ttl requested dflt > 0"
  by (simp add: approvedTTL_def Let_def)

lemma canonical_Nil: "canonical []"
  by (simp add: canonical_def)

lemma fulfill_good:
  "goodChange root (resolveChange env rid (Some RequestSecret) StatusFulfilled (commitSecret commit))"
proof (rule resolveChange_good)
  fix w st r w' a and st1 :: accessState and r' :: request
  assume "commitSecret commit w st r (os_now env) = (w', Ok (st1, r', a))"
  then have "st1 = st" "r' = r"
    by (auto simp: commitSecret_def split: option.splits prod.splits)
  then show "st_Requests st1 = st_Requests st \<and> st_Version st1 = st_Version st \<and>
      (\<exists>x. r' = r\<lparr>rq_ResultingLeaseID := x\<rparr>) \<and>
      (\<exists>ls. st_Leases st1 = st_Leases st @ ls \<and> (\<forall>l \<in> set ls. leaseLicensed
        [r'\<lparr>rq_Status := StatusFulfilled, rq_ResolvedAt := Some (os_now env)\<rparr>] l)) \<and>
      (\<exists>gs. st_WorkspaceGrants st1 = st_WorkspaceGrants st @ gs \<and> (\<forall>g \<in> set gs. grantLicensed root
        [r'\<lparr>rq_Status := StatusFulfilled, rq_ResolvedAt := Some (os_now env)\<rparr>] g))"
    by (auto intro: exI [of _ "rq_ResultingLeaseID r"] exI [of _ "[]"])
qed simp

lemma deny_good:
  "goodChange root (resolveChange env rid None StatusDenied noCallback)"
proof (rule resolveChange_good)
  fix w st r w' and a :: unit and st1 :: accessState and r' :: request
  assume "noCallback w st r (os_now env) = (w', Ok (st1, r', a))"
  then have "st1 = st" "r' = r" by (auto simp: noCallback_def)
  then show "st_Requests st1 = st_Requests st \<and> st_Version st1 = st_Version st \<and>
      (\<exists>x. r' = r\<lparr>rq_ResultingLeaseID := x\<rparr>) \<and>
      (\<exists>ls. st_Leases st1 = st_Leases st @ ls \<and> (\<forall>l \<in> set ls. leaseLicensed
        [r'\<lparr>rq_Status := StatusDenied, rq_ResolvedAt := Some (os_now env)\<rparr>] l)) \<and>
      (\<exists>gs. st_WorkspaceGrants st1 = st_WorkspaceGrants st @ gs \<and> (\<forall>g \<in> set gs. grantLicensed root
        [r'\<lparr>rq_Status := StatusDenied, rq_ResolvedAt := Some (os_now env)\<rparr>] g))"
    by (auto intro: exI [of _ "rq_ResultingLeaseID r"] exI [of _ "[]"])
qed simp

lemma grantLease_good:
  "goodChange root (resolveChange env rid (Some RequestLease) StatusApproved (grantLease env ttl))"
proof (rule resolveChange_good)
  fix w st r w' a and st1 :: accessState and r' :: request
  assume call: "grantLease env ttl w st r (os_now env) = (w', Ok (st1, r', a))"
    and kind: "\<And>k. Some RequestLease = Some k \<Longrightarrow> rq_Kind r = k"
  let ?ttl = "approvedTTL ttl (rq_RequestedTTL r) DefaultLeaseTTL"
  from call obtain lid where ttl: "?ttl \<le> MaxLeaseTTL"
    and r': "r' = r\<lparr>rq_ResultingLeaseID := lid\<rparr>"
    and a: "a = \<lparr>ls_ID = lid, ls_RequestID = rq_ID r, ls_SessionID = rq_SessionID r,
                 ls_Environment = rq_Environment r, ls_Commands = rq_Commands r,
                 ls_CreatedAt = os_now env, ls_ExpiresAt = os_now env + ?ttl, ls_RevokedAt = None\<rparr>"
    and st1: "st1 = st\<lparr>st_Leases := st_Leases st @ [a]\<rparr>"
    by (auto simp: grantLease_def Let_def split: if_splits sum.splits)
  have "?ttl > 0" by (rule approvedTTL_pos) (simp add: DefaultLeaseTTL_def)
  with ttl kind have lic: "leaseLicensed [r'\<lparr>rq_Status := StatusApproved, rq_ResolvedAt := Some (os_now env)\<rparr>] a"
    by (simp add: a r' leaseLicensed_def)
  show "st_Requests st1 = st_Requests st \<and> st_Version st1 = st_Version st \<and>
      (\<exists>x. r' = r\<lparr>rq_ResultingLeaseID := x\<rparr>) \<and>
      (\<exists>ls. st_Leases st1 = st_Leases st @ ls \<and> (\<forall>l \<in> set ls. leaseLicensed
        [r'\<lparr>rq_Status := StatusApproved, rq_ResolvedAt := Some (os_now env)\<rparr>] l)) \<and>
      (\<exists>gs. st_WorkspaceGrants st1 = st_WorkspaceGrants st @ gs \<and> (\<forall>g \<in> set gs. grantLicensed root
        [r'\<lparr>rq_Status := StatusApproved, rq_ResolvedAt := Some (os_now env)\<rparr>] g))"
    using lic r' st1 by (intro conjI exI [of _ "[a]"] exI [of _ "[]"] exI [of _ lid]) simp_all
qed simp

lemma grantWorkspace_good:
  "goodChange root (resolveChange env rid (Some RequestWorkspace) StatusApproved (grantWorkspace env root ttl))"
proof (rule resolveChange_good)
  fix w st r w' a and st1 :: accessState and r' :: request
  assume call: "grantWorkspace env root ttl w st r (os_now env) = (w', Ok (st1, r', a))"
    and kind: "\<And>k. Some RequestWorkspace = Some k \<Longrightarrow> rq_Kind r = k"
  from call obtain gid e where r': "r' = r\<lparr>rq_ResultingLeaseID := gid\<rparr>"
    and a: "a = \<lparr>wg_ID = gid, wg_RequestID = rq_ID r, wg_SessionID = rq_SessionID r,
                 wg_ProjectRoot = root, wg_Environment = rq_Environment r,
                 wg_Network = ''normal'', wg_CreatedAt = os_now env, wg_ExpiresAt = e,
                 wg_PausedAt = None, wg_RevokedAt = None\<rparr>"
    and st1: "st1 = st\<lparr>st_WorkspaceGrants := st_WorkspaceGrants st @ [a]\<rparr>"
    by (auto simp: grantWorkspace_def Let_def split: if_splits sum.splits)
  have lic: "grantLicensed root [r'\<lparr>rq_Status := StatusApproved, rq_ResolvedAt := Some (os_now env)\<rparr>] a"
    using kind by (simp add: a r' grantLicensed_def)
  show "st_Requests st1 = st_Requests st \<and> st_Version st1 = st_Version st \<and>
      (\<exists>x. r' = r\<lparr>rq_ResultingLeaseID := x\<rparr>) \<and>
      (\<exists>ls. st_Leases st1 = st_Leases st @ ls \<and> (\<forall>l \<in> set ls. leaseLicensed
        [r'\<lparr>rq_Status := StatusApproved, rq_ResolvedAt := Some (os_now env)\<rparr>] l)) \<and>
      (\<exists>gs. st_WorkspaceGrants st1 = st_WorkspaceGrants st @ gs \<and> (\<forall>g \<in> set gs. grantLicensed root
        [r'\<lparr>rq_Status := StatusApproved, rq_ResolvedAt := Some (os_now env)\<rparr>] g))"
    using lic r' st1 by (intro conjI exI [of _ "[a]"] exI [of _ "[]"] exI [of _ gid]) simp_all
qed simp

section \<open>All operations\<close>

definition stepOk :: "manager \<Rightarrow> manager \<Rightarrow> bool" where
  "stepOk m m' \<longleftrightarrow> m_root m' = m_root m \<and>
     (\<forall>st. load m = Ok st \<longrightarrow> (\<exists>st'. load m' = Ok st' \<and> evolves st st' \<and>
        (accessInv (m_root m) st \<longrightarrow> accessInv (m_root m) st')))"

lemma stepOk_refl: "stepOk m m"
  by (simp add: stepOk_def evolves_refl)

lemma stepOk_mutate: "goodChange (m_root m) f \<Longrightarrow> stepOk m (fst (mutate env f m w))"
proof -
  assume good: "goodChange (m_root m) f"
  obtain m' w' res where mu: "mutate env f m w = (m', w', res)" by (metis prod.exhaust)
  show ?thesis
    unfolding stepOk_def mu using mutate_root [OF mu] mutate_good [OF good mu] by auto
qed

lemma expire_good: "goodChange root (expireChange env)"
  by (auto simp: goodChange_def expireChange_def expire_evolves expire_inv)

lemma createRequest_ok: "canonical (rq_Commands c) \<Longrightarrow> stepOk m (fst (createRequest env c m))"
proof -
  assume "canonical (rq_Commands c)"
  then have "goodChange (m_root m) (createChange env c)" by (rule createChange_good)
  from stepOk_mutate [OF this] show ?thesis by (simp add: createRequest_def)
qed

lemma accessStep_ok: "stepOk m (accessStep env op m)"
proof (cases op)
  case (OpCreateWorkspace s e argv ttl r)
  then show ?thesis
    by (auto simp: CreateWorkspaceRequest_def stepOk_refl zeroRequest_def Let_def
        intro!: createRequest_ok canonical_Nil split: option.split)
next
  case (OpCreateSecret s e a k cs r)
  then show ?thesis
    by (auto simp: CreateSecretRequestForCommands_def stepOk_refl
        intro!: createRequest_ok canonical_canonicalCommands split: option.split)
next
  case (OpCreateLease s e cs ttl r)
  then show ?thesis
    by (auto simp: CreateLeaseRequest_def stepOk_refl Let_def
        intro!: createRequest_ok canonical_canonicalCommands split: option.split)
next
  case OpRequests
  have "fst (Requests env m) = fst (mutate env (expireChange env) m ())"
    by (auto simp: Requests_def split: prod.split sum.split)
  with OpRequests show ?thesis by (simp add: stepOk_mutate expire_good)
next
  case (OpFulfill rid c)
  have "fst (FulfillSecretWith env rid commit m w) = fst (mutate env (resolveChange env rid
      (Some RequestSecret) StatusFulfilled (commitSecret commit)) m w)" for commit and w :: unit
    by (auto simp: FulfillSecretWith_def split: prod.split sum.split)
  with OpFulfill show ?thesis by (simp add: stepOk_mutate fulfill_good)
next
  case (OpApproveLease rid ttl)
  then show ?thesis by (simp add: ApproveLease_def stepOk_mutate grantLease_good)
next
  case (OpApproveWorkspace rid ttl)
  then show ?thesis by (simp add: ApproveWorkspace_def stepOk_mutate grantWorkspace_good)
next
  case (OpDeny rid)
  then show ?thesis by (simp add: Deny_def stepOk_mutate deny_good)
next
  case (OpRevoke lid s)
  then show ?thesis by (simp add: Revoke_def stepOk_mutate revokeChange_good)
next
  case (OpPause gid p)
  have "goodChange (m_root m) (updateGrant gid (\<lambda>g. if wg_RevokedAt g \<noteq> None then Err ErrUnauthorized
      else Ok (g\<lparr>wg_PausedAt := (if p then Some (os_now env) else None)\<rparr>)))"
    by (rule updateGrant_good) (auto simp: grantEvolves_fields split: if_splits)
  with OpPause show ?thesis by (simp add: PauseWorkspace_def stepOk_mutate)
next
  case (OpExtend gid ttl)
  have "goodChange (m_root m) (updateGrant gid (\<lambda>g. if wg_RevokedAt g \<noteq> None then Err ErrUnauthorized
      else Ok (g\<lparr>wg_ExpiresAt := os_now env + ttl\<rparr>)))"
    by (rule updateGrant_good) (auto simp: grantEvolves_fields split: if_splits)
  with OpExtend show ?thesis by (simp add: ExtendWorkspace_def stepOk_mutate stepOk_refl)
next
  case (OpRevokeWorkspace gid)
  have "goodChange (m_root m) (updateGrant gid (\<lambda>g. Ok (if wg_RevokedAt g = None
      then g\<lparr>wg_RevokedAt := Some (os_now env)\<rparr> else g)))"
    by (rule updateGrant_good) (auto simp: grantEvolves_fields split: if_splits)
  with OpRevokeWorkspace show ?thesis by (simp add: RevokeWorkspace_def stepOk_mutate)
qed

section \<open>Runs\<close>

definition accessRun :: "(osEnv \<times> accessOp) list \<Rightarrow> manager \<Rightarrow> manager" where
  "accessRun evs = fold (\<lambda>(env, op). accessStep env op) evs"

lemma accessRun_simps [simp]:
  "accessRun [] m = m" "accessRun ((env, op) # evs) m = accessRun evs (accessStep env op m)"
  by (simp_all add: accessRun_def)

lemma accessRun_reachable: "reachable m \<Longrightarrow> reachable (accessRun evs m)"
proof (induction evs arbitrary: m)
  case (Cons ev evs)
  obtain env op where "ev = (env, op)" by fastforce
  with Cons.IH [OF reachable.step [OF Cons.prems]] show ?case by simp
qed simp

lemma accessRun_evolves:
  "load m = Ok st \<Longrightarrow> \<exists>st'. load (accessRun evs m) = Ok st' \<and> evolves st st'"
proof (induction evs arbitrary: m st)
  case Nil
  then show ?case by (simp add: evolves_refl)
next
  case (Cons ev evs)
  obtain env op where ev: "ev = (env, op)" by fastforce
  from accessStep_ok [of m env op] Cons.prems obtain st1
    where "load (accessStep env op m) = Ok st1" "evolves st st1" by (auto simp: stepOk_def)
  with Cons.IH [of "accessStep env op m" st1] show ?case
    unfolding ev by (auto intro: evolves_trans)
qed

lemma reachable_inv: "reachable m \<Longrightarrow> \<exists>st. load m = Ok st \<and> accessInv (m_root m) st"
proof (induction rule: reachable.induct)
  case (start root)
  show ?case
    by (simp add: load_def emptyState_def accessInv_def sessionPending_def)
next
  case (step m env op)
  then obtain st where st: "load m = Ok st" "accessInv (m_root m) st" by blast
  from accessStep_ok [of m env op] show ?case
    unfolding stepOk_def using st by metis
qed

lemma authorizeLoop_iff:
  "authorizeLoop now s e c ls \<longleftrightarrow>
     (\<exists>l \<in> set ls. ls_SessionID l = s \<and> ls_Environment l = e \<and> ls_RevokedAt l = None \<and>
        now < ls_ExpiresAt l \<and> c \<in> set (ls_Commands l))"
proof -
  have "contains cs c \<longleftrightarrow> c \<in> set cs" for cs by (induction cs) auto
  then show ?thesis by (induction ls) auto
qed

lemma resolved_stays:
  assumes "listEvolves requestEvolves rs rs'" "indexOf (\<lambda>r. rq_ID r = rid) rs = Some i"
  shows "indexOf (\<lambda>r. rq_ID r = rid) rs' = Some i"
proof -
  have ids: "rq_ID (rs' ! j) = rq_ID (rs ! j)" if "j < length rs" for j
    using assms(1) that by (auto simp: listEvolves_def requestEvolves_def split: if_splits)
  have i: "i < length rs" "rq_ID (rs ! i) = rid" "\<And>j. j < i \<Longrightarrow> rq_ID (rs ! j) \<noteq> rid"
    using indexOf_Some [OF assms(2)] by auto
  have len: "length rs \<le> length rs'" using assms(1) by (simp add: listEvolves_def)
  have "rs' ! i \<in> set rs'" "rq_ID (rs' ! i) = rid" using i ids [of i] len by auto
  then have "indexOf (\<lambda>r. rq_ID r = rid) rs' \<noteq> None" unfolding indexOf_None by blast
  then obtain k where k: "indexOf (\<lambda>r. rq_ID r = rid) rs' = Some k" by blast
  from indexOf_Some [OF k] have k': "rq_ID (rs' ! k) = rid" "\<And>j. j < k \<Longrightarrow> rq_ID (rs' ! j) \<noteq> rid"
    by auto
  have "\<not> k < i"
  proof
    assume "k < i"
    with i(1) ids [of k] k'(1) have "rq_ID (rs ! k) = rid" by simp
    with i(3) [OF \<open>k < i\<close>] show False by simp
  qed
  moreover have "\<not> i < k" using k'(2) [of i] \<open>rq_ID (rs' ! i) = rid\<close> by auto
  ultimately have "k = i" by linarith
  with k show ?thesis by simp
qed

text \<open>A request that is no longer pending cannot be resolved again: the callback is not run.\<close>

lemma resolveChange_final:
  assumes "listEvolves requestEvolves rs (st_Requests st)" "indexOf (\<lambda>r. rq_ID r = rid) rs = Some i"
    and "rq_Status (rs ! i) \<noteq> StatusPending"
  shows "resolveChange env rid kind status fn w st = (w, Err (ErrNotPending (rq_Status (rs ! i))))"
proof -
  have ev: "listEvolves requestEvolves rs (st_Requests (expire (os_now env) st))"
    using assms(1) expire_evolves [of st "os_now env"]
    unfolding evolves_def by (blast intro: listEvolves_trans requestEvolves_trans)
  have "i < length rs" using indexOf_Some [OF assms(2)] by blast
  with ev assms(3) have "st_Requests (expire (os_now env) st) ! i = rs ! i"
    by (auto simp: listEvolves_def requestEvolves_def)
  with resolved_stays [OF ev assms(2)] assms(3) show ?thesis
    by (simp add: resolveChange_def Let_def)
qed

lemma mutate_Ok:
  assumes "mutate env f m w = (m', w', Ok a)"
  obtains st st' where "load m = Ok st" "f w st = (w', Ok (st', a))" "m' = m\<lparr>m_file := Stored st'\<rparr>"
proof -
  from assms obtain st where st: "withLock (os_lock env) = None" "load m = Ok st"
    by (auto simp: mutate_def split: option.splits sum.splits)
  obtain w1 r where f: "f w st = (w1, r)" by fastforce
  with assms st obtain sa where r: "r = Inr sa"
    by (cases r) (simp_all add: mutate_def)
  obtain st' b where sa: "sa = (st', b)" by fastforce
  from assms have "w1 = w' \<and> b = a \<and> m' = m\<lparr>m_file := Stored st'\<rparr>"
    by (cases "os_save env") (simp_all add: mutate_def st f r sa saveAtomic_def)
  with f r sa st(2) show ?thesis using that by blast
qed

section \<open>A concrete run\<close>

lemma mutate_eval:
  "withLock (os_lock env) = None \<Longrightarrow> load m = Ok st \<Longrightarrow> f w st = (w', Ok (st', a)) \<Longrightarrow>
   os_save env = SaveOk \<Longrightarrow> mutate env f m w = (m\<lparr>m_file := Stored st'\<rparr>, w', Ok a)"
  by (simp add: mutate_def saveAtomic_def)

lemma resolveChange_eval:
  "expire (os_now env) st = stx \<Longrightarrow> indexOf (\<lambda>r. rq_ID r = rid) (st_Requests stx) = Some i \<Longrightarrow>
   st_Requests stx ! i = r \<Longrightarrow> rq_Status r = StatusPending \<Longrightarrow> rq_Kind r = k \<Longrightarrow>
   fn w stx r (os_now env) = (w', Ok (sty, r', a)) \<Longrightarrow>
   resolveChange env rid (Some k) status fn w st = (w', Ok (sty\<lparr>st_Requests := (st_Requests sty)[i :=
     r'\<lparr>rq_Status := status, rq_ResolvedAt := Some (os_now env)\<rparr>]\<rparr>, a))"
  by (simp del: expire_simps add: resolveChange_def Let_def)

definition exEnv :: "time \<Rightarrow> osEnv" where
  "exEnv t = \<lparr>os_lock = [LockMade], os_now = t, os_rand = Ok ''abcdefghijkl'', os_save = SaveOk\<rparr>"

definition exStart :: manager where
  "exStart = \<lparr>m_file = NoFile, m_root = ''/p''\<rparr>"

definition exID :: string where
  "exID = ''req_6162636465666768696a6b6c''"

lemma exEnv_simps [simp]:
  "os_now (exEnv t) = t" "os_lock (exEnv t) = [LockMade]" "os_save (exEnv t) = SaveOk"
  "os_rand (exEnv t) = Ok ''abcdefghijkl''"
  by (simp_all add: exEnv_def)

lemma ex_hex: "hexEncode ''abcdefghijkl'' = ''6162636465666768696a6b6c''"
  by code_simp

lemma ex_text:
  "TrimSpace ''s1'' = ''s1''" "TrimSpace ''dev'' = ''dev''" "TrimSpace ''go'' = ''go''"
  "canonicalCommands ['' go test'', ''go test''] = [''go test'']" "cleanReason [] = []"
  by (simp_all add: trim_eval canonicalCommands_def cleanReason_def Fields_def fieldsFrom.simps
      blankControls.simps)

lemmas create_eval = validateIdentity_def ex_text createRequest_def mutate_def load_def exStart_def
  createChange_def Let_def expire_def emptyState_def maxPendingSession_def randomID_def ex_hex
  saveAtomic_def zeroRequest_def MaxLeaseTTL_def

text \<open>A lease is requested at time 5 and approved at time 7.\<close>

definition exRequest :: request where
  "exRequest = zeroRequest\<lparr>rq_ID := exID, rq_Kind := RequestLease, rq_SessionID := ''s1'',
     rq_Environment := ''dev'', rq_Commands := [''go test''], rq_CreatedAt := 5,
     rq_ExpiresAt := 5 + DefaultRequestTTL, rq_RequestedTTL := DefaultLeaseTTL\<rparr>"

definition exState :: accessState where
  "exState = emptyState\<lparr>st_Requests := [exRequest]\<rparr>"

definition exLease :: lease where
  "exLease = \<lparr>ls_ID = ''lease_6162636465666768696a6b6c'', ls_RequestID = exID, ls_SessionID = ''s1'',
     ls_Environment = ''dev'', ls_Commands = [''go test''], ls_CreatedAt = 7, ls_ExpiresAt = 7 + hour,
     ls_RevokedAt = None\<rparr>"

definition exLeased :: manager where
  "exLeased = accessStep (exEnv 7) (OpApproveLease exID 0)
     (accessStep (exEnv 5) (OpCreateLease ''s1'' ''dev'' ['' go test'', ''go test''] 0 []) exStart)"

lemma ex_requested:
  "accessStep (exEnv 5) (OpCreateLease ''s1'' ''dev'' ['' go test'', ''go test''] 0 []) exStart =
     exStart\<lparr>m_file := Stored exState\<rparr>"
  by (simp add: CreateLeaseRequest_def create_eval exState_def exRequest_def exID_def DefaultLeaseTTL_def)

lemma exRequest_simps:
  "rq_ID exRequest = exID" "rq_Kind exRequest = RequestLease" "rq_Status exRequest = StatusPending"
  "rq_SessionID exRequest = ''s1''" "rq_Environment exRequest = ''dev''"
  "rq_Commands exRequest = [''go test'']" "rq_RequestedTTL exRequest = hour"
  "rq_ExpiresAt exRequest = 5 + 15 * minute"
  by (simp_all add: exRequest_def zeroRequest_def DefaultLeaseTTL_def DefaultRequestTTL_def)

lemma exState_simps: "st_Requests exState = [exRequest]" "st_Version exState = stateVersion"
  "expire 7 exState = exState"
  by (simp_all add: exState_def emptyState_def expire_def expireRequest_def exRequest_simps)

lemma ex_granted: "grantLease (exEnv 7) 0 () exState exRequest 7 =
   ((), Ok (exState\<lparr>st_Leases := [exLease]\<rparr>,
     exRequest\<lparr>rq_ResultingLeaseID := ''lease_6162636465666768696a6b6c''\<rparr>, exLease))"
  by (simp add: grantLease_def approvedTTL_def exRequest_simps MaxLeaseTTL_def DefaultLeaseTTL_def
      randomID_def ex_hex exLease_def exState_def emptyState_def Let_def)

lemma ex_leased: "\<exists>st. load exLeased = Ok st \<and> st_Leases st = [exLease]"
proof -
  let ?f = "resolveChange (exEnv 7) exID (Some RequestLease) StatusApproved (grantLease (exEnv 7) 0)"
  have "\<exists>rs. ?f () exState = ((), Ok (exState\<lparr>st_Leases := [exLease], st_Requests := rs\<rparr>, exLease))"
    by (rule exI, rule resolveChange_eval [where r = exRequest and stx = exState and i = 0])
      (simp_all add: ex_granted exState_simps exRequest_simps)
  then obtain rs where f: "?f () exState =
      ((), Ok (exState\<lparr>st_Leases := [exLease], st_Requests := rs\<rparr>, exLease))" by blast
  show ?thesis
    using mutate_eval [where f = ?f and st = exState and w = "()" and env = "exEnv 7"
        and m = "exStart\<lparr>m_file := Stored exState\<rparr>", OF _ _ f]
    unfolding exLeased_def ex_requested by (simp add: ApproveLease_def exState_simps)
qed

lemma exLeased_reachable: "reachable exLeased"
  unfolding exLeased_def exStart_def by (intro reachable.step reachable.start)

lemma ex_authorized: "Authorize (exEnv 9) ''s1'' ''dev'' ''go test'' exLeased = Ok ()"
  using ex_leased by (auto simp: Authorize_def exLease_def)

text \<open>A workspace is requested at time 5 and approved at time 7.\<close>

definition exWorkspaceRequest :: request where
  "exWorkspaceRequest = zeroRequest\<lparr>rq_ID := exID, rq_Kind := RequestWorkspace, rq_SessionID := ''s1'',
     rq_Environment := ''dev'', rq_FirstArgv := [''go''], rq_CreatedAt := 5,
     rq_ExpiresAt := 5 + DefaultRequestTTL, rq_RequestedTTL := DefaultWorkspaceTTL\<rparr>"

definition exWorkspaceState :: accessState where
  "exWorkspaceState = emptyState\<lparr>st_Requests := [exWorkspaceRequest]\<rparr>"

definition exGrant :: workspaceGrant where
  "exGrant = \<lparr>wg_ID = ''trust_6162636465666768696a6b6c'', wg_RequestID = exID, wg_SessionID = ''s1'',
     wg_ProjectRoot = ''/p'', wg_Environment = ''dev'', wg_Network = ''normal'', wg_CreatedAt = 7,
     wg_ExpiresAt = 7 + 2 * hour, wg_PausedAt = None, wg_RevokedAt = None\<rparr>"

definition exTrusted :: manager where
  "exTrusted = accessStep (exEnv 7) (OpApproveWorkspace exID 0)
     (accessStep (exEnv 5) (OpCreateWorkspace ''s1'' ''dev'' [''go''] 0 []) exStart)"

lemma ex_workspace_requested:
  "accessStep (exEnv 5) (OpCreateWorkspace ''s1'' ''dev'' [''go''] 0 []) exStart =
     exStart\<lparr>m_file := Stored exWorkspaceState\<rparr>"
  by (simp add: CreateWorkspaceRequest_def create_eval exWorkspaceState_def exWorkspaceRequest_def
      exID_def DefaultWorkspaceTTL_def)

lemma exWorkspaceRequest_simps:
  "rq_ID exWorkspaceRequest = exID" "rq_Kind exWorkspaceRequest = RequestWorkspace"
  "rq_Status exWorkspaceRequest = StatusPending" "rq_SessionID exWorkspaceRequest = ''s1''"
  "rq_Environment exWorkspaceRequest = ''dev''" "rq_RequestedTTL exWorkspaceRequest = 2 * hour"
  "rq_ExpiresAt exWorkspaceRequest = 5 + 15 * minute"
  by (simp_all add: exWorkspaceRequest_def zeroRequest_def DefaultWorkspaceTTL_def DefaultRequestTTL_def)

lemma exWorkspaceState_simps: "st_Requests exWorkspaceState = [exWorkspaceRequest]"
  "st_Version exWorkspaceState = stateVersion" "expire 7 exWorkspaceState = exWorkspaceState"
  by (simp_all add: exWorkspaceState_def emptyState_def expire_def expireRequest_def
      exWorkspaceRequest_simps)

lemma ex_trusted_grant: "grantWorkspace (exEnv 7) ''/p'' 0 () exWorkspaceState exWorkspaceRequest 7 =
   ((), Ok (exWorkspaceState\<lparr>st_WorkspaceGrants := [exGrant]\<rparr>,
     exWorkspaceRequest\<lparr>rq_ResultingLeaseID := ''trust_6162636465666768696a6b6c''\<rparr>, exGrant))"
  by (simp add: grantWorkspace_def approvedTTL_def exWorkspaceRequest_simps MaxLeaseTTL_def
      DefaultWorkspaceTTL_def randomID_def ex_hex exGrant_def exWorkspaceState_def emptyState_def Let_def)

lemma ex_trusted: "AuthorizeWorkspace (exEnv 9) ''s1'' ''dev'' exTrusted = Ok exGrant"
proof -
  let ?f = "resolveChange (exEnv 7) exID (Some RequestWorkspace) StatusApproved
      (grantWorkspace (exEnv 7) ''/p'' 0)"
  have "\<exists>rs. ?f () exWorkspaceState =
      ((), Ok (exWorkspaceState\<lparr>st_WorkspaceGrants := [exGrant], st_Requests := rs\<rparr>, exGrant))"
    by (rule exI, rule resolveChange_eval [where r = exWorkspaceRequest and stx = exWorkspaceState and i = 0])
      (simp_all add: ex_trusted_grant exWorkspaceState_simps exWorkspaceRequest_simps)
  then obtain rs where f: "?f () exWorkspaceState =
      ((), Ok (exWorkspaceState\<lparr>st_WorkspaceGrants := [exGrant], st_Requests := rs\<rparr>, exGrant))" by blast
  have root: "m_root exStart = ''/p''" by (simp add: exStart_def)
  show ?thesis
    using mutate_eval [where f = ?f and st = exWorkspaceState and w = "()" and env = "exEnv 7"
        and m = "exStart\<lparr>m_file := Stored exWorkspaceState\<rparr>", OF _ _ f]
    unfolding exTrusted_def ex_workspace_requested
    by (simp add: ApproveWorkspace_def exWorkspaceState_simps root AuthorizeWorkspace_def exGrant_def
        activeGrant_def)
qed

lemma exTrusted_reachable: "reachable exTrusted"
  unfolding exTrusted_def exStart_def by (intro reachable.step reachable.start)

text \<open>A pending secret request is fulfilled.\<close>

definition exSecretRequest :: request where
  "exSecretRequest = zeroRequest\<lparr>rq_ID := exID, rq_SessionID := ''s1'', rq_ExpiresAt := 100\<rparr>"

definition exSecretState :: accessState where
  "exSecretState = emptyState\<lparr>st_Requests := [exSecretRequest]\<rparr>"

definition exCommit :: "request \<Rightarrow> nat \<Rightarrow> nat \<times> string option" where
  "exCommit r n = (Suc n, None)"

lemma exSecretRequest_simps: "rq_ID exSecretRequest = exID" "rq_Kind exSecretRequest = RequestSecret"
  "rq_Status exSecretRequest = StatusPending" "rq_ExpiresAt exSecretRequest = 100"
  by (simp_all add: exSecretRequest_def zeroRequest_def)

lemma exSecretState_simps: "st_Requests exSecretState = [exSecretRequest]"
  "st_Version exSecretState = stateVersion" "expire 7 exSecretState = exSecretState"
  by (simp_all add: exSecretState_def emptyState_def expire_def expireRequest_def exSecretRequest_simps)

lemma ex_fulfilled:
  "\<exists>m1. FulfillSecretWith (exEnv 7) exID (Some exCommit) (exStart\<lparr>m_file := Stored exSecretState\<rparr>) 0 =
     (m1, 1, Ok (exSecretRequest\<lparr>rq_Status := StatusFulfilled\<rparr>))"
proof -
  let ?f = "resolveChange (exEnv 7) exID (Some RequestSecret) StatusFulfilled (commitSecret (Some exCommit))"
  have "\<exists>rs. ?f 0 exSecretState = (1, Ok (exSecretState\<lparr>st_Requests := rs\<rparr>, exSecretRequest))"
    by (rule exI, rule resolveChange_eval [where r = exSecretRequest and stx = exSecretState and i = 0])
      (simp_all add: exSecretState_simps exSecretRequest_simps commitSecret_def exCommit_def)
  then obtain rs where f: "?f 0 exSecretState = (1, Ok (exSecretState\<lparr>st_Requests := rs\<rparr>, exSecretRequest))"
    by blast
  show ?thesis
    using mutate_eval [where f = ?f and st = exSecretState and w = 0 and env = "exEnv 7"
        and m = "exStart\<lparr>m_file := Stored exSecretState\<rparr>", OF _ _ f]
    by (simp add: FulfillSecretWith_def exSecretState_simps)
qed

section \<open>Properties\<close>

text \<open>C5: The access invariant. In every reachable manager each lease and each workspace grant
  comes from an approved request of the same kind, session, environment and commands, leases
  live at most 24 hours, no session has more than 32 pending requests, and the commands of a
  request are sorted, distinct and trimmed.\<close>

theorem access_invariant:
  assumes "reachable m"
  shows "\<exists>st. load m = Ok st \<and> accessInv (m_root m) st"
  by (rule reachable_inv [OF assms])

theorem access_invariant_witness:
  "\<exists>st. load exLeased = Ok st \<and> accessInv (m_root exLeased) st"
  by (rule access_invariant [OF exLeased_reachable])

text \<open>The lock: when the loop returns, and that a stale lock that stays keeps it going for good.\<close>

definition pollGoesOn :: "lockPoll \<Rightarrow> bool" where
  "pollGoesOn p \<longleftrightarrow> (\<exists>stale late. p = LockBusy stale late \<and> (stale \<or> \<not> late))"

lemma withLock_spins: "withLock polls = Some ErrSpinning \<longleftrightarrow> list_all pollGoesOn polls"
  by (induction polls rule: withLock.induct) (auto simp: pollGoesOn_def)

lemma lockReturns_iff: "lockReturns env \<longleftrightarrow> (\<exists>p \<in> set (os_lock env). \<not> pollGoesOn p)"
  by (auto simp: lockReturns_def withLock_spins list_all_iff)

lemma access_stale_lock_spins: "withLock (replicate n (LockBusy True True)) = Some ErrSpinning"
  by (induction n) simp_all

lemma createRequest_returns:
  assumes "lockReturns env" "createRequest env c m = (m', u, Inl e)"
  shows "e \<noteq> ErrSpinning"
proof -
  have change: "e \<noteq> ErrSpinning" if "createChange env c () st = (w', Inl e)" for st w' e
    using that by (auto simp: createChange_def Let_def randomID_def split: sum.splits if_splits)
  have loaded: "e \<noteq> ErrSpinning" if "load x = Inl e" for x e
    using that by (auto simp: load_def split: stateFile.splits if_splits)
  have saved: "e \<noteq> ErrSpinning" if "saveAtomic os st m = (m', Some e)" for os st m' e
    using that by (cases os) (auto simp: saveAtomic_def)
  from assms show ?thesis
    by (auto simp: createRequest_def mutate_def lockReturns_def dest: change loaded saved
        split: option.splits sum.splits prod.splits)
qed

lemma create_returns:
  assumes "lockReturns env"
  shows "CreateSecretRequestForCommands env s e a k cs reason m = (m', u, Inl err) \<Longrightarrow> err \<noteq> ErrSpinning"
    "CreateLeaseRequest env s e cs ttl reason m = (m', u, Inl err) \<Longrightarrow> err \<noteq> ErrSpinning"
    "CreateWorkspaceRequest env s e argv ttl reason m = (m', u, Inl err) \<Longrightarrow> err \<noteq> ErrSpinning"
  using createRequest_returns [OF assms]
  by (auto simp: CreateSecretRequestForCommands_def CreateLeaseRequest_def CreateWorkspaceRequest_def validateIdentity_def Let_def
      split: if_splits option.splits)

text \<open>Authorization of a command. If \<open>Authorize\<close> lets a session run a command in an
  environment, then a lease of exactly that session and environment that names the command runs: it is not
  revoked, its own deadline, at most 24 hours after its creation, has not passed, and it was created when a human
  approved the request it comes from.\<close>

definition leaseApproved :: "manager \<Rightarrow> osEnv \<Rightarrow> string \<Rightarrow> string \<Rightarrow> string \<Rightarrow> bool" where
  "leaseApproved m env s e c \<longleftrightarrow>
     (\<exists>st l r. load m = Ok st \<and> l \<in> set (st_Leases st) \<and> ls_SessionID l = s \<and> ls_Environment l = e \<and>
        c \<in> set (ls_Commands l) \<and> ls_RevokedAt l = None \<and> os_now env < ls_ExpiresAt l \<and>
        ls_ExpiresAt l \<le> ls_CreatedAt l + MaxLeaseTTL \<and>
        r \<in> set (st_Requests st) \<and> rq_ID r = ls_RequestID l \<and> rq_Kind r = RequestLease \<and>
        rq_Status r = StatusApproved \<and> rq_ResolvedAt r = Some (ls_CreatedAt l) \<and>
        rq_SessionID r = s \<and> rq_Environment r = e \<and> rq_Commands r = ls_Commands l)"

lemma access_authorize_sound:
  assumes "reachable m" "Authorize env s e c m = Ok ()"
  shows "leaseApproved m env s e c"
proof -
  from reachable_inv [OF assms(1)] obtain st where st: "load m = Ok st" "accessInv (m_root m) st"
    by blast
  from assms(2) st(1) have "authorizeLoop (os_now env) s e c (st_Leases st)"
    by (simp add: Authorize_def split: if_splits)
  then obtain l where l: "l \<in> set (st_Leases st)" "ls_SessionID l = s" "ls_Environment l = e"
    "ls_RevokedAt l = None" "os_now env < ls_ExpiresAt l" "c \<in> set (ls_Commands l)"
    by (auto simp: authorizeLoop_iff)
  with st(2) have "leaseLicensed (st_Requests st) l" by (simp add: accessInv_def)
  then obtain r where "r \<in> set (st_Requests st)" "rq_Kind r = RequestLease" "rq_Status r = StatusApproved"
    "rq_ID r = ls_RequestID l" "rq_SessionID r = s" "rq_Environment r = e" "rq_Commands r = ls_Commands l"
    "rq_ResolvedAt r = Some (ls_CreatedAt l)" "ls_ExpiresAt l \<le> ls_CreatedAt l + MaxLeaseTTL"
    using l(2,3) unfolding leaseLicensed_def by auto
  with st(1) l show ?thesis unfolding leaseApproved_def by blast
qed

theorem access_authorize_sound_witness:
  "leaseApproved exLeased (exEnv 9) ''s1'' ''dev'' ''go test''"
  by (rule access_authorize_sound [OF exLeased_reachable ex_authorized])

text \<open>Authorization of a workspace. The grant \<open>AuthorizeWorkspace\<close> returns is for this
  session, project and environment, neither paused nor revoked nor expired, and a human
  approved the workspace request it comes from.\<close>

lemma access_workspace_sound:
  assumes "reachable m" "AuthorizeWorkspace env s e m = Ok g"
  shows "activeGrant (os_now env) (m_root m) s e g \<and>
    (\<exists>st r. load m = Ok st \<and> r \<in> set (st_Requests st) \<and> rq_Kind r = RequestWorkspace \<and>
      rq_Status r = StatusApproved \<and> rq_ID r = wg_RequestID g \<and> rq_SessionID r = s \<and>
      rq_Environment r = e)"
proof -
  from reachable_inv [OF assms(1)] obtain st where st: "load m = Ok st" "accessInv (m_root m) st"
    by blast
  from assms(2) st(1) have f: "find (activeGrant (os_now env) (m_root m) s e) (st_WorkspaceGrants st) = Some g"
    by (simp add: AuthorizeWorkspace_def split: option.splits)
  then have g: "activeGrant (os_now env) (m_root m) s e g" "g \<in> set (st_WorkspaceGrants st)"
    by (auto simp: find_Some_iff)
  with st(2) have "grantLicensed (m_root m) (st_Requests st) g" by (simp add: accessInv_def)
  with st(1) g show ?thesis
    unfolding grantLicensed_def activeGrant_def by metis
qed

theorem access_workspace_sound_witness:
  "activeGrant 9 (m_root exTrusted) ''s1'' ''dev'' exGrant"
  using access_workspace_sound [OF exTrusted_reachable ex_trusted] unfolding exEnv_simps by blast

text \<open>C6: History is never rewritten. Along any run, from any state that loads, requests are
  only appended, a resolved request never changes, the terms of a pending request never
  change, a lease changes only by being revoked, and a revoked grant never changes.\<close>

theorem access_history:
  assumes "load m = Ok st"
  shows "\<exists>st'. load (accessRun evs m) = Ok st' \<and> evolves st st'"
  by (rule accessRun_evolves [OF assms])

theorem access_history_witness:
  "\<exists>st'. load (accessRun [(exEnv 6, OpDeny exID), (exEnv 8, OpApproveLease exID 0)]
       (exStart\<lparr>m_file := Stored exState\<rparr>)) = Ok st' \<and> evolves exState st'"
  by (rule access_history) (simp add: exState_simps)

text \<open>A capsule claim is literally one-use. Once \<open>FulfillSecretWith\<close> has succeeded for an ID,
  then after any run of operations another call for it fails and does not run the commit.\<close>

lemma access_fulfill_once:
  assumes "FulfillSecretWith env rid commit m w = (m1, w1, Ok r)"
  shows "\<exists>e. FulfillSecretWith env' rid commit' (accessRun evs m1) w2 = (accessRun evs m1, w2, Err e)"
proof -
  let ?ch = "resolveChange env rid (Some RequestSecret) StatusFulfilled (commitSecret commit)"
  obtain r0 where mu: "mutate env ?ch m w = (m1, w1, Ok r0)"
    using assms by (auto simp: FulfillSecretWith_def split: prod.splits sum.splits)
  obtain st st' where st: "load m = Ok st" "?ch w st = (w1, Ok (st', r0))"
    "m1 = m\<lparr>m_file := Stored st'\<rparr>" by (rule mutate_Ok [OF mu])
  obtain i q st1 q' where i:
    "indexOf (\<lambda>r. rq_ID r = rid) (st_Requests (expire (os_now env) st)) = Some i"
    "q = st_Requests (expire (os_now env) st) ! i" "rq_Status q = StatusPending"
    "commitSecret commit w (expire (os_now env) st) q (os_now env) = (w1, Ok (st1, q', r0))"
    "st' = st1\<lparr>st_Requests := (st_Requests st1)[i :=
       q'\<lparr>rq_Status := StatusFulfilled, rq_ResolvedAt := Some (os_now env)\<rparr>]\<rparr>"
    by (rule resolveChange_Ok [OF st(2)]) simp
  let ?rs = "st_Requests (expire (os_now env) st)"
  let ?q = "q\<lparr>rq_Status := StatusFulfilled, rq_ResolvedAt := Some (os_now env)\<rparr>"
  have same: "st1 = expire (os_now env) st" "q' = q"
    using i(4) by (auto simp: commitSecret_def split: option.splits prod.splits)
  have il: "i < length ?rs" using indexOf_Some [OF i(1)] by blast
  have rs': "st_Requests st' = ?rs[i := ?q]" using i(5) same by simp
  have "requestEvolves (?rs ! i) ?q" using i(2,3) by (simp add: requestEvolves_def)
  then have "listEvolves requestEvolves ?rs (st_Requests st')"
    unfolding rs' using il by (intro listEvolves_update) simp_all
  from resolved_stays [OF this i(1)]
  have idx: "indexOf (\<lambda>r. rq_ID r = rid) (st_Requests st') = Some i" .
  have fin: "rq_Status (st_Requests st' ! i) \<noteq> StatusPending"
    unfolding rs' using il by simp
  have "load m1 = Ok st'"
    using st(3) load_version [OF st(1)] i(5) same by simp
  from accessRun_evolves [OF this] obtain st2 where
    st2: "load (accessRun evs m1) = Ok st2" "evolves st' st2" by blast
  from st2(2) have "listEvolves requestEvolves (st_Requests st') (st_Requests st2)"
    by (simp add: evolves_def)
  note final = resolveChange_final [OF this idx fin]
  show ?thesis
    by (cases "withLock (os_lock env')")
      (simp_all add: FulfillSecretWith_def mutate_def st2(1) final)
qed

theorem access_fulfill_once_witness:
  "\<exists>m1. fst (FulfillSecretWith (exEnv 7) exID (Some exCommit) (exStart\<lparr>m_file := Stored exSecretState\<rparr>) 0) = m1 \<and>
     (\<exists>e. FulfillSecretWith (exEnv 8) exID (Some exCommit) (accessRun [(exEnv 7, OpRequests)] m1) 1 =
          (accessRun [(exEnv 7, OpRequests)] m1, 1, Err e))"
proof -
  obtain m1 where m1: "FulfillSecretWith (exEnv 7) exID (Some exCommit)
      (exStart\<lparr>m_file := Stored exSecretState\<rparr>) 0 = (m1, 1, Ok (exSecretRequest\<lparr>rq_Status := StatusFulfilled\<rparr>))"
    using ex_fulfilled by blast
  show ?thesis
    using access_fulfill_once [OF m1, of "exEnv 8" "Some exCommit" "[(exEnv 7, OpRequests)]" 1] m1
    by auto
qed

end
