(* ===== verification/Policy.thy ===== *)
theory Policy
  imports GoStrings
begin

text \<open>
  Policy files: \<open>src/internal/policy/policy.go\<close> (validation, lookups, network posture, shell
  detection) and \<open>src/internal/policy/lint.go\<close> (the security review).

  The YAML decoder is third-party code: \<open>Parse\<close> takes it as an argument.  A Go map is an
  association list with distinct keys, in the order an iteration over it takes; the outcome
  of validation does not depend on that order, only which error is reported first does.
  Error values keep what they are about; the message texts of findings are left out.
\<close>

section \<open>Data\<close>

record secretDecl =
  sd_Env :: string
  sd_Store :: string
  sd_Allow :: "string list"
  sd_Kind :: string
  sd_Filename :: string

record command =
  c_ID :: string
  c_Argv :: "string list"
  c_Env :: "(string \<times> string) list"
  c_Secrets :: "string list"
  c_TTL :: duration
  c_MaxBytes :: int
  c_NoNetwork :: bool
  c_AllowNetwork :: bool
  c_WorkDir :: string
  c_Seccomp :: "bool option"

record policyFile =
  f_Version :: string
  f_Provider :: string
  f_Commands :: "command list"
  f_EnvironmentSet :: string
  f_Secrets :: "(string \<times> secretDecl) list"
  f_SeccompDefault :: "bool option"
  f_AuditLog :: string
  f_AllowProposals :: bool
  f_RequireAgentLeases :: bool

datatype policyError =
    ErrPolicyNotFound
  | ErrMalformed string
  | ErrBadVersion string
  | ErrNoCommands
  | ErrCommandNotFound string

definition SupportedVersionV1 :: string where "SupportedVersionV1 = ''1''"
definition SupportedVersionV2 :: string where "SupportedVersionV2 = ''2''"

definition EffectiveKind :: "secretDecl \<Rightarrow> string" where
  "EffectiveKind s = (if sd_Kind s = [] then ''env'' else sd_Kind s)"

definition SeccompEnabled :: "command \<Rightarrow> policyFile option \<Rightarrow> bool" where
  "SeccompEnabled c f =
     (case c_Seccomp c of
        Some b \<Rightarrow> b
      | None \<Rightarrow> (case f of
                   None \<Rightarrow> True
                 | Some pf \<Rightarrow> (case f_SeccompDefault pf of Some b \<Rightarrow> b | None \<Rightarrow> True)))"

definition HasSecrets :: "command \<Rightarrow> bool" where
  "HasSecrets c \<longleftrightarrow> length (c_Env c) > 0 \<or> length (c_Secrets c) > 0"

definition EffectiveNoNetwork :: "command \<Rightarrow> bool" where
  "EffectiveNoNetwork c =
     (if c_NoNetwork c then True else if c_AllowNetwork c then False else HasSecrets c)"

section \<open>Validation\<close>

definition asciiLetter :: "char \<Rightarrow> bool" where
  "asciiLetter c \<longleftrightarrow> (CHR ''a'' \<le> c \<and> c \<le> CHR ''z'') \<or> (CHR ''A'' \<le> c \<and> c \<le> CHR ''Z'')"

definition asciiDigit :: "char \<Rightarrow> bool" where
  "asciiDigit c \<longleftrightarrow> CHR ''0'' \<le> c \<and> c \<le> CHR ''9''"

text \<open>
  The loops over runes: a byte outside ASCII belongs to a rune that is not in the set, so the
  bytes decide.
\<close>

definition validEntryName :: "string \<Rightarrow> bool" where
  "validEntryName name \<longleftrightarrow> name \<noteq> [] \<and>
     list_all (\<lambda>r. asciiLetter r \<or> asciiDigit r \<or> r = CHR ''-'' \<or> r = CHR ''_'' \<or> r = CHR ''.'') name"

fun validTargetFrom :: "nat \<Rightarrow> string \<Rightarrow> bool" where
  "validTargetFrom i [] \<longleftrightarrow> True"
| "validTargetFrom i (r # s) \<longleftrightarrow>
     (r = CHR ''_'' \<or> asciiLetter r \<or> i > 0 \<and> asciiDigit r) \<and> validTargetFrom (Suc i) s"

definition validEnvTarget :: "string \<Rightarrow> bool" where
  "validEnvTarget name \<longleftrightarrow> name \<noteq> [] \<and> validTargetFrom 0 name"

definition unsafeFilename :: "string \<Rightarrow> bool" where
  "unsafeFilename n \<longleftrightarrow>
     n = [] \<or> Base n \<noteq> n \<or> n = ''.'' \<or> n = ''..'' \<or> ContainsAny n [CHR ''/'', CHR 0x5C]"

text \<open>The loop over the secret declarations, with the targets and names of file secrets so far.\<close>

fun checkSecrets :: "string list \<Rightarrow> string list \<Rightarrow> (string \<times> secretDecl) list \<Rightarrow> policyError option" where
  "checkSecrets targets names [] = None"
| "checkSecrets targets names ((alias, s) # rest) =
     (if EffectiveKind s \<noteq> ''env'' \<and> EffectiveKind s \<noteq> ''file'' then Some (ErrMalformed alias)
      else if \<not> validEnvTarget (sd_Env s) then Some (ErrMalformed alias)
      else if EffectiveKind s = ''file'' then
        (if unsafeFilename (sd_Filename s) then Some (ErrMalformed alias)
         else if sd_Env s \<in> set targets then Some (ErrMalformed alias)
         else if sd_Filename s \<in> set names then Some (ErrMalformed alias)
         else checkSecrets (sd_Env s # targets) (sd_Filename s # names) rest)
      else checkSecrets targets names rest)"

text \<open>The loop over the secrets of one command.\<close>

fun checkCommandSecrets :: "policyFile \<Rightarrow> string \<Rightarrow> string list \<Rightarrow> string list \<Rightarrow> policyError option" where
  "checkCommandSecrets f cid seen [] = None"
| "checkCommandSecrets f cid seen (alias # rest) =
     (if alias \<in> set seen then Some (ErrMalformed cid)
      else if f_Version f = SupportedVersionV2 then
        (if \<not> validEntryName alias then Some (ErrMalformed cid)
         else checkCommandSecrets f cid (alias # seen) rest)
      else (case map_of (f_Secrets f) alias of
              None \<Rightarrow> Some (ErrMalformed cid)
            | Some s \<Rightarrow>
                if sd_Env s = [] then Some (ErrMalformed cid)
                else if cid \<notin> set (sd_Allow s) then Some (ErrMalformed cid)
                else checkCommandSecrets f cid (alias # seen) rest))"

fun checkCommands :: "policyFile \<Rightarrow> string list \<Rightarrow> command list \<Rightarrow> policyError option" where
  "checkCommands f seen [] = None"
| "checkCommands f seen (c # rest) =
     (if c_ID c = [] then Some (ErrMalformed [])
      else if c_ID c \<in> set seen then Some (ErrMalformed (c_ID c))
      else if c_Argv c = [] then Some (ErrMalformed (c_ID c))
      else if \<not> list_all (\<lambda>(name, _). validEnvTarget name) (c_Env c) then Some (ErrMalformed (c_ID c))
      else (case checkCommandSecrets f (c_ID c) [] (c_Secrets c) of
              Some e \<Rightarrow> Some e
            | None \<Rightarrow> checkCommands f (c_ID c # seen) rest))"

definition Parse :: "(bytes \<Rightarrow> string + policyFile) \<Rightarrow> bytes \<Rightarrow> policyError + policyFile" where
  "Parse decode data =
     (case decode data of
        Inl e \<Rightarrow> Err (ErrMalformed e)
      | Inr f \<Rightarrow>
          if f_Version f \<noteq> SupportedVersionV1 \<and> f_Version f \<noteq> SupportedVersionV2
          then Err (ErrBadVersion (f_Version f))
          else if f_Commands f = [] then Err ErrNoCommands
          else (case checkSecrets [] [] (f_Secrets f) of
                  Some e \<Rightarrow> Err e
                | None \<Rightarrow>
                    (case checkCommands f [] (f_Commands f) of
                       Some e \<Rightarrow> Err e
                     | None \<Rightarrow> Ok f)))"

text \<open>What reading a file gives: not there, another error, or its bytes.\<close>

datatype readResult = ReadMissing | ReadFailed string | ReadData bytes

definition Load :: "(bytes \<Rightarrow> string + policyFile) \<Rightarrow> readResult \<Rightarrow> policyError + policyFile" where
  "Load decode r =
     (case r of
        ReadMissing \<Rightarrow> Err ErrPolicyNotFound
      | ReadFailed e \<Rightarrow> Err (ErrMalformed e)
      | ReadData data \<Rightarrow> Parse decode data)"

section \<open>Using a policy\<close>

definition UsesEnvironmentEntries :: "policyFile option \<Rightarrow> bool" where
  "UsesEnvironmentEntries f \<longleftrightarrow> (case f of None \<Rightarrow> False | Some pf \<Rightarrow> f_Version pf = SupportedVersionV2)"

definition SecretBinding :: "policyFile option \<Rightarrow> string \<Rightarrow> (string \<times> string) option" where
  "SecretBinding f name =
     (case f of
        None \<Rightarrow> None
      | Some pf \<Rightarrow>
          if UsesEnvironmentEntries f
          then if list_ex (\<lambda>c. list_ex (\<lambda>entry. entry = name) (c_Secrets c)) (f_Commands pf)
               then Some (name, []) else None
          else (case map_of (f_Secrets pf) name of
                  None \<Rightarrow> None
                | Some s \<Rightarrow> if sd_Env s = [] then None else Some (sd_Env s, sd_Store s)))"

definition Lookup :: "policyFile \<Rightarrow> string \<Rightarrow> policyError + command" where
  "Lookup f cid =
     (case find (\<lambda>c. c_ID c = cid) (f_Commands f) of
        None \<Rightarrow> Err (ErrCommandNotFound cid)
      | Some c \<Rightarrow> Ok c)"

text \<open>\<open>AuthorizeArgv\<close>: \<open>Inl\<close> the index of the first mismatch (or the two lengths).\<close>

datatype argvError = ArgvLength nat nat | ArgvMismatch nat

fun authorizeFrom :: "nat \<Rightarrow> string list \<Rightarrow> string list \<Rightarrow> argvError option" where
  "authorizeFrom i (w # ws) (a # as) =
     (if a \<noteq> w then Some (ArgvMismatch i) else authorizeFrom (Suc i) ws as)"
| "authorizeFrom i _ _ = None"

definition AuthorizeArgv :: "command \<Rightarrow> string list \<Rightarrow> argvError option" where
  "AuthorizeArgv c argv =
     (if length argv \<noteq> length (c_Argv c) then Some (ArgvLength (length argv) (length (c_Argv c)))
      else authorizeFrom 0 (c_Argv c) argv)"

definition shellBaseName :: "string \<Rightarrow> string" where
  "shellBaseName arg = ToLower (Base (Clean arg))"

definition shellNames :: "string list" where
  "shellNames = [''sh'', ''bash'', ''zsh'', ''fish'', ''dash'', ''ash'', ''ksh'', ''csh'', ''tcsh'',
     ''rbash'', ''mksh'', ''busybox'', ''toybox'']"

definition isShellProgram :: "string \<Rightarrow> bool" where
  "isShellProgram arg \<longleftrightarrow> shellBaseName arg \<in> set shellNames"

fun envRunsShell :: "string list \<Rightarrow> bool" where
  "envRunsShell [] \<longleftrightarrow> False"
| "envRunsShell (a # as) \<longleftrightarrow>
     (if a = [] \<or> prefix ''-'' a \<or> sublist ''='' a then envRunsShell as else isShellProgram a)"

definition IsShellString :: "string list \<Rightarrow> bool" where
  "IsShellString argv =
     (case argv of
        [] \<Rightarrow> False
      | a0 # rest \<Rightarrow>
          if isShellProgram a0 then True
          else if shellBaseName a0 = ''env'' then envRunsShell rest
          else False)"

section \<open>Lint\<close>

datatype severity = SeverityInfo | SeverityWarn | SeverityError

record finding =
  fd_Severity :: severity
  fd_Code :: string
  fd_CmdID :: string

definition interpreters :: "string list" where
  "interpreters = [''python'', ''python3'', ''node'', ''nodejs'', ''ruby'', ''perl'', ''php'', ''deno'', ''bun'']"

definition evalFlags :: "string list" where
  "evalFlags = [''-c'', ''-e'', ''--eval'', ''-E'']"

definition longTTLThreshold :: duration where "longTTLThreshold = hour"
definition secretSpreadMax :: nat where "secretSpreadMax = 3"

definition secretPrefixes :: "string list" where
  "secretPrefixes = [''sk_live_'', ''sk_test_'', ''ghp_'', ''gho_'', ''ghs_'', ''github_pat_'',
     ''xoxb-'', ''xoxp-'', ''AKIA'', ''ASIA'', ''AIza'', ''-----BEGIN'']"

definition looksLikeSecret :: "string \<Rightarrow> bool" where
  "looksLikeSecret s \<longleftrightarrow> list_ex (\<lambda>p. prefix p s) secretPrefixes"

definition mkFinding :: "severity \<Rightarrow> string \<Rightarrow> string \<Rightarrow> finding" where
  "mkFinding sev code cid = \<lparr>fd_Severity = sev, fd_Code = code, fd_CmdID = cid\<rparr>"

text \<open>The refs of a command, and the distinct command IDs that use a ref.\<close>

definition commandRefs :: "command \<Rightarrow> string list" where
  "commandRefs c = List.map snd (c_Env c) @ c_Secrets c"

definition refCmds :: "command list \<Rightarrow> string \<Rightarrow> string list" where
  "refCmds cs ref = remdups (List.map c_ID (List.filter (\<lambda>c. ref \<in> set (commandRefs c)) cs))"

definition lintCommand :: "command \<Rightarrow> finding list" where
  "lintCommand c =
     (let hasSecrets = HasSecrets c;
          base = (if length (c_Argv c) > 0 then Base (hd (c_Argv c)) else [])
      in (if IsShellString (c_Argv c) then [mkFinding SeverityError ''SHELL_ARGV'' (c_ID c)] else []) @
         (if base \<in> set interpreters
          then mkFinding SeverityWarn ''INTERPRETER_ARBITRARY'' (c_ID c) #
               (if list_ex (\<lambda>a. a \<in> set evalFlags) (tl (c_Argv c))
                then [mkFinding (if hasSecrets then SeverityError else SeverityWarn)
                        ''INTERPRETER_EVAL'' (c_ID c)] else [])
          else []) @
         (if c_TTL c = 0 then [mkFinding SeverityWarn ''NO_TTL'' (c_ID c)]
          else if c_TTL c > longTTLThreshold \<and> hasSecrets
          then [mkFinding SeverityInfo ''LONG_TTL_WITH_SECRETS'' (c_ID c)] else []) @
         (if hasSecrets \<and> \<not> EffectiveNoNetwork c
          then [mkFinding SeverityWarn ''EGRESS_WITH_SECRETS'' (c_ID c)] else []) @
         (if hasSecrets \<and> \<not> c_NoNetwork c \<and> \<not> c_AllowNetwork c
          then [mkFinding SeverityWarn ''NETWORK_DEFAULT_DENY'' (c_ID c)] else []) @
         (if hasSecrets \<and> c_MaxBytes c = 0
          then [mkFinding SeverityInfo ''NO_MAX_BYTES'' (c_ID c)] else []) @
         List.map (\<lambda>_. mkFinding SeverityWarn ''SECRET_IN_ARGV'' (c_ID c))
           (List.filter looksLikeSecret (c_Argv c)))"

definition Lint :: "policyFile \<Rightarrow> finding list" where
  "Lint f =
     (let cs = f_Commands f;
          spread = List.filter (\<lambda>ref. length (refCmds cs ref) > secretSpreadMax)
                     (remdups (concat (List.map commandRefs cs)))
      in concat (List.map lintCommand cs) @
         List.map (\<lambda>_. mkFinding SeverityWarn ''SECRET_SPREAD'' []) (sort spread))"

end
