(* ===== verification/Policy_Props.thy ===== *)
theory Policy_Props
  imports Policy
begin

text \<open>
  What validation establishes, that a validated policy resolves every secret its commands
  name, that argv authorization is equality, that shells are recognised wherever they live and
  however their name is capitalised, and what a clean lint report guarantees.
\<close>

section \<open>Well-formed policies\<close>

definition wfSecret :: "secretDecl \<Rightarrow> bool" where
  "wfSecret s \<longleftrightarrow> EffectiveKind s \<in> {''env'', ''file''} \<and> validEnvTarget (sd_Env s) \<and>
     (EffectiveKind s = ''file'' \<longrightarrow> \<not> unsafeFilename (sd_Filename s))"

definition fileSecrets :: "(string \<times> secretDecl) list \<Rightarrow> secretDecl list" where
  "fileSecrets ss = List.filter (\<lambda>s. EffectiveKind s = ''file'') (List.map snd ss)"

definition wfSecrets :: "(string \<times> secretDecl) list \<Rightarrow> bool" where
  "wfSecrets ss \<longleftrightarrow> (\<forall>(alias, s) \<in> set ss. wfSecret s) \<and>
     distinct (List.map sd_Env (fileSecrets ss)) \<and> distinct (List.map sd_Filename (fileSecrets ss))"

definition wfCommandSecret :: "policyFile \<Rightarrow> string \<Rightarrow> string \<Rightarrow> bool" where
  "wfCommandSecret f cid alias \<longleftrightarrow>
     (if f_Version f = SupportedVersionV2 then validEntryName alias
      else (\<exists>s. map_of (f_Secrets f) alias = Some s \<and> sd_Env s \<noteq> [] \<and> cid \<in> set (sd_Allow s)))"

definition wfCommand :: "policyFile \<Rightarrow> command \<Rightarrow> bool" where
  "wfCommand f c \<longleftrightarrow> c_ID c \<noteq> [] \<and> c_Argv c \<noteq> [] \<and> (\<forall>(name, _) \<in> set (c_Env c). validEnvTarget name) \<and>
     distinct (c_Secrets c) \<and> (\<forall>alias \<in> set (c_Secrets c). wfCommandSecret f (c_ID c) alias)"

definition wfPolicy :: "policyFile \<Rightarrow> bool" where
  "wfPolicy f \<longleftrightarrow> f_Version f \<in> {SupportedVersionV1, SupportedVersionV2} \<and> f_Commands f \<noteq> [] \<and>
     wfSecrets (f_Secrets f) \<and> distinct (List.map c_ID (f_Commands f)) \<and>
     (\<forall>c \<in> set (f_Commands f). wfCommand f c)"

lemma checkSecrets_None:
  "checkSecrets targets names ss = None \<longleftrightarrow>
     (\<forall>(alias, s) \<in> set ss. wfSecret s) \<and>
     distinct (List.map sd_Env (fileSecrets ss)) \<and> distinct (List.map sd_Filename (fileSecrets ss)) \<and>
     set targets \<inter> sd_Env ` set (fileSecrets ss) = {} \<and>
     set names \<inter> sd_Filename ` set (fileSecrets ss) = {}"
proof (induction targets names ss rule: checkSecrets.induct)
  case (2 targets names al s rest)
  consider "\<not> wfSecret s" | "wfSecret s" "EffectiveKind s = ''file''" | "wfSecret s" "EffectiveKind s = ''env''"
    by (auto simp: wfSecret_def)
  then show ?case
  proof cases
    case 1
    then show ?thesis by (auto simp: wfSecret_def)
  next
    case 2
    with "2.IH"(1) show ?thesis by (auto simp: wfSecret_def fileSecrets_def)
  next
    case 3
    with "2.IH"(2) show ?thesis by (auto simp: wfSecret_def fileSecrets_def)
  qed
qed (simp add: fileSecrets_def)

lemma checkCommandSecrets_None:
  "checkCommandSecrets f cid seen xs = None \<longleftrightarrow>
     distinct xs \<and> set seen \<inter> set xs = {} \<and> (\<forall>alias \<in> set xs. wfCommandSecret f cid alias)"
  by (induction f cid seen xs rule: checkCommandSecrets.induct)
    (auto simp: wfCommandSecret_def split: option.split)

lemma checkCommands_None:
  "checkCommands f seen cs = None \<longleftrightarrow>
     distinct (List.map c_ID cs) \<and> set seen \<inter> c_ID ` set cs = {} \<and> (\<forall>c \<in> set cs. wfCommand f c)"
proof (induction f seen cs rule: checkCommands.induct)
  case (2 f seen c rest)
  have s: "checkCommandSecrets f (c_ID c) [] (c_Secrets c) = None \<longleftrightarrow>
      distinct (c_Secrets c) \<and> (\<forall>alias \<in> set (c_Secrets c). wfCommandSecret f (c_ID c) alias)"
    by (simp add: checkCommandSecrets_None)
  show ?case
  proof (cases "wfCommand f c \<and> c_ID c \<notin> set seen")
    case True
    with 2 s show ?thesis
      by (auto simp: wfCommand_def list_all_iff split: option.split)
  next
    case False
    with s show ?thesis
      by (auto simp: wfCommand_def list_all_iff split: option.split)
  qed
qed simp

lemma Parse_Ok:
  "Parse decode data = Ok f \<longleftrightarrow> decode data = Inr f \<and> wfPolicy f"
proof (cases "decode data")
  case (Inr g)
  have "checkSecrets [] [] (f_Secrets g) = None \<longleftrightarrow> wfSecrets (f_Secrets g)"
    by (simp add: checkSecrets_None wfSecrets_def)
  moreover have "checkCommands g [] (f_Commands g) = None \<longleftrightarrow>
      distinct (List.map c_ID (f_Commands g)) \<and> (\<forall>c \<in> set (f_Commands g). wfCommand g c)"
    by (simp add: checkCommands_None)
  ultimately show ?thesis
    using Inr by (auto simp: Parse_def wfPolicy_def split: option.split)
qed (simp add: Parse_def)

section \<open>Base names\<close>

lemma cleanParts_last:
  assumes "x \<noteq> []" "x \<noteq> ''.''" "x \<noteq> ''..''"
  shows "\<exists>ys. cleanParts rooted out (ps @ [x]) = ys @ [x]"
  using assms
proof (induction rooted out ps rule: cleanParts.induct)
  case (2 rooted out c cs)
  then show ?case by (auto split: list.split)
qed simp

lemma Join_last: "\<exists>p. Join (ys @ [x]) ''/'' = p @ x \<and> (p = [] \<or> last p = CHR ''/'')"
proof (induction ys)
  case (Cons y ys)
  then obtain p where "Join (ys @ [x]) ''/'' = p @ x" "p = [] \<or> last p = CHR ''/''" by blast
  moreover have "Join ((y # ys) @ [x]) ''/'' = y @ ''/'' @ Join (ys @ [x]) ''/''"
    by (cases ys) auto
  ultimately have "Join ((y # ys) @ [x]) ''/'' = (y @ ''/'' @ p) @ x \<and> last (y @ ''/'' @ p) = CHR ''/''"
    by auto
  then show ?case by blast
qed (auto intro: exI [of _ "[]"])

lemma Base_last:
  assumes "x \<noteq> []" "CHR ''/'' \<notin> set x" "p = [] \<or> last p = CHR ''/''"
  shows "Base (p @ x) = x"
proof -
  have "dropWhile (\<lambda>c. c = CHR ''/'') (rev x @ rev p) = rev x @ rev p"
    using assms(1,2) by (cases "rev x") (auto simp: rev_eq_Cons_iff)
  moreover have "takeWhile (\<lambda>c. c \<noteq> CHR ''/'') (rev x @ rev p) = rev x"
  proof -
    have "takeWhile (\<lambda>c. c \<noteq> CHR ''/'') (rev p) = []"
      using assms(3) by (cases p rule: rev_cases) auto
    then show ?thesis using assms(2) by (subst takeWhile_append2) auto
  qed
  ultimately show ?thesis using assms(1) by (simp add: Base_def)
qed

lemma Base_Clean_path:
  assumes "x \<noteq> []" "x \<noteq> ''.''" "x \<noteq> ''..''" "CHR ''/'' \<notin> set x"
  shows "Base (Clean (d @ ''/'' @ x)) = x" and "Base (Clean x) = x"
proof -
  have parts: "Base (if rooted then ''/'' @ Join (cleanParts rooted [] (ps @ [x])) ''/''
      else if Join (cleanParts rooted [] (ps @ [x])) ''/'' = [] then ''.''
      else Join (cleanParts rooted [] (ps @ [x])) ''/'') = x" for rooted ps
  proof -
    obtain ys where "cleanParts rooted [] (ps @ [x]) = ys @ [x]"
      using cleanParts_last [OF assms(1-3)] by blast
    moreover obtain p where p: "Join (ys @ [x]) ''/'' = p @ x" "p = [] \<or> last p = CHR ''/''"
      using Join_last by blast
    moreover have "Base (''/'' @ p @ x) = x"
      using Base_last [OF assms(1,4), of "''/'' @ p"] p(2) by (cases "p = []") simp_all
    ultimately show ?thesis using Base_last [OF assms(1,4) p(2)] assms(1) by auto
  qed
  have "splitByte (CHR ''/'') (d @ CHR ''/'' # x) = splitByte (CHR ''/'') d @ [x]"
    using assms(4) by (simp add: splitByte_append_sep splitByte_free)
  with parts [of "prefix ''/'' (d @ ''/'' @ x)" "splitByte (CHR ''/'') d"]
  show "Base (Clean (d @ ''/'' @ x)) = x"
    unfolding Clean_def Let_def by (simp only: append_Cons append_Nil)
  show "Base (Clean x) = x"
    using parts [of "prefix ''/'' x" "[]"] assms(4) unfolding Clean_def Let_def
    by (simp only: splitByte_free append_Nil not_False_eq_True)
qed

lemma lowerByte_shell:
  assumes "ToLower x = n" "n \<in> set shellNames" "\<forall>c \<in> set x. (of_char c :: nat) < 128"
  shows "x \<noteq> []" "x \<noteq> ''.''" "x \<noteq> ''..''" "CHR ''/'' \<notin> set x"
proof -
  have low: "List.map lowerByte x = n" using assms(1,3) ToLower_ascii by simp
  have "CHR ''/'' \<notin> set n" "CHR ''.'' \<notin> set n" "n \<noteq> []"
    using assms(2) by (auto simp: shellNames_def)
  moreover have "lowerByte (CHR ''/'') = CHR ''/''" "lowerByte (CHR ''.'') = CHR ''.''"
    by (simp_all add: lowerByte_def)
  ultimately have "CHR ''/'' \<notin> set x" "CHR ''.'' \<notin> set x" "x \<noteq> []"
    unfolding low [symmetric] by (auto simp: image_iff)
  then show "x \<noteq> []" "x \<noteq> ''.''" "x \<noteq> ''..''" "CHR ''/'' \<notin> set x" by auto
qed

lemma envRunsShell_skip:
  "\<forall>a \<in> set flags. a = [] \<or> prefix ''-'' a \<or> sublist ''='' a \<Longrightarrow>
   envRunsShell (flags @ rest) = envRunsShell rest"
  by (induction flags) auto

section \<open>A clean report\<close>

text \<open>What the review wants of one command.\<close>

definition safeCommand :: "command \<Rightarrow> bool" where
  "safeCommand c \<longleftrightarrow> \<not> IsShellString (c_Argv c) \<and>
     (c_Argv c \<noteq> [] \<longrightarrow> Base (hd (c_Argv c)) \<notin> set interpreters) \<and> c_TTL c \<noteq> 0 \<and>
     (HasSecrets c \<longrightarrow> c_NoNetwork c) \<and> (\<forall>a \<in> set (c_Argv c). \<not> looksLikeSecret a)"

definition isInfo :: "finding \<Rightarrow> bool" where
  "isInfo fd \<longleftrightarrow> fd_Severity fd = SeverityInfo"

lemma isInfo_mkFinding [simp]: "isInfo (mkFinding sev code cid) \<longleftrightarrow> sev = SeverityInfo"
  by (simp add: isInfo_def mkFinding_def)

lemma list_all_const: "list_all P (List.map (\<lambda>_. x) xs) \<longleftrightarrow> xs = [] \<or> P x"
  by (cases xs) (auto simp: list_all_iff)

lemma list_all_concat: "list_all P (concat (List.map g xs)) \<longleftrightarrow> list_all (\<lambda>x. list_all P (g x)) xs"
  by (induction xs) auto

lemma lintCommand_clean: "list_all isInfo (lintCommand c) \<longleftrightarrow> safeCommand c"
proof -
  have "[] \<notin> set interpreters" by (simp add: interpreters_def)
  then show ?thesis
    unfolding lintCommand_def Let_def safeCommand_def EffectiveNoNetwork_def
    by (cases "HasSecrets c"; cases "c_Argv c = []") (auto simp: list_all_const filter_empty_conv)
qed

lemma sort_eq_Nil: "sort (xs :: string list) = [] \<longleftrightarrow> xs = []"
  by (metis length_0_conv length_sort)

lemma refCmds_bound: "ref \<notin> set (concat (List.map commandRefs cs)) \<Longrightarrow> refCmds cs ref = []"
  by (auto simp: refCmds_def filter_empty_conv)

section \<open>An example policy\<close>

definition exSecretDecl :: secretDecl where
  "exSecretDecl = \<lparr>sd_Env = ''API_KEY'', sd_Store = ''vault'', sd_Allow = [''test''], sd_Kind = [],
     sd_Filename = []\<rparr>"

definition exCommand :: command where
  "exCommand = \<lparr>c_ID = ''test'', c_Argv = [''go'', ''test''], c_Env = [], c_Secrets = [''api''],
     c_TTL = minute, c_MaxBytes = 0, c_NoNetwork = True, c_AllowNetwork = False, c_WorkDir = [],
     c_Seccomp = None\<rparr>"

definition exPolicy :: policyFile where
  "exPolicy = \<lparr>f_Version = ''1'', f_Provider = ''env'', f_Commands = [exCommand], f_EnvironmentSet = [],
     f_Secrets = [(''api'', exSecretDecl)], f_SeccompDefault = None, f_AuditLog = [],
     f_AllowProposals = False, f_RequireAgentLeases = False\<rparr>"

lemma exPolicy_wf: "wfPolicy exPolicy"
  by (simp add: wfPolicy_def exPolicy_def SupportedVersionV1_def SupportedVersionV2_def wfSecrets_def
      wfSecret_def exSecretDecl_def EffectiveKind_def validEnvTarget_def asciiLetter_def asciiDigit_def
      fileSecrets_def wfCommand_def exCommand_def wfCommandSecret_def less_eq_char_def of_char_of)

section \<open>Properties\<close>

text \<open>C7: Validation is exactly well-formedness. \<open>Parse\<close> accepts a decoded document if and only if
  it has a known version and at least one command, IDs are unique and non-empty, argvs are
  non-empty, every environment target is an identifier, file secrets have safe names and
  distinct targets and names, and every secret a command names is declared and allowed.\<close>

theorem policy_parse_iff:
  "Parse decode data = Ok f \<longleftrightarrow> decode data = Inr f \<and> wfPolicy f"
  by (rule Parse_Ok)

text \<open>Every secret a validated policy names resolves. For a command of a parsed policy,
  \<open>SecretBinding\<close> of each of its secrets gives a key: the entry itself in version 2, and in
  version 1 the declared environment target, with the command on the secret's allow list.\<close>

lemma policy_bindings:
  assumes "Parse decode data = Ok f" "c \<in> set (f_Commands f)" "name \<in> set (c_Secrets c)"
  shows "Lookup f (c_ID c) = Ok c \<and>
    (if f_Version f = SupportedVersionV2 then SecretBinding (Some f) name = Some (name, []) \<and> validEntryName name
     else (\<exists>s. map_of (f_Secrets f) name = Some s \<and> c_ID c \<in> set (sd_Allow s) \<and>
       SecretBinding (Some f) name = Some (sd_Env s, sd_Store s) \<and> validEnvTarget (sd_Env s)))"
proof -
  from assms(1) have wf: "wfPolicy f" by (simp add: Parse_Ok)
  then have cmd: "wfCommandSecret f (c_ID c) name"
    using assms(2,3) by (auto simp: wfPolicy_def wfCommand_def)
  have dist: "distinct (List.map c_ID (f_Commands f))" using wf by (simp add: wfPolicy_def)
  have "find (\<lambda>d. c_ID d = c_ID c) cs = Some c" if "distinct (List.map c_ID cs)" "c \<in> set cs" for cs
    using that by (induction cs) auto
  with dist assms(2) have "Lookup f (c_ID c) = Ok c" by (simp add: Lookup_def)
  moreover have "validEnvTarget (sd_Env s)" if "map_of (f_Secrets f) name = Some s" for s
    using wf map_of_SomeD [OF that] by (auto simp: wfPolicy_def wfSecrets_def wfSecret_def)
  ultimately show ?thesis
    using cmd assms(2,3)
    by (auto simp: wfCommandSecret_def SecretBinding_def UsesEnvironmentEntries_def list_ex_iff)
qed

theorem policy_bindings_witness:
  "Lookup exPolicy ''test'' = Ok exCommand \<and> SecretBinding (Some exPolicy) ''api'' = Some (''API_KEY'', ''vault'')"
proof -
  have "Parse (\<lambda>_. Inr exPolicy) [] = Ok exPolicy" by (simp add: Parse_Ok exPolicy_wf)
  from policy_bindings [OF this, of exCommand "''api''"] show ?thesis
    by (simp add: exPolicy_def exCommand_def exSecretDecl_def SupportedVersionV2_def)
qed

text \<open>Exact argv. \<open>AuthorizeArgv\<close> accepts an argument vector exactly when it is the one of the
  policy, element by element.\<close>

lemma policy_argv_exact: "AuthorizeArgv c argv = None \<longleftrightarrow> argv = c_Argv c"
proof -
  have "authorizeFrom i ws as = None \<longleftrightarrow> as = ws" if "length as = length ws" for i ws as
    using that by (induction i ws as rule: authorizeFrom.induct) auto
  then show ?thesis by (auto simp: AuthorizeArgv_def)
qed

text \<open>Shells are recognised. A program whose base name is a shell in any capitalisation is
  a shell string, bare or in any directory, and also behind \<open>env\<close> with flags and assignments.\<close>

lemma policy_shell_detected:
  assumes "n \<in> set shellNames" "ToLower x = n" "\<forall>c \<in> set x. (of_char c :: nat) < 128"
    and "shellBaseName e = ''env''" "\<forall>a \<in> set flags. a = [] \<or> prefix ''-'' a \<or> sublist ''='' a"
    and "\<not> sublist ''='' (d @ ''/'' @ x)" "\<not> prefix ''-'' (d @ ''/'' @ x)"
  shows "IsShellString (x # args) \<and> IsShellString ((d @ ''/'' @ x) # args) \<and>
    IsShellString (e # flags @ (d @ ''/'' @ x) # args)"
proof -
  note x = lowerByte_shell [OF assms(2,1,3)]
  have prog: "isShellProgram x" "isShellProgram (d @ ''/'' @ x)"
    using assms(1,2) Base_Clean_path [OF x] by (simp_all add: isShellProgram_def shellBaseName_def)
  then have one: "IsShellString (x # args) \<and> IsShellString ((d @ ''/'' @ x) # args)"
    by (simp add: IsShellString_def)
  have "d @ ''/'' @ x \<noteq> []" by simp
  with prog(2) assms(6,7) have "envRunsShell ((d @ ''/'' @ x) # args)"
    by simp
  then have "IsShellString (e # flags @ (d @ ''/'' @ x) # args)"
    using assms(4) envRunsShell_skip [OF assms(5)] by (simp add: IsShellString_def)
  with one show ?thesis by simp
qed

theorem policy_shell_detected_witness:
  "IsShellString (''env'' # [''-i'', ''A=b''] @ (''/bin'' @ ''/'' @ ''BaSH'') # [''-c''])"
proof -
  have "ToLower ''BaSH'' = ''bash''" "shellBaseName ''env'' = ''env''" by code_simp+
  then show ?thesis
    using policy_shell_detected [of "''bash''" "''BaSH''" "''env''" "[''-i'', ''A=b'']" "''/bin''" "[''-c'']"]
    by (simp add: shellNames_def sublist_code)
qed

text \<open>A clean lint report. The review has nothing above information level to say exactly
  when every command avoids shells and general interpreters, has a time limit, blocks the
  network explicitly if it carries secrets, has no credential in its argv, and no secret is
  used by more than three commands.\<close>

lemma policy_lint_clean:
  "list_all isInfo (Lint f) \<longleftrightarrow>
     list_all safeCommand (f_Commands f) \<and> (\<forall>ref. length (refCmds (f_Commands f) ref) \<le> secretSpreadMax)"
proof -
  let ?cs = "f_Commands f"
  have "list_all isInfo (Lint f) \<longleftrightarrow> list_all safeCommand ?cs \<and>
      List.filter (\<lambda>ref. length (refCmds ?cs ref) > secretSpreadMax)
        (remdups (concat (List.map commandRefs ?cs))) = []"
    unfolding Lint_def Let_def
    by (simp add: list_all_concat lintCommand_clean list_all_const sort_eq_Nil)
  also have "\<dots> \<longleftrightarrow> list_all safeCommand ?cs \<and> (\<forall>ref. length (refCmds ?cs ref) \<le> secretSpreadMax)"
    using refCmds_bound [of _ ?cs] by (fastforce simp: filter_empty_conv not_less)
  finally show ?thesis .
qed

text \<open>The scan behind \<open>env\<close> takes the argument of a flag for the program.\<close>

lemma env_flag_argument_hides_shell: "\<not> IsShellString [''env'', ''-u'', ''X'', ''sh'', ''-c'']"
  by code_simp

end
