(* ===== verification/Seccomp.thy ===== *)
theory Seccomp
  imports GoStrings "HOL-Library.Word"
begin

text \<open>
  The system call filter of \<open>src/internal/sealedexec/seccomp_linux.go\<close>: the classic BPF program
  that the sealed child loads, and what the kernel decides with it.

  Instructions have the field widths of \<open>struct sock_filter\<close>.  The numbers of the architecture
  (\<open>AUDIT_ARCH_*\<close>, the system calls, the return actions) come from \<open>golang.org/x/sys/unix\<close> and are
  a record that the definitions take.  The kernel's filter machine is not part of the program: the
  locale \<open>bpf_machine\<close> states the documented effect of the four instructions that the program uses,
  and \<open>bpfExec\<close> is an implementation of it.
\<close>

unbundle bit_operations_syntax

section \<open>The program\<close>

definition bpfLD :: "16 word" where "bpfLD = 0x00"
definition bpfW :: "16 word" where "bpfW = 0x00"
definition bpfABS :: "16 word" where "bpfABS = 0x20"
definition bpfJMP :: "16 word" where "bpfJMP = 0x05"
definition bpfJEQ :: "16 word" where "bpfJEQ = 0x10"
definition bpfJGE :: "16 word" where "bpfJGE = 0x30"
definition bpfK :: "16 word" where "bpfK = 0x00"
definition bpfRET :: "16 word" where "bpfRET = 0x06"

definition offNr :: "32 word" where "offNr = 0"
definition offArch :: "32 word" where "offArch = 4"

definition x32SyscallBit :: "32 word" where "x32SyscallBit = 0x40000000"

record sockFilter =
  sf_Code :: "16 word"
  sf_Jt :: "8 word"
  sf_Jf :: "8 word"
  sf_K :: "32 word"

text \<open>The constants of the package \<open>unix\<close> that the filter is built from.\<close>

record unixConsts =
  uc_AUDIT_ARCH_X86_64 :: "32 word"
  uc_AUDIT_ARCH_AARCH64 :: "32 word"
  uc_RET_KILL_PROCESS :: "32 word"
  uc_RET_ERRNO :: "32 word"
  uc_RET_DATA :: "32 word"
  uc_RET_ALLOW :: "32 word"
  uc_EPERM :: "32 word"
  uc_SYS_PTRACE :: "32 word"
  uc_SYS_PROCESS_VM_READV :: "32 word"
  uc_SYS_PROCESS_VM_WRITEV :: "32 word"
  uc_SYS_KCMP :: "32 word"
  uc_SYS_PERF_EVENT_OPEN :: "32 word"
  uc_SYS_BPF :: "32 word"
  uc_SYS_USERFAULTFD :: "32 word"

definition stmt :: "16 word \<Rightarrow> 32 word \<Rightarrow> sockFilter" where
  "stmt code k = \<lparr>sf_Code = code, sf_Jt = 0, sf_Jf = 0, sf_K = k\<rparr>"

definition jump :: "16 word \<Rightarrow> 32 word \<Rightarrow> 8 word \<Rightarrow> 8 word \<Rightarrow> sockFilter" where
  "jump code k jt jf = \<lparr>sf_Code = code, sf_Jt = jt, sf_Jf = jf, sf_K = k\<rparr>"

definition deniedSyscalls :: "unixConsts \<Rightarrow> 32 word list" where
  "deniedSyscalls u =
     [uc_SYS_PTRACE u, uc_SYS_PROCESS_VM_READV u, uc_SYS_PROCESS_VM_WRITEV u, uc_SYS_KCMP u,
      uc_SYS_PERF_EVENT_OPEN u, uc_SYS_BPF u, uc_SYS_USERFAULTFD u]"

definition archInfo :: "unixConsts \<Rightarrow> string \<Rightarrow> string + 32 word \<times> bool" where
  "archInfo u goarch =
     (if goarch = ''amd64'' then Ok (uc_AUDIT_ARCH_X86_64 u, True)
      else if goarch = ''arm64'' then Ok (uc_AUDIT_ARCH_AARCH64 u, False)
      else Err (''seccomp unsupported on GOARCH='' @ goarch))"

definition retErrno :: "unixConsts \<Rightarrow> 32 word" where
  "retErrno u = uc_RET_ERRNO u OR (uc_EPERM u AND uc_RET_DATA u)"

text \<open>The two instructions for one denied system call.\<close>

definition denyOne :: "unixConsts \<Rightarrow> 32 word \<Rightarrow> sockFilter list" where
  "denyOne u nr = [jump (bpfJMP OR bpfJEQ OR bpfK) nr 0 1, stmt (bpfRET OR bpfK) (retErrno u)]"

definition buildFilter :: "unixConsts \<Rightarrow> string \<Rightarrow> string + sockFilter list" where
  "buildFilter u goarch =
     (case archInfo u goarch of
        Inl err \<Rightarrow> Err err
      | Inr (expected, x32Guard) \<Rightarrow>
          Ok ([stmt (bpfLD OR bpfW OR bpfABS) offArch,
               jump (bpfJMP OR bpfJEQ OR bpfK) expected 1 0,
               stmt (bpfRET OR bpfK) (uc_RET_KILL_PROCESS u),
               stmt (bpfLD OR bpfW OR bpfABS) offNr] @
              (if x32Guard then
                 [jump (bpfJMP OR bpfJGE OR bpfK) x32SyscallBit 0 1,
                  stmt (bpfRET OR bpfK) (uc_RET_KILL_PROCESS u)]
               else []) @
              concat (List.map (denyOne u) (deniedSyscalls u)) @
              [stmt (bpfRET OR bpfK) (uc_RET_ALLOW u)]))"

lemma opcodes:
  "bpfLD OR bpfW OR bpfABS = 0x20" "bpfJMP OR bpfJEQ OR bpfK = 0x15"
  "bpfJMP OR bpfJGE OR bpfK = 0x35" "bpfRET OR bpfK = 0x06"
  by (simp_all add: bpfLD_def bpfW_def bpfABS_def bpfJMP_def bpfJEQ_def bpfJGE_def bpfK_def bpfRET_def)

section \<open>Installing it\<close>

text \<open>
  What the kernel answers to the two calls, and the part of the process that they change.  The
  program's length goes through \<open>uint16\<close>.
\<close>

record seccompOS =
  so_Prctl :: "string option"
  so_Seccomp :: "string option"

record procState =
  ps_NoNewPrivs :: bool
  ps_Filter :: "sockFilter list option"
  ps_CoreLimit :: "(nat \<times> nat) option"

definition freshProc :: procState where
  "freshProc = \<lparr>ps_NoNewPrivs = False, ps_Filter = None, ps_CoreLimit = None\<rparr>"

definition applySeccompFilter :: "unixConsts \<Rightarrow> string \<Rightarrow> seccompOS \<Rightarrow> procState \<Rightarrow> procState \<times> string option" where
  "applySeccompFilter u goarch os p =
     (case so_Prctl os of
        Some err \<Rightarrow> (p, Some (''prctl(NO_NEW_PRIVS): '' @ err))
      | None \<Rightarrow>
          (let p = p\<lparr>ps_NoNewPrivs := True\<rparr> in
           case buildFilter u goarch of
             Inl err \<Rightarrow> (p, Some err)
           | Inr prog \<Rightarrow>
               (case so_Seccomp os of
                  Some errno \<Rightarrow> (p, Some (''seccomp(SET_MODE_FILTER): '' @ errno))
                | None \<Rightarrow> (p\<lparr>ps_Filter := Some (take (unat (of_nat (length prog) :: 16 word)) prog)\<rparr>, None))))"

section \<open>The kernel's machine\<close>

text \<open>
  A machine state is an index into the program and the accumulator; \<open>d\<close> gives the words of
  \<open>struct seccomp_data\<close> by their offset.
\<close>

locale bpf_machine =
  fixes exec :: "sockFilter list \<Rightarrow> nat \<Rightarrow> 32 word \<Rightarrow> (32 word \<Rightarrow> 32 word) \<Rightarrow> 32 word option"
  assumes exec_ld: "i < length prog \<Longrightarrow> sf_Code (prog ! i) = 0x20 \<Longrightarrow>
      exec prog i a d = exec prog (i + 1) (d (sf_K (prog ! i))) d"
    and exec_jeq: "i < length prog \<Longrightarrow> sf_Code (prog ! i) = 0x15 \<Longrightarrow>
      exec prog i a d =
        exec prog (i + 1 + unat (if a = sf_K (prog ! i) then sf_Jt (prog ! i) else sf_Jf (prog ! i))) a d"
    and exec_jge: "i < length prog \<Longrightarrow> sf_Code (prog ! i) = 0x35 \<Longrightarrow>
      exec prog i a d =
        exec prog (i + 1 + unat (if a \<ge> sf_K (prog ! i) then sf_Jt (prog ! i) else sf_Jf (prog ! i))) a d"
    and exec_ret: "i < length prog \<Longrightarrow> sf_Code (prog ! i) = 0x06 \<Longrightarrow>
      exec prog i a d = Some (sf_K (prog ! i))"
begin

text \<open>The same laws with the program split at the instruction.\<close>

lemma step_ld: "exec (pre @ stmt 0x20 k # post) (length pre) a d =
    exec (pre @ stmt 0x20 k # post) (length pre + 1) (d k) d"
  by (subst exec_ld) (simp_all add: stmt_def)

lemma step_jeq: "exec (pre @ jump 0x15 k jt jf # post) (length pre) a d =
    exec (pre @ jump 0x15 k jt jf # post) (length pre + 1 + unat (if a = k then jt else jf)) a d"
  by (subst exec_jeq) (simp_all add: jump_def)

lemma step_jge: "exec (pre @ jump 0x35 k jt jf # post) (length pre) a d =
    exec (pre @ jump 0x35 k jt jf # post) (length pre + 1 + unat (if a \<ge> k then jt else jf)) a d"
  by (subst exec_jge) (simp_all add: jump_def)

lemma step_ret: "exec (pre @ stmt 0x06 k # post) (length pre) a d = Some k"
  by (subst exec_ret) (simp_all add: stmt_def)

text \<open>The list of denials decides like a membership test.\<close>

lemma exec_denials:
  "exec (pre @ concat (List.map (denyOne u) nrs) @ [stmt 0x06 allow]) (length pre) a d =
     Some (if a \<in> set nrs then retErrno u else allow)"
proof (induction nrs arbitrary: pre)
  case Nil
  show ?case using step_ret [of pre allow "[]" a d] by simp
next
  case (Cons nr nrs)
  let ?rest = "concat (List.map (denyOne u) nrs) @ [stmt 0x06 allow]"
  let ?jeq = "jump 0x15 nr 0 1" and ?ret = "stmt 0x06 (retErrno u)"
  have prog: "pre @ concat (List.map (denyOne u) (nr # nrs)) @ [stmt 0x06 allow] = pre @ ?jeq # ?ret # ?rest"
    by (simp add: denyOne_def opcodes)
  show ?case
  proof (cases "a = nr")
    case True
    then show ?thesis
      unfolding prog step_jeq using step_ret [of "pre @ [?jeq]" "retErrno u" ?rest a d] by simp
  next
    case False
    then show ?thesis
      unfolding prog step_jeq using Cons [of "pre @ [?jeq, ?ret]"] by simp
  qed
qed

text \<open>Everything from the load of the system call number on.\<close>

lemma exec_syscall:
  assumes "d offNr = nr" "prog = pre @ stmt 0x20 offNr #
      (if guard then [jump 0x35 x32SyscallBit 0 1, stmt 0x06 (uc_RET_KILL_PROCESS u)] else []) @
      concat (List.map (denyOne u) nrs) @ [stmt 0x06 allow]"
  shows "exec prog (length pre) a d =
     Some (if guard \<and> nr \<ge> x32SyscallBit then uc_RET_KILL_PROCESS u
           else if nr \<in> set nrs then retErrno u else allow)"
proof (cases guard)
  case False
  with assms have prog: "prog = (pre @ [stmt 0x20 offNr]) @ concat (List.map (denyOne u) nrs) @ [stmt 0x06 allow]"
    by simp
  have "exec prog (length pre) a d = exec prog (length (pre @ [stmt 0x20 offNr])) nr d"
    using step_ld [of pre offNr] assms by simp
  then show ?thesis unfolding prog exec_denials using False by simp
next
  case True
  let ?ld = "stmt 0x20 offNr" and ?jge = "jump 0x35 x32SyscallBit 0 1"
    and ?kill = "stmt 0x06 (uc_RET_KILL_PROCESS u)"
    and ?rest = "concat (List.map (denyOne u) nrs) @ [stmt 0x06 allow]"
  have prog: "prog = pre @ ?ld # ?jge # ?kill # ?rest"
    using True assms(2) by simp
  have "exec prog (length pre) a d = exec prog (length (pre @ [?ld])) nr d"
    unfolding prog step_ld using assms(1) by simp
  also have "\<dots> = exec prog (length (pre @ [?ld]) + 1 + (if nr \<ge> x32SyscallBit then 0 else 1)) nr d"
    using step_jge [of "pre @ [?ld]" x32SyscallBit 0 1 "?kill # ?rest" nr d] by (simp add: prog)
  also have "\<dots> = Some (if nr \<ge> x32SyscallBit then uc_RET_KILL_PROCESS u
                      else if nr \<in> set nrs then retErrno u else allow)"
    using step_ret [of "pre @ [?ld, ?jge]" "uc_RET_KILL_PROCESS u" ?rest nr d]
      exec_denials [of "pre @ [?ld, ?jge, ?kill]" u nrs allow nr d] by (simp add: prog)
  finally show ?thesis using True by simp
qed

lemma exec_buildFilter:
  assumes "archInfo u goarch = Inr (expected, guard)" "buildFilter u goarch = Inr prog"
  shows "exec prog 0 a d =
     Some (if d offArch \<noteq> expected then uc_RET_KILL_PROCESS u
           else if guard \<and> d offNr \<ge> x32SyscallBit then uc_RET_KILL_PROCESS u
           else if d offNr \<in> set (deniedSyscalls u) then retErrno u else uc_RET_ALLOW u)"
proof -
  let ?ld = "stmt 0x20 offArch" and ?jeq = "jump 0x15 expected 1 0"
    and ?kill = "stmt 0x06 (uc_RET_KILL_PROCESS u)"
  define rest where "rest = stmt 0x20 offNr #
      (if guard then [jump 0x35 x32SyscallBit 0 1, stmt 0x06 (uc_RET_KILL_PROCESS u)] else []) @
      concat (List.map (denyOne u) (deniedSyscalls u)) @ [stmt 0x06 (uc_RET_ALLOW u)]"
  have prog: "prog = ?ld # ?jeq # ?kill # rest"
    using assms unfolding buildFilter_def opcodes rest_def by auto
  have "exec prog 0 a d = exec prog 1 (d offArch) d"
    using step_ld [of "[]" offArch "?jeq # ?kill # rest" a d] by (simp add: prog)
  also have "\<dots> = exec prog (2 + (if d offArch = expected then 1 else 0)) (d offArch) d"
    using step_jeq [of "[?ld]" expected 1 0 "?kill # rest" "d offArch" d] by (simp add: prog)
  finally have start: "exec prog 0 a d = exec prog (2 + (if d offArch = expected then 1 else 0)) (d offArch) d" .
  have "exec prog 2 (d offArch) d = Some (uc_RET_KILL_PROCESS u)"
    using step_ret [of "[?ld, ?jeq]" "uc_RET_KILL_PROCESS u" rest "d offArch" d]
    by (simp add: prog numeral_2_eq_2)
  moreover have "exec prog 3 (d offArch) d =
     Some (if guard \<and> d offNr \<ge> x32SyscallBit then uc_RET_KILL_PROCESS u
           else if d offNr \<in> set (deniedSyscalls u) then retErrno u else uc_RET_ALLOW u)"
    using exec_syscall [of d "d offNr" prog "[?ld, ?jeq, ?kill]" guard u "deniedSyscalls u" "uc_RET_ALLOW u"]
    by (simp add: prog rest_def numeral_3_eq_3)
  ultimately show ?thesis
    using start by (cases "d offArch = expected") (simp_all add: numeral_2_eq_2 numeral_3_eq_3)
qed

end

section \<open>An implementation of the machine\<close>

function bpfExec :: "sockFilter list \<Rightarrow> nat \<Rightarrow> 32 word \<Rightarrow> (32 word \<Rightarrow> 32 word) \<Rightarrow> 32 word option" where
  "bpfExec prog i a d =
     (if i < length prog then
        (let f = prog ! i; code = sf_Code f; k = sf_K f in
         if code = 0x20 then bpfExec prog (i + 1) (d k) d
         else if code = 0x15 then bpfExec prog (i + 1 + unat (if a = k then sf_Jt f else sf_Jf f)) a d
         else if code = 0x35 then bpfExec prog (i + 1 + unat (if a \<ge> k then sf_Jt f else sf_Jf f)) a d
         else if code = 0x06 then Some k
         else None)
      else None)"
  by pat_completeness auto
termination by (relation "measure (\<lambda>(prog, i, _). length prog - i)") auto

declare bpfExec.simps [simp del]

interpretation bpf: bpf_machine bpfExec
  by unfold_locales (subst bpfExec.simps, simp add: Let_def)+


text \<open>A program that was installed is the whole filter: its length fits \<open>uint16\<close>.\<close>

lemma buildFilter_length:
  "buildFilter u goarch = Inr prog \<Longrightarrow> length prog = (if goarch = ''amd64'' then 21 else 19)"
  by (auto simp: buildFilter_def archInfo_def deniedSyscalls_def denyOne_def split: if_splits)

lemma applySeccompFilter_ok:
  "applySeccompFilter u goarch os p = (p', None) \<longleftrightarrow>
     so_Prctl os = None \<and> so_Seccomp os = None \<and>
     (\<exists>prog. buildFilter u goarch = Inr prog \<and>
        p' = p\<lparr>ps_NoNewPrivs := True, ps_Filter := Some prog\<rparr>)"
proof -
  have "take (unat (of_nat (length prog) :: 16 word)) prog = prog" if "buildFilter u goarch = Inr prog" for prog
    using buildFilter_length [OF that] by (cases "goarch = ''amd64''") simp_all
  then show ?thesis
    by (auto simp: applySeccompFilter_def Let_def split: option.splits sum.splits)
qed

end
