(* ===== verification/SealedExec.thy ===== *)
theory SealedExec
  imports Seccomp GoJSON
begin

text \<open>
  The sealed-exec shim: \<open>armSealedExec\<close> of \<open>src/internal/runner/seccomp_linux.go\<close>, which rewrites
  a command to start the program's own executable as the shim, and the shim itself,
  \<open>src/internal/sealedexec/sealedexec.go\<close> with \<open>seal_linux.go\<close>, which hardens its process and
  replaces itself by the target.

  An environment is the list of its entries, as \<open>execve\<close> takes it.  What \<open>os/exec\<close> does to the
  entries on the way to the child, and what \<open>os.Getenv\<close> and \<open>os.Environ\<close> read there, is written out.
  Answers of the operating system are records.
\<close>

section \<open>Environments\<close>

text \<open>\<open>os.Getenv\<close>: the value of the first entry with the key, empty if there is none.\<close>

fun lookupEnv :: "string list \<Rightarrow> string \<Rightarrow> string option" where
  "lookupEnv [] k = None"
| "lookupEnv (e # es) k =
     (if prefix (k @ ''='') e then Some (drop (length k + 1) e) else lookupEnv es k)"

definition Getenv :: "string list \<Rightarrow> string \<Rightarrow> string" where
  "Getenv env k = (case lookupEnv env k of Some v \<Rightarrow> v | None \<Rightarrow> [])"

text \<open>\<open>os.Environ\<close>: without empty entries and later entries of a key seen before.\<close>

fun environFrom :: "string list \<Rightarrow> string list \<Rightarrow> string list" where
  "environFrom seen [] = []"
| "environFrom seen (e # es) =
     (case byteIndex (CHR ''='') e of
        None \<Rightarrow> (if e = [] then environFrom seen es else e # environFrom seen es)
      | Some i \<Rightarrow> (if take i e \<in> set seen then environFrom seen es
                  else e # environFrom (take i e # seen) es))"

definition Environ :: "string list \<Rightarrow> string list" where
  "Environ env = environFrom [] env"

text \<open>
  \<open>os/exec\<close> keeps the last entry of each key, in the order of the entries, and refuses one with
  a NUL.  An equals sign in front belongs to the key.
\<close>

definition keyEnd :: "string \<Rightarrow> nat option" where
  "keyEnd e =
     (case byteIndex (CHR ''='') e of
        Some 0 \<Rightarrow> (case byteIndex (CHR ''='') (tl e) of None \<Rightarrow> Some 0 | Some j \<Rightarrow> Some (Suc j))
      | r \<Rightarrow> r)"

fun dedupRev :: "string list \<Rightarrow> string list \<Rightarrow> string list" where
  "dedupRev saw [] = []"
| "dedupRev saw (e # es) =
     (case keyEnd e of
        None \<Rightarrow> (if e = [] then dedupRev saw es else e # dedupRev saw es)
      | Some i \<Rightarrow> (if take i e \<in> set saw then dedupRev saw es else e # dedupRev (take i e # saw) es))"

definition dedupEnv :: "string list \<Rightarrow> string list" where
  "dedupEnv env = rev (dedupRev [] (rev env))"

definition hasNUL :: "string \<Rightarrow> bool" where
  "hasNUL e \<longleftrightarrow> CHR 0x00 \<in> set e"

section \<open>Commands\<close>

text \<open>\<open>exec.Cmd\<close> as far as the program sets it; \<open>Env\<close> is \<open>None\<close> for a nil slice.\<close>

record sysProcAttr =
  spa_CloneNewUser :: bool
  spa_CloneNewNet :: bool
  spa_UidMappings :: "(int \<times> int \<times> int) list"
  spa_GidMappings :: "(int \<times> int \<times> int) list"
  spa_Setpgid :: bool
  spa_Pdeathsig :: bool

record execCmd =
  ec_Path :: string
  ec_Args :: "string list"
  ec_Env :: "string list option"
  ec_Dir :: string
  ec_SysProcAttr :: "sysProcAttr option"

text \<open>
  The environment that the child gets: a nil \<open>Env\<close> stands for the parent's own environment
  (with \<open>PWD\<close> set when a directory is given).
\<close>

definition cmdEnviron :: "string list \<Rightarrow> string option \<Rightarrow> execCmd \<Rightarrow> string list option" where
  "cmdEnviron parent absDir c =
     (let env = (case ec_Env c of
                   Some env \<Rightarrow> env
                 | None \<Rightarrow> Environ parent @
                     (if ec_Dir c = [] then []
                      else case absDir of None \<Rightarrow> [] | Some pwd \<Rightarrow> [''PWD='' @ pwd]))
      in if list_ex hasNUL env then None else Some (dedupEnv env))"

section \<open>The shim\<close>

definition Sentinel :: string where "Sentinel = ''ironrun-sealed-exec''"
definition EnvSentinel :: string where "EnvSentinel = ''IRONRUN_SEALED_EXEC''"
definition EnvNoSeal :: string where "EnvNoSeal = ''IRONRUN_NO_SEAL''"
definition EnvSkipSeccomp :: string where "EnvSkipSeccomp = ''IRONRUN_SKIP_SECCOMP''"

definition ExitSealRefused :: int where "ExitSealRefused = 124"
definition ExitFilterRefused :: int where "ExitFilterRefused = 125"
definition exitBroken :: int where "exitBroken = 126"

definition armSealedExec :: "string + string \<Rightarrow> execCmd \<Rightarrow> bool \<Rightarrow> bool \<Rightarrow> string + execCmd" where
  "armSealedExec executable c noSeal seccomp =
     (case executable of
        Inl err \<Rightarrow> Err (''runner: sealed-exec shim requested but cannot locate own executable: '' @ err)
      | Inr self \<Rightarrow>
          (let kept = List.filter (\<lambda>e. \<not> (prefix (EnvNoSeal @ ''='') e \<or> prefix (EnvSkipSeccomp @ ''='') e))
                        (case ec_Env c of None \<Rightarrow> [] | Some env \<Rightarrow> env);
               env = kept @ [EnvSentinel @ ''=1''] @ (if noSeal then [EnvNoSeal @ ''=1''] else []) @
                       (if \<not> seccomp then [EnvSkipSeccomp @ ''=1''] else [])
           in Ok (c\<lparr>ec_Args := [Sentinel, ec_Path c] @ ec_Args c, ec_Path := self, ec_Env := Some env\<rparr>)))"

definition IsShim :: "string list \<Rightarrow> string list \<Rightarrow> bool" where
  "IsShim env args \<longleftrightarrow> length args > 0 \<and> args ! 0 = Sentinel \<and> Getenv env EnvSentinel = ''1''"

definition strippedEnv :: "string list \<Rightarrow> string list" where
  "strippedEnv env =
     List.filter (\<lambda>e. \<not> (prefix (EnvSentinel @ ''='') e \<or> prefix (EnvNoSeal @ ''='') e \<or>
                        prefix (EnvSkipSeccomp @ ''='') e)) (Environ env)"

record shimOS =
  sh_Seccomp :: seccompOS
  sh_Setrlimit :: "string option"
  sh_Exec :: "string option"

definition sealChild :: "shimOS \<Rightarrow> procState \<Rightarrow> procState \<times> string option" where
  "sealChild os p =
     (case sh_Setrlimit os of
        Some err \<Rightarrow> (p, Some (''setrlimit(RLIMIT_CORE, 0): '' @ err))
      | None \<Rightarrow> (p\<lparr>ps_CoreLimit := Some (0, 0)\<rparr>, None))"

text \<open>A process that ran the shim exits or has become the target.\<close>

datatype shimOutcome = ShimExit int | ShimExec string "string list" "string list" procState

text \<open>The last call of \<open>run\<close>, which does not return on success.\<close>

definition execTarget :: "shimOS \<Rightarrow> string list \<Rightarrow> string list \<Rightarrow> procState \<Rightarrow> shimOutcome" where
  "execTarget os env args p =
     (if sh_Exec os \<noteq> None then ShimExit exitBroken
      else ShimExec (args ! 1) (drop 2 args) (strippedEnv env) p)"

definition runShim :: "unixConsts \<Rightarrow> string \<Rightarrow> shimOS \<Rightarrow> string list \<Rightarrow> string list \<Rightarrow> procState \<Rightarrow> shimOutcome" where
  "runShim u goarch os env args p =
     (if length args < 3 then ShimExit exitBroken
      else
        let (p, ferr) = (if Getenv env EnvSkipSeccomp \<noteq> ''1'' then applySeccompFilter u goarch (sh_Seccomp os) p
                         else (p, None))
        in if ferr \<noteq> None then ShimExit ExitFilterRefused
           else
             let (p, serr) = (if Getenv env EnvNoSeal = ''1'' then (p, None) else sealChild os p)
             in if serr \<noteq> None then ShimExit ExitSealRefused
                else execTarget os env args p)"

text \<open>The dispatch of the package's \<open>init\<close>: a process that is no shim goes on with its own \<open>main\<close>.\<close>

definition shimInit :: "unixConsts \<Rightarrow> string \<Rightarrow> shimOS \<Rightarrow> string list \<Rightarrow> string list \<Rightarrow> procState \<Rightarrow> shimOutcome option" where
  "shimInit u goarch os env args p =
     (if IsShim env args then Some (runShim u goarch os env args p) else None)"

end
