(* ===== verification/CITrust.thy ===== *)
theory CITrust
  imports SealedExec
begin

text \<open>
  The continuous-integration guard of \<open>src/internal/runner/runner.go\<close> (\<open>CheckCITrust\<close> and
  \<open>checkGitHubEventRepos\<close>): which events may see secrets.

  The environment is the list of its entries.  Reading the event file and decoding its JSON are
  arguments; a decoded payload is the four repository names that the code looks at.
\<close>

record eventPayload =
  ev_PullRequestHead :: string
  ev_PullRequestBase :: string
  ev_WorkflowRunHead :: string
  ev_Repository :: string

datatype ciError =
    EventUnreadable string
  | EventNamesNoRepository string
  | EventFromFork string string
  | PullRequestTarget
  | GitLabFork string string
  | GitLabUnverifiable
  | CircleCIFork string string
  | JenkinsFork string string
  | JenkinsUnverifiable string

definition headRepo :: "string \<Rightarrow> eventPayload \<Rightarrow> string" where
  "headRepo event p = (if event = ''workflow_run'' then ev_WorkflowRunHead p else ev_PullRequestHead p)"

definition baseRepo :: "string \<Rightarrow> eventPayload \<Rightarrow> string" where
  "baseRepo event p = (if event = ''workflow_run'' then ev_Repository p else ev_PullRequestBase p)"

text \<open>\<open>eventFile\<close> is the payload that the event file decodes to, if it can be read and decoded.\<close>

definition checkGitHubEventRepos :: "eventPayload option \<Rightarrow> string \<Rightarrow> ciError option" where
  "checkGitHubEventRepos eventFile event =
     (case eventFile of
        None \<Rightarrow> Some (EventUnreadable event)
      | Some p \<Rightarrow>
          if headRepo event p = [] \<or> baseRepo event p = [] then Some (EventNamesNoRepository event)
          else if \<not> EqualFold (headRepo event p) (baseRepo event p) then Some (EventFromFork event (headRepo event p))
          else None)"

definition repoEvents :: "string list" where
  "repoEvents = [''pull_request'', ''pull_request_review'', ''pull_request_review_comment'', ''workflow_run'']"

definition checkGitHub :: "string list \<Rightarrow> (string \<Rightarrow> eventPayload option) \<Rightarrow> bool \<Rightarrow> ciError option" where
  "checkGitHub env readEvent allowPullRequestTarget =
     (if Getenv env ''GITHUB_ACTIONS'' = ''true'' then
        (let event = Getenv env ''GITHUB_EVENT_NAME'';
             err = (if event \<in> set repoEvents
                    then checkGitHubEventRepos (readEvent (Getenv env ''GITHUB_EVENT_PATH'')) event else None)
         in if err \<noteq> None then err
            else if event = ''pull_request_target'' \<and> \<not> allowPullRequestTarget then Some PullRequestTarget
            else None)
      else None)"

definition checkGitLab :: "string list \<Rightarrow> ciError option" where
  "checkGitLab env =
     (if Getenv env ''GITLAB_CI'' = ''true'' \<and> Getenv env ''CI_PIPELINE_SOURCE'' = ''merge_request_event'' then
        (let src = Getenv env ''CI_MERGE_REQUEST_SOURCE_PROJECT_ID'';
             tgt = Getenv env ''CI_MERGE_REQUEST_PROJECT_ID''
         in if src \<noteq> [] \<and> tgt \<noteq> [] \<and> src \<noteq> tgt then Some (GitLabFork src tgt)
            else if src = [] \<or> tgt = [] then Some GitLabUnverifiable
            else None)
      else None)"

definition checkCircleCI :: "string list \<Rightarrow> ciError option" where
  "checkCircleCI env =
     (if Getenv env ''CIRCLECI'' = ''true'' then
        (let pr = Getenv env ''CIRCLE_PR_NUMBER''; user = Getenv env ''CIRCLE_PR_USERNAME''
         in if pr \<noteq> [] then Some (CircleCIFork ''CIRCLE_PR_NUMBER'' pr)
            else if user \<noteq> [] then Some (CircleCIFork ''CIRCLE_PR_USERNAME'' user)
            else None)
      else None)"

definition checkJenkins :: "string list \<Rightarrow> ciError option" where
  "checkJenkins env =
     (if Getenv env ''JENKINS_URL'' \<noteq> [] \<or> Getenv env ''JENKINS_HOME'' \<noteq> [] then
        (let changeID = Getenv env ''CHANGE_ID''; fork = Getenv env ''CHANGE_FORK''
         in if changeID \<noteq> [] then
              (if fork \<noteq> [] then Some (JenkinsFork changeID fork) else Some (JenkinsUnverifiable changeID))
            else None)
      else None)"

definition CheckCITrust :: "string list \<Rightarrow> (string \<Rightarrow> eventPayload option) \<Rightarrow> bool \<Rightarrow> ciError option" where
  "CheckCITrust env readEvent allowPullRequestTarget =
     (case checkGitHub env readEvent allowPullRequestTarget of
        Some err \<Rightarrow> Some err
      | None \<Rightarrow> (case checkGitLab env of
          Some err \<Rightarrow> Some err
        | None \<Rightarrow> (case checkCircleCI env of
            Some err \<Rightarrow> Some err
          | None \<Rightarrow> checkJenkins env)))"

section \<open>What passes\<close>

text \<open>The events that may see secrets, provider by provider.\<close>

definition trustedGitHub :: "string list \<Rightarrow> (string \<Rightarrow> eventPayload option) \<Rightarrow> bool \<Rightarrow> bool" where
  "trustedGitHub env readEvent allow \<longleftrightarrow>
     (let event = Getenv env ''GITHUB_EVENT_NAME'' in
      (event \<in> set repoEvents \<longrightarrow>
        (case readEvent (Getenv env ''GITHUB_EVENT_PATH'') of
           None \<Rightarrow> False
         | Some p \<Rightarrow> headRepo event p \<noteq> [] \<and> EqualFold (headRepo event p) (baseRepo event p))) \<and>
      (event = ''pull_request_target'' \<longrightarrow> allow))"

definition trustedGitLab :: "string list \<Rightarrow> bool" where
  "trustedGitLab env \<longleftrightarrow> Getenv env ''CI_PIPELINE_SOURCE'' \<noteq> ''merge_request_event'' \<or>
     Getenv env ''CI_MERGE_REQUEST_SOURCE_PROJECT_ID'' \<noteq> [] \<and>
     Getenv env ''CI_MERGE_REQUEST_SOURCE_PROJECT_ID'' = Getenv env ''CI_MERGE_REQUEST_PROJECT_ID''"

definition trustedCI :: "string list \<Rightarrow> (string \<Rightarrow> eventPayload option) \<Rightarrow> bool \<Rightarrow> bool" where
  "trustedCI env readEvent allow \<longleftrightarrow>
     (Getenv env ''GITHUB_ACTIONS'' = ''true'' \<longrightarrow> trustedGitHub env readEvent allow) \<and>
     (Getenv env ''GITLAB_CI'' = ''true'' \<longrightarrow> trustedGitLab env) \<and>
     (Getenv env ''CIRCLECI'' = ''true'' \<longrightarrow>
        Getenv env ''CIRCLE_PR_NUMBER'' = [] \<and> Getenv env ''CIRCLE_PR_USERNAME'' = []) \<and>
     (Getenv env ''JENKINS_URL'' \<noteq> [] \<or> Getenv env ''JENKINS_HOME'' \<noteq> [] \<longrightarrow> Getenv env ''CHANGE_ID'' = [])"

lemma EqualFold_empty: "EqualFold s [] \<longleftrightarrow> s = []"
proof (cases s rule: foldBytes.cases)
  case (1 a b c s)
  then show ?thesis by (simp add: EqualFold_def)
qed (auto simp: EqualFold_def)

lemma checkGitHubEventRepos_None:
  "checkGitHubEventRepos f event = None \<longleftrightarrow>
     (case f of None \<Rightarrow> False
      | Some p \<Rightarrow> headRepo event p \<noteq> [] \<and> EqualFold (headRepo event p) (baseRepo event p))"
proof (cases f)
  case (Some p)
  show ?thesis
    using EqualFold_empty [of "headRepo event p"]
    by (cases "baseRepo event p = []") (auto simp: checkGitHubEventRepos_def Some)
qed (simp add: checkGitHubEventRepos_def)

lemma CheckCITrust_None: "CheckCITrust env readEvent allow = None \<longleftrightarrow> trustedCI env readEvent allow"
proof -
  have gh: "checkGitHub env readEvent allow = None \<longleftrightarrow>
      (Getenv env ''GITHUB_ACTIONS'' = ''true'' \<longrightarrow> trustedGitHub env readEvent allow)"
    by (auto simp: checkGitHub_def trustedGitHub_def Let_def checkGitHubEventRepos_None [symmetric] repoEvents_def)
  have gl: "checkGitLab env = None \<longleftrightarrow> (Getenv env ''GITLAB_CI'' = ''true'' \<longrightarrow> trustedGitLab env)"
    by (auto simp: checkGitLab_def trustedGitLab_def Let_def)
  have "checkCircleCI env = None \<longleftrightarrow> (Getenv env ''CIRCLECI'' = ''true'' \<longrightarrow>
      Getenv env ''CIRCLE_PR_NUMBER'' = [] \<and> Getenv env ''CIRCLE_PR_USERNAME'' = [])"
    by (simp add: checkCircleCI_def Let_def)
  moreover have "checkJenkins env = None \<longleftrightarrow>
      (Getenv env ''JENKINS_URL'' \<noteq> [] \<or> Getenv env ''JENKINS_HOME'' \<noteq> [] \<longrightarrow> Getenv env ''CHANGE_ID'' = [])"
    by (auto simp: checkJenkins_def Let_def)
  moreover have "CheckCITrust env readEvent allow = None \<longleftrightarrow> checkGitHub env readEvent allow = None \<and>
      checkGitLab env = None \<and> checkCircleCI env = None \<and> checkJenkins env = None"
    by (auto simp: CheckCITrust_def split: option.split)
  ultimately show ?thesis unfolding trustedCI_def gh gl by (simp only: simp_thms)
qed

end
