(* ===== verification/Entropy.thy ===== *)
theory Entropy
  imports GoStrings Complex_Main
begin

text \<open>
  The warn-only scanner of \<open>src/internal/redact/entropy.go\<close>: secret-shaped tokens of high Shannon
  entropy in redacted output.

  The regular expressions are written out as the functions they denote: the token expression
  matches the maximal runs of its alphabet that are long enough, the others a whole token.
  Entropy, a \<open>float64\<close> in the code, is the real number it approximates; \<open>entropy_exact\<close> gives an
  integer test for the threshold, which is what the scanner is evaluated with.
\<close>

section \<open>Tokens\<close>

definition entropyMinTokenLen :: nat where "entropyMinTokenLen = 20"

definition entropyThreshold :: real where "entropyThreshold = 7 / 2"

definition wordByte :: "char \<Rightarrow> bool" where
  "wordByte c \<longleftrightarrow> (CHR ''A'' \<le> c \<and> c \<le> CHR ''Z'') \<or> (CHR ''a'' \<le> c \<and> c \<le> CHR ''z'') \<or>
     (CHR ''0'' \<le> c \<and> c \<le> CHR ''9'') \<or> c = CHR ''_''"

definition tokenByte :: "char \<Rightarrow> bool" where
  "tokenByte c \<longleftrightarrow> wordByte c \<or> c \<in> set ''+/=~!#$%&*@?-''"

text \<open>The matches with their offsets: maximal runs of at least the minimal length.\<close>

function tokensFrom :: "nat \<Rightarrow> bytes \<Rightarrow> (nat \<times> bytes) list" where
  "tokensFrom off s =
     (if s = [] then []
      else let tok = takeWhile tokenByte s; k = length tok
           in if k = 0 then tokensFrom (off + 1) (tl s)
              else (if k \<ge> 20 then [(off, tok)] else []) @ tokensFrom (off + k) (drop k s))"
  by pat_completeness auto
termination by (relation "measure (\<lambda>(_, s). length s)") (auto simp: Let_def)

declare tokensFrom.simps [simp del]

definition hexByteClass :: "char \<Rightarrow> bool" where
  "hexByteClass c \<longleftrightarrow> (CHR ''0'' \<le> c \<and> c \<le> CHR ''9'') \<or> (CHR ''a'' \<le> c \<and> c \<le> CHR ''f'') \<or>
     (CHR ''A'' \<le> c \<and> c \<le> CHR ''F'')"

definition uuidShape :: "bytes \<Rightarrow> bool" where
  "uuidShape tok \<longleftrightarrow> length tok = 36 \<and>
     list_all (\<lambda>(i, c). if i \<in> {8, 13, 18, 23} then c = CHR ''-'' else hexByteClass c)
       (List.enumerate 0 tok)"

definition isBenignShape :: "bytes \<Rightarrow> bool" where
  "isBenignShape tok \<longleftrightarrow> uuidShape tok \<or>
     (length tok = 40 \<or> length tok = 64) \<and> list_all hexByteClass tok \<or>
     tok \<noteq> [] \<and> list_all (\<lambda>c. CHR ''0'' \<le> c \<and> c \<le> CHR ''9'') tok"

definition looksTokenish :: "bytes \<Rightarrow> bool" where
  "looksTokenish tok \<longleftrightarrow>
     list_ex (\<lambda>c. CHR ''0'' \<le> c \<and> c \<le> CHR ''9'') tok \<or>
     list_ex (\<lambda>c. CHR ''A'' \<le> c \<and> c \<le> CHR ''Z'') tok \<and> list_ex (\<lambda>c. CHR ''a'' \<le> c \<and> c \<le> CHR ''z'') tok"

text \<open>The submatch of the assignment prefix: what follows the first equals sign.\<close>

definition kvValue :: "bytes \<Rightarrow> bytes option" where
  "kvValue tok =
     (let key = takeWhile wordByte tok; rest = drop (length key) tok in
      if 1 \<le> length key \<and> length key \<le> 32 \<and> prefix ''='' rest \<and> tl rest \<noteq> [] then Some (tl rest) else None)"

section \<open>Entropy\<close>

definition allBytes :: "char list" where
  "allBytes = List.map char_of [0..<256::nat]"

definition shannonEntropy :: "bytes \<Rightarrow> real" where
  "shannonEntropy s =
     (if s = [] then 0
      else sum_list (List.map (\<lambda>b. let c = count_list s b; p = real c / real (length s)
                                   in if c = 0 then 0 else - (p * log 2 p)) allBytes))"

section \<open>The scanner\<close>

record entropyHit =
  eh_Token :: bytes
  eh_Entropy :: real
  eh_Offset :: nat

text \<open>One iteration of the loop of \<open>ScanHighEntropy\<close>.\<close>

definition scanToken :: "nat \<times> bytes \<Rightarrow> entropyHit list" where
  "scanToken = (\<lambda>(off, tok).
     let (off, tok) = (case kvValue tok of
                         Some v \<Rightarrow> if length v \<ge> entropyMinTokenLen
                                   then (off + (length tok - length v), v) else (off, tok)
                       | None \<Rightarrow> (off, tok))
     in if isBenignShape tok \<or> \<not> looksTokenish tok then []
        else if shannonEntropy tok \<ge> entropyThreshold
        then [\<lparr>eh_Token = tok, eh_Entropy = shannonEntropy tok, eh_Offset = off\<rparr>] else [])"

definition ScanHighEntropy :: "bytes \<Rightarrow> entropyHit list" where
  "ScanHighEntropy s = concat (List.map scanToken (tokensFrom 0 s))"

section \<open>The threshold on integers\<close>

lemma allBytes_UNIV: "distinct allBytes \<and> set allBytes = UNIV"
proof
  show "distinct allBytes"
    unfolding allBytes_def by (auto simp: distinct_map inj_on_def dest: char_of_eq_iff [THEN iffD1])
  have "c \<in> set allBytes" for c :: char
    unfolding allBytes_def by (auto intro!: image_eqI [of _ _ "of_char c"])
  then show "set allBytes = UNIV" by blast
qed

lemma entropy_sum:
  assumes "s \<noteq> []"
  shows "real (length s) * shannonEntropy s =
    real (length s) * log 2 (real (length s)) -
    (\<Sum>b \<in> set s. real (count_list s b) * log 2 (real (count_list s b)))"
proof -
  let ?n = "real (length s)" and ?c = "\<lambda>b. real (count_list s b)"
  let ?t = "\<lambda>b. if count_list s b = 0 then 0 else - (?c b / ?n * log 2 (?c b / ?n))"
  have n: "?n > 0" using assms by simp
  have "shannonEntropy s = (\<Sum>b \<in> UNIV. ?t b)"
    using assms allBytes_UNIV sum_list_distinct_conv_sum_set [of allBytes ?t]
    by (simp add: shannonEntropy_def Let_def)
  also have "\<dots> = (\<Sum>b \<in> set s. ?t b)"
    by (rule sum.mono_neutral_right) (auto simp: count_list_0_iff)
  finally have "?n * shannonEntropy s = (\<Sum>b \<in> set s. ?n * ?t b)" by (simp add: sum_distrib_left)
  also have "\<dots> = (\<Sum>b \<in> set s. ?c b * log 2 ?n - ?c b * log 2 (?c b))"
  proof (rule sum.cong)
    fix b assume "b \<in> set s"
    then have c: "?c b > 0" by (metis count_list_0_iff gr0I of_nat_0_less_iff)
    then have "log 2 (?c b / ?n) = log 2 (?c b) - log 2 ?n" using n by (simp add: log_divide)
    then have "?n * ?t b = - ?c b * (log 2 (?c b) - log 2 ?n)" using c n by simp
    then show "?n * ?t b = ?c b * log 2 ?n - ?c b * log 2 (?c b)" by (simp add: algebra_simps)
  qed simp
  also have "\<dots> = (\<Sum>b \<in> set s. ?c b) * log 2 ?n - (\<Sum>b \<in> set s. ?c b * log 2 (?c b))"
    by (simp add: sum_subtractf sum_distrib_right)
  also have "(\<Sum>b \<in> set s. ?c b) = ?n"
    using sum_count_set [of s "set s"] by (simp flip: of_nat_sum)
  finally show ?thesis .
qed

lemma log_prod:
  fixes f :: "'a \<Rightarrow> real"
  assumes "\<And>a. a \<in> A \<Longrightarrow> f a > 0"
  shows "log 2 (prod f A) = (\<Sum>a \<in> A. log 2 (f a))"
proof (cases "finite A")
  case True
  have "f a \<noteq> 0" if "a \<in> A" for a using assms [OF that] by simp
  with ln_prod [OF True, of f] show ?thesis by (simp add: log_def sum_divide_distrib)
qed simp

text \<open>
  With \<open>n\<close> bytes of which \<open>c b\<close> are \<open>b\<close>, the entropy reaches 7/2 exactly if
  \<open>2 ^ (7 * n) * (\<Prod>b. c b ^ (2 * c b)) \<le> n ^ (2 * n)\<close>.
\<close>

lemma entropy_exact:
  assumes "s \<noteq> []"
  shows "shannonEntropy s \<ge> entropyThreshold \<longleftrightarrow>
    2 ^ (7 * length s) * (\<Prod>b \<in> set s. count_list s b ^ (2 * count_list s b)) \<le> length s ^ (2 * length s)"
proof -
  let ?n = "length s" and ?c = "count_list s"
  let ?P = "\<Prod>b \<in> set s. ?c b ^ (2 * ?c b)"
  have n: "real ?n > 0" using assms by simp
  have pos: "?c b > 0" if "b \<in> set s" for b using that by (metis count_list_0_iff gr0I)
  have "log 2 (real ?P) = (\<Sum>b \<in> set s. log 2 (real (?c b) ^ (2 * ?c b)))"
    using pos log_prod [of "set s" "\<lambda>b. real (?c b) ^ (2 * ?c b)"] by simp
  also have "\<dots> = 2 * (\<Sum>b \<in> set s. real (?c b) * log 2 (real (?c b)))"
    by (auto simp: sum_distrib_left log_nat_power pos intro!: sum.cong)
  finally have P: "log 2 (real ?P) = 2 * (\<Sum>b \<in> set s. real (?c b) * log 2 (real (?c b)))" .
  have Ppos: "real ?P > 0" using pos by (simp add: prod_pos)
  have "shannonEntropy s \<ge> entropyThreshold \<longleftrightarrow> 7 * real ?n \<le> 2 * (real ?n * shannonEntropy s)"
    using n by (auto simp: entropyThreshold_def)
  also have "\<dots> \<longleftrightarrow> 7 * real ?n + log 2 (real ?P) \<le> 2 * real ?n * log 2 (real ?n)"
    unfolding entropy_sum [OF assms] P by (simp add: algebra_simps)
  also have "\<dots> \<longleftrightarrow> log 2 (2 ^ (7 * ?n) * real ?P) \<le> log 2 (real ?n ^ (2 * ?n))"
    using n Ppos by (simp only: log_mult_pos log_nat_power zero_less_power zero_less_numeral) (simp add: log_nat_power)
  also have "\<dots> \<longleftrightarrow> 2 ^ (7 * ?n) * real ?P \<le> real ?n ^ (2 * ?n)"
    using n Ppos by (intro log_le_cancel_iff) auto
  also have "\<dots> \<longleftrightarrow> real (2 ^ (7 * ?n) * ?P) \<le> real (?n ^ (2 * ?n))" by simp
  finally show ?thesis unfolding of_nat_le_iff .
qed

end
