(* ===== verification/Runner.thy ===== *)
theory Runner
  imports CITrust Policy AuditLog Redactor_Props Entropy
begin

text \<open>
  The sealed run of \<open>src/internal/runner/runner.go\<close> (with \<open>net_linux.go\<close>, \<open>procattr_unix.go\<close> and
  \<open>procattr_linux.go\<close>): the checks before a command may start, the environment and the hardening
  of the child, the redaction of its output, and what is reported of its end.

  The operating system is a record of what it answers: the environment, the files it can read, the
  way a command is found, and how a command behaves once it is started (its two output streams in
  the chunks that are read, how it ends and whether the context was done).  A live output is a
  \<open>sink\<close> of the theory \<open>Redactor\<close>.  A Go map is the list of its entries in the order that an iteration
  takes them.  Warnings on the standard error stream of the program itself are left out.
\<close>

section \<open>Data\<close>

datatype runError =
    ErrDenied string
  | ErrCIUntrusted ciError
  | ErrResolveDir
  | ErrBinaryNotFound string string
  | ErrNoNetworkUnsupported string
  | ErrShim string
  | ErrTimeout
  | ErrCancelled
  | ErrExec string
  | ErrAfterRun "string list"

record 'o runOptions =
  ro_Stdout :: 'o
  ro_Stderr :: 'o
  ro_Env :: "string list"
  ro_Secrets :: "(string \<times> string) list"
  ro_RedactValues :: "string list"
  ro_AuditSecrets :: "secretUse list"
  ro_Cleanup :: "string option option"
  ro_WorkDir :: string
  ro_Seccomp :: "bool option"
  ro_DisableEntropyScan :: bool
  ro_AllowPullRequestTarget :: bool
  ro_NoSeal :: bool
  ro_Audit :: bool
  ro_SessionID :: string
  ro_AllowShell :: bool

record runResult =
  rr_ExitCode :: int
  rr_Stdout :: bytes
  rr_Stderr :: bytes
  rr_DurationMs :: int
  rr_Truncated :: bool
  rr_EntropyWarnings :: int
  rr_SeccompInstalled :: bool
  rr_SeccompDetail :: string

text \<open>How a process ended, and what \<open>Cmd.Run\<close> returned; \<open>ExecErr\<close> is any other error by its text.\<close>

datatype procStatus = Exited int | Signaled int

datatype ctxState = CtxLive | CtxDeadline | CtxCanceled

datatype waitErr = ExitErr procStatus | WaitDelayErr "procStatus option" | ExecErr string

record childRun =
  cr_Stdout :: "bytes list"
  cr_Stderr :: "bytes list"
  cr_Ctx :: ctxState
  cr_Err :: "waitErr option"

record runOS =
  os_GOOS :: string
  os_Environ :: "string list"
  os_ReadEvent :: "string \<Rightarrow> eventPayload option"
  os_Getwd :: "string option"
  os_LookPath :: "string \<Rightarrow> string + string"
  os_Executable :: "string + string"
  os_StatSandboxExec :: "string option"
  os_Uid :: int
  os_Gid :: int
  os_Child :: "execCmd \<Rightarrow> childRun"
  os_IsEPERM :: "string \<Rightarrow> bool"
  os_Now :: string
  os_ElapsedMs :: int

section \<open>Finding the executable\<close>

definition isAbs :: "string \<Rightarrow> bool" where
  "isAbs path \<longleftrightarrow> prefix ''/'' path"

definition absPath :: "string option \<Rightarrow> string \<Rightarrow> string option" where
  "absPath cwd path =
     (if isAbs path then Some (Clean path) else case cwd of None \<Rightarrow> None | Some wd \<Rightarrow> Some (pathJoin [wd, path]))"

definition resolveWorkDir :: "command \<Rightarrow> 'o runOptions \<Rightarrow> string" where
  "resolveWorkDir cmd opts =
     (if c_WorkDir cmd \<noteq> [] \<and> isAbs (c_WorkDir cmd) then c_WorkDir cmd
      else if c_WorkDir cmd \<noteq> [] \<and> ro_WorkDir opts \<noteq> [] then pathJoin [ro_WorkDir opts, c_WorkDir cmd]
      else if c_WorkDir cmd \<noteq> [] then c_WorkDir cmd
      else ro_WorkDir opts)"

text \<open>The name that is looked up; \<open>None\<close> when the current directory is not known.\<close>

definition binaryName :: "runOS \<Rightarrow> string \<Rightarrow> string \<Rightarrow> string option" where
  "binaryName os workDir name =
     (if workDir \<noteq> [] \<and> \<not> isAbs name \<and> CHR ''/'' \<in> set name
      then absPath (os_Getwd os) (pathJoin [workDir, name]) else Some name)"

section \<open>What is redacted\<close>

definition minRedactableSecretLen :: nat where "minRedactableSecretLen = 4"

text \<open>The constant of the same name in the runner.\<close>

definition runnerMinEncodableLen :: nat where "runnerMinEncodableLen = 8"

definition redactables :: "string \<Rightarrow> string list" where
  "redactables v =
     (if length v < minRedactableSecretLen then []
      else v # (if length v \<ge> runnerMinEncodableLen then Encodings v (int runnerMinEncodableLen) else []))"

definition secretValues :: "'o runOptions \<Rightarrow> string list" where
  "secretValues opts =
     concat (List.map (\<lambda>(name, v). redactables v) (ro_Secrets opts)) @
     concat (List.map redactables (ro_RedactValues opts))"

section \<open>The environment of the child\<close>

definition dangerousEnvPrefixes :: "string list" where
  "dangerousEnvPrefixes =
     [''LD_PRELOAD'', ''LD_LIBRARY_PATH'', ''LD_AUDIT'', ''DYLD_'', ''BASH_ENV'', ''ZDOTDIR'', ''BASH_FUNC_'',
      ''SHELLOPTS'', ''BASHOPTS'', ''CDPATH'', ''GLOBIGNORE'', ''PROMPT_COMMAND'', ''PYTHON'', ''NODE_OPTIONS'',
      ''NODE_PATH'', ''RUBYOPT'', ''RUBYLIB'', ''PERL5OPT'', ''PERL5LIB'', ''JAVA_TOOL_OPTIONS'',
      ''JDK_JAVA_OPTIONS'', ''_JAVA_OPTIONS'', ''GOFLAGS'', ''GCONV_PATH'', ''RUSTC_WRAPPER'', ''GIT_SSH'',
      ''GIT_CONFIG_'']"

definition dangerousEnvExact :: "string list" where
  "dangerousEnvExact = [''ENV'']"

definition isDangerousEnv :: "string \<Rightarrow> bool" where
  "isDangerousEnv key \<longleftrightarrow> key \<in> set dangerousEnvExact \<or> list_ex (\<lambda>p. prefix p key) dangerousEnvPrefixes"

text \<open>\<open>strings.SplitN(e, "=", 2)[0]\<close>.\<close>

definition entryKey :: "string \<Rightarrow> string" where
  "entryKey e = takeWhile (\<lambda>c. c \<noteq> CHR ''='') e"

text \<open>The slice is nil when nothing was appended to it.\<close>

definition buildEnv :: "string list \<Rightarrow> string list \<Rightarrow> (string \<times> string) list \<Rightarrow> string list option" where
  "buildEnv environ extra secrets =
     (let env = List.filter (\<lambda>e. \<not> isDangerousEnv (entryKey e)) (Environ environ) @ extra @
                  List.map (\<lambda>(k, v). k @ ''='' @ v) secrets
      in if env = [] then None else Some env)"

section \<open>Isolation\<close>

definition noAttr :: sysProcAttr where
  "noAttr = \<lparr>spa_CloneNewUser = False, spa_CloneNewNet = False, spa_UidMappings = [], spa_GidMappings = [],
     spa_Setpgid = False, spa_Pdeathsig = False\<rparr>"

definition attrOf :: "execCmd \<Rightarrow> sysProcAttr" where
  "attrOf c = (case ec_SysProcAttr c of None \<Rightarrow> noAttr | Some a \<Rightarrow> a)"

definition applyLinuxNetworkIsolation :: "runOS \<Rightarrow> execCmd \<Rightarrow> execCmd" where
  "applyLinuxNetworkIsolation os c =
     c\<lparr>ec_SysProcAttr := Some ((attrOf c)\<lparr>spa_CloneNewUser := True, spa_CloneNewNet := True,
         spa_UidMappings := [(0, os_Uid os, 1)], spa_GidMappings := [(0, os_Gid os, 1)]\<rparr>)\<rparr>"

definition sandboxExecPath :: string where "sandboxExecPath = ''/usr/bin/sandbox-exec''"

definition sandboxProfile :: string where
  "sandboxProfile = ''(version 1)'' @ [newline] @ ''(allow default)'' @ [newline] @ ''(deny network*)'' @ [newline]"

definition applyDarwinNetworkIsolation :: "runOS \<Rightarrow> execCmd \<Rightarrow> runError + execCmd" where
  "applyDarwinNetworkIsolation os c =
     (case os_StatSandboxExec os of
        Some err \<Rightarrow> Err (ErrNoNetworkUnsupported (sandboxExecPath @ '' unavailable on this macOS host: '' @ err))
      | None \<Rightarrow> Ok (c\<lparr>ec_Args := [''sandbox-exec'', ''-p'', sandboxProfile] @ ec_Args c, ec_Path := sandboxExecPath\<rparr>))"

definition applyNetworkIsolation :: "runOS \<Rightarrow> execCmd \<Rightarrow> runError + execCmd" where
  "applyNetworkIsolation os c =
     (if os_GOOS os = ''linux'' then Ok (applyLinuxNetworkIsolation os c)
      else if os_GOOS os = ''darwin'' then applyDarwinNetworkIsolation os c
      else Err (ErrNoNetworkUnsupported (''no implementation for GOOS='' @ os_GOOS os)))"

text \<open>Process groups exist on Unix only; the parent-death signal on Linux only.\<close>

definition setProcessGroup :: "runOS \<Rightarrow> execCmd \<Rightarrow> execCmd" where
  "setProcessGroup os c =
     (if os_GOOS os \<in> set [''windows'', ''plan9'', ''js'', ''wasip1''] then c
      else c\<lparr>ec_SysProcAttr := Some ((attrOf c)\<lparr>spa_Setpgid := True,
               spa_Pdeathsig := spa_Pdeathsig (attrOf c) \<or> os_GOOS os = ''linux''\<rparr>)\<rparr>)"

section \<open>Preparing the command\<close>

record prepared =
  pr_Cmd :: execCmd
  pr_SeccompInstalled :: bool
  pr_SeccompDetail :: string
  pr_ShimArmed :: bool

definition seccompRequested :: "'o runOptions \<Rightarrow> bool" where
  "seccompRequested opts \<longleftrightarrow> ro_Seccomp opts = Some True"

text \<open>The switch that arms the shim.\<close>

definition armShim :: "runOS \<Rightarrow> 'o runOptions \<Rightarrow> execCmd \<Rightarrow> runError + prepared" where
  "armShim os opts c =
     (if os_GOOS os \<noteq> ''linux'' then
        Ok \<lparr>pr_Cmd = c, pr_SeccompInstalled = False,
            pr_SeccompDetail = ''not installed: sealed-exec shim unsupported on GOOS='' @ os_GOOS os, pr_ShimArmed = False\<rparr>
      else if ro_NoSeal opts \<and> \<not> seccompRequested opts then
        Ok \<lparr>pr_Cmd = c, pr_SeccompInstalled = False, pr_SeccompDetail = ''not requested'', pr_ShimArmed = False\<rparr>
      else case armSealedExec (os_Executable os) c (ro_NoSeal opts) (seccompRequested opts) of
        Inl err \<Rightarrow> Err (ErrShim err)
      | Inr c' \<Rightarrow>
          if seccompRequested opts
          then Ok \<lparr>pr_Cmd = c', pr_SeccompInstalled = True,
                 pr_SeccompDetail = ''shim armed; filter installs in-child before execve (fail-closed)'', pr_ShimArmed = True\<rparr>
          else Ok \<lparr>pr_Cmd = c', pr_SeccompInstalled = False,
                 pr_SeccompDetail = ''seal-only shim (seccomp not requested; filter skipped)'', pr_ShimArmed = True\<rparr>)"

definition newCmd :: "runOS \<Rightarrow> command \<Rightarrow> 'o runOptions \<Rightarrow> string \<Rightarrow> execCmd" where
  "newCmd os cmd opts bin =
     \<lparr>ec_Path = bin, ec_Args = bin # tl (c_Argv cmd), ec_Env = buildEnv (os_Environ os) (ro_Env opts) (ro_Secrets opts),
      ec_Dir = resolveWorkDir cmd opts, ec_SysProcAttr = None\<rparr>"

text \<open>Everything that \<open>Run\<close> does before it starts the child, in the order of the code.\<close>

definition prepare :: "runOS \<Rightarrow> command \<Rightarrow> 'o runOptions \<Rightarrow> runError + prepared" where
  "prepare os cmd opts =
     (if length (c_Argv cmd) = 0 then Err (ErrDenied ''empty argv'')
      else if \<not> ro_AllowShell opts \<and> IsShellString (c_Argv cmd) then Err (ErrDenied ''shell commands are not allowed'')
      else case CheckCITrust (os_Environ os) (os_ReadEvent os) (ro_AllowPullRequestTarget opts) of
        Some err \<Rightarrow> Err (ErrCIUntrusted err)
      | None \<Rightarrow> (case binaryName os (resolveWorkDir cmd opts) (c_Argv cmd ! 0) of
          None \<Rightarrow> Err ErrResolveDir
        | Some name \<Rightarrow> (case os_LookPath os name of
            Inl err \<Rightarrow> Err (ErrBinaryNotFound (c_Argv cmd ! 0) err)
          | Inr bin \<Rightarrow>
              (case (if EffectiveNoNetwork cmd then applyNetworkIsolation os (newCmd os cmd opts bin)
                     else Ok (newCmd os cmd opts bin)) of
                 Inl err \<Rightarrow> Err err
               | Inr c \<Rightarrow> (case armShim os opts c of
                   Inl err \<Rightarrow> Err err
                 | Inr p \<Rightarrow> Ok (p\<lparr>pr_Cmd := setProcessGroup os (pr_Cmd p)\<rparr>))))))"


section \<open>Output\<close>

text \<open>\<open>io.MultiWriter\<close> over the buffer of the result and the live output, whose errors cancel the run.\<close>

record 'o teeSink =
  ts_Buf :: bytes
  ts_Live :: 'o
  ts_Canceled :: bool

definition cancelOnErr :: "('o, string) sink \<Rightarrow> 'o teeSink \<Rightarrow> bytes \<Rightarrow> 'o teeSink \<times> nat \<times> string option" where
  "cancelOnErr wr t p =
     (let (o', n, err) = wr (ts_Live t) p
      in (t\<lparr>ts_Live := o', ts_Canceled := ts_Canceled t \<or> err \<noteq> None\<rparr>, n, err))"

definition teeWrite :: "('o, string) sink \<Rightarrow> ('o teeSink, string) sink" where
  "teeWrite wr t p =
     (let (t, n, err) = cancelOnErr wr (t\<lparr>ts_Buf := ts_Buf t @ p\<rparr>) p
      in if err \<noteq> None then (t, n, err)
         else if n \<noteq> length p then (t, n, Some ''short write'')
         else (t, length p, None))"

record 'w capWriter =
  cw_w :: 'w
  cw_max :: int
  cw_written :: int
  cw_dropped :: bool

definition capWrite :: "('w, string) sink \<Rightarrow> ('w capWriter, string) sink" where
  "capWrite wr c p =
     (if cw_max c \<le> 0 then (let (w', n, err) = wr (cw_w c) p in (c\<lparr>cw_w := w'\<rparr>, n, err))
      else
        let remaining = cw_max c - cw_written c in
        if remaining \<le> 0 then (c\<lparr>cw_dropped := True\<rparr>, length p, None)
        else if int (length p) > remaining then
          (let (w', n, err) = wr (cw_w c) (take (nat remaining) p);
               c' = c\<lparr>cw_dropped := True, cw_w := w', cw_written := cw_written c + int n\<rparr>
           in if err \<noteq> None then (c', n, err) else (c', length p, None))
        else
          let (w', n, err) = wr (cw_w c) p
          in (c\<lparr>cw_w := w', cw_written := cw_written c + int n\<rparr>, n, err))"

text \<open>\<open>os/exec\<close> copies the chunks it reads from the child until a write fails.\<close>

fun copyChunks :: "('o, 'e) sink \<Rightarrow> bytes list \<Rightarrow> 'o redactor \<Rightarrow> 'o redactor \<times> 'e option" where
  "copyChunks wr [] w = (w, None)"
| "copyChunks wr (p # ps) w =
     (case Write wr w p of
        (w', _, Some e) \<Rightarrow> (w', Some e)
      | (w', _, None) \<Rightarrow> copyChunks wr ps w')"

type_synonym 'o outStream = "'o teeSink capWriter redactor"

definition newStream :: "'o \<Rightarrow> int \<Rightarrow> string list \<Rightarrow> 'o outStream" where
  "newStream live maxBytes secrets =
     New \<lparr>cw_w = \<lparr>ts_Buf = [], ts_Live = live, ts_Canceled = False\<rparr>, cw_max = maxBytes,
          cw_written = 0, cw_dropped = False\<rparr> secrets 0"

text \<open>One stream from the start of the child to the flush: the copy's error and the flush's.\<close>

definition runStream :: "('o, string) sink \<Rightarrow> bytes list \<Rightarrow> 'o outStream \<Rightarrow> 'o outStream \<times> string option \<times> string option" where
  "runStream wr chunks w =
     (let (w1, cerr) = copyChunks (capWrite (teeWrite wr)) chunks w;
          (w2, ferr) = Flush (capWrite (teeWrite wr)) w1
      in (w2, cerr, ferr))"

definition streamTee :: "'o outStream \<Rightarrow> 'o teeSink" where
  "streamTee w = cw_w (w_out w)"

section \<open>The end of the child\<close>

definition statusCode :: "procStatus \<Rightarrow> int" where
  "statusCode st = (case st of Exited n \<Rightarrow> n | Signaled _ \<Rightarrow> -1)"

definition signalExitCode :: "procStatus option \<Rightarrow> int option" where
  "signalExitCode ps = (case ps of Some (Signaled s) \<Rightarrow> Some (128 + s) | _ \<Rightarrow> None)"

definition processStateExitCode :: "procStatus option \<Rightarrow> int" where
  "processStateExitCode ps =
     (case ps of
        None \<Rightarrow> -1
      | Some st \<Rightarrow>
          (let code = statusCode st in
           if code < 0 then (case signalExitCode ps of Some c \<Rightarrow> c | None \<Rightarrow> code) else code))"

definition ctxAfter :: "ctxState \<Rightarrow> bool \<Rightarrow> ctxState" where
  "ctxAfter ctx canceled = (if ctx = CtxLive \<and> canceled then CtxCanceled else ctx)"

text \<open>\<open>Cmd.Run\<close> prefers the error of the process over an error of copying its output.\<close>

definition waitError :: "waitErr option \<Rightarrow> string option \<Rightarrow> string option \<Rightarrow> waitErr option" where
  "waitError err out err2 =
     (case err of
        Some e \<Rightarrow> Some e
      | None \<Rightarrow> (case out of Some e \<Rightarrow> Some (ExecErr e) | None \<Rightarrow> map_option ExecErr err2))"

text \<open>The exit code, the error and whether the child did not start.\<close>

definition interpretExit :: "runOS \<Rightarrow> bool \<Rightarrow> ctxState \<Rightarrow> waitErr option \<Rightarrow> int \<times> runError option \<times> bool" where
  "interpretExit os noNet ctx runErr =
     (case runErr of
        None \<Rightarrow> (0, None, False)
      | Some e \<Rightarrow>
          if ctx = CtxDeadline then (0, Some ErrTimeout, False)
          else if ctx = CtxCanceled then (0, Some ErrCancelled, False)
          else if noNet \<and> os_GOOS os = ''linux'' \<and> (case e of ExecErr s \<Rightarrow> os_IsEPERM os s | _ \<Rightarrow> False) then
            (0, Some (ErrNoNetworkUnsupported ''network namespace creation was denied''), True)
          else (case e of
                  WaitDelayErr ps \<Rightarrow> (processStateExitCode ps, None, False)
                | ExitErr st \<Rightarrow>
                    (let code = statusCode st in
                     ((if code < 0 then (case signalExitCode (Some st) of Some c \<Rightarrow> c | None \<Rightarrow> code) else code),
                      None, False))
                | ExecErr s \<Rightarrow> (0, Some (ErrExec s), True)))"

definition correctSeccomp :: "bool \<Rightarrow> int \<Rightarrow> prepared \<Rightarrow> bool \<times> string" where
  "correctSeccomp startFailed exitCode p =
     (if startFailed then (False, ''child process never started'')
      else if pr_ShimArmed p \<and> exitCode = ExitFilterRefused then
        (False, ''shim refused: seccomp filter install failed (fail-closed); child never executed'')
      else if pr_ShimArmed p \<and> exitCode = ExitSealRefused then
        (False, ''shim refused: child seal failed (fail-closed); child never executed'')
      else (pr_SeccompInstalled p, pr_SeccompDetail p))"

definition entropyWarnings :: "bool \<Rightarrow> bytes \<Rightarrow> bytes \<Rightarrow> int" where
  "entropyWarnings disabled out err =
     (if disabled then 0 else int (length (ScanHighEntropy out @ ScanHighEntropy err)))"

section \<open>Run\<close>

definition runAuditEntry :: "runOS \<Rightarrow> command \<Rightarrow> 'o runOptions \<Rightarrow> ctxState \<Rightarrow> 'o outStream \<Rightarrow> 'o outStream \<Rightarrow>
    string \<Rightarrow> runResult \<Rightarrow> auditEntry" where
  "runAuditEntry os cmd opts ctx wout werr cleanupResult r =
     \<lparr>en_Timestamp = os_Now os, en_Schema = 0, en_SessionID = ro_SessionID opts,
      en_Cwd = (case os_Getwd os of None \<Rightarrow> [] | Some d \<Rightarrow> d), en_CommandID = c_ID cmd,
      en_Argv = Some (c_Argv cmd), en_SecretNames = Some (sort (List.map fst (ro_Secrets opts))),
      en_SecretUses = ro_AuditSecrets opts, en_CleanupResult = cleanupResult,
      en_RedactionCount = RedactionCount wout + RedactionCount werr,
      en_EntropyWarnings = rr_EntropyWarnings r, en_ExitCode = rr_ExitCode r, en_DurationMs = rr_DurationMs r,
      en_Truncated = rr_Truncated r,
      en_KillReason = (case ctx of CtxDeadline \<Rightarrow> ''timeout'' | CtxCanceled \<Rightarrow> ''cancelled'' | CtxLive \<Rightarrow> []),
      en_SeccompRequested = seccompRequested opts, en_SeccompInstalled = rr_SeccompInstalled r,
      en_SeccompDetail = rr_SeccompDetail r, en_NoNetwork = EffectiveNoNetwork cmd,
      en_PrevHash = [], en_Hash = [], en_ScrubValues = secretValues opts\<rparr>"

text \<open>The errors after a run that did not fail itself, joined.\<close>

definition afterErrors :: "string option \<Rightarrow> string option \<Rightarrow> string option \<Rightarrow> string list" where
  "afterErrors outFlush errFlush cleanupErr =
     (case outFlush of Some e \<Rightarrow> [''runner: flush stdout: '' @ e] | None \<Rightarrow> []) @
     (case errFlush of Some e \<Rightarrow> [''runner: flush stderr: '' @ e] | None \<Rightarrow> []) @
     (case cleanupErr of Some e \<Rightarrow> [''runner: temporary secret cleanup failed: '' @ e] | None \<Rightarrow> [])"

text \<open>What a run did besides returning.\<close>

record 'o runEffects =
  rx_Cmd :: "execCmd option"
  rx_Stdout :: 'o
  rx_Stderr :: 'o
  rx_CleanedUp :: bool
  rx_Audit :: "auditEntry option"

text \<open>From the start of the prepared command on; \<open>wout\<close> and \<open>werr\<close> are its output writers.\<close>

definition finishRun :: "('o, string) sink \<Rightarrow> runOS \<Rightarrow> command \<Rightarrow> 'o runOptions \<Rightarrow> prepared \<Rightarrow>
    (runError + runResult) \<times> 'o runEffects" where
  "finishRun wr os cmd opts p =
     (let child = os_Child os (pr_Cmd p);
          (wout, outCopy, outFlush) = runStream wr (cr_Stdout child) (newStream (ro_Stdout opts) (c_MaxBytes cmd) (secretValues opts));
          (werr, errCopy, errFlush) = runStream wr (cr_Stderr child) (newStream (ro_Stderr opts) (c_MaxBytes cmd) (secretValues opts));
          cleanupErr = (case ro_Cleanup opts of None \<Rightarrow> None | Some r \<Rightarrow> r);
          cleanupResult = (case ro_Cleanup opts of None \<Rightarrow> [] | Some (Some _) \<Rightarrow> ''failed'' | Some None \<Rightarrow> ''removed'');
          ctx = ctxAfter (cr_Ctx child) (ts_Canceled (streamTee wout) \<or> ts_Canceled (streamTee werr));
          (exitCode, retErr, startFailed) =
            interpretExit os (EffectiveNoNetwork cmd) ctx (waitError (cr_Err child) outCopy errCopy);
          (installed, detail) = correctSeccomp startFailed exitCode p;
          out = ts_Buf (streamTee wout);
          err = ts_Buf (streamTee werr);
          r = \<lparr>rr_ExitCode = exitCode, rr_Stdout = out, rr_Stderr = err, rr_DurationMs = os_ElapsedMs os,
               rr_Truncated = (cw_dropped (w_out wout) \<or> cw_dropped (w_out werr)),
               rr_EntropyWarnings = entropyWarnings (ro_DisableEntropyScan opts) out err,
               rr_SeccompInstalled = installed, rr_SeccompDetail = detail\<rparr>;
          finalErrs = afterErrors outFlush errFlush cleanupErr;
          fx = \<lparr>rx_Cmd = Some (pr_Cmd p), rx_Stdout = ts_Live (streamTee wout), rx_Stderr = ts_Live (streamTee werr),
                rx_CleanedUp = (ro_Cleanup opts \<noteq> None),
                rx_Audit = (if ro_Audit opts \<and> \<not> startFailed
                            then Some (runAuditEntry os cmd opts ctx wout werr cleanupResult r) else None)\<rparr>
      in (case retErr of
            Some e \<Rightarrow> Err e
          | None \<Rightarrow> if finalErrs \<noteq> [] then Err (ErrAfterRun finalErrs) else Ok r, fx))"

definition Run :: "('o, string) sink \<Rightarrow> runOS \<Rightarrow> command \<Rightarrow> 'o runOptions \<Rightarrow> (runError + runResult) \<times> 'o runEffects" where
  "Run wr os cmd opts =
     (case prepare os cmd opts of
        Inl err \<Rightarrow> (Err err, \<lparr>rx_Cmd = None, rx_Stdout = ro_Stdout opts, rx_Stderr = ro_Stderr opts,
                            rx_CleanedUp = False, rx_Audit = None\<rparr>)
      | Inr p \<Rightarrow> finishRun wr os cmd opts p)"

end
