(* ===== verification/SealedExec_Props.thy ===== *)
theory SealedExec_Props
  imports SealedExec
begin

text \<open>
  What the filter decides, and that the hardening of a sealed child is the operator's choice:
  no entry of the environment that the parent inherited, the policy declares or a secret is
  injected as can skip the filter or the seal, and the target sees none of the shim's variables.
\<close>

section \<open>Looking up variables\<close>

definition keyName :: "string \<Rightarrow> bool" where
  "keyName k \<longleftrightarrow> k \<noteq> [] \<and> CHR ''='' \<notin> set k"

lemma indexOf_key: "CHR ''='' \<notin> set k \<Longrightarrow> byteIndex (CHR ''='') (k @ CHR ''='' # v) = Some (length k)"
  by (induction k) auto

lemma indexOf_split: "byteIndex c e = Some i \<Longrightarrow> e = take i e @ c # drop (Suc i) e \<and> c \<notin> set (take i e)"
proof (induction e arbitrary: i)
  case (Cons a e)
  then show ?case by (cases "a = c") (auto split: option.splits)
qed simp

lemma indexOf_iff:
  assumes "keyName k"
  shows "prefix (k @ ''='') e \<longleftrightarrow> (\<exists>i. byteIndex (CHR ''='') e = Some i \<and> take i e = k)"
proof
  assume "prefix (k @ ''='') e"
  then obtain v where "e = k @ CHR ''='' # v" by (auto simp: prefix_def)
  then show "\<exists>i. byteIndex (CHR ''='') e = Some i \<and> take i e = k"
    using assms indexOf_key [of k v] by (auto simp: keyName_def)
next
  assume "\<exists>i. byteIndex (CHR ''='') e = Some i \<and> take i e = k"
  then obtain v where "e = k @ CHR ''='' # v" using indexOf_split by metis
  then show "prefix (k @ ''='') e" by simp
qed

lemma keyEnd_iff:
  assumes "keyName k"
  shows "prefix (k @ ''='') e \<longleftrightarrow> (\<exists>i. keyEnd e = Some i \<and> take i e = k)"
proof (cases "byteIndex (CHR ''='') e = Some 0")
  case True
  then have "e \<noteq> []" "hd e = CHR ''=''" using indexOf_split by (metis append_Nil list.distinct(1) list.sel(1) take0)+
  then have "take i e = k \<Longrightarrow> False" for i
    using assms by (cases e; cases i) (auto simp: keyName_def)
  then show ?thesis unfolding indexOf_iff [OF assms] by blast
next
  case False
  then have "keyEnd e = byteIndex (CHR ''='') e"
    by (auto simp: keyEnd_def split: option.split nat.split)
  then show ?thesis unfolding indexOf_iff [OF assms] by simp
qed

lemma lookupEnv_append:
  "lookupEnv (xs @ ys) k = (case lookupEnv xs k of None \<Rightarrow> lookupEnv ys k | Some v \<Rightarrow> Some v)"
  by (induction xs) auto

lemma lookup_environFrom:
  "keyName k \<Longrightarrow> lookupEnv (environFrom seen es) k = (if k \<in> set seen then None else lookupEnv es k)"
proof (induction seen es rule: environFrom.induct)
  case (2 seen e es)
  show ?case
  proof (cases "byteIndex (CHR ''='') e")
    case None
    then have "\<not> prefix (k @ ''='') e" using indexOf_iff [OF "2.prems"] by simp
    with 2 None show ?thesis by auto
  next
    case (Some i)
    then have "prefix (k @ ''='') e \<longleftrightarrow> take i e = k" using indexOf_iff [OF "2.prems"] by auto
    with 2 Some show ?thesis by auto
  qed
qed simp

lemma lookup_dedupRev:
  "keyName k \<Longrightarrow> lookupEnv (rev (dedupRev saw es)) k = (if k \<in> set saw then None else lookupEnv es k)"
proof (induction saw es rule: dedupRev.induct)
  case (2 saw e es)
  show ?case
  proof (cases "keyEnd e")
    case None
    then have "\<not> prefix (k @ ''='') e" using keyEnd_iff [OF "2.prems"] by simp
    with 2 None show ?thesis by (auto simp: lookupEnv_append split: option.split)
  next
    case (Some i)
    then have "prefix (k @ ''='') e \<longleftrightarrow> take i e = k" using keyEnd_iff [OF "2.prems"] by auto
    with 2 Some show ?thesis by (auto simp: lookupEnv_append split: option.split)
  qed
qed simp

lemma lookup_Environ: "keyName k \<Longrightarrow> lookupEnv (Environ env) k = lookupEnv env k"
  by (simp add: Environ_def lookup_environFrom)

text \<open>For the child the last entry of a key counts.\<close>

lemma lookup_dedupEnv: "keyName k \<Longrightarrow> lookupEnv (dedupEnv env) k = lookupEnv (rev env) k"
  by (simp add: dedupEnv_def lookup_dedupRev)

lemma keys_disjoint:
  "keyName k \<Longrightarrow> keyName k' \<Longrightarrow> prefix (k @ ''='') e \<Longrightarrow> prefix (k' @ ''='') e \<Longrightarrow> k = k'"
  unfolding indexOf_iff by auto

lemma lookup_filter:
  "keyName k \<Longrightarrow> (\<And>e. prefix (k @ ''='') e \<Longrightarrow> P e) \<Longrightarrow>
   lookupEnv (List.filter P env) k = lookupEnv env k"
  by (induction env) auto

lemma lookup_filtered:
  "(\<And>e. prefix (k @ ''='') e \<Longrightarrow> \<not> P e) \<Longrightarrow> lookupEnv (List.filter P env) k = None"
  by (induction env) auto

definition shimVars :: "string list" where
  "shimVars = [EnvSentinel, EnvNoSeal, EnvSkipSeccomp]"

lemma shimVars_keyName: "k \<in> set shimVars \<Longrightarrow> keyName k"
  by (auto simp: shimVars_def keyName_def EnvSentinel_def EnvNoSeal_def EnvSkipSeccomp_def)

lemma strippedEnv_alt:
  "strippedEnv env = List.filter (\<lambda>e. \<forall>v \<in> set shimVars. \<not> prefix (v @ ''='') e) (Environ env)"
  by (simp add: strippedEnv_def shimVars_def)

lemma lookup_strippedEnv:
  assumes "keyName k"
  shows "lookupEnv (strippedEnv env) k = (if k \<in> set shimVars then None else lookupEnv env k)"
proof (cases "k \<in> set shimVars")
  case True
  then show ?thesis unfolding strippedEnv_alt by (subst lookup_filtered) auto
next
  case False
  then have "lookupEnv (strippedEnv env) k = lookupEnv (Environ env) k"
    unfolding strippedEnv_alt
    by (intro lookup_filter [OF assms]) (metis keys_disjoint [OF assms] shimVars_keyName)
  with False assms show ?thesis by (simp add: lookup_Environ)
qed


section \<open>The armed command\<close>

definition commandEnv :: "execCmd \<Rightarrow> string list" where
  "commandEnv c = (case ec_Env c of None \<Rightarrow> [] | Some env \<Rightarrow> env)"

definition shimEntries :: "bool \<Rightarrow> bool \<Rightarrow> string list" where
  "shimEntries noSeal seccomp = [EnvSentinel @ ''=1''] @ (if noSeal then [EnvNoSeal @ ''=1''] else []) @
     (if \<not> seccomp then [EnvSkipSeccomp @ ''=1''] else [])"

lemma armSealedExec_Inr:
  assumes "armSealedExec exe c noSeal seccomp = Inr c'"
  obtains self where "exe = Inr self"
    "c' = c\<lparr>ec_Args := [Sentinel, ec_Path c] @ ec_Args c, ec_Path := self,
            ec_Env := Some (List.filter (\<lambda>e. \<not> (prefix (EnvNoSeal @ ''='') e \<or> prefix (EnvSkipSeccomp @ ''='') e))
                              (commandEnv c) @ shimEntries noSeal seccomp)\<rparr>"
  using assms by (cases exe) (auto simp: armSealedExec_def shimEntries_def commandEnv_def Let_def)

lemma lookup_shimEntries:
  assumes "keyName k"
  shows "lookupEnv (rev (shimEntries noSeal seccomp)) k =
    (if k = EnvSentinel then Some ''1'' else if k = EnvNoSeal \<and> noSeal then Some ''1''
     else if k = EnvSkipSeccomp \<and> \<not> seccomp then Some ''1'' else None)"
proof -
  have own: "prefix (k @ ''='') (v @ ''=1'') \<longleftrightarrow> k = v" if "v \<in> set shimVars" for v
    using keys_disjoint [OF assms shimVars_keyName [OF that], of "v @ ''=1''"] by auto
  have distinct: "EnvSentinel \<noteq> EnvNoSeal" "EnvSentinel \<noteq> EnvSkipSeccomp" "EnvNoSeal \<noteq> EnvSkipSeccomp"
    by (simp_all add: EnvSentinel_def EnvNoSeal_def EnvSkipSeccomp_def)
  have "prefix (k @ ''='') (EnvSentinel @ ''=1'') \<longleftrightarrow> k = EnvSentinel"
    "prefix (k @ ''='') (EnvNoSeal @ ''=1'') \<longleftrightarrow> k = EnvNoSeal"
    "prefix (k @ ''='') (EnvSkipSeccomp @ ''=1'') \<longleftrightarrow> k = EnvSkipSeccomp"
    by (rule own, simp add: shimVars_def)+
  then show ?thesis
    using distinct by (auto simp del: prefix_order.order_refl simp: shimEntries_def)
qed

lemma lookup_armed:
  assumes "armSealedExec exe c noSeal seccomp = Inr c'" "cmdEnviron parent absDir c' = Some env" "keyName k"
  shows "lookupEnv env k =
    (if k = EnvSentinel then Some ''1''
     else if k = EnvNoSeal then (if noSeal then Some ''1'' else None)
     else if k = EnvSkipSeccomp then (if seccomp then None else Some ''1'')
     else lookupEnv (rev (commandEnv c)) k)"
proof -
  let ?P = "\<lambda>e. \<not> (prefix (EnvNoSeal @ ''='') e \<or> prefix (EnvSkipSeccomp @ ''='') e)"
  let ?kept = "List.filter ?P (commandEnv c)"
  have env: "env = dedupEnv (?kept @ shimEntries noSeal seccomp)"
    using assms(1,2) by (auto simp: cmdEnviron_def split: if_splits elim!: armSealedExec_Inr)
  have names: "keyName EnvNoSeal" "keyName EnvSkipSeccomp"
    by (rule shimVars_keyName, simp add: shimVars_def)+
  have kept: "lookupEnv (rev ?kept) k =
      (if k = EnvNoSeal \<or> k = EnvSkipSeccomp then None else lookupEnv (rev (commandEnv c)) k)"
  proof (cases "k = EnvNoSeal \<or> k = EnvSkipSeccomp")
    case True
    then show ?thesis unfolding rev_filter by (subst lookup_filtered) auto
  next
    case False
    then have "lookupEnv (rev ?kept) k = lookupEnv (rev (commandEnv c)) k"
      unfolding rev_filter using keys_disjoint [OF assms(3)] names by (intro lookup_filter [OF assms(3)]) blast
    with False show ?thesis by simp
  qed
  show ?thesis
    unfolding env lookup_dedupEnv [OF assms(3)] rev_append lookupEnv_append lookup_shimEntries [OF assms(3)] kept
    by (auto simp: EnvSentinel_def EnvNoSeal_def EnvSkipSeccomp_def)
qed

text \<open>What the shim did to its process when it starts the target.\<close>

definition hardened :: "unixConsts \<Rightarrow> string \<Rightarrow> bool \<Rightarrow> bool \<Rightarrow> procState" where
  "hardened u goarch noSeal seccomp =
     \<lparr>ps_NoNewPrivs = seccomp,
      ps_Filter = (if seccomp then (case buildFilter u goarch of Inr prog \<Rightarrow> Some prog | Inl _ \<Rightarrow> None) else None),
      ps_CoreLimit = (if noSeal then None else Some (0, 0))\<rparr>"

definition filterRefused :: "unixConsts \<Rightarrow> string \<Rightarrow> shimOS \<Rightarrow> bool" where
  "filterRefused u goarch os \<longleftrightarrow> so_Prctl (sh_Seccomp os) \<noteq> None \<or> so_Seccomp (sh_Seccomp os) \<noteq> None \<or>
     (goarch \<noteq> ''amd64'' \<and> goarch \<noteq> ''arm64'')"

lemma applySeccompFilter_fresh:
  "snd (applySeccompFilter u goarch (sh_Seccomp os) freshProc) \<noteq> None \<longleftrightarrow> filterRefused u goarch os"
  "\<not> filterRefused u goarch os \<Longrightarrow>
     fst (applySeccompFilter u goarch (sh_Seccomp os) freshProc) = (hardened u goarch True True)"
proof -
  have b: "(\<exists>prog. buildFilter u goarch = Inr prog) \<longleftrightarrow> goarch = ''amd64'' \<or> goarch = ''arm64''"
    by (auto simp: buildFilter_def archInfo_def)
  have ok: "snd (applySeccompFilter u goarch (sh_Seccomp os) freshProc) = None \<longleftrightarrow> \<not> filterRefused u goarch os"
    using applySeccompFilter_ok [of u goarch "sh_Seccomp os" freshProc] b
    by (auto simp: filterRefused_def prod_eq_iff)
  from ok show "snd (applySeccompFilter u goarch (sh_Seccomp os) freshProc) \<noteq> None \<longleftrightarrow> filterRefused u goarch os"
    by (simp only: simp_thms)
  assume "\<not> filterRefused u goarch os"
  with ok have "applySeccompFilter u goarch (sh_Seccomp os) freshProc =
      (fst (applySeccompFilter u goarch (sh_Seccomp os) freshProc), None)"
    by (simp add: prod_eq_iff)
  then show "fst (applySeccompFilter u goarch (sh_Seccomp os) freshProc) = hardened u goarch True True"
    unfolding applySeccompFilter_ok by (auto simp: hardened_def freshProc_def)
qed

lemma runShim_hardens:
  assumes "Getenv env EnvSkipSeccomp = ''1'' \<longleftrightarrow> \<not> seccomp" "Getenv env EnvNoSeal = ''1'' \<longleftrightarrow> noSeal"
    and "args \<noteq> []"
  shows "runShim u goarch os env (s # path # args) freshProc =
    (if seccomp \<and> filterRefused u goarch os then ShimExit ExitFilterRefused
     else if \<not> noSeal \<and> sh_Setrlimit os \<noteq> None then ShimExit ExitSealRefused
     else if sh_Exec os \<noteq> None then ShimExit exitBroken
     else ShimExec path args (strippedEnv env) (hardened u goarch noSeal seccomp))"
proof -
  let ?a = "applySeccompFilter u goarch (sh_Seccomp os) freshProc"
  let ?p = "if seccomp then ?a else (freshProc, None)"
  have len: "\<not> length (s # path # args) < 3" using assms(3) by (cases args) auto
  have step: "(if Getenv env EnvSkipSeccomp \<noteq> ''1'' then ?a else (freshProc, None)) = ?p"
    using assms(1) by simp
  have err: "snd ?p \<noteq> None \<longleftrightarrow> seccomp \<and> filterRefused u goarch os"
    using applySeccompFilter_fresh(1) by simp
  have st: "fst ?p = hardened u goarch True seccomp" if "\<not> (seccomp \<and> filterRefused u goarch os)"
  proof (cases seccomp)
    case True
    with that show ?thesis by (simp add: applySeccompFilter_fresh(2))
  next
    case False
    then show ?thesis by (simp add: hardened_def freshProc_def)
  qed
  have seal: "hardened u goarch True seccomp\<lparr>ps_CoreLimit := Some (0, 0)\<rparr> = hardened u goarch False seccomp"
    by (simp add: hardened_def)
  obtain p e where pe: "?p = (p, e)" by fastforce
  show ?thesis
    unfolding runShim_def step pe if_not_P [OF len] using err st pe assms(2) seal
    by (cases "sh_Setrlimit os") (auto simp: sealChild_def execTarget_def)
qed

text \<open>C16: A command armed with the shim starts the program as the shim, which refuses to go on (exit code 125 or
  124) if the filter was requested and cannot be installed or the seal is on and fails, and else
  becomes the target with its own arguments, the filter exactly if it was requested and the core limit exactly if
  the seal was not turned off.  This holds for every environment of the command, of which
  the target gets the last entry of each key, without the shim's own variables.\<close>
theorem sealed_child_hardened:
  assumes "armSealedExec exe c noSeal seccomp = Inr c'" "cmdEnviron parent absDir c' = Some env"
    and "ec_Args c \<noteq> []"
  shows "shimInit u goarch os env (ec_Args c') freshProc = Some
      (if seccomp \<and> filterRefused u goarch os then ShimExit ExitFilterRefused
       else if \<not> noSeal \<and> sh_Setrlimit os \<noteq> None then ShimExit ExitSealRefused
       else if sh_Exec os \<noteq> None then ShimExit exitBroken
       else ShimExec (ec_Path c) (ec_Args c) (strippedEnv env) (hardened u goarch noSeal seccomp)) \<and>
    (\<forall>k. keyName k \<longrightarrow> lookupEnv (strippedEnv env) k =
       (if k \<in> set shimVars then None else lookupEnv (rev (commandEnv c)) k))"
proof -
  have names: "keyName EnvSentinel" "keyName EnvNoSeal" "keyName EnvSkipSeccomp"
    by (rule shimVars_keyName, simp add: shimVars_def)+
  note look = lookup_armed [OF assms(1,2)]
  have args: "ec_Args c' = Sentinel # ec_Path c # ec_Args c"
    using assms(1) by (auto elim!: armSealedExec_Inr)
  have "Getenv env EnvSentinel = ''1''" "Getenv env EnvSkipSeccomp = ''1'' \<longleftrightarrow> \<not> seccomp"
    "Getenv env EnvNoSeal = ''1'' \<longleftrightarrow> noSeal"
    unfolding Getenv_def look [OF names(1)] look [OF names(2)] look [OF names(3)]
    by (auto simp: EnvSentinel_def EnvNoSeal_def EnvSkipSeccomp_def)
  then have "shimInit u goarch os env (ec_Args c') freshProc = Some
      (if seccomp \<and> filterRefused u goarch os then ShimExit ExitFilterRefused
       else if \<not> noSeal \<and> sh_Setrlimit os \<noteq> None then ShimExit ExitSealRefused
       else if sh_Exec os \<noteq> None then ShimExit exitBroken
       else ShimExec (ec_Path c) (ec_Args c) (strippedEnv env) (hardened u goarch noSeal seccomp))"
    unfolding shimInit_def IsShim_def args by (simp only: runShim_hardens [OF _ _ assms(3)]) simp
  moreover have "lookupEnv (strippedEnv env) k =
      (if k \<in> set shimVars then None else lookupEnv (rev (commandEnv c)) k)" if "keyName k" for k
    using look [OF that] lookup_strippedEnv [OF that] by (auto simp: shimVars_def)
  ultimately show ?thesis by blast
qed


text \<open>The constants on amd64, and a command whose environment names the shim's variables.\<close>

definition linuxAmd64 :: unixConsts where
  "linuxAmd64 = \<lparr>uc_AUDIT_ARCH_X86_64 = 0xC000003E, uc_AUDIT_ARCH_AARCH64 = 0xC00000B7,
     uc_RET_KILL_PROCESS = 0x80000000, uc_RET_ERRNO = 0x00050000, uc_RET_DATA = 0xFFFF,
     uc_RET_ALLOW = 0x7FFF0000, uc_EPERM = 1, uc_SYS_PTRACE = 101, uc_SYS_PROCESS_VM_READV = 310,
     uc_SYS_PROCESS_VM_WRITEV = 311, uc_SYS_KCMP = 312, uc_SYS_PERF_EVENT_OPEN = 298,
     uc_SYS_BPF = 321, uc_SYS_USERFAULTFD = 323\<rparr>"

definition sampleCmd :: execCmd where
  "sampleCmd = \<lparr>ec_Path = ''/bin/true'', ec_Args = [''/bin/true'', ''-v''],
     ec_Env = Some [''IRONRUN_NO_SEAL=1'', ''TOKEN=a'', ''IRONRUN_SKIP_SECCOMP=1'', ''TOKEN=b''],
     ec_Dir = '''', ec_SysProcAttr = None\<rparr>"

definition sampleArmed :: execCmd where
  "sampleArmed = sampleCmd\<lparr>ec_Args := [Sentinel, ''/bin/true'', ''/bin/true'', ''-v''],
     ec_Path := ''/usr/bin/ironrun'',
     ec_Env := Some [''TOKEN=a'', ''TOKEN=b'', ''IRONRUN_SEALED_EXEC=1'']\<rparr>"

definition healthyOS :: shimOS where
  "healthyOS = \<lparr>sh_Seccomp = \<lparr>so_Prctl = None, so_Seccomp = None\<rparr>, sh_Setrlimit = None, sh_Exec = None\<rparr>"

lemma sealed_child_hardened_witness:
  "shimInit linuxAmd64 ''amd64'' healthyOS [''TOKEN=b'', ''IRONRUN_SEALED_EXEC=1''] (ec_Args sampleArmed) freshProc = Some
      (ShimExec ''/bin/true'' [''/bin/true'', ''-v''] [''TOKEN=b''] (hardened linuxAmd64 ''amd64'' False True))"
proof -
  have arm: "armSealedExec (Inr ''/usr/bin/ironrun'') sampleCmd False True = Inr sampleArmed"
    by (simp add: armSealedExec_def sampleCmd_def sampleArmed_def EnvNoSeal_def EnvSkipSeccomp_def EnvSentinel_def)
  have env: "cmdEnviron [] None sampleArmed = Some [''TOKEN=b'', ''IRONRUN_SEALED_EXEC=1'']"
    by code_simp
  have "strippedEnv [''TOKEN=b'', ''IRONRUN_SEALED_EXEC=1''] = [''TOKEN=b'']" by code_simp
  then show ?thesis
    using sealed_child_hardened [OF arm env, of linuxAmd64 "''amd64''" healthyOS]
    by (simp add: filterRefused_def healthyOS_def) (simp add: sampleCmd_def)
qed

section \<open>The filter\<close>

text \<open>C15: Whatever machine runs the filter as documented, it kills a process of another architecture or, on amd64, a
  call of the x32 interface, answers each denied system call with \<open>EPERM\<close>, and allows every other
  call: no number and no instruction order lets a denied call through.\<close>
theorem seccomp_filter_decides:
  assumes "bpf_machine exec" "buildFilter u goarch = Inr prog"
  shows "exec prog 0 a d = Some
     (if d offArch \<noteq> (if goarch = ''amd64'' then uc_AUDIT_ARCH_X86_64 u else uc_AUDIT_ARCH_AARCH64 u)
      then uc_RET_KILL_PROCESS u
      else if goarch = ''amd64'' \<and> d offNr \<ge> 0x40000000 then uc_RET_KILL_PROCESS u
      else if d offNr \<in> set (deniedSyscalls u) then retErrno u
      else uc_RET_ALLOW u)"
proof (cases "archInfo u goarch")
  case (Inr p)
  then obtain expected guard where info: "archInfo u goarch = Inr (expected, guard)" by (cases p) auto
  then have "expected = (if goarch = ''amd64'' then uc_AUDIT_ARCH_X86_64 u else uc_AUDIT_ARCH_AARCH64 u)"
    "guard \<longleftrightarrow> goarch = ''amd64''"
    by (auto simp: archInfo_def split: if_splits)
  then show ?thesis
    using bpf_machine.exec_buildFilter [OF assms(1) info assms(2), of a d] by (simp add: x32SyscallBit_def)
qed (use assms(2) in \<open>simp add: buildFilter_def\<close>)

text \<open>\<open>ptrace\<close> on amd64 gives \<open>EPERM\<close>, and its x32 number kills the process.\<close>

lemma seccomp_filter_decides_witness:
  "\<exists>prog. buildFilter linuxAmd64 ''amd64'' = Inr prog \<and>
     bpfExec prog 0 0 (\<lambda>off. if off = 0 then 101 else 0xC000003E) = Some 0x00050001 \<and>
     bpfExec prog 0 0 (\<lambda>off. if off = 0 then 0x40000065 else 0xC000003E) = Some 0x80000000"
proof -
  obtain prog where p: "buildFilter linuxAmd64 ''amd64'' = Inr prog"
    by (simp add: buildFilter_def archInfo_def)
  show ?thesis
    using seccomp_filter_decides [OF bpf.bpf_machine_axioms p, of 0 "\<lambda>off. if off = 0 then 101 else 0xC000003E"]
      seccomp_filter_decides [OF bpf.bpf_machine_axioms p, of 0 "\<lambda>off. if off = 0 then 0x40000065 else 0xC000003E"]
    by (intro exI [of _ prog] conjI, intro p)
      (simp_all add: offArch_def offNr_def linuxAmd64_def deniedSyscalls_def retErrno_def)
qed

end
