(* ===== verification/Runner_Props.thy ===== *)
theory Runner_Props
  imports Runner SealedExec_Props
begin

text \<open>
  The output writers of a run as sinks of the redactor, the guards before a child starts, its
  environment and what is reported of its end.
\<close>

section \<open>The output writers\<close>

definition teeUpd :: "('o \<Rightarrow> bytes \<Rightarrow> 'o) \<Rightarrow> 'o teeSink \<Rightarrow> bytes \<Rightarrow> 'o teeSink" where
  "teeUpd upd t d = t\<lparr>ts_Buf := ts_Buf t @ d, ts_Live := upd (ts_Live t) d\<rparr>"

definition capRoom :: "'w capWriter \<Rightarrow> nat" where
  "capRoom c = nat (cw_max c - cw_written c)"

definition capUpd :: "('w \<Rightarrow> bytes \<Rightarrow> 'w) \<Rightarrow> 'w capWriter \<Rightarrow> bytes \<Rightarrow> 'w capWriter" where
  "capUpd upd c d =
     (if cw_max c \<le> 0 then c\<lparr>cw_w := upd (cw_w c) d\<rparr>
      else c\<lparr>cw_w := upd (cw_w c) (take (capRoom c) d),
             cw_written := cw_written c + int (min (length d) (capRoom c)),
             cw_dropped := (cw_dropped c \<or> length d > capRoom c)\<rparr>)"

text \<open>A contract that one writer keeps is kept by the writer around it.\<close>

lemma tee_sink: "byte_sink wr upd \<Longrightarrow> byte_sink (teeWrite wr) (teeUpd upd)"
  by unfold_locales
    (auto simp: teeWrite_def teeUpd_def cancelOnErr_def Let_def byte_sink.wr_ok byte_sink.upd_nil byte_sink.upd_append)

lemma cap_sink:
  assumes "byte_sink wr upd"
  shows "byte_sink (capWrite wr) (capUpd upd)"
proof
  note inner = byte_sink.wr_ok [OF assms] byte_sink.upd_nil [OF assms] byte_sink.upd_append [OF assms]
  fix c :: "'a capWriter" and d a b :: bytes
  show "capWrite wr c d = (capUpd upd c d, length d, None)" if "d \<noteq> []"
  proof -
    consider "cw_max c \<le> 0" | "cw_max c > 0" "cw_max c - cw_written c \<le> 0"
      | "cw_max c > 0" "0 < cw_max c - cw_written c" "cw_max c - cw_written c < int (length d)"
      | "cw_max c > 0" "0 < cw_max c - cw_written c" "\<not> cw_max c - cw_written c < int (length d)"
      by linarith
    then show ?thesis
    proof cases
      case 1
      then show ?thesis using that inner by (simp add: capWrite_def capUpd_def)
    next
      case 2
      then have "capRoom c = 0" by (simp add: capRoom_def)
      with 2 that inner show ?thesis by (simp add: capWrite_def capUpd_def)
    next
      case 3
      then have "take (capRoom c) d \<noteq> []" "capRoom c < length d" using that by (auto simp: capRoom_def)
      with 3 inner show ?thesis
        by (simp add: capWrite_def capUpd_def Let_def min_def flip: capRoom_def)
    next
      case 4
      then have "length d \<le> capRoom c" by (simp add: capRoom_def)
      with 4 that inner show ?thesis by (simp add: capWrite_def capUpd_def Let_def min_def)
    qed
  qed
  show "capUpd upd c [] = c" by (simp add: capUpd_def inner)
  show "capUpd upd (capUpd upd c a) b = capUpd upd c (a @ b)"
  proof (cases "cw_max c \<le> 0")
    case True
    then show ?thesis by (simp add: capUpd_def inner)
  next
    case False
    have "capRoom (capUpd upd c a) = capRoom c - length a"
      using False by (auto simp: capUpd_def capRoom_def min_def)
    moreover have "cw_max (capUpd upd c a) = cw_max c" using False by (simp add: capUpd_def)
    ultimately have "capUpd upd (capUpd upd c a) b =
        (capUpd upd c a)\<lparr>cw_w := upd (cw_w (capUpd upd c a)) (take (capRoom c - length a) b),
           cw_written := cw_written (capUpd upd c a) + int (min (length b) (capRoom c - length a)),
           cw_dropped := (cw_dropped (capUpd upd c a) \<or> length b > capRoom c - length a)\<rparr>"
      using False by (simp add: capUpd_def [of upd "capUpd upd c a"])
    also have "\<dots> = capUpd upd c (a @ b)"
      using False by (auto simp: capUpd_def inner min_def)
    finally show ?thesis .
  qed
qed

text \<open>The writers of a run over a buffer, as the tests use them.\<close>

interpretation runBuf: byte_sink "capWrite (teeWrite bufferWrite)" "capUpd (teeUpd (@))"
  by (intro cap_sink tee_sink buf.byte_sink_axioms)

context byte_sink
begin

lemma copyChunks_ok:
  assumes "wf_index w" "delivered upd st acc w" "length (w_buf w) \<le> holdBack False w"
  shows "copyChunks wr ps w = (writeAll wr ps w, None)"
  using assms
proof (induction ps arbitrary: w acc)
  case (Cons p ps)
  from Write_delivered [OF Cons.prems] obtain w1 S where w1: "Write wr w p = (w1, length p, None)"
    "delivered upd st (acc @ render S) w1" "same_index w1 w" "length (w_buf w1) \<le> holdBack False w"
    by blast
  have "wf_index w1" "holdBack False w1 = holdBack False w"
    using w1(3) Cons.prems(1) same_index_wf by (blast, simp add: same_index_def holdBack_def)
  with Cons.IH [OF _ w1(2)] w1 show ?case by simp
qed simp

end

text \<open>A stream of a run whose live output works.\<close>

lemma runStream_ok:
  fixes live mx secrets chunks
  assumes "byte_sink wr upd"
  defines "w \<equiv> newStream live mx secrets"
  defines "full \<equiv> redactAll w (concat chunks)"
  obtains w' where "runStream wr chunks w = (w', None, None)"
    "ts_Buf (streamTee w') = capTake mx full" "ts_Live (streamTee w') = upd live (capTake mx full)"
    "\<not> ts_Canceled (streamTee w')" "cw_dropped (w_out w') \<longleftrightarrow> 0 < mx \<and> mx < int (length full)"
    "RedactionCount w' = int (hits (segs (matchSlice w) (concat chunks)))"
proof -
  let ?c = "\<lparr>cw_w = \<lparr>ts_Buf = [], ts_Live = live, ts_Canceled = False\<rparr>, cw_max = mx, cw_written = 0, cw_dropped = False\<rparr>"
  let ?wr = "capWrite (teeWrite wr)" and ?upd = "capUpd (teeUpd upd)"
  have sink: "byte_sink ?wr ?upd" by (intro cap_sink tee_sink assms(1))
  note written = byte_sink.writeAll_delivered [OF sink] and flushed = byte_sink.Flush_delivered [OF sink]
    and copied = byte_sink.copyChunks_ok [OF sink] and session = byte_sink.session_delivered [OF sink]
  have w: "w = New ?c secrets 0" by (simp add: w_def newStream_def)
  have wf: "wf_index w" unfolding w by (rule New_props)
  have del: "delivered ?upd ?c [] w"
    unfolding w by (simp add: delivered_def New_props capTake_def byte_sink.upd_nil [OF sink])
  have hold: "length (w_buf w) \<le> holdBack False w" unfolding w by (simp add: New_props)
  have out0: "w_maxOut w = 0" "w_buf w = []" "w_redactions w = 0" unfolding w by (simp_all add: New_props)
  let ?w1 = "writeAll ?wr chunks w"
  from written [OF wf del hold, of chunks] obtain S where S:
    "delivered ?upd ?c ([] @ render S) ?w1" "same_index ?w1 w"
    unfolding Let_def by blast
  from flushed [OF _ S(1)] same_index_wf [OF S(2)] wf
  obtain w' where flush: "Flush ?wr ?w1 = (w', None)" by blast
  have run: "runStream wr chunks w = (w', None, None)"
    by (simp add: runStream_def copied [OF wf del hold] flush)
  from session [OF wf del hold, of chunks]
  have w': "w_out w' = ?upd ?c full" "w_redactions w' = int (hits (segs (matchSlice w) (concat chunks)))"
    unfolding flush by (simp_all add: Let_def out0 capTake_def full_def)
  have "cw_w (?upd ?c full) = teeUpd upd (cw_w ?c) (capTake mx full)"
    by (cases "mx \<le> 0") (simp_all add: capUpd_def capRoom_def capTake_def)
  moreover have "cw_dropped (?upd ?c full) \<longleftrightarrow> 0 < mx \<and> mx < int (length full)"
    by (auto simp: capUpd_def capRoom_def)
  ultimately show ?thesis
    using run w' by (intro that [of w']) (simp_all add: streamTee_def teeUpd_def RedactionCount_def)
qed


section \<open>Running a command\<close>

text \<open>What a run that started a child is made of.\<close>

lemma Run_started:
  assumes "Run wr os cmd opts = (res, fx)" "rx_Cmd fx = Some c"
  obtains p where "prepare os cmd opts = Inr p" "pr_Cmd p = c" "finishRun wr os cmd opts p = (res, fx)"
proof (cases "prepare os cmd opts")
  case (Inl e)
  with assms show ?thesis by (auto simp: Run_def)
next
  case (Inr p)
  with assms(1) have fin: "finishRun wr os cmd opts p = (res, fx)" by (simp add: Run_def)
  then have "rx_Cmd fx = Some (pr_Cmd p)"
    by (auto simp: finishRun_def Let_def split: prod.splits)
  with assms(2) Inr fin show ?thesis by (intro that [of p]) auto
qed

text \<open>The redaction of one stream of the run, cut at the limit of the command.\<close>

definition shownStream :: "command \<Rightarrow> 'o runOptions \<Rightarrow> 'o \<Rightarrow> bytes list \<Rightarrow> bytes" where
  "shownStream cmd opts live chunks =
     redactAll (newStream live (c_MaxBytes cmd) (secretValues opts)) (concat chunks)"

lemma finishRun_ok:
  assumes "byte_sink wr upd" "finishRun wr os cmd opts p = (res, fx)"
  defines "child \<equiv> os_Child os (pr_Cmd p)" and "mx \<equiv> c_MaxBytes cmd"
  defines "out \<equiv> shownStream cmd opts (ro_Stdout opts) (cr_Stdout child)"
    and "err \<equiv> shownStream cmd opts (ro_Stderr opts) (cr_Stderr child)"
  shows "rx_Stdout fx = upd (ro_Stdout opts) (capTake mx out)" "rx_Stderr fx = upd (ro_Stderr opts) (capTake mx err)"
    and "res = Inr r \<Longrightarrow> rr_Stdout r = capTake mx out \<and> rr_Stderr r = capTake mx err \<and>
      (rr_Truncated r \<longleftrightarrow> 0 < mx \<and> (mx < int (length out) \<or> mx < int (length err)))"
proof -
  obtain wout where wout: "runStream wr (cr_Stdout child) (newStream (ro_Stdout opts) mx (secretValues opts)) = (wout, None, None)"
    "ts_Buf (streamTee wout) = capTake mx out" "ts_Live (streamTee wout) = upd (ro_Stdout opts) (capTake mx out)"
    "\<not> ts_Canceled (streamTee wout)" "cw_dropped (w_out wout) \<longleftrightarrow> 0 < mx \<and> mx < int (length out)"
    using runStream_ok [OF assms(1)] unfolding out_def shownStream_def mx_def by metis
  obtain werr where werr: "runStream wr (cr_Stderr child) (newStream (ro_Stderr opts) mx (secretValues opts)) = (werr, None, None)"
    "ts_Buf (streamTee werr) = capTake mx err" "ts_Live (streamTee werr) = upd (ro_Stderr opts) (capTake mx err)"
    "\<not> ts_Canceled (streamTee werr)" "cw_dropped (w_out werr) \<longleftrightarrow> 0 < mx \<and> mx < int (length err)"
    using runStream_ok [OF assms(1)] unfolding err_def shownStream_def mx_def by metis
  have ctx: "ctxAfter (cr_Ctx child) (ts_Canceled (streamTee wout) \<or> ts_Canceled (streamTee werr)) = cr_Ctx child"
    using wout(4) werr(4) by (simp add: ctxAfter_def)
  have wait: "waitError (cr_Err child) None None = cr_Err child"
    by (simp add: waitError_def split: option.split)
  obtain code e started where ie: "interpretExit os (EffectiveNoNetwork cmd) (cr_Ctx child) (cr_Err child) = (code, e, started)"
    by (metis prod_cases3)
  obtain inst det where cs: "correctSeccomp started code p = (inst, det)" by fastforce
  note fin = assms(2) [unfolded finishRun_def child_def [symmetric] mx_def [symmetric] wout(1) werr(1) Let_def
      prod.case ctx wait ie cs]
  show "rx_Stdout fx = upd (ro_Stdout opts) (capTake mx out)" "rx_Stderr fx = upd (ro_Stderr opts) (capTake mx err)"
    using fin wout(3) werr(3) by auto
  show "res = Inr r \<Longrightarrow> rr_Stdout r = capTake mx out \<and> rr_Stderr r = capTake mx err \<and>
      (rr_Truncated r \<longleftrightarrow> 0 < mx \<and> (mx < int (length out) \<or> mx < int (length err)))"
    using fin wout(2,5) werr(2,5) by (auto split: option.splits if_splits)
qed


lemma Run_prepared: "prepare os cmd opts = Inr p \<Longrightarrow> rx_Cmd (snd (Run wr os cmd opts)) = Some (pr_Cmd p)"
  by (auto simp: Run_def finishRun_def Let_def split: prod.splits)

lemma Run_child:
  assumes "rx_Cmd (snd (Run wr os cmd opts)) = Some c"
  obtains p where "prepare os cmd opts = Inr p" "pr_Cmd p = c"
    "finishRun wr os cmd opts p = (fst (Run wr os cmd opts), snd (Run wr os cmd opts))"
  using Run_started [OF surjective_pairing assms] by metis

section \<open>Secrets in the output\<close>

text \<open>The forms of a value that a run registers for redaction.\<close>

definition secretForms :: "string \<Rightarrow> string set" where
  "secretForms v = (if length v < 4 then {} else insert v (if length v \<ge> 8 then set (Encodings v 8) else {}))"

lemma set_redactables: "set (redactables v) = secretForms v"
  by (simp add: redactables_def secretForms_def minRedactableSecretLen_def runnerMinEncodableLen_def)

lemma set_secretValues:
  "set (secretValues opts) = (\<Union>v \<in> snd ` set (ro_Secrets opts) \<union> set (ro_RedactValues opts). secretForms v)"
  by (force simp: secretValues_def set_redactables)

lemma shownStream_clean:
  assumes "v \<in> snd ` set (ro_Secrets opts) \<union> set (ro_RedactValues opts)" "s \<in> secretForms v"
    and "CHR ''['' \<notin> set s" "CHR '']'' \<notin> set s" "\<not> sublist s ''REDACTED''" "s \<noteq> []"
  shows "\<not> sublist s (capTake mx (shownStream cmd opts live chunks))"
proof -
  let ?w = "newStream live (c_MaxBytes cmd) (secretValues opts)"
  have "s \<in> set (secretValues opts)" using assms(1,2) unfolding set_secretValues by blast
  then have "s \<in> set (w_secrets ?w)" using assms(6) by (simp add: New_props newStream_def)
  moreover have "wf_index ?w" by (simp add: newStream_def New_props)
  ultimately have "matchSlice ?w b > 0" if "prefix s b" for b
    by (intro matchSlice_exact [OF _ _ that])
  from no_survivor [OF this assms(6,3-5)] have "\<not> sublist s (shownStream cmd opts live chunks)"
    by (simp add: shownStream_def redactAll_def)
  then show ?thesis unfolding capTake_def using sublist_take by auto
qed

text \<open>C18: What a run shows. If the live outputs work, both streams reach them, and the result, as the
  redaction of everything the child wrote, in whatever chunks, cut at the limit of the command, and
  \<open>Truncated\<close> says exactly whether bytes were cut; so no form of a value given to the run (the value or an encoding
  of it) that is not empty, has no square bracket and is not part of the letters of the placeholder appears in them.\<close>


theorem run_output_redacted:
  assumes "byte_sink wr upd" "rx_Cmd (snd (Run wr os cmd opts)) = Some c"
  shows "let child = os_Child os c; mx = c_MaxBytes cmd; fx = snd (Run wr os cmd opts);
       out = shownStream cmd opts (ro_Stdout opts) (cr_Stdout child);
       err = shownStream cmd opts (ro_Stderr opts) (cr_Stderr child)
     in rx_Stdout fx = upd (ro_Stdout opts) (capTake mx out) \<and> rx_Stderr fx = upd (ro_Stderr opts) (capTake mx err) \<and>
       (\<forall>r. fst (Run wr os cmd opts) = Inr r \<longrightarrow>
          rr_Stdout r = capTake mx out \<and> rr_Stderr r = capTake mx err \<and>
          (rr_Truncated r \<longleftrightarrow> 0 < mx \<and> (mx < int (length out) \<or> mx < int (length err)))) \<and>
       (\<forall>v \<in> snd ` set (ro_Secrets opts) \<union> set (ro_RedactValues opts). \<forall>s \<in> secretForms v.
          CHR ''['' \<notin> set s \<and> CHR '']'' \<notin> set s \<and> \<not> sublist s ''REDACTED'' \<and> s \<noteq> [] \<longrightarrow>
          \<not> sublist s (capTake mx out) \<and> \<not> sublist s (capTake mx err))"
proof -
  obtain p where p: "prepare os cmd opts = Inr p" "pr_Cmd p = c"
    "finishRun wr os cmd opts p = (fst (Run wr os cmd opts), snd (Run wr os cmd opts))"
    using Run_child [OF assms(2)] .
  note fin = finishRun_ok(1-3) [OF assms(1) p(3)]
  show ?thesis
    unfolding Let_def p(2) [symmetric] using fin by (intro conjI allI impI ballI) (simp_all add: shownStream_clean)
qed


section \<open>Before a child starts\<close>

text \<open>The network of a command is cut off: a new namespace on Linux, the sandbox on macOS.\<close>

definition isolated :: "string \<Rightarrow> execCmd \<Rightarrow> bool" where
  "isolated goos c \<longleftrightarrow>
     goos = ''linux'' \<and> spa_CloneNewUser (attrOf c) \<and> spa_CloneNewNet (attrOf c) \<or>
     goos = ''darwin'' \<and> ec_Path c = sandboxExecPath \<and> prefix [''sandbox-exec'', ''-p'', sandboxProfile] (ec_Args c)"

lemma prepare_Inr:
  assumes "prepare os cmd opts = Inr p"
  obtains name bin c p' where
    "c_Argv cmd \<noteq> []" "ro_AllowShell opts \<or> \<not> IsShellString (c_Argv cmd)"
    "trustedCI (os_Environ os) (os_ReadEvent os) (ro_AllowPullRequestTarget opts)"
    "binaryName os (resolveWorkDir cmd opts) (c_Argv cmd ! 0) = Some name" "os_LookPath os name = Inr bin"
    "(if EffectiveNoNetwork cmd then applyNetworkIsolation os (newCmd os cmd opts bin)
      else Inr (newCmd os cmd opts bin)) = Inr c"
    "armShim os opts c = Inr p'" "p = p'\<lparr>pr_Cmd := setProcessGroup os (pr_Cmd p')\<rparr>"
  using assms unfolding prepare_def CheckCITrust_None [symmetric]
  by (auto split: if_split_asm option.split_asm sum.split_asm)

lemma isolation_kept:
  "isolated goos (setProcessGroup os c) = isolated goos c"
  "armSealedExec exe c noSeal seccomp = Inr c' \<Longrightarrow> goos = ''linux'' \<Longrightarrow> isolated goos c' = isolated goos c"
  by (auto simp: isolated_def setProcessGroup_def attrOf_def elim!: armSealedExec_Inr)

lemma applyNetworkIsolation_isolated:
  "applyNetworkIsolation os c = Inr c' \<Longrightarrow> isolated (os_GOOS os) c'"
  by (auto simp: applyNetworkIsolation_def applyLinuxNetworkIsolation_def applyDarwinNetworkIsolation_def
      isolated_def attrOf_def split: if_splits option.splits)

lemma armShim_Inr:
  assumes "armShim os opts c = Inr p"
  shows "if os_GOOS os = ''linux'' \<and> \<not> (ro_NoSeal opts \<and> \<not> seccompRequested opts)
    then armSealedExec (os_Executable os) c (ro_NoSeal opts) (seccompRequested opts) = Inr (pr_Cmd p) \<and> pr_ShimArmed p
    else pr_Cmd p = c \<and> \<not> pr_ShimArmed p"
  using assms by (auto simp: armShim_def split: if_splits sum.splits)

lemma armShim_installed:
  "armShim os opts c = Inr p \<Longrightarrow> pr_SeccompInstalled p \<longleftrightarrow> pr_ShimArmed p \<and> seccompRequested opts"
  by (auto simp: armShim_def split: if_splits sum.splits)

text \<open>C17: Run fails closed. If a child is started at all, the command is not empty and no shell, unless shells are allowed, the
  event is trusted, the network is cut off if the policy asks for it, and on Linux the command is
  armed with the shim unless the operator turned both of its functions off.  If none is started
  the result is an error and no output was written and no record made.\<close>
theorem run_fails_closed:
  "let fx = snd (Run wr os cmd opts) in
   case rx_Cmd fx of
     None \<Rightarrow> (\<exists>e. fst (Run wr os cmd opts) = Inl e) \<and> rx_Stdout fx = ro_Stdout opts \<and> rx_Stderr fx = ro_Stderr opts \<and>
       rx_Audit fx = None
   | Some c \<Rightarrow>
       c_Argv cmd \<noteq> [] \<and> (ro_AllowShell opts \<or> \<not> IsShellString (c_Argv cmd)) \<and>
       trustedCI (os_Environ os) (os_ReadEvent os) (ro_AllowPullRequestTarget opts) \<and>
       (EffectiveNoNetwork cmd \<longrightarrow> isolated (os_GOOS os) c) \<and>
       (os_GOOS os = ''linux'' \<and> (\<not> ro_NoSeal opts \<or> seccompRequested opts) \<longrightarrow>
          (\<exists>c0 c1. armSealedExec (os_Executable os) c0 (ro_NoSeal opts) (seccompRequested opts) = Inr c1 \<and>
             c = setProcessGroup os c1 \<and> tl (ec_Args c0) = tl (c_Argv cmd) \<and>
             ec_Env c0 = buildEnv (os_Environ os) (ro_Env opts) (ro_Secrets opts)))"
proof (cases "prepare os cmd opts")
  case (Inl e)
  then show ?thesis by (simp add: Run_def)
next
  case (Inr p)
  from Inr obtain name bin c p' where g: "c_Argv cmd \<noteq> []" "ro_AllowShell opts \<or> \<not> IsShellString (c_Argv cmd)"
    "trustedCI (os_Environ os) (os_ReadEvent os) (ro_AllowPullRequestTarget opts)"
    "(if EffectiveNoNetwork cmd then applyNetworkIsolation os (newCmd os cmd opts bin)
      else Inr (newCmd os cmd opts bin)) = Inr c"
    "armShim os opts c = Inr p'" "p = p'\<lparr>pr_Cmd := setProcessGroup os (pr_Cmd p')\<rparr>"
    by (rule prepare_Inr)
  have iso: "isolated (os_GOOS os) (pr_Cmd p)" if "EffectiveNoNetwork cmd"
  proof -
    have "isolated (os_GOOS os) c" using that g(4) applyNetworkIsolation_isolated by simp
    then show ?thesis
      using armShim_Inr [OF g(5)] isolation_kept(2) by (auto simp: g(6) isolation_kept(1) split: if_splits)
  qed
  have c: "tl (ec_Args c) = tl (c_Argv cmd) \<and> ec_Env c = buildEnv (os_Environ os) (ro_Env opts) (ro_Secrets opts)"
    if "os_GOOS os = ''linux''"
    using g(4) that by (auto simp: applyNetworkIsolation_def applyLinuxNetworkIsolation_def newCmd_def split: if_splits)
  have "armSealedExec (os_Executable os) c (ro_NoSeal opts) (seccompRequested opts) = Inr (pr_Cmd p')"
    if "os_GOOS os = ''linux''" "\<not> ro_NoSeal opts \<or> seccompRequested opts"
    using armShim_Inr [OF g(5)] that by auto
  with Run_prepared [OF Inr, of wr] g(1-3,6) iso c show ?thesis
    unfolding Let_def by auto
qed


section \<open>The environment of the child\<close>

lemma lookup_rev_environFrom:
  "keyName k \<Longrightarrow> lookupEnv (rev (environFrom seen es)) k = (if k \<in> set seen then None else lookupEnv es k)"
proof (induction seen es rule: environFrom.induct)
  case (2 seen e es)
  show ?case
  proof (cases "byteIndex (CHR ''='') e")
    case None
    then have "\<not> prefix (k @ ''='') e" using indexOf_iff [OF "2.prems"] by simp
    with 2 None show ?thesis by (auto simp: lookupEnv_append split: option.split)
  next
    case (Some i)
    then have "prefix (k @ ''='') e \<longleftrightarrow> take i e = k" using indexOf_iff [OF "2.prems"] by auto
    with 2 Some show ?thesis by (auto simp: lookupEnv_append split: option.split)
  qed
qed simp

lemma entryKey_prefix:
  assumes "keyName k" "prefix (k @ ''='') e"
  shows "entryKey e = k"
proof -
  obtain v where e: "e = k @ CHR ''='' # v" using assms(2) by (auto simp: prefix_def)
  have "entryKey e = k @ takeWhile (\<lambda>c. c \<noteq> CHR ''='') (CHR ''='' # v)"
    unfolding entryKey_def e using assms(1) by (intro takeWhile_append2) (auto simp: keyName_def)
  then show ?thesis by simp
qed

lemma lookup_inherited:
  assumes "keyName k"
  shows "lookupEnv (rev (List.filter (\<lambda>e. \<not> isDangerousEnv (entryKey e)) (Environ env))) k =
    (if isDangerousEnv k then None else lookupEnv env k)"
proof (cases "isDangerousEnv k")
  case True
  then show ?thesis unfolding rev_filter using entryKey_prefix [OF assms] by (subst lookup_filtered) auto
next
  case False
  then have "lookupEnv (rev (List.filter (\<lambda>e. \<not> isDangerousEnv (entryKey e)) (Environ env))) k = lookupEnv (rev (Environ env)) k"
    unfolding rev_filter using entryKey_prefix [OF assms] by (intro lookup_filter [OF assms]) auto
  with False assms show ?thesis by (simp add: Environ_def lookup_rev_environFrom)
qed

lemma lookup_bindings:
  assumes "keyName k" "\<And>a v. (a, v) \<in> set m \<Longrightarrow> keyName a"
  shows "lookupEnv (List.map (\<lambda>(a, v). a @ ''='' @ v) m) k = map_of m k"
  using assms(2)
proof (induction m)
  case (Cons p m)
  obtain a v where p: "p = (a, v)" by (cases p)
  have "keyName a" using Cons.prems [of a v] p by simp
  then have "prefix (k @ ''='') (a @ ''='' @ v) \<longleftrightarrow> a = k"
    using keys_disjoint [OF assms(1) \<open>keyName a\<close>, of "a @ ''='' @ v"] by auto
  with Cons p show ?case by auto
qed simp

text \<open>What the child sees: a secret of that name, else the caller's last entry, else what was inherited.\<close>

definition childVar :: "string list \<Rightarrow> string list \<Rightarrow> (string \<times> string) list \<Rightarrow> string \<Rightarrow> string option" where
  "childVar environ extra secrets k =
     (case map_of secrets k of
        Some v \<Rightarrow> Some v
      | None \<Rightarrow> (case lookupEnv (rev extra) k of
          Some v \<Rightarrow> Some v
        | None \<Rightarrow> if isDangerousEnv k then None else lookupEnv environ k))"

lemma lookup_buildEnv:
  assumes "keyName k" "distinct (List.map fst secrets)" "\<forall>(a, v) \<in> set secrets. keyName a"
  shows "lookupEnv (rev (case buildEnv environ extra secrets of None \<Rightarrow> [] | Some env \<Rightarrow> env)) k =
    childVar environ extra secrets k"
proof -
  let ?bind = "\<lambda>(a, v). a @ ''='' @ v"
  have "lookupEnv (rev (List.map ?bind secrets)) k = map_of (rev secrets) k"
    unfolding rev_map using assms by (intro lookup_bindings) auto
  then have m: "lookupEnv (rev (List.map ?bind secrets)) k = map_of secrets k"
    using map_of_inject_set [of "rev secrets" secrets] assms(2) by (simp add: rev_map [symmetric])
  have "(case buildEnv environ extra secrets of None \<Rightarrow> [] | Some env \<Rightarrow> env) =
      List.filter (\<lambda>e. \<not> isDangerousEnv (entryKey e)) (Environ environ) @ extra @ List.map ?bind secrets"
    by (auto simp: buildEnv_def Let_def)
  then show ?thesis
    by (simp only: rev_append lookupEnv_append m lookup_inherited [OF assms(1)])
      (auto simp: childVar_def split: option.split)
qed

text \<open>The child's variables. A started command sees every secret under its name; any other variable
  is the caller's entry, or an inherited one that is not among the dangerous ones; and with the shim the
  process started that way sees exactly these beside the shim's own variables.  (A nil environment would stand
  for the parent's own, see \<open>run_empty_env_inherits\<close>.)\<close>
lemma run_child_env:
  assumes "rx_Cmd (snd (Run wr os cmd opts)) = Some c" "ec_Env c \<noteq> None"
    and "cmdEnviron (os_Environ os) absDir c = Some env"
    and "distinct (List.map fst (ro_Secrets opts))" "\<forall>(a, v) \<in> set (ro_Secrets opts). keyName a"
    and "keyName k" "k \<notin> set shimVars"
  shows "lookupEnv env k = childVar (os_Environ os) (ro_Env opts) (ro_Secrets opts) k"
proof -
  obtain p where p: "prepare os cmd opts = Inr p" "pr_Cmd p = c"
    using Run_child [OF assms(1)] by metis
  from p(1) obtain name bin c0 p' where g:
    "(if EffectiveNoNetwork cmd then applyNetworkIsolation os (newCmd os cmd opts bin)
      else Inr (newCmd os cmd opts bin)) = Inr c0"
    "armShim os opts c0 = Inr p'" "p = p'\<lparr>pr_Cmd := setProcessGroup os (pr_Cmd p')\<rparr>"
    by (rule prepare_Inr)
  have env0: "ec_Env c0 = buildEnv (os_Environ os) (ro_Env opts) (ro_Secrets opts)"
    using g(1) by (auto simp: newCmd_def applyNetworkIsolation_def applyLinuxNetworkIsolation_def
        applyDarwinNetworkIsolation_def split: if_splits option.splits)
  have built: "lookupEnv (rev (commandEnv c0)) k = childVar (os_Environ os) (ro_Env opts) (ro_Secrets opts) k"
    unfolding commandEnv_def env0 by (rule lookup_buildEnv [OF assms(6,4,5)])
  have c: "ec_Env c = ec_Env (pr_Cmd p')" "ec_Dir c = ec_Dir (pr_Cmd p')"
    using p(2) g(3) by (auto simp: setProcessGroup_def)
  have same: "cmdEnviron (os_Environ os) absDir (pr_Cmd p') = Some env"
    using assms(3) unfolding cmdEnviron_def c .
  show ?thesis
  proof (cases "os_GOOS os = ''linux'' \<and> \<not> (ro_NoSeal opts \<and> \<not> seccompRequested opts)")
    case True
    then have "armSealedExec (os_Executable os) c0 (ro_NoSeal opts) (seccompRequested opts) = Inr (pr_Cmd p')"
      using armShim_Inr [OF g(2)] by simp
    from lookup_armed [OF this same assms(6)] assms(7) built show ?thesis
      by (auto simp: shimVars_def)
  next
    case False
    then have "ec_Env c = ec_Env c0" using armShim_Inr [OF g(2)] c by (auto split: if_splits)
    with assms(2,3) have "env = dedupEnv (commandEnv c0)"
      by (auto simp: cmdEnviron_def commandEnv_def split: if_splits)
    then show ?thesis using built lookup_dedupEnv [OF assms(6)] by simp
  qed
qed


section \<open>The end of a run\<close>

text \<open>The exit code of a process, with the shell's convention for a signal.\<close>

definition posixCode :: "procStatus \<Rightarrow> int" where
  "posixCode st = (case st of Exited n \<Rightarrow> n | Signaled s \<Rightarrow> 128 + s)"

definition endOf :: "childRun \<Rightarrow> int option" where
  "endOf child =
     (case cr_Err child of
        None \<Rightarrow> Some 0
      | Some (ExitErr st) \<Rightarrow> if cr_Ctx child = CtxLive then Some (posixCode st) else None
      | Some (WaitDelayErr ps) \<Rightarrow>
          if cr_Ctx child = CtxLive then Some (case ps of None \<Rightarrow> -1 | Some st \<Rightarrow> posixCode st) else None
      | Some (ExecErr _) \<Rightarrow> None)"

lemma processStateExitCode_posix: "processStateExitCode (Some st) = posixCode st"
  by (cases st) (simp_all add: processStateExitCode_def statusCode_def signalExitCode_def posixCode_def)

lemma interpretExit_code:
  "(\<exists>s. interpretExit os noNet (cr_Ctx child) (cr_Err child) = (code, None, s)) \<longleftrightarrow> endOf child = Some code"
proof (cases "cr_Err child")
  case None
  then show ?thesis by (auto simp: interpretExit_def endOf_def)
next
  case (Some e)
  show ?thesis
  proof (cases e)
    case (ExitErr st)
    with Some show ?thesis
      by (cases st; cases "cr_Ctx child")
        (auto simp: interpretExit_def endOf_def statusCode_def signalExitCode_def posixCode_def)
  next
    case (WaitDelayErr ps)
    with Some show ?thesis
      by (cases ps; cases "cr_Ctx child")
        (auto simp: interpretExit_def endOf_def processStateExitCode_posix, simp_all add: processStateExitCode_def)
  next
    case (ExecErr x)
    with Some show ?thesis by (cases "cr_Ctx child") (auto simp: interpretExit_def endOf_def)
  qed
qed

lemma interpretExit_error:
  "(\<exists>c s. interpretExit os noNet ctx e = (c, Some ErrTimeout, s)) \<longleftrightarrow> e \<noteq> None \<and> ctx = CtxDeadline"
  "(\<exists>c s. interpretExit os noNet ctx e = (c, Some ErrCancelled, s)) \<longleftrightarrow> e \<noteq> None \<and> ctx = CtxCanceled"
  by (cases ctx; auto simp: interpretExit_def Let_def split: option.splits waitErr.splits if_splits)+

lemma finishRun_end:
  assumes "byte_sink wr upd" "finishRun wr os cmd opts p = (res, fx)"
  shows "\<exists>code e started. interpretExit os (EffectiveNoNetwork cmd) (cr_Ctx (os_Child os (pr_Cmd p))) (cr_Err (os_Child os (pr_Cmd p)))
      = (code, e, started) \<and>
    (case e of Some e \<Rightarrow> res = Inl e
     | None \<Rightarrow> (case ro_Cleanup opts of
          Some (Some x) \<Rightarrow> res = Inl (ErrAfterRun (afterErrors None None (Some x)))
        | _ \<Rightarrow> (\<exists>r. res = Inr r \<and> rr_ExitCode r = code \<and>
            (rr_SeccompInstalled r, rr_SeccompDetail r) = correctSeccomp started code p))) \<and>
    rx_CleanedUp fx = (ro_Cleanup opts \<noteq> None) \<and> (rx_Audit fx = None \<longleftrightarrow> \<not> ro_Audit opts \<or> started)"
proof -
  let ?child = "os_Child os (pr_Cmd p)"
  obtain wout where wout: "runStream wr (cr_Stdout ?child) (newStream (ro_Stdout opts) (c_MaxBytes cmd) (secretValues opts)) = (wout, None, None)"
    "\<not> ts_Canceled (streamTee wout)"
    using runStream_ok [OF assms(1)] by metis
  obtain werr where werr: "runStream wr (cr_Stderr ?child) (newStream (ro_Stderr opts) (c_MaxBytes cmd) (secretValues opts)) = (werr, None, None)"
    "\<not> ts_Canceled (streamTee werr)"
    using runStream_ok [OF assms(1)] by metis
  have ctx: "ctxAfter (cr_Ctx ?child) (ts_Canceled (streamTee wout) \<or> ts_Canceled (streamTee werr)) = cr_Ctx ?child"
    using wout(2) werr(2) by (simp add: ctxAfter_def)
  have wait: "waitError (cr_Err ?child) None None = cr_Err ?child"
    by (simp add: waitError_def split: option.split)
  obtain code e started where ie: "interpretExit os (EffectiveNoNetwork cmd) (cr_Ctx ?child) (cr_Err ?child) = (code, e, started)"
    by (metis prod_cases3)
  obtain inst det where cs: "correctSeccomp started code p = (inst, det)" by fastforce
  note fin = assms(2) [unfolded finishRun_def wout(1) werr(1) Let_def prod.case ctx wait ie cs prod.inject]
  note res = fin [THEN conjunct1, symmetric] and fx = fin [THEN conjunct2, symmetric]
  show ?thesis
    unfolding ie
  proof (intro exI conjI, rule refl)
    have none: "afterErrors None None None = []" and some: "afterErrors None None (Some x) \<noteq> []" for x
      by (simp_all add: afterErrors_def)
    show "case e of Some e \<Rightarrow> res = Inl e
     | None \<Rightarrow> (case ro_Cleanup opts of
          Some (Some x) \<Rightarrow> res = Inl (ErrAfterRun (afterErrors None None (Some x)))
        | _ \<Rightarrow> (\<exists>r. res = Inr r \<and> rr_ExitCode r = code \<and>
            (rr_SeccompInstalled r, rr_SeccompDetail r) = correctSeccomp started code p))"
    proof (cases e)
      case None
      show ?thesis
      proof (cases "ro_Cleanup opts")
        case None
        then show ?thesis unfolding res cs \<open>e = None\<close> by (simp add: none)
      next
        case (Some r)
        then show ?thesis unfolding res cs \<open>e = None\<close> by (cases r) (simp_all add: none some)
      qed
    next
      case (Some x)
      then show ?thesis unfolding res by simp
    qed
    show "rx_CleanedUp fx = (ro_Cleanup opts \<noteq> None)" "rx_Audit fx = None \<longleftrightarrow> \<not> ro_Audit opts \<or> started"
      unfolding fx by simp_all
  qed
qed


text \<open>C19: What a run reports. With working outputs a started run returns a result only if the child ended by
  itself and its files were cleaned up, and then with the child's own exit code, or 128 plus the number of the
  signal that killed it; it reports a timeout or a cancellation exactly when the context says so; it says that the filter was
  installed exactly if the system is Linux, the filter was requested, and the child did not end with one of the
  two codes by which the shim refuses; the clean-up always runs, and a run that is not recorded was not
  asked to be or did not start.\<close>
theorem run_reports_end:
  assumes "byte_sink wr upd" "rx_Cmd (snd (Run wr os cmd opts)) = Some c"
  shows "let res = fst (Run wr os cmd opts); fx = snd (Run wr os cmd opts); child = os_Child os c in
    (case res of
       Inr r \<Rightarrow> endOf child = Some (rr_ExitCode r) \<and> (\<nexists>x. ro_Cleanup opts = Some (Some x)) \<and>
         (rr_SeccompInstalled r \<longleftrightarrow> os_GOOS os = ''linux'' \<and> seccompRequested opts \<and>
            rr_ExitCode r \<noteq> ExitFilterRefused \<and> rr_ExitCode r \<noteq> ExitSealRefused)
     | Inl e \<Rightarrow> (e = ErrTimeout \<longleftrightarrow> cr_Err child \<noteq> None \<and> cr_Ctx child = CtxDeadline) \<and>
         (e = ErrCancelled \<longleftrightarrow> cr_Err child \<noteq> None \<and> cr_Ctx child = CtxCanceled) \<and>
         (endOf child \<noteq> None \<longrightarrow> (\<exists>x. ro_Cleanup opts = Some (Some x)))) \<and>
    rx_CleanedUp fx = (ro_Cleanup opts \<noteq> None) \<and>
    (rx_Audit fx = None \<longrightarrow> \<not> ro_Audit opts \<or> endOf child = None)"
proof -
  let ?res = "fst (Run wr os cmd opts)" and ?fx = "snd (Run wr os cmd opts)" and ?child = "os_Child os c"
  obtain p where p: "prepare os cmd opts = Inr p" "pr_Cmd p = c" "finishRun wr os cmd opts p = (?res, ?fx)"
    using Run_child [OF assms(2)] .
  from finishRun_end [OF assms(1) p(3)] obtain code e started where ie:
    "interpretExit os (EffectiveNoNetwork cmd) (cr_Ctx ?child) (cr_Err ?child) = (code, e, started)"
    and end': "case e of Some e \<Rightarrow> ?res = Inl e
     | None \<Rightarrow> (case ro_Cleanup opts of
          Some (Some x) \<Rightarrow> ?res = Inl (ErrAfterRun (afterErrors None None (Some x)))
        | _ \<Rightarrow> (\<exists>r. ?res = Inr r \<and> rr_ExitCode r = code \<and>
            (rr_SeccompInstalled r, rr_SeccompDetail r) = correctSeccomp started code p))"
    and fx: "rx_CleanedUp ?fx = (ro_Cleanup opts \<noteq> None)" "rx_Audit ?fx = None \<longleftrightarrow> \<not> ro_Audit opts \<or> started"
    unfolding p(2) by (elim exE conjE) (rule that)
  have endc: "endOf ?child = (if e = None then Some code else None)"
    using interpretExit_code [of os "EffectiveNoNetwork cmd" ?child] ie by (cases "endOf ?child"; cases e) auto
  have kinds: "e = Some ErrTimeout \<longleftrightarrow> cr_Err ?child \<noteq> None \<and> cr_Ctx ?child = CtxDeadline"
    "e = Some ErrCancelled \<longleftrightarrow> cr_Err ?child \<noteq> None \<and> cr_Ctx ?child = CtxCanceled"
    using interpretExit_error [of os "EffectiveNoNetwork cmd" "cr_Ctx ?child" "cr_Err ?child"] unfolding ie by auto
  have started: "started \<Longrightarrow> e \<noteq> None"
    using ie by (auto simp: interpretExit_def Let_def split: option.splits waitErr.splits if_splits)
  have inst: "b \<longleftrightarrow> os_GOOS os = ''linux'' \<and> seccompRequested opts \<and> code \<noteq> ExitFilterRefused \<and> code \<noteq> ExitSealRefused"
    if "(b, d) = correctSeccomp started code p" "\<not> started" for b d
  proof -
    obtain c0 p' where "armShim os opts c0 = Inr p'" "p = p'\<lparr>pr_Cmd := setProcessGroup os (pr_Cmd p')\<rparr>"
      using p(1) by (rule prepare_Inr)
    then have "pr_SeccompInstalled p \<longleftrightarrow> os_GOOS os = ''linux'' \<and> seccompRequested opts" "pr_SeccompInstalled p \<longrightarrow> pr_ShimArmed p"
      by (auto simp: armShim_def split: if_splits sum.splits)
    with that show ?thesis by (auto simp: correctSeccomp_def split: if_splits)
  qed
  show ?thesis
  proof (cases e)
    case (Some x)
    with end' have "?res = Inl x" by simp
    with kinds fx endc Some show ?thesis by (simp add: Let_def)
  next
    case None
    show ?thesis
    proof (cases "\<exists>x. ro_Cleanup opts = Some (Some x)")
      case True
      then obtain x where "ro_Cleanup opts = Some (Some x)" by blast
      with end' None kinds fx started endc show ?thesis by (auto simp: Let_def)
    next
      case False
      with end' None obtain r where r: "?res = Inr r" "rr_ExitCode r = code"
        "(rr_SeccompInstalled r, rr_SeccompDetail r) = correctSeccomp started code p"
        by (auto split: option.splits)
      have "\<not> started" using started None by auto
      from inst [OF r(3) this] False endc None fx r(1,2) \<open>\<not> started\<close> show ?thesis by (simp add: Let_def)
    qed
  qed
qed


section \<open>An example\<close>

definition sampleOS :: runOS where
  "sampleOS = \<lparr>os_GOOS = ''linux'', os_Environ = [''PATH=/bin'', ''LD_PRELOAD=/x.so'', ''IRONRUN_NO_SEAL=1''],
     os_ReadEvent = (\<lambda>_. None), os_Getwd = Some ''/work'', os_LookPath = (\<lambda>_. Inr ''/usr/bin/deploy''),
     os_Executable = Inr ''/usr/bin/ironrun'', os_StatSandboxExec = None, os_Uid = 1000, os_Gid = 1000,
     os_Child = (\<lambda>_. \<lparr>cr_Stdout = [''ok hun'', ''ter22''], cr_Stderr = [], cr_Ctx = CtxLive, cr_Err = Some (ExitErr (Signaled 9))\<rparr>),
     os_IsEPERM = (\<lambda>_. False), os_Now = '''', os_ElapsedMs = 5\<rparr>"

definition sampleCommand :: command where
  "sampleCommand = \<lparr>c_ID = ''deploy'', c_Argv = [''deploy'', ''--now''], c_Env = [], c_Secrets = [''TOKEN''], c_TTL = 0,
     c_MaxBytes = 0, c_NoNetwork = False, c_AllowNetwork = False, c_WorkDir = '''', c_Seccomp = None\<rparr>"

definition sampleOptions :: "bytes runOptions" where
  "sampleOptions = \<lparr>ro_Stdout = '''', ro_Stderr = '''', ro_Env = [], ro_Secrets = [(''TOKEN'', ''hunter22'')],
     ro_RedactValues = [], ro_AuditSecrets = [], ro_Cleanup = None, ro_WorkDir = '''', ro_Seccomp = Some True,
     ro_DisableEntropyScan = False, ro_AllowPullRequestTarget = False, ro_NoSeal = False, ro_Audit = True,
     ro_SessionID = '''', ro_AllowShell = False\<rparr>"

definition sampleChild :: execCmd where
  "sampleChild = \<lparr>ec_Path = ''/usr/bin/ironrun'',
     ec_Args = [''ironrun-sealed-exec'', ''/usr/bin/deploy'', ''/usr/bin/deploy'', ''--now''],
     ec_Env = Some [''PATH=/bin'', ''TOKEN=hunter22'', ''IRONRUN_SEALED_EXEC=1''], ec_Dir = '''',
     ec_SysProcAttr = Some \<lparr>spa_CloneNewUser = True, spa_CloneNewNet = True, spa_UidMappings = [(0, 1000, 1)],
       spa_GidMappings = [(0, 1000, 1)], spa_Setpgid = True, spa_Pdeathsig = True\<rparr>\<rparr>"

lemma sample_prepared:
  "prepare sampleOS sampleCommand sampleOptions = Inr
     \<lparr>pr_Cmd = sampleChild, pr_SeccompInstalled = True,
      pr_SeccompDetail = ''shim armed; filter installs in-child before execve (fail-closed)'', pr_ShimArmed = True\<rparr>"
  by code_simp

lemma sample_started: "rx_Cmd (snd (Run wr sampleOS sampleCommand sampleOptions)) = Some sampleChild"
  using Run_prepared [OF sample_prepared] by simp


theorem run_fails_closed_witness:
  "trustedCI (os_Environ sampleOS) (os_ReadEvent sampleOS) False \<and> isolated ''linux'' sampleChild \<and>
   (\<exists>c0 c1. armSealedExec (Inr ''/usr/bin/ironrun'') c0 False True = Inr c1 \<and> sampleChild = setProcessGroup sampleOS c1)"
proof -
  have "EffectiveNoNetwork sampleCommand" "seccompRequested sampleOptions"
    by (simp_all add: EffectiveNoNetwork_def HasSecrets_def sampleCommand_def seccompRequested_def sampleOptions_def)
  then show ?thesis
    using run_fails_closed [of bufferWrite sampleOS sampleCommand sampleOptions] sample_started [of bufferWrite]
    unfolding Let_def by (auto simp: sampleOS_def sampleOptions_def)
qed

theorem run_output_redacted_witness:
  "\<not> sublist ''hunter22'' (rx_Stdout (snd (Run bufferWrite sampleOS sampleCommand sampleOptions)))"
proof -
  have "''hunter22'' \<in> snd ` set (ro_Secrets sampleOptions) \<union> set (ro_RedactValues sampleOptions)"
    "''hunter22'' \<in> secretForms ''hunter22''"
    by (simp_all add: sampleOptions_def secretForms_def)
  moreover have "\<not> sublist ''hunter22'' ''REDACTED''" by (simp add: sublist_code)
  ultimately show ?thesis
    using run_output_redacted [OF buf.byte_sink_axioms sample_started] unfolding Let_def
    by (auto simp: sampleOptions_def)
qed

theorem run_child_env_witness:
  "lookupEnv [''PATH=/bin'', ''TOKEN=hunter22'', ''IRONRUN_SEALED_EXEC=1''] ''LD_PRELOAD'' =
     childVar (os_Environ sampleOS) [] [(''TOKEN'', ''hunter22'')] ''LD_PRELOAD''"
proof -
  have opts: "ro_Secrets sampleOptions = [(''TOKEN'', ''hunter22'')]" "ro_Env sampleOptions = []"
    by (simp_all add: sampleOptions_def)
  have "cmdEnviron (os_Environ sampleOS) None sampleChild = Some [''PATH=/bin'', ''TOKEN=hunter22'', ''IRONRUN_SEALED_EXEC=1'']"
    by code_simp
  from run_child_env [OF sample_started _ this, of "''LD_PRELOAD''"] show ?thesis
    unfolding opts by (simp add: sampleChild_def keyName_def shimVars_def EnvSentinel_def EnvNoSeal_def EnvSkipSeccomp_def)
qed

theorem run_reports_end_witness:
  "\<exists>r. fst (Run bufferWrite sampleOS sampleCommand sampleOptions) = Inr r \<and> rr_ExitCode r = 137"
proof -
  have e: "endOf (os_Child sampleOS sampleChild) = Some 137"
    by (simp add: endOf_def sampleOS_def posixCode_def)
  have "ro_Cleanup sampleOptions = None" by (simp add: sampleOptions_def)
  with run_reports_end [OF buf.byte_sink_axioms sample_started] e show ?thesis
    unfolding Let_def by (cases "fst (Run bufferWrite sampleOS sampleCommand sampleOptions)") auto
qed

text \<open>
  A nil environment is the parent's own: if every inherited variable is dangerous and nothing is added,
  \<open>buildEnv\<close> returns a nil slice, which \<open>os/exec\<close> replaces by the whole environment.  A shim that is armed prevents it.
\<close>

definition nakedOptions :: "bytes runOptions" where
  "nakedOptions = sampleOptions\<lparr>ro_Secrets := [], ro_NoSeal := True, ro_Seccomp := None\<rparr>"

definition nakedOS :: runOS where
  "nakedOS = sampleOS\<lparr>os_Environ := [''LD_PRELOAD=/x.so'']\<rparr>"

lemma run_empty_env_inherits:
  "\<exists>c. rx_Cmd (snd (Run wr nakedOS sampleCommand nakedOptions)) = Some c \<and>
     cmdEnviron (os_Environ nakedOS) None c = Some [''LD_PRELOAD=/x.so'']"
proof -
  let ?c = "sampleChild\<lparr>ec_Path := ''/usr/bin/deploy'', ec_Args := [''/usr/bin/deploy'', ''--now''], ec_Env := None\<rparr>"
  have "prepare nakedOS sampleCommand nakedOptions = Inr
     \<lparr>pr_Cmd = ?c, pr_SeccompInstalled = False, pr_SeccompDetail = ''not requested'', pr_ShimArmed = False\<rparr>"
    by code_simp
  from Run_prepared [OF this, of wr] have "rx_Cmd (snd (Run wr nakedOS sampleCommand nakedOptions)) = Some ?c" by simp
  moreover have "cmdEnviron (os_Environ nakedOS) None ?c = Some [''LD_PRELOAD=/x.so'']" by code_simp
  ultimately show ?thesis by blast
qed

end
