(* ===== verification/VaultStore.thy ===== *)
theory VaultStore
  imports Envset Vault_Props
begin

text \<open>
  The value store of a project, \<open>src/internal/envset/vault_store.go\<close>: the encrypted vault in front
  of the native credential store, from which values of older versions are moved on first use.

  The state is the vault file and the state of the native store, which is a record of functions
  as in \<open>Envset\<close>.
\<close>

section \<open>The store\<close>

datatype migError = MigMissing | MigVault vaultError | MigMigrate vaultError | MigLegacy storeError

record 'l migState =
  ms_Disk :: "vaultDoc option"
  ms_Legacy :: 'l

definition migSet :: "vaultEnv \<Rightarrow> string \<Rightarrow> string \<Rightarrow> string \<Rightarrow> 'l migState \<Rightarrow> 'l migState \<times> migError option" where
  "migSet env scope key val s =
     (case vaultSet env scope key val (ms_Disk s) of (disk, e) \<Rightarrow> (s\<lparr>ms_Disk := disk\<rparr>, map_option MigVault e))"

definition migSetBytes :: "vaultEnv \<Rightarrow> string \<Rightarrow> string \<Rightarrow> bytes \<Rightarrow> 'l migState \<Rightarrow> 'l migState \<times> migError option" where
  "migSetBytes env scope key val s =
     (case vaultSetBytes env scope key val (ms_Disk s) of (disk, e) \<Rightarrow> (s\<lparr>ms_Disk := disk\<rparr>, map_option MigVault e))"

definition migGet :: "vaultEnv \<Rightarrow> 'l valueStore \<Rightarrow> string \<Rightarrow> string \<Rightarrow> 'l migState \<Rightarrow> 'l migState \<times> (migError + string)" where
  "migGet env legacy scope key s =
     (case vaultGet env scope key (ms_Disk s) of
        Inr val \<Rightarrow> (s, Inr val)
      | Inl err \<Rightarrow>
          if err \<noteq> VaultMissing then (s, Inl (MigVault err))
          else (case vst_Get legacy scope key (ms_Legacy s) of
              (l, Inl _) \<Rightarrow> (s\<lparr>ms_Legacy := l\<rparr>, Inl MigMissing)
            | (l, Inr val) \<Rightarrow>
                (case vaultSet env scope key val (ms_Disk s) of
                   (disk, Some err) \<Rightarrow> (s\<lparr>ms_Legacy := l, ms_Disk := disk\<rparr>, Inl (MigMigrate err))
                 | (disk, None) \<Rightarrow>
                     (s\<lparr>ms_Legacy := fst (vst_Delete legacy scope key l), ms_Disk := disk\<rparr>, Inr val))))"

definition migGetBytes :: "vaultEnv \<Rightarrow> 'l valueStore \<Rightarrow> string \<Rightarrow> string \<Rightarrow> 'l migState \<Rightarrow> 'l migState \<times> (migError + bytes)" where
  "migGetBytes env legacy scope key s =
     (case vaultGetBytes env scope key (ms_Disk s) of
        Inr val \<Rightarrow> (s, Inr val)
      | Inl err \<Rightarrow>
          if err \<noteq> VaultMissing then (s, Inl (MigVault err))
          else (case vst_Get legacy scope key (ms_Legacy s) of
              (l, Inl _) \<Rightarrow> (s\<lparr>ms_Legacy := l\<rparr>, Inl MigMissing)
            | (l, Inr val) \<Rightarrow>
                (case vaultSetBytes env scope key val (ms_Disk s) of
                   (disk, Some err) \<Rightarrow> (s\<lparr>ms_Legacy := l, ms_Disk := disk\<rparr>, Inl (MigMigrate err))
                 | (disk, None) \<Rightarrow>
                     (s\<lparr>ms_Legacy := fst (vst_Delete legacy scope key l), ms_Disk := disk\<rparr>, Inr val))))"

definition migDelete :: "vaultEnv \<Rightarrow> 'l valueStore \<Rightarrow> string \<Rightarrow> string \<Rightarrow> 'l migState \<Rightarrow> 'l migState \<times> migError option" where
  "migDelete env legacy scope key s =
     (let (disk, vaultErr) = vaultDelete env scope key (ms_Disk s);
          (l, legacyErr) = vst_Delete legacy scope key (ms_Legacy s);
          s = s\<lparr>ms_Disk := disk, ms_Legacy := l\<rparr>
      in case vaultErr of
           Some e \<Rightarrow> (s, Some (MigVault e))
         | None \<Rightarrow> (s, map_option MigLegacy legacyErr))"

definition migDeleteScope :: "vaultEnv \<Rightarrow> (string \<Rightarrow> 'l \<Rightarrow> 'l \<times> storeError option) \<Rightarrow> string \<Rightarrow> 'l migState \<Rightarrow>
    'l migState \<times> migError option" where
  "migDeleteScope env legacyDeleteScope scope s =
     (case vaultDeleteScope env scope (ms_Disk s) of
        (disk, Some e) \<Rightarrow> (s\<lparr>ms_Disk := disk\<rparr>, Some (MigVault e))
      | (disk, None) \<Rightarrow>
          (case legacyDeleteScope scope (ms_Legacy s) of
             (l, e) \<Rightarrow> (s\<lparr>ms_Disk := disk, ms_Legacy := l\<rparr>, map_option MigLegacy e)))"

definition migReplaceVault :: "vaultEnv \<Rightarrow> vaultDoc option \<Rightarrow> 'l migState \<Rightarrow> 'l migState \<times> migError option" where
  "migReplaceVault env incoming s =
     (case vaultReplace env incoming (ms_Disk s) of (disk, e) \<Rightarrow> (s\<lparr>ms_Disk := disk\<rparr>, map_option MigVault e))"

section \<open>Opening\<close>

text \<open>\<open>nativeProtector\<close>: the root key lives in the native store, in the scope \<open>vault-keys\<close>.\<close>

definition protectorLoad :: "'l valueStore \<Rightarrow> string \<Rightarrow> 'l \<Rightarrow> 'l \<times> (vaultError + string)" where
  "protectorLoad native name l =
     (case vst_Get native ''vault-keys'' name l of
        (l, Inl StoreMissing) \<Rightarrow> (l, Inl VaultKeyMissing)
      | (l, Inl (StoreFailure err)) \<Rightarrow> (l, Inl (LoadKey err))
      | (l, Inr val) \<Rightarrow> (l, Inr val))"

definition protectorSave :: "'l valueStore \<Rightarrow> string \<Rightarrow> string \<Rightarrow> 'l \<Rightarrow> 'l \<times> storeError option" where
  "protectorSave native name encodedKey l = vst_Set native ''vault-keys'' name encodedKey l"

section \<open>What it holds\<close>

text \<open>The value of a key: the vault's, or else the one that still waits in the native store.\<close>

definition migView :: "vaultEnv \<Rightarrow> ('l \<Rightarrow> string \<Rightarrow> string \<Rightarrow> string option) \<Rightarrow> 'l migState \<Rightarrow> vaultMap" where
  "migView env view s scope key =
     (case vaultView env (ms_Disk s) scope key of
        Some v \<Rightarrow> Some v
      | None \<Rightarrow> map_option Text (view (ms_Legacy s) scope key))"

text \<open>
  What is relied on of the native store: reading does not change what it holds, a value that is read is
  the one it holds, and a deletion removes the one value or fails without an effect.
\<close>

definition legacyOk :: "'l valueStore \<Rightarrow> ('l \<Rightarrow> string \<Rightarrow> string \<Rightarrow> string option) \<Rightarrow> bool" where
  "legacyOk st view \<longleftrightarrow>
     (\<forall>s k l. view (fst (vst_Get st s k l)) = view l \<and>
        (case snd (vst_Get st s k l) of Inr v \<Rightarrow> view l s k = Some v | Inl e \<Rightarrow> True)) \<and>
     (\<forall>s k l. case snd (vst_Delete st s k l) of
        None \<Rightarrow> view (fst (vst_Delete st s k l)) = (view l)(s := (view l s)(k := None))
      | Some _ \<Rightarrow> view (fst (vst_Delete st s k l)) = view l)"

section \<open>Failed writes\<close>

text \<open>
  A write that fails leaves the vault as it was or as it would be had it succeeded; nothing
  else of an operation depends on the outcome of the write.
\<close>

lemma write_sel:
  "ve_Crypto (env\<lparr>ve_Write := w\<rparr>) = ve_Crypto env" "ve_Store (env\<lparr>ve_Write := w\<rparr>) = ve_Store env"
  "ve_Read (env\<lparr>ve_Write := w\<rparr>) = ve_Read env" "ve_DataKey (env\<lparr>ve_Write := w\<rparr>) = ve_DataKey env"
  "ve_DataNonce (env\<lparr>ve_Write := w\<rparr>) = ve_DataNonce env" "ve_KeyNonce (env\<lparr>ve_Write := w\<rparr>) = ve_KeyNonce env"
  by simp_all

lemma mac_write:
  "computeMAC (env\<lparr>ve_Write := w\<rparr>) = computeMAC env" "scopeAAD (env\<lparr>ve_Write := w\<rparr>) = scopeAAD env"
  unfolding fun_eq_iff computeMAC_def scopeAAD_def write_sel by simp_all

lemma verify_write: "verifyMAC (env\<lparr>ve_Write := w\<rparr>) = verifyMAC env"
  unfolding fun_eq_iff verifyMAC_def mac_write by simp

lemma parse_write: "parseDoc (env\<lparr>ve_Write := w\<rparr>) = parseDoc env" "newDoc (env\<lparr>ve_Write := w\<rparr>) = newDoc env"
  unfolding fun_eq_iff parseDoc_def newDoc_def verify_write write_sel by simp_all

lemma write_irrelevant:
  "loadDoc (env\<lparr>ve_Write := w\<rparr>) = loadDoc env" "openScope (env\<lparr>ve_Write := w\<rparr>) = openScope env"
  "sealScope (env\<lparr>ve_Write := w\<rparr>) = sealScope env" "macDoc (env\<lparr>ve_Write := w\<rparr>) = macDoc env"
  unfolding fun_eq_iff loadDoc_def parse_write openScope_def sealScope_def mac_write macDoc_def write_sel by simp_all

lemma scopes_write:
  "scopesView (env\<lparr>ve_Write := w\<rparr>) = scopesView env" "scopesOk (env\<lparr>ve_Write := w\<rparr>) = scopesOk env"
  "openOrEmpty (env\<lparr>ve_Write := w\<rparr>) = openOrEmpty env"
  unfolding fun_eq_iff scopesView_def scopesOk_def openOrEmpty_def write_irrelevant by simp_all

lemma view_write:
  "vaultView (env\<lparr>ve_Write := w\<rparr>) = vaultView env" "vaultOk (env\<lparr>ve_Write := w\<rparr>) = vaultOk env"
  "resultCodec (env\<lparr>ve_Write := w\<rparr>) = resultCodec env"
  unfolding fun_eq_iff vaultView_def vaultOk_def resultCodec_def write_irrelevant scopes_write write_sel by simp_all

lemma commitDoc_write:
  "fst (commitDoc env doc disk) = disk \<or>
   commitDoc (env\<lparr>ve_Write := None\<rparr>) doc disk = (fst (commitDoc env doc disk), None)"
  by (cases "ve_Write env") (auto simp: commitDoc_def saveDoc_def write_irrelevant)

lemma vaultSet_write:
  "fst (vaultSet env s k v disk) = disk \<or>
   vaultSet (env\<lparr>ve_Write := None\<rparr>) s k v disk = (fst (vaultSet env s k v disk), None)"
proof (cases "checkNames s k = None \<and> ve_Lock env = None")
  case True
  show ?thesis
  proof (cases "loadDoc env disk")
    case (Inr doc)
    show ?thesis
    proof (cases "openOrEmpty env doc s")
      case (Inr p)
      show ?thesis
      proof (cases "sealScope env s (p\<lparr>sp_Values := mapPut k v (sp_Values p), sp_Blobs := mapDel k (sp_Blobs p)\<rparr>)")
        case (Inr sealed)
        with True \<open>loadDoc env disk = Inr doc\<close> \<open>openOrEmpty env doc s = Inr p\<close> show ?thesis
          using commitDoc_write [of env "doc\<lparr>vd_Scopes := mapPut s sealed (vd_Scopes doc)\<rparr>" disk]
          by (simp add: vaultSet_def withVault_def write_irrelevant scopes_write)
      qed (use True Inr \<open>loadDoc env disk = Inr doc\<close> in \<open>simp add: vaultSet_def withVault_def\<close>)
    qed (use True Inr in \<open>simp add: vaultSet_def withVault_def\<close>)
  qed (use True in \<open>simp add: vaultSet_def withVault_def\<close>)
qed (auto simp: vaultSet_def withVault_def split: option.split)

text \<open>Whether or not it reports success, a \<open>Set\<close> has its effect or none.\<close>

lemma vaultSet_effect:
  assumes "vaultOk env disk" "cryptoOk (ve_Crypto env)" "resultCodec env (OpSet s k v) disk"
  defines "disk' \<equiv> fst (vaultSet env s k v disk)"
  shows "vaultOk env disk' \<and> (disk' = disk \<or> vaultView env disk' = vaultSpec (OpSet s k v) (vaultView env disk))"
proof (cases "disk' = disk")
  case False
  let ?env = "env\<lparr>ve_Write := None\<rparr>"
  have "vaultSet ?env s k v disk = (disk', None)"
    using vaultSet_write [of env s k v disk] False by (simp add: disk'_def)
  from vaultSet_refines [OF _ _ _ this] assms(1-3) show ?thesis by (simp add: view_write del: vaultSpec.simps)
qed (use assms(1) in simp)

section \<open>Read-through migration\<close>

lemma legacyOk_get:
  assumes "legacyOk legacy view" "vst_Get legacy s k l = (l', r)"
  shows "view l' = view l \<and> (\<forall>v. r = Inr v \<longrightarrow> view l s k = Some v)"
proof -
  have "view (fst (vst_Get legacy s k l)) = view l \<and>
      (case snd (vst_Get legacy s k l) of Inr v \<Rightarrow> view l s k = Some v | Inl e \<Rightarrow> True)"
    using assms(1) unfolding legacyOk_def by (elim conjE) (rule spec, rule spec, rule spec)
  then show ?thesis unfolding assms(2) by auto
qed

lemma legacyOk_delete:
  assumes "legacyOk legacy view"
  shows "view (fst (vst_Delete legacy s k l)) = view l \<or>
    view (fst (vst_Delete legacy s k l)) = (view l)(s := (view l s)(k := None))"
proof -
  have "case snd (vst_Delete legacy s k l) of
        None \<Rightarrow> view (fst (vst_Delete legacy s k l)) = (view l)(s := (view l s)(k := None))
      | Some _ \<Rightarrow> view (fst (vst_Delete legacy s k l)) = view l"
    using assms unfolding legacyOk_def by blast
  then show ?thesis by (cases "snd (vst_Delete legacy s k l)") simp_all
qed

lemma migView_legacy:
  "view l = view (ms_Legacy st) \<Longrightarrow> migView env view (st\<lparr>ms_Legacy := l\<rparr>) = migView env view st"
  by (auto simp: migView_def fun_eq_iff split: option.split)

text \<open>C20: Migration on first use never loses a value. If the vault's scopes open, decryption inverts encryption, the native store
  keeps its contract and the decoder reads back the payload with the value that would be moved (true of UTF-8), then reading the
  text of a key that is not held as file contents
  changes nothing of what the store holds, whether the read succeeds, the vault cannot be written,
  the write fails after it was committed, or the native store does not delete its copy; a
  value that is returned is the value held, and it is then in the vault; and the native store's copy is gone only if the value is in the vault.\<close>
theorem mig_get_preserves:
  assumes "vaultOk env (ms_Disk st)" "cryptoOk (ve_Crypto env)" "legacyOk legacy view" "checkNames s k = None"
    and "\<forall>v. view (ms_Legacy st) s k = Some v \<longrightarrow> resultCodec env (OpSet s k v) (ms_Disk st)"
    and "\<forall>b. vaultView env (ms_Disk st) s k \<noteq> Some (Blob b)"
  shows "let (st', r) = migGet env legacy s k st in
    vaultOk env (ms_Disk st') \<and> migView env view st' = migView env view st \<and>
    (\<forall>v. r = Inr v \<longrightarrow> migView env view st s k = Some (Text v) \<and> vaultView env (ms_Disk st') s k = Some (Text v)) \<and>
    (view (ms_Legacy st') \<noteq> view (ms_Legacy st) \<longrightarrow> vaultView env (ms_Disk st') s k = map_option Text (view (ms_Legacy st) s k))"
proof (cases "vaultView env (ms_Disk st) s k")
  case (Some val)
  with assms(6) obtain v where v: "val = Text v" by (cases val) auto
  with Some vaultGet_view(1) [OF assms(1,4)] have "vaultGet env s k (ms_Disk st) = Inr v" by simp
  with Some v assms(1) show ?thesis by (simp add: migGet_def migView_def)
next
  case None
  with vaultGet_view(1) [OF assms(1,4)] have miss: "vaultGet env s k (ms_Disk st) = Inl VaultMissing" by simp
  obtain l r where get: "vst_Get legacy s k (ms_Legacy st) = (l, r)" by fastforce
  note l = legacyOk_get [OF assms(3) get, THEN conjunct1]
  show ?thesis
  proof (cases r)
    case (Inl e)
    with miss get l assms(1) show ?thesis by (simp add: migGet_def migView_legacy)
  next
    case (Inr v)
    have held: "view (ms_Legacy st) s k = Some v" using legacyOk_get [OF assms(3) get] Inr by simp
    obtain disk e where set: "vaultSet env s k v (ms_Disk st) = (disk, e)" by fastforce
    have "resultCodec env (OpSet s k v) (ms_Disk st)" using assms(5) held by blast
    from vaultSet_effect [OF assms(1,2) this] set
    have eff: "vaultOk env disk" "disk = ms_Disk st \<or> vaultView env disk = vaultSpec (OpSet s k v) (vaultView env (ms_Disk st))"
      by simp_all
    have moved: "migView env view (st\<lparr>ms_Legacy := l', ms_Disk := disk\<rparr>) = migView env view st"
      if "vaultView env disk = vaultSpec (OpSet s k v) (vaultView env (ms_Disk st))"
        "view l' = view l \<or> view l' = (view l)(s := (view l s)(k := None))" for l'
      using that held None l by (auto simp: migView_def fun_eq_iff split: option.split)
    have kept: "migView env view (st\<lparr>ms_Legacy := l, ms_Disk := disk\<rparr>) = migView env view st"
      using eff(2)
    proof
      assume same: "disk = ms_Disk st"
      have "st\<lparr>ms_Legacy := l, ms_Disk := disk\<rparr> = st\<lparr>ms_Legacy := l\<rparr>" unfolding same by simp
      then show ?thesis using migView_legacy [of view l st] l by simp
    qed (rule moved, simp_all)
    have val: "migView env view st s k = Some (Text v)" using None held by (simp add: migView_def)
    show ?thesis
    proof (cases e)
      case None
      from vaultSet_refines [OF assms(1,2) \<open>resultCodec env (OpSet s k v) (ms_Disk st)\<close>] set None
      have "vaultView env disk = vaultSpec (OpSet s k v) (vaultView env (ms_Disk st))" by blast
      with moved [OF this legacyOk_delete [OF assms(3)]] miss get Inr set None eff(1) val held show ?thesis
        by (simp add: migGet_def)
    next
      case (Some err)
      with miss get Inr set eff(1) kept val l show ?thesis by (simp add: migGet_def)
    qed
  qed
qed


text \<open>A native store that is a map.\<close>

definition mapStore :: "(string \<Rightarrow> string \<Rightarrow> string option) valueStore" where
  "mapStore =
     \<lparr>vst_Set = (\<lambda>s k v l. (l(s := (l s)(k \<mapsto> v)), None)),
      vst_Get = (\<lambda>s k l. (l, case l s k of None \<Rightarrow> Inl StoreMissing | Some v \<Rightarrow> Inr v)),
      vst_Delete = (\<lambda>s k l. (l(s := (l s)(k := None)), None)), vst_SetBytes = None, vst_GetBytes = None\<rparr>"

lemma mapStore_ok: "legacyOk mapStore (\<lambda>l. l)"
  by (auto simp: legacyOk_def mapStore_def split: option.split)

definition oldState :: "(string \<Rightarrow> string \<Rightarrow> string option) migState" where
  "oldState = \<lparr>ms_Disk = None, ms_Legacy = (\<lambda>s k. if s = ''prod'' \<and> k = ''TOKEN'' then Some ''t0'' else None)\<rparr>"

lemma oldState_vault: "vaultOk exampleVault None" "vaultView exampleVault None = (\<lambda>_ _. None)" "cryptoOk (ve_Crypto exampleVault)"
  "resultCodec exampleVault (OpSet ''prod'' ''TOKEN'' ''t0'') None"
  by (simp_all add: fun_eq_iff vaultOk_def vaultView_def loadDoc_def newDoc_def scopesOk_def scopesView_def exampleVault_def
      cryptoOk_def resultCodec_def openOrEmpty_def codecOk_def mapDel_def)

lemma oldState_moves: "snd (migGet exampleVault mapStore ''prod'' ''TOKEN'' oldState) = Inr ''t0''"
proof -
  have "vaultGet exampleVault ''prod'' ''TOKEN'' None = Inl VaultMissing"
    using vaultGet_view(1) [OF oldState_vault(1) checkNames_example] oldState_vault(2) by simp
  moreover have "snd (vaultSet exampleVault ''prod'' ''TOKEN'' ''t0'' None) = None"
    by (simp add: vaultSet_def checkNames_example withVault_def loadDoc_def openOrEmpty_def newDoc_def sealScope_def
        newAEAD_def commitDoc_def saveDoc_def exampleVault_def Let_def mapGet_def)
  ultimately show ?thesis by (auto simp: migGet_def oldState_def mapStore_def split: prod.split)
qed

lemma mig_get_preserves_witness:
  "vaultView exampleVault (ms_Disk (fst (migGet exampleVault mapStore ''prod'' ''TOKEN'' oldState))) ''prod'' ''TOKEN'' = Some (Text ''t0'')"
proof -
  let ?r = "migGet exampleVault mapStore ''prod'' ''TOKEN'' oldState"
  obtain st where r: "?r = (st, Inr ''t0'')" using oldState_moves by (metis prod.collapse)
  from mig_get_preserves [of exampleVault oldState mapStore "\<lambda>l. l" "''prod''" "''TOKEN''"] oldState_vault mapStore_ok checkNames_example
  have "let (st', r) = ?r in (\<forall>v. r = Inr v \<longrightarrow> vaultView exampleVault (ms_Disk st') ''prod'' ''TOKEN'' = Some (Text v))"
    by (auto simp: oldState_def split: prod.splits)
  then show ?thesis by (simp add: r)
qed

text \<open>
  Reading the same value as bytes stores it in the vault as file contents, which a reader of text does not find:
  after a status query by \<open>GetBytes\<close> the variable of an upgraded project is missing.
\<close>

lemma mig_getbytes_hides_text:
  assumes "vaultOk env (ms_Disk st)" "cryptoOk (ve_Crypto env)" "legacyOk legacy view" "checkNames s k = None"
    and "view (ms_Legacy st) s k = Some v" "resultCodec env (OpSetBytes s k v) (ms_Disk st)"
    and "vaultView env (ms_Disk st) s k = None"
    and "migGetBytes env legacy s k st = (st', Inr v)" "view (ms_Legacy st') s k = None"
  shows "migView env view st s k = Some (Text v)" "snd (migGet env legacy s k st') = Inl MigMissing"
proof -
  show "migView env view st s k = Some (Text v)" using assms(5,7) by (simp add: migView_def)
  have miss: "vaultGetBytes env s k (ms_Disk st) = Inl VaultMissing"
    using vaultGet_view(2) [OF assms(1,4)] assms(7) by simp
  with assms(8) obtain l disk where set: "vaultSetBytes env s k v (ms_Disk st) = (disk, None)" and disk: "ms_Disk st' = disk"
    by (auto simp: migGetBytes_def split: prod.splits sum.splits option.splits)
  from vaultSetBytes_refines [OF assms(1,2,6) set]
  have ok: "vaultOk env disk" and view: "vaultView env disk s k = Some (Blob v)" by simp_all
  have get: "vaultGet env s k (ms_Disk st') = Inl VaultMissing"
    using vaultGet_view(1) [OF ok assms(4)] view disk by simp
  obtain l r where lr: "vst_Get legacy s k (ms_Legacy st') = (l, r)" by fastforce
  have "\<nexists>x. r = Inr x" using legacyOk_get [OF assms(3) lr] assms(9) by auto
  with get lr show "snd (migGet env legacy s k st') = Inl MigMissing" by (cases r) (auto simp: migGet_def)
qed

end
