(* ===== verification/Provider.thy ===== *)
theory Provider
  imports Envset SealedExec
begin

text \<open>
  Secret providers: \<open>src/internal/provider/provider.go\<close>.  A reference is resolved by a command line
  tool (1Password, HashiCorp Vault, Doppler, Infisical), from the process environment, from a file
  in dotenv format, or is its own value.

  The tools are not part of the program: a record gives where each is found and what a call with
  given arguments puts out.  Reading a file and the home directory are arguments too.
\<close>

section \<open>Strings\<close>

text \<open>\<open>strings.Cut\<close> and \<open>strings.CutPrefix\<close>; \<open>strings.SplitN\<close> with at most three parts.\<close>

fun cutAt :: "bytes \<Rightarrow> bytes \<Rightarrow> (bytes \<times> bytes) option" where
  "cutAt sep [] = (if sep = [] then Some ([], []) else None)"
| "cutAt sep (c # s) =
     (if prefix sep (c # s) then Some ([], drop (length sep) (c # s))
      else map_option (\<lambda>(a, b). (c # a, b)) (cutAt sep s))"

definition cutPrefix :: "bytes \<Rightarrow> bytes \<Rightarrow> bytes option" where
  "cutPrefix p s = (if prefix p s then Some (drop (length p) s) else None)"

definition trimPrefix :: "bytes \<Rightarrow> bytes \<Rightarrow> bytes" where
  "trimPrefix p s = (if prefix p s then drop (length p) s else s)"

definition splitN3 :: "char \<Rightarrow> bytes \<Rightarrow> bytes list" where
  "splitN3 sep s =
     (case cutAt [sep] s of
        None \<Rightarrow> [s]
      | Some (a, b) \<Rightarrow> (case cutAt [sep] b of None \<Rightarrow> [a, b] | Some (c, d) \<Rightarrow> [a, c, d]))"

definition trimNewlines :: "bytes \<Rightarrow> bytes" where
  "trimNewlines s = rev (dropWhile (\<lambda>c. c = newline) (rev s))"

text \<open>\<open>strings.LastIndexByte\<close>, -1 if there is none.\<close>

definition lastIndexByte :: "bytes \<Rightarrow> char \<Rightarrow> int" where
  "lastIndexByte s c =
     (case byteIndex c (rev s) of None \<Rightarrow> -1 | Some i \<Rightarrow> int (length s) - 1 - int i)"

section \<open>Providers\<close>

datatype providerError =
    ProviderNotConfigured string
  | ProviderResolve string
  | OpMissing
  | OpAuth
  | DopplerMissing
  | InfisicalMissing
  | VaultCLIMissing
  | VaultCLIAuth

datatype cliResult = CliOk bytes | CliExit bytes | CliErr string

record cliOS =
  cl_LookPath :: "string \<Rightarrow> string option"
  cl_Output :: "string \<Rightarrow> string list \<Rightarrow> cliResult"

datatype provider =
    OnePassword
  | VaultCLI
  | Doppler
  | Infisical
  | EnvProvider
  | Passthrough
  | EnvFileProvider string "string gomap"

definition opResolve :: "cliOS \<Rightarrow> string \<Rightarrow> providerError + string" where
  "opResolve os ref =
     (case cl_LookPath os ''op'' of
        None \<Rightarrow> Err OpMissing
      | Some opBin \<Rightarrow> (case cl_Output os opBin [''read'', ''--no-newline'', ref] of
          CliOk out \<Rightarrow> Ok out
        | CliExit stderr \<Rightarrow>
            if sublist ''not signed in'' stderr \<or> sublist ''sign in'' stderr then Err OpAuth
            else Err (ProviderResolve (TrimSpace stderr))
        | CliErr err \<Rightarrow> Err (ProviderResolve err)))"

definition vaultRef :: "string \<Rightarrow> (string \<times> string) option" where
  "vaultRef ref =
     (case cutAt ''#'' (trimPrefix ''vault://'' ref) of
        None \<Rightarrow> None
      | Some (path, field) \<Rightarrow> if path = [] \<or> field = [] then None else Some (path, field))"

definition vaultResolve :: "cliOS \<Rightarrow> string \<Rightarrow> providerError + string" where
  "vaultResolve os ref =
     (case vaultRef ref of
        None \<Rightarrow> Err (ProviderResolve ''vault ref must be vault://<path>#<field>'')
      | Some (path, field) \<Rightarrow> (case cl_LookPath os ''vault'' of
          None \<Rightarrow> Err VaultCLIMissing
        | Some vaultBin \<Rightarrow> (case cl_Output os vaultBin [''kv'', ''get'', ''-field='' @ field, path] of
            CliOk out \<Rightarrow> Ok (trimNewlines out)
          | CliExit stderr \<Rightarrow>
              (let low = ToLower (TrimSpace stderr) in
               if sublist ''missing client token'' low \<or> sublist ''permission denied'' low \<or> sublist ''403'' low
               then Err VaultCLIAuth else Err (ProviderResolve (TrimSpace stderr)))
          | CliErr err \<Rightarrow> Err (ProviderResolve err))))"

text \<open>The arguments for a reference; \<open>None\<close> when it has the scheme but not three parts.\<close>

definition dopplerArgs :: "string \<Rightarrow> string list option" where
  "dopplerArgs ref =
     (case cutPrefix ''doppler://'' ref of
        Some after \<Rightarrow>
          (let parts = splitN3 (CHR ''/'') after in
           if length parts \<noteq> 3 then None
           else Some [''secrets'', ''get'', parts ! 2, ''--project'', parts ! 0, ''--config'', parts ! 1,
                      ''--plain'', ''--no-read-env''])
      | None \<Rightarrow> Some [''secrets'', ''get'', ref, ''--plain'', ''--no-read-env''])"

definition dopplerResolve :: "cliOS \<Rightarrow> string \<Rightarrow> providerError + string" where
  "dopplerResolve os ref =
     (case cl_LookPath os ''doppler'' of
        None \<Rightarrow> Err DopplerMissing
      | Some dopplerBin \<Rightarrow> (case dopplerArgs ref of
          None \<Rightarrow> Err (ProviderResolve ''doppler ref must be doppler://project/config/SECRET'')
        | Some args \<Rightarrow> (case cl_Output os dopplerBin args of
            CliOk out \<Rightarrow> Ok (trimNewlines out)
          | CliExit stderr \<Rightarrow> Err (ProviderResolve (TrimSpace stderr))
          | CliErr err \<Rightarrow> Err (ProviderResolve err))))"

definition infisicalArgs :: "string \<Rightarrow> string list option" where
  "infisicalArgs ref =
     (case cutPrefix ''infisical://'' ref of
        Some after \<Rightarrow>
          (let parts = splitN3 (CHR ''/'') after in
           if length parts \<noteq> 3 then None
           else Some [''secrets'', ''get'', parts ! 2, ''--projectId'', parts ! 0, ''--env'', parts ! 1,
                      ''--plain'', ''--silent''])
      | None \<Rightarrow> Some [''secrets'', ''get'', ref, ''--plain'', ''--silent''])"

definition infisicalResolve :: "cliOS \<Rightarrow> string \<Rightarrow> providerError + string" where
  "infisicalResolve os ref =
     (case cl_LookPath os ''infisical'' of
        None \<Rightarrow> Err InfisicalMissing
      | Some infisicalBin \<Rightarrow> (case infisicalArgs ref of
          None \<Rightarrow> Err (ProviderResolve ''infisical ref must be infisical://projectId/env/SECRET_NAME'')
        | Some args \<Rightarrow> (case cl_Output os infisicalBin args of
            CliOk out \<Rightarrow> Ok (trimNewlines out)
          | CliExit stderr \<Rightarrow> Err (ProviderResolve (TrimSpace stderr))
          | CliErr err \<Rightarrow> Err (ProviderResolve err))))"

definition envResolve :: "string list \<Rightarrow> string \<Rightarrow> providerError + string" where
  "envResolve environ ref =
     (case cutPrefix ''literal:'' ref of
        Some after \<Rightarrow> Ok after
      | None \<Rightarrow>
          (let ref = (case cutPrefix ''env:'' ref of Some after \<Rightarrow> after | None \<Rightarrow> ref) in
           case (if ref = [] then None else lookupEnv environ ref) of
             None \<Rightarrow> Err (ProviderResolve (''env var not set: '' @ ref))
           | Some val \<Rightarrow> Ok val))"

text \<open>\<open>refs\<close> of an env file may carry the scheme again.\<close>

definition envFileResolve :: "string \<Rightarrow> string gomap \<Rightarrow> string \<Rightarrow> providerError + string" where
  "envFileResolve path secrets ref =
     (case mapGet secrets (trimPrefix ''envfile:'' ref) of
        None \<Rightarrow> Err (ProviderResolve (''secret not found in '' @ path))
      | Some val \<Rightarrow> Ok val)"

section \<open>Secret files\<close>

text \<open>The value of a line of a secrets file.\<close>

definition envFileValue :: "string \<Rightarrow> string" where
  "envFileValue val =
     (let end' = (if val \<noteq> [] \<and> (hd val = CHR 0x22 \<or> hd val = CHR 0x27) then lastIndexByte val (hd val) else -1)
      in if end' > 0 \<and> hd val = CHR 0x22 then unescapeNewlines (take (nat end' - 1) (tl val))
         else if end' > 0 then take (nat end' - 1) (tl val)
         else case cutAt '' #'' val of
           Some (before, _) \<Rightarrow> TrimSpace before
         | None \<Rightarrow> val)"

text \<open>One line; a later line for the same key replaces the earlier one.\<close>

definition envFileLine :: "string \<Rightarrow> string gomap \<Rightarrow> string gomap" where
  "envFileLine raw secrets =
     (let line = TrimSpace raw in
      if line = [] \<or> prefix ''#'' line then secrets
      else case cutAt ''='' (trimPrefix ''export '' line) of
        None \<Rightarrow> secrets
      | Some (key, val) \<Rightarrow> mapPut (TrimSpace key) (envFileValue (TrimSpace val)) secrets)"

definition parseEnvFile :: "bytes \<Rightarrow> string gomap" where
  "parseEnvFile content = fold envFileLine (splitByte newline content) []"

definition newEnvFileProvider :: "string option \<Rightarrow> (string \<Rightarrow> string + bytes) \<Rightarrow> string \<Rightarrow> providerError + provider" where
  "newEnvFileProvider home readFile path =
     (case (if prefix ''~/'' path then map_option (\<lambda>h. h @ tl path) home else Some path) of
        None \<Rightarrow> Err (ProviderResolve ''cannot expand ~'')
      | Some path \<Rightarrow> (case readFile path of
          Inl err \<Rightarrow> Err (ProviderResolve err)
        | Inr content \<Rightarrow> Ok (EnvFileProvider path (parseEnvFile content))))"

section \<open>Choosing and using one\<close>

definition newProvider :: "string option \<Rightarrow> (string \<Rightarrow> string + bytes) \<Rightarrow> string \<Rightarrow> providerError + provider" where
  "newProvider home readFile name =
     (let nameLower = ToLower name in
      if length name \<ge> 8 \<and> EqualFold (take 8 name) ''envfile:'' then newEnvFileProvider home readFile (drop 8 name)
      else if nameLower = ''1password'' \<or> nameLower = ''op'' then Ok OnePassword
      else if nameLower = ''vault'' \<or> nameLower = ''hashicorp'' then Ok VaultCLI
      else if nameLower = ''doppler'' then Ok Doppler
      else if nameLower = ''infisical'' then Ok Infisical
      else if nameLower = ''env'' \<or> nameLower = ''environment'' then Ok EnvProvider
      else if nameLower = ''passthrough'' \<or> nameLower = [] then Ok Passthrough
      else Err (ProviderNotConfigured name))"

definition Resolve :: "cliOS \<Rightarrow> string list \<Rightarrow> provider \<Rightarrow> string \<Rightarrow> providerError + string" where
  "Resolve os environ p ref =
     (case p of
        OnePassword \<Rightarrow> opResolve os ref
      | VaultCLI \<Rightarrow> vaultResolve os ref
      | Doppler \<Rightarrow> dopplerResolve os ref
      | Infisical \<Rightarrow> infisicalResolve os ref
      | EnvProvider \<Rightarrow> envResolve environ ref
      | Passthrough \<Rightarrow> Ok ref
      | EnvFileProvider path secrets \<Rightarrow> envFileResolve path secrets ref)"

text \<open>The loop over the references, which form a map from variables.\<close>

fun ResolveAll :: "(string \<Rightarrow> providerError + string) \<Rightarrow> (string \<times> string) list \<Rightarrow> providerError + (string \<times> string) list" where
  "ResolveAll resolve [] = Ok []"
| "ResolveAll resolve ((envVar, ref) # refs) =
     (case resolve ref of
        Inl err \<Rightarrow> Err err
      | Inr val \<Rightarrow> (case ResolveAll resolve refs of
          Inl err \<Rightarrow> Err err
        | Inr out \<Rightarrow> Ok ((envVar, val) # out)))"

section \<open>Facts\<close>

lemma ResolveAll_map:
  assumes "ResolveAll resolve refs = Inr out"
  shows "map_of out k = (case map_of refs k of None \<Rightarrow> None | Some ref \<Rightarrow>
    (case resolve ref of Inl e \<Rightarrow> None | Inr val \<Rightarrow> Some val))"
  using assms
proof (induction refs arbitrary: out)
  case (Cons p refs)
  obtain a ref where p: "p = (a, ref)" by (cases p)
  from Cons.prems obtain val out' where "resolve ref = Inr val" "ResolveAll resolve refs = Inr out'"
    "out = (a, val) # out'"
    by (auto simp: p split: sum.splits)
  with Cons.IH show ?case by (simp add: p)
qed simp

text \<open>
  A quote in the comment after a quoted value is taken for the end of the value: the comment
  becomes part of the secret.
\<close>

lemma envFile_quote_in_comment:
  "envFileValue (''\"x\" # \"y\"'') = ''x\" # \"y''"
  by code_simp

lemma newProvider_passthrough: "newProvider home readFile ''passthrough'' = Inr Passthrough"
proof -
  have a: "ToLower ''passthrough'' = List.map lowerByte ''passthrough''" by (rule ToLower_ascii) simp
  have b: "foldBytes ''passthro'' = List.map lowerByte ''passthro''" "foldBytes ''envfile:'' = List.map lowerByte ''envfile:''"
    by (rule foldBytes_ascii; simp)+
  have "ToLower ''passthrough'' = ''passthrough''" unfolding a by (simp add: lowerByte_def)
  moreover have "\<not> EqualFold ''passthro'' ''envfile:''" unfolding EqualFold_def b by (simp add: lowerByte_def)
  ultimately show ?thesis unfolding newProvider_def Let_def by (simp del: ToLower.simps)
qed

end
