(* ===== verification/SecretStore.thy ===== *)
theory SecretStore
  imports Vault Policy AuditLog
begin

text \<open>
  The host-side stores of version-1 policies: \<open>src/internal/secrets/store.go\<close>.

  The directory of a file store is a map from file names to contents.  AES-GCM and SHA-256 are
  those of \<open>Vault\<close>; the decoder of a stored value and the command \<open>security\<close> of macOS are
  arguments.  \<open>Open\<close> of the cipher panics on a nonce that does not have the standard size.
\<close>

section \<open>Stores\<close>

datatype secretError =
    SecretMissing string
  | SecretCorrupt
  | SecretPanic
  | SecretIO string
  | KeychainFailed string
  | KeyLength
  | KeychainUnsupported
  | UnknownStore string
  | OpeningStore string secretError

text \<open>The standard nonce size of GCM; \<open>Open\<close> panics on another one.\<close>

definition gcmNonceSize :: nat where "gcmNonceSize = 12"

definition hexHash :: "vaultCrypto \<Rightarrow> string \<Rightarrow> string" where
  "hexHash c s = hexEncode (vc_SHA256 c s)"

definition canonicalPath :: "string option \<Rightarrow> string \<Rightarrow> string" where
  "canonicalPath absolute path = (case absolute of Some p \<Rightarrow> Clean p | None \<Rightarrow> path)"

definition serviceName :: "vaultCrypto \<Rightarrow> string option \<Rightarrow> string \<Rightarrow> string" where
  "serviceName c absolute policyPath = ''ironrun/'' @ hexHash c (canonicalPath absolute policyPath)"

type_synonym secretDir = "string \<Rightarrow> bytes option"

record fileStore =
  fs_Crypto :: vaultCrypto
  fs_Decode :: "bytes \<Rightarrow> (string \<times> string) option"
  fs_Key :: bytes

definition storePath :: "fileStore \<Rightarrow> string \<Rightarrow> string" where
  "storePath f name = hexHash (fs_Crypto f) name @ ''.json''"

definition marshalSealedValue :: "string \<Rightarrow> string \<Rightarrow> bytes" where
  "marshalSealedValue nonce ciphertext =
     jsonObject [jsonField ''nonce'' (jsonString nonce), jsonField ''ciphertext'' (jsonString ciphertext)]"

text \<open>
  \<open>writePrivate\<close>: writing truncates the file first, so a failed write leaves whatever was written of
  it; the permissions are set afterwards.
\<close>

datatype writeOutcome = WriteDone | WriteFailed "bytes option" string | ChmodFailed string

definition writePrivate :: "writeOutcome \<Rightarrow> string \<Rightarrow> bytes \<Rightarrow> secretDir \<Rightarrow> secretDir \<times> secretError option" where
  "writePrivate w path content d =
     (case w of
        WriteFailed left err \<Rightarrow> (d(path := left), Some (SecretIO err))
      | ChmodFailed err \<Rightarrow> (d(path \<mapsto> content), Some (SecretIO err))
      | WriteDone \<Rightarrow> (d(path \<mapsto> content), None))"

text \<open>\<open>nonce\<close> is what the random source delivers, \<open>w\<close> how the write ends.\<close>

definition fileStoreSet :: "fileStore \<Rightarrow> bytes \<Rightarrow> writeOutcome \<Rightarrow> string \<Rightarrow> string \<Rightarrow> secretDir \<Rightarrow>
    secretDir \<times> secretError option" where
  "fileStoreSet f nonce w name val d =
     (case newAEAD (fs_Key f) of
        Inl _ \<Rightarrow> (d, Some KeyLength)
      | Inr key \<Rightarrow>
          (let enc = vc_Seal (fs_Crypto f) key nonce val name;
               content = marshalSealedValue (encodeBytes nonce) (encodeBytes enc)
           in writePrivate w (storePath f name) content d))"

definition fileStoreGet :: "fileStore \<Rightarrow> string option \<Rightarrow> string \<Rightarrow> secretDir \<Rightarrow> secretError + string" where
  "fileStoreGet f readErr name d =
     (case d (storePath f name) of
        None \<Rightarrow> Err (SecretMissing name)
      | Some content \<Rightarrow> (case readErr of
          Some err \<Rightarrow> Err (SecretIO err)
        | None \<Rightarrow> (case fs_Decode f content of
            None \<Rightarrow> Err SecretCorrupt
          | Some (n, c) \<Rightarrow> (case decodeBytes n of
              None \<Rightarrow> Err (SecretMissing name)
            | Some nonce \<Rightarrow> (case decodeBytes c of
                None \<Rightarrow> Err (SecretMissing name)
              | Some enc \<Rightarrow>
                  if length nonce \<noteq> gcmNonceSize then Err SecretPanic
                  else (case vc_Open (fs_Crypto f) (fs_Key f) nonce enc name of
                      None \<Rightarrow> Err (SecretMissing name)
                    | Some plain \<Rightarrow> Ok plain))))))"

definition fileStoreDelete :: "fileStore \<Rightarrow> string option \<Rightarrow> string \<Rightarrow> secretDir \<Rightarrow> secretDir \<times> secretError option" where
  "fileStoreDelete f removeErr name d =
     (if d (storePath f name) = None then (d, None)
      else case removeErr of
        Some err \<Rightarrow> (d, Some (SecretIO err))
      | None \<Rightarrow> (d(storePath f name := None), None))"

text \<open>
  \<open>newFileStore\<close>: the key file is read, or written with fresh random bytes when it does not exist.
\<close>

record storeOS =
  so_HomeErr :: "string option"
  so_MkdirErr :: "string option"
  so_ReadErr :: "string option"
  so_Fresh :: bytes
  so_Write :: writeOutcome
  so_ChmodErr :: "string option"

definition loadStoreKey :: "storeOS \<Rightarrow> secretDir \<Rightarrow> secretDir \<times> (secretError + bytes)" where
  "loadStoreKey os d =
     (case d ''.key'' of
        None \<Rightarrow>
          (case writePrivate (so_Write os) ''.key'' (so_Fresh os) d of
             (d, Some err) \<Rightarrow> (d, Err err)
           | (d, None) \<Rightarrow> (d, Ok (so_Fresh os)))
      | Some key \<Rightarrow> (case so_ReadErr os of
          Some err \<Rightarrow> (d, Err (SecretIO err))
        | None \<Rightarrow> (d, Ok key)))"

definition newFileStore :: "vaultCrypto \<Rightarrow> (bytes \<Rightarrow> (string \<times> string) option) \<Rightarrow> storeOS \<Rightarrow> secretDir \<Rightarrow>
    secretDir \<times> (secretError + fileStore)" where
  "newFileStore c decode os d =
     (case so_HomeErr os of
        Some err \<Rightarrow> (d, Err (SecretIO err))
      | None \<Rightarrow> (case so_MkdirErr os of
          Some err \<Rightarrow> (d, Err (SecretIO err))
        | None \<Rightarrow> (case loadStoreKey os d of
            (d, Inl err) \<Rightarrow> (d, Err err)
          | (d, Inr key) \<Rightarrow>
              if length key \<noteq> 32 then (d, Err KeyLength)
              else (case so_ChmodErr os of
                  Some err \<Rightarrow> (d, Err (SecretIO err))
                | None \<Rightarrow> (d, Ok \<lparr>fs_Crypto = c, fs_Decode = decode, fs_Key = key\<rparr>)))))"

section \<open>The macOS keychain\<close>

text \<open>What \<open>security\<close> answers: its output, and whether it failed.\<close>

definition trimCRLF :: "string \<Rightarrow> string" where
  "trimCRLF s = rev (dropWhile (\<lambda>c. c = newline \<or> c = CHR 0x0D) (rev s))"

definition safeErr :: "bytes \<Rightarrow> string" where
  "safeErr b = (let s = TrimSpace b in if length s > 240 then take 240 s else s)"

definition keychainGet :: "(string list \<Rightarrow> bytes \<times> bool) \<Rightarrow> string \<Rightarrow> string \<Rightarrow> secretError + string" where
  "keychainGet security service name =
     (case security [''find-generic-password'', ''-s'', service, ''-a'', name, ''-w''] of
        (out, failed) \<Rightarrow> if failed then Err (SecretMissing name) else Ok (trimCRLF out))"

definition keychainSet :: "(string list \<Rightarrow> bytes \<Rightarrow> bytes \<times> bool) \<Rightarrow> string \<Rightarrow> string \<Rightarrow> string \<Rightarrow> secretError option" where
  "keychainSet security service name val =
     (case security [''add-generic-password'', ''-U'', ''-s'', service, ''-a'', name, ''-w''] (val @ [newline]) of
        (out, failed) \<Rightarrow> if failed then Some (KeychainFailed (safeErr out)) else None)"

definition keychainDelete :: "(string list \<Rightarrow> bytes \<times> bool) \<Rightarrow> string \<Rightarrow> string \<Rightarrow> secretError option" where
  "keychainDelete security service name =
     (case security [''delete-generic-password'', ''-s'', service, ''-a'', name] of
        (out, failed) \<Rightarrow> if failed \<and> \<not> sublist ''could not be found'' out then Some (KeychainFailed (safeErr out)) else None)"

section \<open>Choosing a store\<close>

datatype storeChoice = ChooseKeychain | ChooseFile

definition chooseStore :: "string \<Rightarrow> bool \<Rightarrow> string \<Rightarrow> secretError + storeChoice" where
  "chooseStore goos hasSecurity requested =
     (if requested = [] \<or> requested = ''auto'' then
        (if goos = ''darwin'' \<and> hasSecurity then Ok ChooseKeychain else Ok ChooseFile)
      else if ToLower requested = ''keychain'' then
        (if goos \<noteq> ''darwin'' then Err KeychainUnsupported else Ok ChooseKeychain)
      else if ToLower requested = ''envfile'' then Ok ChooseFile
      else Err (UnknownStore requested))"

text \<open>
  \<open>ResolveAliasesWithOpener\<close>: an opened store is its \<open>Get\<close>; each requested backend is opened once.
\<close>

type_synonym secretGet = "string \<Rightarrow> secretError + string"

fun resolveAliases :: "policyFile \<Rightarrow> (string \<Rightarrow> secretError + secretGet) \<Rightarrow> (string \<times> secretGet) list \<Rightarrow> string list \<Rightarrow>
    string gomap \<Rightarrow> secretError + string gomap" where
  "resolveAliases f open' stores [] out = Ok out"
| "resolveAliases f open' stores (alias # rest) out =
     (case map_of (f_Secrets f) alias of
        None \<Rightarrow> Err (SecretMissing alias)
      | Some decl \<Rightarrow>
          (case (case map_of stores (sd_Store decl) of
                   Some store \<Rightarrow> Ok (store, stores)
                 | None \<Rightarrow> (case open' (sd_Store decl) of
                     Inl err \<Rightarrow> Err (OpeningStore alias err)
                   | Inr store \<Rightarrow> Ok (store, (sd_Store decl, store) # stores))) of
             Inl err \<Rightarrow> Err err
           | Inr (store, stores) \<Rightarrow>
               (case store alias of
                  Inl SecretPanic \<Rightarrow> Err SecretPanic
                | Inl _ \<Rightarrow> Err (SecretMissing alias)
                | Inr val \<Rightarrow> resolveAliases f open' stores rest (mapPut (sd_Env decl) val out))))"

definition ResolveAliasesWithOpener :: "policyFile \<Rightarrow> command \<Rightarrow> (string \<Rightarrow> secretError + secretGet) \<Rightarrow> secretError + string gomap" where
  "ResolveAliasesWithOpener f cmd open' = resolveAliases f open' [] (c_Secrets cmd) []"

section \<open>Facts\<close>

text \<open>A value that was stored is read back, and no other name is affected, as long as names do not collide.\<close>

lemma fileStore_roundtrip:
  assumes "fileStoreSet f nonce w name val d = (d', None)"
    and "\<And>k n p a. vc_Open (fs_Crypto f) k n (vc_Seal (fs_Crypto f) k n p a) a = Some p"
    and "\<And>n c. fs_Decode f (marshalSealedValue n c) = Some (n, c)" "length nonce = gcmNonceSize"
  shows "fileStoreGet f None name d' = Inr val"
    and "storePath f name' \<noteq> storePath f name \<Longrightarrow> fileStoreGet f None name' d' = fileStoreGet f None name' d"
proof -
  obtain key where "newAEAD (fs_Key f) = Inr key" "key = fs_Key f"
    and d': "d' = d(storePath f name \<mapsto>
      marshalSealedValue (encodeBytes nonce) (encodeBytes (vc_Seal (fs_Crypto f) key nonce val name)))"
    using assms(1) by (auto simp: fileStoreSet_def writePrivate_def newAEAD_def Let_def split: if_splits option.splits writeOutcome.splits)
  then show "fileStoreGet f None name d' = Inr val"
    using assms(2-4) by (simp add: fileStoreGet_def encodeBytes_def decodeBytes_def)
  show "storePath f name' \<noteq> storePath f name \<Longrightarrow> fileStoreGet f None name' d' = fileStoreGet f None name' d"
    by (simp add: fileStoreGet_def d')
qed

text \<open>A file whose nonce has another length, which nothing authenticates, panics instead of being missing.\<close>

lemma fileStore_nonce_panics:
  assumes "d (storePath f name) = Some content" "fs_Decode f content = Some ([], [])"
  shows "fileStoreGet f None name d = Inl SecretPanic"
proof -
  have "decodeBytes [] = Some []" by code_simp
  with assms show ?thesis by (simp add: fileStoreGet_def gcmNonceSize_def)
qed

text \<open>Each alias is read from the store that its declaration asks for.\<close>

lemma resolveAliases_sound:
  assumes "resolveAliases f open' stores aliases out = Inr out'"
    and "\<And>r store. map_of stores r = Some store \<Longrightarrow> open' r = Inr store"
    and "(env, v) \<in> set out'"
  shows "(env, v) \<in> set out \<or>
    (\<exists>alias \<in> set aliases. \<exists>decl store. map_of (f_Secrets f) alias = Some decl \<and> sd_Env decl = env \<and>
       open' (sd_Store decl) = Inr store \<and> store alias = Inr v)"
  using assms
proof (induction aliases arbitrary: stores out)
  case (Cons a aliases)
  from Cons.prems(1) obtain decl store stores' val where a: "map_of (f_Secrets f) a = Some decl"
    and st: "(case map_of stores (sd_Store decl) of
                   Some store \<Rightarrow> Ok (store, stores)
                 | None \<Rightarrow> (case open' (sd_Store decl) of
                     Inl err \<Rightarrow> Err (OpeningStore a err)
                   | Inr store \<Rightarrow> Ok (store, (sd_Store decl, store) # stores))) = Inr (store, stores')"
    and val: "store a = Inr val" and rest: "resolveAliases f open' stores' aliases (mapPut (sd_Env decl) val out) = Inr out'"
    by (auto split: option.split_asm sum.split_asm prod.split_asm secretError.split_asm)
  have opened: "open' (sd_Store decl) = Inr store" "\<And>r s. map_of stores' r = Some s \<Longrightarrow> open' r = Inr s"
    using st Cons.prems(2) by (auto split: option.split_asm sum.split_asm if_splits)
  from Cons.IH [OF rest opened(2) Cons.prems(3)] show ?case
    using mapPut_set [of "sd_Env decl" val out] a opened(1) val by auto
qed simp

end
