(* ===== verification/FileWorkspace.thy ===== *)
theory FileWorkspace
  imports AuditLog
begin

text \<open>
  The directory in which a run finds its file secrets: \<open>src/internal/execution/files.go\<close> (with
  \<open>proc_unix.go\<close> and \<open>proc_other.go\<close>).

  The file system is a map from paths to contents, of which only files of the program matter here.
  What a system call answers is an argument: the directory listing, the fresh name, whether a
  process is alive, and which call fails.
\<close>

type_synonym fsys = "string \<Rightarrow> bytes option"

section \<open>The workspace\<close>

datatype filesError =
    UnsafeBasename string
  | DuplicateFilename string
  | MaterializeFailed string
  | WorkspaceUnavailable string

record fileWorkspace =
  fw_dir :: string
  fw_created :: "string list"

text \<open>
  The answers while a file is written.  A failed write or close is followed by the removal of the file,
  after which \<open>mo_Left\<close> is there, nothing if the removal succeeds.
\<close>

record matOS =
  mo_Open :: "string option"
  mo_Write :: "string option"
  mo_Close :: "string option"
  mo_Left :: "bytes option"
  mo_Chmod :: "string option"

definition safeBasename :: "string \<Rightarrow> bool" where
  "safeBasename filename \<longleftrightarrow>
     \<not> (filename = [] \<or> Base filename \<noteq> filename \<or> filename = ''.'' \<or> filename = ''..'' \<or>
        ContainsAny filename [CHR ''/'', CHR 0x5C])"

definition Materialize :: "matOS \<Rightarrow> string \<Rightarrow> bytes \<Rightarrow> fileWorkspace \<Rightarrow> fsys \<Rightarrow> fileWorkspace \<times> fsys \<times> (filesError + string)" where
  "Materialize os filename val w fs =
     (if \<not> safeBasename filename then (w, fs, Err (UnsafeBasename filename))
      else if filename \<in> set (fw_created w) then (w, fs, Err (DuplicateFilename filename))
      else
        let path = pathJoin [fw_dir w, filename] in
        if fs path \<noteq> None then (w, fs, Err (MaterializeFailed ''file exists''))
        else case mo_Open os of
          Some err \<Rightarrow> (w, fs, Err (MaterializeFailed err))
        | None \<Rightarrow> (case mo_Write os of
            Some err \<Rightarrow> (w, fs(path := mo_Left os), Err (MaterializeFailed err))
          | None \<Rightarrow> (case mo_Close os of
              Some err \<Rightarrow> (w, fs(path := mo_Left os), Err (MaterializeFailed err))
            | None \<Rightarrow> (case mo_Chmod os of
                Some err \<Rightarrow> (w, fs(path \<mapsto> val), Err (MaterializeFailed err))
              | None \<Rightarrow> (w\<lparr>fw_created := filename # fw_created w\<rparr>, fs(path \<mapsto> val), Ok path)))))"

text \<open>\<open>os.RemoveAll\<close> removes everything below the directory, or fails and leaves some of it.\<close>

datatype removal = Removed | RemoveFailed "string \<Rightarrow> bool" string

definition below :: "string \<Rightarrow> string \<Rightarrow> bool" where
  "below dir path \<longleftrightarrow> path = dir \<or> prefix (dir @ ''/'') path"

definition removeAll :: "removal \<Rightarrow> string \<Rightarrow> fsys \<Rightarrow> fsys \<times> string option" where
  "removeAll r dir fs =
     (case r of
        Removed \<Rightarrow> (\<lambda>p. if below dir p then None else fs p, None)
      | RemoveFailed stuck err \<Rightarrow> (\<lambda>p. if below dir p \<and> \<not> stuck p then None else fs p, Some err))"

definition closeWorkspace :: "removal \<Rightarrow> fileWorkspace option \<Rightarrow> fsys \<Rightarrow> fileWorkspace option \<times> fsys \<times> string option" where
  "closeWorkspace r w fs =
     (case w of
        None \<Rightarrow> (None, fs, None)
      | Some w' \<Rightarrow>
          if fw_dir w' = [] then (w, fs, None)
          else let (fs, err) = removeAll r (fw_dir w') fs in (Some (w'\<lparr>fw_dir := []\<rparr>), fs, err))"

section \<open>Remnants of crashed runs\<close>

definition staleRunAge :: duration where "staleRunAge = 24 * hour"

text \<open>\<open>strconv.Atoi\<close> on a 64-bit platform.\<close>

definition digitChar :: "char \<Rightarrow> bool" where
  "digitChar c \<longleftrightarrow> CHR ''0'' \<le> c \<and> c \<le> CHR ''9''"

definition decimal :: "string \<Rightarrow> int" where
  "decimal s = fold (\<lambda>c n. n * 10 + (of_char c - 48)) s 0"

definition Atoi :: "string \<Rightarrow> int option" where
  "Atoi s =
     (let neg = prefix ''-'' s; digits = (if neg \<or> prefix ''+'' s then tl s else s);
          n = (if neg then - decimal digits else decimal digits)
      in if digits = [] \<or> \<not> list_all digitChar digits \<or> n < - (2 ^ 63) \<or> n \<ge> 2 ^ 63 then None else Some n)"

text \<open>\<open>strings.IndexByte(rest, '-') <= 0\<close>: there is no hyphen or it comes first.\<close>

definition runDirOwnerPID :: "string \<Rightarrow> int option" where
  "runDirOwnerPID name =
     (let rest = (if prefix ''run-'' name then drop 4 name else name);
          owner = takeWhile (\<lambda>c. c \<noteq> CHR ''-'') rest
      in if CHR ''-'' \<notin> set rest \<or> owner = [] then None
         else case Atoi owner of
           None \<Rightarrow> None
         | Some p \<Rightarrow> if p \<le> 0 then None else Some p)"

text \<open>An entry of the listing: its name, whether it is a directory, and what \<open>Lstat\<close> says.\<close>

record dirInfo =
  di_Symlink :: bool
  di_Perm :: int
  di_ModTime :: time

record runDir =
  rd_Name :: string
  rd_IsDir :: bool
  rd_Info :: "dirInfo option"

definition removableDir :: "(int \<Rightarrow> bool) \<Rightarrow> time \<Rightarrow> runDir \<Rightarrow> bool" where
  "removableDir processAlive now e \<longleftrightarrow>
     rd_IsDir e \<and> prefix ''run-'' (rd_Name e) \<and>
     (case rd_Info e of
        None \<Rightarrow> False
      | Some info \<Rightarrow>
          \<not> di_Symlink info \<and> di_Perm info mod 64 = 0 \<and>
          (case runDirOwnerPID (rd_Name e) of
             Some pid \<Rightarrow> \<not> processAlive pid
           | None \<Rightarrow> now - di_ModTime info \<ge> staleRunAge))"

text \<open>Errors of the removals are ignored.\<close>

definition cleanupStale :: "(int \<Rightarrow> bool) \<Rightarrow> time \<Rightarrow> (string \<Rightarrow> removal) \<Rightarrow> string \<Rightarrow> runDir list \<Rightarrow> fsys \<Rightarrow> fsys" where
  "cleanupStale processAlive now rm base entries fs =
     fold (\<lambda>e fs. if removableDir processAlive now e
                  then fst (removeAll (rm (rd_Name e)) (pathJoin [base, rd_Name e]) fs) else fs) entries fs"

text \<open>\<open>wo_ReadDir\<close> is \<open>None\<close> when the listing fails; then nothing is cleaned up.\<close>

record workspaceOS =
  wo_CacheDir :: "string option"
  wo_Mkdir :: "string option"
  wo_ChmodBase :: "string option"
  wo_ReadDir :: "runDir list option"
  wo_Now :: time
  wo_Alive :: "int \<Rightarrow> bool"
  wo_Remove :: "string \<Rightarrow> removal"
  wo_MkdirTemp :: "string + string"
  wo_ChmodDir :: "string option"
  wo_Mat :: "string \<Rightarrow> matOS"
  wo_Close :: removal

definition runBase :: "string \<Rightarrow> string" where
  "runBase cache = pathJoin [cache, ''ironrun'', ''run'']"

definition newFileWorkspace :: "workspaceOS \<Rightarrow> fsys \<Rightarrow> fsys \<times> (filesError + fileWorkspace)" where
  "newFileWorkspace os fs =
     (case wo_CacheDir os of
        None \<Rightarrow> (fs, Err (WorkspaceUnavailable ''no cache directory''))
      | Some cache \<Rightarrow> (case wo_Mkdir os of
          Some err \<Rightarrow> (fs, Err (WorkspaceUnavailable err))
        | None \<Rightarrow> (case wo_ChmodBase os of
            Some err \<Rightarrow> (fs, Err (WorkspaceUnavailable err))
          | None \<Rightarrow>
              (let fs = (case wo_ReadDir os of
                           None \<Rightarrow> fs
                         | Some entries \<Rightarrow>
                             cleanupStale (wo_Alive os) (wo_Now os) (wo_Remove os) (runBase cache) entries fs)
               in case wo_MkdirTemp os of
                    Inl err \<Rightarrow> (fs, Err (WorkspaceUnavailable err))
                  | Inr dir \<Rightarrow> (case wo_ChmodDir os of
                      Some err \<Rightarrow> (fst (removeAll (wo_Remove os dir) dir fs), Err (WorkspaceUnavailable err))
                    | None \<Rightarrow> (fs, Ok \<lparr>fw_dir = dir, fw_created = []\<rparr>))))))"


section \<open>Facts\<close>

lemma Join_last_part: "Join (xs @ [x]) sep = (if xs = [] then x else Join xs sep @ sep @ x)"
proof (induction xs)
  case (Cons y xs)
  then show ?case by (cases xs) auto
qed simp

lemma cleanParts_snoc:
  "f \<noteq> [] \<Longrightarrow> f \<noteq> ''.'' \<Longrightarrow> f \<noteq> ''..'' \<Longrightarrow> cleanParts r out (cs @ [f]) = cleanParts r out cs @ [f]"
  by (induction r out cs rule: cleanParts.induct) (auto split: list.split)

text \<open>Joining a safe name to a clean absolute directory appends it.\<close>

definition cleanDir :: "string \<Rightarrow> bool" where
  "cleanDir d \<longleftrightarrow> prefix ''/'' d \<and> Clean d = d \<and> d \<noteq> ''/''"

lemma Clean_join:
  assumes "cleanDir d" "f \<noteq> []" "f \<noteq> ''.''" "f \<noteq> ''..''" "CHR ''/'' \<notin> set f"
  shows "pathJoin [d, f] = d @ ''/'' @ f"
proof -
  let ?p = "cleanParts True [] (splitByte (CHR ''/'') d)"
  obtain d' where d: "d = CHR ''/'' # d'" using assms(1) by (auto simp: cleanDir_def prefix_def)
  have c: "''/'' @ Join ?p ''/'' = d" using assms(1) by (simp add: cleanDir_def Clean_def d)
  then have ne: "?p \<noteq> []" using assms(1) by (auto simp: cleanDir_def)
  have "Clean (d @ ''/'' @ f) = ''/'' @ Join (?p @ [f]) ''/''"
    using assms(2-5) by (simp add: Clean_def d splitByte_append_sep splitByte_free cleanParts_snoc)
  also have "\<dots> = (''/'' @ Join ?p ''/'') @ ''/'' @ f" using ne by (simp add: Join_last_part)
  also have "\<dots> = d @ ''/'' @ f" unfolding c ..
  finally show ?thesis by (simp add: pathJoin_def Let_def d)
qed

lemma Materialize_path:
  assumes "Materialize os filename val w fs = (w', fs', r)" "cleanDir (fw_dir w)"
  shows "fw_dir w' = fw_dir w" and "\<not> below (fw_dir w) p \<Longrightarrow> fs' p = fs p"
    and "r = Inr path \<Longrightarrow> path = fw_dir w @ ''/'' @ filename \<and> fs' path = Some val \<and> fs path = None"
proof -
  have j: "safeBasename filename \<Longrightarrow> pathJoin [fw_dir w, filename] = fw_dir w @ ''/'' @ filename"
    using assms(2) by (intro Clean_join) (auto simp: safeBasename_def ContainsAny_def list_ex_iff)
  show "fw_dir w' = fw_dir w"
    using assms(1) by (auto simp: Materialize_def Let_def split: if_splits option.splits)
  show "\<not> below (fw_dir w) p \<Longrightarrow> fs' p = fs p"
    using assms(1) j by (auto simp: Materialize_def Let_def below_def split: if_splits option.splits)
  show "r = Inr path \<Longrightarrow> path = fw_dir w @ ''/'' @ filename \<and> fs' path = Some val \<and> fs path = None"
    using assms(1) j by (auto simp: Materialize_def Let_def split: if_splits option.splits)
qed

end
