(* ===== verification/Execution.thy ===== *)
theory Execution
  imports Runner Provider SecretStore FileWorkspace Scrub
begin

text \<open>
  The sealed-run path that the command line, the MCP server and the local API share:
  \<open>src/internal/execution/execution.go\<close>.  A command of the policy is looked up, its references and
  entries are resolved, file secrets are written to a private directory, and the runner is called.

  Everything outside is an argument: the answers of the operating system (\<open>runOS\<close>, \<open>workspaceOS\<close>),
  the provider's tools, the store of the project and the opener of the version-1 stores.
  \<open>resolved\<close> is a Go map, visited in the order of its keys.  Warnings on standard error are left out.

  The file system (\<open>fsys\<close>) is that of the directories of file secrets: what the child does to files, the audit log and the files of
  the vault are not part of it (the log entry is in the effects of the runner, the values in the state of the store).
\<close>

section \<open>Options\<close>

datatype executionError =
    XUntrusted ciError
  | XLookup policyError
  | XProvider providerError
  | XEnvironmentStore string
  | XActive envError
  | XEntryUnavailable string
  | XNoFilename string
  | XNotFileSecret string
  | XFileUnavailable string
  | XWorkspace filesError
  | XKeyUnavailable string
  | XAliases secretError
  | XRun runError
  | XNoArgv
  | XNoEnvironment
  | XEnvironmentUnavailable string

record 'o execOptions =
  xo_Environment :: string
  xo_Stdout :: 'o
  xo_Stderr :: 'o
  xo_Audit :: bool
  xo_SessionID :: string
  xo_AllowShell :: bool
  xo_DisableSeccomp :: bool
  xo_DisableEntropyScan :: bool
  xo_AllowPullRequestTarget :: bool
  xo_NoSeal :: bool
  xo_EmitGitHubMasks :: bool
  xo_AllowWorkspaceNetwork :: bool

record 's execEnv =
  xe_OS :: runOS
  xe_Files :: workspaceOS
  xe_CLI :: cliOS
  xe_Home :: "string option"
  xe_ReadFile :: "string \<Rightarrow> string + bytes"
  xe_Env :: "'s envEnv"
  xe_Open :: "string \<Rightarrow> string + 's envManager"
  xe_OpenSecrets :: "string \<Rightarrow> string \<Rightarrow> secretError + secretGet"

definition resolveSeccomp :: "policyFile \<Rightarrow> command \<Rightarrow> bool \<Rightarrow> bool" where
  "resolveSeccomp f cmd disableSeccomp = (if disableSeccomp then False else SeccompEnabled cmd (Some f))"

section \<open>Resolving the entries of a command\<close>

text \<open>What the loop over the aliases has produced so far; \<open>sv_Files\<close> is nil until a file secret is met.\<close>

record 's resolving =
  sv_Resolved :: "string gomap"
  sv_Files :: "fileWorkspace option"
  sv_FS :: fsys
  sv_Redact :: "string list"
  sv_Audit :: "secretUse list"
  sv_Manager :: "'s envManager"

definition zeroDecl :: secretDecl where
  "zeroDecl = \<lparr>sd_Env = [], sd_Store = [], sd_Allow = [], sd_Kind = [], sd_Filename = []\<rparr>"

definition startResolving :: "string gomap \<Rightarrow> fsys \<Rightarrow> 's envManager \<Rightarrow> 's resolving" where
  "startResolving resolved fs m =
     \<lparr>sv_Resolved = resolved, sv_Files = None, sv_FS = fs, sv_Redact = [], sv_Audit = [], sv_Manager = m\<rparr>"

text \<open>The entry that an alias stands for, and the name it has in the environment.\<close>

definition aliasEntry :: "policyFile \<Rightarrow> 's envManager \<Rightarrow> string \<Rightarrow> string \<Rightarrow> executionError + (string \<times> entry)" where
  "aliasEntry f m selected alias =
     (if UsesEnvironmentEntries (Some f) then
        (case EntryOf m selected alias of
           None \<Rightarrow> Err (XEntryUnavailable alias)
         | Some entry \<Rightarrow> Ok (alias, entry))
      else
        let decl = (case map_of (f_Secrets f) alias of None \<Rightarrow> zeroDecl | Some d \<Rightarrow> d) in
        case EntryOf m selected (sd_Env decl) of
          None \<Rightarrow> Err (XEntryUnavailable (sd_Env decl))
        | Some entry \<Rightarrow>
            Ok (sd_Env decl, entry\<lparr>ee_Kind := EffectiveKind decl, ee_Target := sd_Env decl, ee_Filename := sd_Filename decl\<rparr>))"

definition ensureWorkspace :: "workspaceOS \<Rightarrow> 's resolving \<Rightarrow> 's resolving \<times> (executionError + fileWorkspace)" where
  "ensureWorkspace os st =
     (case sv_Files st of
        Some w \<Rightarrow> (st, Ok w)
      | None \<Rightarrow> (case newFileWorkspace os (sv_FS st) of
          (fs, Inl err) \<Rightarrow> (st\<lparr>sv_FS := fs\<rparr>, Err (XWorkspace err))
        | (fs, Inr w) \<Rightarrow> (st\<lparr>sv_FS := fs, sv_Files := Some w\<rparr>, Ok w)))"

text \<open>
  A file secret.  The entry is read again from the manager, and its file name and target are used
  from here on, not those of the declaration.
\<close>

definition resolveFile :: "workspaceOS \<Rightarrow> 's envEnv \<Rightarrow> string \<Rightarrow> string \<Rightarrow> 's resolving \<Rightarrow> 's resolving \<times> executionError option" where
  "resolveFile os env selected entryName st =
     (case EntryOf (sv_Manager st) selected entryName of
        None \<Rightarrow> (st, Some (XNotFileSecret entryName))
      | Some entry \<Rightarrow>
          if ee_Kind entry \<noteq> EntryFile then (st, Some (XNotFileSecret entryName))
          else case GetBytes env selected entryName (sv_Manager st) of
            (m, Inl _) \<Rightarrow> (st\<lparr>sv_Manager := m\<rparr>, Some (XFileUnavailable entryName))
          | (m, Inr val) \<Rightarrow>
              (case ensureWorkspace os (st\<lparr>sv_Manager := m\<rparr>) of
                 (st, Inl err) \<Rightarrow> (st, Some err)
               | (st, Inr w) \<Rightarrow>
                   (case Materialize (wo_Mat os (ee_Filename entry)) (ee_Filename entry) val w (sv_FS st) of
                      (w, fs, Inl err) \<Rightarrow> (st\<lparr>sv_Files := Some w, sv_FS := fs\<rparr>, Some (XWorkspace err))
                    | (w, fs, Inr path) \<Rightarrow>
                        (st\<lparr>sv_Files := Some w, sv_FS := fs, sv_Resolved := mapPut (ee_Target entry) path (sv_Resolved st),
                            sv_Redact := sv_Redact st @ [val]\<rparr>, None))))"

definition resolveText :: "'s envEnv \<Rightarrow> string \<Rightarrow> string \<Rightarrow> string \<Rightarrow> 's resolving \<Rightarrow> 's resolving \<times> executionError option" where
  "resolveText env selected entryName target st =
     (case GetValue env selected entryName (sv_Manager st) of
        (m, Inl _) \<Rightarrow> (st\<lparr>sv_Manager := m\<rparr>, Some (XKeyUnavailable entryName))
      | (m, Inr val) \<Rightarrow> (st\<lparr>sv_Manager := m, sv_Resolved := mapPut target val (sv_Resolved st)\<rparr>, None))"

definition resolveAlias :: "policyFile \<Rightarrow> workspaceOS \<Rightarrow> 's envEnv \<Rightarrow> string \<Rightarrow> string \<Rightarrow> 's resolving \<Rightarrow>
    's resolving \<times> executionError option" where
  "resolveAlias f os env selected alias st =
     (case aliasEntry f (sv_Manager st) selected alias of
        Inl err \<Rightarrow> (st, Some err)
      | Inr (entryName, entry) \<Rightarrow>
          (let st = st\<lparr>sv_Audit := sv_Audit st @ [\<lparr>su_Name = alias, su_Kind = ee_Kind entry, su_Target = ee_Target entry\<rparr>]\<rparr> in
           if ee_Kind entry = EntryFile
           then (if ee_Filename entry = [] then (st, Some (XNoFilename entryName)) else resolveFile os env selected entryName st)
           else resolveText env selected entryName (ee_Target entry) st))"

fun resolveEntries :: "policyFile \<Rightarrow> workspaceOS \<Rightarrow> 's envEnv \<Rightarrow> string \<Rightarrow> string list \<Rightarrow> 's resolving \<Rightarrow>
    's resolving \<times> executionError option" where
  "resolveEntries f os env selected [] st = (st, None)"
| "resolveEntries f os env selected (alias # rest) st =
     (case resolveAlias f os env selected alias st of
        (st, Some err) \<Rightarrow> (st, Some err)
      | (st, None) \<Rightarrow> resolveEntries f os env selected rest st)"

definition selectEnvironment :: "'s envEnv \<Rightarrow> string \<Rightarrow> 's envManager \<Rightarrow> executionError + string" where
  "selectEnvironment env requested m =
     (if requested \<noteq> [] then Ok requested
      else case Active env m of Inl err \<Rightarrow> Err (XActive err) | Inr s \<Rightarrow> Ok (es_Name s))"

section \<open>Masks for workflow logs\<close>

definition escapeWorkflowData :: "string \<Rightarrow> string" where
  "escapeWorkflowData s =
     concat (List.map (\<lambda>c. if c = CHR ''%'' then ''%25'' else if c = CHR 0x0D then ''%0D''
                           else if c = newline then ''%0A'' else [c]) s)"

definition addMask :: "string \<Rightarrow> string list \<Rightarrow> string list" where
  "addMask v values = (if length v < MinSecretLen \<or> v \<in> set values then values else values @ [v])"

definition maskVariant :: "string \<Rightarrow> string list" where
  "maskVariant variant =
     variant #
     (if ContainsAny variant [CHR 0x0D, newline]
      then List.filter (\<lambda>line. length line \<ge> MinSecretLen)
             (List.map (\<lambda>line. TrimSuffix line [CHR 0x0D]) (splitByte newline variant))
      else [])"

text \<open>The lines that are printed.\<close>

definition emitGitHubMasks :: "string gomap \<Rightarrow> string list \<Rightarrow> string list" where
  "emitGitHubMasks resolved extra =
     (let values = sort (fold addMask (List.map snd resolved @ extra) []) in
      List.map (\<lambda>d. ''::add-mask::'' @ escapeWorkflowData d)
        (concat (List.map maskVariant (concat (List.map Variants values)))))"


section \<open>Run\<close>

text \<open>What a run did besides returning; \<open>xf_Run\<close> is the call of the runner, its options and its effects.\<close>

record ('s, 'o) execEffects =
  xf_Masks :: "string list"
  xf_FS :: fsys
  xf_Manager :: "'s envManager option"
  xf_Run :: "('o runOptions \<times> 'o runEffects) option"

text \<open>The options of the runner; \<open>cleanup\<close> is what removing the file secrets will answer.\<close>

definition runnerOptions :: "'o execOptions \<Rightarrow> string \<Rightarrow> bool \<Rightarrow> string gomap \<Rightarrow> string list \<Rightarrow> secretUse list \<Rightarrow>
    string option option \<Rightarrow> 'o runOptions" where
  "runnerOptions opts projectRoot seccompOn resolved redactVals auditUses cleanup =
     \<lparr>ro_Stdout = xo_Stdout opts, ro_Stderr = xo_Stderr opts, ro_Env = [], ro_Secrets = resolved,
      ro_RedactValues = redactVals, ro_AuditSecrets = auditUses, ro_Cleanup = cleanup, ro_WorkDir = projectRoot,
      ro_Seccomp = Some seccompOn, ro_DisableEntropyScan = xo_DisableEntropyScan opts,
      ro_AllowPullRequestTarget = xo_AllowPullRequestTarget opts, ro_NoSeal = xo_NoSeal opts,
      ro_Audit = xo_Audit opts, ro_SessionID = xo_SessionID opts, ro_AllowShell = xo_AllowShell opts\<rparr>"

text \<open>
  From the point where everything is resolved.  The runner removes the file secrets after the child
  has ended; the deferred \<open>Close\<close> removes them when the runner did not get so far.
\<close>

definition runResolved :: "('o, string) sink \<Rightarrow> 's execEnv \<Rightarrow> policyFile \<Rightarrow> command \<Rightarrow> string \<Rightarrow> 'o execOptions \<Rightarrow>
    string gomap \<Rightarrow> fileWorkspace option \<Rightarrow> fsys \<Rightarrow> string list \<Rightarrow> secretUse list \<Rightarrow> 's envManager option \<Rightarrow>
    (executionError + runResult) \<times> ('s, 'o) execEffects" where
  "runResolved wr x f cmd projectRoot opts resolved files fs redactVals auditUses m =
     (let r = wo_Close (xe_Files x);
          masks = (if xo_EmitGitHubMasks opts then emitGitHubMasks resolved redactVals else []);
          (closed, fsClosed, cleanupErr) = closeWorkspace r files fs;
          cleanup = (if files = None then None else Some cleanupErr);
          ropts = runnerOptions opts projectRoot (resolveSeccomp f cmd (xo_DisableSeccomp opts)) resolved redactVals auditUses cleanup;
          (res, rx) = Run wr (xe_OS x) cmd ropts;
          (_, fs, _) = (if rx_CleanedUp rx then closeWorkspace r closed fsClosed else closeWorkspace r files fs)
      in (case res of Inl err \<Rightarrow> Err (XRun err) | Inr v \<Rightarrow> Ok v,
          \<lparr>xf_Masks = masks, xf_FS = fs, xf_Manager = m, xf_Run = Some (ropts, rx)\<rparr>))"

text \<open>The branch of managed environments; an error still runs the deferred \<open>Close\<close>.\<close>

definition runManaged :: "('o, string) sink \<Rightarrow> 's execEnv \<Rightarrow> policyFile \<Rightarrow> command \<Rightarrow> string \<Rightarrow> 'o execOptions \<Rightarrow>
    string gomap \<Rightarrow> fsys \<Rightarrow> (executionError + runResult) \<times> ('s, 'o) execEffects" where
  "runManaged wr x f cmd projectRoot opts resolved fs =
     (let none = \<lparr>xf_Masks = [], xf_FS = fs, xf_Manager = None, xf_Run = None\<rparr> in
      case xe_Open x projectRoot of
        Inl err \<Rightarrow> (Err (XEnvironmentStore err), none)
      | Inr m \<Rightarrow> (case selectEnvironment (xe_Env x) (xo_Environment opts) m of
          Inl err \<Rightarrow> (Err err, none\<lparr>xf_Manager := Some m\<rparr>)
        | Inr selected \<Rightarrow>
            (case resolveEntries f (xe_Files x) (xe_Env x) selected (c_Secrets cmd) (startResolving resolved fs m) of
               (st, Some err) \<Rightarrow>
                 (Err err, \<lparr>xf_Masks = [], xf_FS = fst (snd (closeWorkspace (wo_Close (xe_Files x)) (sv_Files st) (sv_FS st))),
                            xf_Manager = Some (sv_Manager st), xf_Run = None\<rparr>)
             | (st, None) \<Rightarrow>
                 runResolved wr x f cmd projectRoot opts (sv_Resolved st) (sv_Files st) (sv_FS st) (sv_Redact st) (sv_Audit st)
                   (Some (sv_Manager st)))))"

definition usesManager :: "policyFile \<Rightarrow> 'o execOptions \<Rightarrow> bool" where
  "usesManager f opts \<longleftrightarrow>
     UsesEnvironmentEntries (Some f) \<or> xo_Environment opts \<noteq> [] \<or> f_EnvironmentSet f = ''active''"

text \<open>The references of the command, resolved by the provider of the policy.\<close>

definition resolveRefs :: "'s execEnv \<Rightarrow> policyFile \<Rightarrow> command \<Rightarrow> executionError + string gomap" where
  "resolveRefs x f cmd =
     (case newProvider (xe_Home x) (xe_ReadFile x) (f_Provider f) of
        Inl err \<Rightarrow> Err (XProvider err)
      | Inr p \<Rightarrow> (case ResolveAll (Resolve (xe_CLI x) (os_Environ (xe_OS x)) p) (c_Env cmd) of
          Inl err \<Rightarrow> Err (XProvider err)
        | Inr out \<Rightarrow> Ok (fold (\<lambda>(k, v). mapPut k v) out [])))"

definition executionRun :: "('o, string) sink \<Rightarrow> 's execEnv \<Rightarrow> policyFile \<Rightarrow> string \<Rightarrow> string \<Rightarrow> string \<Rightarrow> 'o execOptions \<Rightarrow>
    fsys \<Rightarrow> (executionError + runResult) \<times> ('s, 'o) execEffects" where
  "executionRun wr x f policyPath projectRoot commandID opts fs =
     (let none = \<lparr>xf_Masks = [], xf_FS = fs, xf_Manager = None, xf_Run = None\<rparr> in
      case CheckCITrust (os_Environ (xe_OS x)) (os_ReadEvent (xe_OS x)) (xo_AllowPullRequestTarget opts) of
        Some err \<Rightarrow> (Err (XUntrusted err), none)
      | None \<Rightarrow> (case Lookup f commandID of
          Inl err \<Rightarrow> (Err (XLookup err), none)
        | Inr cmd \<Rightarrow> (case resolveRefs x f cmd of
            Inl err \<Rightarrow> (Err err, none)
          | Inr resolved \<Rightarrow>
              if c_Secrets cmd = [] then runResolved wr x f cmd projectRoot opts resolved None fs [] [] None
              else if usesManager f opts then runManaged wr x f cmd projectRoot opts resolved fs
              else (case ResolveAliasesWithOpener f cmd (xe_OpenSecrets x policyPath) of
                      Inl err \<Rightarrow> (Err (XAliases err), none)
                    | Inr aliases \<Rightarrow>
                        runResolved wr x f cmd projectRoot opts (fold (\<lambda>(k, v). mapPut k v) aliases resolved) None fs [] [] None))))"

text \<open>The transient policy of a trusted workspace session: every entry of the environment is injected.\<close>

definition workspaceCommand :: "string list \<Rightarrow> string list \<Rightarrow> bool \<Rightarrow> command" where
  "workspaceCommand argv names allowNetwork =
     \<lparr>c_ID = ''workspace'', c_Argv = argv, c_Env = [], c_Secrets = names, c_TTL = 0, c_MaxBytes = 0,
      c_NoNetwork = False, c_AllowNetwork = allowNetwork, c_WorkDir = [], c_Seccomp = None\<rparr>"

definition workspacePolicy :: "command \<Rightarrow> policyFile" where
  "workspacePolicy cmd =
     \<lparr>f_Version = SupportedVersionV2, f_Provider = ''passthrough'', f_Commands = [cmd], f_EnvironmentSet = [],
      f_Secrets = [], f_SeccompDefault = None, f_AuditLog = [], f_AllowProposals = False, f_RequireAgentLeases = False\<rparr>"

definition RunWorkspace :: "('o, string) sink \<Rightarrow> 's execEnv \<Rightarrow> string \<Rightarrow> string \<Rightarrow> string list \<Rightarrow> 'o execOptions \<Rightarrow>
    fsys \<Rightarrow> (executionError + runResult) \<times> ('s, 'o) execEffects" where
  "RunWorkspace wr x projectRoot environment argv opts fs =
     (let none = \<lparr>xf_Masks = [], xf_FS = fs, xf_Manager = None, xf_Run = None\<rparr> in
      if argv = [] \<or> argv ! 0 = [] then (Err XNoArgv, none)
      else if environment = [] then (Err XNoEnvironment, none)
      else case xe_Open x projectRoot of
        Inl err \<Rightarrow> (Err (XEnvironmentStore err), none)
      | Inr m \<Rightarrow> (case SetOf m environment of
          None \<Rightarrow> (Err (XEnvironmentUnavailable environment), none)
        | Some s \<Rightarrow>
            if envExpired (xe_Env x) s then (Err (XEnvironmentUnavailable environment), none)
            else executionRun wr x
              (workspacePolicy (workspaceCommand argv (List.map ee_Name (es_Entries s)) (xo_AllowWorkspaceNetwork opts)))
              [] projectRoot ''workspace'' (opts\<lparr>xo_Environment := environment, xo_AllowShell := True\<rparr>) fs))"

end
