(* ===== verification/Execution_Props.thy ===== *)
theory Execution_Props
  imports Execution Runner_Props Scrub_Props
begin

text \<open>
  What a sealed run injects, what it leaves in the file system, and what it prints as masks
  (\<open>src/internal/execution\<close>).
\<close>

section \<open>Masks\<close>

text \<open>How the workflow runner reads the data of a command back.\<close>

fun unescapeWorkflowData :: "string \<Rightarrow> string" where
  "unescapeWorkflowData [] = []"
| "unescapeWorkflowData (c # s) =
     (if c = CHR ''%'' \<and> prefix ''25'' s then CHR ''%'' # unescapeWorkflowData (drop 2 s)
      else if c = CHR ''%'' \<and> prefix ''0D'' s then CHR 0x0D # unescapeWorkflowData (drop 2 s)
      else if c = CHR ''%'' \<and> prefix ''0A'' s then newline # unescapeWorkflowData (drop 2 s)
      else c # unescapeWorkflowData s)"

lemma unescape_workflow: "unescapeWorkflowData (escapeWorkflowData s) = s"
  by (induction s) (simp_all add: escapeWorkflowData_def)

lemma escape_one_line: "set (escapeWorkflowData s) \<inter> {CHR 0x0D, newline} = {}"
  by (induction s) (auto simp: escapeWorkflowData_def)

lemma set_addMask: "set (fold addMask vs acc) = set acc \<union> {v \<in> set vs. length v \<ge> MinSecretLen}"
  by (induction vs arbitrary: acc) (auto simp: addMask_def)

text \<open>
  What the masks have to cover: the values of eight bytes or more, their encodings, and the lines of these.  A
  line lies between line breaks or the ends; a carriage return before the break is not part of its text.
\<close>

definition maskedValues :: "string gomap \<Rightarrow> string list \<Rightarrow> string set" where
  "maskedValues resolved extra = {v \<in> snd ` set resolved \<union> set extra. length v \<ge> MinSecretLen}"

definition maskedForms :: "string \<Rightarrow> string set" where
  "maskedForms v = insert v ((set (b64forms v) \<union> {scrubPercent v True, scrubPercent v False} \<union>
     {x \<in> set (Base64Cores v) \<union> set (JSONEscapes v). MinSecretLen \<le> length x}) - {[]})"

definition rawLine :: "string \<Rightarrow> string \<Rightarrow> bool" where
  "rawLine r v \<longleftrightarrow> newline \<notin> set r \<and>
     (\<exists>pre post. v = pre @ r @ post \<and> (pre = [] \<or> last pre = newline) \<and> (post = [] \<or> hd post = newline))"

definition lineText :: "string \<Rightarrow> string" where
  "lineText r = (if r \<noteq> [] \<and> last r = CHR 0x0D then butlast r else r)"

text \<open>What the workflow runner registers when it reads the printed lines.\<close>

definition registeredMasks :: "string list \<Rightarrow> string set" where
  "registeredMasks printed = {unescapeWorkflowData d | d. ''::add-mask::'' @ d \<in> set printed}"

lemma set_Variants: "set (Variants v) = maskedForms v"
  unfolding Variants_def set_fold_addVariant maskedForms_def by auto

lemma splitByte_rawLine: "r \<in> set (splitByte newline v) \<longleftrightarrow> rawLine r v"
proof (induction "length v" arbitrary: v rule: less_induct)
  case less
  show ?case
  proof (cases "newline \<in> set v")
    case False
    then have "splitByte newline v = [v]" by (rule splitByte_free)
    moreover have "rawLine r v \<longleftrightarrow> r = v"
    proof
      assume "rawLine r v"
      then obtain pre post where v: "v = pre @ r @ post" "pre = [] \<or> last pre = newline" "post = [] \<or> hd post = newline"
        by (auto simp: rawLine_def)
      with False show "r = v" by (cases pre rule: rev_cases; cases post) auto
    next
      assume "r = v"
      with False show "rawLine r v" unfolding rawLine_def by (intro conjI exI [of _ "[]"]) simp_all
    qed
    ultimately show ?thesis by simp
  next
    case True
    then obtain a b where v: "v = a @ newline # b" "newline \<notin> set a" by (metis split_list_first)
    then have split: "splitByte newline v = a # splitByte newline b"
      by (simp add: splitByte_append_sep splitByte_free)
    have "rawLine r v \<longleftrightarrow> r = a \<or> rawLine r b"
    proof
      assume "rawLine r v"
      then obtain pre post where r: "newline \<notin> set r" "a @ newline # b = pre @ r @ post" "pre = [] \<or> last pre = newline"
        "post = [] \<or> hd post = newline"
        unfolding rawLine_def v by blast
      show "r = a \<or> rawLine r b"
      proof (cases pre)
        case Nil
        with r(2,1,4) v(2) have "r = a"
          by (cases post) (auto simp: append_eq_append_conv2 append_eq_Cons_conv Cons_eq_append_conv)
        then show ?thesis by simp
      next
        case (Cons c cs)
        then have last: "last pre = newline" "pre \<noteq> []" using r(3) by auto
        then obtain ps where pre: "pre = ps @ [newline]" by (metis append_butlast_last_id)
        have "\<exists>qs. pre = a @ newline # qs"
        proof -
          from r(2) pre have eq: "a @ newline # b = ps @ newline # (r @ post)" by simp
          have "length a \<le> length ps"
          proof (rule ccontr)
            assume "\<not> length a \<le> length ps"
            then have "(a @ newline # b) ! length ps \<in> set a" by (simp add: nth_append)
            then show False using eq v(2) by simp
          qed
          then have "prefix (a @ [newline]) (ps @ [newline])"
            using eq by (auto simp: prefix_def append_eq_append_conv2 append_eq_Cons_conv Cons_eq_append_conv)
          then show ?thesis using pre by (auto simp: prefix_def)
        qed
        then obtain qs where qs: "pre = a @ newline # qs" by blast
        with r(2) have "b = qs @ r @ post" by simp
        moreover have "qs = [] \<or> last qs = newline" using last(1) qs by (auto simp: last_append split: if_splits)
        ultimately show ?thesis using r(1,4) unfolding rawLine_def by blast
      qed
    next
      assume "r = a \<or> rawLine r b"
      then show "rawLine r v"
      proof
        assume "r = a"
        with v show ?thesis unfolding rawLine_def by (metis append_Nil list.sel(1))
      next
        assume "rawLine r b"
        then obtain pre post where "newline \<notin> set r" "b = pre @ r @ post" "pre = [] \<or> last pre = newline"
          "post = [] \<or> hd post = newline" by (auto simp: rawLine_def)
        with v(1) have "v = (a @ newline # pre) @ r @ post" "last (a @ newline # pre) = newline" by auto
        with \<open>newline \<notin> set r\<close> \<open>post = [] \<or> hd post = newline\<close> show ?thesis unfolding rawLine_def by blast
      qed
    qed
    with less [of b] v(1) split show ?thesis by simp
  qed
qed

lemma lineText_TrimSuffix: "TrimSuffix r [CHR 0x0D] = lineText r"
  by (cases r rule: rev_cases) (auto simp: TrimSuffix_def lineText_def suffix_def)

lemma set_maskVariant:
  "set (maskVariant w) = insert w {lineText r | r. rawLine r w \<and> MinSecretLen \<le> length (lineText r)}"
proof (cases "ContainsAny w [CHR 0x0D, newline]")
  case True
  then show ?thesis by (auto simp: maskVariant_def lineText_TrimSuffix splitByte_rawLine)
next
  case False
  then have free: "newline \<notin> set w" "CHR 0x0D \<notin> set w" by (auto simp: ContainsAny_def list_ex_iff)
  have "rawLine r w \<longleftrightarrow> r = w" for r using splitByte_rawLine [of r w] splitByte_free [OF free(1)] by auto
  moreover have "lineText w = w" using free(2) by (metis last_in_set lineText_def)
  ultimately show ?thesis using False by (auto simp: maskVariant_def)
qed

lemma set_emitGitHubMasks:
  "set (emitGitHubMasks resolved extra) = (\<lambda>d. ''::add-mask::'' @ escapeWorkflowData d) `
     (\<Union>v \<in> maskedValues resolved extra. \<Union>w \<in> maskedForms v. set (maskVariant w))"
proof -
  have vals: "set (fold addMask (List.map snd resolved @ extra) []) = maskedValues resolved extra"
    unfolding set_addMask by (auto simp: maskedValues_def)
  have "\<Union> (set ` set (List.map maskVariant (concat (List.map Variants (sort vs))))) =
      (\<Union>v \<in> set vs. \<Union>w \<in> maskedForms v. set (maskVariant w))" for vs
    by (auto simp: set_Variants)
  then show ?thesis
    unfolding emitGitHubMasks_def Let_def list.set_map [of "\<lambda>d. ''::add-mask::'' @ escapeWorkflowData d"] set_concat vals [symmetric]
    by (simp only:)
qed

text \<open>C21: The masks that the workflow runner registers are exactly those that are needed, and cannot be broken. For every value of
  eight bytes or more these are the value, its encodings, and the text of each line of eight bytes or more of
  any of these, whatever bytes they contain; no other mask is registered, and every printed command is one line.\<close>

theorem masks_exact:
  "registeredMasks (emitGitHubMasks resolved extra) =
     (\<Union>v \<in> maskedValues resolved extra. \<Union>w \<in> maskedForms v.
        insert w {lineText r | r. rawLine r w \<and> MinSecretLen \<le> length (lineText r)}) \<and>
   set (emitGitHubMasks resolved extra) \<subseteq> {line. prefix ''::add-mask::'' line \<and> set line \<inter> {CHR 0x0D, newline} = {}}"
proof
  have "registeredMasks (emitGitHubMasks resolved extra) =
      (\<Union>v \<in> maskedValues resolved extra. \<Union>w \<in> maskedForms v. set (maskVariant w))"
    unfolding registeredMasks_def set_emitGitHubMasks by (force simp: unescape_workflow)
  then show "registeredMasks (emitGitHubMasks resolved extra) =
     (\<Union>v \<in> maskedValues resolved extra. \<Union>w \<in> maskedForms v.
        insert w {lineText r | r. rawLine r w \<and> MinSecretLen \<le> length (lineText r)})"
    by (simp only: set_maskVariant)
  have "prefix ''::add-mask::'' (''::add-mask::'' @ escapeWorkflowData d)"
    "set (''::add-mask::'' @ escapeWorkflowData d) \<inter> {CHR 0x0D, newline} = {}" for d
    using escape_one_line [of d] by auto
  then show "set (emitGitHubMasks resolved extra) \<subseteq> {line. prefix ''::add-mask::'' line \<and> set line \<inter> {CHR 0x0D, newline} = {}}"
    unfolding set_emitGitHubMasks by blast
qed

section \<open>Files\<close>

lemma Run_ok_cleanup: "fst (Run wr os cmd opts) = Inr r \<Longrightarrow> ro_Cleanup opts \<noteq> Some (Some e)"
  by (auto simp: Run_def finishRun_def Let_def afterErrors_def split: sum.splits prod.splits if_splits option.splits)

lemma removeAll_below: "snd (removeAll r dir fs) = None \<Longrightarrow> below dir p \<Longrightarrow> fst (removeAll r dir fs) p = None"
  and removeAll_other: "\<not> below dir p \<Longrightarrow> fst (removeAll r dir fs) p = fs p"
  and removeAll_sub: "fst (removeAll r dir fs) p \<noteq> None \<Longrightarrow> fst (removeAll r dir fs) p = fs p"
  by (auto simp: removeAll_def split: removal.splits if_splits)

text \<open>
  The fresh directory is an absolute clean path with nothing below it.  A file system is reclaimed from
  another one if no file is new and each one that is gone lay in a removable remnant.
\<close>

definition tempDirOk :: "workspaceOS \<Rightarrow> fsys \<Rightarrow> bool" where
  "tempDirOk os fs \<longleftrightarrow>
     (case wo_MkdirTemp os of Inl _ \<Rightarrow> True | Inr dir \<Rightarrow> cleanDir dir \<and> (\<forall>p. below dir p \<longrightarrow> fs p = None))"

definition remnant :: "workspaceOS \<Rightarrow> string \<Rightarrow> bool" where
  "remnant os p \<longleftrightarrow>
     (\<exists>cache entries e. wo_CacheDir os = Some cache \<and> wo_ReadDir os = Some entries \<and> e \<in> set entries \<and>
        removableDir (wo_Alive os) (wo_Now os) e \<and> below (pathJoin [runBase cache, rd_Name e]) p)"

definition reclaimed :: "workspaceOS \<Rightarrow> fsys \<Rightarrow> fsys \<Rightarrow> bool" where
  "reclaimed os fs fs' \<longleftrightarrow> (\<forall>p. fs' p = fs p \<or> fs' p = None \<and> remnant os p)"

lemma reclaimed_refl [simp]: "reclaimed os fs fs" by (simp add: reclaimed_def)

lemma reclaimed_trans: "reclaimed os a b \<Longrightarrow> reclaimed os b c \<Longrightarrow> reclaimed os a c"
  unfolding reclaimed_def by metis

lemma reclaimed_temp: "reclaimed os fs fs' \<Longrightarrow> tempDirOk os fs \<Longrightarrow> tempDirOk os fs'"
  unfolding reclaimed_def tempDirOk_def by (auto split: sum.splits) metis

lemma cleanupStale_reclaimed:
  assumes "wo_CacheDir os = Some cache" "wo_ReadDir os = Some entries" "set es \<subseteq> set entries"
  shows "reclaimed os fs (cleanupStale (wo_Alive os) (wo_Now os) rm (runBase cache) es fs)"
  using assms(3)
proof (induction es arbitrary: fs)
  case (Cons e es)
  let ?fs = "if removableDir (wo_Alive os) (wo_Now os) e
    then fst (removeAll (rm (rd_Name e)) (pathJoin [runBase cache, rd_Name e]) fs) else fs"
  have "reclaimed os fs ?fs"
  proof (cases "removableDir (wo_Alive os) (wo_Now os) e")
    case True
    have "remnant os p" if "below (pathJoin [runBase cache, rd_Name e]) p" for p
      using assms(1,2) Cons.prems True that unfolding remnant_def by auto
    then show ?thesis using True unfolding reclaimed_def by (auto simp: removeAll_def split: removal.splits)
  qed simp
  moreover have "reclaimed os ?fs (cleanupStale (wo_Alive os) (wo_Now os) rm (runBase cache) es ?fs)"
    using Cons by simp
  ultimately show ?case
    unfolding cleanupStale_def fold.simps o_def by (rule reclaimed_trans)
qed (simp add: cleanupStale_def)

lemma newFileWorkspace_reclaimed:
  assumes "newFileWorkspace os fs = (fs', r)" "tempDirOk os fs"
  shows "reclaimed os fs fs'" and "r = Inr w \<Longrightarrow> wo_MkdirTemp os = Inr (fw_dir w) \<and> fw_created w = []"
proof -
  have fresh: "fst (removeAll rm dir fs1) = fs1" if "wo_MkdirTemp os = Inr dir" "reclaimed os fs fs1" for rm dir fs1
    using reclaimed_temp [OF that(2) assms(2)] that(1)
    by (auto simp: tempDirOk_def removeAll_def fun_eq_iff split: removal.splits)
  show "reclaimed os fs fs'"
    using assms(1) fresh cleanupStale_reclaimed [OF _ _ order_refl]
    by (auto simp: newFileWorkspace_def Let_def split: option.splits sum.splits)
  show "r = Inr w \<Longrightarrow> wo_MkdirTemp os = Inr (fw_dir w) \<and> fw_created w = []"
    using assms(1) by (auto simp: newFileWorkspace_def Let_def split: option.splits sum.splits)
qed

text \<open>Outside of the directory of the run, nothing changes but the remnants.\<close>

definition filesInv :: "workspaceOS \<Rightarrow> fsys \<Rightarrow> fileWorkspace option \<Rightarrow> fsys \<Rightarrow> bool" where
  "filesInv os fs0 files fs \<longleftrightarrow>
     (case files of
        None \<Rightarrow> reclaimed os fs0 fs
      | Some w \<Rightarrow> wo_MkdirTemp os = Inr (fw_dir w) \<and>
          (\<exists>fs1. reclaimed os fs0 fs1 \<and> (\<forall>p. \<not> below (fw_dir w) p \<longrightarrow> fs p = fs1 p)))"

lemma filesInv_close:
  assumes "filesInv os fs0 files fs" "tempDirOk os fs0" "closeWorkspace r files fs = (files', fs', err)"
  shows "err = None \<Longrightarrow> reclaimed os fs0 fs'" and "files \<noteq> None \<Longrightarrow> closeWorkspace r' files' fs' = (files', fs', None)"
    and "r = Removed \<Longrightarrow> err = None"
proof -
  show "err = None \<Longrightarrow> reclaimed os fs0 fs'"
  proof (cases files)
    case None
    with assms show ?thesis by (simp add: closeWorkspace_def filesInv_def)
  next
    case (Some w)
    with assms(1) obtain fs1 where w: "wo_MkdirTemp os = Inr (fw_dir w)" "reclaimed os fs0 fs1"
      "\<And>p. \<not> below (fw_dir w) p \<Longrightarrow> fs p = fs1 p" by (auto simp: filesInv_def)
    with assms(2) have d: "fw_dir w \<noteq> []" "\<And>p. below (fw_dir w) p \<Longrightarrow> fs0 p = None"
      by (auto simp: tempDirOk_def cleanDir_def)
    assume "err = None"
    with assms(3) Some d(1) have "snd (removeAll r (fw_dir w) fs) = None" "fs' = fst (removeAll r (fw_dir w) fs)"
      by (auto simp: closeWorkspace_def split: prod.splits)
    then show ?thesis
      using w(2,3) d(2) removeAll_below removeAll_other unfolding reclaimed_def by metis
  qed
  show "files \<noteq> None \<Longrightarrow> closeWorkspace r' files' fs' = (files', fs', None)"
    using assms(3) by (auto simp: closeWorkspace_def split: prod.splits if_splits)
  show "r = Removed \<Longrightarrow> err = None"
    using assms(3) by (auto simp: closeWorkspace_def removeAll_def split: prod.splits if_splits option.splits)
qed

section \<open>Resolving keeps the invariant of the files\<close>

abbreviation stFiles :: "workspaceOS \<Rightarrow> fsys \<Rightarrow> 's resolving \<Rightarrow> bool" where
  "stFiles os fs0 st \<equiv> filesInv os fs0 (sv_Files st) (sv_FS st)"

lemma ensureWorkspace_files:
  assumes "ensureWorkspace os st = (st', r)" "stFiles os fs0 st" "tempDirOk os fs0"
  shows "stFiles os fs0 st'" and "r = Inr w \<Longrightarrow> sv_Files st' = Some w"
proof -
  show "stFiles os fs0 st'"
  proof (cases "sv_Files st")
    case None
    obtain fs r' where n: "newFileWorkspace os (sv_FS st) = (fs, r')" by fastforce
    from None assms(2) have rec: "reclaimed os fs0 (sv_FS st)" by (simp add: filesInv_def)
    note new = newFileWorkspace_reclaimed [OF n reclaimed_temp [OF rec assms(3)]]
    from None n assms(1) show ?thesis
      using new reclaimed_trans [OF rec new(1)] None
      by (cases r') (auto simp: ensureWorkspace_def filesInv_def)
  next
    case (Some w)
    with assms(1,2) show ?thesis by (simp add: ensureWorkspace_def)
  qed
  show "r = Inr w \<Longrightarrow> sv_Files st' = Some w"
    using assms(1) by (auto simp: ensureWorkspace_def split: option.splits prod.splits sum.splits)
qed

lemma Materialize_files:
  assumes "Materialize mo filename val w fs = (w', fs', r)" "filesInv os fs0 (Some w) fs" "tempDirOk os fs0"
  shows "filesInv os fs0 (Some w') fs'"
proof -
  from assms(2) obtain fs1 where w: "wo_MkdirTemp os = Inr (fw_dir w)" "reclaimed os fs0 fs1"
      "\<And>p. \<not> below (fw_dir w) p \<Longrightarrow> fs p = fs1 p" by (auto simp: filesInv_def)
  with assms(3) have "cleanDir (fw_dir w)" by (simp add: tempDirOk_def)
  from Materialize_path(1,2) [OF assms(1) this] w show ?thesis unfolding filesInv_def by auto
qed

text \<open>A file secret was not read, or no directory could be made, or its file was written or not.\<close>

lemma resolveFile_cases:
  assumes "resolveFile os env selected name st = (st', r)"
  obtains (unread) m where "st' = st\<lparr>sv_Manager := m\<rparr>" "r \<noteq> None"
        "m = sv_Manager st \<or> m = fst (GetBytes env selected name (sv_Manager st))"
    | (nodir) m val err where "GetBytes env selected name (sv_Manager st) = (m, Inr val)"
        "ensureWorkspace os (st\<lparr>sv_Manager := m\<rparr>) = (st', Inl err)" "r = Some err"
    | (unwritten) e :: entry and m val st1 w w' fs' err where "GetBytes env selected name (sv_Manager st) = (m, Inr val)"
        "ensureWorkspace os (st\<lparr>sv_Manager := m\<rparr>) = (st1, Inr w)"
        "Materialize (wo_Mat os (ee_Filename e)) (ee_Filename e) val w (sv_FS st1) = (w', fs', Inl err)"
        "st' = st1\<lparr>sv_Files := Some w', sv_FS := fs'\<rparr>" "r = Some (XWorkspace err)"
    | (written) e :: entry and m val st1 w w' fs' path where "EntryOf (sv_Manager st) selected name = Some e" "ee_Kind e = EntryFile"
        "GetBytes env selected name (sv_Manager st) = (m, Inr val)"
        "ensureWorkspace os (st\<lparr>sv_Manager := m\<rparr>) = (st1, Inr w)"
        "Materialize (wo_Mat os (ee_Filename e)) (ee_Filename e) val w (sv_FS st1) = (w', fs', Inr path)"
        "st' = st1\<lparr>sv_Files := Some w', sv_FS := fs', sv_Resolved := mapPut (ee_Target e) path (sv_Resolved st1),
           sv_Redact := sv_Redact st1 @ [val]\<rparr>" "r = None"
proof (cases "\<exists>e. EntryOf (sv_Manager st) selected name = Some e \<and> ee_Kind e = EntryFile")
  case False
  with assms have "st' = st\<lparr>sv_Manager := sv_Manager st\<rparr>" "r \<noteq> None"
    by (auto simp: resolveFile_def split: option.splits if_splits)
  then show thesis by (rule unread) simp
next
  case True
  then obtain e where e: "EntryOf (sv_Manager st) selected name = Some e" "ee_Kind e = EntryFile" by blast
  obtain m v where g: "GetBytes env selected name (sv_Manager st) = (m, v)" by fastforce
  show thesis
  proof (cases v)
    case (Inl err)
    with assms e g have "st' = st\<lparr>sv_Manager := m\<rparr>" "r \<noteq> None" by (auto simp: resolveFile_def)
    then show thesis by (rule unread) (simp add: g)
  next
    case (Inr val)
    obtain st1 x where ws: "ensureWorkspace os (st\<lparr>sv_Manager := m\<rparr>) = (st1, x)" by fastforce
    show thesis
    proof (cases x)
      case (Inl err)
      with assms e g Inr ws show thesis by (intro nodir [of m val err]) (auto simp: resolveFile_def)
    next
      case (Inr w)
      obtain w' fs' y where mat: "Materialize (wo_Mat os (ee_Filename e)) (ee_Filename e) val w (sv_FS st1) = (w', fs', y)"
        by (cases "Materialize (wo_Mat os (ee_Filename e)) (ee_Filename e) val w (sv_FS st1)") auto
      show thesis
      proof (cases y)
        case (Inl err)
        with assms e g \<open>v = Inr val\<close> ws \<open>x = Inr w\<close> mat show thesis
          by (intro unwritten [of m val st1 w e w' fs' err]) (auto simp: resolveFile_def)
      next
        case (Inr path)
        with assms e g \<open>v = Inr val\<close> ws \<open>x = Inr w\<close> mat show thesis
          by (intro written [of e m val st1 w w' fs' path]) (auto simp: resolveFile_def)
      qed
    qed
  qed
qed

lemma resolveFile_files:
  assumes "resolveFile os env selected name st = (st', r)" "stFiles os fs0 st" "tempDirOk os fs0"
  shows "stFiles os fs0 st'"
proof -
  from assms(2) have same: "stFiles os fs0 (st\<lparr>sv_Manager := m\<rparr>)" for m by simp
  note ens = ensureWorkspace_files [OF _ same assms(3)]
  have ready: "filesInv os fs0 (Some w) (sv_FS st1)" if "ensureWorkspace os (st\<lparr>sv_Manager := m\<rparr>) = (st1, Inr w)" for m st1 w
    using ens [OF that] by auto
  from assms(1) show ?thesis
  proof (cases rule: resolveFile_cases)
    case (unwritten e m val st1 w w' fs' err)
    with Materialize_files [OF _ ready assms(3)] show ?thesis by simp
  next
    case (written e m val st1 w w' fs' path)
    with Materialize_files [OF _ ready assms(3)] show ?thesis by simp
  qed (use same ens in auto)
qed

lemma resolveAlias_files:
  assumes "resolveAlias f os env selected alias st = (st', r)" "stFiles os fs0 st" "tempDirOk os fs0"
  shows "stFiles os fs0 st'"
proof -
  have aud: "stFiles os fs0 (st\<lparr>sv_Audit := a\<rparr>)" for a using assms(2) by simp
  have text': "stFiles os fs0 st''" if "resolveText env selected n t st1 = (st'', r'')" "stFiles os fs0 st1" for n t st1 st'' r''
    using that by (auto simp: resolveText_def split: prod.splits sum.splits)
  show ?thesis
    using assms(1,2) resolveFile_files [OF _ aud assms(3)] text' [OF _ aud] aud
    by (auto simp: resolveAlias_def Let_def split: sum.splits if_splits)
qed

lemma resolveEntries_files:
  "resolveEntries f os env selected aliases st = (st', r) \<Longrightarrow> stFiles os fs0 st \<Longrightarrow> tempDirOk os fs0 \<Longrightarrow>
     stFiles os fs0 st'"
  by (induction f os env selected aliases st rule: resolveEntries.induct)
    (auto split: prod.splits option.splits dest: resolveAlias_files)

lemma runResolved_files:
  assumes "filesInv (xe_Files x) fs0 files fs" "tempDirOk (xe_Files x) fs0"
    and "runResolved wr x f cmd projectRoot opts resolved files fs red aud m = (res, fx)"
    and "wo_Close (xe_Files x) = Removed \<or> (\<exists>v. res = Inr v)"
  shows "reclaimed (xe_Files x) fs0 (xf_FS fx)"
proof -
  let ?r = "wo_Close (xe_Files x)"
  obtain files' fs' err where c: "closeWorkspace ?r files fs = (files', fs', err)" by (cases "closeWorkspace ?r files fs") auto
  note close = filesInv_close [OF assms(1,2) c]
  have fx: "xf_FS fx = fs'"
  proof (cases files)
    case None
    with c assms(3) show ?thesis
      by (auto simp: runResolved_def Let_def closeWorkspace_def split: prod.splits if_splits)
  next
    case (Some w)
    then have "closeWorkspace ?r files' fs' = (files', fs', None)" using close(2) by simp
    with c assms(3) show ?thesis by (auto simp: runResolved_def Let_def split: prod.splits if_splits)
  qed
  have "err = None"
  proof (cases "?r = Removed")
    case False
    with assms(4) obtain v where "res = Inr v" by blast
    with assms(3) c have ok: "fst (Run wr (xe_OS x) cmd (runnerOptions opts projectRoot
        (resolveSeccomp f cmd (xo_DisableSeccomp opts)) resolved red aud (if files = None then None else Some err))) = Inr v"
      by (auto simp: runResolved_def Let_def split: prod.splits sum.splits)
    from Run_ok_cleanup [OF ok] c show ?thesis
      by (cases err; cases files) (auto simp: closeWorkspace_def runnerOptions_def)
  qed (rule close(3))
  with close(1) fx show ?thesis by simp
qed

lemma runManaged_cases:
  assumes "runManaged wr x f cmd projectRoot opts resolved fs = (res, fx)"
  obtains (unopened) err where "res = Inl err" "xf_FS fx = fs" "xf_Run fx = None"
    | (unresolved) m selected st err where "xe_Open x projectRoot = Inr m"
        "resolveEntries f (xe_Files x) (xe_Env x) selected (c_Secrets cmd) (startResolving resolved fs m) = (st, Some err)"
        "res = Inl err" "xf_FS fx = fst (snd (closeWorkspace (wo_Close (xe_Files x)) (sv_Files st) (sv_FS st)))" "xf_Run fx = None"
    | (resolved) m selected st where "xe_Open x projectRoot = Inr m"
        "selectEnvironment (xe_Env x) (xo_Environment opts) m = Inr selected"
        "resolveEntries f (xe_Files x) (xe_Env x) selected (c_Secrets cmd) (startResolving resolved fs m) = (st, None)"
        "runResolved wr x f cmd projectRoot opts (sv_Resolved st) (sv_Files st) (sv_FS st) (sv_Redact st) (sv_Audit st)
           (Some (sv_Manager st)) = (res, fx)"
  using assms unfolding runManaged_def Let_def
  by (auto split: sum.split_asm prod.split_asm option.split_asm)

text \<open>C22: File secrets do not outlive the run. Whatever happens, be it an error while secrets are resolved, a
  refused start or a child that ended, no file exists afterwards that did not exist before, as long
  as the directory could be removed; and a run that reports success has removed it. A file that is
  gone lay in a directory of a run whose owner is dead, or that names no owner and is a day old.\<close>

theorem execution_files_removed:
  assumes "tempDirOk (xe_Files x) fs"
    and "executionRun wr x f policyPath projectRoot commandID opts fs = (res, fx)"
    and "wo_Close (xe_Files x) = Removed \<or> (\<exists>v. res = Inr v)"
  shows "\<forall>p. xf_FS fx p = fs p \<or>
    xf_FS fx p = None \<and>
    (\<exists>cache entries e. wo_CacheDir (xe_Files x) = Some cache \<and> wo_ReadDir (xe_Files x) = Some entries \<and> e \<in> set entries \<and>
       removableDir (wo_Alive (xe_Files x)) (wo_Now (xe_Files x)) e \<and> below (pathJoin [runBase cache, rd_Name e]) p)"
proof -
  let ?os = "xe_Files x"
  have start: "filesInv ?os fs None fs" by (simp add: filesInv_def)
  have managed: "reclaimed ?os fs (xf_FS fx)"
    if m: "runManaged wr x f cmd projectRoot opts resolved fs = (res, fx)" for cmd resolved
  proof -
    from m show ?thesis
    proof (cases rule: runManaged_cases)
      case (unresolved m selected st err)
      from resolveEntries_files [OF unresolved(2) _ assms(1)] start have "stFiles ?os fs st" by (simp add: startResolving_def)
      moreover obtain files' fs' err' where "closeWorkspace (wo_Close ?os) (sv_Files st) (sv_FS st) = (files', fs', err')"
        by (cases "closeWorkspace (wo_Close ?os) (sv_Files st) (sv_FS st)") auto
      ultimately show ?thesis using filesInv_close(1,3) [OF _ assms(1)] unresolved(3,4) assms(3) by fastforce
    next
      case (resolved m selected st)
      from resolveEntries_files [OF resolved(3) _ assms(1)] start have "stFiles ?os fs st" by (simp add: startResolving_def)
      from runResolved_files [OF this assms(1) resolved(4) assms(3)] show ?thesis .
    qed simp
  qed
  have "reclaimed ?os fs (xf_FS fx)"
    using assms(2) managed runResolved_files [OF start assms(1) _ assms(3)]
    by (auto simp: executionRun_def Let_def split: option.splits sum.splits if_splits)
  then show ?thesis unfolding reclaimed_def remnant_def .
qed

section \<open>What is injected\<close>

text \<open>
  What is relied on of the project's store: while it is in order (\<open>I\<close>), reading keeps it in order,
  changes nothing that it holds, and gives what it holds.  \<open>ProjectStore\<close> shows it of the encrypted vault.
\<close>

definition readsOk :: "'s valueStore \<Rightarrow> ('s \<Rightarrow> bool) \<Rightarrow> ('s \<Rightarrow> string \<Rightarrow> string \<Rightarrow> bytes option) \<Rightarrow> bool" where
  "readsOk st I view \<longleftrightarrow>
     (\<forall>s k v. I v \<longrightarrow> I (fst (vst_Get st s k v)) \<and> view (fst (vst_Get st s k v)) = view v \<and>
        (\<forall>x. snd (vst_Get st s k v) = Inr x \<longrightarrow> view v s k = Some x)) \<and>
     (\<forall>g. vst_GetBytes st = Some g \<longrightarrow>
        (\<forall>s k v. I v \<longrightarrow> I (fst (g s k v)) \<and> view (fst (g s k v)) = view v \<and>
           (\<forall>x. snd (g s k v) = Inr x \<longrightarrow> view v s k = Some x)))"

definition sameManager :: "('s \<Rightarrow> bool) \<Rightarrow> ('s \<Rightarrow> string \<Rightarrow> string \<Rightarrow> bytes option) \<Rightarrow> 's envManager \<Rightarrow> 's envManager \<Rightarrow> bool" where
  "sameManager I view m m' \<longleftrightarrow> mg_Meta m' = mg_Meta m \<and> view (mg_Values m') = view (mg_Values m) \<and> I (mg_Values m')"

definition heldValue :: "'s envEnv \<Rightarrow> ('s \<Rightarrow> string \<Rightarrow> string \<Rightarrow> bytes option) \<Rightarrow> 's envManager \<Rightarrow> string \<Rightarrow> string \<Rightarrow> bytes option" where
  "heldValue env view m selected name = view (mg_Values m) (envScope (ev_Identity env) (mg_Meta m) selected) name"

lemma liftGet_split: "liftGet m r = (m', x) \<longleftrightarrow>
    m' = m\<lparr>mg_Values := fst r\<rparr> \<and> x = (case snd r of Inl e \<Rightarrow> Inl (StoreErr e) | Inr v \<Rightarrow> Inr v)"
  by (auto simp: liftGet_def)

lemma GetValue_held:
  assumes "readsOk (ev_Store env) I view" "I (mg_Values m)" "GetValue env selected name m = (m', r)"
  shows "sameManager I view m m'" and "r = Inr v \<Longrightarrow> heldValue env view m selected name = Some v"
  using assms by (auto simp: GetValue_def readsOk_def sameManager_def heldValue_def liftGet_split split: option.splits sum.splits)

lemma GetBytes_held:
  assumes "readsOk (ev_Store env) I view" "I (mg_Values m)" "GetBytes env selected name m = (m', r)"
  shows "sameManager I view m m'" and "r = Inr v \<Longrightarrow> heldValue env view m selected name = Some v"
  using assms by (auto simp: GetBytes_def readsOk_def sameManager_def heldValue_def liftGet_split Let_def split: option.splits sum.splits)

lemma sameManager_inv: "sameManager I view m m' \<Longrightarrow> I (mg_Values m')"
  by (simp add: sameManager_def)

lemma sameManager_read:
  assumes "sameManager I view m m'"
  shows "EntryOf m' selected name = EntryOf m selected name" "aliasEntry f m' selected alias = aliasEntry f m selected alias"
    "heldValue env view m' selected name = heldValue env view m selected name"
  using assms by (simp_all add: sameManager_def EntryOf_def SetOf_def aliasEntry_def heldValue_def cong: option.case_cong)

text \<open>What an alias of the command gives: a variable and its value, from the entry that it stands for.\<close>

definition managedValue :: "'s envEnv \<Rightarrow> ('s \<Rightarrow> string \<Rightarrow> string \<Rightarrow> bytes option) \<Rightarrow> policyFile \<Rightarrow> 's envManager \<Rightarrow> string \<Rightarrow>
    string \<Rightarrow> string list \<Rightarrow> string \<Rightarrow> string \<Rightarrow> bool" where
  "managedValue env view f m selected alias red k v \<longleftrightarrow>
     (case aliasEntry f m selected alias of
        Inl _ \<Rightarrow> False
      | Inr (name, e) \<Rightarrow>
        (if ee_Kind e = EntryFile
         then \<exists>e' content dir. EntryOf m selected name = Some e' \<and> ee_Kind e' = EntryFile \<and> k = ee_Target e' \<and>
                heldValue env view m selected name = Some content \<and> content \<in> set red \<and>
                safeBasename (ee_Filename e') \<and> v = pathJoin [dir, ee_Filename e']
         else k = ee_Target e \<and> heldValue env view m selected name = Some v))"

lemma managedValue_mono: "managedValue env view f m selected alias red k v \<Longrightarrow> set red \<subseteq> set red' \<Longrightarrow>
    managedValue env view f m selected alias red' k v"
  by (cases "aliasEntry f m selected alias") (auto simp: managedValue_def split: if_splits)

lemma sameManager_trans: "sameManager I view a b \<Longrightarrow> sameManager I view b c \<Longrightarrow> sameManager I view a c"
  by (simp add: sameManager_def)

lemma ensureWorkspace_keeps:
  "ensureWorkspace os st = (st', r) \<Longrightarrow> sv_Manager st' = sv_Manager st \<and> sv_Resolved st' = sv_Resolved st \<and>
     sv_Redact st' = sv_Redact st \<and> sv_Audit st' = sv_Audit st"
  by (auto simp: ensureWorkspace_def split: option.splits prod.splits sum.splits)

lemma Materialize_Inr:
  "Materialize mo filename val w fs = (w', fs', Inr path) \<Longrightarrow> safeBasename filename \<and> path = pathJoin [fw_dir w, filename]"
  by (auto simp: Materialize_def Let_def split: if_splits option.splits)

lemma resolveAlias_ok:
  assumes "resolveAlias f os env selected alias st = (st', None)" "readsOk (ev_Store env) I view"
    and "sameManager I view m (sv_Manager st)"
  obtains k v u where "sameManager I view m (sv_Manager st')" "sv_Resolved st' = mapPut k v (sv_Resolved st)"
    "managedValue env view f m selected alias (sv_Redact st') k v" "set (sv_Redact st) \<subseteq> set (sv_Redact st')"
    "sv_Audit st' = sv_Audit st @ [u]" "su_Name u = alias"
proof -
  note rd = sameManager_read [OF assms(3)]
  obtain name e where a: "aliasEntry f m selected alias = Inr (name, e)"
    using assms(1) by (auto simp: resolveAlias_def rd split: sum.splits)
  let ?u = "\<lparr>su_Name = alias, su_Kind = ee_Kind e, su_Target = ee_Target e\<rparr>"
  let ?st = "st\<lparr>sv_Audit := sv_Audit st @ [?u]\<rparr>"
  show thesis
  proof (cases "ee_Kind e = EntryFile")
    case True
    with assms(1) a have "resolveFile os env selected name ?st = (st', None)"
      by (auto simp: resolveAlias_def rd Let_def split: if_splits)
    then show thesis
    proof (cases rule: resolveFile_cases)
      case (written e' m' val st1 w w' fs' path)
      note g = GetBytes_held [OF assms(2) _ written(3), simplified, OF sameManager_inv [OF assms(3)]]
      have st1: "sv_Manager st1 = m'" "sv_Resolved st1 = sv_Resolved st" "sv_Redact st1 = sv_Redact st"
        "sv_Audit st1 = sv_Audit st @ [?u]"
        using ensureWorkspace_keeps [OF written(4)] by simp_all
      have "managedValue env view f m selected alias (sv_Redact st1 @ [val]) (ee_Target e') path"
        unfolding managedValue_def using a True written(1,2) g(2) Materialize_Inr [OF written(5)]
        by (auto simp: rd)
      moreover have "sameManager I view m m'" using sameManager_trans [OF assms(3)] g(1) by simp
      ultimately show thesis
        by (intro that [of "ee_Target e'" path ?u]) (simp_all add: written(6) st1 subset_insertI)
    qed auto
  next
    case False
    with assms(1) a have "resolveText env selected name (ee_Target e) ?st = (st', None)"
      by (auto simp: resolveAlias_def rd Let_def split: if_splits)
    then obtain m' v where g: "GetValue env selected name (sv_Manager st) = (m', Inr v)"
      and st': "st' = ?st\<lparr>sv_Manager := m', sv_Resolved := mapPut (ee_Target e) v (sv_Resolved st)\<rparr>"
      by (auto simp: resolveText_def split: prod.splits sum.splits)
    note h = GetValue_held [OF assms(2) sameManager_inv [OF assms(3)] g]
    have "managedValue env view f m selected alias (sv_Redact st) (ee_Target e) v"
      unfolding managedValue_def using a False h(2) by (auto simp: rd)
    then show thesis
      using sameManager_trans [OF assms(3) h(1)] by (intro that [of "ee_Target e" v ?u]) (simp_all add: st')
  qed
qed

text \<open>The loop over all aliases: what is new in the map comes from one of them, and each has its variable.\<close>

definition resolvedOk :: "'s envEnv \<Rightarrow> ('s \<Rightarrow> string \<Rightarrow> string \<Rightarrow> bytes option) \<Rightarrow> policyFile \<Rightarrow> 's envManager \<Rightarrow> string \<Rightarrow>
    string list \<Rightarrow> 's resolving \<Rightarrow> 's resolving \<Rightarrow> bool" where
  "resolvedOk env view f m selected aliases st st' \<longleftrightarrow>
     set (sv_Redact st) \<subseteq> set (sv_Redact st') \<and>
     (\<forall>k v. (k, v) \<in> set (sv_Resolved st') \<longrightarrow> (k, v) \<in> set (sv_Resolved st) \<or>
        (\<exists>a \<in> set aliases. managedValue env view f m selected a (sv_Redact st') k v)) \<and>
     fst ` set (sv_Resolved st) \<subseteq> fst ` set (sv_Resolved st') \<and>
     (\<forall>a \<in> set aliases. \<exists>k v. managedValue env view f m selected a (sv_Redact st') k v \<and> k \<in> fst ` set (sv_Resolved st')) \<and>
     List.map su_Name (sv_Audit st') = List.map su_Name (sv_Audit st) @ aliases"

lemma resolvedOk_Cons:
  assumes step: "sv_Resolved st1 = mapPut k v (sv_Resolved st)" "managedValue env view f m selected a (sv_Redact st1) k v"
      "set (sv_Redact st) \<subseteq> set (sv_Redact st1)" "sv_Audit st1 = sv_Audit st @ [u]" "su_Name u = a"
    and rest: "resolvedOk env view f m selected aliases st1 st'"
  shows "resolvedOk env view f m selected (a # aliases) st st'"
proof -
  have red: "set (sv_Redact st1) \<subseteq> set (sv_Redact st')" using rest by (simp add: resolvedOk_def)
  note mv = managedValue_mono [OF step(2) red]
  have keys: "insert k (fst ` set (sv_Resolved st)) \<subseteq> fst ` set (sv_Resolved st')"
    using rest by (simp add: resolvedOk_def step(1) mapPut_keys)
  have old: "(k', v') \<in> set (sv_Resolved st) \<or> (\<exists>b \<in> set (a # aliases). managedValue env view f m selected b (sv_Redact st') k' v')"
    if "(k', v') \<in> set (sv_Resolved st')" for k' v'
    using rest that mv mapPut_set [of k v "sv_Resolved st"] unfolding resolvedOk_def step(1) by fastforce
  have each: "\<exists>k v. managedValue env view f m selected b (sv_Redact st') k v \<and> k \<in> fst ` set (sv_Resolved st')"
    if "b \<in> set (a # aliases)" for b
    using rest that mv keys unfolding resolvedOk_def by (metis insert_subset set_ConsD)
  show ?thesis
    using red step(3-5) keys old each rest unfolding resolvedOk_def by (intro conjI) auto
qed

lemma resolveEntries_ok:
  assumes "resolveEntries f os env selected aliases st = (st', None)" "readsOk (ev_Store env) I view"
    and "sameManager I view m (sv_Manager st)"
  shows "resolvedOk env view f m selected aliases st st'"
  using assms
proof (induction aliases arbitrary: st)
  case Nil
  then show ?case by (simp add: resolvedOk_def)
next
  case (Cons a aliases)
  from Cons.prems(1) obtain st1 where st1: "resolveAlias f os env selected a st = (st1, None)"
    "resolveEntries f os env selected aliases st1 = (st', None)"
    by (auto split: prod.splits option.splits)
  from resolveAlias_ok [OF st1(1) Cons.prems(2,3)] obtain k v u where step:
    "sameManager I view m (sv_Manager st1)" "sv_Resolved st1 = mapPut k v (sv_Resolved st)"
    "managedValue env view f m selected a (sv_Redact st1) k v" "set (sv_Redact st) \<subseteq> set (sv_Redact st1)"
    "sv_Audit st1 = sv_Audit st @ [u]" "su_Name u = a" .
  show ?case by (rule resolvedOk_Cons [OF step(2-6)]) (rule Cons.IH [OF st1(2) Cons.prems(2) step(1)])
qed

text \<open>A value of the provider, and one of a version-1 store.\<close>

definition providerValue :: "'s execEnv \<Rightarrow> policyFile \<Rightarrow> command \<Rightarrow> string \<Rightarrow> string \<Rightarrow> bool" where
  "providerValue x f cmd k v \<longleftrightarrow>
     (\<exists>p ref. newProvider (xe_Home x) (xe_ReadFile x) (f_Provider f) = Inr p \<and> (k, ref) \<in> set (c_Env cmd) \<and>
        Resolve (xe_CLI x) (os_Environ (xe_OS x)) p ref = Inr v)"

definition storedValue :: "'s execEnv \<Rightarrow> policyFile \<Rightarrow> command \<Rightarrow> string \<Rightarrow> string \<Rightarrow> string \<Rightarrow> bool" where
  "storedValue x f cmd policyPath k v \<longleftrightarrow>
     (\<exists>alias \<in> set (c_Secrets cmd). \<exists>decl store. map_of (f_Secrets f) alias = Some decl \<and> sd_Env decl = k \<and>
        xe_OpenSecrets x policyPath (sd_Store decl) = Inr store \<and> store alias = Inr v)"

text \<open>The version-1 stores: every alias has a declaration and a value, and the variable that it declares is set.\<close>

definition aliasStored :: "'s execEnv \<Rightarrow> policyFile \<Rightarrow> string \<Rightarrow> string gomap \<Rightarrow> string \<Rightarrow> bool" where
  "aliasStored x f policyPath out alias \<longleftrightarrow>
     (\<exists>decl store v. map_of (f_Secrets f) alias = Some decl \<and> xe_OpenSecrets x policyPath (sd_Store decl) = Inr store \<and>
        store alias = Inr v \<and> sd_Env decl \<in> fst ` set out)"

lemma aliasStored_mono: "aliasStored x f policyPath out alias \<Longrightarrow> fst ` set out \<subseteq> fst ` set out' \<Longrightarrow> aliasStored x f policyPath out' alias"
  unfolding aliasStored_def by blast

lemma resolveAliases_complete:
  assumes "resolveAliases f (xe_OpenSecrets x policyPath) stores aliases out = Inr out'"
    and "\<And>r store. map_of stores r = Some store \<Longrightarrow> xe_OpenSecrets x policyPath r = Inr store"
  shows "fst ` set out \<subseteq> fst ` set out' \<and> (\<forall>alias \<in> set aliases. aliasStored x f policyPath out' alias)"
  using assms
proof (induction aliases arbitrary: stores out)
  case (Cons a aliases)
  from Cons.prems(1) obtain decl store stores' val where a: "map_of (f_Secrets f) a = Some decl"
    and st: "(case map_of stores (sd_Store decl) of
                   Some store \<Rightarrow> Ok (store, stores)
                 | None \<Rightarrow> (case xe_OpenSecrets x policyPath (sd_Store decl) of
                     Inl err \<Rightarrow> Err (OpeningStore a err)
                   | Inr store \<Rightarrow> Ok (store, (sd_Store decl, store) # stores))) = Inr (store, stores')"
    and val: "store a = Inr val"
    and rest: "resolveAliases f (xe_OpenSecrets x policyPath) stores' aliases (mapPut (sd_Env decl) val out) = Inr out'"
    by (auto split: option.split_asm sum.split_asm prod.split_asm secretError.split_asm)
  have opened: "xe_OpenSecrets x policyPath (sd_Store decl) = Inr store"
    "\<And>r s. map_of stores' r = Some s \<Longrightarrow> xe_OpenSecrets x policyPath r = Inr s"
    using st Cons.prems(2) by (auto split: option.split_asm sum.split_asm if_splits)
  note ih = Cons.IH [OF rest opened(2)]
  have keys: "insert (sd_Env decl) (fst ` set out) \<subseteq> fst ` set out'" using ih by (simp add: mapPut_keys)
  then have "aliasStored x f policyPath out' a" using a opened(1) val unfolding aliasStored_def by blast
  with keys ih show ?case by simp
qed simp

lemma ResolveAll_sound: "ResolveAll resolve refs = Inr out \<Longrightarrow> (k, v) \<in> set out \<Longrightarrow>
    \<exists>ref. (k, ref) \<in> set refs \<and> resolve ref = Inr v"
proof (induction refs arbitrary: out)
  case (Cons r refs)
  then show ?case by (cases r) (fastforce split: sum.split_asm)
qed simp

lemma ResolveAll_keys: "ResolveAll resolve refs = Inr out \<Longrightarrow> List.map fst out = List.map fst refs"
proof (induction refs arbitrary: out)
  case (Cons r refs)
  then show ?case by (cases r) (auto split: sum.split_asm)
qed simp

lemma resolveRefs_ok:
  assumes "resolveRefs x f cmd = Inr resolved"
  shows "(k, v) \<in> set resolved \<Longrightarrow> providerValue x f cmd k v" and "fst ` set resolved = fst ` set (c_Env cmd)"
proof -
  from assms obtain p out where p: "newProvider (xe_Home x) (xe_ReadFile x) (f_Provider f) = Inr p"
    "ResolveAll (Resolve (xe_CLI x) (os_Environ (xe_OS x)) p) (c_Env cmd) = Inr out"
    "resolved = fold (\<lambda>(k, v). mapPut k v) out []"
    by (auto simp: resolveRefs_def split: sum.splits)
  show "fst ` set resolved = fst ` set (c_Env cmd)"
    using ResolveAll_keys [OF p(2), THEN arg_cong, of set] fold_mapPut_keys [of out "[]"] p(3) by simp
  assume "(k, v) \<in> set resolved"
  with fold_mapPut_set [of out "[]"] p(3) have "(k, v) \<in> set out" by auto
  with ResolveAll_sound [OF p(2)] p(1) show "providerValue x f cmd k v" by (auto simp: providerValue_def)
qed

lemma runResolved_Run:
  assumes "runResolved wr x f cmd projectRoot opts resolved files fs red aud m = (res, fx)"
  obtains ropts where "xf_Run fx = Some (ropts, snd (Run wr (xe_OS x) cmd ropts))" "ro_Secrets ropts = resolved"
    "ro_RedactValues ropts = red" "ro_AuditSecrets ropts = aud"
    "ro_AllowPullRequestTarget ropts = xo_AllowPullRequestTarget opts"
    "res = (case fst (Run wr (xe_OS x) cmd ropts) of Inl e \<Rightarrow> Inl (XRun e) | Inr v \<Rightarrow> Inr v)"
proof -
  obtain files' fs' err where c: "closeWorkspace (wo_Close (xe_Files x)) files fs = (files', fs', err)"
    by (cases "closeWorkspace (wo_Close (xe_Files x)) files fs") auto
  show thesis
    by (rule that [of "runnerOptions opts projectRoot (resolveSeccomp f cmd (xo_DisableSeccomp opts)) resolved red aud
          (if files = None then None else Some err)"])
      (use assms c in \<open>auto simp: runResolved_def Let_def runnerOptions_def split: prod.splits\<close>)
qed

text \<open>C23: Only what the policy declares is injected, and all of it. When the runner is called, it is for a command of the
  policy and an event that is trusted; every variable it is given has a value of the provider under a reference of
  the command, or of an entry or declaration that the command names; none of the command's references is missing,
  nor any of its entries (of a managed environment) or of its aliases (each has a declaration and a stored value, and
  the variable that the declaration names is set); the entries of an environment are on record for the audit log. The contents of a file
  secret, of which the variable has only the path, are among the values to redact. The project's store is one that
  reads back what it holds without changing it, as long as it is in order (\<open>I\<close>), and is in order when it is opened.\<close>

theorem execution_injects_declared:
  assumes "readsOk (ev_Store (xe_Env x)) I view" "\<forall>m. xe_Open x projectRoot = Inr m \<longrightarrow> I (mg_Values m)"
    and "executionRun wr x f policyPath projectRoot commandID opts fs = (res, fx)" "xf_Run fx = Some (ropts, rx)"
  shows "\<exists>cmd. Lookup f commandID = Inr cmd \<and> rx = snd (Run wr (xe_OS x) cmd ropts) \<and>
    trustedCI (os_Environ (xe_OS x)) (os_ReadEvent (xe_OS x)) (xo_AllowPullRequestTarget opts) \<and>
    fst ` set (c_Env cmd) \<subseteq> fst ` set (ro_Secrets ropts) \<and>
    (if c_Secrets cmd \<noteq> [] \<and> usesManager f opts
     then \<exists>m selected. xe_Open x projectRoot = Inr m \<and>
       selectEnvironment (xe_Env x) (xo_Environment opts) m = Inr selected \<and>
       (\<forall>k v. (k, v) \<in> set (ro_Secrets ropts) \<longrightarrow> providerValue x f cmd k v \<or>
          (\<exists>a \<in> set (c_Secrets cmd). managedValue (xe_Env x) view f m selected a (ro_RedactValues ropts) k v)) \<and>
       (\<forall>a \<in> set (c_Secrets cmd). \<exists>k v. managedValue (xe_Env x) view f m selected a (ro_RedactValues ropts) k v \<and>
          k \<in> fst ` set (ro_Secrets ropts)) \<and>
       List.map su_Name (ro_AuditSecrets ropts) = c_Secrets cmd
     else (\<forall>k v. (k, v) \<in> set (ro_Secrets ropts) \<longrightarrow> providerValue x f cmd k v \<or> storedValue x f cmd policyPath k v) \<and>
       (\<forall>a \<in> set (c_Secrets cmd). aliasStored x f policyPath (ro_Secrets ropts) a))"
proof -
  let ?direct = "\<lambda>cmd resolved. runResolved wr x f cmd projectRoot opts resolved None fs [] [] None = (res, fx)"
  from assms(3,4) obtain cmd resolved where c: "Lookup f commandID = Inr cmd" "resolveRefs x f cmd = Inr resolved"
    and ci: "CheckCITrust (os_Environ (xe_OS x)) (os_ReadEvent (xe_OS x)) (xo_AllowPullRequestTarget opts) = None"
    and how: "if c_Secrets cmd = [] then ?direct cmd resolved
      else if usesManager f opts then runManaged wr x f cmd projectRoot opts resolved fs = (res, fx)
      else \<exists>aliases. ResolveAliasesWithOpener f cmd (xe_OpenSecrets x policyPath) = Inr aliases \<and>
        ?direct cmd (fold (\<lambda>(k, v). mapPut k v) aliases resolved)"
    by (auto simp: executionRun_def Let_def split: option.split_asm sum.split_asm if_split_asm)
  note refs = resolveRefs_ok [OF c(2)]
  have ci: "trustedCI (os_Environ (xe_OS x)) (os_ReadEvent (xe_OS x)) (xo_AllowPullRequestTarget opts)"
    using ci CheckCITrust_None by blast
  have direct: "rx = snd (Run wr (xe_OS x) cmd ropts) \<and> ro_Secrets ropts = out" if "?direct cmd out" for out
    using that by (rule runResolved_Run) (use assms(4) in auto)
  show ?thesis
  proof (cases "c_Secrets cmd = []")
    case True
    with how direct [of resolved] c(1) ci refs show ?thesis by auto
  next
    case nonempty: False
    show ?thesis
    proof (cases "usesManager f opts")
      case True
      with nonempty how have "runManaged wr x f cmd projectRoot opts resolved fs = (res, fx)" by simp
      then show ?thesis
      proof (cases rule: runManaged_cases)
        case (resolved m selected st)
        have "sameManager I view m (sv_Manager (startResolving resolved fs m))" 
          using assms(2) resolved(1) by (simp add: sameManager_def startResolving_def)
        note ok = resolveEntries_ok [OF resolved(3) assms(1) this]
        from resolved(4) have run: "rx = snd (Run wr (xe_OS x) cmd ropts)" "ro_Secrets ropts = sv_Resolved st"
          "ro_RedactValues ropts = sv_Redact st" "ro_AuditSecrets ropts = sv_Audit st"
          by (rule runResolved_Run; use assms(4) in auto)+
        have new: "providerValue x f cmd k v \<or>
            (\<exists>a \<in> set (c_Secrets cmd). managedValue (xe_Env x) view f m selected a (sv_Redact st) k v)"
          if "(k, v) \<in> set (sv_Resolved st)" for k v
          using ok that refs(1) unfolding resolvedOk_def startResolving_def by auto
        show ?thesis
          using c(1) ci nonempty True resolved(1,2) ok new refs(2) unfolding resolvedOk_def run
          by (intro exI [of _ cmd]) (auto simp: startResolving_def)
      qed (use assms(4) in auto)
    next
      case False
      with nonempty how obtain aliases where al: "ResolveAliasesWithOpener f cmd (xe_OpenSecrets x policyPath) = Inr aliases"
        "?direct cmd (fold (\<lambda>(k, v). mapPut k v) aliases resolved)" by auto
      have "storedValue x f cmd policyPath k v" if "(k, v) \<in> set aliases" for k v
        using resolveAliases_sound [OF al(1) [unfolded ResolveAliasesWithOpener_def] _ that] by (simp add: storedValue_def)
      moreover have "aliasStored x f policyPath (ro_Secrets ropts) a" if "a \<in> set (c_Secrets cmd)" for a
      proof -
        have "aliasStored x f policyPath aliases a"
          using resolveAliases_complete [OF al(1) [unfolded ResolveAliasesWithOpener_def]] that by simp
        then show ?thesis by (rule aliasStored_mono) (simp add: direct [OF al(2)] fold_mapPut_keys)
      qed
      ultimately show ?thesis
        using direct [OF al(2)] c(1) ci refs False nonempty fold_mapPut_set [of aliases resolved]
          fold_mapPut_keys [of aliases resolved]
        by (intro exI [of _ cmd]) auto
    qed
  qed
qed

section \<open>An example\<close>

definition listStore :: "((string \<times> string) list) valueStore" where
  "listStore = \<lparr>vst_Set = (\<lambda>scope key v vs. ((key, v) # vs, None)),
     vst_Get = (\<lambda>scope key vs. (vs, case map_of vs key of None \<Rightarrow> Inl StoreMissing | Some v \<Rightarrow> Inr v)),
     vst_Delete = (\<lambda>scope key vs. (List.filter (\<lambda>kv. fst kv \<noteq> key) vs, None)),
     vst_SetBytes = None, vst_GetBytes = None\<rparr>"

lemma listStore_ok: "readsOk listStore (\<lambda>_. True) (\<lambda>vs _. map_of vs)"
  by (auto simp: readsOk_def listStore_def split: option.splits)

definition sampleSet :: envSet where
  "sampleSet = \<lparr>es_Name = ''dev'', es_Temporary = False, es_CreatedAt = 0, es_ExpiresAt = None, es_Keys = [''CERT'', ''TOKEN''],
     es_Entries = [\<lparr>ee_Name = ''CERT'', ee_Kind = EntryFile, ee_Target = ''CERT_PATH'', ee_Filename = ''cert.pem'',
                    ee_CreatedAt = 0, ee_UpdatedAt = 0\<rparr>,
                   \<lparr>ee_Name = ''TOKEN'', ee_Kind = EntryEnvironment, ee_Target = ''TOKEN'', ee_Filename = [],
                    ee_CreatedAt = 0, ee_UpdatedAt = 0\<rparr>]\<rparr>"

definition sampleManager :: "((string \<times> string) list) envManager" where
  "sampleManager = \<lparr>mg_Meta = \<lparr>md_Version = metadataVersion,
       md_Identity = \<lparr>id_RemoteURL = [], id_CanonicalPath = ''/w''\<rparr>, md_Active = ''dev'', md_Sets = [(''dev'', sampleSet)]\<rparr>,
     mg_File = NoFile, mg_Values = [(''CERT'', ''-----BEGIN'')] @ [(''TOKEN'', ''hunter22'')]\<rparr>"

definition sampleFiles :: workspaceOS where
  "sampleFiles = \<lparr>wo_CacheDir = Some ''/c'', wo_Mkdir = None, wo_ChmodBase = None,
     wo_ReadDir = Some [\<lparr>rd_Name = ''run-7-a'', rd_IsDir = True, rd_Info = Some \<lparr>di_Symlink = False, di_Perm = 448, di_ModTime = 0\<rparr>\<rparr>],
     wo_Now = 5, wo_Alive = (\<lambda>pid. pid = 8), wo_Remove = (\<lambda>_. Removed), wo_MkdirTemp = Inr ''/c/ironrun/run/run-8-b'',
     wo_ChmodDir = None, wo_Mat = (\<lambda>_. \<lparr>mo_Open = None, mo_Write = None, mo_Close = None, mo_Left = None, mo_Chmod = None\<rparr>),
     wo_Close = Removed\<rparr>"

definition sampleExec :: "((string \<times> string) list) execEnv" where
  "sampleExec = \<lparr>xe_OS = sampleOS, xe_Files = sampleFiles,
     xe_CLI = \<lparr>cl_LookPath = (\<lambda>_. None), cl_Output = (\<lambda>_ _. CliErr [])\<rparr>, xe_Home = None, xe_ReadFile = (\<lambda>_. Inl []),
     xe_Env = \<lparr>ev_Identity = \<lparr>ie_parseURL = (\<lambda>_. None), ie_showURL = (\<lambda>_. []), ie_SHA256 = (\<lambda>s. s)\<rparr>,
       ev_Store = listStore, ev_Now = 1000, ev_Mkdir = None, ev_Lock = None, ev_Write = None\<rparr>,
     xe_Open = (\<lambda>_. Inr sampleManager), xe_OpenSecrets = (\<lambda>_ _. Inl SecretCorrupt)\<rparr>"

definition samplePolicy :: policyFile where
  "samplePolicy = workspacePolicy (sampleCommand\<lparr>c_Secrets := [''TOKEN'', ''CERT'']\<rparr>)"

definition sampleRunOptions :: "bytes execOptions" where
  "sampleRunOptions = \<lparr>xo_Environment = [], xo_Stdout = [], xo_Stderr = [], xo_Audit = True, xo_SessionID = [],
     xo_AllowShell = False, xo_DisableSeccomp = False, xo_DisableEntropyScan = False, xo_AllowPullRequestTarget = False,
     xo_NoSeal = False, xo_EmitGitHubMasks = False, xo_AllowWorkspaceNetwork = False\<rparr>"

definition remnantFS :: fsys where
  "remnantFS = (\<lambda>_. None)(''/c/ironrun/run/run-7-a/old.pem'' \<mapsto> ''x'')"

lemma sample_trusted: "CheckCITrust (os_Environ (xe_OS sampleExec)) (os_ReadEvent (xe_OS sampleExec)) False = None"
  by code_simp

lemma sample_command: "Lookup samplePolicy ''deploy'' = Inr (sampleCommand\<lparr>c_Secrets := [''TOKEN'', ''CERT'']\<rparr>)"
  by code_simp

lemma sample_refs: "resolveRefs sampleExec samplePolicy (sampleCommand\<lparr>c_Secrets := [''TOKEN'', ''CERT'']\<rparr>) = Inr []"
  by (simp add: resolveRefs_def samplePolicy_def workspacePolicy_def sampleCommand_def newProvider_passthrough)

lemma sample_managed: "usesManager samplePolicy sampleRunOptions"
  by code_simp

lemma sample_environment: "selectEnvironment (xe_Env sampleExec) [] sampleManager = Inr ''dev''"
  by code_simp

lemma sample_entries: "snd (resolveEntries samplePolicy sampleFiles (xe_Env sampleExec) ''dev'' [''TOKEN'', ''CERT'']
     (startResolving [] remnantFS sampleManager)) = None"
  by code_simp

lemma sample_runs: "xf_Run (snd (executionRun wr sampleExec samplePolicy [] [] ''deploy'' sampleRunOptions remnantFS)) \<noteq> None"
proof -
  let ?cmd = "sampleCommand\<lparr>c_Secrets := [''TOKEN'', ''CERT'']\<rparr>"
  obtain st where st: "resolveEntries samplePolicy sampleFiles (xe_Env sampleExec) ''dev'' [''TOKEN'', ''CERT'']
     (startResolving [] remnantFS sampleManager) = (st, None)" using sample_entries by (metis prod.collapse)
  have "executionRun wr sampleExec samplePolicy [] [] ''deploy'' sampleRunOptions remnantFS =
      runManaged wr sampleExec samplePolicy ?cmd [] sampleRunOptions [] remnantFS"
    using sample_trusted sample_command sample_refs sample_managed by (simp add: executionRun_def sampleRunOptions_def)
  also have "\<dots> = runResolved wr sampleExec samplePolicy ?cmd [] sampleRunOptions (sv_Resolved st) (sv_Files st) (sv_FS st)
      (sv_Redact st) (sv_Audit st) (Some (sv_Manager st))"
    using sample_environment st by (simp add: runManaged_def sampleExec_def sampleRunOptions_def)
  finally show ?thesis by (cases "runResolved wr sampleExec samplePolicy ?cmd [] sampleRunOptions (sv_Resolved st) (sv_Files st) (sv_FS st)
      (sv_Redact st) (sv_Audit st) (Some (sv_Manager st))") (metis option.distinct(1) runResolved_Run snd_conv)
qed

lemma sample_tempDir: "tempDirOk (xe_Files sampleExec) remnantFS"
proof -
  have clean: "cleanDir ''/c/ironrun/run/run-8-b''" by code_simp
  have "\<not> below ''/c/ironrun/run/run-8-b'' ''/c/ironrun/run/run-7-a/old.pem''" by (simp add: below_def)
  then have "remnantFS p = None" if "below ''/c/ironrun/run/run-8-b'' p" for p
    using that unfolding remnantFS_def by (simp only: fun_upd_apply split: if_split) blast
  with clean show ?thesis unfolding tempDirOk_def by (simp add: sampleExec_def sampleFiles_def)
qed

lemma execution_files_removed_witness:
  "xf_FS (snd (executionRun bufferWrite sampleExec samplePolicy [] [] ''deploy'' sampleRunOptions remnantFS))
     ''/c/ironrun/run/run-8-b/cert.pem'' = None"
proof -
  have close: "wo_Close (xe_Files sampleExec) = Removed" by (simp add: sampleExec_def sampleFiles_def)
  have none: "remnantFS ''/c/ironrun/run/run-8-b/cert.pem'' = None" by (simp add: remnantFS_def)
  from execution_files_removed [OF sample_tempDir prod.collapse [symmetric] disjI1 [OF close], THEN spec] show ?thesis
    by (rule disjE) (erule trans [OF _ none], erule conjunct1)
qed

lemma execution_injects_declared_witness:
  "\<exists>ropts rx. xf_Run (snd (executionRun bufferWrite sampleExec samplePolicy [] [] ''deploy'' sampleRunOptions remnantFS)) = Some (ropts, rx) \<and>
     List.map su_Name (ro_AuditSecrets ropts) = [''TOKEN'', ''CERT'']"
proof -
  obtain ropts rx where r: "xf_Run (snd (executionRun bufferWrite sampleExec samplePolicy [] [] ''deploy'' sampleRunOptions remnantFS)) =
      Some (ropts, rx)" using sample_runs [of bufferWrite] by auto
  have "readsOk (ev_Store (xe_Env sampleExec)) (\<lambda>_. True) (\<lambda>vs _. map_of vs)" using listStore_ok by (simp add: sampleExec_def)
  from execution_injects_declared [OF this _ prod.collapse [symmetric] r] obtain cmd
    where cmd: "Lookup samplePolicy ''deploy'' = Inr cmd"
      "c_Secrets cmd \<noteq> [] \<and> usesManager samplePolicy sampleRunOptions \<longrightarrow> List.map su_Name (ro_AuditSecrets ropts) = c_Secrets cmd"
    by (metis (no_types, lifting))
  have "cmd = sampleCommand\<lparr>c_Secrets := [''TOKEN'', ''CERT'']\<rparr>" using cmd(1) unfolding sample_command by (simp only: sum.inject)
  then have "c_Secrets cmd = [''TOKEN'', ''CERT'']" by simp
  with cmd(2) sample_managed r show ?thesis by simp
qed

text \<open>
  A file secret of a version-1 policy: the declaration gives the variable and the file name, and the
  audit log records the variable, but the child gets what the manager's entry says.
\<close>

definition sampleDeclared :: policyFile where
  "sampleDeclared = samplePolicy\<lparr>f_Version := SupportedVersionV1,
     f_Secrets := [(''cert'', \<lparr>sd_Env = ''CERT'', sd_Store = [], sd_Allow = [], sd_Kind = ''file'', sd_Filename = ''tls.pem''\<rparr>)]\<rparr>"

lemma declared_file_target_ignored:
  "(let (st, r) = resolveAlias sampleDeclared sampleFiles (xe_Env sampleExec) ''dev'' ''cert''
          (startResolving [] (\<lambda>_. None) sampleManager)
    in sv_Resolved st = [(''CERT_PATH'', ''/c/ironrun/run/run-8-b/cert.pem'')] \<and>
       List.map su_Target (sv_Audit st) = [''CERT''])"
  by code_simp

end
