(* ===== verification/GoRunes.thy ===== *)
theory GoRunes
  imports GoJSON
begin

text \<open>
  Go strings as sequences of runes: the loop \<open>for _, r := range s\<close>, \<open>strings.Map\<close> and
  \<open>strconv.Quote\<close>, and when a text cannot contain a line break.  The tables of printable runes
  of the standard library are an argument.
\<close>

section \<open>Runes\<close>

text \<open>Each rune with the bytes that encode it; an invalid byte is a \<open>RuneError\<close> of its own.\<close>

function runeSplit :: "bytes \<Rightarrow> (nat \<times> bytes) list" where
  "runeSplit s =
     (if s = [] then [] else let (r, n) = decodeRune s in (r, take n s) # runeSplit (drop n s))"
  by pat_completeness auto
termination
proof (relation "measure length", simp, clarify)
  fix s :: bytes and r n
  assume "s \<noteq> []" "(r, n) = decodeRune s"
  then show "(drop n s, s) \<in> measure length"
    using decodeRune_pos [of s] by (cases s) (auto simp: prod_eq_iff)
qed

declare runeSplit.simps [simp del]

definition runesOf :: "bytes \<Rightarrow> nat list" where
  "runesOf s = List.map fst (runeSplit s)"

definition isControl :: "nat \<Rightarrow> bool" where
  "isControl r \<longleftrightarrow> r < 0x20 \<or> 0x7F \<le> r \<and> r \<le> 0x9F"

text \<open>The line breaks of YAML.\<close>

definition isBreak :: "nat \<Rightarrow> bool" where
  "isBreak r \<longleftrightarrow> r \<in> {0x0A, 0x0D, 0x85, 0x2028, 0x2029}"

section \<open>Quoting\<close>

definition hexDigits :: "nat \<Rightarrow> nat \<Rightarrow> bytes" where
  "hexDigits k r = List.map (\<lambda>i. hexDigit (r div 16 ^ i mod 16)) (rev [0..<k])"

text \<open>\<open>appendEscapedRune\<close> of \<open>strconv\<close> for the quote character.\<close>

definition escapeRune :: "nat \<Rightarrow> bytes" where
  "escapeRune r =
     CHR 0x5C #
       (if r = 0x07 then ''a'' else if r = 0x08 then ''b'' else if r = 0x0C then ''f'' else if r = 0x0A then ''n''
        else if r = 0x0D then ''r'' else if r = 0x09 then ''t'' else if r = 0x0B then ''v''
        else if r < 0x20 \<or> r = 0x7F then CHR ''x'' # hexDigits 2 r
        else if r < 0x10000 then CHR ''u'' # hexDigits 4 r
        else CHR ''U'' # hexDigits 8 r)"

definition quoteRune :: "(nat \<Rightarrow> bool) \<Rightarrow> nat \<times> bytes \<Rightarrow> bytes" where
  "quoteRune isPrint rb =
     (case rb of (r, b) \<Rightarrow>
        if r = runeError \<and> length b = 1 then CHR 0x5C # CHR ''x'' # hexByte (hd b)
        else if r = 0x22 \<or> r = 0x5C then CHR 0x5C # b
        else if isPrint r then b
        else escapeRune r)"

definition strconvQuote :: "(nat \<Rightarrow> bool) \<Rightarrow> string \<Rightarrow> string" where
  "strconvQuote isPrint s =
     CHR 0x22 # concat (List.map (quoteRune isPrint) (runeSplit s)) @ [CHR 0x22]"

section \<open>Texts without line breaks\<close>

lemma decodeRune_append:
  assumes "decodeRune s = (r, n)" "s \<noteq> []" "\<not> (r = runeError \<and> n = 1)"
  shows "decodeRune (take n s @ t) = (r, n)"
  using assms
  by (cases s) (auto simp: Let_def split: if_splits list.splits)

lemma runeSplit_append:
  assumes "decodeRune s = (r, n)" "s \<noteq> []" "\<not> (r = runeError \<and> n = 1)"
  shows "runeSplit (take n s @ t) = (r, take n s) # runeSplit t"
proof -
  have "0 < n" using decodeRune_pos [OF assms(2)] assms(1) by simp
  with assms(2) have ne: "take n s @ t \<noteq> []" by simp
  have "length (take n s) = n"
    using assms(1,2) by (cases s) (auto simp: Let_def split: if_splits list.splits)
  then show ?thesis
    unfolding runeSplit.simps [of "take n s @ t"] using ne decodeRune_append [OF assms, of t] by simp
qed

lemma runeSplit_ascii: "(of_char c :: nat) < 128 \<Longrightarrow> runeSplit (c # s) = (of_char c, [c]) # runeSplit s"
  by (subst runeSplit.simps) simp

text \<open>A text is unbroken if its runes do not depend on what follows and none of them is a break.\<close>

definition unbroken :: "bytes \<Rightarrow> bool" where
  "unbroken s \<longleftrightarrow> (\<forall>t. runesOf (s @ t) = runesOf s @ runesOf t) \<and> list_all (\<lambda>r. \<not> isBreak r) (runesOf s)"

lemma unbroken_Nil [simp]: "unbroken []"
  by (simp add: unbroken_def runesOf_def runeSplit.simps [of "[]"])

lemma unbroken_append: "unbroken a \<Longrightarrow> unbroken b \<Longrightarrow> unbroken (a @ b)"
  by (simp add: unbroken_def)

lemma unbroken_concat: "(\<And>x. x \<in> set xs \<Longrightarrow> unbroken x) \<Longrightarrow> unbroken (concat xs)"
  by (induction xs) (simp_all add: unbroken_append)

lemma unbroken_ascii_char: "(of_char c :: nat) < 128 \<Longrightarrow> \<not> isBreak (of_char c) \<Longrightarrow> unbroken [c]"
  by (simp add: unbroken_def runesOf_def runeSplit_ascii runeSplit.simps [of "[]"])

text \<open>Printable ASCII.\<close>

definition plainByte :: "char \<Rightarrow> bool" where
  "plainByte c \<longleftrightarrow> 0x20 \<le> (of_char c :: nat) \<and> of_char c < (0x7F :: nat)"

lemma unbroken_plain: "list_all plainByte s \<Longrightarrow> unbroken s"
proof (induction s)
  case (Cons c s)
  then have "unbroken [c]" by (intro unbroken_ascii_char) (auto simp: plainByte_def isBreak_def)
  with Cons show ?case using unbroken_append [of "[c]" s] by simp
qed simp

lemma unbroken_Join: "(\<And>x. x \<in> set xs \<Longrightarrow> unbroken x) \<Longrightarrow> unbroken sep \<Longrightarrow> unbroken (Join xs sep)"
proof (induction xs)
  case (Cons x xs)
  then show ?case by (cases xs) (simp_all add: unbroken_append)
qed simp

lemma of_char_div16: "(of_char c :: nat) div 16 < 16"
  using nat_of_char_less_256 [of c] by linarith

lemma plain_hexDigit: "n < 16 \<Longrightarrow> plainByte (hexDigit n)"
proof -
  assume "n < 16"
  then have "hexDigit n \<in> set ''0123456789abcdef''" unfolding hexDigit_def by (intro nth_mem) simp
  then show ?thesis by (auto simp: plainByte_def)
qed

text \<open>The bytes of a rune as they are, when it is valid and no break.\<close>

lemma unbroken_rune:
  assumes "(r, b) \<in> set (runeSplit s)" "\<not> (r = runeError \<and> length b = 1)" "\<not> isBreak r"
  shows "unbroken b"
  using assms
proof (induction s rule: runeSplit.induct)
  case (1 s)
  obtain r' n where d: "decodeRune s = (r', n)" by fastforce
  show ?case
  proof (cases "s = [] \<or> (r, b) \<in> set (runeSplit (drop n s))")
    case True
    moreover have "s \<noteq> []" using "1.prems"(1) by (auto simp: runeSplit.simps [of "[]"])
    ultimately show ?thesis using 1 d by simp
  next
    case False
    with "1.prems"(1) d have b: "r = r'" "b = take n s" "s \<noteq> []"
      by (auto simp: runeSplit.simps [of s])
    have "length b = n" using d b by (cases s) (auto simp: Let_def split: if_splits list.splits)
    with b "1.prems"(2) have valid: "\<not> (r' = runeError \<and> n = 1)" by simp
    from runeSplit_append [OF d b(3) valid, of t for t] b have "runeSplit (b @ t) = (r, b) # runeSplit t" for t by simp
    from this this [of "[]"] show ?thesis
      using "1.prems"(3) by (simp add: unbroken_def runesOf_def runeSplit.simps [of "[]"])
  qed
qed

lemma plain_hexDigits: "list_all plainByte (hexDigits k x)" "list_all plainByte (hexByte c)"
  by (auto simp: hexDigits_def hexByte_def list_all_iff of_char_div16 intro!: plain_hexDigit)

lemma plain_escapeRune: "list_all plainByte (escapeRune r)"
proof -
  have esc: "plainByte (CHR 0x5C)" "plainByte (CHR ''x'')" "plainByte (CHR ''u'')" "plainByte (CHR ''U'')"
    "plainByte (CHR ''a'')" "plainByte (CHR ''b'')" "plainByte (CHR ''f'')" "plainByte (CHR ''n'')"
    "plainByte (CHR ''r'')" "plainByte (CHR ''t'')" "plainByte (CHR ''v'')"
    by (simp_all add: plainByte_def)
  show ?thesis 
    unfolding escapeRune_def by (simp only: esc plain_hexDigits list.pred_inject simp_thms split: if_split)
qed

lemma unbroken_quoteRune:
  assumes "(r, b) \<in> set (runeSplit s)" "\<And>r. isBreak r \<Longrightarrow> \<not> isPrint r"
  shows "unbroken (quoteRune isPrint (r, b))"
proof -
  have esc: "plainByte (CHR 0x5C)" "plainByte (CHR ''x'')" by (simp_all add: plainByte_def)
  have slash: "unbroken [CHR 0x5C]" by (rule unbroken_plain) (simp only: esc list.pred_inject simp_thms)
  have hex: "unbroken (CHR 0x5C # CHR ''x'' # hexByte (hd b))"
    by (rule unbroken_plain) (simp only: esc plain_hexDigits list.pred_inject simp_thms)
  have asc: "unbroken (escapeRune r)" by (rule unbroken_plain) (rule plain_escapeRune)
  have raw: "unbroken b" if "\<not> (r = runeError \<and> length b = 1)" "r = 0x22 \<or> r = 0x5C \<or> isPrint r"
  proof (rule unbroken_rune [OF assms(1) that(1)])
    have "\<not> isBreak 0x22" "\<not> isBreak 0x5C" by (simp_all add: isBreak_def)
    with that(2) assms(2) show "\<not> isBreak r" by blast
  qed
  have quoted: "unbroken (CHR 0x5C # b)" if "unbroken b" using unbroken_append [OF slash that] by simp
  consider (bad) "r = runeError \<and> length b = 1" | (quote) "\<not> (r = runeError \<and> length b = 1)" "r = 0x22 \<or> r = 0x5C"
    | (print) "\<not> (r = runeError \<and> length b = 1)" "\<not> (r = 0x22 \<or> r = 0x5C)" "isPrint r"
    | (other) "\<not> (r = runeError \<and> length b = 1)" "\<not> (r = 0x22 \<or> r = 0x5C)" "\<not> isPrint r" by argo
  then show ?thesis
  proof cases
    case bad
    then show ?thesis unfolding quoteRune_def prod.case using hex by (simp only: simp_thms if_True)
  next
    case quote
    then have "unbroken (CHR 0x5C # b)" by (intro quoted raw) blast+
    with quote show ?thesis unfolding quoteRune_def prod.case by (simp only: simp_thms if_True if_False)
  next
    case print
    then have "unbroken b" by (intro raw) blast+
    with print show ?thesis unfolding quoteRune_def prod.case by (simp only: simp_thms if_True if_False)
  next
    case other
    then show ?thesis unfolding quoteRune_def prod.case using asc by (simp only: simp_thms if_True if_False)
  qed
qed

lemma unbroken_Quote:
  assumes "\<And>r. isBreak r \<Longrightarrow> \<not> isPrint r"
  shows "unbroken (strconvQuote isPrint s)"
proof -
  have "unbroken (concat (List.map (quoteRune isPrint) (runeSplit s)))"
  proof (rule unbroken_concat)
    fix x assume "x \<in> set (List.map (quoteRune isPrint) (runeSplit s))"
    then obtain r b where "(r, b) \<in> set (runeSplit s)" "x = quoteRune isPrint (r, b)" by auto
    with unbroken_quoteRune [OF _ assms] show "unbroken x" by simp
  qed
  moreover have "unbroken [CHR 0x22]" by (rule unbroken_plain) (simp add: plainByte_def)
  ultimately show ?thesis
    using unbroken_append [of "[CHR 0x22]"] unbroken_append [of _ "[CHR 0x22]"] by (simp add: strconvQuote_def)
qed

end
