(* ===== verification/Proposals.thy ===== *)
theory Proposals
  imports GoRunes GoMaps Policy
begin

text \<open>
  Commands that an agent proposes and a human approves: the pending file of
  \<open>src/internal/pending/pending.go\<close>, the review commands of \<open>src/cmd/ironrun/review.go\<close> and the
  rendering of a command in \<open>src/cmd/ironrun/detect.go\<close>.

  The pending file is what it decodes to, the policy file is its text, and the YAML decoder, SHA-256
  and the table of printable runes are arguments.  Writing and reading the pending file is the identity, which is what YAML
  does to UTF-8 text but for one thing: an environment that is an empty map, not nil, is left out (\<open>omitempty\<close>) and read back as nil.
  The one place that makes proposals never makes such a map (\<open>proposalEnv_nonempty\<close> in \<open>MCPTools_Props\<close>), so only
  a file that was edited by hand has it.  A transaction holds the lock, so it is one step;
  what may change between the review and the commit of an approval is explicit.  A nil argv is not
  told from an empty one.
\<close>

section \<open>The pending file\<close>

record proposal =
  pp_ID :: string
  pp_Argv :: "string list"
  pp_Env :: "string gomap option"
  pp_Reason :: string
  pp_ProposedAt :: string
  pp_Status :: string

datatype pendingFile = NoPending | BadPending string | Pending "proposal list"

datatype reviewError =
    PendingConflict
  | PendingIO string
  | NoProposal string
  | ProposalChanged string
  | ShellRefused string
  | ReviewPolicy policyError
  | AlreadyInPolicy string
  | NoCommandsSection
  | MergedInvalid policyError

definition loadPending :: "pendingFile \<Rightarrow> reviewError + proposal list" where
  "loadPending file = (case file of NoPending \<Rightarrow> Ok [] | BadPending err \<Rightarrow> Err (PendingIO err) | Pending ps \<Rightarrow> Ok ps)"

definition findProposal :: "string \<Rightarrow> proposal list \<Rightarrow> proposal option" where
  "findProposal pid ps = find (\<lambda>p. pp_ID p = pid) ps"

fun replaceProposal :: "proposal \<Rightarrow> proposal list \<Rightarrow> proposal list" where
  "replaceProposal p [] = []"
| "replaceProposal p (q # qs) = (if pp_ID q = pp_ID p then p # qs else q # replaceProposal p qs)"

definition Upsert :: "proposal \<Rightarrow> proposal list \<Rightarrow> proposal list" where
  "Upsert p ps = (if findProposal (pp_ID p) ps \<noteq> None then replaceProposal p ps else sort_key pp_ID (ps @ [p]))"

fun removeProposal :: "string \<Rightarrow> proposal list \<Rightarrow> proposal list" where
  "removeProposal pid [] = []"
| "removeProposal pid (p # ps) = (if pp_ID p = pid then ps else p # removeProposal pid ps)"

definition jsonStringMap :: "string gomap option \<Rightarrow> bytes" where
  "jsonStringMap m =
     (case m of None \<Rightarrow> ''null'' | Some kvs \<Rightarrow> jsonObject (List.map (\<lambda>(k, v). jsonField k (jsonString v)) kvs))"

definition marshalProposal :: "proposal \<Rightarrow> bytes" where
  "marshalProposal p =
     jsonObject [jsonField ''ID'' (jsonString (pp_ID p)), jsonField ''Argv'' (jsonStrings (Some (pp_Argv p))),
       jsonField ''Env'' (jsonStringMap (pp_Env p)), jsonField ''Reason'' (jsonString (pp_Reason p)),
       jsonField ''ProposedAt'' (jsonString (pp_ProposedAt p)), jsonField ''Status'' (jsonString (pp_Status p))]"

definition ReviewDigest :: "(bytes \<Rightarrow> bytes) \<Rightarrow> proposal \<Rightarrow> string" where
  "ReviewDigest sha p = hexEncode (sha (marshalProposal p))"

text \<open>
  \<open>Update\<close>: the answers of the system are errors of the directory, of the lock (taken, or not freed
  in time) and of the atomic replacement.  The transaction may act on another state \<open>'s\<close>.
\<close>

record pendingOS =
  po_Mkdir :: "string option"
  po_Lock :: "string option"
  po_Save :: "string option"

definition updatePending :: "pendingOS \<Rightarrow> (proposal list \<Rightarrow> 's \<Rightarrow> reviewError option \<times> proposal list \<times> 's) \<Rightarrow>
    pendingFile \<Rightarrow> 's \<Rightarrow> pendingFile \<times> 's \<times> reviewError option" where
  "updatePending os fn file s =
     (case po_Mkdir os of
        Some err \<Rightarrow> (file, s, Some (PendingIO err))
      | None \<Rightarrow> (case po_Lock os of
          Some err \<Rightarrow> (file, s, Some (PendingIO err))
        | None \<Rightarrow> (case loadPending file of
            Inl err \<Rightarrow> (file, s, Some err)
          | Inr ps \<Rightarrow>
              (case fn ps s of
                 (Some err, _, s) \<Rightarrow> (file, s, Some err)
               | (None, ps, s) \<Rightarrow> (case po_Save os of
                   Some err \<Rightarrow> (file, s, Some (PendingIO err))
                 | None \<Rightarrow> (Pending ps, s, None))))))"

text \<open>An ID that exists is kept, and its proposal returned, if the content is the same.\<close>

definition createFn :: "proposal \<Rightarrow> proposal list \<Rightarrow> proposal option \<Rightarrow> reviewError option \<times> proposal list \<times> proposal option" where
  "createFn p ps result =
     (case findProposal (pp_ID p) ps of
        Some old \<Rightarrow>
          if pp_Argv old \<noteq> pp_Argv p \<or> pp_Env old \<noteq> pp_Env p \<or> pp_Reason old \<noteq> pp_Reason p
          then (Some PendingConflict, ps, result) else (None, ps, Some old)
      | None \<Rightarrow> (None, Upsert p ps, Some p))"

definition createProposal :: "pendingOS \<Rightarrow> proposal \<Rightarrow> pendingFile \<Rightarrow> pendingFile \<times> proposal option \<times> reviewError option" where
  "createProposal os p file = updatePending os (createFn p) file None"

section \<open>Rendering a command\<close>

definition plainFirst :: "char \<Rightarrow> bool" where
  "plainFirst c \<longleftrightarrow> asciiLetter c \<or> asciiDigit c \<or> c \<in> set ''_./-''"

definition plainRest :: "char \<Rightarrow> bool" where
  "plainRest c \<longleftrightarrow> plainFirst c \<or> c \<in> set ''=+@%''"

definition yamlPlainSafe :: "string \<Rightarrow> bool" where
  "yamlPlainSafe s \<longleftrightarrow> (case s of [] \<Rightarrow> False | c # cs \<Rightarrow> plainFirst c \<and> list_all plainRest cs)"

definition yamlScalar :: "(nat \<Rightarrow> bool) \<Rightarrow> string \<Rightarrow> string" where
  "yamlScalar isPrint s =
     (if s \<noteq> ''-'' \<and> \<not> EqualFold s ''null'' \<and> yamlPlainSafe s then s else strconvQuote isPrint s)"

definition commentRune :: "nat \<times> bytes \<Rightarrow> bytes" where
  "commentRune rb =
     (case rb of (r, b) \<Rightarrow>
        if isControl r \<or> r = 0x2028 \<or> r = 0x2029 then '' ''
        else if r = runeError \<and> length b = 1 then runeErrorBytes else b)"

definition yamlComment :: "string \<Rightarrow> string" where
  "yamlComment s = concat (List.map commentRune (runeSplit s))"

definition renderCommandBlock :: "(nat \<Rightarrow> bool) \<Rightarrow> string \<Rightarrow> string list \<Rightarrow> string \<Rightarrow> string gomap option \<Rightarrow> string \<Rightarrow> string" where
  "renderCommandBlock isPrint cid argv ttl env comment =
     (if comment \<noteq> [] then ''  # '' @ yamlComment comment @ [newline] else []) @
     ''  - id: '' @ yamlScalar isPrint cid @ [newline] @
     ''    argv: ['' @ Join (List.map (yamlScalar isPrint) argv) '', '' @ '']'' @ [newline] @
     (if ttl \<noteq> [] then ''    ttl: '' @ ttl @ [newline] else []) @
     (case env of
        None \<Rightarrow> []
      | Some kvs \<Rightarrow> if kvs = [] then [] else
          ''    env:'' @ [newline] @
          concat (List.map (\<lambda>(k, v). ''      '' @ yamlScalar isPrint k @ '': '' @ yamlScalar isPrint v @ [newline]) kvs))"

section \<open>Inserting it into the policy\<close>

text \<open>\<open>strings.SplitAfter(text, "\n")\<close>.\<close>

fun splitAfter :: "string \<Rightarrow> string list" where
  "splitAfter [] = [[]]"
| "splitAfter (c # s) =
     (if c = newline then [newline] # splitAfter s
      else (case splitAfter s of [] \<Rightarrow> [[c]] | l # ls \<Rightarrow> (c # l) # ls))"

definition topLevel :: "string \<Rightarrow> bool" where
  "topLevel line \<longleftrightarrow> line \<noteq> [] \<and> hd line \<noteq> CHR '' '' \<and> hd line \<noteq> CHR 0x09"

text \<open>The scan: whether the section was found, and where the next top-level line starts.\<close>

fun insertPoint :: "bool \<Rightarrow> nat \<Rightarrow> string list \<Rightarrow> bool \<times> nat option" where
  "insertPoint found offset [] = (found, None)"
| "insertPoint found offset (line # ls) =
     (if \<not> found then insertPoint (TrimSpace line = ''commands:'' \<and> topLevel line) (offset + length line) ls
      else if TrimSpace line \<noteq> [] \<and> topLevel line then (True, Some offset)
      else insertPoint True (offset + length line) ls)"

definition withNewline :: "string \<Rightarrow> string" where
  "withNewline s = (if suffix [newline] s then s else s @ [newline])"

definition insertCommandBlock :: "string \<Rightarrow> string \<Rightarrow> reviewError + string" where
  "insertCommandBlock txt block =
     (case insertPoint False 0 (splitAfter txt) of
        (False, _) \<Rightarrow> Err NoCommandsSection
      | (True, at) \<Rightarrow>
          (let insertAt = (case at of None \<Rightarrow> length txt | Some i \<Rightarrow> i)
           in Ok (withNewline (take insertAt txt) @ withNewline block @ drop insertAt txt)))"

text \<open>The block of an approved proposal.\<close>

definition approvedBlock :: "(nat \<Rightarrow> bool) \<Rightarrow> bool \<Rightarrow> proposal \<Rightarrow> string" where
  "approvedBlock isPrint usesEntries p =
     renderCommandBlock isPrint (pp_ID p) (pp_Argv p) ''120s'' (if usesEntries then None else pp_Env p)
       (if pp_Reason p \<noteq> [] then ''approved: '' @ pp_Reason p else []) @
     (case pp_Env p of
        None \<Rightarrow> []
      | Some kvs \<Rightarrow>
          if usesEntries \<and> kvs \<noteq> []
          then ''    secrets: ['' @ Join (sort (List.map (\<lambda>kv. yamlScalar isPrint (fst kv)) kvs)) '', '' @ '']'' @ [newline]
          else [])"

text \<open>
  How the writes of the policy end; \<open>os.WriteFile\<close> is not atomic, so a write that fails leaves some text.
  \<open>pl_Reload\<close> is how reading the policy again ends, after the write.
\<close>

datatype textWrite = TextWritten | TextLost string string

record policyOS =
  pl_Read :: "string option"
  pl_Write :: textWrite
  pl_Reload :: "string option"
  pl_Rollback :: textWrite

definition writeText :: "textWrite \<Rightarrow> string \<Rightarrow> string \<times> string option" where
  "writeText w txt = (case w of TextWritten \<Rightarrow> (txt, None) | TextLost left err \<Rightarrow> (left, Some err))"

definition appendCommandToPolicy :: "policyOS \<Rightarrow> (bytes \<Rightarrow> string + policyFile) \<Rightarrow> (nat \<Rightarrow> bool) \<Rightarrow> proposal \<Rightarrow> string \<Rightarrow>
    string \<times> reviewError option" where
  "appendCommandToPolicy os decode isPrint p orig =
     (case pl_Read os of
        Some err \<Rightarrow> (orig, Some (PendingIO err))
      | None \<Rightarrow> (case Parse decode orig of
          Inl err \<Rightarrow> (orig, Some (ReviewPolicy err))
        | Inr current \<Rightarrow>
            (case insertCommandBlock orig (approvedBlock isPrint (UsesEnvironmentEntries (Some current)) p) of
               Inl err \<Rightarrow> (orig, Some err)
             | Inr txt \<Rightarrow>
                 (case writeText (pl_Write os) txt of
                    (left, Some err) \<Rightarrow> (left, Some (PendingIO err))
                  | (left, None) \<Rightarrow>
                      (case Load decode (case pl_Reload os of Some err \<Rightarrow> ReadFailed err | None \<Rightarrow> ReadData left) of
                         Inl err \<Rightarrow> (fst (writeText (pl_Rollback os) orig), Some (MergedInvalid err))
                       | Inr _ \<Rightarrow> (left, None))))))"

section \<open>Approve and reject\<close>

text \<open>The checks before the prompt; the digest that the approval is bound to.\<close>

definition approveReview :: "(bytes \<Rightarrow> bytes) \<Rightarrow> (bytes \<Rightarrow> string + policyFile) \<Rightarrow> string \<Rightarrow> string \<Rightarrow> pendingFile \<Rightarrow> string \<Rightarrow>
    reviewError + (proposal \<times> string)" where
  "approveReview sha decode expectedDigest pid file txt =
     (case loadPending file of
        Inl err \<Rightarrow> Err err
      | Inr ps \<Rightarrow> (case findProposal pid ps of
          None \<Rightarrow> Err (NoProposal pid)
        | Some p \<Rightarrow>
            (let digest = ReviewDigest sha p in
             if expectedDigest \<noteq> [] \<and> digest \<noteq> expectedDigest then Err (ProposalChanged pid)
             else if IsShellString (pp_Argv p) then Err (ShellRefused pid)
             else case Parse decode txt of
               Inl err \<Rightarrow> Err (ReviewPolicy err)
             | Inr f \<Rightarrow> (case Lookup f pid of
                 Inr _ \<Rightarrow> Err (AlreadyInPolicy pid)
               | Inl _ \<Rightarrow> Ok (p, digest)))))"

definition approveFn :: "(bytes \<Rightarrow> bytes) \<Rightarrow> policyOS \<Rightarrow> (bytes \<Rightarrow> string + policyFile) \<Rightarrow> (nat \<Rightarrow> bool) \<Rightarrow> string \<Rightarrow> string \<Rightarrow>
    proposal list \<Rightarrow> string \<Rightarrow> reviewError option \<times> proposal list \<times> string" where
  "approveFn sha pos decode isPrint pid digest ps txt =
     (case findProposal pid ps of
        None \<Rightarrow> (Some (ProposalChanged pid), ps, txt)
      | Some p \<Rightarrow>
          if ReviewDigest sha p \<noteq> digest then (Some (ProposalChanged pid), ps, txt)
          else (case appendCommandToPolicy pos decode isPrint p txt of
              (txt, Some err) \<Rightarrow> (Some err, ps, txt)
            | (txt, None) \<Rightarrow> (None, removeProposal pid ps, txt)))"

text \<open>
  The command: \<open>file\<close> and \<open>txt\<close> are read for the review, \<open>file'\<close> and \<open>txt'\<close> are there when the
  transaction starts, after the human has answered.
\<close>

definition approveCmd :: "(bytes \<Rightarrow> bytes) \<Rightarrow> pendingOS \<Rightarrow> policyOS \<Rightarrow> (bytes \<Rightarrow> string + policyFile) \<Rightarrow> (nat \<Rightarrow> bool) \<Rightarrow>
    string \<Rightarrow> bool \<Rightarrow> string \<Rightarrow> string \<Rightarrow> pendingFile \<Rightarrow> string \<Rightarrow> pendingFile \<Rightarrow> string \<Rightarrow>
    pendingFile \<times> string \<times> reviewError option" where
  "approveCmd sha os pos decode isPrint expectedDigest yes answer pid file txt file' txt' =
     (case approveReview sha decode expectedDigest pid file txt of
        Inl err \<Rightarrow> (file', txt', Some err)
      | Inr (p, digest) \<Rightarrow>
          if \<not> yes \<and> TrimSpace (ToLower answer) \<noteq> ''y'' then (file', txt', None)
          else updatePending os (approveFn sha pos decode isPrint pid digest) file' txt')"

definition rejectFn :: "string \<Rightarrow> proposal list \<Rightarrow> unit \<Rightarrow> reviewError option \<times> proposal list \<times> unit" where
  "rejectFn pid ps u = (if findProposal pid ps = None then (Some (NoProposal pid), ps, u) else (None, removeProposal pid ps, u))"

definition rejectCmd :: "pendingOS \<Rightarrow> string \<Rightarrow> pendingFile \<Rightarrow> pendingFile \<times> reviewError option" where
  "rejectCmd os pid file = (case updatePending os (rejectFn pid) file () of (file, _, err) \<Rightarrow> (file, err))"

end
