(* ===== verification/Proposals_Props.thy ===== *)
theory Proposals_Props
  imports Proposals
begin

text \<open>
  What an agent can do with proposals: it cannot change one under review, nothing but a human's approval
  changes the policy, and no text of a proposal adds a line or leaves the section of the commands.
\<close>

section \<open>The pending file\<close>

lemma find_filter: "find P xs = (case filter P xs of [] \<Rightarrow> None | x # _ \<Rightarrow> Some x)"
  by (induction xs) auto

lemma filter_remove: "pid \<noteq> qid \<Longrightarrow> filter (\<lambda>p. pp_ID p = pid) (removeProposal qid ps) = filter (\<lambda>p. pp_ID p = pid) ps"
  by (induction ps) auto

lemma find_remove: "pid \<noteq> qid \<Longrightarrow> findProposal pid (removeProposal qid ps) = findProposal pid ps"
  by (simp add: findProposal_def find_filter filter_remove)

lemma find_Upsert_new: "findProposal (pp_ID p) ps = None \<Longrightarrow> pid \<noteq> pp_ID p \<Longrightarrow> findProposal pid (Upsert p ps) = findProposal pid ps"
  by (simp add: Upsert_def findProposal_def find_filter sort_key_stable)

lemma createFn_keeps:
  assumes "createFn p ps r = (None, ps', r')" "findProposal pid ps = Some q"
  shows "findProposal pid ps' = Some q"
proof (cases "findProposal (pp_ID p) ps")
  case None
  with assms have "pid \<noteq> pp_ID p" "ps' = Upsert p ps" by (auto simp: createFn_def)
  with find_Upsert_new [OF None] assms(2) show ?thesis by simp
next
  case (Some old)
  with assms show ?thesis by (auto simp: createFn_def split: if_splits)
qed

lemma updatePending_cases:
  assumes "updatePending os fn pf s = (pf', s', err)"
  obtains (blocked) "pf' = pf" "s' = s" "err \<noteq> None"
    | (refused) ps e ps' where "loadPending pf = Inr ps" "fn ps s = (Some e, ps', s')" "pf' = pf" "err = Some e"
    | (unsaved) ps ps' e where "loadPending pf = Inr ps" "fn ps s = (None, ps', s')" "pf' = pf" "err = Some (PendingIO e)"
    | (saved) ps ps' where "loadPending pf = Inr ps" "fn ps s = (None, ps', s')" "pf' = Pending ps'" "err = None"
proof (cases "po_Mkdir os = None \<and> po_Lock os = None")
  case False
  with assms have "pf' = pf" "s' = s" "err \<noteq> None" by (auto simp: updatePending_def split: option.split_asm)
  then show thesis by (rule blocked)
next
  case free: True
  show thesis
  proof (cases "loadPending pf")
    case (Inl e)
    with assms free have "pf' = pf" "s' = s" "err \<noteq> None" by (auto simp: updatePending_def)
    then show thesis by (rule blocked)
  next
    case (Inr ps)
    obtain e ps' s1 where fn: "fn ps s = (e, ps', s1)" by (metis prod_cases3)
    show thesis
    proof (cases e)
      case None
      with assms free Inr fn show thesis
        by (cases "po_Save os") (auto simp: updatePending_def intro: unsaved saved)
    next
      case (Some e')
      with assms free Inr fn show thesis by (intro refused [OF Inr, of e' ps']) (simp_all add: updatePending_def)
    qed
  qed
qed

section \<open>Any interleaving of agents and humans\<close>

datatype reviewOp =
    AgentPropose pendingOS proposal
  | HumanApprove pendingOS policyOS string string
  | HumanReject pendingOS string

definition reviewStep :: "(bytes \<Rightarrow> bytes) \<Rightarrow> (bytes \<Rightarrow> string + policyFile) \<Rightarrow> (nat \<Rightarrow> bool) \<Rightarrow> reviewOp \<Rightarrow>
    pendingFile \<times> string \<Rightarrow> pendingFile \<times> string" where
  "reviewStep sha decode isPrint op s =
     (case s of (pf, pol) \<Rightarrow>
        (case op of
           AgentPropose os p \<Rightarrow> (fst (createProposal os p pf), pol)
         | HumanApprove os pos pid digest \<Rightarrow>
             (case updatePending os (approveFn sha pos decode isPrint pid digest) pf pol of (pf, pol, _) \<Rightarrow> (pf, pol))
         | HumanReject os pid \<Rightarrow> (fst (rejectCmd os pid pf), pol)))"

definition decides :: "reviewOp \<Rightarrow> string \<Rightarrow> bool" where
  "decides op pid \<longleftrightarrow> (case op of AgentPropose _ _ \<Rightarrow> False | HumanApprove _ _ q _ \<Rightarrow> q = pid | HumanReject _ q \<Rightarrow> q = pid)"

definition isAgent :: "reviewOp \<Rightarrow> bool" where
  "isAgent op \<longleftrightarrow> (\<exists>os p. op = AgentPropose os p)"

definition pendingHas :: "pendingFile \<Rightarrow> proposal \<Rightarrow> bool" where
  "pendingHas pf p \<longleftrightarrow> (\<exists>ps. loadPending pf = Inr ps \<and> findProposal (pp_ID p) ps = Some p)"

lemma updatePending_keeps:
  assumes "updatePending os fn pf s = (pf', s', err)" "pendingHas pf p"
    and "\<And>ps s ps' s'. fn ps s = (None, ps', s') \<Longrightarrow> findProposal (pp_ID p) ps = Some p \<Longrightarrow> findProposal (pp_ID p) ps' = Some p"
  shows "pendingHas pf' p"
  using assms(1)
proof (cases rule: updatePending_cases)
  case (saved ps ps')
  with assms(2,3) show ?thesis by (auto simp: pendingHas_def loadPending_def)
qed (use assms(2) in auto)

lemma reviewStep_keeps:
  assumes "pendingHas pf p" "\<not> decides op (pp_ID p)"
  shows "pendingHas (fst (reviewStep sha decode isPrint op (pf, pol))) p"
proof (cases op)
  case (AgentPropose os q)
  obtain pf' r err where u: "updatePending os (createFn q) pf None = (pf', r, err)" by (metis prod_cases3)
  have "pendingHas pf' p" by (rule updatePending_keeps [OF u assms(1)]) (rule createFn_keeps)
  with AgentPropose u show ?thesis by (simp add: reviewStep_def createProposal_def)
next
  case (HumanApprove os pos q digest)
  obtain pf' r err where u: "updatePending os (approveFn sha pos decode isPrint q digest) pf pol = (pf', r, err)"
    by (metis prod_cases3)
  have "pendingHas pf' p"
  proof (rule updatePending_keeps [OF u assms(1)])
    fix ps s ps' s' assume "approveFn sha pos decode isPrint q digest ps s = (None, ps', s')" "findProposal (pp_ID p) ps = Some p"
    then show "findProposal (pp_ID p) ps' = Some p"
      using assms(2) HumanApprove by (auto simp: approveFn_def decides_def find_remove split: option.splits if_splits prod.splits)
  qed
  with HumanApprove u show ?thesis by (simp add: reviewStep_def)
next
  case (HumanReject os q)
  obtain pf' r err where u: "updatePending os (rejectFn q) pf () = (pf', r, err)" by (metis prod_cases3)
  have "pendingHas pf' p"
  proof (rule updatePending_keeps [OF u assms(1)])
    fix ps s ps' s' assume "rejectFn q ps s = (None, ps', s')" "findProposal (pp_ID p) ps = Some p"
    then show "findProposal (pp_ID p) ps' = Some p"
      using assms(2) HumanReject by (auto simp: rejectFn_def decides_def find_remove split: if_splits)
  qed
  with HumanReject u show ?thesis by (simp add: reviewStep_def rejectCmd_def)
qed

text \<open>C25: A proposal cannot change under review. In any interleaving of agents and humans, a proposal that is pending stays
  pending exactly as it is until a human approves or rejects its ID, whatever agents propose in
  between; and agents alone never change the policy.\<close>

theorem pending_immutable:
  assumes "pendingHas pf p"
  shows "((\<forall>op \<in> set ops. \<not> decides op (pp_ID p)) \<longrightarrow>
      pendingHas (fst (fold (reviewStep sha decode isPrint) ops (pf, pol))) p) \<and>
    ((\<forall>op \<in> set ops. isAgent op) \<longrightarrow>
      pendingHas (fst (fold (reviewStep sha decode isPrint) ops (pf, pol))) p \<and>
      snd (fold (reviewStep sha decode isPrint) ops (pf, pol)) = pol)"
  using assms
proof (induction ops arbitrary: pf pol)
  case (Cons op ops)
  obtain file1 pol1 where s: "reviewStep sha decode isPrint op (pf, pol) = (file1, pol1)" by fastforce
  have keep: "\<not> decides op (pp_ID p) \<Longrightarrow> pendingHas file1 p" using reviewStep_keeps [OF Cons.prems] s by (metis fst_conv)
  have agent: "isAgent op \<Longrightarrow> pol1 = pol \<and> \<not> decides op (pp_ID p)"
    using s by (auto simp: isAgent_def decides_def reviewStep_def)
  from Cons.IH [of file1 pol1] keep agent show ?case by (auto simp: s)
qed simp

section \<open>The rendered block\<close>

text \<open>What is relied on of the tables of the standard library: line breaks are not printable.\<close>

definition printOk :: "(nat \<Rightarrow> bool) \<Rightarrow> bool" where
  "printOk isPrint \<longleftrightarrow> (\<forall>r. isBreak r \<longrightarrow> \<not> isPrint r)"

lemma plainRest_plain: "plainRest c \<Longrightarrow> plainByte c"
proof -
  assume "plainRest c"
  then consider "asciiLetter c" | "asciiDigit c" | "c \<in> set ''_./-=+@%''" by (auto simp: plainRest_def plainFirst_def)
  then show ?thesis
    by cases (auto simp: asciiLetter_def asciiDigit_def plainByte_def less_eq_char_def)
qed

lemma unbroken_scalar:
  assumes "printOk isPrint"
  shows "unbroken (yamlScalar isPrint s)"
proof (cases "yamlPlainSafe s")
  case True
  then have "list_all plainByte s"
    by (cases s) (auto simp: yamlPlainSafe_def list_all_iff plainRest_def intro: plainRest_plain)
  then show ?thesis using assms by (auto simp: yamlScalar_def printOk_def intro: unbroken_plain unbroken_Quote)
next
  case False
  then show ?thesis using assms by (auto simp: yamlScalar_def printOk_def intro: unbroken_Quote)
qed

lemma unbroken_runeError: "unbroken runeErrorBytes"
proof -
  have d: "decodeRune (runeErrorBytes @ t) = (0xFFFD, 3)" for t
    by (simp add: runeErrorBytes_def byteChar_def contByte_def)
  have "runeSplit (runeErrorBytes @ t) = (0xFFFD, runeErrorBytes) # runeSplit t" for t
    by (subst runeSplit.simps) (use d in \<open>simp add: runeErrorBytes_def\<close>)
  from this this [of "[]"] show ?thesis
    by (simp add: unbroken_def runesOf_def isBreak_def runeSplit.simps [of "[]"])
qed

lemma unbroken_comment: "unbroken (yamlComment s)"
  unfolding yamlComment_def
proof (rule unbroken_concat)
  fix x assume "x \<in> set (List.map commentRune (runeSplit s))"
  then obtain r b where rb: "(r, b) \<in> set (runeSplit s)" "x = commentRune (r, b)" by auto
  have "isBreak r \<Longrightarrow> isControl r \<or> r = 0x2028 \<or> r = 0x2029" by (auto simp: isBreak_def isControl_def)
  moreover have "unbroken '' ''" by (rule unbroken_plain) (simp add: plainByte_def)
  ultimately show "unbroken x"
    using unbroken_rune [OF rb(1)] unbroken_runeError by (auto simp: rb(2) commentRune_def)
qed

definition blockLines :: "(nat \<Rightarrow> bool) \<Rightarrow> bool \<Rightarrow> proposal \<Rightarrow> string list" where
  "blockLines isPrint usesEntries p =
     (if pp_Reason p \<noteq> [] then [''  # '' @ yamlComment (''approved: '' @ pp_Reason p)] else []) @
     [''  - id: '' @ yamlScalar isPrint (pp_ID p),
      ''    argv: ['' @ Join (List.map (yamlScalar isPrint) (pp_Argv p)) '', '' @ '']'',
      ''    ttl: 120s''] @
     (case pp_Env p of
        None \<Rightarrow> []
      | Some kvs \<Rightarrow>
          if kvs = [] then []
          else if usesEntries
          then [''    secrets: ['' @ Join (sort (List.map (\<lambda>kv. yamlScalar isPrint (fst kv)) kvs)) '', '' @ '']'']
          else ''    env:'' # List.map (\<lambda>(k, v). ''      '' @ yamlScalar isPrint k @ '': '' @ yamlScalar isPrint v) kvs)"

abbreviation unlinesOf :: "string list \<Rightarrow> string" where
  "unlinesOf ls \<equiv> concat (List.map (\<lambda>l. l @ [newline]) ls)"

lemma unlines_pairs: "unlinesOf (List.map (\<lambda>(k, v). a @ f k @ b @ f v) kvs) =
    concat (List.map (\<lambda>(k, v). a @ f k @ b @ f v @ [newline]) kvs)"
  by (induction kvs) auto

lemma approvedBlock_lines: "approvedBlock isPrint usesEntries p = unlinesOf (blockLines isPrint usesEntries p)"
proof -
  have pairs: "concat (List.map (\<lambda>(k, v). ''      '' @ yamlScalar isPrint k @ '': '' @ yamlScalar isPrint v @ [newline]) kvs) =
      unlinesOf (List.map (\<lambda>(k, v). ''      '' @ yamlScalar isPrint k @ '': '' @ yamlScalar isPrint v) kvs)" for kvs
    by (rule unlines_pairs [symmetric])
  show ?thesis
    unfolding approvedBlock_def renderCommandBlock_def blockLines_def pairs
    by (cases "pp_Env p"; cases usesEntries) (simp_all del: unlines_pairs)
qed

lemma plain_lit: "list_all plainByte ''  # ''" "list_all plainByte ''  - id: ''" "list_all plainByte ''    argv: [''"
  "list_all plainByte '']''" "list_all plainByte '', ''" "list_all plainByte ''    ttl: 120s''" "list_all plainByte ''    secrets: [''"
  "list_all plainByte ''    env:''" "list_all plainByte ''      ''" "list_all plainByte '': ''"
  by (simp_all add: plainByte_def)

lemmas unbroken_lit = plain_lit [THEN unbroken_plain]

definition okLine :: "string \<Rightarrow> bool" where
  "okLine l \<longleftrightarrow> unbroken l \<and> prefix ''  '' l"

lemma okLine_append: "list_all plainByte a \<Longrightarrow> prefix ''  '' a \<Longrightarrow> unbroken b \<Longrightarrow> okLine (a @ b)"
  unfolding okLine_def by (blast intro: unbroken_append unbroken_plain prefix_prefix)

lemma indent_lit: "prefix ''  '' ''  # ''" "prefix ''  '' ''  - id: ''" "prefix ''  '' ''    argv: [''" "prefix ''  '' ''    ttl: 120s''"
  "prefix ''  '' ''    secrets: [''" "prefix ''  '' ''    env:''" "prefix ''  '' ''      ''"
  by simp_all

lemma okLine_lit: "okLine ''    ttl: 120s''" "okLine ''    env:''"
  using unbroken_lit(6,8) indent_lit(4,6) by (simp_all only: okLine_def simp_thms)

lemma blockLines_ok:
  assumes "printOk isPrint"
  shows "list_all okLine (blockLines isPrint usesEntries p)"
proof -
  note sc = unbroken_scalar [OF assms]
  have seq: "unbroken (Join xs '', '' @ '']'')" if "\<And>x. x \<in> set xs \<Longrightarrow> unbroken x" for xs
    by (rule unbroken_append [OF unbroken_Join [OF that unbroken_lit(5)] unbroken_lit(4)])
  have args: "unbroken (Join (List.map (yamlScalar isPrint) (pp_Argv p)) '', '' @ '']'')"
    by (rule seq) (use sc in auto)
  have names: "unbroken (Join (sort (List.map (\<lambda>kv. yamlScalar isPrint (fst kv)) kvs)) '', '' @ '']'')" for kvs :: "string gomap"
    by (rule seq) (use sc in auto)
  have pair: "unbroken (yamlScalar isPrint k @ '': '' @ yamlScalar isPrint v)" for k v
    by (rule unbroken_append [OF sc unbroken_append [OF unbroken_lit(10) sc]])
  have comment: "okLine (''  # '' @ yamlComment (''approved: '' @ pp_Reason p))"
    by (rule okLine_append [OF plain_lit(1) indent_lit(1) unbroken_comment])
  have name: "okLine (''  - id: '' @ yamlScalar isPrint (pp_ID p))"
    by (rule okLine_append [OF plain_lit(2) indent_lit(2) sc])
  have argv: "okLine (''    argv: ['' @ Join (List.map (yamlScalar isPrint) (pp_Argv p)) '', '' @ '']'')"
    by (rule okLine_append [OF plain_lit(3) indent_lit(3) args])
  have secrets: "okLine (''    secrets: ['' @ Join (sort (List.map (\<lambda>kv. yamlScalar isPrint (fst kv)) kvs)) '', '' @ '']'')"
    for kvs :: "string gomap" by (rule okLine_append [OF plain_lit(7) indent_lit(5) names])
  have pairs: "list_all okLine (List.map (\<lambda>(k, v). ''      '' @ yamlScalar isPrint k @ '': '' @ yamlScalar isPrint v) kvs)"
    for kvs :: "string gomap"
    unfolding list_all_iff set_map by (clarify) (rule okLine_append [OF plain_lit(9) indent_lit(7) pair])
  show ?thesis
    unfolding blockLines_def list_all_append
    by (cases "pp_Env p")
      (simp_all only: comment name argv secrets pairs okLine_lit list.pred_inject if_True if_False option.case simp_thms split: if_split)
qed

text \<open>C26: A proposal cannot add structure to the policy. Whatever text it holds, the block that an approval inserts
  consists of one line for the reason if there is one, three for the identifier, the arguments and
  the lifetime, and those for the secrets; no line has a line break of YAML inside, and every line is
  indented, so none can leave the section of the commands.\<close>

theorem block_lines_fixed:
  assumes "printOk isPrint"
  shows "approvedBlock isPrint usesEntries p = unlinesOf (blockLines isPrint usesEntries p) \<and>
    list_all (\<lambda>l. unbroken l \<and> prefix ''  '' l) (blockLines isPrint usesEntries p) \<and>
    length (blockLines isPrint usesEntries p) =
      (if pp_Reason p = [] then 3 else 4) +
      (case pp_Env p of None \<Rightarrow> 0 | Some kvs \<Rightarrow> if kvs = [] then 0 else if usesEntries then 1 else Suc (length kvs))"
proof -
  have "length (blockLines isPrint usesEntries p) =
      (if pp_Reason p = [] then 3 else 4) +
      (case pp_Env p of None \<Rightarrow> 0 | Some kvs \<Rightarrow> if kvs = [] then 0 else if usesEntries then 1 else Suc (length kvs))"
    by (cases "pp_Env p") (simp_all add: blockLines_def)
  then show ?thesis using approvedBlock_lines blockLines_ok [OF assms] by (simp add: okLine_def [abs_def])
qed


section \<open>What an approval does\<close>

text \<open>The end of the section of the commands: between a text and what follows it.\<close>

definition commandsLine :: "string \<Rightarrow> bool" where
  "commandsLine l \<longleftrightarrow> TrimSpace l = ''commands:'' \<and> topLevel l"

definition nextSection :: "string \<Rightarrow> bool" where
  "nextSection l \<longleftrightarrow> TrimSpace l \<noteq> [] \<and> topLevel l"

definition commandsEnd :: "string \<Rightarrow> string \<Rightarrow> bool" where
  "commandsEnd before after \<longleftrightarrow>
     (\<exists>a l b c. splitAfter (before @ after) = a @ l # b @ c \<and> before = concat a @ l @ concat b \<and> after = concat c \<and>
        list_all (\<lambda>x. \<not> commandsLine x) a \<and> commandsLine l \<and> list_all (\<lambda>x. \<not> nextSection x) b \<and>
        (case c of [] \<Rightarrow> True | x # _ \<Rightarrow> nextSection x))"

lemma concat_splitAfter: "concat (splitAfter s) = s"
  by (induction s) (auto split: list.splits)

lemma insertPoint_True:
  "insertPoint True off ls = (found, pos) \<Longrightarrow>
    \<exists>b c. ls = b @ c \<and> found \<and> list_all (\<lambda>x. \<not> nextSection x) b \<and> (case c of [] \<Rightarrow> True | x # _ \<Rightarrow> nextSection x) \<and>
      pos = (if c = [] then None else Some (off + length (concat b)))"
proof (induction ls arbitrary: off)
  case (Cons l ls)
  show ?case
  proof (cases "nextSection l")
    case True
    with Cons.prems show ?thesis by (intro exI [of _ "[]"] exI [of _ "l # ls"]) (auto simp: nextSection_def)
  next
    case False
    with Cons.prems have "insertPoint True (off + length l) ls = (found, pos)" by (auto simp: nextSection_def split: if_splits)
    from Cons.IH [OF this] obtain b c where "ls = b @ c" "found" "list_all (\<lambda>x. \<not> nextSection x) b"
      "case c of [] \<Rightarrow> True | x # _ \<Rightarrow> nextSection x" "pos = (if c = [] then None else Some (off + length l + length (concat b)))"
      by blast
    with False show ?thesis by (intro exI [of _ "l # b"] exI [of _ c]) auto
  qed
qed auto

lemma insertPoint_False:
  "insertPoint False off ls = (True, pos) \<Longrightarrow>
    \<exists>a l b c. ls = a @ l # b @ c \<and> list_all (\<lambda>x. \<not> commandsLine x) a \<and> commandsLine l \<and> list_all (\<lambda>x. \<not> nextSection x) b \<and>
      (case c of [] \<Rightarrow> True | x # _ \<Rightarrow> nextSection x) \<and>
      pos = (if c = [] then None else Some (off + length (concat a @ l @ concat b)))"
proof (induction ls arbitrary: off)
  case (Cons l ls)
  show ?case
  proof (cases "commandsLine l")
    case True
    with Cons.prems have "insertPoint True (off + length l) ls = (True, pos)" by (simp add: commandsLine_def)
    from insertPoint_True [OF this] obtain b c where "ls = b @ c" "list_all (\<lambda>x. \<not> nextSection x) b"
      "case c of [] \<Rightarrow> True | x # _ \<Rightarrow> nextSection x" "pos = (if c = [] then None else Some (off + length l + length (concat b)))"
      by blast
    with True show ?thesis by (intro exI [of _ "[]"] exI [of _ l] exI [of _ b] exI [of _ c]) auto
  next
    case False
    with Cons.prems have "insertPoint False (off + length l) ls = (True, pos)" by (auto simp: commandsLine_def)
    from Cons.IH [OF this] obtain a l' b c where "ls = a @ l' # b @ c" "list_all (\<lambda>x. \<not> commandsLine x) a" "commandsLine l'"
      "list_all (\<lambda>x. \<not> nextSection x) b" "case c of [] \<Rightarrow> True | x # _ \<Rightarrow> nextSection x"
      "pos = (if c = [] then None else Some (off + length l + length (concat a @ l' @ concat b)))"
      by blast
    with False show ?thesis by (intro exI [of _ "l # a"] exI [of _ l'] exI [of _ b] exI [of _ c]) auto
  qed
qed auto

lemma insertCommandBlock_spec:
  assumes "insertCommandBlock s block = Inr s'"
  shows "\<exists>before after. s = before @ after \<and> commandsEnd before after \<and> s' = withNewline before @ withNewline block @ after"
proof -
  obtain found pos where ip: "insertPoint False 0 (splitAfter s) = (found, pos)" by fastforce
  with assms have "found" by (cases found) (auto simp: insertCommandBlock_def)
  with ip have "insertPoint False 0 (splitAfter s) = (True, pos)" by simp
  from insertPoint_False [OF this] obtain a l b c where sp: "splitAfter s = a @ l # b @ c" "list_all (\<lambda>x. \<not> commandsLine x) a"
      "commandsLine l" "list_all (\<lambda>x. \<not> nextSection x) b" "case c of [] \<Rightarrow> True | x # _ \<Rightarrow> nextSection x"
      "pos = (if c = [] then None else Some (length (concat a @ l @ concat b)))"
    by auto
  have s: "s = (concat a @ l @ concat b) @ concat c" by (subst concat_splitAfter [symmetric]) (simp add: sp(1))
  have "commandsEnd (concat a @ l @ concat b) (concat c)"
    unfolding commandsEnd_def s [symmetric] using sp by blast
  moreover have "take (case pos of None \<Rightarrow> length s | Some i \<Rightarrow> i) s = concat a @ l @ concat b"
      "drop (case pos of None \<Rightarrow> length s | Some i \<Rightarrow> i) s = concat c"
    using sp(6) by (subst s; cases "c = []"; simp)+
  moreover have "s' = withNewline (take (case pos of None \<Rightarrow> length s | Some i \<Rightarrow> i) s) @ withNewline block @
      drop (case pos of None \<Rightarrow> length s | Some i \<Rightarrow> i) s"
    using assms ip \<open>found\<close> by (simp add: insertCommandBlock_def Let_def)
  ultimately show ?thesis using s by metis
qed

text \<open>A write of the policy that failed, or the write that takes a bad merge back, has left this text.\<close>

definition policyLost :: "policyOS \<Rightarrow> string \<Rightarrow> bool" where
  "policyLost pos left \<longleftrightarrow> (\<exists>e. pl_Write pos = TextLost left e \<or> pl_Rollback pos = TextLost left e)"

lemma append_policy_cases:
  assumes "appendCommandToPolicy pos decode isPrint p s = (s', err)"
  shows "err \<noteq> None \<and> (s' = s \<or> policyLost pos s') \<or>
    err = None \<and> (\<exists>cur after_f before after. Parse decode s = Inr cur \<and> s = before @ after \<and> commandsEnd before after \<and>
      s' = withNewline before @ withNewline (approvedBlock isPrint (UsesEnvironmentEntries (Some cur)) p) @ after \<and>
      Parse decode s' = Inr after_f)"
proof (cases "\<exists>cur merged. pl_Read pos = None \<and> Parse decode s = Inr cur \<and>
    insertCommandBlock s (approvedBlock isPrint (UsesEnvironmentEntries (Some cur)) p) = Inr merged")
  case False
  with assms show ?thesis by (auto simp: appendCommandToPolicy_def split: option.splits sum.splits)
next
  case True
  then obtain cur merged where m: "pl_Read pos = None" "Parse decode s = Inr cur"
    "insertCommandBlock s (approvedBlock isPrint (UsesEnvironmentEntries (Some cur)) p) = Inr merged" by blast
  show ?thesis
  proof (cases "pl_Write pos")
    case (TextLost left e)
    with assms m show ?thesis by (auto simp: appendCommandToPolicy_def writeText_def policyLost_def)
  next
    case TextWritten
    show ?thesis
    proof (cases "Load decode (case pl_Reload pos of Some err \<Rightarrow> ReadFailed err | None \<Rightarrow> ReadData merged)")
      case (Inl e)
      with assms m TextWritten show ?thesis
        by (cases "pl_Rollback pos") (auto simp: appendCommandToPolicy_def writeText_def policyLost_def)
    next
      case (Inr f)
      with assms m TextWritten have "s' = merged" "err = None" by (simp_all add: appendCommandToPolicy_def writeText_def)
      moreover have "Parse decode merged = Inr f" using Inr by (auto simp: Load_def split: option.splits)
      ultimately show ?thesis using insertCommandBlock_spec [OF m(3)] m(2) by blast
    qed
  qed
qed

definition answeredYes :: "bool \<Rightarrow> string \<Rightarrow> bool" where
  "answeredYes yes answer \<longleftrightarrow> yes \<or> TrimSpace (ToLower answer) = ''y''"

text \<open>The proposal that was reviewed and answered with yes is, with the digest that was reviewed, the one that is pending now.\<close>

definition stillReviewed :: "(bytes \<Rightarrow> bytes) \<Rightarrow> (bytes \<Rightarrow> string + policyFile) \<Rightarrow> string \<Rightarrow> bool \<Rightarrow> string \<Rightarrow> string \<Rightarrow>
    pendingFile \<Rightarrow> string \<Rightarrow> pendingFile \<Rightarrow> proposal list \<Rightarrow> proposal \<Rightarrow> bool" where
  "stillReviewed sha decode expected yes answer pid pf pol pf1 ps p \<longleftrightarrow>
     (\<exists>reviewed. approveReview sha decode expected pid pf pol = Inr (reviewed, ReviewDigest sha reviewed) \<and> answeredYes yes answer \<and>
        loadPending pf1 = Inr ps \<and> findProposal pid ps = Some p \<and> ReviewDigest sha p = ReviewDigest sha reviewed)"

text \<open>C24: An approval does exactly what was reviewed. Either the policy and the pending file are what they were, which without an
  error means that the answer was no; or the proposal that was reviewed passed
  the review, the human answered yes, and the proposal that is pending when the change is committed
  has the digest that was reviewed. Then the policy changes by the block of that proposal, inserted
  at the end of the section of the commands, and the result is a valid policy, while the proposal leaves the pending file unless saving
  that fails with an error; or a write of the policy failed (the file is not written atomically),
  the error is reported, the proposal stays pending, and the policy is whatever text that write left.\<close>

theorem approve_exact:
  assumes "approveCmd sha os pos decode isPrint expected yes answer pid pf pol pf1 pol1 = (pf2, pol2, err)"
  shows "pf2 = pf1 \<and> pol2 = pol1 \<and> (err = None \<longrightarrow> \<not> answeredYes yes answer) \<or>
    (\<exists>ps p. stillReviewed sha decode expected yes answer pid pf pol pf1 ps p \<and>
      ((\<exists>current merged before after.
          Parse decode pol1 = Inr current \<and> pol1 = before @ after \<and> commandsEnd before after \<and>
          pol2 = withNewline before @ withNewline (approvedBlock isPrint (UsesEnvironmentEntries (Some current)) p) @ after \<and>
          Parse decode pol2 = Inr merged \<and>
          (err = None \<and> pf2 = Pending (removeProposal pid ps) \<or> err \<noteq> None \<and> pf2 = pf1)) \<or>
       err \<noteq> None \<and> pf2 = pf1 \<and> policyLost pos pol2))"
proof (cases "approveReview sha decode expected pid pf pol")
  case (Inl e)
  with assms show ?thesis by (auto simp: approveCmd_def)
next
  case (Inr r)
  obtain reviewed where r: "approveReview sha decode expected pid pf pol = Inr (reviewed, ReviewDigest sha reviewed)"
    using Inr by (auto simp: approveReview_def Let_def split: sum.splits option.splits if_splits)
  show ?thesis
  proof (cases "answeredYes yes answer")
    case False
    with assms r show ?thesis by (simp add: approveCmd_def answeredYes_def)
  next
    case yes: True
    with assms r have u: "updatePending os (approveFn sha pos decode isPrint pid (ReviewDigest sha reviewed)) pf1 pol1 = (pf2, pol2, err)"
      by (auto simp: approveCmd_def answeredYes_def)
    have fn: "e \<noteq> None \<and> s' = pol1 \<or>
        (\<exists>p. findProposal pid ps = Some p \<and> ReviewDigest sha p = ReviewDigest sha reviewed \<and>
          (e \<noteq> None \<and> policyLost pos s' \<or>
           e = None \<and> ps' = removeProposal pid ps \<and> appendCommandToPolicy pos decode isPrint p pol1 = (s', None)))"
      if "approveFn sha pos decode isPrint pid (ReviewDigest sha reviewed) ps pol1 = (e, ps', s')" for ps e ps' s'
      using that append_policy_cases [of pos decode isPrint _ pol1 s']
      by (fastforce simp: approveFn_def split: option.splits if_splits prod.splits)
    have now: "stillReviewed sha decode expected yes answer pid pf pol pf1 ps p"
      if "loadPending pf1 = Inr ps" "findProposal pid ps = Some p" "ReviewDigest sha p = ReviewDigest sha reviewed" for ps p
      using that r yes unfolding stillReviewed_def by blast
    from u show ?thesis
    proof (cases rule: updatePending_cases)
      case blocked
      then show ?thesis by auto
    next
      case (refused ps e ps')
      from fn [OF refused(2)] show ?thesis
      proof
        assume "Some e \<noteq> None \<and> pol2 = pol1"
        with refused show ?thesis by simp
      qed (use refused now in blast)
    next
      case (unsaved ps ps' e)
      with fn [OF unsaved(2)] obtain p where p: "findProposal pid ps = Some p" "ReviewDigest sha p = ReviewDigest sha reviewed"
        "appendCommandToPolicy pos decode isPrint p pol1 = (pol2, None)" by auto
      with append_policy_cases [OF p(3)] now [OF unsaved(1) p(1,2)] unsaved show ?thesis by blast
    next
      case (saved ps ps')
      with fn [OF saved(2)] obtain p where p: "findProposal pid ps = Some p" "ReviewDigest sha p = ReviewDigest sha reviewed"
        "ps' = removeProposal pid ps" "appendCommandToPolicy pos decode isPrint p pol1 = (pol2, None)" by auto
      with append_policy_cases [OF p(4)] now [OF saved(1) p(1,2)] saved show ?thesis by blast
    qed
  qed
qed

section \<open>A proposal that is reviewed, approved and committed\<close>

definition exProposal :: proposal where
  "exProposal = \<lparr>pp_ID = ''lint'', pp_Argv = [''go'', ''vet''], pp_Env = Some [(''API_KEY'', ''api'')], pp_Reason = [],
     pp_ProposedAt = ''2026'', pp_Status = ''pending''\<rparr>"

definition exReviewPolicy :: policyFile where
  "exReviewPolicy = \<lparr>f_Version = ''2'', f_Provider = [], f_Commands = [\<lparr>c_ID = ''test'', c_Argv = [''go'', ''test''], c_Env = [],
     c_Secrets = [], c_TTL = 0, c_MaxBytes = 0, c_NoNetwork = False, c_AllowNetwork = False, c_WorkDir = [], c_Seccomp = None\<rparr>], f_EnvironmentSet = [], f_Secrets = [], f_SeccompDefault = None, f_AuditLog = [],
     f_AllowProposals = True, f_RequireAgentLeases = False\<rparr>"

abbreviation exPrint :: "nat \<Rightarrow> bool" where
  "exPrint r \<equiv> 32 \<le> r \<and> r < 127"

definition exCommands :: string where
  "exCommands = ''commands:'' @ [newline]"

definition exBlock :: string where
  "exBlock = ''  - id: lint'' @ [newline] @ ''    argv: [go, vet]'' @ [newline] @ ''    ttl: 120s'' @ [newline] @
     ''    secrets: [API_KEY]'' @ [newline]"

lemma exScalar: "yamlScalar exPrint ''lint'' = ''lint''" "yamlScalar exPrint ''go'' = ''go''" "yamlScalar exPrint ''vet'' = ''vet''"
  "yamlScalar exPrint ''API_KEY'' = ''API_KEY''"
  by (simp_all add: yamlScalar_def EqualFold_def foldBytes_ascii lowerByte_def yamlPlainSafe_def plainRest_def plainFirst_def
      asciiLetter_def asciiDigit_def less_eq_char_def of_char_of del: foldBytes.simps)

lemma exBlock: "approvedBlock exPrint True exProposal = exBlock"
  by (simp add: approvedBlock_def renderCommandBlock_def exProposal_def exScalar exBlock_def)

lemma exInsert: "insertCommandBlock exCommands exBlock = Inr (exCommands @ exBlock)"
proof -
  have "TrimSpace exCommands = ''commands:''" "TrimSpace [] = []" by (simp_all add: trim_eval exCommands_def)
  moreover have "splitAfter exCommands = [exCommands, []]" "topLevel exCommands"
    by (simp_all add: exCommands_def topLevel_def)
  ultimately have "insertPoint False 0 (splitAfter exCommands) = (True, None)" by simp
  moreover have "withNewline exCommands = exCommands" "withNewline exBlock = exBlock"
    by (simp_all add: withNewline_def exCommands_def exBlock_def suffix_to_prefix)
  ultimately show ?thesis by (simp add: insertCommandBlock_def)
qed

lemma exParse: "Parse (\<lambda>_. Inr exReviewPolicy) s = Inr exReviewPolicy"
  unfolding Parse_def exReviewPolicy_def by code_simp

definition exSha :: "bytes \<Rightarrow> bytes" where
  "exSha b = take 3 (drop 40 b)"

definition exDigest :: string where
  "exDigest = ReviewDigest exSha exProposal"

abbreviation exOS :: pendingOS where
  "exOS \<equiv> \<lparr>po_Mkdir = None, po_Lock = None, po_Save = None\<rparr>"

abbreviation exWrites :: policyOS where
  "exWrites \<equiv> \<lparr>pl_Read = None, pl_Write = TextWritten, pl_Reload = None, pl_Rollback = TextWritten\<rparr>"

lemma exReview: "approveReview exSha (\<lambda>_. Inr exReviewPolicy) exDigest ''lint'' (Pending [exProposal]) exCommands = Inr (exProposal, exDigest)"
proof -
  have "findProposal ''lint'' [exProposal] = Some exProposal" "IsShellString (pp_Argv exProposal) = False"
    "Lookup exReviewPolicy ''lint'' = Inl (ErrCommandNotFound ''lint'')"
    by code_simp+
  then show ?thesis by (simp add: approveReview_def loadPending_def exParse exDigest_def)
qed

lemma exApprove: "approveCmd exSha exOS exWrites (\<lambda>_. Inr exReviewPolicy) exPrint exDigest True [] ''lint''
    (Pending [exProposal]) exCommands (Pending [exProposal]) exCommands = (Pending [], exCommands @ exBlock, None)"
proof -
  have "findProposal ''lint'' [exProposal] = Some exProposal" "removeProposal ''lint'' [exProposal] = []"
    "UsesEnvironmentEntries (Some exReviewPolicy) = True"
    by code_simp+
  then show ?thesis
    by (simp add: approveCmd_def exReview updatePending_def loadPending_def approveFn_def exDigest_def [symmetric]
        appendCommandToPolicy_def Load_def exParse exBlock exInsert writeText_def del: removeProposal.simps)
qed

theorem approve_exact_witness:
  "exCommands @ exBlock \<noteq> exCommands \<and>
    (\<exists>ps p current merged before after.
      stillReviewed exSha (\<lambda>_. Inr exReviewPolicy) exDigest True [] ''lint'' (Pending [exProposal]) exCommands (Pending [exProposal]) ps p \<and>
      Parse (\<lambda>_. Inr exReviewPolicy) exCommands = Inr current \<and> exCommands = before @ after \<and> commandsEnd before after \<and>
      exCommands @ exBlock = withNewline before @ withNewline (approvedBlock exPrint (UsesEnvironmentEntries (Some current)) p) @ after \<and>
      Parse (\<lambda>_. Inr exReviewPolicy) (exCommands @ exBlock) = Inr merged)"
proof -
  have "exBlock \<noteq> []" by (simp add: exBlock_def)
  then have "exCommands @ exBlock \<noteq> exCommands" by simp
  with approve_exact [OF exApprove] show ?thesis by blast
qed

theorem pending_immutable_witness:
  "pendingHas (fst (fold (reviewStep exSha (\<lambda>_. Inr exReviewPolicy) exPrint)
      [AgentPropose exOS (exProposal\<lparr>pp_Argv := [''sh'']\<rparr>)] (Pending [exProposal], exCommands))) exProposal \<and>
    snd (fold (reviewStep exSha (\<lambda>_. Inr exReviewPolicy) exPrint)
      [AgentPropose exOS (exProposal\<lparr>pp_Argv := [''sh'']\<rparr>)] (Pending [exProposal], exCommands)) = exCommands"
proof -
  have "pendingHas (Pending [exProposal]) exProposal" by (simp add: pendingHas_def loadPending_def findProposal_def)
  moreover have "\<forall>op \<in> set [AgentPropose exOS (exProposal\<lparr>pp_Argv := [''sh'']\<rparr>)]. isAgent op" by (simp add: isAgent_def)
  ultimately show ?thesis
    using pending_immutable [of "Pending [exProposal]" exProposal "[AgentPropose exOS (exProposal\<lparr>pp_Argv := [''sh'']\<rparr>)]"
        exSha "\<lambda>_. Inr exReviewPolicy" exPrint exCommands] by blast
qed

theorem block_lines_fixed_witness:
  "list_all (\<lambda>l. unbroken l \<and> prefix ''  '' l) (blockLines exPrint False (exProposal\<lparr>pp_Reason := [newline] @ ''commands:''\<rparr>)) \<and>
    length (blockLines exPrint False (exProposal\<lparr>pp_Reason := [newline] @ ''commands:''\<rparr>)) = 6"
proof -
  have "printOk exPrint" by (auto simp: printOk_def isBreak_def)
  from block_lines_fixed [OF this, of False "exProposal\<lparr>pp_Reason := [newline] @ ''commands:''\<rparr>"] show ?thesis
    by (simp add: exProposal_def)
qed

end
