(* ===== verification/Authorization.thy ===== *)
theory Authorization
  imports Execution Access_Props Proposals
begin

text \<open>
  How a sealed run waits for its authorization: \<open>awaitRunAuthorization\<close>,
  \<open>awaitWorkspaceAuthorization\<close>, \<open>requestMissingSecrets\<close> and the run handler of
  \<open>src/mcp/server.go\<close>.

  The loops poll files that people and other processes change.  A \<open>world\<close> is what one round sees: what the
  others have done to the access state since the round before, the policy file, the pending file,
  the environments and stores as they open now, the clock, and whether the wait was cancelled.  The list of
  worlds is what a call lives through; when it ends, or a call of the access manager does not come back
  from its lock, the call is still waiting.
\<close>

section \<open>What a round sees\<close>

record 's world =
  mw_Others :: "(osEnv \<times> accessOp) list"
  mw_Policy :: "policyError + policyFile"
  mw_Pending :: pendingFile
  mw_Env :: "'s envEnv"
  mw_OpenEnv :: "string + 's envManager"
  mw_OpenSecret :: "string \<Rightarrow> secretError + secretGet"
  mw_OS :: "nat \<Rightarrow> osEnv"
  mw_Now :: time
  mw_Cancelled :: bool

text \<open>\<open>StillLocking\<close> is not an error of the code: it marks a call that has not come back from the lock of the access state.\<close>

datatype mcpError =
    AccessUnavailable
  | RequestWas string string requestStatus
  | ApprovalExpired string
  | PolicyReload policyError
  | PendingUnavailable
  | CommandRejected string
  | CommandUnknown string bool
  | WaitCancelled string
  | EnvironmentUnavailable
  | BindingInvalid string
  | EnvironmentLocked
  | SecretStoreUnavailable string
  | SecretRequestFailed string
  | LeaseRequestFailed accessError
  | WorkspaceRequestFailed accessError
  | WorkspaceRequestWas string requestStatus
  | WorkspaceExpired
  | WorkspaceCancelled
  | RunArguments
  | StillLocking

definition currentPolicy :: "policyFile \<Rightarrow> string \<Rightarrow> 's world \<Rightarrow> policyError + policyFile" where
  "currentPolicy f policyPath w = (if TrimSpace policyPath = [] then Ok f else mw_Policy w)"

definition usesSets :: "policyFile \<Rightarrow> bool" where
  "usesSets f \<longleftrightarrow> UsesEnvironmentEntries (Some f) \<or> f_EnvironmentSet f = ''active''"

definition executionEnvironment :: "policyFile \<Rightarrow> 's world \<Rightarrow> mcpError + string" where
  "executionEnvironment f w =
     (if \<not> usesSets f then Ok ''default''
      else case mw_OpenEnv w of
        Inl _ \<Rightarrow> Err EnvironmentUnavailable
      | Inr m \<Rightarrow> (case Active (mw_Env w) m of Inl _ \<Rightarrow> Err EnvironmentUnavailable | Inr s \<Rightarrow> Ok (es_Name s)))"

section \<open>Missing secrets\<close>

text \<open>Whether an entry of the environment has a value.\<close>

definition entryConfigured :: "'s envEnv \<Rightarrow> string \<Rightarrow> string \<Rightarrow> 's envManager \<Rightarrow> 's envManager \<times> bool" where
  "entryConfigured env environment key m =
     (case EntryOf m environment key of
        None \<Rightarrow> (m, False)
      | Some entry \<Rightarrow>
          if ee_Kind entry = EntryFile
          then (case GetBytes env environment key m of (m, r) \<Rightarrow> (m, \<not> isl r))
          else (case GetValue env environment key m of (m, r) \<Rightarrow> (m, \<not> isl r)))"

definition secretConfigured :: "'s world \<Rightarrow> string \<Rightarrow> string \<Rightarrow> string \<Rightarrow> string \<Rightarrow> 's envManager option \<Rightarrow>
    's envManager option \<times> (mcpError + bool)" where
  "secretConfigured w environment name key storeName envs =
     (case envs of
        Some m \<Rightarrow> (case entryConfigured (mw_Env w) environment key m of (m, b) \<Rightarrow> (Some m, Ok b))
      | None \<Rightarrow> (case mw_OpenSecret w storeName of
          Inl _ \<Rightarrow> (None, Err (SecretStoreUnavailable name))
        | Inr get \<Rightarrow> (None, Ok (\<not> isl (get name)))))"

definition accessFailed :: "mcpError \<Rightarrow> accessError \<Rightarrow> mcpError" where
  "accessFailed err e = (if e = ErrSpinning then StillLocking else err)"

text \<open>The loop over the names; \<open>i\<close> counts the requests, each of which is a transaction of its own.\<close>

fun missingLoop :: "policyFile \<Rightarrow> string \<Rightarrow> string \<Rightarrow> 's world \<Rightarrow> string \<Rightarrow> 's envManager option \<Rightarrow> nat \<Rightarrow> string list \<Rightarrow>
    manager \<Rightarrow> manager \<times> (mcpError + request list)" where
  "missingLoop f sessionID cid w environment envs i [] m = (m, Ok [])"
| "missingLoop f sessionID cid w environment envs i (name # names) m =
     (case SecretBinding (Some f) name of
        None \<Rightarrow> (m, Err (BindingInvalid name))
      | Some (key, storeName) \<Rightarrow>
          (case secretConfigured w environment name key storeName envs of
             (envs, Inl err) \<Rightarrow> (m, Err err)
           | (envs, Inr True) \<Rightarrow> missingLoop f sessionID cid w environment envs i names m
           | (envs, Inr False) \<Rightarrow>
               (case CreateSecretRequestForCommands (mw_OS w i) sessionID environment name key [cid]
                       ''run_sealed is waiting for this encrypted value'' m of
                  (m, _, Inl err) \<Rightarrow> (m, Err (accessFailed (SecretRequestFailed name) err))
                | (m, _, Inr r) \<Rightarrow>
                    (case missingLoop f sessionID cid w environment envs (Suc i) names m of
                       (m, Inl err) \<Rightarrow> (m, Err err)
                     | (m, Inr rs) \<Rightarrow> (m, Ok (r # rs))))))"

text \<open>\<open>missing\<close> is true exactly when a request was made.\<close>

definition requestMissingSecrets :: "policyFile \<Rightarrow> command \<Rightarrow> string \<Rightarrow> 's world \<Rightarrow> string \<Rightarrow> manager \<Rightarrow>
    manager \<times> (mcpError + bool \<times> request list)" where
  "requestMissingSecrets f cmd sessionID w environment m =
     (if c_Secrets cmd = [] then (m, Ok (False, []))
      else
        let loop = (\<lambda>envs. case missingLoop f sessionID (c_ID cmd) w environment envs 1 (c_Secrets cmd) m of
                      (m, Inl err) \<Rightarrow> (m, Err err)
                    | (m, Inr rs) \<Rightarrow> (m, Ok (rs \<noteq> [], rs)))
        in if usesSets f
           then (case mw_OpenEnv w of Inl _ \<Rightarrow> (m, Err EnvironmentLocked) | Inr envs \<Rightarrow> loop (Some envs))
           else loop None)"

section \<open>Waiting for a command\<close>

text \<open>\<open>tracked\<close> is a Go map whose order of iteration is not specified; it is visited in the order of insertion.\<close>

record waitState =
  wt_Tracked :: "string list"
  wt_Until :: "time option"
  wt_Proposed :: bool

definition waitStart :: waitState where
  "waitStart = \<lparr>wt_Tracked = [], wt_Until = None, wt_Proposed = False\<rparr>"

definition trackRequest :: "request \<Rightarrow> waitState \<Rightarrow> waitState" where
  "trackRequest r st =
     st\<lparr>wt_Tracked := (if rq_ID r \<in> set (wt_Tracked st) then wt_Tracked st else wt_Tracked st @ [rq_ID r]),
        wt_Until := (case wt_Until st of
                       None \<Rightarrow> Some (rq_ExpiresAt r)
                     | Some t \<Rightarrow> Some (if rq_ExpiresAt r < t then rq_ExpiresAt r else t))\<rparr>"

fun trackedEnd :: "osEnv \<Rightarrow> manager \<Rightarrow> string list \<Rightarrow> (string \<times> requestStatus) option" where
  "trackedEnd env m [] = None"
| "trackedEnd env m (rid # rids) =
     (case Request env rid m of
        Inl _ \<Rightarrow> trackedEnd env m rids
      | Inr r \<Rightarrow> if rq_Status r = StatusDenied \<or> rq_Status r = StatusExpired then Some (rid, rq_Status r)
                 else trackedEnd env m rids)"

datatype 'r waitOutcome = Waiting waitState | Done "mcpError + 'r"

definition awaitProposal :: "policyFile \<Rightarrow> string \<Rightarrow> 's world \<Rightarrow> waitState \<Rightarrow> 'r waitOutcome" where
  "awaitProposal current cid w st =
     (case loadPending (mw_Pending w) of
        Inl _ \<Rightarrow> Done (Err PendingUnavailable)
      | Inr ps \<Rightarrow>
          if findProposal cid ps = None
          then Done (Err (if wt_Proposed st then CommandRejected cid else CommandUnknown cid (f_AllowProposals current)))
          else
            let st = st\<lparr>wt_Proposed := True,
                        wt_Until := (case wt_Until st of None \<Rightarrow> Some (mw_Now w + DefaultRequestTTL) | t \<Rightarrow> t)\<rparr>
            in if mw_Cancelled w then Done (Err (WaitCancelled cid)) else Waiting st)"

text \<open>The lease of the session: whether it is ready, else the request for it.\<close>

definition awaitLease :: "policyFile \<Rightarrow> string \<Rightarrow> string \<Rightarrow> 's world \<Rightarrow> string \<Rightarrow> manager \<Rightarrow>
    manager \<times> (mcpError + request option)" where
  "awaitLease current sessionID cid w environment m =
     (if \<not> f_RequireAgentLeases current then (m, Ok None)
      else case Authorize (mw_OS w 0) sessionID environment cid m of
        Inr _ \<Rightarrow> (m, Ok None)
      | Inl _ \<Rightarrow>
          (case CreateLeaseRequest (mw_OS w 0) sessionID environment [cid] DefaultLeaseTTL
                  ''run_sealed is waiting for human review'' m of
             (m, _, Inl err) \<Rightarrow> (m, Err (accessFailed (LeaseRequestFailed err) err))
           | (m, _, Inr r) \<Rightarrow> (m, Ok (Some r))))"

definition pinnedEnvironment :: "policyFile \<Rightarrow> string \<Rightarrow> string" where
  "pinnedEnvironment current environment = (if usesSets current then environment else [])"

definition awaitCommand :: "policyFile \<Rightarrow> command \<Rightarrow> string \<Rightarrow> string \<Rightarrow> 's world \<Rightarrow> waitState \<Rightarrow> manager \<Rightarrow>
    manager \<times> (policyFile \<times> string) waitOutcome" where
  "awaitCommand current cmd sessionID cid w st m =
     (case executionEnvironment current w of
        Inl err \<Rightarrow> (m, Done (Err err))
      | Inr environment \<Rightarrow>
          (case requestMissingSecrets current cmd sessionID w environment m of
             (m, Inl err) \<Rightarrow> (m, Done (Err err))
           | (m, Inr (missing, rs)) \<Rightarrow>
               (let st = fold trackRequest rs st in
                case awaitLease current sessionID cid w environment m of
                  (m, Inl err) \<Rightarrow> (m, Done (Err err))
                | (m, Inr lease) \<Rightarrow>
                    (let st = (case lease of None \<Rightarrow> st | Some r \<Rightarrow> trackRequest r st) in
                     if \<not> missing \<and> lease = None then (m, Done (Ok (current, pinnedEnvironment current environment)))
                     else if mw_Cancelled w then (m, Done (Err (WaitCancelled cid)))
                     else (m, Waiting st)))))"

definition awaitRound :: "policyFile \<Rightarrow> string \<Rightarrow> string \<Rightarrow> string \<Rightarrow> 's world \<Rightarrow> waitState \<Rightarrow> manager \<Rightarrow>
    manager \<times> (policyFile \<times> string) waitOutcome" where
  "awaitRound f policyPath sessionID cid w st m =
     (case trackedEnd (mw_OS w 0) m (wt_Tracked st) of
        Some (rid, status) \<Rightarrow> (m, Done (Err (RequestWas cid rid status)))
      | None \<Rightarrow>
          if (case wt_Until st of None \<Rightarrow> False | Some t \<Rightarrow> \<not> mw_Now w < t) then (m, Done (Err (ApprovalExpired cid)))
          else case currentPolicy f policyPath w of
            Inl err \<Rightarrow> (m, Done (Err (PolicyReload err)))
          | Inr current \<Rightarrow> (case Lookup current cid of
              Inl _ \<Rightarrow> (m, awaitProposal current cid w st)
            | Inr cmd \<Rightarrow> awaitCommand current cmd sessionID cid w st m))"

text \<open>The loop; \<open>None\<close> means that it is still waiting when the worlds end.\<close>

fun awaitLoop :: "policyFile \<Rightarrow> string \<Rightarrow> string \<Rightarrow> string \<Rightarrow> 's world list \<Rightarrow> waitState \<Rightarrow> manager \<Rightarrow>
    manager \<times> (mcpError + policyFile \<times> string) option" where
  "awaitLoop f policyPath sessionID cid [] st m = (m, None)"
| "awaitLoop f policyPath sessionID cid (w # ws) st m =
     (case awaitRound f policyPath sessionID cid w st (accessRun (mw_Others w) m) of
        (m, Done r) \<Rightarrow> (m, Some r)
      | (m, Waiting st) \<Rightarrow> awaitLoop f policyPath sessionID cid ws st m)"

definition awaitRunAuthorization :: "policyFile \<Rightarrow> string \<Rightarrow> string \<Rightarrow> string \<Rightarrow> 's world list \<Rightarrow> manager \<Rightarrow>
    manager \<times> (mcpError + policyFile \<times> string) option" where
  "awaitRunAuthorization f policyPath sessionID cid ws m =
     (case load m of Inl _ \<Rightarrow> (m, Some (Err AccessUnavailable)) | Inr _ \<Rightarrow> awaitLoop f policyPath sessionID cid ws waitStart m)"

section \<open>Waiting for a workspace\<close>

text \<open>
  One pass of the loop.  \<open>None\<close> is the zero request, which the code goes on with when the request
  cannot be read again: it is neither denied nor expired, and its deadline is long past.
\<close>

definition workspaceRound :: "string \<Rightarrow> string \<Rightarrow> 's world \<Rightarrow> request option \<Rightarrow> manager \<Rightarrow> (mcpError + string) option" where
  "workspaceRound sessionID environment w r m =
     (if (case r of None \<Rightarrow> False | Some r \<Rightarrow> rq_Status r = StatusDenied \<or> rq_Status r = StatusExpired)
      then Some (Err (WorkspaceRequestWas (rq_ID (the r)) (rq_Status (the r))))
      else if \<not> isl (AuthorizeWorkspace (mw_OS w 0) sessionID environment m) then Some (Ok environment)
      else if (case r of None \<Rightarrow> True | Some r \<Rightarrow> \<not> mw_Now w < rq_ExpiresAt r) then Some (Err WorkspaceExpired)
      else if mw_Cancelled w then Some (Err WorkspaceCancelled)
      else None)"

fun workspaceLoop :: "string \<Rightarrow> string \<Rightarrow> string \<Rightarrow> 's world list \<Rightarrow> manager \<Rightarrow> manager \<times> (mcpError + string) option" where
  "workspaceLoop sessionID environment rid [] m = (m, None)"
| "workspaceLoop sessionID environment rid (w # ws) m =
     (let m = accessRun (mw_Others w) m;
          r = (case Request (mw_OS w 0) rid m of Inl _ \<Rightarrow> None | Inr r \<Rightarrow> Some r)
      in case workspaceRound sessionID environment w r m of
           Some res \<Rightarrow> (m, Some res)
         | None \<Rightarrow> (case r of None \<Rightarrow> (m, None) | Some r \<Rightarrow> workspaceLoop sessionID environment (rq_ID r) ws m))"

definition awaitWorkspaceAuthorization :: "policyFile \<Rightarrow> string \<Rightarrow> string \<Rightarrow> string list \<Rightarrow> 's world \<Rightarrow> 's world list \<Rightarrow> manager \<Rightarrow>
    manager \<times> (mcpError + string) option" where
  "awaitWorkspaceAuthorization f policyPath sessionID argv w ws m =
     (let m = accessRun (mw_Others w) m in
      case load m of
        Inl _ \<Rightarrow> (m, Some (Err AccessUnavailable))
      | Inr _ \<Rightarrow> (case currentPolicy f policyPath w of
          Inl err \<Rightarrow> (m, Some (Err (PolicyReload err)))
        | Inr current \<Rightarrow> (case executionEnvironment current w of
            Inl err \<Rightarrow> (m, Some (Err err))
          | Inr environment \<Rightarrow>
              if \<not> isl (AuthorizeWorkspace (mw_OS w 0) sessionID environment m) then (m, Some (Ok environment))
              else case CreateWorkspaceRequest (mw_OS w 1) sessionID environment argv DefaultWorkspaceTTL
                          ''agent requested trusted workspace access'' m of
                (m, _, Inl err) \<Rightarrow> (m, Some (Err (accessFailed (WorkspaceRequestFailed err) err)))
              | (m, _, Inr r) \<Rightarrow>
                  (case workspaceRound sessionID environment w (Some r) m of
                     Some res \<Rightarrow> (m, Some res)
                   | None \<Rightarrow> workspaceLoop sessionID environment (rq_ID r) ws m))))"

section \<open>The run handler\<close>

text \<open>What the handler hands to the executor.\<close>

datatype runCall = CommandCall policyFile string string | WorkspaceCall string "string list"

definition returned :: "(mcpError + 'r) option \<Rightarrow> (mcpError + 'r) option" where
  "returned r = (if r = Some (Inl StillLocking) then None else r)"

definition authorizeCall :: "policyFile \<Rightarrow> string \<Rightarrow> string \<Rightarrow> string \<Rightarrow> string list \<Rightarrow> 's world \<Rightarrow> 's world list \<Rightarrow> manager \<Rightarrow>
    manager \<times> (mcpError + runCall) option" where
  "authorizeCall f policyPath sessionID commandID argv w ws m =
     (let cid = TrimSpace commandID in
      if (cid = [] \<and> argv = []) \<or> (cid \<noteq> [] \<and> argv \<noteq> []) then (m, Some (Err RunArguments))
      else if argv \<noteq> [] then
        (case awaitWorkspaceAuthorization f policyPath sessionID argv w ws m of
           (m, r) \<Rightarrow> (m, map_option (map_sum id (\<lambda>environment. WorkspaceCall environment argv)) (returned r)))
      else
        (case awaitRunAuthorization f policyPath sessionID cid (w # ws) m of
           (m, r) \<Rightarrow> (m, map_option (map_sum id (\<lambda>(current, environment). CommandCall current environment cid)) (returned r))))"

text \<open>The options of both calls: the streams are the redacted standard error of the server.\<close>

definition mcpOptions :: "'o \<Rightarrow> string \<Rightarrow> string \<Rightarrow> bool \<Rightarrow> 'o execOptions" where
  "mcpOptions stderr sessionID environment network =
     \<lparr>xo_Environment = environment, xo_Stdout = stderr, xo_Stderr = stderr, xo_Audit = True, xo_SessionID = sessionID,
      xo_AllowShell = False, xo_DisableSeccomp = False, xo_DisableEntropyScan = False, xo_AllowPullRequestTarget = False,
      xo_NoSeal = False, xo_EmitGitHubMasks = False, xo_AllowWorkspaceNetwork = network\<rparr>"

datatype 'x runAnswer = Refused mcpError | Executed 'x

definition makeRunHandler :: "('o, string) sink \<Rightarrow> 's execEnv \<Rightarrow> 'o \<Rightarrow> string \<Rightarrow> fsys \<Rightarrow> policyFile \<Rightarrow> string \<Rightarrow> string \<Rightarrow>
    string \<Rightarrow> string list \<Rightarrow> 's world \<Rightarrow> 's world list \<Rightarrow> manager \<Rightarrow>
    manager \<times> ((executionError + runResult) \<times> ('s, 'o) execEffects) runAnswer option" where
  "makeRunHandler wr x stderr projectRoot fs f policyPath sessionID commandID argv w ws m =
     (case authorizeCall f policyPath sessionID commandID argv w ws m of
        (m, None) \<Rightarrow> (m, None)
      | (m, Some (Inl err)) \<Rightarrow> (m, Some (Refused err))
      | (m, Some (Inr (WorkspaceCall environment argv))) \<Rightarrow>
          (m, Some (Executed (RunWorkspace wr x projectRoot environment argv (mcpOptions stderr sessionID [] True) fs)))
      | (m, Some (Inr (CommandCall current environment cid))) \<Rightarrow>
          (m, Some (Executed (executionRun wr x current policyPath projectRoot cid (mcpOptions stderr sessionID environment False) fs))))"

end
