(* ===== verification/Authorization_Props.thy ===== *)
theory Authorization_Props
  imports Authorization Execution_Props
begin

text \<open>
  What an agent gets from the run handler: nothing is executed that a human has not authorized, and every wait ends.
\<close>

section \<open>The access state during a wait\<close>

declare expireRequest_simps(4) [simp del]

lemma createSecret_step:
  "CreateSecretRequestForCommands env s e a k cs r m = (m', u, res) \<Longrightarrow> m' = accessStep env (OpCreateSecret s e a k cs r) m"
  by simp

lemma createLease_step:
  "CreateLeaseRequest env s e cs ttl r m = (m', u, res) \<Longrightarrow> m' = accessStep env (OpCreateLease s e cs ttl r) m"
  by simp

lemma createWorkspace_step:
  "CreateWorkspaceRequest env s e argv ttl r m = (m', u, res) \<Longrightarrow> m' = accessStep env (OpCreateWorkspace s e argv ttl r) m"
  by simp

lemma missingLoop_rule:
  assumes "P m" "missingLoop f s cid w e envs i names m = (m', res)"
    and step: "\<And>i name key m m' u q. P m \<Longrightarrow> CreateSecretRequestForCommands (mw_OS w i) s e name key [cid]
      ''run_sealed is waiting for this encrypted value'' m = (m', u, q) \<Longrightarrow> P m' \<and> (\<forall>r. q = Inr r \<longrightarrow> Q r)"
  shows "P m' \<and> (\<forall>rs. res = Inr rs \<longrightarrow> (\<forall>r \<in> set rs. Q r))"
  using assms(1,2)
proof (induction names arbitrary: envs i m m' res)
  case (Cons name names)
  show ?case
  proof (cases "SecretBinding (Some f) name")
    case None
    with Cons.prems show ?thesis by auto
  next
    case (Some ks)
    obtain key store where ks: "ks = (key, store)" by fastforce
    obtain envs' r where c: "secretConfigured w e name key store envs = (envs', r)" by fastforce
    note eqs = Some ks c
    show ?thesis
    proof (cases r)
      case (Inl err)
      with Cons.prems eqs show ?thesis by auto
    next
      case (Inr b)
      show ?thesis
      proof (cases b)
        case True
        with Cons.prems eqs Inr show ?thesis by (intro Cons.IH [of m envs' i]) auto
      next
        case False
        obtain m1 u q where q: "CreateSecretRequestForCommands (mw_OS w i) s e name key [cid]
            ''run_sealed is waiting for this encrypted value'' m = (m1, u, q)" by (metis prod_cases3)
        note m1 = step [OF Cons.prems(1) q]
        show ?thesis
        proof (cases q)
          case (Inl err)
          with Cons.prems eqs Inr False q m1 show ?thesis by auto
        next
          case qr: (Inr rq)
          obtain m2 res2 where l: "missingLoop f s cid w e envs' (Suc i) names m1 = (m2, res2)" by fastforce
          note rest = Cons.IH [OF _ l]
          from Cons.prems(2) eqs Inr False q qr l
          have "m' = m2" "\<And>rs. res = Inr rs \<Longrightarrow> \<exists>rs'. res2 = Inr rs' \<and> rs = rq # rs'"
            by (cases res2; auto)+
          with rest m1 qr show ?thesis by fastforce
        qed
      qed
    qed
  qed
qed auto

text \<open>What it means that nothing is missing: every secret of the command can be read.\<close>

definition secretReady :: "policyFile \<Rightarrow> 's world \<Rightarrow> string \<Rightarrow> string \<Rightarrow> bool" where
  "secretReady f w environment name \<longleftrightarrow>
     (\<exists>key storeName. SecretBinding (Some f) name = Some (key, storeName) \<and>
       (if usesSets f
        then \<exists>envs vs. mw_OpenEnv w = Inr envs \<and> snd (entryConfigured (mw_Env w) environment key (envs\<lparr>mg_Values := vs\<rparr>))
        else \<exists>get v. mw_OpenSecret w storeName = Inr get \<and> get name = Inr v))"

lemma entryConfigured_values: "\<exists>vs. fst (entryConfigured env e key m) = m\<lparr>mg_Values := vs\<rparr>"
proof -
  have "\<exists>vs. m = m\<lparr>mg_Values := vs\<rparr>" by (intro exI [of _ "mg_Values m"]) simp
  moreover have "\<exists>vs. fst (GetBytes env e key m) = m\<lparr>mg_Values := vs\<rparr>" "\<exists>vs. fst (GetValue env e key m) = m\<lparr>mg_Values := vs\<rparr>"
    unfolding GetBytes_def GetValue_def liftGet_def Let_def
    by (auto split: option.split intro: exI [of _ "mg_Values m"])
  ultimately show ?thesis
    unfolding entryConfigured_def by (auto split: option.split prod.split)
qed

lemma missingLoop_ready:
  assumes "missingLoop f s cid w e envs i names m = (m', Inr [])"
    and "case envs of None \<Rightarrow> \<not> usesSets f | Some em \<Rightarrow> usesSets f \<and> (\<exists>em0 vs. mw_OpenEnv w = Inr em0 \<and> em = em0\<lparr>mg_Values := vs\<rparr>)"
  shows "m' = m \<and> (\<forall>name \<in> set names. secretReady f w e name)"
  using assms
proof (induction names arbitrary: envs i)
  case (Cons name names)
  show ?case
  proof (cases "SecretBinding (Some f) name")
    case None
    with Cons.prems show ?thesis by simp
  next
    case (Some ks)
    obtain key store where ks: "ks = (key, store)" by fastforce
    obtain envs' r where c: "secretConfigured w e name key store envs = (envs', r)" by fastforce
    note eqs = Some ks c
    have r: "r = Inr True"
    proof (cases r)
      case (Inl err)
      with Cons.prems eqs show ?thesis by simp
    next
      case (Inr b)
      with Cons.prems eqs show ?thesis by (cases b) (auto split: prod.splits sum.splits)
    qed
    with Cons.prems eqs have l: "missingLoop f s cid w e envs' i names m = (m', Inr [])" by simp
    have "secretReady f w e name \<and>
      (case envs' of None \<Rightarrow> \<not> usesSets f | Some em \<Rightarrow> usesSets f \<and> (\<exists>em0 vs. mw_OpenEnv w = Inr em0 \<and> em = em0\<lparr>mg_Values := vs\<rparr>))"
    proof (cases envs)
      case None
      with c r Cons.prems(2) Some ks show ?thesis
        by (cases "mw_OpenSecret w store"; cases "case mw_OpenSecret w store of Inr get \<Rightarrow> get name")
          (auto simp: secretConfigured_def secretReady_def)
    next
      case env: (Some em)
      with Cons.prems(2) obtain em0 vs where em: "usesSets f" "mw_OpenEnv w = Inr em0" "em = em0\<lparr>mg_Values := vs\<rparr>" by auto
      obtain em1 b where ec: "entryConfigured (mw_Env w) e key em = (em1, b)" by fastforce
      with c r env have "envs' = Some em1" "b" by (auto simp: secretConfigured_def)
      moreover obtain vs1 where "em1 = em\<lparr>mg_Values := vs1\<rparr>" using entryConfigured_values [of "mw_Env w" e key em] ec by auto
      ultimately have new: "envs' = Some (em0\<lparr>mg_Values := vs1\<rparr>)"
        and "snd (entryConfigured (mw_Env w) e key (em0\<lparr>mg_Values := vs\<rparr>))"
        using em ec by simp_all
      then have "secretReady f w e name" unfolding secretReady_def using Some ks em(1,2) by auto
      with em(1,2) new show ?thesis by auto
    qed
    with Cons.IH [OF l] show ?thesis by auto
  qed
qed simp


section \<open>What a round does to the access state\<close>

text \<open>What the operations of a round keep, and what holds of the requests that they return.\<close>

definition roundKeeps :: "'s world \<Rightarrow> string \<Rightarrow> (manager \<Rightarrow> bool) \<Rightarrow> (request \<Rightarrow> bool) \<Rightarrow> bool" where
  "roundKeeps w s P Q \<longleftrightarrow>
     (\<forall>i e a k cs reason m m' u q. P m \<longrightarrow> CreateSecretRequestForCommands (mw_OS w i) s e a k cs reason m = (m', u, q) \<longrightarrow>
        P m' \<and> (\<forall>r. q = Inr r \<longrightarrow> Q r)) \<and>
     (\<forall>i e cs ttl reason m m' u q. P m \<longrightarrow> CreateLeaseRequest (mw_OS w i) s e cs ttl reason m = (m', u, q) \<longrightarrow>
        P m' \<and> (\<forall>r. q = Inr r \<longrightarrow> Q r))"

lemma roundKeeps_secret:
  "roundKeeps w s P Q \<Longrightarrow> P m \<Longrightarrow> CreateSecretRequestForCommands (mw_OS w i) s e a k cs reason m = (m', u, q) \<Longrightarrow>
    P m' \<and> (\<forall>r. q = Inr r \<longrightarrow> Q r)"
  unfolding roundKeeps_def by blast

lemma roundKeeps_lease:
  "roundKeeps w s P Q \<Longrightarrow> P m \<Longrightarrow> CreateLeaseRequest (mw_OS w i) s e cs ttl reason m = (m', u, q) \<Longrightarrow>
    P m' \<and> (\<forall>r. q = Inr r \<longrightarrow> Q r)"
  unfolding roundKeeps_def by blast

lemma requestMissing_keeps:
  assumes "roundKeeps w s P Q" "P m" "requestMissingSecrets f cmd s w e m = (m', res)"
  shows "P m' \<and> (\<forall>b rs. res = Inr (b, rs) \<longrightarrow> b = (rs \<noteq> []) \<and> (\<forall>r \<in> set rs. Q r))"
proof -
  have loop: "P m1 \<and> (\<forall>rs. r = Inr rs \<longrightarrow> (\<forall>x \<in> set rs. Q x))"
    if "missingLoop f s (c_ID cmd) w e envs 1 (c_Secrets cmd) m = (m1, r)" for envs m1 r
    by (rule missingLoop_rule [of P, OF assms(2) that roundKeeps_secret [OF assms(1)]])
  show ?thesis
  proof (cases "c_Secrets cmd = []")
    case True
    with assms show ?thesis by (auto simp: requestMissingSecrets_def)
  next
    case False
    have via: "P m' \<and> (\<forall>b rs. res = Inr (b, rs) \<longrightarrow> b = (rs \<noteq> []) \<and> (\<forall>r \<in> set rs. Q r))"
      if "(m', res) = (case missingLoop f s (c_ID cmd) w e envs 1 (c_Secrets cmd) m of
          (m, Inl err) \<Rightarrow> (m, Err err) | (m, Inr rs) \<Rightarrow> (m, Ok (rs \<noteq> [], rs)))" for envs
    proof -
      obtain m1 r where l: "missingLoop f s (c_ID cmd) w e envs 1 (c_Secrets cmd) m = (m1, r)" by fastforce
      with that loop [OF l] show ?thesis by (cases r) auto
    qed
    show ?thesis
    proof (cases "usesSets f")
      case sets: True
      show ?thesis
      proof (cases "mw_OpenEnv w")
        case (Inl err)
        with assms(2,3) False sets show ?thesis by (auto simp: requestMissingSecrets_def)
      next
        case (Inr envs)
        with assms(3) False sets show ?thesis by (intro via [of "Some envs"]) (simp add: requestMissingSecrets_def)
      qed
    next
      case nosets: False
      with assms(3) False show ?thesis by (intro via [of None]) (simp add: requestMissingSecrets_def)
    qed
  qed
qed

lemma requestMissing_ready:
  assumes "requestMissingSecrets f cmd s w e m = (m', Inr (False, rs))"
  shows "m' = m \<and> rs = [] \<and> (\<forall>name \<in> set (c_Secrets cmd). secretReady f w e name)"
proof (cases "c_Secrets cmd = []")
  case True
  with assms show ?thesis by (simp add: requestMissingSecrets_def)
next
  case ne: False
  show ?thesis
  proof (cases "usesSets f")
    case True
    with assms ne obtain envs where o: "mw_OpenEnv w = Inr envs"
      and "missingLoop f s (c_ID cmd) w e (Some envs) 1 (c_Secrets cmd) m = (m', Inr [])" "rs = []"
      by (auto simp: requestMissingSecrets_def split: sum.splits prod.splits)
    moreover have "\<exists>em0 vs. mw_OpenEnv w = Inr em0 \<and> envs = em0\<lparr>mg_Values := vs\<rparr>"
      using o by (intro exI [of _ envs] exI [of _ "mg_Values envs"]) simp
    ultimately show ?thesis using missingLoop_ready True by fastforce
  next
    case False
    with assms ne have "missingLoop f s (c_ID cmd) w e None 1 (c_Secrets cmd) m = (m', Inr [])" "rs = []"
      by (auto simp: requestMissingSecrets_def split: sum.splits prod.splits)
    with False show ?thesis using missingLoop_ready [of f s "c_ID cmd" w e None] by fastforce
  qed
qed

lemma awaitLease_keeps:
  assumes "roundKeeps w s P Q" "P m" "awaitLease current s cid w e m = (m', res)"
  shows "P m' \<and> (\<forall>r. res = Inr (Some r) \<longrightarrow> Q r)"
proof (cases "f_RequireAgentLeases current \<and> isl (Authorize (mw_OS w 0) s e cid m)")
  case False
  with assms(2,3) show ?thesis
    by (cases "f_RequireAgentLeases current"; cases "Authorize (mw_OS w 0) s e cid m") (auto simp: awaitLease_def)
next
  case True
  then obtain err where err: "f_RequireAgentLeases current" "Authorize (mw_OS w 0) s e cid m = Inl err"
    by (auto simp: isl_def)
  obtain m1 u q where q: "CreateLeaseRequest (mw_OS w 0) s e [cid] DefaultLeaseTTL ''run_sealed is waiting for human review'' m = (m1, u, q)"
    by (metis prod_cases3)
  from roundKeeps_lease [OF assms(1,2) q] have "P m1 \<and> (\<forall>r. q = Inr r \<longrightarrow> Q r)" .
  with assms(3) err q show ?thesis by (cases q) (auto simp: awaitLease_def)
qed

lemma awaitLease_ready:
  "awaitLease current s cid w e m = (m', Inr None) \<Longrightarrow>
    m' = m \<and> (f_RequireAgentLeases current \<longrightarrow> Authorize (mw_OS w 0) s e cid m = Inr ())"
  by (auto simp: awaitLease_def split: if_splits sum.splits prod.splits)


section \<open>Only what was authorized\<close>

lemma roundKeeps_reachable: "roundKeeps w s reachable (\<lambda>_. True)"
  unfolding roundKeeps_def using createSecret_step createLease_step reachable.step by metis

text \<open>What a human must have decided before a command may run, and before a workspace is trusted.\<close>

definition workspaceApproved :: "manager \<Rightarrow> osEnv \<Rightarrow> string \<Rightarrow> string \<Rightarrow> bool" where
  "workspaceApproved m env s e \<longleftrightarrow>
     (\<exists>g st r. activeGrant (os_now env) (m_root m) s e g \<and> load m = Ok st \<and> r \<in> set (st_Requests st) \<and>
        rq_Kind r = RequestWorkspace \<and> rq_Status r = StatusApproved \<and> rq_ID r = wg_RequestID g \<and>
        rq_SessionID r = s \<and> rq_Environment r = e)"

definition commandAuthorized :: "policyFile \<Rightarrow> string \<Rightarrow> string \<Rightarrow> 's world \<Rightarrow> manager \<Rightarrow> policyFile \<Rightarrow> string \<Rightarrow> string \<Rightarrow> bool" where
  "commandAuthorized f policyPath s w m current environment cid \<longleftrightarrow>
     currentPolicy f policyPath w = Inr current \<and>
     (\<exists>cmd e. Lookup current cid = Inr cmd \<and> executionEnvironment current w = Inr e \<and>
        environment = pinnedEnvironment current e \<and> (\<forall>name \<in> set (c_Secrets cmd). secretReady current w e name) \<and>
        (f_RequireAgentLeases current \<longrightarrow> leaseApproved m (mw_OS w 0) s e cid))"

lemma awaitCommand_Done:
  assumes "awaitCommand current cmd s cid w st m = (m', Done (Inr (current', environment)))"
  shows "m' = m \<and> current' = current \<and>
    (\<exists>e. executionEnvironment current w = Inr e \<and> environment = pinnedEnvironment current e \<and>
      (\<forall>name \<in> set (c_Secrets cmd). secretReady current w e name) \<and>
      (f_RequireAgentLeases current \<longrightarrow> Authorize (mw_OS w 0) s e cid m = Inr ()))"
proof (cases "executionEnvironment current w")
  case (Inl err)
  with assms show ?thesis by (simp add: awaitCommand_def)
next
  case (Inr e)
  obtain m1 r where r: "requestMissingSecrets current cmd s w e m = (m1, r)" by fastforce
  with assms Inr obtain missing rs where "r = Inr (missing, rs)" by (cases r) (auto simp: awaitCommand_def)
  note r = r [unfolded this]
  obtain m2 q where q: "awaitLease current s cid w e m1 = (m2, q)" by fastforce
  with assms Inr r obtain l where "q = Inr l" by (cases q) (auto simp: awaitCommand_def Let_def)
  note q = q [unfolded this]
  from assms Inr r q have "\<not> missing" "l = None" "m' = m2" "current' = current" "environment = pinnedEnvironment current e"
    by (auto simp: awaitCommand_def Let_def split: if_splits)
  with requestMissing_ready [of current cmd s w e m m1 rs] awaitLease_ready [of current s cid w e m1 m2] r q Inr
  show ?thesis by auto
qed

lemma awaitRound_Done:
  assumes "reachable m" "awaitRound f policyPath s cid w st m = (m', Done (Inr (current, environment)))"
  shows "m' = m \<and> commandAuthorized f policyPath s w m current environment cid"
proof -
  have going: "trackedEnd (mw_OS w 0) m (wt_Tracked st) = None"
    using assms(2) by (cases "trackedEnd (mw_OS w 0) m (wt_Tracked st)") (auto simp: awaitRound_def)
  with assms(2) obtain c where c: "currentPolicy f policyPath w = Inr c"
    by (cases "currentPolicy f policyPath w") (auto simp: awaitRound_def split: if_splits)
  obtain cmd where cmd: "Lookup c cid = Inr cmd"
    using assms(2) going c
    by (cases "Lookup c cid") (auto simp: awaitRound_def awaitProposal_def Let_def split: if_splits sum.splits)
  from assms(2) going c cmd have "awaitCommand c cmd s cid w st m = (m', Done (Inr (current, environment)))"
    by (auto simp: awaitRound_def split: if_splits)
  from awaitCommand_Done [OF this] show ?thesis
    using access_authorize_sound [OF assms(1)] c cmd unfolding commandAuthorized_def by metis
qed

lemma awaitRound_keeps:
  assumes "roundKeeps w s P Q" "P m" "awaitRound f policyPath s cid w st m = (m', out)"
  shows "P m'"
proof -
  have cmd: "P m'" if eq: "awaitCommand c cmd s cid w st m = (m', out)" for c cmd
  proof (cases "executionEnvironment c w")
    case (Inl err)
    with eq assms(2) show ?thesis by (auto simp: awaitCommand_def)
  next
    case (Inr e)
    obtain m1 r where r: "requestMissingSecrets c cmd s w e m = (m1, r)" by fastforce
    from requestMissing_keeps [OF assms(1,2) r] have m1: "P m1" by simp
    obtain m2 q where q: "awaitLease c s cid w e m1 = (m2, q)" by fastforce
    from awaitLease_keeps [OF assms(1) m1 q] have "P m2" by simp
    with m1 eq Inr r q show ?thesis
      by (cases r; cases q) (auto simp: awaitCommand_def Let_def split: prod.splits if_splits)
  qed
  then show ?thesis
    using assms(2,3) by (auto simp: awaitRound_def split: option.splits if_splits sum.splits)
qed

lemma awaitLoop_authorized:
  assumes "reachable m" "awaitLoop f policyPath s cid ws st m = (m', Some (Inr (current, environment)))"
  shows "\<exists>w \<in> set ws. commandAuthorized f policyPath s w m' current environment cid"
  using assms
proof (induction ws arbitrary: st m)
  case (Cons w ws)
  let ?m = "accessRun (mw_Others w) m"
  obtain m1 out where o: "awaitRound f policyPath s cid w st ?m = (m1, out)" by fastforce
  have m: "reachable ?m" by (rule accessRun_reachable [OF Cons.prems(1)])
  show ?case
  proof (cases out)
    case (Waiting st1)
    moreover have "reachable m1" by (rule awaitRound_keeps [OF roundKeeps_reachable m o])
    ultimately show ?thesis using Cons o by auto
  next
    case (Done r)
    with Cons.prems(2) o have "m1 = m'" "awaitRound f policyPath s cid w st ?m = (m', Done (Inr (current, environment)))" by simp_all
    with awaitRound_Done [OF m] show ?thesis by (metis list.set_intros(1))
  qed
qed simp


lemma AuthorizeWorkspace_approved:
  assumes "reachable m" "\<not> isl (AuthorizeWorkspace env s e m)"
  shows "workspaceApproved m env s e"
proof -
  obtain g where "AuthorizeWorkspace env s e m = Inr g" using assms(2) by (cases "AuthorizeWorkspace env s e m") auto
  from access_workspace_sound [OF assms(1) this] show ?thesis unfolding workspaceApproved_def by blast
qed

lemma workspaceRound_ok:
  "workspaceRound s e w r m = Some (Inr e') \<Longrightarrow> e' = e \<and> \<not> isl (AuthorizeWorkspace (mw_OS w 0) s e m)"
  by (auto simp: workspaceRound_def split: if_splits option.splits)

lemma workspaceLoop_authorized:
  assumes "reachable m" "workspaceLoop s e rid ws m = (m', Some (Inr e'))"
  shows "e' = e \<and> (\<exists>w \<in> set ws. workspaceApproved m' (mw_OS w 0) s e)"
  using assms
proof (induction ws arbitrary: rid m)
  case (Cons w ws)
  let ?m = "accessRun (mw_Others w) m"
  let ?r = "case Request (mw_OS w 0) rid ?m of Inl _ \<Rightarrow> None | Inr r \<Rightarrow> Some r"
  have m: "reachable ?m" by (rule accessRun_reachable [OF Cons.prems(1)])
  show ?case
  proof (cases "workspaceRound s e w ?r ?m")
    case None
    with Cons.prems(2) obtain r where "?r = Some r" "workspaceLoop s e (rq_ID r) ws ?m = (m', Some (Inr e'))"
      by (cases ?r) (auto simp: Let_def)
    with Cons.IH [OF m] show ?thesis by auto
  next
    case (Some res)
    with Cons.prems(2) have "m' = ?m" "res = Inr e'" by (auto simp: Let_def)
    with workspaceRound_ok [of s e w ?r ?m e'] AuthorizeWorkspace_approved [OF m, of "mw_OS w 0" s e] Some show ?thesis by auto
  qed
qed simp

lemma awaitWorkspace_authorized:
  assumes "reachable m" "awaitWorkspaceAuthorization f policyPath s argv w ws m = (m', Some (Inr e'))"
  shows "\<exists>current. currentPolicy f policyPath w = Inr current \<and> executionEnvironment current w = Inr e' \<and>
    (\<exists>w' \<in> set (w # ws). workspaceApproved m' (mw_OS w' 0) s e')"
proof -
  let ?m = "accessRun (mw_Others w) m"
  have m: "reachable ?m" by (rule accessRun_reachable [OF assms(1)])
  from assms(2) obtain current e where c: "\<exists>st. load ?m = Inr st" "currentPolicy f policyPath w = Inr current" "executionEnvironment current w = Inr e"
    by (cases "load ?m"; cases "currentPolicy f policyPath w"; cases "executionEnvironment (projr (currentPolicy f policyPath w)) w")
      (auto simp: awaitWorkspaceAuthorization_def Let_def)
  show ?thesis
  proof (cases "isl (AuthorizeWorkspace (mw_OS w 0) s e ?m)")
    case False
    with assms(2) c have "m' = ?m" "e' = e" by (auto simp: awaitWorkspaceAuthorization_def Let_def)
    with AuthorizeWorkspace_approved [OF m False] c show ?thesis by auto
  next
    case True
    obtain m1 u q where q: "CreateWorkspaceRequest (mw_OS w 1) s e argv DefaultWorkspaceTTL ''agent requested trusted workspace access'' ?m = (m1, u, q)"
      by (metis prod_cases3)
    have m1: "reachable m1" unfolding createWorkspace_step [OF q] by (rule reachable.step [OF m])
    from assms(2) c True q obtain r where r: "q = Inr r" by (cases q) (auto simp: awaitWorkspaceAuthorization_def Let_def)
    show ?thesis
    proof (cases "workspaceRound s e w (Some r) m1")
      case None
      with assms(2) c True q r have "workspaceLoop s e (rq_ID r) ws m1 = (m', Some (Inr e'))"
        by (auto simp: awaitWorkspaceAuthorization_def Let_def)
      from workspaceLoop_authorized [OF m1 this] c show ?thesis by auto
    next
      case (Some res)
      with assms(2) c True q r have "m' = m1" "res = Inr e'" by (auto simp: awaitWorkspaceAuthorization_def Let_def)
      with workspaceRound_ok [of s e w "Some r" m1 e'] AuthorizeWorkspace_approved [OF m1, of "mw_OS w 0" s e] Some c show ?thesis by auto
    qed
  qed
qed

lemma returned_Some [simp]: "returned r = Some z \<longleftrightarrow> r = Some z \<and> z \<noteq> Inl StillLocking"
  by (auto simp: returned_def)

text \<open>C27: Nothing runs that was not authorized. Whatever agents, people and other processes do in
  between, a call of \<open>run_sealed\<close> hands a command to the executor only if, in one and the same round,
  it was in the policy as it was then, all its secrets had values in the environment that it is pinned
  to, and, where the policy asks for leases, a lease for this session, this environment and this command was
  running: created when a human approved the request it comes from, not revoked, and before its own
  deadline, at most 24 hours after. It hands over an arbitrary argument vector only for the
  environment for which a human approved the trust in this session and did not take it back.\<close>

theorem mcp_run_authorized:
  assumes "reachable m" "authorizeCall f policyPath s commandID argv w ws m = (m', Some (Inr call))"
  shows "\<exists>w' \<in> set (w # ws). case call of
      CommandCall current environment cid \<Rightarrow>
        argv = [] \<and> cid = TrimSpace commandID \<and> commandAuthorized f policyPath s w' m' current environment cid
    | WorkspaceCall environment argv' \<Rightarrow>
        argv' = argv \<and> argv \<noteq> [] \<and> TrimSpace commandID = [] \<and> workspaceApproved m' (mw_OS w' 0) s environment"
proof (cases "argv = []")
  case True
  with assms(2) obtain z where z: "awaitRunAuthorization f policyPath s (TrimSpace commandID) (w # ws) m = (m', Some z)"
      "map_sum id (\<lambda>(current, environment). CommandCall current environment (TrimSpace commandID)) z = Inr call"
    by (auto simp: authorizeCall_def Let_def split: if_splits prod.splits)
  then obtain current environment where
    "awaitRunAuthorization f policyPath s (TrimSpace commandID) (w # ws) m = (m', Some (Inr (current, environment)))"
    and call: "call = CommandCall current environment (TrimSpace commandID)"
    by (cases z) auto
  then have "awaitLoop f policyPath s (TrimSpace commandID) (w # ws) waitStart m = (m', Some (Inr (current, environment)))"
    by (cases "load m") (auto simp: awaitRunAuthorization_def)
  from awaitLoop_authorized [OF assms(1) this] True call show ?thesis by simp
next
  case False
  with assms(2) have blank: "TrimSpace commandID = []" by (auto simp: authorizeCall_def Let_def split: if_splits)
  with assms(2) False obtain z where z: "awaitWorkspaceAuthorization f policyPath s argv w ws m = (m', Some z)"
      "map_sum id (\<lambda>environment. WorkspaceCall environment argv) z = Inr call"
    by (auto simp: authorizeCall_def Let_def split: if_splits prod.splits)
  then obtain environment where "awaitWorkspaceAuthorization f policyPath s argv w ws m = (m', Some (Inr environment))"
    and call: "call = WorkspaceCall environment argv"
    by (cases z) auto
  from awaitWorkspace_authorized [OF assms(1) this(1)] False call blank show ?thesis by auto
qed


section \<open>Every wait ends\<close>

text \<open>All requests of the state expire by the time \<open>b\<close>.\<close>

definition expireBy :: "time \<Rightarrow> manager \<Rightarrow> bool" where
  "expireBy b m \<longleftrightarrow> (\<forall>st. load m = Ok st \<longrightarrow> (\<forall>r \<in> set (st_Requests st). rq_ExpiresAt r \<le> b))"

lemma expireRequest_deadline [simp]: "rq_ExpiresAt (expireRequest now r) = rq_ExpiresAt r"
  by (simp add: expireRequest_def)

lemma createRequest_expires:
  assumes "expireBy b m" "os_now env + DefaultRequestTTL \<le> b" "createRequest env c m = (m', u, q)"
  shows "expireBy b m' \<and> (\<forall>r. q = Inr r \<longrightarrow> rq_ExpiresAt r \<le> b)"
proof -
  have mu: "mutate env (createChange env c) m () = (m', u, q)" using assms(3) by (simp add: createRequest_def)
  have eff: "(\<forall>r \<in> set (st_Requests st'). rq_ExpiresAt r \<le> b) \<and> rq_ExpiresAt a \<le> b \<and> st_Version st' = st_Version st"
    if l: "load m = Ok st" and ch: "createChange env c () st = (w', Ok (st', a))" for st w' st' a
  proof -
    have ex: "\<forall>r \<in> set (List.map (expireRequest (os_now env)) (st_Requests st)). rq_ExpiresAt r \<le> b"
      using assms(1) l by (simp add: expireBy_def)
    show ?thesis
    proof (cases "scanPending c 0 (List.map (expireRequest (os_now env)) (st_Requests st))")
      case (Inl k)
      with ch ex assms(2) show ?thesis
        by (auto simp: createChange_def Let_def split: if_splits sum.splits)
    next
      case (Inr r)
      with ch ex scanPending_found [OF Inr] show ?thesis by (auto simp: createChange_def Let_def)
    qed
  qed
  have "expireBy b m'"
    using mu
  proof (cases rule: mutate_cases)
    case unchanged
    with assms(1) show ?thesis by simp
  next
    case (changed st st' a)
    from eff [OF changed(1,2)] load_version [OF changed(1)] changed(3) show ?thesis by (simp add: expireBy_def)
  qed
  moreover have "rq_ExpiresAt r \<le> b" if "q = Inr r" for r
  proof -
    from mu that have "mutate env (createChange env c) m () = (m', u, Ok r)" by simp
    then obtain st st' where "load m = Ok st" "createChange env c () st = (u, Ok (st', r))" by (rule mutate_Ok)
    from eff [OF this] show ?thesis by simp
  qed
  ultimately show ?thesis by blast
qed

lemma roundKeeps_expire:
  assumes "\<And>i. os_now (mw_OS w i) + DefaultRequestTTL \<le> b"
  shows "roundKeeps w s (expireBy b) (\<lambda>r. rq_ExpiresAt r \<le> b)"
  unfolding roundKeeps_def
proof (intro conjI allI impI)
  fix i e a k cs reason m m' u q
  assume m: "expireBy b m" and c: "CreateSecretRequestForCommands (mw_OS w i) s e a k cs reason m = (m', u, q)"
  then show "expireBy b m'" "\<And>r. q = Inr r \<Longrightarrow> rq_ExpiresAt r \<le> b"
    using createRequest_expires [OF m assms] unfolding CreateSecretRequestForCommands_def
    by (auto split: option.splits if_splits)
next
  fix i e cs ttl reason m m' u q
  assume m: "expireBy b m" and c: "CreateLeaseRequest (mw_OS w i) s e cs ttl reason m = (m', u, q)"
  then show "expireBy b m'" "\<And>r. q = Inr r \<Longrightarrow> rq_ExpiresAt r \<le> b"
    using createRequest_expires [OF m assms] unfolding CreateLeaseRequest_def Let_def
    by (auto split: option.splits if_splits)
qed


text \<open>The loop has a deadline of at most \<open>b\<close>.\<close>

definition untilBy :: "time \<Rightarrow> waitState \<Rightarrow> bool" where
  "untilBy b st \<longleftrightarrow> (\<exists>t \<le> b. wt_Until st = Some t)"

lemma untilBy_track: "untilBy b st \<or> rq_ExpiresAt r \<le> b \<Longrightarrow> untilBy b (trackRequest r st)"
  by (auto simp: untilBy_def trackRequest_def split: option.split)

lemma untilBy_fold: "untilBy b st \<Longrightarrow> untilBy b (fold trackRequest rs st)"
  by (induction rs arbitrary: st) (simp_all add: untilBy_track)

lemma untilBy_fold_new: "rs \<noteq> [] \<Longrightarrow> \<forall>r \<in> set rs. rq_ExpiresAt r \<le> b \<Longrightarrow> untilBy b (fold trackRequest rs st)"
  by (cases rs) (simp_all add: untilBy_fold untilBy_track)

lemma awaitCommand_Waiting:
  assumes "awaitCommand current cmd s cid w st m = (m', Waiting st')"
  shows "untilBy b st \<Longrightarrow> untilBy b st'"
    and "roundKeeps w s P (\<lambda>r. rq_ExpiresAt r \<le> b) \<Longrightarrow> P m \<Longrightarrow> untilBy b st'"
proof -
  obtain e where e: "executionEnvironment current w = Inr e"
    using assms by (cases "executionEnvironment current w") (auto simp: awaitCommand_def)
  obtain m1 r where r0: "requestMissingSecrets current cmd s w e m = (m1, r)" by fastforce
  with assms e obtain missing rs where "r = Inr (missing, rs)" by (cases r) (auto simp: awaitCommand_def)
  note r = r0 [unfolded this]
  obtain m2 q where q0: "awaitLease current s cid w e m1 = (m2, q)" by fastforce
  with assms e r obtain l where "q = Inr l" by (cases q) (auto simp: awaitCommand_def Let_def)
  note q = q0 [unfolded this]
  let ?st = "case l of None \<Rightarrow> fold trackRequest rs st | Some r \<Rightarrow> trackRequest r (fold trackRequest rs st)"
  from assms e r q have st': "st' = ?st" "missing \<or> l \<noteq> None"
    by (auto simp: awaitCommand_def Let_def split: if_splits)
  show "untilBy b st \<Longrightarrow> untilBy b st'"
    unfolding st' by (cases l) (simp_all add: untilBy_fold untilBy_track)
  assume k: "roundKeeps w s P (\<lambda>r. rq_ExpiresAt r \<le> b)" "P m"
  from requestMissing_keeps [OF k r] have rs: "P m1" "missing = (rs \<noteq> [])" "\<forall>r \<in> set rs. rq_ExpiresAt r \<le> b" by auto
  show "untilBy b st'"
  proof (cases l)
    case None
    with rs(2,3) st' untilBy_fold_new show ?thesis by simp
  next
    case (Some lr)
    from awaitLease_keeps [OF k(1) rs(1) q] Some have "rq_ExpiresAt lr \<le> b" by simp
    with Some st' untilBy_track show ?thesis by simp
  qed
qed

lemma awaitProposal_Waiting:
  assumes "awaitProposal current cid w st = Waiting st'"
  shows "untilBy b st \<Longrightarrow> untilBy b st'"
    and "mw_Now w + DefaultRequestTTL \<le> b \<Longrightarrow> wt_Until st = None \<Longrightarrow> untilBy b st'"
proof -
  obtain ps where "loadPending (mw_Pending w) = Inr ps"
    using assms by (cases "loadPending (mw_Pending w)") (auto simp: awaitProposal_def)
  with assms have "wt_Until st' = (case wt_Until st of None \<Rightarrow> Some (mw_Now w + DefaultRequestTTL) | Some t \<Rightarrow> Some t)"
    by (auto simp: awaitProposal_def Let_def split: if_splits option.splits)
  then show "untilBy b st \<Longrightarrow> untilBy b st'"
    and "mw_Now w + DefaultRequestTTL \<le> b \<Longrightarrow> wt_Until st = None \<Longrightarrow> untilBy b st'"
    by (auto simp: untilBy_def)
qed

lemma awaitRound_Waiting:
  assumes "awaitRound f policyPath s cid w st m = (m', Waiting st')"
  shows "untilBy b st \<Longrightarrow> untilBy b st' \<and> mw_Now w < b"
    and "roundKeeps w s P (\<lambda>r. rq_ExpiresAt r \<le> b) \<Longrightarrow> P m \<Longrightarrow> mw_Now w + DefaultRequestTTL \<le> b \<Longrightarrow> wt_Until st = None \<Longrightarrow>
      untilBy b st'"
proof -
  have going: "trackedEnd (mw_OS w 0) m (wt_Tracked st) = None"
    using assms by (cases "trackedEnd (mw_OS w 0) m (wt_Tracked st)") (auto simp: awaitRound_def)
  have time: "\<not> (case wt_Until st of None \<Rightarrow> False | Some t \<Rightarrow> \<not> mw_Now w < t)"
    using assms going by (cases "case wt_Until st of None \<Rightarrow> False | Some t \<Rightarrow> \<not> mw_Now w < t") (simp_all add: awaitRound_def)
  obtain c where c: "currentPolicy f policyPath w = Inr c"
    using assms going time by (cases "currentPolicy f policyPath w") (auto simp: awaitRound_def)
  have "untilBy b st' \<and> mw_Now w < b" if "untilBy b st"
  proof
    show "mw_Now w < b" using that time by (auto simp: untilBy_def)
    show "untilBy b st'"
      using assms going time c awaitProposal_Waiting(1) [OF _ that] awaitCommand_Waiting(1) [OF _ that]
      by (cases "Lookup c cid") (auto simp: awaitRound_def)
  qed
  then show "untilBy b st \<Longrightarrow> untilBy b st' \<and> mw_Now w < b" .
  assume k: "roundKeeps w s P (\<lambda>r. rq_ExpiresAt r \<le> b)" "P m" "mw_Now w + DefaultRequestTTL \<le> b" "wt_Until st = None"
  show "untilBy b st'"
    using assms going time c awaitProposal_Waiting(2) [OF _ k(3,4)] awaitCommand_Waiting(2) [OF _ k(1,2)]
    by (cases "Lookup c cid") (auto simp: awaitRound_def)
qed

lemma awaitLoop_ends:
  assumes "untilBy b st" "w \<in> set ws" "b \<le> mw_Now w"
  shows "snd (awaitLoop f policyPath s cid ws st m) \<noteq> None"
  using assms(1,2)
proof (induction ws arbitrary: st m)
  case (Cons w' ws)
  obtain m1 out where o: "awaitRound f policyPath s cid w' st (accessRun (mw_Others w') m) = (m1, out)" by fastforce
  show ?case
  proof (cases out)
    case (Waiting st1)
    with awaitRound_Waiting(1) [of f policyPath s cid w' st _ m1 st1 b] Cons.prems(1) o
    have st1: "untilBy b st1" "mw_Now w' < b" by auto
    with assms(3) Cons.prems(2) have "w \<in> set ws" by auto
    with Cons.IH [OF st1(1)] o Waiting show ?thesis by simp
  next
    case (Done r)
    with o show ?thesis by simp
  qed
qed simp


text \<open>The first request with an ID, and so the one that is read by it, expires by \<open>b\<close>.\<close>

definition deadlineOf :: "string \<Rightarrow> time \<Rightarrow> manager \<Rightarrow> bool" where
  "deadlineOf rid b m \<longleftrightarrow>
     (\<exists>st i. load m = Ok st \<and> indexOf (\<lambda>r. rq_ID r = rid) (st_Requests st) = Some i \<and> rq_ExpiresAt (st_Requests st ! i) \<le> b)"

lemma find_indexOf: "find P xs = map_option ((!) xs) (indexOf P xs)"
  by (induction xs) (simp_all add: option.map_comp comp_def)

lemma deadlineOf_run:
  assumes "deadlineOf rid b m"
  shows "deadlineOf rid b (accessRun evs m)"
proof -
  obtain st i where st: "load m = Ok st" "indexOf (\<lambda>r. rq_ID r = rid) (st_Requests st) = Some i" "rq_ExpiresAt (st_Requests st ! i) \<le> b"
    using assms by (auto simp: deadlineOf_def)
  obtain st' where st': "load (accessRun evs m) = Ok st'" "evolves st st'"
    using accessRun_evolves [OF st(1)] by blast
  from st'(2) have ev: "listEvolves requestEvolves (st_Requests st) (st_Requests st')" by (simp add: evolves_def)
  from resolved_stays [OF ev st(2)] have "indexOf (\<lambda>r. rq_ID r = rid) (st_Requests st') = Some i" .
  moreover from ev indexOf_Some [OF st(2)] have "rq_ExpiresAt (st_Requests st' ! i) = rq_ExpiresAt (st_Requests st ! i)"
    by (auto simp: listEvolves_def requestEvolves_def split: if_splits)
  ultimately show ?thesis using st(3) st'(1) by (auto simp: deadlineOf_def)
qed

lemma Request_deadline:
  assumes "deadlineOf rid b m" "Request env rid m = Inr r"
  shows "rq_ID r = rid \<and> rq_ExpiresAt r \<le> b"
proof -
  obtain st i where st: "load m = Ok st" "indexOf (\<lambda>r. rq_ID r = rid) (st_Requests st) = Some i" "rq_ExpiresAt (st_Requests st ! i) \<le> b"
    using assms(1) by (auto simp: deadlineOf_def)
  with indexOf_Some [OF st(2)] assms(2) show ?thesis by (auto simp: Request_def find_indexOf split: if_splits)
qed

lemma workspaceLoop_ends:
  assumes "deadlineOf rid b m" "w \<in> set ws" "b \<le> mw_Now w"
  shows "snd (workspaceLoop s e rid ws m) \<noteq> None"
  using assms(1,2)
proof (induction ws arbitrary: m)
  case (Cons w' ws)
  let ?m = "accessRun (mw_Others w') m"
  have d: "deadlineOf rid b ?m" by (rule deadlineOf_run [OF Cons.prems(1)])
  show ?case
  proof (cases "Request (mw_OS w' 0) rid ?m")
    case (Inl err)
    then have "workspaceRound s e w' None ?m \<noteq> None" by (simp add: workspaceRound_def)
    with Inl show ?thesis by (auto simp: Let_def)
  next
    case (Inr r)
    note r = Request_deadline [OF d Inr]
    show ?thesis
    proof (cases "workspaceRound s e w' (Some r) ?m")
      case None
      then have "mw_Now w' < rq_ExpiresAt r" by (auto simp: workspaceRound_def split: if_splits)
      with r assms(3) Cons.prems(2) have "w \<in> set ws" by auto
      from Cons.IH [OF d this] None Inr r show ?thesis by (simp add: Let_def)
    next
      case (Some res)
      with Inr show ?thesis by (simp add: Let_def)
    qed
  qed
qed simp

lemma createRequest_member:
  assumes "createRequest env c m = (m', u, Ok r)"
  shows "\<exists>st. load m' = Ok st \<and> r \<in> set (st_Requests st)"
proof -
  have "mutate env (createChange env c) m () = (m', u, Ok r)" using assms by (simp add: createRequest_def)
  then obtain st st' where st: "load m = Ok st" "createChange env c () st = (u, Ok (st', r))" "m' = m\<lparr>m_file := Stored st'\<rparr>"
    by (rule mutate_Ok)
  have v: "st_Version st = stateVersion" by (rule load_version [OF st(1)])
  show ?thesis
  proof (cases "scanPending c 0 (List.map (expireRequest (os_now env)) (st_Requests st))")
    case (Inl k)
    with st v show ?thesis by (auto simp: createChange_def Let_def split: if_splits sum.splits)
  next
    case (Inr q)
    with scanPending_found [OF Inr] st v show ?thesis by (auto simp: createChange_def Let_def)
  qed
qed

lemma CreateWorkspaceRequest_deadline:
  assumes "expireBy b m" "os_now env + DefaultRequestTTL \<le> b"
    and "CreateWorkspaceRequest env s e argv ttl reason m = (m', u, Inr r)"
  shows "deadlineOf (rq_ID r) b m' \<and> rq_ExpiresAt r \<le> b"
proof -
  obtain c where c: "createRequest env c m = (m', u, Inr r)"
    using assms(3) by (auto simp: CreateWorkspaceRequest_def Let_def split: option.splits if_splits)
  from createRequest_expires [OF assms(1,2) c] have x: "expireBy b m'" "rq_ExpiresAt r \<le> b" by auto
  obtain st where st: "load m' = Ok st" "r \<in> set (st_Requests st)" using createRequest_member [OF c] by blast
  then obtain i where i: "indexOf (\<lambda>q. rq_ID q = rq_ID r) (st_Requests st) = Some i"
    by (cases "indexOf (\<lambda>q. rq_ID q = rq_ID r) (st_Requests st)") (auto simp: indexOf_None)
  with indexOf_Some [OF i] x st show ?thesis by (auto simp: deadlineOf_def expireBy_def)
qed

lemma awaitWorkspace_ends:
  assumes "expireBy b (accessRun (mw_Others w) m)" "os_now (mw_OS w 1) + DefaultRequestTTL \<le> b" "w' \<in> set ws" "b \<le> mw_Now w'"
  shows "snd (awaitWorkspaceAuthorization f policyPath s argv w ws m) \<noteq> None"
proof -
  let ?m = "accessRun (mw_Others w) m"
  have wait: "snd (case CreateWorkspaceRequest (mw_OS w 1) s e argv DefaultWorkspaceTTL ''agent requested trusted workspace access'' ?m of
        (m, _, Inl err) \<Rightarrow> (m, Some (Err (accessFailed (WorkspaceRequestFailed err) err)))
      | (m, _, Inr r) \<Rightarrow> (case workspaceRound s e w (Some r) m of
            Some res \<Rightarrow> (m, Some res) | None \<Rightarrow> workspaceLoop s e (rq_ID r) ws m)) \<noteq> None" for e
  proof -
    obtain m1 u q where q: "CreateWorkspaceRequest (mw_OS w 1) s e argv DefaultWorkspaceTTL ''agent requested trusted workspace access'' ?m = (m1, u, q)"
      by (metis prod_cases3)
    show ?thesis
    proof (cases q)
      case (Inl err)
      with q show ?thesis by simp
    next
      case (Inr r)
      from CreateWorkspaceRequest_deadline [OF assms(1,2) q [unfolded Inr]] workspaceLoop_ends [OF _ assms(3,4)] q Inr
      show ?thesis by (simp split: option.split)
    qed
  qed
  show ?thesis
    unfolding awaitWorkspaceAuthorization_def Let_def using wait by (simp split: sum.split)
qed

text \<open>No round is stuck in the lock of the access state if the lock always answers.\<close>

definition worldReturns :: "'s world \<Rightarrow> bool" where
  "worldReturns w \<longleftrightarrow> (\<forall>i. lockReturns (mw_OS w i))"

lemma missingLoop_returns:
  assumes "worldReturns w" "missingLoop f s cid w e envs i names m = (m', Inl err)"
  shows "err \<noteq> StillLocking"
  using assms(2)
proof (induction names arbitrary: envs i m m')
  case (Cons name names)
  show ?case
  proof (cases "SecretBinding (Some f) name")
    case None
    with Cons.prems show ?thesis by auto
  next
    case (Some ks)
    obtain key store where ks: "ks = (key, store)" by fastforce
    obtain envs' r where c: "secretConfigured w e name key store envs = (envs', r)" by fastforce
    have r: "err \<noteq> StillLocking" if "r = Inl err" using c that
      by (auto simp: secretConfigured_def split: option.splits sum.splits prod.splits)
    obtain m1 u q where q: "CreateSecretRequestForCommands (mw_OS w i) s e name key [cid]
        ''run_sealed is waiting for this encrypted value'' m = (m1, u, q)" by (metis prod_cases3)
    have lock: "lockReturns (mw_OS w i)" using assms(1) by (simp add: worldReturns_def)
    note eqs = Some ks c q
    show ?thesis
    proof (cases r)
      case (Inl x)
      with Cons.prems eqs r show ?thesis by auto
    next
      case b: (Inr b)
      show ?thesis
      proof (cases b)
        case True
        with Cons.prems eqs b show ?thesis by (intro Cons.IH [of envs' i m]) auto
      next
        case False
        show ?thesis
        proof (cases q)
          case (Inl x)
          with create_returns(1) [OF lock] q have "x \<noteq> ErrSpinning" by blast
          with Cons.prems eqs b False Inl show ?thesis by (auto simp: accessFailed_def)
        next
          case (Inr rq)
          obtain m2 res2 where l: "missingLoop f s cid w e envs' (Suc i) names m1 = (m2, res2)" by fastforce
          with Cons.prems eqs b False Inr have "res2 = Inl err" by (cases res2) auto
          with Cons.IH l show ?thesis by blast
        qed
      qed
    qed
  qed
qed simp

lemma requestMissing_returns:
  "worldReturns w \<Longrightarrow> requestMissingSecrets f cmd s w e m = (m', Inl err) \<Longrightarrow> err \<noteq> StillLocking"
  using missingLoop_returns by (fastforce simp: requestMissingSecrets_def Let_def split: if_splits sum.splits prod.splits)

lemma awaitLease_returns:
  "worldReturns w \<Longrightarrow> awaitLease current s cid w e m = (m', Inl err) \<Longrightarrow> err \<noteq> StillLocking"
  using create_returns(2) [of "mw_OS w 0"]
  by (fastforce simp: awaitLease_def worldReturns_def accessFailed_def split: if_splits sum.splits prod.splits)

lemma executionEnvironment_returns: "executionEnvironment f w = Inl err \<Longrightarrow> err \<noteq> StillLocking"
  by (auto simp: executionEnvironment_def split: if_splits sum.splits)

lemma awaitCommand_returns:
  assumes "worldReturns w" "awaitCommand current cmd s cid w st m = (m', Done (Inl err))"
  shows "err \<noteq> StillLocking"
proof (cases "executionEnvironment current w")
  case (Inl x)
  with assms executionEnvironment_returns show ?thesis by (fastforce simp: awaitCommand_def)
next
  case (Inr e)
  obtain m1 r where r: "requestMissingSecrets current cmd s w e m = (m1, r)" by fastforce
  show ?thesis
  proof (cases r)
    case (Inl x)
    with assms Inr r requestMissing_returns show ?thesis by (fastforce simp: awaitCommand_def)
  next
    case mr: (Inr br)
    obtain b rs where br: "br = (b, rs)" by fastforce
    obtain m2 q where q: "awaitLease current s cid w e m1 = (m2, q)" by fastforce
    show ?thesis
    proof (cases q)
      case (Inl x)
      with assms Inr r mr br q awaitLease_returns show ?thesis by (fastforce simp: awaitCommand_def Let_def)
    next
      case (Inr l)
      with assms(2) \<open>executionEnvironment current w = Inr e\<close> r mr br q show ?thesis
        by (auto simp: awaitCommand_def Let_def split: if_splits)
    qed
  qed
qed

lemma awaitRound_returns:
  assumes "worldReturns w" "awaitRound f policyPath s cid w st m = (m', Done (Inl err))"
  shows "err \<noteq> StillLocking"
proof -
  have "err \<noteq> StillLocking" if "awaitProposal c cid w st = Done (Inl err)" for c
    using that by (auto simp: awaitProposal_def Let_def split: sum.splits if_splits)
  with assms(2) awaitCommand_returns [OF assms(1)] show ?thesis
    by (fastforce simp: awaitRound_def split: option.splits if_splits sum.splits)
qed

lemma awaitLoop_returns:
  "\<forall>w \<in> set ws. worldReturns w \<Longrightarrow> snd (awaitLoop f policyPath s cid ws st m) \<noteq> Some (Inl StillLocking)"
proof (induction ws arbitrary: st m)
  case (Cons w ws)
  obtain m1 out where o: "awaitRound f policyPath s cid w st (accessRun (mw_Others w) m) = (m1, out)" by fastforce
  with awaitRound_returns [of w f policyPath s cid st _ m1] Cons show ?case by (cases out) auto
qed simp

lemma workspaceRound_returns: "workspaceRound s e w r m \<noteq> Some (Inl StillLocking)"
  by (auto simp: workspaceRound_def)

lemma workspaceLoop_returns: "snd (workspaceLoop s e rid ws m) \<noteq> Some (Inl StillLocking)"
proof (induction ws arbitrary: rid m)
  case (Cons w ws)
  let ?m = "accessRun (mw_Others w) m"
  let ?r = "case Request (mw_OS w 0) rid ?m of Inl _ \<Rightarrow> None | Inr r \<Rightarrow> Some r"
  show ?case
  proof (cases "workspaceRound s e w ?r ?m")
    case None
    with Cons show ?thesis by (cases ?r) (simp_all add: Let_def)
  next
    case (Some res)
    with workspaceRound_returns [of s e w ?r ?m] show ?thesis by (auto simp: Let_def)
  qed
qed simp

lemma awaitWorkspace_returns:
  assumes "worldReturns w"
  shows "snd (awaitWorkspaceAuthorization f policyPath s argv w ws m) \<noteq> Some (Inl StillLocking)"
proof -
  let ?m = "accessRun (mw_Others w) m"
  have wait: "snd (case CreateWorkspaceRequest (mw_OS w 1) s e argv DefaultWorkspaceTTL ''agent requested trusted workspace access'' ?m of
        (m, _, Inl err) \<Rightarrow> (m, Some (Err (accessFailed (WorkspaceRequestFailed err) err)))
      | (m, _, Inr r) \<Rightarrow> (case workspaceRound s e w (Some r) m of
            Some res \<Rightarrow> (m, Some res) | None \<Rightarrow> workspaceLoop s e (rq_ID r) ws m)) \<noteq> Some (Inl StillLocking)" for e
  proof -
    obtain m1 u q where q: "CreateWorkspaceRequest (mw_OS w 1) s e argv DefaultWorkspaceTTL ''agent requested trusted workspace access'' ?m = (m1, u, q)"
      by (metis prod_cases3)
    show ?thesis
    proof (cases q)
      case (Inl err)
      have "lockReturns (mw_OS w 1)" using assms by (simp add: worldReturns_def)
      from create_returns(3) [OF this] q Inl have "err \<noteq> ErrSpinning" by blast
      with q Inl show ?thesis by (simp add: accessFailed_def)
    next
      case (Inr r)
      with q workspaceLoop_returns [of s e "rq_ID r" ws m1] workspaceRound_returns [of s e w "Some r" m1]
      show ?thesis by (auto split: option.split)
    qed
  qed
  show ?thesis
    unfolding awaitWorkspaceAuthorization_def Let_def using wait executionEnvironment_returns by (auto split: sum.split)
qed

text \<open>C28: Every wait ends. If the lock of the access state always answers, no request is dated in the future when a
  call of \<open>run_sealed\<close> starts, and its first round lies at the time \<open>now\<close>, then the call has returned, with an answer
  or an error, in any round that is fifteen minutes later, however people, other agents and the
  files behave in between.\<close>

theorem mcp_wait_bounded:
  assumes "\<forall>w \<in> set (w # ws). worldReturns w"
    and "expireBy (now + DefaultRequestTTL) (accessRun (mw_Others w) m)"
    and "\<forall>i. os_now (mw_OS w i) \<le> now" "mw_Now w \<le> now"
    and "w' \<in> set ws" "now + DefaultRequestTTL \<le> mw_Now w'"
  shows "snd (authorizeCall f policyPath s commandID argv w ws m) \<noteq> None"
proof -
  let ?b = "now + DefaultRequestTTL" and ?m = "accessRun (mw_Others w) m"
  have clocks: "os_now (mw_OS w i) + DefaultRequestTTL \<le> ?b" for i using assms(3) by simp
  have cmd: "returned (snd (awaitRunAuthorization f policyPath s cid (w # ws) m)) \<noteq> None" for cid
  proof -
    have loop: "snd (awaitLoop f policyPath s cid (w # ws) waitStart m) \<noteq> None"
    proof -
      obtain m1 out where o: "awaitRound f policyPath s cid w waitStart ?m = (m1, out)" by fastforce
      show ?thesis
      proof (cases out)
        case (Waiting st1)
        have k: "roundKeeps w s (expireBy ?b) (\<lambda>r. rq_ExpiresAt r \<le> ?b)" using roundKeeps_expire [OF clocks] .
        from awaitRound_Waiting(2) [OF o [unfolded Waiting] k assms(2)] assms(4)
        have "untilBy ?b st1" by (simp add: waitStart_def)
        from awaitLoop_ends [OF this assms(5,6)] o Waiting show ?thesis by simp
      next
        case (Done r)
        with o show ?thesis by simp
      qed
    qed
    with awaitLoop_returns [OF assms(1)] show ?thesis
      by (cases "load m") (auto simp: awaitRunAuthorization_def returned_def simp del: awaitLoop.simps)
  qed
  have "worldReturns w" using assms(1) by simp
  from awaitWorkspace_returns [OF this] awaitWorkspace_ends [OF assms(2) clocks assms(5,6)]
  have ws: "returned (snd (awaitWorkspaceAuthorization f policyPath s argv w ws m)) \<noteq> None"
    by (simp add: returned_def)
  from cmd [of "TrimSpace commandID"] ws show ?thesis
    by (auto simp: authorizeCall_def Let_def split: prod.splits)
qed

section \<open>A call that is authorized, and one that waits\<close>

text \<open>A policy that asks for leases, the environment of the execution example, and the lease of the access example.\<close>

definition leasePolicy :: policyFile where
  "leasePolicy = (workspacePolicy (sampleCommand\<lparr>c_ID := ''go test'', c_Secrets := [''TOKEN'']\<rparr>))\<lparr>f_RequireAgentLeases := True\<rparr>"

definition sampleWorld :: "time \<Rightarrow> ((string \<times> string) list) world" where
  "sampleWorld t = \<lparr>mw_Others = [], mw_Policy = Inr leasePolicy, mw_Pending = NoPending, mw_Env = xe_Env sampleExec,
     mw_OpenEnv = Inr sampleManager, mw_OpenSecret = (\<lambda>_. Inl SecretCorrupt), mw_OS = (\<lambda>_. exEnv t), mw_Now = t, mw_Cancelled = False\<rparr>"

lemma sampleWorld_simps [simp]:
  "mw_Others (sampleWorld t) = []" "mw_Policy (sampleWorld t) = Inr leasePolicy" "mw_OS (sampleWorld t) i = exEnv t"
  "mw_Now (sampleWorld t) = t" "mw_Cancelled (sampleWorld t) = False"
  by (simp_all add: sampleWorld_def)

lemma sampleWorld_command:
  "Lookup leasePolicy ''go test'' = Inr (sampleCommand\<lparr>c_ID := ''go test'', c_Secrets := [''TOKEN'']\<rparr>)"
  "usesSets leasePolicy = True" "SecretBinding (Some leasePolicy) ''TOKEN'' = Some (''TOKEN'', [])" "f_RequireAgentLeases leasePolicy = True"
  by code_simp+

lemma sampleWorld_environment: "executionEnvironment leasePolicy (sampleWorld t) = Inr ''dev''"
proof -
  have "Active (xe_Env sampleExec) sampleManager = Inr sampleSet" by code_simp
  then show ?thesis by (simp add: executionEnvironment_def sampleWorld_command sampleWorld_def sampleSet_def)
qed

lemma sampleWorld_ready: "requestMissingSecrets leasePolicy (sampleCommand\<lparr>c_ID := ''go test'', c_Secrets := [''TOKEN'']\<rparr>) s (sampleWorld t) ''dev'' m =
    (m, Inr (False, []))"
proof -
  obtain em b where e: "entryConfigured (xe_Env sampleExec) ''dev'' ''TOKEN'' sampleManager = (em, b)" by fastforce
  have "snd (entryConfigured (xe_Env sampleExec) ''dev'' ''TOKEN'' sampleManager) = True" by code_simp
  with e have "b" by simp
  with e show ?thesis
    by (simp add: requestMissingSecrets_def sampleWorld_command secretConfigured_def sampleWorld_def)
qed

lemma sample_trimmed: "TrimSpace ''go test'' = ''go test''" "TrimSpace ''ironrun.yml'' = ''ironrun.yml''"
  by (simp_all add: trim_eval)

lemma sample_authorized: "authorizeCall leasePolicy ''ironrun.yml'' ''s1'' ''go test'' [] (sampleWorld 9) [] exLeased =
    (exLeased, Some (Inr (CommandCall leasePolicy ''dev'' ''go test'')))"
proof -
  have "awaitLease leasePolicy ''s1'' ''go test'' (sampleWorld 9) ''dev'' exLeased = (exLeased, Inr None)"
    using ex_authorized by (simp add: awaitLease_def)
  then have "awaitRound leasePolicy ''ironrun.yml'' ''s1'' ''go test'' (sampleWorld 9) waitStart exLeased =
      (exLeased, Done (Inr (leasePolicy, ''dev'')))"
    by (simp add: awaitRound_def waitStart_def currentPolicy_def sample_trimmed sampleWorld_command awaitCommand_def sampleWorld_environment
        sampleWorld_ready pinnedEnvironment_def)
  moreover obtain st where "load exLeased = Ok st" using ex_leased by blast
  ultimately show ?thesis
    by (simp add: authorizeCall_def sample_trimmed awaitRunAuthorization_def waitStart_def)
qed

theorem mcp_run_authorized_witness:
  "leaseApproved exLeased (exEnv 9) ''s1'' ''dev'' ''go test'' \<and> secretReady leasePolicy (sampleWorld 9) ''dev'' ''TOKEN''"
  using mcp_run_authorized [OF exLeased_reachable sample_authorized]
  by (simp add: sample_trimmed commandAuthorized_def sampleWorld_command sampleWorld_environment pinnedEnvironment_def sampleCommand_def)

theorem mcp_wait_bounded_witness:
  "snd (authorizeCall leasePolicy ''ironrun.yml'' ''s2'' ''go test'' [] (sampleWorld 9) [sampleWorld (10 + DefaultRequestTTL)] exStart) \<noteq> None"
proof -
  have "worldReturns (sampleWorld t)" for t by (simp add: worldReturns_def lockReturns_def)
  then have "\<forall>w \<in> set [sampleWorld 9, sampleWorld (10 + DefaultRequestTTL)]. worldReturns w" by simp
  moreover have "expireBy (9 + DefaultRequestTTL) (accessRun (mw_Others (sampleWorld 9)) exStart)"
    by (simp add: expireBy_def exStart_def load_def emptyState_def)
  ultimately show ?thesis by (rule mcp_wait_bounded [where w' = "sampleWorld (10 + DefaultRequestTTL)"]) simp_all
qed

end
