(* ===== verification/Capsule.thy ===== *)
theory Capsule
  imports SecretStore Envset GoJSON
begin

text \<open>
  Encrypted capsules: \<open>src/internal/capsule/capsule.go\<close>.

  The cipher is the one of the vault, the decoder of the payload and the text of a time are arguments.
  The payload is encoded as \<open>encoding/json\<close> does; the native store that keeps the key of a project is a
  value store.
\<close>

section \<open>Payloads and managers\<close>

definition capsulePrefix :: string where "capsulePrefix = ''ir1.''"
definition keySize :: nat where "keySize = 32"
definition capsuleDefaultTTL :: duration where "capsuleDefaultTTL = 5 * minute"
definition MaxTTL :: duration where "MaxTTL = 10 * minute"

datatype capsuleError =
    ErrInvalid | ErrExpired | CapsuleIncomplete | CapsuleTTL | CapsuleCipher vaultError | CapsuleSystem string
  | CapsuleStore storeError | CapsuleKeyInvalid | CapsuleManager

record payload =
  py_Version :: int
  py_RequestID :: string
  py_SessionID :: string
  py_Environment :: string
  py_SecretAlias :: string
  py_SecretKey :: string
  py_Value :: string
  py_ExpiresAt :: time

record capsuleManager =
  cm_ProjectID :: string
  cm_Key :: bytes

record capsuleEnv =
  ce_Crypto :: vaultCrypto
  ce_Decode :: "bytes \<Rightarrow> payload option"
  ce_ShowTime :: "time \<Rightarrow> string"
  ce_Now :: time
  ce_Random :: "string + bytes"

definition marshalCapsule :: "capsuleEnv \<Rightarrow> payload \<Rightarrow> bytes" where
  "marshalCapsule ce p =
     jsonObject [jsonField ''version'' (jsonInt (py_Version p)), jsonField ''request_id'' (jsonString (py_RequestID p)),
       jsonField ''session_id'' (jsonString (py_SessionID p)), jsonField ''environment'' (jsonString (py_Environment p)),
       jsonField ''secret_alias'' (jsonString (py_SecretAlias p)), jsonField ''secret_key'' (jsonString (py_SecretKey p)),
       jsonField ''value'' (jsonString (py_Value p)), jsonField ''expires_at'' (jsonString (ce_ShowTime ce (py_ExpiresAt p)))]"

definition capsuleAAD :: "capsuleManager \<Rightarrow> bytes" where
  "capsuleAAD m = ''ironrun-chat-capsule-v1'' @ [CHR 0x00] @ cm_ProjectID m"

definition identityID :: "identityEnv \<Rightarrow> identity \<Rightarrow> string" where
  "identityID ie i = hexEncode (ie_SHA256 ie (id_RemoteURL i @ [CHR 0x00] @ id_CanonicalPath i))"

definition completePayload :: "payload \<Rightarrow> capsuleError option" where
  "completePayload p =
     (if TrimSpace (py_RequestID p) = [] \<or> TrimSpace (py_SessionID p) = [] \<or> TrimSpace (py_Environment p) = [] \<or>
         TrimSpace (py_SecretAlias p) = [] \<or> TrimSpace (py_SecretKey p) = [] \<or> py_Value p = []
      then Some CapsuleIncomplete else None)"

section \<open>Opening a manager\<close>

text \<open>The project key is made on first use; a value of the store that does not decode to a key is refused.\<close>

definition decodeCapsuleKey :: "string \<Rightarrow> string \<Rightarrow> capsuleError + capsuleManager" where
  "decodeCapsuleKey projectID encoded =
     (case b64Decode encoded of
        None \<Rightarrow> Err CapsuleKeyInvalid
      | Some key \<Rightarrow> if length key \<noteq> keySize then Err CapsuleKeyInvalid
                    else Ok \<lparr>cm_ProjectID = projectID, cm_Key = key\<rparr>)"

definition openCapsules :: "identityEnv \<Rightarrow> 's valueStore \<Rightarrow> string + bytes \<Rightarrow> identity \<Rightarrow> 's \<Rightarrow> 's \<times> (capsuleError + capsuleManager)" where
  "openCapsules ie st rand identity vs =
     (let projectID = identityID ie identity;
          name = ''project-'' @ take 32 projectID
      in case vst_Get st ''capsule-keys'' name vs of
           (vs, Inr encoded) \<Rightarrow> (vs, decodeCapsuleKey projectID encoded)
         | (vs, Inl (StoreFailure e)) \<Rightarrow> (vs, Err (CapsuleStore (StoreFailure e)))
         | (vs, Inl StoreMissing) \<Rightarrow>
             (case rand of
                Inl e \<Rightarrow> (vs, Err (CapsuleSystem e))
              | Inr key \<Rightarrow>
                  (let encoded = b64Raw b64Std key in
                   case vst_Set st ''capsule-keys'' name encoded vs of
                     (vs, Some e) \<Rightarrow> (vs, Err (CapsuleStore e))
                   | (vs, None) \<Rightarrow> (vs, decodeCapsuleKey projectID encoded))))"

definition OpenWithKey :: "string \<Rightarrow> bytes \<Rightarrow> capsuleError + capsuleManager" where
  "OpenWithKey projectID key =
     (if TrimSpace projectID = [] \<or> length key \<noteq> keySize then Err CapsuleManager
      else Ok \<lparr>cm_ProjectID = projectID, cm_Key = key\<rparr>)"

section \<open>Seal and open\<close>

definition sealedPayload :: "capsuleEnv \<Rightarrow> payload \<Rightarrow> duration \<Rightarrow> payload" where
  "sealedPayload ce p ttl = p\<lparr>py_Version := 1, py_ExpiresAt := ce_Now ce + (if ttl \<le> 0 then capsuleDefaultTTL else ttl)\<rparr>"

definition SealCapsule :: "capsuleEnv \<Rightarrow> capsuleManager \<Rightarrow> payload \<Rightarrow> duration \<Rightarrow> capsuleError + string" where
  "SealCapsule ce m p ttl =
     (case completePayload p of
        Some err \<Rightarrow> Err err
      | None \<Rightarrow>
          if (if ttl \<le> 0 then capsuleDefaultTTL else ttl) > MaxTTL then Err CapsuleTTL
          else case newAEAD (cm_Key m) of
            Inl err \<Rightarrow> Err (CapsuleCipher err)
          | Inr key \<Rightarrow> (case ce_Random ce of
              Inl e \<Rightarrow> Err (CapsuleSystem e)
            | Inr nonce \<Rightarrow>
                (let ct = vc_Seal (ce_Crypto ce) key nonce (marshalCapsule ce (sealedPayload ce p ttl)) (capsuleAAD m)
                 in Ok (capsulePrefix @ b64Raw b64URL (nonce @ ct)))))"

definition OpenCapsule :: "capsuleEnv \<Rightarrow> capsuleManager \<Rightarrow> string \<Rightarrow> capsuleError + payload" where
  "OpenCapsule ce m capsule =
     (if \<not> prefix capsulePrefix capsule then Err ErrInvalid
      else case b64URLDecode (drop (length capsulePrefix) capsule) of
        None \<Rightarrow> Err ErrInvalid
      | Some data \<Rightarrow> (case newAEAD (cm_Key m) of
          Inl err \<Rightarrow> Err (CapsuleCipher err)
        | Inr key \<Rightarrow>
            if length data \<le> gcmNonceSize then Err ErrInvalid
            else case vc_Open (ce_Crypto ce) key (take gcmNonceSize data) (drop gcmNonceSize data) (capsuleAAD m) of
              None \<Rightarrow> Err ErrInvalid
            | Some plain \<Rightarrow> (case ce_Decode ce plain of
                None \<Rightarrow> Err ErrInvalid
              | Some p \<Rightarrow>
                  if py_Version p \<noteq> 1 then Err ErrInvalid
                  else if completePayload p \<noteq> None then Err ErrInvalid
                  else if \<not> ce_Now ce < py_ExpiresAt p then Err ErrExpired
                  else Ok p)))"

section \<open>What a capsule is good for\<close>

text \<open>
  The laws of the cipher that are relied on: it opens what it sealed, and whatever opens was sealed under the same key,
  nonce and additional data; a ciphertext is not empty.
\<close>

definition cipherOk :: "vaultCrypto \<Rightarrow> bool" where
  "cipherOk c \<longleftrightarrow>
     (\<forall>k n p a. vc_Open c k n (vc_Seal c k n p a) a = Some p \<and> vc_Seal c k n p a \<noteq> []) \<and>
     (\<forall>k n ct a p. vc_Open c k n ct a = Some p \<longrightarrow> ct = vc_Seal c k n p a)"

text \<open>C31: A capsule carries exactly what was sealed, for one project and for minutes. With a cipher that opens only what was sealed, whatever
  opens under the key of a project was sealed under that key for that project, is complete and has not expired. What is sealed, if the JSON
  decoder reads back the sealed payload (it does when its strings are UTF-8; other bytes are written as U+FFFD), opens under the
  manager that sealed it to the payload that was sealed until its deadline at most ten minutes later,
  and is refused as expired from then on.\<close>
theorem capsule_roundtrip:
  assumes "cipherOk (ce_Crypto ce)"
  shows "(\<forall>s p. OpenCapsule ce m s = Ok p \<longrightarrow>
      completePayload p = None \<and> ce_Now ce < py_ExpiresAt p \<and>
      (\<exists>nonce plain. b64URLDecode (drop 4 s) = Some (nonce @ vc_Seal (ce_Crypto ce) (cm_Key m) nonce plain (capsuleAAD m)) \<and>
        ce_Decode ce plain = Some p)) \<and>
    (\<forall>sealEnv p ttl nonce s. SealCapsule sealEnv m p ttl = Ok s \<and> ce_Crypto sealEnv = ce_Crypto ce \<and>
      ce_Random sealEnv = Inr nonce \<and> length nonce = 12 \<and>
      ce_Decode ce (marshalCapsule sealEnv (sealedPayload sealEnv p ttl)) = Some (sealedPayload sealEnv p ttl) \<longrightarrow>
        py_ExpiresAt (sealedPayload sealEnv p ttl) \<le> ce_Now sealEnv + MaxTTL \<and>
        OpenCapsule ce m s =
          (if ce_Now ce < py_ExpiresAt (sealedPayload sealEnv p ttl) then Ok (sealedPayload sealEnv p ttl) else Err ErrExpired))"
proof (intro conjI allI impI; (elim conjE)?)
  fix s p assume op: "OpenCapsule ce m s = Ok p"
  have len: "length capsulePrefix = 4" by (simp add: capsulePrefix_def)
  from op have pre: "prefix capsulePrefix s" by (auto simp: OpenCapsule_def split: if_splits)
  with op obtain data where data: "b64URLDecode (drop 4 s) = Some data"
    by (cases "b64URLDecode (drop 4 s)") (auto simp: OpenCapsule_def len)
  with op pre have key: "newAEAD (cm_Key m) = Inr (cm_Key m)" "gcmNonceSize < length data"
    by (auto simp: OpenCapsule_def len newAEAD_def split: option.splits if_splits)
  let ?o = "vc_Open (ce_Crypto ce) (cm_Key m) (take gcmNonceSize data) (drop gcmNonceSize data) (capsuleAAD m)"
  obtain plain where plain: "?o = Some plain"
    using op pre data key by (cases ?o) (auto simp: OpenCapsule_def len)
  obtain q where q: "ce_Decode ce plain = Some q"
    using op pre data key plain by (cases "ce_Decode ce plain") (auto simp: OpenCapsule_def len)
  from op pre data key plain q have p: "q = p" "completePayload p = None" "ce_Now ce < py_ExpiresAt p"
    by (auto simp: OpenCapsule_def len split: if_splits)
  from assms plain have "drop gcmNonceSize data = vc_Seal (ce_Crypto ce) (cm_Key m) (take gcmNonceSize data) plain (capsuleAAD m)"
    by (auto simp: cipherOk_def)
  then have "data = take gcmNonceSize data @ vc_Seal (ce_Crypto ce) (cm_Key m) (take gcmNonceSize data) plain (capsuleAAD m)"
    by (metis append_take_drop_id)
  with p q data show "completePayload p = None" "ce_Now ce < py_ExpiresAt p"
    "\<exists>nonce plain. b64URLDecode (drop 4 s) = Some (nonce @ vc_Seal (ce_Crypto ce) (cm_Key m) nonce plain (capsuleAAD m)) \<and>
        ce_Decode ce plain = Some p"
    by auto
next
  fix sealEnv :: capsuleEnv and p ttl nonce s
  let ?p = "sealedPayload sealEnv p ttl"
  let ?ct = "vc_Seal (ce_Crypto ce) (cm_Key m) nonce (marshalCapsule sealEnv ?p) (capsuleAAD m)"
  assume s: "SealCapsule sealEnv m p ttl = Ok s" "ce_Crypto sealEnv = ce_Crypto ce" "ce_Random sealEnv = Inr nonce"
    "length nonce = 12" "ce_Decode ce (marshalCapsule sealEnv ?p) = Some ?p"
  from s(1) have c: "completePayload p = None" "(if ttl \<le> 0 then capsuleDefaultTTL else ttl) \<le> MaxTTL" "newAEAD (cm_Key m) = Inr (cm_Key m)"
    by (auto simp: SealCapsule_def newAEAD_def split: option.splits if_splits)
  from s c have "s = capsulePrefix @ b64Raw b64URL (nonce @ ?ct)" by (simp add: SealCapsule_def Let_def)
  moreover have "?ct \<noteq> []" "vc_Open (ce_Crypto ce) (cm_Key m) nonce ?ct (capsuleAAD m) = Some (marshalCapsule sealEnv ?p)"
    using assms by (auto simp: cipherOk_def)
  moreover have "py_Version ?p = 1" "completePayload ?p = None"
    using c(1) by (simp_all add: sealedPayload_def completePayload_def split: if_splits)
  ultimately show "OpenCapsule ce m s = (if ce_Now ce < py_ExpiresAt ?p then Ok ?p else Err ErrExpired)"
    using s(4,5) c(3) by (simp add: OpenCapsule_def gcmNonceSize_def)
  show "py_ExpiresAt ?p \<le> ce_Now sealEnv + MaxTTL" using c(2) by (simp add: sealedPayload_def)
qed

section \<open>A capsule that is sealed and opened\<close>

definition exCipher :: vaultCrypto where
  "exCipher = \<lparr>vc_Seal = (\<lambda>k n p a. CHR ''s'' # k @ n @ a @ p),
     vc_Open = (\<lambda>k n ct a. if prefix (CHR ''s'' # k @ n @ a) ct then Some (drop (length (CHR ''s'' # k @ n @ a)) ct) else None),
     vc_HMAC = (\<lambda>_ s. s), vc_SHA256 = (\<lambda>s. s), vc_Decode = (\<lambda>_. None)\<rparr>"

lemma exCipher_ok: "cipherOk exCipher"
  unfolding cipherOk_def exCipher_def by (auto simp: prefix_def split: if_splits)

definition exPayload :: payload where
  "exPayload = \<lparr>py_Version = 0, py_RequestID = ''req'', py_SessionID = ''s1'', py_Environment = ''dev'', py_SecretAlias = ''api'',
     py_SecretKey = ''API_KEY'', py_Value = ''hunter22'', py_ExpiresAt = 0\<rparr>"

definition exCapsules :: capsuleManager where
  "exCapsules = \<lparr>cm_ProjectID = ''p'', cm_Key = replicate 32 CHR ''k''\<rparr>"

text \<open>The decoder knows two payloads by their JSON text, and refuses any other text.\<close>

definition exCapsuleEnv :: "time \<Rightarrow> capsuleEnv" where
  "exCapsuleEnv t =
     (let env = \<lparr>ce_Crypto = exCipher, ce_Decode = (\<lambda>_. None), ce_ShowTime = (\<lambda>t. if t = 7 + capsuleDefaultTTL then ''soon'' else ''later''),
            ce_Now = t, ce_Random = Inr (replicate 12 CHR ''n'')\<rparr>;
          known = exPayload\<lparr>py_Version := 1, py_ExpiresAt := 7 + capsuleDefaultTTL\<rparr>
      in env\<lparr>ce_Decode := (\<lambda>b. find (\<lambda>p. marshalCapsule env p = b) [known, known\<lparr>py_Value := ''other''\<rparr>])\<rparr>)"


definition exSealedPayload :: payload where
  "exSealedPayload = exPayload\<lparr>py_Version := 1, py_ExpiresAt := 7 + capsuleDefaultTTL\<rparr>"

lemma exCapsuleEnv_simps: "ce_Crypto (exCapsuleEnv t) = exCipher" "ce_Now (exCapsuleEnv t) = t"
  "ce_Random (exCapsuleEnv t) = Inr (replicate 12 CHR ''n'')"
  "ce_Decode (exCapsuleEnv t) (marshalCapsule (exCapsuleEnv u) exSealedPayload) = Some exSealedPayload"
  by (simp_all add: exCapsuleEnv_def Let_def marshalCapsule_def exSealedPayload_def)

lemma exPayload_complete: "completePayload exPayload = None"
  by (simp add: completePayload_def exPayload_def trim_eval)

lemma exSealed: "\<exists>s. SealCapsule (exCapsuleEnv 7) exCapsules exPayload 0 = Ok s"
  by (simp add: SealCapsule_def exPayload_complete capsuleDefaultTTL_def MaxTTL_def newAEAD_def exCapsules_def exCapsuleEnv_def Let_def)

theorem capsule_roundtrip_witness:
  "\<exists>s. SealCapsule (exCapsuleEnv 7) exCapsules exPayload 0 = Ok s \<and>
    OpenCapsule (exCapsuleEnv 8) exCapsules s = Ok exSealedPayload \<and>
    OpenCapsule (exCapsuleEnv (7 + capsuleDefaultTTL)) exCapsules s = Err ErrExpired"
proof -
  obtain s where s: "SealCapsule (exCapsuleEnv 7) exCapsules exPayload 0 = Ok s" using exSealed by blast
  have p: "sealedPayload (exCapsuleEnv 7) exPayload 0 = exSealedPayload"
    by (simp add: sealedPayload_def exCapsuleEnv_simps exSealedPayload_def)
  have later: "py_ExpiresAt exSealedPayload = 7 + capsuleDefaultTTL" by (simp add: exSealedPayload_def)
  have "OpenCapsule (exCapsuleEnv t) exCapsules s =
      (if t < 7 + capsuleDefaultTTL then Ok exSealedPayload else Err ErrExpired)" for t
  proof -
    have "cipherOk (ce_Crypto (exCapsuleEnv t))" using exCipher_ok exCapsuleEnv_simps(1) by simp
    from conjunct2 [OF capsule_roundtrip [OF this, of exCapsules], THEN spec, of "exCapsuleEnv 7",
        THEN spec, of exPayload, THEN spec, of 0, THEN spec, of "replicate 12 CHR ''n''", THEN spec, of s]
    show ?thesis by (simp add: s exCapsuleEnv_simps p later)
  qed
  with s show ?thesis by (auto simp: capsuleDefaultTTL_def)
qed

end
