(* ===== verification/MCPTools.thy ===== *)
theory MCPTools
  imports Authorization Capsule
begin

text \<open>
  The other tools of the MCP server, \<open>src/mcp/server.go\<close>: what each handler checks, does and answers.

  The accessors of a tool call belong to the MCP library and are arguments; a \<open>world\<close> is what the files
  hold while the call runs.  An answer is the data that its text shows, in place of the text.
\<close>

section \<open>Calls and answers\<close>

text \<open>\<open>RequireString\<close>, \<open>RequireStringSlice\<close>, and the argument \<open>env\<close> if it is an object: strings and other values.\<close>

record toolCall =
  tq_String :: "string \<Rightarrow> string option"
  tq_Slice :: "string \<Rightarrow> string list option"
  tq_Env :: "(string \<times> string option) list option"

datatype toolError =
    ToolAuth mcpError
  | ToolMissing string
  | ProposalsDisabled
  | BadProposalID
  | ProposedShell
  | ReasonLines
  | AlreadyCommand string
  | BadSecretBinding string
  | ProposalConflict string
  | ProposalUnsaved
  | AliasUndeclared
  | NotInPolicy string
  | BadDuration
  | RequestRefused accessError
  | NoSelectedEnvironment
  | LeaseUnknown
  | CapsuleRequired
  | CapsuleKeyUnavailable
  | CapsuleRefused
  | CapsuleMismatch
  | CapsulePolicy
  | CapsuleConsumed

definition mustString :: "toolCall \<Rightarrow> string \<Rightarrow> string" where
  "mustString q key = (case tq_String q key of None \<Rightarrow> [] | Some s \<Rightarrow> s)"

definition optionalStringSlice :: "toolCall \<Rightarrow> string \<Rightarrow> string list" where
  "optionalStringSlice q key = (case tq_Slice q key of None \<Rightarrow> [] | Some xs \<Rightarrow> xs)"

definition reloaded :: "policyFile \<Rightarrow> string \<Rightarrow> 's world \<Rightarrow> toolError + policyFile" where
  "reloaded f policyPath w = (case currentPolicy f policyPath w of Inl err \<Rightarrow> Err (ToolAuth (PolicyReload err)) | Inr c \<Rightarrow> Ok c)"

definition selectedEnvironment :: "policyFile \<Rightarrow> 's world \<Rightarrow> toolError + string" where
  "selectedEnvironment f w = (case executionEnvironment f w of Inl err \<Rightarrow> Err (ToolAuth err) | Inr e \<Rightarrow> Ok e)"

definition accessOpens :: "manager \<Rightarrow> toolError option" where
  "accessOpens m = (case load m of Inl _ \<Rightarrow> Some (ToolAuth AccessUnavailable) | Inr _ \<Rightarrow> None)"

section \<open>Listing\<close>

definition listCommands :: "policyFile \<Rightarrow> string \<Rightarrow> 's world \<Rightarrow> toolError + (string \<times> string list) list" where
  "listCommands f policyPath w =
     (case reloaded f policyPath w of Inl err \<Rightarrow> Err err | Inr c \<Rightarrow> Ok (List.map (\<lambda>cmd. (c_ID cmd, c_Argv cmd)) (f_Commands c)))"

definition validatePolicy :: "policyFile \<Rightarrow> string \<Rightarrow> 's world \<Rightarrow> toolError + nat \<times> string" where
  "validatePolicy f policyPath w =
     (case reloaded f policyPath w of Inl err \<Rightarrow> Err err | Inr c \<Rightarrow> Ok (length (f_Commands c), f_Provider c))"

record envRow =
  er_Name :: string
  er_Active :: bool
  er_Expired :: bool
  er_Expires :: "time option"
  er_Entries :: "(string \<times> string \<times> string \<times> string) list"

definition environmentRow :: "'s envEnv \<Rightarrow> metadata \<Rightarrow> string \<times> envSet \<Rightarrow> envRow" where
  "environmentRow env meta ns =
     (case ns of (name, s) \<Rightarrow>
        \<lparr>er_Name = name, er_Active = (name = md_Active meta), er_Expired = envExpired env s, er_Expires = es_ExpiresAt s,
         er_Entries = List.map (\<lambda>e. (ee_Name e, ee_Kind e, ee_Target e, ee_Filename e)) (es_Entries s)\<rparr>)"

text \<open>\<open>None\<close> is the fixed answer for a policy whose values are not in environments.\<close>

definition makeListEnvironmentsHandler :: "policyFile \<Rightarrow> string \<Rightarrow> 's world \<Rightarrow> toolError + envRow list option" where
  "makeListEnvironmentsHandler f policyPath w =
     (case reloaded f policyPath w of
        Inl err \<Rightarrow> Err err
      | Inr c \<Rightarrow>
          if \<not> usesSets c then Ok None
          else case mw_OpenEnv w of
            Inl _ \<Rightarrow> Err (ToolAuth EnvironmentUnavailable)
          | Inr m \<Rightarrow> Ok (Some (List.map (environmentRow (mw_Env w) (mg_Meta m)) (md_Sets (mg_Meta m)))))"

definition makeWorkspaceStatusHandler :: "string \<Rightarrow> string \<Rightarrow> 's world \<Rightarrow> manager \<Rightarrow>
    toolError + string \<times> string \<times> string list \<times> time option" where
  "makeWorkspaceStatusHandler projectRoot sessionID w m =
     (case mw_OpenEnv w of
        Inl _ \<Rightarrow> Err (ToolAuth EnvironmentUnavailable)
      | Inr em \<Rightarrow> (case Active (mw_Env w) em of
          Inl _ \<Rightarrow> Err NoSelectedEnvironment
        | Inr s \<Rightarrow> (case accessOpens m of
            Some err \<Rightarrow> Err err
          | None \<Rightarrow> Ok (projectRoot, es_Name s, List.map ee_Name (es_Entries s),
              case AuthorizeWorkspace (mw_OS w 0) sessionID (es_Name s) m of Inl _ \<Rightarrow> None | Inr g \<Rightarrow> Some (wg_ExpiresAt g)))))"

datatype leaseState = LeaseActive | LeaseRevoked | LeaseExpired

definition leaseStatus :: "time \<Rightarrow> lease \<Rightarrow> leaseState" where
  "leaseStatus now l =
     (if ls_RevokedAt l \<noteq> None then LeaseRevoked else if \<not> now < ls_ExpiresAt l then LeaseExpired else LeaseActive)"

definition makeLeaseStatusHandler :: "string \<Rightarrow> 's world \<Rightarrow> manager \<Rightarrow> toolError + (lease \<times> leaseState) list" where
  "makeLeaseStatusHandler sessionID w m =
     (case accessOpens m of
        Some err \<Rightarrow> Err err
      | None \<Rightarrow> (case Leases sessionID m of
          Inl err \<Rightarrow> Err (RequestRefused err)
        | Inr ls \<Rightarrow> Ok (List.map (\<lambda>l. (l, leaseStatus (mw_Now w) l)) ls)))"

section \<open>Requests\<close>

definition makeRequestWorkspaceHandler :: "policyFile \<Rightarrow> string \<Rightarrow> string \<Rightarrow> toolCall \<Rightarrow> 's world \<Rightarrow> manager \<Rightarrow>
    manager \<times> (toolError + request)" where
  "makeRequestWorkspaceHandler f policyPath sessionID q w m =
     (case tq_String q ''reason'' of
        None \<Rightarrow> (m, Err (ToolMissing ''reason''))
      | Some reason \<Rightarrow> (case reloaded f policyPath w of
          Inl err \<Rightarrow> (m, Err err)
        | Inr c \<Rightarrow> (case selectedEnvironment c w of
            Inl err \<Rightarrow> (m, Err err)
          | Inr environment \<Rightarrow>
              (let argv = optionalStringSlice q ''argv'';
                   argv = (if argv = [] then [''(agent workspace request)''] else argv)
               in case accessOpens m of
                    Some err \<Rightarrow> (m, Err err)
                  | None \<Rightarrow> (case CreateWorkspaceRequest (mw_OS w 0) sessionID environment argv DefaultWorkspaceTTL reason m of
                      (m, _, Inl err) \<Rightarrow> (m, Err (RequestRefused err))
                    | (m, _, Inr r) \<Rightarrow> (m, Ok r))))))"

text \<open>\<open>request_secret\<close> and \<open>request_lease\<close> look at the policy that the server started with.\<close>

definition makeRequestSecretHandler :: "policyFile \<Rightarrow> string \<Rightarrow> toolCall \<Rightarrow> 's world \<Rightarrow> manager \<Rightarrow> manager \<times> (toolError + request)" where
  "makeRequestSecretHandler f sessionID q w m =
     (case tq_String q ''secret_alias'' of
        None \<Rightarrow> (m, Err (ToolMissing ''secret_alias''))
      | Some alias \<Rightarrow> (case SecretBinding (Some f) alias of
          None \<Rightarrow> (m, Err AliasUndeclared)
        | Some (key, _) \<Rightarrow> (case selectedEnvironment f w of
            Inl err \<Rightarrow> (m, Err err)
          | Inr environment \<Rightarrow> (case accessOpens m of
              Some err \<Rightarrow> (m, Err err)
            | None \<Rightarrow> (case CreateSecretRequest (mw_OS w 0) sessionID environment alias key (mustString q ''reason'') m of
                (m, _, Inl err) \<Rightarrow> (m, Err (RequestRefused err))
              | (m, _, Inr r) \<Rightarrow> (m, Ok r))))))"

definition requestedTTL :: "(string \<Rightarrow> duration option) \<Rightarrow> string \<Rightarrow> toolError + duration" where
  "requestedTTL parseDuration raw =
     (if TrimSpace raw = [] then Ok DefaultLeaseTTL
      else case parseDuration (TrimSpace raw) of
        None \<Rightarrow> Err BadDuration
      | Some ttl \<Rightarrow> if ttl \<le> 0 then Err BadDuration else Ok ttl)"

definition makeRequestLeaseHandler :: "(string \<Rightarrow> duration option) \<Rightarrow> policyFile \<Rightarrow> string \<Rightarrow> toolCall \<Rightarrow> 's world \<Rightarrow> manager \<Rightarrow>
    manager \<times> (toolError + request)" where
  "makeRequestLeaseHandler parseDuration f sessionID q w m =
     (let commands = optionalStringSlice q ''command_ids'' in
      if commands = [] then (m, Err (ToolMissing ''command_ids''))
      else case find (\<lambda>cid. isl (Lookup f cid)) commands of
        Some cid \<Rightarrow> (m, Err (NotInPolicy cid))
      | None \<Rightarrow> (case requestedTTL parseDuration (mustString q ''ttl'') of
          Inl err \<Rightarrow> (m, Err err)
        | Inr ttl \<Rightarrow> (case selectedEnvironment f w of
            Inl err \<Rightarrow> (m, Err err)
          | Inr environment \<Rightarrow> (case accessOpens m of
              Some err \<Rightarrow> (m, Err err)
            | None \<Rightarrow> (case CreateLeaseRequest (mw_OS w 0) sessionID environment commands ttl (mustString q ''reason'') m of
                (m, _, Inl err) \<Rightarrow> (m, Err (RequestRefused err))
              | (m, _, Inr r) \<Rightarrow> (m, Ok r))))))"

definition makeRevokeLeaseHandler :: "string \<Rightarrow> toolCall \<Rightarrow> 's world \<Rightarrow> manager \<Rightarrow> manager \<times> (toolError + string)" where
  "makeRevokeLeaseHandler sessionID q w m =
     (case tq_String q ''lease_id'' of
        None \<Rightarrow> (m, Err (ToolMissing ''lease_id''))
      | Some lid \<Rightarrow> (case accessOpens m of
          Some err \<Rightarrow> (m, Err err)
        | None \<Rightarrow> (case Revoke (mw_OS w 0) lid sessionID m of
            (m, _, Inl _) \<Rightarrow> (m, Err LeaseUnknown)
          | (m, _, Inr _) \<Rightarrow> (m, Ok lid))))"

section \<open>Proposing a command\<close>

definition validProposalID :: "string \<Rightarrow> bool" where
  "validProposalID pid \<longleftrightarrow> pid \<noteq> [] \<and> list_all (\<lambda>c. asciiLetter c \<or> asciiDigit c \<or> c = CHR ''-'' \<or> c = CHR ''_'') pid"

definition envNamePattern :: "string \<Rightarrow> bool" where
  "envNamePattern s \<longleftrightarrow>
     (case s of
        [] \<Rightarrow> False
      | c # cs \<Rightarrow> (asciiLetter c \<or> c = CHR ''_'') \<and> list_all (\<lambda>c. asciiLetter c \<or> asciiDigit c \<or> c = CHR ''_'') cs)"

definition singleLine :: "string \<Rightarrow> bool" where
  "singleLine s \<longleftrightarrow> list_all (\<lambda>r. \<not> (isControl r \<or> r = 0x2028 \<or> r = 0x2029)) (runesOf s)"

definition coerceEnv :: "(string \<times> string option) list option \<Rightarrow> string gomap option" where
  "coerceEnv v =
     (case v of
        None \<Rightarrow> None
      | Some kvs \<Rightarrow>
          (let out = fold (\<lambda>(k, val). case val of None \<Rightarrow> id | Some s \<Rightarrow> mapPut k s) kvs []
           in if out = [] then None else Some out))"

text \<open>The bindings of a proposal; names from \<open>secrets\<close> are added for a policy with environment entries.\<close>

definition proposalEnv :: "policyFile \<Rightarrow> toolCall \<Rightarrow> string gomap option" where
  "proposalEnv current q =
     (let env = coerceEnv (tq_Env q) in
      if UsesEnvironmentEntries (Some current)
      then fold (\<lambda>name env. Some (mapPut name name (case env of None \<Rightarrow> [] | Some kvs \<Rightarrow> kvs))) (optionalStringSlice q ''secrets'') env
      else env)"

definition badBinding :: "string gomap option \<Rightarrow> string option" where
  "badBinding env =
     (case env of
        None \<Rightarrow> None
      | Some kvs \<Rightarrow> map_option fst (find (\<lambda>(name, ref). \<not> envNamePattern name \<or> \<not> singleLine ref) kvs))"

text \<open>The checks, up to the proposal that is to be saved; \<open>now\<close> is the server's clock as text.\<close>

definition checkProposal :: "policyFile \<Rightarrow> toolCall \<Rightarrow> string \<Rightarrow> toolError + proposal" where
  "checkProposal current q now =
     (let pid = TrimSpace (mustString q ''id'');
          argv = optionalStringSlice q ''argv'';
          reason = TrimSpace (mustString q ''reason'')
      in if \<not> f_AllowProposals current then Err ProposalsDisabled
         else if \<not> validProposalID pid then Err BadProposalID
         else if argv = [] then Err (ToolMissing ''argv'')
         else if IsShellString argv then Err ProposedShell
         else if reason = [] then Err (ToolMissing ''reason'')
         else if \<not> singleLine reason then Err ReasonLines
         else if \<not> isl (Lookup current pid) then Err (AlreadyCommand pid)
         else case badBinding (proposalEnv current q) of
           Some name \<Rightarrow> Err (BadSecretBinding name)
         | None \<Rightarrow> Ok \<lparr>pp_ID = pid, pp_Argv = argv, pp_Env = proposalEnv current q, pp_Reason = reason, pp_ProposedAt = now,
                       pp_Status = ''pending''\<rparr>)"

definition makeProposeHandler :: "policyFile \<Rightarrow> string \<Rightarrow> pendingOS \<Rightarrow> toolCall \<Rightarrow> string \<Rightarrow> 's world \<Rightarrow> pendingFile \<Rightarrow>
    pendingFile \<times> (toolError + string)" where
  "makeProposeHandler f policyPath os q now w pf =
     (case reloaded f policyPath w of
        Inl err \<Rightarrow> (pf, Err err)
      | Inr current \<Rightarrow> (case checkProposal current q now of
          Inl err \<Rightarrow> (pf, Err err)
        | Inr p \<Rightarrow>
            (case createProposal os p pf of
               (pf, _, Some PendingConflict) \<Rightarrow> (pf, Err (ProposalConflict (pp_ID p)))
             | (pf, _, Some _) \<Rightarrow> (pf, Err ProposalUnsaved)
             | (pf, _, None) \<Rightarrow> (pf, Ok (pp_ID p)))))"

section \<open>Claiming a capsule\<close>

text \<open>
  Where the value goes: the environment as it opens now, or the alias store of the policy, whose state is \<open>'x\<close>.  The
  text of a failure is not used.
\<close>

type_synonym 'x aliasStore = "string \<Rightarrow> string \<Rightarrow> string \<Rightarrow> 'x \<Rightarrow> 'x \<times> secretError option"

definition claimCommit :: "policyFile \<Rightarrow> 's world \<Rightarrow> 'x aliasStore \<Rightarrow> string \<Rightarrow> payload \<Rightarrow> request \<Rightarrow>
    's envManager option \<times> 'x \<Rightarrow> ('s envManager option \<times> 'x) \<times> string option" where
  "claimCommit f w setAlias storeName p locked s =
     (if usesSets f then
        (case mw_OpenEnv w of
           Inl err \<Rightarrow> (s, Some err)
         | Inr em \<Rightarrow> (case Put (mw_Env w) (rq_Environment locked) (rq_SecretKey locked) (py_Value p) em of
             (em, err) \<Rightarrow> ((Some em, snd s), map_option (\<lambda>_. ''environment'') err)))
      else
        (case setAlias storeName (rq_SecretAlias locked) (py_Value p) (snd s) of
           (x, err) \<Rightarrow> ((fst s, x), map_option (\<lambda>_. ''store'') err)))"

definition claimMatches :: "string \<Rightarrow> payload \<Rightarrow> request \<Rightarrow> bool" where
  "claimMatches sessionID p r \<longleftrightarrow>
     rq_Kind r = RequestSecret \<and> rq_Status r = StatusPending \<and> rq_SessionID r = sessionID \<and>
     rq_Environment r = py_Environment p \<and> rq_SecretAlias r = py_SecretAlias p \<and> rq_SecretKey r = py_SecretKey p"

definition makeClaimCapsuleHandler :: "policyFile \<Rightarrow> string \<Rightarrow> capsuleEnv \<Rightarrow> capsuleError + capsuleManager \<Rightarrow> toolCall \<Rightarrow> 's world \<Rightarrow>
    'x aliasStore \<Rightarrow> manager \<Rightarrow> 's envManager option \<times> 'x \<Rightarrow>
    manager \<times> ('s envManager option \<times> 'x) \<times> (toolError + string \<times> string)" where
  "makeClaimCapsuleHandler f sessionID ce capsules q w setAlias m s =
     (case tq_String q ''capsule'' of
        None \<Rightarrow> (m, s, Err CapsuleRequired)
      | Some sealed \<Rightarrow>
          if \<not> prefix ''ir1.'' sealed then (m, s, Err CapsuleRequired)
          else case capsules of
            Inl _ \<Rightarrow> (m, s, Err CapsuleKeyUnavailable)
          | Inr cm \<Rightarrow> (case OpenCapsule ce cm sealed of
              Inl _ \<Rightarrow> (m, s, Err CapsuleRefused)
            | Inr p \<Rightarrow>
                if py_SessionID p \<noteq> sessionID then (m, s, Err CapsuleRefused)
                else case accessOpens m of
                  Some err \<Rightarrow> (m, s, Err err)
                | None \<Rightarrow> (case Request (mw_OS w 0) (py_RequestID p) m of
                    Inl _ \<Rightarrow> (m, s, Err CapsuleMismatch)
                  | Inr r \<Rightarrow>
                      if \<not> claimMatches sessionID p r then (m, s, Err CapsuleMismatch)
                      else case SecretBinding (Some f) (rq_SecretAlias r) of
                        None \<Rightarrow> (m, s, Err CapsulePolicy)
                      | Some (key, storeName) \<Rightarrow>
                          if key \<noteq> rq_SecretKey r then (m, s, Err CapsulePolicy)
                          else (case FulfillSecretWith (mw_OS w 1) (rq_ID r) (Some (claimCommit f w setAlias storeName p)) m s of
                                  (m, s, Inl _) \<Rightarrow> (m, s, Err CapsuleConsumed)
                                | (m, s, Inr _) \<Rightarrow> (m, s, Ok (rq_SecretAlias r, rq_Environment r))))))"

end
