(* ===== verification/MCPTools_Props.thy ===== *)
theory MCPTools_Props
  imports MCPTools Authorization_Props Proposals_Props Policy_Props
begin

text \<open>
  What the tools of an agent can do besides running commands: a proposal that reaches the pending file is
  well-formed, and a capsule is stored once, for the request it was made for.
\<close>

declare expireRequest_simps(4) [simp del]

section \<open>Proposals\<close>

text \<open>A proposal never has an empty map of bindings, which the pending file could not tell from none.\<close>

lemma proposalEnv_nonempty: "proposalEnv current q \<noteq> Some []"
proof -
  have "coerceEnv e \<noteq> Some []" for e by (simp add: coerceEnv_def Let_def split: option.split)
  moreover have "fold (\<lambda>name env. Some (mapPut name name (case env of None \<Rightarrow> [] | Some kvs \<Rightarrow> kvs))) names env \<noteq> Some []"
    if "env \<noteq> Some []" for names and env :: "string gomap option"
    using that
  proof (induction names arbitrary: env)
    case (Cons n names)
    have "mapPut n n m \<noteq> []" for m :: "string gomap" by (metis image_empty insert_not_empty mapPut_keys list.set(1))
    then show ?case by (simp add: Cons.IH)
  qed simp
  ultimately show ?thesis by (simp add: proposalEnv_def Let_def)
qed

lemma mapGet_fold_entries: "x \<in> set kvs \<Longrightarrow> find P kvs = None \<Longrightarrow> \<not> P x"
  by (auto simp: find_None_iff)

text \<open>C29: Only a well-formed proposal reaches a human. If \<open>propose_command\<close> changes the pending file, then the
  current policy allows proposals, and what is added is one new proposal, pending, under an ID of letters, digits, dashes and
  underscores that is neither pending nor a command of the policy, with a non-empty argument vector
  that is no shell, a reason of one line, and variable names and one-line references; every other proposal
  stays as it is.\<close>

theorem mcp_proposal_clean:
  assumes "makeProposeHandler f policyPath os q now w pf = (pf', r)" "pf' \<noteq> pf"
  shows "\<exists>current ps p. currentPolicy f policyPath w = Inr current \<and> f_AllowProposals current \<and> loadPending pf = Inr ps \<and>
    r = Ok (pp_ID p) \<and> loadPending pf' = Inr (if findProposal (pp_ID p) ps = None then Upsert p ps else ps) \<and>
    validProposalID (pp_ID p) \<and> isl (Lookup current (pp_ID p)) \<and> pp_Argv p \<noteq> [] \<and> \<not> IsShellString (pp_Argv p) \<and>
    pp_Reason p \<noteq> [] \<and> singleLine (pp_Reason p) \<and> pp_Status p = ''pending'' \<and> pp_ProposedAt p = now \<and>
    (\<forall>kvs name ref. pp_Env p = Some kvs \<and> (name, ref) \<in> set kvs \<longrightarrow> envNamePattern name \<and> singleLine ref)"
proof -
  obtain current where c: "currentPolicy f policyPath w = Inr current"
    using assms by (cases "currentPolicy f policyPath w") (auto simp: makeProposeHandler_def reloaded_def)
  obtain p where p: "checkProposal current q now = Inr p"
    using assms c by (cases "checkProposal current q now") (auto simp: makeProposeHandler_def reloaded_def)
  obtain pf1 res err where u: "createProposal os p pf = (pf1, res, err)" by (metis prod_cases3)
  have pf1: "pf' = pf1" "err = None \<longrightarrow> r = Ok (pp_ID p)"
    using assms(1) c p u by (auto simp: makeProposeHandler_def reloaded_def split: option.splits reviewError.splits)
  from u have "updatePending os (createFn p) pf None = (pf1, res, err)" by (simp add: createProposal_def)
  then obtain ps ps' where ps: "loadPending pf = Inr ps" "createFn p ps None = (None, ps', res)" "pf1 = Pending ps'" "err = None"
    using assms(2) pf1(1) by (cases rule: updatePending_cases) auto
  have ps': "ps' = (if findProposal (pp_ID p) ps = None then Upsert p ps else ps)"
    using ps(2) by (auto simp: createFn_def split: option.splits if_splits)
  from p have chk: "f_AllowProposals current" "validProposalID (pp_ID p)" "pp_Argv p \<noteq> []" "\<not> IsShellString (pp_Argv p)"
    "pp_Reason p \<noteq> []" "singleLine (pp_Reason p)" "isl (Lookup current (pp_ID p))" "badBinding (pp_Env p) = None"
    "pp_Status p = ''pending''" "pp_ProposedAt p = now"
    by (auto simp: checkProposal_def Let_def split: if_splits option.splits)
  have "envNamePattern name \<and> singleLine ref" if "pp_Env p = Some kvs" "(name, ref) \<in> set kvs" for kvs name ref
    using mapGet_fold_entries [OF that(2), of "\<lambda>(name, ref). \<not> envNamePattern name \<or> \<not> singleLine ref"] chk(8) that(1)
    by (auto simp: badBinding_def)
  with c ps ps' chk pf1 show ?thesis by (auto simp: loadPending_def)
qed

section \<open>Capsules\<close>

lemma indexOf_map: "(\<And>x. P (f x) = P x) \<Longrightarrow> indexOf P (List.map f xs) = indexOf P xs"
  by (induction xs) auto

lemma indexOf_update: "indexOf P xs = Some i \<Longrightarrow> P y \<Longrightarrow> indexOf P (xs[i := y]) = Some i"
  by (induction xs arbitrary: i) (auto split: if_splits)

text \<open>The first request with an ID has been fulfilled, and stays so.\<close>

definition fulfilledIn :: "string \<Rightarrow> manager \<Rightarrow> bool" where
  "fulfilledIn rid m \<longleftrightarrow>
     (\<exists>st i. load m = Ok st \<and> indexOf (\<lambda>r. rq_ID r = rid) (st_Requests st) = Some i \<and> rq_Status (st_Requests st ! i) = StatusFulfilled)"

lemma fulfilledIn_run:
  assumes "fulfilledIn rid m"
  shows "fulfilledIn rid (accessRun evs m)"
proof -
  obtain st i where st: "load m = Ok st" "indexOf (\<lambda>r. rq_ID r = rid) (st_Requests st) = Some i" "rq_Status (st_Requests st ! i) = StatusFulfilled"
    using assms by (auto simp: fulfilledIn_def)
  obtain st' where st': "load (accessRun evs m) = Ok st'" "evolves st st'"
    using accessRun_evolves [OF st(1)] by blast
  from st'(2) have ev: "listEvolves requestEvolves (st_Requests st) (st_Requests st')" by (simp add: evolves_def)
  from resolved_stays [OF ev st(2)] have "indexOf (\<lambda>r. rq_ID r = rid) (st_Requests st') = Some i" .
  moreover from ev indexOf_Some [OF st(2)] st(3) have "st_Requests st' ! i = st_Requests st ! i"
    by (auto simp: listEvolves_def requestEvolves_def)
  ultimately show ?thesis using st(3) st'(1) by (auto simp: fulfilledIn_def)
qed

lemma Request_fulfilled: "fulfilledIn rid m \<Longrightarrow> Request env rid m = Inr r \<Longrightarrow> rq_Status r = StatusFulfilled"
  by (auto simp: fulfilledIn_def Request_def find_indexOf split: if_splits)

lemma expire_pending: "rq_Status (expireRequest now r) = StatusPending \<Longrightarrow> expireRequest now r = r"
  by (cases "rq_Status r = StatusPending \<and> \<not> now < rq_ExpiresAt r") (simp_all add: expireRequest_def)

lemma FulfillSecretWith_Ok:
  assumes "FulfillSecretWith env rid (Some c) m w = (m1, w1, Ok r)"
  obtains st i where "load m = Ok st" "indexOf (\<lambda>r. rq_ID r = rid) (st_Requests st) = Some i"
    "c (st_Requests st ! i) w = (w1, None)" "rq_Status (st_Requests st ! i) = StatusPending" "fulfilledIn rid m1"
proof -
  let ?ch = "resolveChange env rid (Some RequestSecret) StatusFulfilled (commitSecret (Some c))"
  obtain r0 where mu: "mutate env ?ch m w = (m1, w1, Ok r0)"
    using assms by (auto simp: FulfillSecretWith_def split: prod.splits sum.splits)
  obtain st st' where st: "load m = Ok st" "?ch w st = (w1, Ok (st', r0))" "m1 = m\<lparr>m_file := Stored st'\<rparr>"
    by (rule mutate_Ok [OF mu])
  let ?rs = "List.map (expireRequest (os_now env)) (st_Requests st)"
  obtain i q st1 q' where i: "indexOf (\<lambda>r. rq_ID r = rid) ?rs = Some i" "i < length (st_Requests st)"
    "q = ?rs ! i" "rq_ID q = rid" "rq_Status q = StatusPending"
    "commitSecret (Some c) w (expire (os_now env) st) q (os_now env) = (w1, Ok (st1, q', r0))"
    "st' = st1\<lparr>st_Requests := (st_Requests st1)[i := q'\<lparr>rq_Status := StatusFulfilled, rq_ResolvedAt := Some (os_now env)\<rparr>]\<rparr>"
    by (rule resolveChange_Ok [OF st(2)]) simp
  have idx: "indexOf (\<lambda>r. rq_ID r = rid) (st_Requests st) = Some i" using i(1) by (simp add: indexOf_map)
  have q: "q = st_Requests st ! i" "rq_Status (st_Requests st ! i) = StatusPending"
    using i(2,3,5) expire_pending [of "os_now env" "st_Requests st ! i"] by simp_all
  have commit: "c q w = (w1, None)" "st1 = expire (os_now env) st" "q' = q"
    using i(6) by (auto simp: commitSecret_def split: prod.splits option.splits)
  let ?q = "q\<lparr>rq_Status := StatusFulfilled, rq_ResolvedAt := Some (os_now env)\<rparr>"
  have rs': "st_Requests st' = ?rs[i := ?q]" using i(7) commit by simp
  have "indexOf (\<lambda>r. rq_ID r = rid) (?rs[i := ?q]) = Some i"
    by (rule indexOf_update [OF i(1)]) (simp add: i(4))
  moreover have "load m1 = Ok st'"
    using st(1,3) i(7) commit(2) load_version [OF st(1)] by simp
  moreover have "rq_Status (?rs[i := ?q] ! i) = StatusFulfilled" using i(2) by simp
  ultimately have "fulfilledIn rid m1" unfolding fulfilledIn_def rs' [symmetric] by blast
  with st(1) idx q commit(1) that show thesis by simp
qed

text \<open>C30: A capsule is claimed at most once, and only for what it was made for. If \<open>claim_capsule\<close> succeeds, then the text was an
  authentic unexpired capsule of this session, the request it names was a pending request of this
  session for the environment, alias and key that it carries, the key is the one that the policy binds
  to the alias, and its value was stored under that request. Whatever happens afterwards, no text that carries the same request is
  accepted again, and none is stored.\<close>

theorem mcp_capsule_once:
  fixes w :: "'s world" and setAlias :: "'x aliasStore"
  assumes "makeClaimCapsuleHandler f s ce capsules q w setAlias m st = (m', st', Ok answer)"
  shows "\<exists>cm sealed p r storeName. capsules = Inr cm \<and> tq_String q ''capsule'' = Some sealed \<and> OpenCapsule ce cm sealed = Ok p \<and>
    py_SessionID p = s \<and> Request (mw_OS w 0) (py_RequestID p) m = Ok r \<and> claimMatches s p r \<and>
    SecretBinding (Some f) (rq_SecretAlias r) = Some (rq_SecretKey r, storeName) \<and>
    claimCommit f w setAlias storeName p r st = (st', None) \<and>
    (\<forall>evs f2 s2 ce2 cm2 q2 (w2 :: 's world) (setAlias2 :: 'x aliasStore) st2 sealed2 p2.
      tq_String q2 ''capsule'' = Some sealed2 \<and> OpenCapsule ce2 cm2 sealed2 = Ok p2 \<and> py_RequestID p2 = py_RequestID p \<longrightarrow>
      (\<exists>err. makeClaimCapsuleHandler f2 s2 ce2 (Inr cm2) q2 w2 setAlias2 (accessRun evs m') st2 = (accessRun evs m', st2, Err err)))"
proof -
  obtain sealed where sealed: "tq_String q ''capsule'' = Some sealed" "prefix ''ir1.'' sealed"
    using assms by (cases "tq_String q ''capsule''") (auto simp: makeClaimCapsuleHandler_def split: if_splits)
  obtain cm where cm: "capsules = Inr cm"
    using assms sealed by (cases capsules) (auto simp: makeClaimCapsuleHandler_def)
  obtain p where p: "OpenCapsule ce cm sealed = Ok p" "py_SessionID p = s"
    using assms sealed cm by (cases "OpenCapsule ce cm sealed") (auto simp: makeClaimCapsuleHandler_def split: if_splits)
  obtain r where r: "accessOpens m = None" "Request (mw_OS w 0) (py_RequestID p) m = Ok r" "claimMatches s p r"
    using assms sealed cm p by (cases "accessOpens m"; cases "Request (mw_OS w 0) (py_RequestID p) m")
      (auto simp: makeClaimCapsuleHandler_def split: if_splits)
  obtain storeName where b: "SecretBinding (Some f) (rq_SecretAlias r) = Some (rq_SecretKey r, storeName)"
    using assms sealed cm p r by (cases "SecretBinding (Some f) (rq_SecretAlias r)")
      (auto simp: makeClaimCapsuleHandler_def split: if_splits)
  let ?ff = "FulfillSecretWith (mw_OS w 1) (rq_ID r) (Some (claimCommit f w setAlias storeName p)) m st"
  obtain m1 st1 res where ff: "?ff = (m1, st1, res)" by (metis prod_cases3)
  have eq: "makeClaimCapsuleHandler f s ce capsules q w setAlias m st =
      (case ?ff of (m, s, Inl _) \<Rightarrow> (m, s, Err CapsuleConsumed) | (m, s, Inr _) \<Rightarrow> (m, s, Ok (rq_SecretAlias r, rq_Environment r)))"
    unfolding makeClaimCapsuleHandler_def using sealed cm p r b by (simp only: option.case sum.case simp_thms if_False if_True prod.case)
  from assms eq ff obtain r2 where r2: "res = Inr r2" "m1 = m'" "st1 = st'" by (cases res) auto
  from ff r2 have "?ff = (m', st', Ok r2)" by simp
  then obtain ast i where i: "load m = Ok ast" "indexOf (\<lambda>x. rq_ID x = rq_ID r) (st_Requests ast) = Some i"
    "claimCommit f w setAlias storeName p (st_Requests ast ! i) st = (st', None)" "rq_Status (st_Requests ast ! i) = StatusPending"
    "fulfilledIn (rq_ID r) m'"
    by (rule FulfillSecretWith_Ok)
  have rid: "rq_ID r = py_RequestID p" and same: "st_Requests ast ! i = r"
  proof -
    from r(2) i(1) obtain j where j: "indexOf (\<lambda>x. rq_ID x = py_RequestID p) (st_Requests ast) = Some j"
      "r = st_Requests ast ! j \<or> rq_Status r = StatusExpired"
      "rq_ID r = rq_ID (st_Requests ast ! j)"
      by (cases "indexOf (\<lambda>x. rq_ID x = py_RequestID p) (st_Requests ast)") (auto simp: Request_def find_indexOf split: if_splits)
    with r(3) indexOf_Some [OF j(1)] have "rq_ID r = py_RequestID p" "r = st_Requests ast ! j" by (auto simp: claimMatches_def)
    with i(2) j(1) show "rq_ID r = py_RequestID p" "st_Requests ast ! i = r" by auto
  qed
  have later: "\<exists>err. makeClaimCapsuleHandler f2 s2 ce2 (Inr cm2) q2 w2 setAlias2 (accessRun evs m') st2 = (accessRun evs m', st2, Err err)"
    if q2: "tq_String q2 ''capsule'' = Some sealed2" "OpenCapsule ce2 cm2 sealed2 = Ok p2" "py_RequestID p2 = py_RequestID p"
    for evs f2 s2 ce2 cm2 q2 and w2 :: "'s world" and setAlias2 :: "'x aliasStore" and st2 sealed2 p2
  proof -
    let ?m = "accessRun evs m'"
    have no: "\<not> claimMatches s2 p2 r3" if "Request (mw_OS w2 0) (py_RequestID p2) ?m = Ok r3" for r3
      using Request_fulfilled [OF fulfilledIn_run [OF i(5)], of "mw_OS w2 0" evs r3] that q2(3) rid
      by (auto simp: claimMatches_def)
    show ?thesis
      unfolding makeClaimCapsuleHandler_def using q2(1,2) no
      by (cases "Request (mw_OS w2 0) (py_RequestID p2) ?m"; cases "accessOpens ?m") auto
  qed
  from sealed(1) cm p r(2,3) b i(3) same later show ?thesis by blast
qed

section \<open>A proposal that is saved, and a capsule that is claimed\<close>

definition exToolCall :: toolCall where
  "exToolCall = \<lparr>tq_String = [''id'' \<mapsto> ''lint'', ''reason'' \<mapsto> ''style'', ''capsule'' \<mapsto> ''ir1.'' @ b64Raw b64URL
       (replicate 12 CHR ''n'' @ vc_Seal exCipher (cm_Key exCapsules) (replicate 12 CHR ''n'')
         (marshalCapsule (exCapsuleEnv 9) exSealedPayload) (capsuleAAD exCapsules))],
     tq_Slice = [''argv'' \<mapsto> [''go'', ''vet'']], tq_Env = None\<rparr>"

lemma exToolCall_simps:
  "mustString exToolCall ''id'' = ''lint''" "mustString exToolCall ''reason'' = ''style''"
  "optionalStringSlice exToolCall ''argv'' = [''go'', ''vet'']" "optionalStringSlice exToolCall ''secrets'' = []" "tq_Env exToolCall = None"
  by (simp_all add: exToolCall_def mustString_def optionalStringSlice_def)

definition exProposed :: proposal where
  "exProposed = \<lparr>pp_ID = ''lint'', pp_Argv = [''go'', ''vet''], pp_Env = None, pp_Reason = ''style'', pp_ProposedAt = ''2026'',
     pp_Status = ''pending''\<rparr>"

lemma exProposed_checked: "checkProposal exReviewPolicy exToolCall ''2026'' = Inr exProposed"
proof -
  have "TrimSpace ''lint'' = ''lint''" "TrimSpace ''style'' = ''style''" by (simp_all add: trim_eval)
  moreover have "validProposalID ''lint''"
    by (simp add: validProposalID_def asciiLetter_def less_eq_char_def)
  moreover have "singleLine ''style''"
    by (simp add: singleLine_def runesOf_def runeSplit_ascii runeSplit.simps [of "[]"] isControl_def)
  moreover have "IsShellString [''go'', ''vet''] = False" "f_AllowProposals exReviewPolicy = True"
    "isl (Lookup exReviewPolicy ''lint'') = True"
    by code_simp+
  moreover have "proposalEnv exReviewPolicy exToolCall = None"
    by (simp add: proposalEnv_def exToolCall_simps coerceEnv_def)
  ultimately show ?thesis
    by (simp add: checkProposal_def exToolCall_simps badBinding_def exProposed_def)
qed

lemma exProposed_saved: "makeProposeHandler exReviewPolicy [] exOS exToolCall ''2026'' (sampleWorld 9) NoPending = (Pending [exProposed], Ok ''lint'')"
proof -
  have "TrimSpace [] = []" by (simp add: trim_eval)
  then show ?thesis
    by (simp add: makeProposeHandler_def reloaded_def currentPolicy_def exProposed_checked createProposal_def updatePending_def
        loadPending_def createFn_def findProposal_def Upsert_def exProposed_def)
qed

theorem mcp_proposal_clean_witness:
  "validProposalID ''lint'' \<and> findProposal ''lint'' [exProposed] = Some exProposed \<and> f_AllowProposals exReviewPolicy"
proof -
  have "TrimSpace [] = []" by (simp add: trim_eval)
  then have "currentPolicy exReviewPolicy [] (sampleWorld 9) = Inr exReviewPolicy" by (simp add: currentPolicy_def)
  with mcp_proposal_clean [OF exProposed_saved] show ?thesis
    by (auto simp: findProposal_def exProposed_def)
qed

definition claimRequest :: request where
  "claimRequest = zeroRequest\<lparr>rq_ID := ''req'', rq_SessionID := ''s1'', rq_Environment := ''dev'', rq_SecretAlias := ''api'',
     rq_SecretKey := ''API_KEY'', rq_ExpiresAt := 100\<rparr>"

lemma claimRequest_simps: "rq_ID claimRequest = ''req''" "rq_Kind claimRequest = RequestSecret" "rq_Status claimRequest = StatusPending"
  "rq_ExpiresAt claimRequest = 100" "rq_SecretAlias claimRequest = ''api''" "rq_SecretKey claimRequest = ''API_KEY''"
  "rq_SessionID claimRequest = ''s1''" "rq_Environment claimRequest = ''dev''"
  by (simp_all add: claimRequest_def zeroRequest_def)

definition claimState :: accessState where
  "claimState = emptyState\<lparr>st_Requests := [claimRequest]\<rparr>"

lemma claimState_simps: "st_Requests claimState = [claimRequest]" "st_Version claimState = stateVersion" "expire 9 claimState = claimState"
  by (simp_all add: claimState_def emptyState_def expire_def expireRequest_def claimRequest_simps)

definition claimManager :: manager where
  "claimManager = exStart\<lparr>m_file := Stored claimState\<rparr>"

text \<open>An alias store that appends what it is given.\<close>

definition logStore :: "string list aliasStore" where
  "logStore storeName alias val written = (written @ [storeName, alias, val], None)"

lemma exClaim_opens: "OpenCapsule (exCapsuleEnv 9) exCapsules
    (''ir1.'' @ b64Raw b64URL (replicate 12 CHR ''n'' @ vc_Seal exCipher (cm_Key exCapsules) (replicate 12 CHR ''n'')
       (marshalCapsule (exCapsuleEnv 9) exSealedPayload) (capsuleAAD exCapsules))) =
    Ok exSealedPayload"
proof -
  have "completePayload exSealedPayload = None" "py_Version exSealedPayload = 1" "py_ExpiresAt exSealedPayload = 7 + capsuleDefaultTTL"
    using exPayload_complete by (simp_all add: completePayload_def exSealedPayload_def split: if_splits)
  moreover have "newAEAD (cm_Key exCapsules) = Inr (cm_Key exCapsules)" by (simp add: newAEAD_def exCapsules_def)
  moreover have "vc_Open exCipher k n (vc_Seal exCipher k n p a) a = Some p \<and> vc_Seal exCipher k n p a \<noteq> []" for k n p a
    using exCipher_ok by (simp add: cipherOk_def)
  ultimately show ?thesis
    by (simp add: OpenCapsule_def capsulePrefix_def gcmNonceSize_def capsuleDefaultTTL_def exCapsuleEnv_simps)
qed

lemma exClaim: "\<exists>m'. makeClaimCapsuleHandler exPolicy ''s1'' (exCapsuleEnv 9) (Inr exCapsules) exToolCall (sampleWorld 9) logStore claimManager (None, []) =
    (m', (None, [''vault'', ''api'', ''hunter22'']), Ok (''api'', ''dev''))"
proof -
  let ?p = exSealedPayload
  let ?commit = "claimCommit exPolicy (sampleWorld 9) logStore ''vault'' ?p"
  let ?f = "resolveChange (exEnv 9) ''req'' (Some RequestSecret) StatusFulfilled (commitSecret (Some ?commit))"
  have sets: "usesSets exPolicy = False" "SecretBinding (Some exPolicy) ''api'' = Some (''API_KEY'', ''vault'')"
    by (simp_all add: usesSets_def SecretBinding_def UsesEnvironmentEntries_def exPolicy_def exSecretDecl_def SupportedVersionV2_def)
  have commit: "?commit claimRequest (None, []) = ((None, [''vault'', ''api'', ''hunter22'']), None)"
    by (simp add: claimCommit_def sets logStore_def claimRequest_simps exPayload_def exSealedPayload_def)
  have "\<exists>rs. ?f (None, []) claimState = ((None, [''vault'', ''api'', ''hunter22'']), Ok (claimState\<lparr>st_Requests := rs\<rparr>, claimRequest))"
    by (rule exI, rule resolveChange_eval [where r = claimRequest and stx = claimState and i = 0])
      (simp_all add: claimState_simps claimRequest_simps commitSecret_def commit)
  then obtain rs where f: "?f (None, []) claimState = ((None, [''vault'', ''api'', ''hunter22'']), Ok (claimState\<lparr>st_Requests := rs\<rparr>, claimRequest))"
    by blast
  have "\<exists>m'. FulfillSecretWith (exEnv 9) ''req'' (Some ?commit) claimManager (None, []) =
      (m', (None, [''vault'', ''api'', ''hunter22'']), Ok (claimRequest\<lparr>rq_Status := StatusFulfilled\<rparr>))"
    using mutate_eval [where f = ?f and st = claimState and w = "(None, [])" and env = "exEnv 9" and m = claimManager, OF _ _ f]
    by (simp add: FulfillSecretWith_def claimManager_def claimState_simps)
  moreover have "Request (exEnv 9) ''req'' claimManager = Ok claimRequest" "accessOpens claimManager = None"
    by (simp_all add: Request_def claimManager_def claimState_simps claimRequest_simps accessOpens_def)
  moreover have "claimMatches ''s1'' ?p claimRequest"
    by (simp add: claimMatches_def claimRequest_simps exPayload_def exSealedPayload_def)
  moreover have "py_SessionID ?p = ''s1''" "py_RequestID ?p = ''req''" by (simp_all add: exPayload_def exSealedPayload_def)
  ultimately show ?thesis
    using exClaim_opens by (auto simp: makeClaimCapsuleHandler_def exToolCall_def sets claimRequest_simps)
qed

theorem mcp_capsule_once_witness:
  "\<exists>r. Request (exEnv 9) ''req'' claimManager = Ok r \<and> claimMatches ''s1'' exSealedPayload r"
proof -
  obtain m' where "makeClaimCapsuleHandler exPolicy ''s1'' (exCapsuleEnv 9) (Inr exCapsules) exToolCall (sampleWorld 9) logStore claimManager (None, []) =
    (m', (None, [''vault'', ''api'', ''hunter22'']), Ok (''api'', ''dev''))" using exClaim by blast
  from mcp_capsule_once [OF this] obtain cm sealed p r where
    r: "Inr exCapsules = (Inr cm :: capsuleError + capsuleManager)" "tq_String exToolCall ''capsule'' = Some sealed"
      "OpenCapsule (exCapsuleEnv 9) cm sealed = Ok p" "Request (mw_OS (sampleWorld 9) 0) (py_RequestID p) claimManager = Ok r" "claimMatches ''s1'' p r"
    by blast
  from r(1-3) exClaim_opens have "p = exSealedPayload"
    by (simp add: exToolCall_def)
  with r(4,5) show ?thesis by (simp add: exPayload_def exSealedPayload_def)
qed

end
