(* ===== verification/LocalAPI.thy ===== *)
theory LocalAPI
  imports MCPTools
begin

text \<open>
  The local control plane: \<open>src/internal/localapi/server.go\<close>.

  A request body is what the JSON decoder makes of it, and the files are those of a \<open>world\<close>, as for the MCP server.
  An error is its status and message; the sockets and the HTTP server are left out.
\<close>

section \<open>The server\<close>

record apiServer =
  as_Policy :: policyFile
  as_PolicyPath :: string
  as_Root :: string
  as_SessionID :: string

text \<open>What \<open>decodeJSON\<close> finds, and a body that must be empty.\<close>

datatype apiBody = InvalidBody | TrailingBody | RunRequest string string

datatype 'a apiAnswer = Answer 'a | ApiError nat string | LeaseNeeded "string option"

definition apiStatus :: "apiServer \<Rightarrow> 's world \<Rightarrow> string \<times> nat \<times> bool" where
  "apiStatus srv w =
     ((if usesSets (as_Policy srv)
       then (case mw_OpenEnv w of
               Inl _ \<Rightarrow> ''default''
             | Inr m \<Rightarrow> (case Active (mw_Env w) m of Inl _ \<Rightarrow> ''default'' | Inr s \<Rightarrow> es_Name s))
       else ''default''),
      length (f_Commands (as_Policy srv)), f_RequireAgentLeases (as_Policy srv))"

text \<open>\<open>None\<close> is the fixed answer for values that are not in environments.\<close>

definition apiEnvironments :: "apiServer \<Rightarrow> 's world \<Rightarrow> envRow list option apiAnswer" where
  "apiEnvironments srv w =
     (if \<not> usesSets (as_Policy srv) then Answer None
      else case mw_OpenEnv w of
        Inl _ \<Rightarrow> ApiError 503 ''environment store unavailable''
      | Inr m \<Rightarrow> Answer (Some (List.map (environmentRow (mw_Env w) (mg_Meta m)) (md_Sets (mg_Meta m)))))"

definition apiRequests :: "'s world \<Rightarrow> manager \<Rightarrow> manager \<times> request list apiAnswer" where
  "apiRequests w m =
     (case Requests (mw_OS w 0) m of
        (m, Inl _) \<Rightarrow> (m, ApiError 500 ''access state unavailable'')
      | (m, Inr rs) \<Rightarrow> (m, Answer rs))"

definition apiLeases :: "manager \<Rightarrow> lease list apiAnswer" where
  "apiLeases m = (case Leases [] m of Inl _ \<Rightarrow> ApiError 500 ''access state unavailable'' | Inr ls \<Rightarrow> Answer ls)"

section \<open>Running a command\<close>

text \<open>The environment that a lease is checked for; it is chosen by the policy that the server started with.\<close>

definition leaseEnvironment :: "apiServer \<Rightarrow> 's world \<Rightarrow> string \<Rightarrow> string option" where
  "leaseEnvironment srv w requested =
     (if requested \<noteq> [] then Some requested
      else if \<not> usesSets (as_Policy srv) then Some ''default''
      else case mw_OpenEnv w of
        Inl _ \<Rightarrow> None
      | Inr m \<Rightarrow> (case Active (mw_Env w) m of Inl _ \<Rightarrow> None | Inr s \<Rightarrow> Some (es_Name s)))"

definition reloadPolicy :: "apiServer \<Rightarrow> 's world \<Rightarrow> policyError + policyFile" where
  "reloadPolicy srv w = (if as_PolicyPath srv \<noteq> [] then mw_Policy w else Ok (as_Policy srv))"

definition leaseReason :: "string \<Rightarrow> string" where
  "leaseReason cid = ''local API run request for '' @ cid"

text \<open>The checks before an execution: the policy, the command and the environment that it is pinned to.\<close>

definition apiAuthorize :: "apiServer \<Rightarrow> apiBody \<Rightarrow> 's world \<Rightarrow> manager \<Rightarrow> manager \<times> (policyFile \<times> string \<times> string) apiAnswer" where
  "apiAuthorize srv body w m =
     (case body of
        InvalidBody \<Rightarrow> (m, ApiError 400 ''invalid JSON request'')
      | TrailingBody \<Rightarrow> (m, ApiError 400 ''request must contain one JSON object'')
      | RunRequest cid requested \<Rightarrow>
          if TrimSpace cid = [] then (m, ApiError 400 ''command_id is required'')
          else case reloadPolicy srv w of
            Inl _ \<Rightarrow> (m, ApiError 503 ''policy reload failed'')
          | Inr current \<Rightarrow> (case Lookup current cid of
              Inl _ \<Rightarrow> (m, ApiError 404 ''command is not in the policy'')
            | Inr _ \<Rightarrow>
                if \<not> f_RequireAgentLeases current then (m, Answer (current, cid, requested))
                else case leaseEnvironment srv w requested of
                  None \<Rightarrow> (m, ApiError 503 ''project environment is unavailable'')
                | Some environment \<Rightarrow> (case Authorize (mw_OS w 0) (as_SessionID srv) environment cid m of
                    Inr _ \<Rightarrow> (m, Answer (current, cid, environment))
                  | Inl ErrUnauthorized \<Rightarrow>
                      (case CreateLeaseRequest (mw_OS w 1) (as_SessionID srv) environment [cid] DefaultRequestTTL (leaseReason cid) m of
                         (m, _, Inl _) \<Rightarrow> (m, LeaseNeeded None)
                       | (m, _, Inr r) \<Rightarrow> (m, LeaseNeeded (Some (rq_ID r))))
                  | Inl _ \<Rightarrow> (m, ApiError 503 ''access state unavailable''))))"

definition apiOptions :: "'o \<Rightarrow> string \<Rightarrow> string \<Rightarrow> 'o execOptions" where
  "apiOptions discard environment sessionID =
     \<lparr>xo_Environment = environment, xo_Stdout = discard, xo_Stderr = discard, xo_Audit = True, xo_SessionID = sessionID,
      xo_AllowShell = False, xo_DisableSeccomp = False, xo_DisableEntropyScan = False, xo_AllowPullRequestTarget = False,
      xo_NoSeal = False, xo_EmitGitHubMasks = False, xo_AllowWorkspaceNetwork = False\<rparr>"

definition apiRun :: "('o, string) sink \<Rightarrow> 's execEnv \<Rightarrow> 'o \<Rightarrow> fsys \<Rightarrow> apiServer \<Rightarrow> apiBody \<Rightarrow> 's world \<Rightarrow> manager \<Rightarrow>
    manager \<times> runResult apiAnswer \<times> ('s, 'o) execEffects option" where
  "apiRun wr x discard fs srv body w m =
     (case apiAuthorize srv body w m of
        (m, ApiError code msg) \<Rightarrow> (m, ApiError code msg, None)
      | (m, LeaseNeeded rid) \<Rightarrow> (m, LeaseNeeded rid, None)
      | (m, Answer (current, cid, environment)) \<Rightarrow>
          (case executionRun wr x current (as_PolicyPath srv) (as_Root srv) cid (apiOptions discard environment (as_SessionID srv)) fs of
             (Inl _, eff) \<Rightarrow> (m, ApiError 422 ''sealed execution failed'', Some eff)
           | (Inr res, eff) \<Rightarrow> (m, Answer res, Some eff)))"

section \<open>Deny and revoke\<close>

definition apiDeny :: "bool \<Rightarrow> string \<Rightarrow> 's world \<Rightarrow> manager \<Rightarrow> manager \<times> unit apiAnswer" where
  "apiDeny emptyBody rid w m =
     (if \<not> emptyBody then (m, ApiError 400 ''request body must be empty'')
      else case Deny (mw_OS w 0) rid m of
        (m, _, Inl _) \<Rightarrow> (m, ApiError 404 ''pending request not found'')
      | (m, _, Inr _) \<Rightarrow> (m, Answer ()))"

definition apiRevoke :: "bool \<Rightarrow> apiServer \<Rightarrow> string \<Rightarrow> 's world \<Rightarrow> manager \<Rightarrow> manager \<times> unit apiAnswer" where
  "apiRevoke emptyBody srv lid w m =
     (if \<not> emptyBody then (m, ApiError 400 ''request body must be empty'')
      else case Revoke (mw_OS w 0) lid (as_SessionID srv) m of
        (m, _, Inl ErrUnauthorized) \<Rightarrow> (m, ApiError 403 ''lease belongs to a different session'')
      | (m, _, Inl _) \<Rightarrow> (m, ApiError 404 ''lease not found'')
      | (m, _, Inr _) \<Rightarrow> (m, Answer ()))"

section \<open>The socket\<close>

text \<open>
  \<open>prepareSocket\<close>: what \<open>Lstat\<close> finds at the path; \<open>Inr True\<close> in the result means that an old socket
  was removed.
\<close>

datatype socketPath = NothingThere | StatFailed string | SocketThere | OtherThere

definition prepareSocket :: "string option \<Rightarrow> string option \<Rightarrow> socketPath \<Rightarrow> string + bool" where
  "prepareSocket mkdir remove found =
     (case mkdir of
        Some err \<Rightarrow> Err err
      | None \<Rightarrow> (case found of
          NothingThere \<Rightarrow> Ok False
        | StatFailed err \<Rightarrow> Err err
        | OtherThere \<Rightarrow> Err ''refusing to replace non-socket path''
        | SocketThere \<Rightarrow> (case remove of Some err \<Rightarrow> Err err | None \<Rightarrow> Ok True)))"

text \<open>\<open>Serve\<close> up to the socket: never on Windows, and only with the mode set.\<close>

definition listenSecureSocket :: "string \<Rightarrow> string option \<Rightarrow> string option \<Rightarrow> string option \<Rightarrow> string option \<Rightarrow> socketPath \<Rightarrow> string + bool" where
  "listenSecureSocket goos mkdir remove listen chmod found =
     (if goos = ''windows'' then Err ''ironrun serve is not supported on Windows''
      else case prepareSocket mkdir remove found of
        Inl err \<Rightarrow> Err err
      | Inr removed \<Rightarrow> (case listen of
          Some err \<Rightarrow> Err (''listen on local socket: '' @ err)
        | None \<Rightarrow> (case chmod of Some err \<Rightarrow> Err (''secure local socket: '' @ err) | None \<Rightarrow> Ok removed)))"

end
