(* ===== verification/LocalAPI_Props.thy ===== *)
theory LocalAPI_Props
  imports LocalAPI Authorization_Props
begin

text \<open>
  What the local control plane runs: only commands of the current policy and, where the policy asks for
  leases, only under a lease that a human approved for the environment the command then runs in.
\<close>

declare expireRequest_simps(4) [simp del]

lemma apiAuthorize_Answer:
  assumes "apiAuthorize srv body w m = (m', Answer (current, cid, environment))"
  shows "m' = m \<and> (\<exists>requested. body = RunRequest cid requested \<and> TrimSpace cid \<noteq> [] \<and> reloadPolicy srv w = Inr current \<and>
      \<not> isl (Lookup current cid) \<and>
      (if f_RequireAgentLeases current
       then leaseEnvironment srv w requested = Some environment \<and> Authorize (mw_OS w 0) (as_SessionID srv) environment cid m = Inr ()
       else environment = requested))"
  using assms
  by (auto simp: apiAuthorize_def split: apiBody.splits if_splits sum.splits option.splits accessError.splits prod.splits)

text \<open>C32: The local control plane runs only what is authorized, where it is authorized. A request starts an
  execution only if it names a command of the policy as it is now; where that policy asks for leases, a lease
  for this session, this command and the environment that the request selects is running (created when a human
  approved the request it comes from, not revoked, before its own deadline, at most 24 hours after),
  and the execution is pinned to exactly that environment. The answer is
  that of the execution, and the state of requests and leases stays as it was.\<close>

theorem localapi_run_authorized:
  assumes "reachable m" "apiRun wr x discard fs srv body w m = (m', answer, Some eff)"
  shows "\<exists>cid requested current environment res. body = RunRequest cid requested \<and> reloadPolicy srv w = Inr current \<and>
      \<not> isl (Lookup current cid) \<and>
      executionRun wr x current (as_PolicyPath srv) (as_Root srv) cid (apiOptions discard environment (as_SessionID srv)) fs = (res, eff) \<and>
      answer = (case res of Inl _ \<Rightarrow> ApiError 422 ''sealed execution failed'' | Inr r \<Rightarrow> Answer r) \<and> m' = m \<and>
      (if f_RequireAgentLeases current
       then leaseEnvironment srv w requested = Some environment \<and>
         leaseApproved m (mw_OS w 0) (as_SessionID srv) environment cid
       else environment = requested)"
proof -
  obtain m1 a where a: "apiAuthorize srv body w m = (m1, a)" by fastforce
  with assms(2) obtain current cid environment where ans: "a = Answer (current, cid, environment)"
    by (cases a) (auto simp: apiRun_def)
  note ok = apiAuthorize_Answer [OF a [unfolded ans]]
  obtain res eff' where x: "executionRun wr x current (as_PolicyPath srv) (as_Root srv) cid
      (apiOptions discard environment (as_SessionID srv)) fs = (res, eff')" by fastforce
  from assms(2) a ans x have "m' = m1" "eff' = eff" "answer = (case res of Inl _ \<Rightarrow> ApiError 422 ''sealed execution failed'' | Inr r \<Rightarrow> Answer r)"
    by (auto simp: apiRun_def split: sum.splits)
  moreover have "f_RequireAgentLeases current \<Longrightarrow> leaseApproved m (mw_OS w 0) (as_SessionID srv) environment cid"
    using ok access_authorize_sound [OF assms(1), of "mw_OS w 0" "as_SessionID srv" environment cid]
    by auto
  ultimately show ?thesis using ok x by (cases "f_RequireAgentLeases current") (force+)
qed

text \<open>
  The policy reloaded may ask for leases while its secrets are aliases. The environment then is called
  \<open>''default''\<close>, and pinning it makes the execution read the managed environments: the alias
  stores are never asked.
\<close>

lemma localapi_pins_default:
  assumes "\<not> usesSets (as_Policy srv)" "apiAuthorize srv (RunRequest cid []) w m = (m', Answer (current, cid, environment))"
    "f_RequireAgentLeases current"
  shows "environment = ''default'' \<and> usesManager current (apiOptions discard environment s)"
  using assms apiAuthorize_Answer [OF assms(2)]
  by (auto simp: leaseEnvironment_def usesManager_def apiOptions_def)

text \<open>The control plane takes back only leases of its own session; every other lease stays as it is.\<close>

definition leasesKept :: "string \<Rightarrow> accessState \<Rightarrow> accessState \<Rightarrow> bool" where
  "leasesKept s st st' \<longleftrightarrow> st_Requests st' = st_Requests st \<and> st_WorkspaceGrants st' = st_WorkspaceGrants st \<and>
     length (st_Leases st') = length (st_Leases st) \<and>
     (\<forall>i < length (st_Leases st). ls_SessionID (st_Leases st ! i) \<noteq> s \<longrightarrow> st_Leases st' ! i = st_Leases st ! i)"

lemma leasesKept_refl [simp]: "leasesKept s st st"
  by (simp add: leasesKept_def)

lemma localapi_revoke_own:
  assumes "as_SessionID srv \<noteq> []" "load m = Ok st" "apiRevoke emptyBody srv lid w m = (m', answer)"
  shows "\<exists>st'. load m' = Ok st' \<and> leasesKept (as_SessionID srv) st st'"
proof (cases emptyBody)
  case False
  with assms show ?thesis by (auto simp: apiRevoke_def)
next
  case True
  obtain m1 u q where r: "Revoke (mw_OS w 0) lid (as_SessionID srv) m = (m1, u, q)" by (metis prod_cases3)
  with True assms(3) have m1: "m1 = m'"
    by (auto simp: apiRevoke_def split: sum.splits accessError.splits)
  have kept: "leasesKept (as_SessionID srv) st st' \<and> st_Version st' = stateVersion"
    if "revokeChange (mw_OS w 0) lid (as_SessionID srv) () st = (u, Ok (st', a))" for st' a
    using that
  proof (rule revokeChange_Ok)
    fix i l'
    assume "as_SessionID srv \<noteq> [] \<longrightarrow> ls_SessionID (st_Leases st ! i) = as_SessionID srv"
      "st' = st\<lparr>st_Leases := (st_Leases st)[i := l']\<rparr>"
    moreover from this assms(1) have "(st_Leases st)[i := l'] ! j = st_Leases st ! j"
      if "ls_SessionID (st_Leases st ! j) \<noteq> as_SessionID srv" for j using that by (cases "j = i") auto
    ultimately show ?thesis using load_version [OF assms(2)] by (simp add: leasesKept_def)
  qed
  from mutate_rel [OF r [unfolded Revoke_def m1] assms(2), of "leasesKept (as_SessionID srv)"] kept
  show ?thesis by simp
qed

section \<open>A witness\<close>

definition sampleApi :: apiServer where
  "sampleApi = \<lparr>as_Policy = leasePolicy, as_PolicyPath = ''ironrun.yml'', as_Root = ''/p'', as_SessionID = ''s1''\<rparr>"

lemma sampleApi_fields:
  "as_SessionID sampleApi = ''s1''" "as_PolicyPath sampleApi = ''ironrun.yml''" "as_Root sampleApi = ''/p''"
  by (simp_all add: sampleApi_def)

lemma sample_api_authorized:
  "apiAuthorize sampleApi (RunRequest ''go test'' ''dev'') (sampleWorld 9) exLeased = (exLeased, Answer (leasePolicy, ''go test'', ''dev''))"
  using ex_authorized
  by (simp add: apiAuthorize_def sample_trimmed reloadPolicy_def sampleApi_def sampleWorld_command leaseEnvironment_def)

theorem localapi_run_authorized_witness:
  "\<exists>answer eff. apiRun bufferWrite sampleExec [] remnantFS sampleApi (RunRequest ''go test'' ''dev'') (sampleWorld 9) exLeased =
      (exLeased, answer, Some eff) \<and>
    eff = snd (executionRun bufferWrite sampleExec leasePolicy ''ironrun.yml'' ''/p'' ''go test'' (apiOptions [] ''dev'' ''s1'') remnantFS) \<and>
    leaseApproved exLeased (exEnv 9) ''s1'' ''dev'' ''go test''"
proof -
  obtain m' answer eff where run: "apiRun bufferWrite sampleExec [] remnantFS sampleApi (RunRequest ''go test'' ''dev'') (sampleWorld 9) exLeased =
      (m', answer, Some eff)"
  proof (cases "executionRun bufferWrite sampleExec leasePolicy (as_PolicyPath sampleApi) (as_Root sampleApi) ''go test''
        (apiOptions [] ''dev'' (as_SessionID sampleApi)) remnantFS")
    case (Pair res eff)
    then show thesis by (cases res) (rule that, simp add: apiRun_def sample_api_authorized)+
  qed
  have policy: "reloadPolicy sampleApi (sampleWorld 9) = Inr leasePolicy" by (simp add: reloadPolicy_def sampleApi_def)
  have lease: "leaseEnvironment sampleApi (sampleWorld 9) ''dev'' = Some environment \<longleftrightarrow> environment = ''dev''" for environment
    by (auto simp: leaseEnvironment_def)
  have same: "m' = exLeased \<and>
      eff = snd (executionRun bufferWrite sampleExec leasePolicy ''ironrun.yml'' ''/p'' ''go test'' (apiOptions [] ''dev'' ''s1'') remnantFS) \<and>
      leaseApproved exLeased (exEnv 9) ''s1'' ''dev'' ''go test''"
    using localapi_run_authorized [OF exLeased_reachable run] policy
    by (auto simp: sampleWorld_command lease sampleApi_fields)
  from run have "apiRun bufferWrite sampleExec [] remnantFS sampleApi (RunRequest ''go test'' ''dev'') (sampleWorld 9) exLeased =
      (exLeased, answer, Some eff)" by (simp only: same)
  with same show ?thesis by blast
qed

end
