(* ===== verification/PolicyMigrate.thy ===== *)
theory PolicyMigrate
  imports Policy GoMaps
begin

text \<open>
  Rewriting a policy from version 1 to version 2: \<open>src/internal/policy/migrate.go\<close>.

  A YAML document is its tree of nodes; the pointer of an alias node to its anchor is left out, since an alias is
  written by its name.  Reading a tree, writing one and decoding a policy belong to the YAML library and are
  arguments.  Changing a node in place gives the changed tree.
\<close>

section \<open>Nodes\<close>

datatype yamlKind = DocumentNode | SequenceNode | MappingNode | ScalarNode | AliasNode
datatype yamlStyle = PlainStyle | DoubleQuotedStyle | OtherStyle nat

text \<open>\<open>yn_Notes\<close> are the comments and the anchor of a node, which nothing here looks at.\<close>

datatype yamlNode = YamlNode (yn_Kind: yamlKind) (yn_Tag: string) (yn_Value: string) (yn_Style: yamlStyle)
  (yn_Notes: "string list") (yn_Content: "yamlNode list")

definition strNode :: "string \<Rightarrow> yamlNode" where
  "strNode v = YamlNode ScalarNode ''!!str'' v PlainStyle [] []"

text \<open>The content of a mapping holds keys and values in turn; the first equal key counts.\<close>

fun mappingValue :: "yamlNode list \<Rightarrow> string \<Rightarrow> yamlNode option" where
  "mappingValue (k # v # content) key = (if yn_Value k = key then Some v else mappingValue content key)"
| "mappingValue _ key = None"

fun setScalar :: "yamlNode list \<Rightarrow> string \<Rightarrow> string \<Rightarrow> yamlNode list" where
  "setScalar (k # v # content) key val =
     (if yn_Value k = key
      then k # YamlNode ScalarNode ''!!str'' val DoubleQuotedStyle (yn_Notes v) (yn_Content v) # content
      else k # v # setScalar content key val)"
| "setScalar content key val = content @ [strNode key, strNode val]"

fun deleteMappingKey :: "yamlNode list \<Rightarrow> string \<Rightarrow> yamlNode list" where
  "deleteMappingKey (k # v # content) key = (if yn_Value k = key then content else k # v # deleteMappingKey content key)"
| "deleteMappingKey content key = content"

text \<open>What an assignment through the pointer that \<open>mappingValue\<close> returns does to the mapping.\<close>

fun changeValue :: "(yamlNode \<Rightarrow> yamlNode) \<Rightarrow> string \<Rightarrow> yamlNode list \<Rightarrow> yamlNode list" where
  "changeValue g key (k # v # content) = (if yn_Value k = key then k # g v # content else k # v # changeValue g key content)"
| "changeValue g key content = content"

definition setContent :: "yamlNode \<Rightarrow> yamlNode list \<Rightarrow> yamlNode" where
  "setContent n content = YamlNode (yn_Kind n) (yn_Tag n) (yn_Value n) (yn_Style n) (yn_Notes n) content"

section \<open>The rewriting\<close>

datatype rewriteError =
    RewritePolicy policyError | RewriteVersion string | SharedSecretTarget string string string | RewriteYAML string
  | RootNotMapping | CommandsNotSequence | RewriteEncode string | MigratedInvalid policyError

record yamlCodec =
  yc_Decode :: "bytes \<Rightarrow> string + policyFile"
  yc_Node :: "bytes \<Rightarrow> string + yamlNode"
  yc_Encode :: "yamlNode \<Rightarrow> string + bytes"

fun checkTargets :: "string gomap \<Rightarrow> (string \<times> secretDecl) list \<Rightarrow> rewriteError option" where
  "checkTargets targets [] = None"
| "checkTargets targets ((alias, secret) # rest) =
     (case mapGet targets (sd_Env secret) of
        Some previous \<Rightarrow>
          if previous \<noteq> alias then Some (SharedSecretTarget previous alias (sd_Env secret))
          else checkTargets (mapPut (sd_Env secret) alias targets) rest
      | None \<Rightarrow> checkTargets (mapPut (sd_Env secret) alias targets) rest)"

definition aliasTargets :: "policyFile \<Rightarrow> string gomap" where
  "aliasTargets f = fold (\<lambda>(alias, secret). mapPut alias (sd_Env secret)) (f_Secrets f) []"

definition migrateItem :: "string gomap \<Rightarrow> yamlNode \<Rightarrow> yamlNode" where
  "migrateItem targets item =
     (case mapGet targets (yn_Value item) of
        None \<Rightarrow> item
      | Some target \<Rightarrow> YamlNode (yn_Kind item) (yn_Tag item) target (yn_Style item) (yn_Notes item) (yn_Content item))"

definition migrateSecrets :: "string gomap \<Rightarrow> yamlNode \<Rightarrow> yamlNode" where
  "migrateSecrets targets secrets = setContent secrets (List.map (migrateItem targets) (yn_Content secrets))"

definition migrateCommand :: "string gomap \<Rightarrow> yamlNode \<Rightarrow> yamlNode" where
  "migrateCommand targets cmd =
     (if yn_Kind cmd \<noteq> MappingNode then cmd
      else setContent cmd (changeValue (migrateSecrets targets) ''secrets'' (yn_Content cmd)))"

text \<open>The content of the root after all changes, if the commands are a sequence.\<close>

definition migrateRoot :: "string gomap \<Rightarrow> yamlNode list \<Rightarrow> yamlNode list option" where
  "migrateRoot targets content =
     (let content = setScalar (setScalar content ''version'' SupportedVersionV2) ''environment_set'' ''active''
      in case mappingValue content ''commands'' of
           None \<Rightarrow> None
         | Some cmds \<Rightarrow>
             if yn_Kind cmds \<noteq> SequenceNode then None
             else Some (deleteMappingKey
               (changeValue (\<lambda>cmds. setContent cmds (List.map (migrateCommand targets) (yn_Content cmds))) ''commands'' content) ''secrets''))"

definition MigrateV1ToV2 :: "yamlCodec \<Rightarrow> bytes \<Rightarrow> rewriteError + bytes \<times> string gomap" where
  "MigrateV1ToV2 yc data =
     (case Parse (yc_Decode yc) data of
        Inl err \<Rightarrow> Err (RewritePolicy err)
      | Inr f \<Rightarrow>
          if f_Version f \<noteq> SupportedVersionV1 then Err (RewriteVersion (f_Version f))
          else case checkTargets [] (f_Secrets f) of
            Some err \<Rightarrow> Err err
          | None \<Rightarrow> (case yc_Node yc data of
              Inl err \<Rightarrow> Err (RewriteYAML err)
            | Inr document \<Rightarrow> (case yn_Content document of
                [root] \<Rightarrow>
                  if yn_Kind root \<noteq> MappingNode then Err RootNotMapping
                  else (case migrateRoot (aliasTargets f) (yn_Content root) of
                    None \<Rightarrow> Err CommandsNotSequence
                  | Some content \<Rightarrow> (case yc_Encode yc (setContent document [setContent root content]) of
                      Inl err \<Rightarrow> Err (RewriteEncode err)
                    | Inr out \<Rightarrow> (case Parse (yc_Decode yc) out of
                        Inl err \<Rightarrow> Err (MigratedInvalid err)
                      | Inr _ \<Rightarrow> Ok (out, aliasTargets f))))
              | _ \<Rightarrow> Err RootNotMapping)))"

end
