(* ===== verification/Migration.thy ===== *)
theory Migration
  imports PolicyMigrate Envset SecretStore
begin

text \<open>
  The migration of a project from policy version 1 to 2: \<open>src/internal/migration/migration.go\<close>.

  The state is what lies on the disk: the policy, the directories under \<open>.ironrun/migrations\<close>, the manager of
  the encrypted environments and the legacy stores, whose state is \<open>'x\<close>.  Whether a call of the system fails is
  part of \<open>migrationOS\<close>; \<open>replaceFile\<close> is atomic, other writes leave something when they fail.
  A directory is found by its ID; the JSON form of a manifest is left out.
\<close>

section \<open>Data\<close>

record mapping =
  mp_Alias :: string
  mp_Entry :: string
  mp_Kind :: string
  mp_Filename :: string
  mp_Store :: string
  mp_Copied :: bool

record preview =
  pv_PolicyPath :: string
  pv_Environment :: string
  pv_Mappings :: "mapping list"

record manifest =
  mn_Version :: int
  mn_ID :: string
  mn_Status :: string
  mn_PolicyPath :: string
  mn_Environment :: string
  mn_CreatedAt :: time
  mn_Mappings :: "mapping list"

datatype manifestFile = NoManifest string | ManifestMalformed | ManifestStored manifest

record migrationDir =
  dr_IsDir :: bool
  dr_Backup :: readResult
  dr_Manifest :: manifestFile

record ('s, 'x) migrationState =
  gs_Policy :: readResult
  gs_Dirs :: "migrationDir gomap"
  gs_Env :: "'s envManager"
  gs_Legacy :: 'x

record ('s, 'x) migrationOS =
  go_Codec :: yamlCodec
  go_Abs :: "string \<Rightarrow> string + string"
  go_Env :: "'s envEnv"
  go_Open :: "'s envManager \<Rightarrow> string + 's envManager"
  go_OpenStore :: "string \<Rightarrow> secretError option"
  go_LegacyGet :: "string \<Rightarrow> string \<Rightarrow> 'x \<Rightarrow> secretError + string"
  go_LegacyDelete :: "string \<Rightarrow> string \<Rightarrow> 'x \<Rightarrow> 'x \<times> secretError option"
  go_ListDirs :: "string option"
  go_Mkdir :: "string option"
  go_WriteBackup :: "(string \<times> readResult) option"
  go_SaveManifest :: "nat \<Rightarrow> (string \<times> manifestFile) option"
  go_Replace :: "nat \<Rightarrow> string option"
  go_ReadPolicy :: "nat \<Rightarrow> string option"
  go_Random :: "string + bytes"
  go_Stamp :: string
  go_Now :: time

datatype migrationError =
    MigIO string | MigPolicy policyError | NotVersion1 string | MigRewrite rewriteError | MigOpenEnv string
  | MigEnv envError | EntryMissing string | EntryUnreadable string envError | DestinationExists string
  | LegacyStore string secretError | LegacyUnavailable string | CopyFailed string envError | VerifyFailed string
  | MigratedUnverified policyError | NotApplied string string | RestoredUnverified policyError
  | RemoveEntry string envError | NotMigrated | LegacyOpen secretError | LegacyDelete string secretError
  | BadMigrationID | ManifestUnreadable string | ManifestIdentity

section \<open>Plan\<close>

text \<open>Reading the policy; the number tells the calls of one operation apart.\<close>

definition readPolicy :: "('s, 'x) migrationOS \<Rightarrow> nat \<Rightarrow> ('s, 'x) migrationState \<Rightarrow> readResult" where
  "readPolicy os n st = (case go_ReadPolicy os n of Some err \<Rightarrow> ReadFailed err | None \<Rightarrow> gs_Policy st)"

definition loadPolicy :: "('s, 'x) migrationOS \<Rightarrow> nat \<Rightarrow> ('s, 'x) migrationState \<Rightarrow> policyError + policyFile" where
  "loadPolicy os n st = Load (yc_Decode (go_Codec os)) (readPolicy os n st)"

definition openEnvironments :: "('s, 'x) migrationOS \<Rightarrow> ('s, 'x) migrationState \<Rightarrow> ('s, 'x) migrationState \<times> string option" where
  "openEnvironments os st = (case go_Open os (gs_Env st) of Inl err \<Rightarrow> (st, Some err) | Inr m \<Rightarrow> (st\<lparr>gs_Env := m\<rparr>, None))"

definition aliasMapping :: "policyFile \<Rightarrow> string \<times> secretDecl \<Rightarrow> mapping" where
  "aliasMapping f a =
     (case a of (alias, secret) \<Rightarrow>
        \<lparr>mp_Alias = alias, mp_Entry = sd_Env secret, mp_Kind = EffectiveKind secret, mp_Filename = sd_Filename secret,
         mp_Store = sd_Store secret, mp_Copied = (f_EnvironmentSet f \<noteq> ''active'')\<rparr>)"

definition planMappings :: "policyFile \<Rightarrow> mapping list" where
  "planMappings f = sort_key mp_Alias (List.map (aliasMapping f) (f_Secrets f))"

definition Plan :: "('s, 'x) migrationOS \<Rightarrow> string \<Rightarrow> ('s, 'x) migrationState \<Rightarrow>
    ('s, 'x) migrationState \<times> (migrationError + preview)" where
  "Plan os policyPath st =
     (case go_Abs os policyPath of
        Inl err \<Rightarrow> (st, Err (MigIO err))
      | Inr path \<Rightarrow> (case loadPolicy os 0 st of
          Inl err \<Rightarrow> (st, Err (MigPolicy err))
        | Inr f \<Rightarrow>
            if f_Version f \<noteq> SupportedVersionV1 then (st, Err (NotVersion1 (f_Version f)))
            else if f_EnvironmentSet f \<noteq> ''active''
            then (st, Ok \<lparr>pv_PolicyPath = path, pv_Environment = ''dev'', pv_Mappings = planMappings f\<rparr>)
            else (case openEnvironments os st of
                (st, Some err) \<Rightarrow> (st, Err (MigIO err))
              | (st, None) \<Rightarrow> (case Active (go_Env os) (gs_Env st) of
                  Inl err \<Rightarrow> (st, Err (MigEnv err))
                | Inr s \<Rightarrow> (st, Ok \<lparr>pv_PolicyPath = path, pv_Environment = es_Name s, pv_Mappings = planMappings f\<rparr>)))))"

section \<open>Copying the values\<close>

text \<open>The first loop of \<open>Apply\<close>: entries of an active environment are checked, values of legacy stores are read.\<close>

fun collectCopies :: "('s, 'x) migrationOS \<Rightarrow> bool \<Rightarrow> string \<Rightarrow> 'x \<Rightarrow> mapping list \<Rightarrow> 's envManager \<Rightarrow>
    's envManager \<times> (migrationError + (mapping \<times> bytes) list)" where
  "collectCopies os active environment legacy [] m = (m, Ok [])"
| "collectCopies os active environment legacy (item # rest) m =
     (if active then
        (case EntryOf m environment (mp_Entry item) of
           None \<Rightarrow> (m, Err (EntryMissing (mp_Entry item)))
         | Some e \<Rightarrow>
             (case (if ee_Kind e = EntryFile then GetBytes (go_Env os) environment (mp_Entry item) m
                    else GetValue (go_Env os) environment (mp_Entry item) m) of
                (m, Inl err) \<Rightarrow> (m, Err (EntryUnreadable (mp_Entry item) err))
              | (m, Inr _) \<Rightarrow> collectCopies os active environment legacy rest m))
      else if EntryOf m environment (mp_Entry item) \<noteq> None then (m, Err (DestinationExists (mp_Entry item)))
      else (case go_OpenStore os (mp_Store item) of
          Some err \<Rightarrow> (m, Err (LegacyStore (mp_Alias item) err))
        | None \<Rightarrow> (case go_LegacyGet os (mp_Store item) (mp_Alias item) legacy of
            Inl _ \<Rightarrow> (m, Err (LegacyUnavailable (mp_Alias item)))
          | Inr val \<Rightarrow> (case collectCopies os active environment legacy rest m of
              (m, Inl err) \<Rightarrow> (m, Err err)
            | (m, Inr copies) \<Rightarrow> (m, Ok ((item, val) # copies))))))"

definition rollbackValues :: "'s envEnv \<Rightarrow> string \<Rightarrow> string list \<Rightarrow> 's envManager \<Rightarrow> 's envManager" where
  "rollbackValues env environment added m = fold (\<lambda>name m. fst (DeleteKey env environment name m)) (rev added) m"

definition copyEntry :: "mapping \<Rightarrow> entry" where
  "copyEntry item = \<lparr>ee_Name = mp_Entry item, ee_Kind = mp_Kind item, ee_Target = mp_Entry item, ee_Filename = mp_Filename item,
     ee_CreatedAt = 0, ee_UpdatedAt = 0\<rparr>"

text \<open>The second loop; an entry counts as added once it was read back.\<close>

fun copyValues :: "'s envEnv \<Rightarrow> string \<Rightarrow> (mapping \<times> bytes) list \<Rightarrow> string list \<Rightarrow> 's envManager \<Rightarrow>
    's envManager \<times> (migrationError + string list)" where
  "copyValues env environment [] added m = (m, Ok added)"
| "copyValues env environment ((item, val) # copies) added m =
     (case PutEntry env environment (copyEntry item) val m of
        (m, Some err) \<Rightarrow> (rollbackValues env environment added m, Err (CopyFailed (mp_Alias item) err))
      | (m, None) \<Rightarrow> (case GetBytes env environment (mp_Entry item) m of
          (m, stored) \<Rightarrow>
            if stored \<noteq> Inr val then (rollbackValues env environment added m, Err (VerifyFailed (mp_Entry item)))
            else copyValues env environment copies (added @ [mp_Entry item]) m))"

section \<open>Apply\<close>

definition migrationID :: "('s, 'x) migrationOS \<Rightarrow> migrationError + string" where
  "migrationID os = (case go_Random os of Inl err \<Rightarrow> Err (MigIO err) | Inr random \<Rightarrow> Ok (go_Stamp os @ ''-'' @ hexEncode random))"

text \<open>The number tells the calls of one operation apart.\<close>

definition saveManifest :: "('s, 'x) migrationOS \<Rightarrow> nat \<Rightarrow> string \<Rightarrow> manifest \<Rightarrow> ('s, 'x) migrationState \<Rightarrow>
    ('s, 'x) migrationState \<times> string option" where
  "saveManifest os n mid mani st =
     (case mapGet (gs_Dirs st) mid of
        None \<Rightarrow> (st, Some ''no such directory'')
      | Some d \<Rightarrow> (case go_SaveManifest os n of
          Some (err, left) \<Rightarrow> (st\<lparr>gs_Dirs := mapPut mid (d\<lparr>dr_Manifest := left\<rparr>) (gs_Dirs st)\<rparr>, Some err)
        | None \<Rightarrow> (st\<lparr>gs_Dirs := mapPut mid (d\<lparr>dr_Manifest := ManifestStored mani\<rparr>) (gs_Dirs st)\<rparr>, None)))"

definition replaceFile :: "('s, 'x) migrationOS \<Rightarrow> nat \<Rightarrow> bytes \<Rightarrow> ('s, 'x) migrationState \<Rightarrow> ('s, 'x) migrationState \<times> string option" where
  "replaceFile os n data st =
     (if gs_Policy st = ReadMissing then (st, Some ''no such file'')
      else case go_Replace os n of
        Some err \<Rightarrow> (st, Some err)
      | None \<Rightarrow> (st\<lparr>gs_Policy := ReadData data\<rparr>, None))"

definition newMigrationDir :: migrationDir where
  "newMigrationDir = \<lparr>dr_IsDir = True, dr_Backup = ReadMissing, dr_Manifest = NoManifest ''no such file''\<rparr>"

text \<open>\<open>MkdirAll\<close> and the backup; a directory of the same ID is used again.\<close>

definition prepareDir :: "('s, 'x) migrationOS \<Rightarrow> string \<Rightarrow> bytes \<Rightarrow> ('s, 'x) migrationState \<Rightarrow> ('s, 'x) migrationState \<times> string option" where
  "prepareDir os mid original st =
     (case go_Mkdir os of
        Some err \<Rightarrow> (st, Some err)
      | None \<Rightarrow>
          (let d = (case mapGet (gs_Dirs st) mid of None \<Rightarrow> newMigrationDir | Some d \<Rightarrow> d) in
           case go_WriteBackup os of
             Some (err, left) \<Rightarrow> (st\<lparr>gs_Dirs := mapPut mid (d\<lparr>dr_Backup := left\<rparr>) (gs_Dirs st)\<rparr>, Some err)
           | None \<Rightarrow> (st\<lparr>gs_Dirs := mapPut mid (d\<lparr>dr_Backup := ReadData original\<rparr>) (gs_Dirs st)\<rparr>, None)))"

text \<open>From the copies on: whatever fails, the copies are taken back and the policy is put back.\<close>

definition commitMigration :: "('s, 'x) migrationOS \<Rightarrow> bytes \<Rightarrow> bytes \<Rightarrow> (mapping \<times> bytes) list \<Rightarrow> manifest \<Rightarrow>
    ('s, 'x) migrationState \<Rightarrow> ('s, 'x) migrationState \<times> (migrationError + manifest)" where
  "commitMigration os original migrated copies mani st =
     (let env = go_Env os; environment = mn_Environment mani in
      case copyValues env environment copies [] (gs_Env st) of
        (m, Inl err) \<Rightarrow> (st\<lparr>gs_Env := m\<rparr>, Err err)
      | (m, Inr added) \<Rightarrow>
          (let undo = (\<lambda>st. st\<lparr>gs_Env := rollbackValues env environment added (gs_Env st)\<rparr>) in
           case replaceFile os 0 migrated (st\<lparr>gs_Env := m\<rparr>) of
             (st, Some err) \<Rightarrow> (undo st, Err (MigIO err))
           | (st, None) \<Rightarrow> (case loadPolicy os 2 st of
               Inl err \<Rightarrow> (undo (fst (replaceFile os 1 original st)), Err (MigratedUnverified err))
             | Inr _ \<Rightarrow> (case saveManifest os 1 (mn_ID mani) (mani\<lparr>mn_Status := ''applied''\<rparr>) st of
                 (st, Some err) \<Rightarrow> (undo (fst (replaceFile os 1 original st)), Err (MigIO err))
               | (st, None) \<Rightarrow> (st, Ok (mani\<lparr>mn_Status := ''applied''\<rparr>))))))"

definition preparedManifest :: "('s, 'x) migrationOS \<Rightarrow> string \<Rightarrow> preview \<Rightarrow> manifest" where
  "preparedManifest os mid preview =
     \<lparr>mn_Version = 1, mn_ID = mid, mn_Status = ''prepared'', mn_PolicyPath = pv_PolicyPath preview,
      mn_Environment = pv_Environment preview, mn_CreatedAt = go_Now os, mn_Mappings = pv_Mappings preview\<rparr>"

definition recordMigration :: "('s, 'x) migrationOS \<Rightarrow> preview \<Rightarrow> bytes \<Rightarrow> bytes \<Rightarrow> (mapping \<times> bytes) list \<Rightarrow>
    ('s, 'x) migrationState \<Rightarrow> ('s, 'x) migrationState \<times> (migrationError + manifest)" where
  "recordMigration os preview original migrated copies st =
     (case migrationID os of
        Inl err \<Rightarrow> (st, Err err)
      | Inr mid \<Rightarrow> (case prepareDir os mid original st of
          (st, Some err) \<Rightarrow> (st, Err (MigIO err))
        | (st, None) \<Rightarrow> (case saveManifest os 0 mid (preparedManifest os mid preview) st of
            (st, Some err) \<Rightarrow> (st, Err (MigIO err))
          | (st, None) \<Rightarrow> commitMigration os original migrated copies (preparedManifest os mid preview) st)))"

definition ensureSet :: "'s envEnv \<Rightarrow> string \<Rightarrow> 's envManager \<Rightarrow> 's envManager \<times> envError option" where
  "ensureSet env name m = (if SetOf m name \<noteq> None then (m, None) else Ensure env name m)"

definition Apply :: "('s, 'x) migrationOS \<Rightarrow> string \<Rightarrow> ('s, 'x) migrationState \<Rightarrow>
    ('s, 'x) migrationState \<times> (migrationError + manifest)" where
  "Apply os policyPath st =
     (case Plan os policyPath st of
        (st, Inl err) \<Rightarrow> (st, Err err)
      | (st, Inr preview) \<Rightarrow> (case readPolicy os 1 st of
          ReadMissing \<Rightarrow> (st, Err (MigIO ''no such file''))
        | ReadFailed err \<Rightarrow> (st, Err (MigIO err))
        | ReadData original \<Rightarrow> (case Parse (yc_Decode (go_Codec os)) original of
            Inl err \<Rightarrow> (st, Err (MigPolicy err))
          | Inr f \<Rightarrow> (case MigrateV1ToV2 (go_Codec os) original of
              Inl err \<Rightarrow> (st, Err (MigRewrite err))
            | Inr (migrated, _) \<Rightarrow> (case openEnvironments os st of
                (st, Some err) \<Rightarrow> (st, Err (MigOpenEnv err))
              | (st, None) \<Rightarrow> (case ensureSet (go_Env os) (pv_Environment preview) (gs_Env st) of
                  (m, Some err) \<Rightarrow> (st\<lparr>gs_Env := m\<rparr>, Err (MigEnv err))
                | (m, None) \<Rightarrow>
                    (case collectCopies os (f_EnvironmentSet f = ''active'') (pv_Environment preview) (gs_Legacy st) (pv_Mappings preview) m of
                       (m, Inl err) \<Rightarrow> (st\<lparr>gs_Env := m\<rparr>, Err err)
                     | (m, Inr copies) \<Rightarrow> recordMigration os preview original migrated copies (st\<lparr>gs_Env := m\<rparr>))))))))"

section \<open>Rollback and cleanup\<close>

definition loadMigration :: "('s, 'x) migrationOS \<Rightarrow> string \<Rightarrow> ('s, 'x) migrationState \<Rightarrow> migrationError + migrationDir \<times> manifest" where
  "loadMigration os mid st =
     (if mid = [] \<and> go_ListDirs os \<noteq> None then Err (MigIO (the (go_ListDirs os)))
      else
        let mid = (if mid = [] then (case find (\<lambda>(_, d). dr_IsDir d) (rev (gs_Dirs st)) of None \<Rightarrow> [] | Some (name, _) \<Rightarrow> name) else mid)
        in if mid = [] \<or> ContainsAny mid [CHR ''/'', CHR 0x5C] \<or> Base mid \<noteq> mid then Err BadMigrationID
           else case mapGet (gs_Dirs st) mid of
             None \<Rightarrow> Err (ManifestUnreadable ''no such file'')
           | Some d \<Rightarrow> (case dr_Manifest d of
               NoManifest err \<Rightarrow> Err (ManifestUnreadable err)
             | ManifestMalformed \<Rightarrow> Err (ManifestUnreadable ''invalid JSON'')
             | ManifestStored mani \<Rightarrow>
                 if mn_ID mani \<noteq> mid \<or> mn_Version mani \<noteq> 1 then Err ManifestIdentity else Ok (d, mani)))"

fun removeCopied :: "'s envEnv \<Rightarrow> string \<Rightarrow> mapping list \<Rightarrow> 's envManager \<Rightarrow> 's envManager \<times> migrationError option" where
  "removeCopied env environment [] m = (m, None)"
| "removeCopied env environment (item # rest) m =
     (if \<not> mp_Copied item then removeCopied env environment rest m
      else case DeleteKey env environment (mp_Entry item) m of
        (m, None) \<Rightarrow> removeCopied env environment rest m
      | (m, Some err) \<Rightarrow>
          if err = StoreErr StoreMissing then removeCopied env environment rest m
          else (m, Some (RemoveEntry (mp_Entry item) err)))"

definition finishMigration :: "('s, 'x) migrationOS \<Rightarrow> string \<Rightarrow> manifest \<Rightarrow> ('s, 'x) migrationState \<Rightarrow>
    ('s, 'x) migrationState \<times> (migrationError + manifest)" where
  "finishMigration os status mani st =
     (case saveManifest os 0 (mn_ID mani) (mani\<lparr>mn_Status := status\<rparr>) st of
        (st, Some err) \<Rightarrow> (st, Err (MigIO err))
      | (st, None) \<Rightarrow> (st, Ok (mani\<lparr>mn_Status := status\<rparr>)))"

definition restorePolicy :: "('s, 'x) migrationOS \<Rightarrow> migrationDir \<Rightarrow> ('s, 'x) migrationState \<Rightarrow>
    ('s, 'x) migrationState \<times> migrationError option" where
  "restorePolicy os d st =
     (case dr_Backup d of
        ReadMissing \<Rightarrow> (st, Some (MigIO ''no such file''))
      | ReadFailed err \<Rightarrow> (st, Some (MigIO err))
      | ReadData backup \<Rightarrow> (case replaceFile os 0 backup st of
          (st, Some err) \<Rightarrow> (st, Some (MigIO err))
        | (st, None) \<Rightarrow> (case loadPolicy os 0 st of
            Inl err \<Rightarrow> (st, Some (RestoredUnverified err))
          | Inr _ \<Rightarrow> (st, None))))"

definition Rollback :: "('s, 'x) migrationOS \<Rightarrow> string \<Rightarrow> string \<Rightarrow> ('s, 'x) migrationState \<Rightarrow>
    ('s, 'x) migrationState \<times> (migrationError + manifest)" where
  "Rollback os policyPath mid st =
     (case go_Abs os policyPath of
        Inl err \<Rightarrow> (st, Err (MigIO err))
      | Inr _ \<Rightarrow> (case loadMigration os mid st of
          Inl err \<Rightarrow> (st, Err err)
        | Inr (d, mani) \<Rightarrow>
            if mn_Status mani \<noteq> ''applied'' then (st, Err (NotApplied (mn_ID mani) (mn_Status mani)))
            else (case restorePolicy os d st of
                (st, Some err) \<Rightarrow> (st, Err err)
              | (st, None) \<Rightarrow> (case openEnvironments os st of
                  (st, Some err) \<Rightarrow> (st, Err (MigIO err))
                | (st, None) \<Rightarrow> (case removeCopied (go_Env os) (mn_Environment mani) (mn_Mappings mani) (gs_Env st) of
                    (m, Some err) \<Rightarrow> (st\<lparr>gs_Env := m\<rparr>, Err err)
                  | (m, None) \<Rightarrow> finishMigration os ''rolled_back'' mani (st\<lparr>gs_Env := m\<rparr>))))))"

fun deleteAliases :: "('s, 'x) migrationOS \<Rightarrow> mapping list \<Rightarrow> 'x \<Rightarrow> 'x \<times> migrationError option" where
  "deleteAliases os [] x = (x, None)"
| "deleteAliases os (item # rest) x =
     (if \<not> mp_Copied item then deleteAliases os rest x
      else case go_OpenStore os (mp_Store item) of
        Some err \<Rightarrow> (x, Some (LegacyOpen err))
      | None \<Rightarrow> (case go_LegacyDelete os (mp_Store item) (mp_Alias item) x of
          (x, Some err) \<Rightarrow> (x, Some (LegacyDelete (mp_Alias item) err))
        | (x, None) \<Rightarrow> deleteAliases os rest x))"

definition Cleanup :: "('s, 'x) migrationOS \<Rightarrow> string \<Rightarrow> string \<Rightarrow> ('s, 'x) migrationState \<Rightarrow>
    ('s, 'x) migrationState \<times> (migrationError + manifest)" where
  "Cleanup os policyPath mid st =
     (case go_Abs os policyPath of
        Inl err \<Rightarrow> (st, Err (MigIO err))
      | Inr _ \<Rightarrow> (case loadMigration os mid st of
          Inl err \<Rightarrow> (st, Err err)
        | Inr (_, mani) \<Rightarrow>
            if mn_Status mani \<noteq> ''applied'' then (st, Err (NotApplied (mn_ID mani) (mn_Status mani)))
            else (case loadPolicy os 0 st of
                Inl _ \<Rightarrow> (st, Err NotMigrated)
              | Inr f \<Rightarrow>
                  if \<not> UsesEnvironmentEntries (Some f) then (st, Err NotMigrated)
                  else (case deleteAliases os (mn_Mappings mani) (gs_Legacy st) of
                      (x, Some err) \<Rightarrow> (st\<lparr>gs_Legacy := x\<rparr>, Err err)
                    | (x, None) \<Rightarrow> finishMigration os ''cleaned'' mani (st\<lparr>gs_Legacy := x\<rparr>)))))"

end
