(* ===== verification/PolicyMigrate_Props.thy ===== *)
theory PolicyMigrate_Props
  imports PolicyMigrate Policy_Props
begin

text \<open>
  What a migrated policy is: a well-formed version-2 policy with the same commands, each naming the entry that each
  of its aliases stood for.
\<close>

section \<open>The YAML library\<close>

text \<open>
  What is relied on: a document that decodes to a policy is a mapping with distinct keys; a string node gives its
  value and a missing key the zero value; and where nothing is merged and no node is an alias, a field of the policy or of a command depends
  on the nodes under its own key only.  Merge keys, alias nodes and nodes of other types are left open.
\<close>

fun mappingKeys :: "yamlNode list \<Rightarrow> string list" where
  "mappingKeys (k # v # content) = yn_Value k # mappingKeys content"
| "mappingKeys _ = []"

text \<open>The keys and values of a mapping without those of some keys.\<close>

fun fieldsBut :: "string list \<Rightarrow> yamlNode list \<Rightarrow> yamlNode list" where
  "fieldsBut ks (k # v # content) = (if yn_Value k \<in> set ks then fieldsBut ks content else k # v # fieldsBut ks content)"
| "fieldsBut ks content = content"

fun aliasFree :: "yamlNode \<Rightarrow> bool" where
  "aliasFree (YamlNode k t v s notes content) \<longleftrightarrow> k \<noteq> AliasNode \<and> list_all aliasFree content"

definition plainItem :: "yamlNode \<Rightarrow> bool" where
  "plainItem n \<longleftrightarrow> yn_Kind n = ScalarNode \<and> yn_Tag n = ''!!str''"

definition plainCommand :: "yamlNode \<Rightarrow> bool" where
  "plainCommand n \<longleftrightarrow>
     yn_Kind n = MappingNode \<and> mappingValue (yn_Content n) ''<<'' = None \<and>
     (case mappingValue (yn_Content n) ''secrets'' of
        None \<Rightarrow> True
      | Some s \<Rightarrow> yn_Kind s = SequenceNode \<and> list_all plainItem (yn_Content s))"

definition commandSecrets :: "yamlNode \<Rightarrow> string list" where
  "commandSecrets n =
     (case mappingValue (yn_Content n) ''secrets'' of None \<Rightarrow> [] | Some s \<Rightarrow> List.map yn_Value (yn_Content s))"

definition commandFields :: "yamlNode \<Rightarrow> yamlNode list" where
  "commandFields n = fieldsBut [''secrets''] (yn_Content n)"

definition rootFields :: "yamlNode list \<Rightarrow> yamlNode list" where
  "rootFields root = fieldsBut [''version'', ''environment_set'', ''commands'', ''secrets''] root"

definition plainRoot :: "yamlNode list \<Rightarrow> bool" where
  "plainRoot root \<longleftrightarrow> mappingValue root ''<<'' = None \<and> list_all aliasFree root \<and>
     (case mappingValue root ''commands'' of None \<Rightarrow> False | Some cmds \<Rightarrow> list_all plainCommand (yn_Content cmds))"

text \<open>A policy and a command without the fields that are rewritten.\<close>

definition otherFields :: "policyFile \<Rightarrow> policyFile" where
  "otherFields f = f\<lparr>f_Version := [], f_EnvironmentSet := [], f_Secrets := [], f_Commands := []\<rparr>"

definition withoutSecrets :: "command \<Rightarrow> command" where
  "withoutSecrets c = c\<lparr>c_Secrets := []\<rparr>"

definition readsRoot :: "(yamlNode list \<Rightarrow> command) \<Rightarrow> (yamlNode list \<Rightarrow> policyFile) \<Rightarrow> yamlNode list \<Rightarrow> policyFile \<Rightarrow> bool" where
  "readsRoot readCommand readFields root f \<longleftrightarrow>
     even (length root) \<and> distinct (mappingKeys root) \<and> distinct (List.map fst (f_Secrets f)) \<and>
     (\<forall>v. mappingValue root ''version'' = Some v \<and> plainItem v \<longrightarrow> f_Version f = yn_Value v) \<and>
     (\<forall>v. mappingValue root ''environment_set'' = Some v \<and> plainItem v \<longrightarrow> f_EnvironmentSet f = yn_Value v) \<and>
     (mappingValue root ''<<'' = None \<and> mappingValue root ''secrets'' = None \<longrightarrow> f_Secrets f = []) \<and>
     (\<forall>cmds. mappingValue root ''commands'' = Some cmds \<and> yn_Kind cmds = SequenceNode \<and> list_all plainCommand (yn_Content cmds) \<longrightarrow>
        List.map c_Secrets (f_Commands f) = List.map commandSecrets (yn_Content cmds)) \<and>
     (mappingValue root ''<<'' = None \<and> list_all aliasFree root \<longrightarrow> otherFields f = readFields (rootFields root)) \<and>
     (\<forall>cmds. mappingValue root ''commands'' = Some cmds \<and> yn_Kind cmds = SequenceNode \<and> list_all plainCommand (yn_Content cmds) \<and>
        list_all aliasFree root \<longrightarrow>
        List.map withoutSecrets (f_Commands f) = List.map (\<lambda>n. readCommand (commandFields n)) (yn_Content cmds))"

definition yamlOk :: "yamlCodec \<Rightarrow> bool" where
  "yamlOk yc \<longleftrightarrow>
     (\<exists>readCommand readFields. \<forall>data n root f.
        (yc_Node yc data = Inr n \<or> yc_Encode yc n = Inr data) \<and> yn_Content n = [root] \<and> yc_Decode yc data = Inr f \<longrightarrow>
        readsRoot readCommand readFields (yn_Content root) f)"

section \<open>Changes of a mapping\<close>

lemma mappingValue_set:
  "even (length c) \<Longrightarrow> mappingValue (setScalar c key val) k =
     (if k = key then Some (case mappingValue c key of
        None \<Rightarrow> strNode val
      | Some v \<Rightarrow> YamlNode ScalarNode ''!!str'' val DoubleQuotedStyle (yn_Notes v) (yn_Content v))
      else mappingValue c k)"
  by (induction c key val rule: setScalar.induct) (auto simp: strNode_def)

lemma even_set: "even (length (setScalar c key val)) = even (length c)"
  by (induction c key val rule: setScalar.induct) auto

lemma keys_set: "even (length c) \<Longrightarrow> mappingKeys (setScalar c key val) =
    mappingKeys c @ (if key \<in> set (mappingKeys c) then [] else [key])"
  by (induction c key val rule: setScalar.induct) (auto simp: strNode_def)

lemma mappingValue_change: "mappingValue (changeValue g key c) k = (if k = key then map_option g (mappingValue c k) else mappingValue c k)"
  by (induction g key c rule: changeValue.induct) auto

lemma keys_change [simp]: "mappingKeys (changeValue g key c) = mappingKeys c"
  by (induction g key c rule: changeValue.induct) auto

lemma mappingValue_keys: "mappingValue c k = None \<longleftrightarrow> k \<notin> set (mappingKeys c)"
  by (induction c k rule: mappingValue.induct) auto

lemma mappingValue_delete: "distinct (mappingKeys c) \<Longrightarrow>
    mappingValue (deleteMappingKey c key) k = (if k = key then None else mappingValue c k)"
  by (induction c key rule: deleteMappingKey.induct) (auto simp: mappingValue_keys)

lemma setContent_simps [simp]:
  "yn_Kind (setContent n c) = yn_Kind n" "yn_Value (setContent n c) = yn_Value n" "yn_Content (setContent n c) = c"
  by (simp_all add: setContent_def)

lemma fieldsBut_set: "key \<in> set ks \<Longrightarrow> even (length c) \<Longrightarrow> fieldsBut ks (setScalar c key val) = fieldsBut ks c"
  by (induction c key val rule: setScalar.induct) (auto simp: strNode_def)

lemma fieldsBut_change: "key \<in> set ks \<Longrightarrow> fieldsBut ks (changeValue g key c) = fieldsBut ks c"
  by (induction g key c rule: changeValue.induct) auto

lemma fieldsBut_delete: "key \<in> set ks \<Longrightarrow> fieldsBut ks (deleteMappingKey c key) = fieldsBut ks c"
  by (induction c key rule: deleteMappingKey.induct) auto

lemma aliasFree_content: "aliasFree n \<longleftrightarrow> yn_Kind n \<noteq> AliasNode \<and> list_all aliasFree (yn_Content n)"
  by (cases n) simp

lemma aliasFree_setContent [simp]: "aliasFree (setContent n c) \<longleftrightarrow> yn_Kind n \<noteq> AliasNode \<and> list_all aliasFree c"
  by (simp add: setContent_def)

lemma aliasFree_set: "list_all aliasFree c \<Longrightarrow> list_all aliasFree (setScalar c key val)"
proof (induction c key val rule: setScalar.induct)
  case (1 k v content key val)
  then show ?case using aliasFree_content [of v] by auto
qed (simp_all add: strNode_def)

lemma aliasFree_change: "list_all aliasFree c \<Longrightarrow> (\<And>v. aliasFree v \<Longrightarrow> aliasFree (g v)) \<Longrightarrow> list_all aliasFree (changeValue g key c)"
  by (induction g key c rule: changeValue.induct) auto

lemma aliasFree_delete: "list_all aliasFree c \<Longrightarrow> list_all aliasFree (deleteMappingKey c key)"
  by (induction c key rule: deleteMappingKey.induct) auto

section \<open>Commands\<close>

lemma migrateItem_simps [simp]:
  "yn_Kind (migrateItem t i) = yn_Kind i" "yn_Tag (migrateItem t i) = yn_Tag i"
  "yn_Value (migrateItem t i) = (case mapGet t (yn_Value i) of None \<Rightarrow> yn_Value i | Some target \<Rightarrow> target)"
  by (auto simp: migrateItem_def split: option.splits)

lemma migrateCommand_plain:
  assumes "plainCommand n"
  shows "plainCommand (migrateCommand t n)"
    "commandSecrets (migrateCommand t n) = List.map (\<lambda>s. case mapGet t s of None \<Rightarrow> s | Some target \<Rightarrow> target) (commandSecrets n)"
  using assms
  by (auto simp: plainCommand_def migrateCommand_def mappingValue_change commandSecrets_def migrateSecrets_def plainItem_def
      list_all_iff split: option.splits)

lemma aliasTargets_get:
  assumes "distinct (List.map fst (f_Secrets f))"
  shows "mapGet (aliasTargets f) a = map_option sd_Env (map_of (f_Secrets f) a)"
proof -
  have "mapInv m \<Longrightarrow> distinct (List.map fst xs) \<Longrightarrow> mapGet (fold (\<lambda>(alias, secret). mapPut alias (sd_Env secret)) xs m) a =
      (case map_of xs a of None \<Rightarrow> mapGet m a | Some d \<Rightarrow> Some (sd_Env d))" for xs m
    by (induction xs arbitrary: m) (auto split: option.splits dest: map_of_SomeD, metis fst_conv image_eqI)
  from this [of "[]" "f_Secrets f"] assms show ?thesis by (auto simp: aliasTargets_def mapGet_def split: option.splits)
qed

lemma MigrateV1ToV2_Ok:
  assumes "MigrateV1ToV2 yc data = Ok (out, targets)"
  obtains f doc root content f' where "Parse (yc_Decode yc) data = Inr f" "f_Version f = SupportedVersionV1"
    "checkTargets [] (f_Secrets f) = None" "yc_Node yc data = Inr doc" "yn_Content doc = [root]"
    "migrateRoot (aliasTargets f) (yn_Content root) = Some content"
    "yc_Encode yc (setContent doc [setContent root content]) = Inr out" "Parse (yc_Decode yc) out = Inr f'" "targets = aliasTargets f"
proof -
  from assms obtain f where f: "Parse (yc_Decode yc) data = Inr f" "f_Version f = SupportedVersionV1" "checkTargets [] (f_Secrets f) = None"
    by (auto simp: MigrateV1ToV2_def split: sum.splits if_splits option.splits)
  with assms obtain doc where doc: "yc_Node yc data = Inr doc"
    by (auto simp: MigrateV1ToV2_def split: sum.splits)
  with assms f obtain root where root: "yn_Content doc = [root]"
    by (auto simp: MigrateV1ToV2_def split: list.splits)
  with assms f doc obtain content where c: "migrateRoot (aliasTargets f) (yn_Content root) = Some content"
    by (auto simp: MigrateV1ToV2_def split: if_splits option.splits)
  with assms f doc root show thesis
    by (auto simp: MigrateV1ToV2_def split: if_splits sum.splits intro: that)
qed

section \<open>The migrated policy\<close>

lemma migrateCommand_fields: "commandFields (migrateCommand t n) = commandFields n"
  by (simp add: commandFields_def migrateCommand_def fieldsBut_change)

lemma migrateCommand_aliasFree:
  assumes "aliasFree n"
  shows "aliasFree (migrateCommand t n)"
proof -
  have item: "aliasFree (migrateItem t i)" if "aliasFree i" for i
    using that by (cases i) (simp add: migrateItem_def split: option.split)
  have secrets: "aliasFree (migrateSecrets t s)" if "aliasFree s" for s
    using aliasFree_content [THEN iffD1, OF that] item by (simp add: migrateSecrets_def list.pred_map list_all_iff)
  note n = aliasFree_content [THEN iffD1, OF assms]
  from aliasFree_change [OF n [THEN conjunct2] secrets] show ?thesis
    using n assms by (simp add: migrateCommand_def)
qed

lemma migrateRoot_fields:
  assumes "migrateRoot targets root = Some content" "even (length root)"
  shows "rootFields content = rootFields root"
  using assms by (auto simp: migrateRoot_def rootFields_def Let_def fieldsBut_set even_set fieldsBut_change fieldsBut_delete
      split: option.splits if_splits)

lemma migrateRoot_aliasFree:
  assumes "migrateRoot targets root = Some content" "list_all aliasFree root"
  shows "list_all aliasFree content"
proof -
  have cmds: "aliasFree (setContent cmds (List.map (migrateCommand targets) (yn_Content cmds)))" if "aliasFree cmds" for cmds
    using aliasFree_content [THEN iffD1, OF that] migrateCommand_aliasFree by (simp add: list_all_iff)
  show ?thesis
    using assms by (auto simp: migrateRoot_def Let_def intro!: aliasFree_delete aliasFree_change aliasFree_set cmds
        split: option.splits if_splits)
qed

text \<open>Commands that agree but for their secrets.\<close>

lemma commands_rewritten:
  assumes "List.map withoutSecrets cs' = List.map withoutSecrets cs"
    "List.map c_Secrets cs' = List.map (List.map g) (List.map c_Secrets cs)"
  shows "cs' = List.map (\<lambda>c. c\<lparr>c_Secrets := List.map g (c_Secrets c)\<rparr>) cs"
  using assms
proof (induction cs arbitrary: cs')
  case (Cons c cs)
  then obtain d ds where d: "cs' = d # ds" by (cases cs') auto
  with Cons have "ds = List.map (\<lambda>c. c\<lparr>c_Secrets := List.map g (c_Secrets c)\<rparr>) cs" by simp
  moreover have "d = c\<lparr>c_Secrets := List.map g (c_Secrets c)\<rparr>"
  proof -
    have "d = (withoutSecrets d)\<lparr>c_Secrets := c_Secrets d\<rparr>" by (simp add: withoutSecrets_def)
    also have "\<dots> = (withoutSecrets c)\<lparr>c_Secrets := List.map g (c_Secrets c)\<rparr>" using Cons.prems d by simp
    finally show ?thesis by (simp add: withoutSecrets_def)
  qed
  ultimately show ?case using d by simp
qed simp

definition entryOfAlias :: "policyFile \<Rightarrow> string \<Rightarrow> string" where
  "entryOfAlias f a = (case map_of (f_Secrets f) a of None \<Rightarrow> a | Some d \<Rightarrow> sd_Env d)"

lemma migrateRoot_reads:
  assumes "migrateRoot targets root = Some content" "readsRoot dc dp root f" "plainRoot root" "readsRoot dc dp content f'"
  shows "f' = f\<lparr>f_Version := SupportedVersionV2, f_EnvironmentSet := ''active'', f_Secrets := [],
    f_Commands := List.map (\<lambda>c. c\<lparr>c_Secrets :=
      List.map (\<lambda>s. case mapGet targets s of None \<Rightarrow> s | Some target \<Rightarrow> target) (c_Secrets c)\<rparr>) (f_Commands f)\<rparr>"
proof -
  let ?c1 = "setScalar (setScalar root ''version'' SupportedVersionV2) ''environment_set'' ''active''"
  let ?g = "\<lambda>cmds. setContent cmds (List.map (migrateCommand targets) (yn_Content cmds))"
  from assms(2) have ev: "even (length root)" "distinct (mappingKeys root)" by (simp_all add: readsRoot_def)
  from assms(3) obtain cmds where cmds: "mappingValue root ''commands'' = Some cmds" "list_all plainCommand (yn_Content cmds)"
    "mappingValue root ''<<'' = None" by (auto simp: plainRoot_def split: option.splits)
  have get: "mappingValue ?c1 k = (if k = ''version'' \<or> k = ''environment_set'' then mappingValue ?c1 k else mappingValue root k)" for k
    using ev by (simp add: mappingValue_set even_set)
  have c1: "mappingValue ?c1 ''commands'' = Some cmds" using cmds get [of "''commands''"] by simp
  with assms(1) have kind: "yn_Kind cmds = SequenceNode" and
    content: "content = deleteMappingKey (changeValue ?g ''commands'' ?c1) ''secrets''"
    by (auto simp: migrateRoot_def Let_def split: if_splits)
  have d: "distinct (mappingKeys (changeValue ?g ''commands'' ?c1))"
    using ev by (auto simp: keys_set even_set)
  have val: "mappingValue content k = (if k = ''secrets'' then None
      else if k = ''commands'' then Some (?g cmds) else mappingValue ?c1 k)" for k
    unfolding content mappingValue_delete [OF d] mappingValue_change using c1 by simp
  obtain v where v: "mappingValue ?c1 ''version'' = Some v" "plainItem v" "yn_Value v = SupportedVersionV2"
    using ev by (auto simp: mappingValue_set even_set plainItem_def strNode_def split: option.splits)
  obtain e where e: "mappingValue ?c1 ''environment_set'' = Some e" "plainItem e" "yn_Value e = ''active''"
    using ev by (auto simp: mappingValue_set even_set plainItem_def strNode_def split: option.splits)
  have plain: "list_all plainCommand (yn_Content (?g cmds))"
    using cmds(2) migrateCommand_plain(1) by (auto simp: list_all_iff)
  have before: "List.map c_Secrets (f_Commands f) = List.map commandSecrets (yn_Content cmds)"
    using assms(2) cmds kind by (simp add: readsRoot_def)
  have after: "List.map c_Secrets (f_Commands f') = List.map commandSecrets (yn_Content (?g cmds))"
    using assms(4) plain kind val [of "''commands''"] by (simp add: readsRoot_def)
  have "List.map commandSecrets (yn_Content (?g cmds)) =
      List.map (\<lambda>n. List.map (\<lambda>s. case mapGet targets s of None \<Rightarrow> s | Some target \<Rightarrow> target) (commandSecrets n)) (yn_Content cmds)"
    using cmds(2) migrateCommand_plain(2) by (auto simp: list_all_iff)
  moreover have "f_Version f' = SupportedVersionV2" "f_EnvironmentSet f' = ''active''"
    using assms(4) v e val [of "''version''"] val [of "''environment_set''"] by (simp_all add: readsRoot_def)
  moreover have "f_Secrets f' = []"
    using assms(4) val [of "''secrets''"] val [of "''<<''"] get [of "''<<''"] cmds(3) by (simp add: readsRoot_def)
  moreover have "List.map withoutSecrets (f_Commands f') = List.map withoutSecrets (f_Commands f)"
  proof -
    have "list_all aliasFree root" "list_all aliasFree content"
      using assms(3) migrateRoot_aliasFree [OF assms(1)] by (simp_all add: plainRoot_def)
    with assms(2,4) cmds kind plain val [of "''commands''"]
    have "List.map withoutSecrets (f_Commands f) = List.map (\<lambda>n. dc (commandFields n)) (yn_Content cmds)"
      "List.map withoutSecrets (f_Commands f') = List.map (\<lambda>n. dc (commandFields n)) (yn_Content (?g cmds))"
      unfolding readsRoot_def by auto
    then show ?thesis by (simp add: migrateCommand_fields)
  qed
  moreover have "otherFields f' = otherFields f"
  proof -
    have "list_all aliasFree root" "list_all aliasFree content" "mappingValue content ''<<'' = None"
      using assms(3) migrateRoot_aliasFree [OF assms(1)] val [of "''<<''"] get [of "''<<''"] by (simp_all add: plainRoot_def)
    with assms(2,4) cmds(3) have "otherFields f = dp (rootFields root)" "otherFields f' = dp (rootFields content)"
      unfolding readsRoot_def by auto
    then show ?thesis using migrateRoot_fields [OF assms(1) ev(1)] by simp
  qed
  ultimately show ?thesis
    using commands_rewritten [of "f_Commands f'" "f_Commands f"] before after
    by (cases f; cases f') (simp add: otherFields_def)
qed

lemma checkTargets_inj:
  assumes "checkTargets t xs = None" "mapInv t"
  shows "(\<forall>a d p. (a, d) \<in> set xs \<and> mapGet t (sd_Env d) = Some p \<longrightarrow> p = a) \<and>
    (\<forall>a d a' d'. (a, d) \<in> set xs \<and> (a', d') \<in> set xs \<and> sd_Env d = sd_Env d' \<longrightarrow> a = a')"
  using assms
proof (induction xs arbitrary: t)
  case (Cons x rest)
  obtain al secret where x: "x = (al, secret)" by fastforce
  let ?t = "mapPut (sd_Env secret) al t"
  have head: "\<And>p. mapGet t (sd_Env secret) = Some p \<Longrightarrow> p = al" and rest: "checkTargets ?t rest = None"
    using Cons.prems(1) x by (auto split: option.splits if_splits)
  have "mapInv ?t" using Cons.prems(2) by simp
  then have ih: "(\<forall>a d p. (a, d) \<in> set rest \<and> mapGet ?t (sd_Env d) = Some p \<longrightarrow> p = a) \<and>
    (\<forall>a d a' d'. (a, d) \<in> set rest \<and> (a', d') \<in> set rest \<and> sd_Env d = sd_Env d' \<longrightarrow> a = a')"
    using Cons.IH [OF rest] by simp
  have get: "mapGet ?t k = (if k = sd_Env secret then Some al else mapGet t k)" for k using Cons.prems(2) by simp
  have same: "a = al" if "(a, d) \<in> set rest" "sd_Env d = sd_Env secret" for a d
    using ih that get [of "sd_Env d"] by metis
  have "p = a" if "(a, d) \<in> set rest" "mapGet t (sd_Env d) = Some p" for a d p
    using ih that same [OF that(1)] get [of "sd_Env d"] head by metis
  then have "p = a" if "(a, d) \<in> set ((al, secret) # rest)" "mapGet t (sd_Env d) = Some p" for a d p
    using that head by auto
  moreover have "a = a'" if "(a, d) \<in> set ((al, secret) # rest)" "(a', d') \<in> set ((al, secret) # rest)" "sd_Env d = sd_Env d'" for a d a' d'
  proof -
    from that(1,2) consider "a = al" "d = secret" "a' = al" | "a = al" "d = secret" "(a', d') \<in> set rest"
      | "(a, d) \<in> set rest" "a' = al" "d' = secret" | "(a, d) \<in> set rest" "(a', d') \<in> set rest" by auto
    then show ?thesis using that(3) ih same by cases metis+
  qed
  ultimately show ?case unfolding x by blast
qed simp

text \<open>C33: A migrated policy is well-formed and means the same. If the YAML library keeps its contract (\<open>yamlOk\<close>) and the document of a
  version-1 policy has no merge keys and no aliases and its commands are mappings whose secrets are lists of strings (\<open>plainRoot\<close>),
  then what \<open>MigrateV1ToV2\<close> returns decodes to a valid version-2 policy on the active environment, without declarations, which is
  the old policy in all else: the same commands with the same fields, each of which names,
  in place of each alias, the entry that the alias was injected as; no two aliases became one entry,
  and every such entry is bound.\<close>

theorem migrated_policy_typed:
  assumes "yamlOk yc" "MigrateV1ToV2 yc data = Ok (out, targets)" "yc_Decode yc data = Inr f"
    and "yc_Node yc data = Inr doc" "yn_Content doc = [root]" "plainRoot (yn_Content root)"
  shows "\<exists>f'. yc_Decode yc out = Inr f' \<and> wfPolicy f' \<and>
    f' = f\<lparr>f_Version := SupportedVersionV2, f_EnvironmentSet := ''active'', f_Secrets := [],
      f_Commands := List.map (\<lambda>c. c\<lparr>c_Secrets := List.map (entryOfAlias f) (c_Secrets c)\<rparr>) (f_Commands f)\<rparr> \<and>
    inj_on (entryOfAlias f) (fst ` set (f_Secrets f)) \<and>
    (\<forall>c \<in> set (f_Commands f). \<forall>a \<in> set (c_Secrets c). \<exists>store.
      SecretBinding (Some f) a = Some (entryOfAlias f a, store) \<and>
      SecretBinding (Some f') (entryOfAlias f a) = Some (entryOfAlias f a, []))"
proof -
  from MigrateV1ToV2_Ok [OF assms(2)] assms(3-5) obtain content f' where
    f: "Parse (yc_Decode yc) data = Inr f" "f_Version f = SupportedVersionV1" "checkTargets [] (f_Secrets f) = None"
    and root: "migrateRoot (aliasTargets f) (yn_Content root) = Some content"
    and out: "yc_Encode yc (setContent doc [setContent root content]) = Inr out" "Parse (yc_Decode yc) out = Inr f'"
    by (metis Parse_Ok list.inject sum.inject(2))
  from out(2) have f': "yc_Decode yc out = Inr f'" "wfPolicy f'" by (simp_all add: Parse_Ok)
  from assms(1) obtain dc dp where yc: "\<forall>data n root f.
      (yc_Node yc data = Inr n \<or> yc_Encode yc n = Inr data) \<and> yn_Content n = [root] \<and> yc_Decode yc data = Inr f \<longrightarrow>
      readsRoot dc dp (yn_Content root) f" unfolding yamlOk_def by blast
  have reads: "readsRoot dc dp (yn_Content root) f" "readsRoot dc dp content f'"
    using yc assms(3-5) out(1) f' by (blast, metis setContent_simps(3))
  have dist: "distinct (List.map fst (f_Secrets f))" using reads(1) by (simp add: readsRoot_def)
  have get: "(case mapGet (aliasTargets f) s of None \<Rightarrow> s | Some target \<Rightarrow> target) = entryOfAlias f s" for s
    by (simp add: aliasTargets_get [OF dist] entryOfAlias_def split: option.splits)
  note new = migrateRoot_reads [OF root reads(1) assms(6) reads(2), unfolded get]
  have inj: "inj_on (entryOfAlias f) (fst ` set (f_Secrets f))"
  proof (rule inj_onI)
    fix a b assume "a \<in> fst ` set (f_Secrets f)" "b \<in> fst ` set (f_Secrets f)" and eq: "entryOfAlias f a = entryOfAlias f b"
    then obtain d d' where d: "(a, d) \<in> set (f_Secrets f)" "(b, d') \<in> set (f_Secrets f)" by auto
    with dist eq have "sd_Env d = sd_Env d'" by (simp add: entryOfAlias_def)
    with d checkTargets_inj [OF f(3)] show "a = b" by (metis mapInv_simps(1))
  qed
  have bound: "\<exists>store. SecretBinding (Some f) a = Some (entryOfAlias f a, store) \<and>
      SecretBinding (Some f') (entryOfAlias f a) = Some (entryOfAlias f a, [])"
    if c: "c \<in> set (f_Commands f)" "a \<in> set (c_Secrets c)" for c a
  proof -
    from policy_bindings [OF f(1) c] f(2) obtain s where s: "map_of (f_Secrets f) a = Some s"
      "SecretBinding (Some f) a = Some (sd_Env s, sd_Store s)"
      by (auto simp: SupportedVersionV1_def SupportedVersionV2_def)
    obtain c' where c': "c' \<in> set (f_Commands f')" "c_Secrets c' = List.map (entryOfAlias f) (c_Secrets c)"
      by (rule that [of "c\<lparr>c_Secrets := List.map (entryOfAlias f) (c_Secrets c)\<rparr>"]) (use new c in simp_all)
    with c(2) have "entryOfAlias f a \<in> set (c_Secrets c')" by simp
    from policy_bindings [OF out(2) c'(1) this] new have "SecretBinding (Some f') (entryOfAlias f a) = Some (entryOfAlias f a, [])"
      by (auto simp: new)
    with s show ?thesis by (simp add: entryOfAlias_def)
  qed
  from f' new inj bound show ?thesis by blast
qed

section \<open>A witness\<close>

definition exAliasPolicy :: policyFile where
  "exAliasPolicy =
     \<lparr>f_Version = ''1'', f_Provider = [],
      f_Commands = [\<lparr>c_ID = ''ship'', c_Argv = [''ship''], c_Env = [], c_Secrets = [''db''], c_TTL = 0, c_MaxBytes = 0,
        c_NoNetwork = False, c_AllowNetwork = False, c_WorkDir = [], c_Seccomp = None\<rparr>],
      f_EnvironmentSet = [], f_Secrets = [(''db'', \<lparr>sd_Env = ''DB_URL'', sd_Store = [], sd_Allow = [''ship''], sd_Kind = [], sd_Filename = []\<rparr>)],
      f_SeccompDefault = None, f_AuditLog = [], f_AllowProposals = False, f_RequireAgentLeases = False\<rparr>"

definition exEntryPolicy :: policyFile where
  "exEntryPolicy = exAliasPolicy\<lparr>f_Version := ''2'', f_EnvironmentSet := ''active'', f_Secrets := [],
     f_Commands := List.map (\<lambda>c. c\<lparr>c_Secrets := [''DB_URL'']\<rparr>) (f_Commands exAliasPolicy)\<rparr>"

definition exRoot :: "yamlNode list" where
  "exRoot =
     [strNode ''version'', strNode ''1'', strNode ''commands'',
      YamlNode SequenceNode ''!!seq'' [] PlainStyle []
        [YamlNode MappingNode ''!!map'' [] PlainStyle []
           [strNode ''id'', strNode ''ship'', strNode ''secrets'', YamlNode SequenceNode ''!!seq'' [] PlainStyle [] [strNode ''db'']]],
      strNode ''secrets'', YamlNode MappingNode ''!!map'' [] PlainStyle [] []]"

definition exDocument :: "yamlNode list \<Rightarrow> yamlNode" where
  "exDocument root = YamlNode DocumentNode [] [] PlainStyle [] [YamlNode MappingNode ''!!map'' [] PlainStyle [] root]"

definition exMigratedRoot :: "yamlNode list" where
  "exMigratedRoot =
     [strNode ''version'', YamlNode ScalarNode ''!!str'' ''2'' DoubleQuotedStyle [] [], strNode ''commands'',
      YamlNode SequenceNode ''!!seq'' [] PlainStyle []
        [YamlNode MappingNode ''!!map'' [] PlainStyle []
           [strNode ''id'', strNode ''ship'', strNode ''secrets'', YamlNode SequenceNode ''!!seq'' [] PlainStyle [] [strNode ''DB_URL'']]],
      strNode ''environment_set'', strNode ''active'']"

definition exCodec :: yamlCodec where
  "exCodec =
     \<lparr>yc_Decode = (\<lambda>d. if d = ''v1'' then Inr exAliasPolicy else Inr exEntryPolicy),
      yc_Node = (\<lambda>d. if d = ''v1'' then Inr (exDocument exRoot) else Inl ''unknown''),
      yc_Encode = (\<lambda>n. if n = exDocument exMigratedRoot then Inr ''v2'' else Inl ''unknown'')\<rparr>"

lemma exCodec_ok: "yamlOk exCodec"
proof -
  let ?dc = "\<lambda>fields. \<lparr>c_ID = (case mappingValue fields ''id'' of None \<Rightarrow> [] | Some v \<Rightarrow> yn_Value v), c_Argv = [''ship''], c_Env = [],
    c_Secrets = [], c_TTL = 0, c_MaxBytes = 0, c_NoNetwork = False, c_AllowNetwork = False, c_WorkDir = [], c_Seccomp = None\<rparr>"
  let ?dp = "\<lambda>_. otherFields exAliasPolicy"
  have "readsRoot ?dc ?dp exRoot exAliasPolicy"
    by (simp add: readsRoot_def exRoot_def exAliasPolicy_def strNode_def plainCommand_def plainItem_def commandSecrets_def
        commandFields_def withoutSecrets_def)
  moreover have "readsRoot ?dc ?dp exMigratedRoot exEntryPolicy"
    by (simp add: readsRoot_def exMigratedRoot_def exEntryPolicy_def exAliasPolicy_def strNode_def plainCommand_def plainItem_def
        commandSecrets_def commandFields_def withoutSecrets_def otherFields_def)
  ultimately show ?thesis
    unfolding yamlOk_def by (intro exI [of _ ?dc] exI [of _ ?dp]) (auto simp: exCodec_def exDocument_def split: if_splits)
qed

lemma exCodec_migrates: "MigrateV1ToV2 exCodec ''v1'' = Ok (''v2'', [(''db'', ''DB_URL'')])"
  by code_simp

theorem migrated_policy_typed_witness:
  "\<exists>f'. yc_Decode exCodec ''v2'' = Inr f' \<and> wfPolicy f' \<and> f_Version f' = SupportedVersionV2 \<and>
     List.map (\<lambda>c. (c_ID c, c_Argv c, c_Secrets c)) (f_Commands f') = [(''ship'', [''ship''], [''DB_URL''])]"
proof -
  have entries: "List.map (entryOfAlias exAliasPolicy) [''db''] = [''DB_URL'']" "f_Commands exAliasPolicy = [c] \<Longrightarrow>
      c_Secrets c = [''db''] \<and> c_ID c = ''ship'' \<and> c_Argv c = [''ship'']" "\<exists>c. f_Commands exAliasPolicy = [c]" for c
    by (auto simp: exAliasPolicy_def entryOfAlias_def)
  have dec: "yc_Decode exCodec ''v1'' = Inr exAliasPolicy" "yc_Node exCodec ''v1'' = Inr (exDocument exRoot)"
    by (simp_all add: exCodec_def)
  have root: "yn_Content (exDocument exRoot) = [YamlNode MappingNode ''!!map'' [] PlainStyle [] exRoot]"
    by (simp add: exDocument_def)
  have plain: "plainRoot (yn_Content (YamlNode MappingNode ''!!map'' [] PlainStyle [] exRoot))"
    by (simp add: plainRoot_def exRoot_def strNode_def plainCommand_def plainItem_def)
  from migrated_policy_typed [OF exCodec_ok exCodec_migrates dec root plain] entries show ?thesis by auto
qed

end
