(* ===== verification/Migration_Props.thy ===== *)
theory Migration_Props
  imports Migration PolicyMigrate_Props Execution_Props Envset_Props
begin

text \<open>
  What a migration keeps safe: the policy, which is the old or the new one, and the values, which are in the
  legacy stores until a cleanup.
\<close>

section \<open>What each step changes\<close>

lemma openEnvironments_frame: "openEnvironments os st = (st', r) \<Longrightarrow> \<exists>m. st' = st\<lparr>gs_Env := m\<rparr>"
  by (cases "go_Open os (gs_Env st)") (auto simp: openEnvironments_def intro: exI [of _ "gs_Env st"])

lemma Plan_frame: "Plan os p st = (st', r) \<Longrightarrow> \<exists>m. st' = st\<lparr>gs_Env := m\<rparr>"
proof -
  assume p: "Plan os p st = (st', r)"
  have same: "\<exists>m. st = st\<lparr>gs_Env := m\<rparr>" by (rule exI [of _ "gs_Env st"]) simp
  obtain st1 e where o: "openEnvironments os st = (st1, e)" by fastforce
  from p o have "st' = st \<or> st' = st1"
    by (auto simp: Plan_def split: sum.splits if_splits option.splits)
  with same openEnvironments_frame [OF o] show ?thesis by auto
qed

text \<open>Nothing but the directory of one migration changes.\<close>

definition dirsKept :: "string \<Rightarrow> migrationDir gomap \<Rightarrow> migrationDir gomap \<Rightarrow> bool" where
  "dirsKept mid ds ds' \<longleftrightarrow> (mapInv ds \<longrightarrow> mapInv ds' \<and> (\<forall>k. k \<noteq> mid \<longrightarrow> mapGet ds' k = mapGet ds k))"

lemma dirsKept_refl [simp]: "dirsKept mid ds ds"
  by (simp add: dirsKept_def)

lemma dirsKept_put [simp]: "dirsKept mid ds (mapPut mid d ds)"
  by (simp add: dirsKept_def)

lemma dirsKept_trans: "dirsKept mid a b \<Longrightarrow> dirsKept mid b c \<Longrightarrow> dirsKept mid a c"
  by (simp add: dirsKept_def)

lemma prepareDir_frame: "prepareDir os mid original st = (st', r) \<Longrightarrow>
    st' = st\<lparr>gs_Dirs := gs_Dirs st'\<rparr> \<and> dirsKept mid (gs_Dirs st) (gs_Dirs st')"
  by (auto simp: prepareDir_def Let_def split: option.splits prod.splits)

lemma prepareDir_backup: "prepareDir os mid original st = (st', None) \<Longrightarrow> mapInv (gs_Dirs st) \<Longrightarrow>
    \<exists>d. mapGet (gs_Dirs st') mid = Some d \<and> dr_Backup d = ReadData original"
  by (auto simp: prepareDir_def Let_def split: option.splits prod.splits)

lemma saveManifest_frame: "saveManifest os n mid mani st = (st', r) \<Longrightarrow>
    st' = st\<lparr>gs_Dirs := gs_Dirs st'\<rparr> \<and> dirsKept mid (gs_Dirs st) (gs_Dirs st')"
  by (auto simp: saveManifest_def split: option.splits prod.splits)

lemma saveManifest_stored: "saveManifest os n mid mani st = (st', None) \<Longrightarrow> mapInv (gs_Dirs st) \<Longrightarrow>
    \<exists>d. mapGet (gs_Dirs st) mid = Some d \<and> mapGet (gs_Dirs st') mid = Some (d\<lparr>dr_Manifest := ManifestStored mani\<rparr>)"
  by (auto simp: saveManifest_def split: option.splits prod.splits)

lemma replaceFile_cases:
  assumes "replaceFile os n data st = (st', r)"
  obtains (failed) e where "r = Some e" "st' = st"
  | (replaced) "r = None" "st' = st\<lparr>gs_Policy := ReadData data\<rparr>"
  using assms by (cases r) (auto simp: replaceFile_def split: if_splits option.splits)

definition commitResult :: "('s, 'x) migrationOS \<Rightarrow> bytes \<Rightarrow> bytes \<Rightarrow> (mapping \<times> bytes) list \<Rightarrow> manifest \<Rightarrow>
    ('s, 'x) migrationState \<Rightarrow> ('s, 'x) migrationState \<Rightarrow> migrationError + manifest \<Rightarrow> bool" where
  "commitResult os original migrated copies mani st st' r \<longleftrightarrow>
     gs_Legacy st' = gs_Legacy st \<and>
     dirsKept (mn_ID mani) (gs_Dirs st) (gs_Dirs st') \<and>
     (case r of
        Inl err \<Rightarrow> gs_Policy st' = ReadData original \<or> gs_Policy st' = ReadData migrated \<and> go_Replace os 1 \<noteq> None
      | Inr mani' \<Rightarrow> mani' = mani\<lparr>mn_Status := ''applied''\<rparr> \<and> gs_Policy st' = ReadData migrated \<and>
          (\<exists>added st1. copyValues (go_Env os) (mn_Environment mani) copies [] (gs_Env st) = (gs_Env st', Inr added) \<and>
            gs_Dirs st1 = gs_Dirs st \<and> saveManifest os 1 (mn_ID mani) mani' st1 = (st', None)))"

lemma commitMigration_result:
  assumes "commitMigration os original migrated copies mani st = (st', r)" "gs_Policy st = ReadData original"
  shows "commitResult os original migrated copies mani st st' r"
proof -
  obtain m c where c: "copyValues (go_Env os) (mn_Environment mani) copies [] (gs_Env st) = (m, c)" by fastforce
  show ?thesis
  proof (cases c)
    case (Inl err)
    with c assms(1) have "st' = st\<lparr>gs_Env := m\<rparr>" "r = Inl err" by (simp_all add: commitMigration_def Let_def)
    with assms(2) show ?thesis by (simp add: commitResult_def)
  next
    case (Inr added)
    obtain st1 e1 where r1: "replaceFile os 0 migrated (st\<lparr>gs_Env := m\<rparr>) = (st1, e1)" by fastforce
    show ?thesis
      using r1
    proof (cases rule: replaceFile_cases)
      case (failed e)
      with c Inr r1 assms(1) have "gs_Policy st' = gs_Policy st" "gs_Legacy st' = gs_Legacy st" "gs_Dirs st' = gs_Dirs st" "r = Inl (MigIO e)"
        by (auto simp: commitMigration_def Let_def)
      with assms(2) show ?thesis by (simp add: commitResult_def)
    next
      case replaced
      obtain st2 e2 where r2: "saveManifest os 1 (mn_ID mani) (mani\<lparr>mn_Status := ''applied''\<rparr>) st1 = (st2, e2)" by fastforce
      note ds = saveManifest_frame [OF r2]
      have undone: "gs_Legacy (fst (replaceFile os 1 original s)) = gs_Legacy s \<and> gs_Dirs (fst (replaceFile os 1 original s)) = gs_Dirs s \<and>
          (gs_Policy (fst (replaceFile os 1 original s)) = ReadData original \<or>
           gs_Policy (fst (replaceFile os 1 original s)) = ReadData migrated \<and> go_Replace os 1 \<noteq> None)"
        if "gs_Policy s = ReadData migrated" for s
        using that by (auto simp: replaceFile_def split: option.splits)
      show ?thesis
      proof (cases "\<exists>f. loadPolicy os 2 st1 = Inr f \<and> e2 = None")
        case True
        with c Inr r1 replaced r2 assms(1) have eq: "st' = st2" "r = Inr (mani\<lparr>mn_Status := ''applied''\<rparr>)"
          by (auto simp: commitMigration_def Let_def)
        from ds replaced have st2: "gs_Legacy st2 = gs_Legacy st" "gs_Policy st2 = ReadData migrated" "gs_Env st2 = m" "gs_Dirs st1 = gs_Dirs st"
          by (metis migrationState.select_convs migrationState.surjective migrationState.update_convs)+
        with eq c Inr r2 ds True show ?thesis by (auto simp: commitResult_def)
      next
        case False
        then obtain s err where s: "s = st1 \<or> s = st2" "gs_Policy st' = gs_Policy (fst (replaceFile os 1 original s))"
          "gs_Legacy st' = gs_Legacy (fst (replaceFile os 1 original s))" "gs_Dirs st' = gs_Dirs (fst (replaceFile os 1 original s))" "r = Inl err"
        proof (cases "loadPolicy os 2 st1")
          case (Inl err)
          show thesis by (rule that [of st1 "MigratedUnverified err"])
            (use c \<open>c = Inr added\<close> r1 replaced(1) Inl assms(1) in \<open>auto simp: commitMigration_def Let_def\<close>)
        next
          case (Inr f)
          with False obtain err where "e2 = Some err" by auto
          show thesis by (rule that [of st2 "MigIO err"])
            (use c \<open>c = Inr added\<close> r1 replaced(1) Inr r2 \<open>e2 = Some err\<close> assms(1) in \<open>auto simp: commitMigration_def Let_def\<close>)
        qed
        from ds replaced have "gs_Legacy st2 = gs_Legacy st1" "gs_Policy st2 = gs_Policy st1" "dirsKept (mn_ID mani) (gs_Dirs st1) (gs_Dirs st2)"
          by (metis migrationState.select_convs migrationState.surjective migrationState.update_convs)+
        with s(1) replaced(2) have "gs_Policy s = ReadData migrated" "gs_Legacy s = gs_Legacy st" "dirsKept (mn_ID mani) (gs_Dirs st) (gs_Dirs s)"
          by auto
        with undone s show ?thesis by (simp add: commitResult_def)
      qed
    qed
  qed
qed

section \<open>Apply\<close>

lemma recordMigration_cases:
  assumes "recordMigration os preview original migrated copies st = (st', r)"
  obtains (failed) err where "r = Inl err" "gs_Policy st' = gs_Policy st" "gs_Legacy st' = gs_Legacy st"
      "\<And>mid. migrationID os = Inr mid \<Longrightarrow> dirsKept mid (gs_Dirs st) (gs_Dirs st')" "isl (migrationID os) \<Longrightarrow> gs_Dirs st' = gs_Dirs st"
  | (recorded) mid st1 st2 where "migrationID os = Inr mid" "prepareDir os mid original st = (st1, None)"
      "saveManifest os 0 mid (preparedManifest os mid preview) st1 = (st2, None)"
      "commitMigration os original migrated copies (preparedManifest os mid preview) st2 = (st', r)"
proof (cases "migrationID os")
  case (Inl err)
  with assms show thesis by (intro failed) (auto simp: recordMigration_def)
next
  case (Inr mid)
  obtain st1 e1 where p: "prepareDir os mid original st = (st1, e1)" by fastforce
  from prepareDir_frame [OF p] have s1: "gs_Policy st1 = gs_Policy st" "gs_Legacy st1 = gs_Legacy st" "dirsKept mid (gs_Dirs st) (gs_Dirs st1)"
    by (metis migrationState.select_convs migrationState.surjective migrationState.update_convs)+
  obtain st2 e2 where s: "saveManifest os 0 mid (preparedManifest os mid preview) st1 = (st2, e2)" by fastforce
  from saveManifest_frame [OF s] have s2: "gs_Policy st2 = gs_Policy st1" "gs_Legacy st2 = gs_Legacy st1" "dirsKept mid (gs_Dirs st1) (gs_Dirs st2)"
    by (metis migrationState.select_convs migrationState.surjective migrationState.update_convs)+
  show thesis
  proof (cases "e1 = None \<and> e2 = None")
    case True
    with assms Inr p s show thesis by (intro recorded [of mid st1 st2]) (auto simp: recordMigration_def)
  next
    case False
    with assms Inr p s have ended: "st' = st1 \<or> st' = st2" and "\<exists>err. r = Inl err"
      by (auto simp: recordMigration_def split: option.splits)
    then obtain err where err: "r = Inl err" by blast
    have kept: "gs_Policy st' = gs_Policy st" "gs_Legacy st' = gs_Legacy st" "dirsKept mid (gs_Dirs st) (gs_Dirs st')"
      using ended s1 s2 dirsKept_trans [OF s1(3) s2(3)] by auto
    show thesis by (rule failed [OF err kept(1,2)]) (use kept(3) Inr in simp_all)
  qed
qed

lemma Apply_cases:
  assumes "Apply os p st = (st', r)"
  obtains (refused) err m where "r = Inl err" "st' = st\<lparr>gs_Env := m\<rparr>"
  | (recorded) st1 st2 preview original f migrated t m1 m copies where
      "Plan os p st = (st1, Inr preview)" "gs_Policy st = ReadData original" "Parse (yc_Decode (go_Codec os)) original = Inr f"
      "MigrateV1ToV2 (go_Codec os) original = Ok (migrated, t)" "openEnvironments os st1 = (st2, None)"
      "ensureSet (go_Env os) (pv_Environment preview) (gs_Env st2) = (m1, None)"
      "collectCopies os (f_EnvironmentSet f = ''active'') (pv_Environment preview) (gs_Legacy st) (pv_Mappings preview) m1 = (m, Inr copies)"
      "recordMigration os preview original migrated copies (st\<lparr>gs_Env := m\<rparr>) = (st', r)"
proof -
  obtain st1 pr where pl: "Plan os p st = (st1, pr)" by fastforce
  from Plan_frame [OF pl] obtain n1 where st1: "st1 = st\<lparr>gs_Env := n1\<rparr>" by blast
  obtain st2 e2 where op: "openEnvironments os st1 = (st2, e2)" by fastforce
  from openEnvironments_frame [OF op] st1 obtain n2 where st2: "st2 = st\<lparr>gs_Env := n2\<rparr>" by auto
  show thesis
  proof (cases pr)
    case (Inl err)
    with assms pl st1 show thesis by (intro refused) (auto simp: Apply_def)
  next
    case (Inr preview)
    show thesis
    proof (cases "readPolicy os 1 st1")
      case (ReadData original)
      then have policy: "gs_Policy st = ReadData original" using st1 by (auto simp: readPolicy_def split: option.splits)
      show thesis
      proof (cases "Parse (yc_Decode (go_Codec os)) original")
        case (Inl err)
        with assms pl Inr ReadData st1 show thesis by (intro refused) (auto simp: Apply_def)
      next
        case f: (Inr f)
        show thesis
        proof (cases "MigrateV1ToV2 (go_Codec os) original")
          case (Inl err)
          with assms pl Inr ReadData f st1 show thesis by (intro refused) (auto simp: Apply_def)
        next
          case mig: (Inr mt)
          obtain migrated t where mt: "mt = (migrated, t)" by fastforce
          obtain m1 e where en: "ensureSet (go_Env os) (pv_Environment preview) (gs_Env st2) = (m1, e)" by fastforce
          obtain m c where co: "collectCopies os (f_EnvironmentSet f = ''active'') (pv_Environment preview) (gs_Legacy st2) (pv_Mappings preview) m1 = (m, c)"
            by fastforce
          show thesis
          proof (cases "e2 = None \<and> e = None \<and> (\<exists>copies. c = Inr copies)")
            case True
            then obtain copies where "e2 = None" "e = None" "c = Inr copies" by auto
            with assms pl Inr ReadData f mig mt op en co st2 policy show thesis
              by (intro recorded [of st1 preview original f migrated t st2 m1 m copies]) (auto simp: Apply_def)
          next
            case False
            with assms pl Inr ReadData f mig mt op en co st2 have "\<exists>err. r = Inl err" "st' = st\<lparr>gs_Env := gs_Env st'\<rparr>"
              by (auto simp: Apply_def split: option.splits sum.splits)
            then show thesis using refused by blast
          qed
        qed
      qed
    qed (use assms pl Inr st1 in \<open>auto simp: Apply_def intro: refused\<close>)
  qed
qed

text \<open>C35: A migration that fails leaves the project as it was. Whatever fails in \<open>Apply\<close>, and whatever the
  failing writes leave, the legacy stores are untouched, no other migration's directory changes, and the policy is byte for byte what it was, unless
  putting it back fails as well; then it is the complete migrated policy, which parsed.\<close>

theorem migration_apply_fails_clean:
  assumes "Apply os p st = (st', Inl err)" "mapInv (gs_Dirs st)"
  shows "gs_Legacy st' = gs_Legacy st \<and>
    (\<forall>k. migrationID os \<noteq> Inr k \<longrightarrow> mapGet (gs_Dirs st') k = mapGet (gs_Dirs st) k) \<and>
    (gs_Policy st' = gs_Policy st \<or>
     (\<exists>original migrated t f. gs_Policy st = ReadData original \<and> MigrateV1ToV2 (go_Codec os) original = Ok (migrated, t) \<and>
       gs_Policy st' = ReadData migrated \<and> Parse (yc_Decode (go_Codec os)) migrated = Inr f \<and> go_Replace os 1 \<noteq> None))"
  using assms(1)
proof (cases rule: Apply_cases)
  case (refused e m)
  then show ?thesis by simp
next
  case (recorded st1 st2 preview original f migrated t m1 m copies)
  obtain f' where f': "Parse (yc_Decode (go_Codec os)) migrated = Inr f'"
    by (rule MigrateV1ToV2_Ok [OF recorded(4)])
  from recorded(8) show ?thesis
  proof (cases rule: recordMigration_cases)
    case (failed err)
    then show ?thesis using assms(2) by (cases "migrationID os") (auto simp: dirsKept_def)
  next
    case (recorded mid s1 s2)
    let ?mani = "preparedManifest os mid preview"
    have s: "gs_Policy s2 = ReadData original" "gs_Legacy s2 = gs_Legacy st" "dirsKept mid (gs_Dirs st) (gs_Dirs s2)"
      using prepareDir_frame [OF recorded(2)] saveManifest_frame [OF recorded(3)] \<open>gs_Policy st = ReadData original\<close>
        dirsKept_trans [of mid "gs_Dirs st" "gs_Dirs s1" "gs_Dirs s2"]
      by (metis migrationState.select_convs migrationState.surjective migrationState.update_convs)+
    from commitMigration_result [OF recorded(4) s(1)] have res: "gs_Legacy st' = gs_Legacy s2"
      "dirsKept mid (gs_Dirs s2) (gs_Dirs st')"
      "gs_Policy st' = ReadData original \<or> gs_Policy st' = ReadData migrated \<and> go_Replace os 1 \<noteq> None"
      by (simp_all add: commitResult_def preparedManifest_def)
    from dirsKept_trans [OF s(3) res(2)] assms(2) recorded(1) have "\<forall>k. migrationID os \<noteq> Inr k \<longrightarrow> mapGet (gs_Dirs st') k = mapGet (gs_Dirs st) k"
      by (auto simp: dirsKept_def)
    with s(2) res f' \<open>gs_Policy st = ReadData original\<close> \<open>MigrateV1ToV2 (go_Codec os) original = Ok (migrated, t)\<close>
    show ?thesis by auto
  qed
qed

section \<open>The copies\<close>

text \<open>
  What is relied on of the project's store beside \<open>readsOk\<close>: a write that reports success keeps the store in order and changes no
  other value, if it is under a valid name.  Nothing is assumed of the value that is written: a vault does not keep text that is not UTF-8.
\<close>

definition writesLocal :: "'s valueStore \<Rightarrow> ('s \<Rightarrow> bool) \<Rightarrow> ('s \<Rightarrow> string \<Rightarrow> string \<Rightarrow> bytes option) \<Rightarrow> bool" where
  "writesLocal st I view \<longleftrightarrow>
     (\<forall>scope key v vs vs'. I vs \<and> validateName key = None \<and> vst_Set st scope key v vs = (vs', None) \<longrightarrow>
        I vs' \<and> (\<forall>s k. (s, k) \<noteq> (scope, key) \<longrightarrow> view vs' s k = view vs s k)) \<and>
     (\<forall>setBytes scope key v vs vs'. vst_SetBytes st = Some setBytes \<and> I vs \<and> validateName key = None \<and>
        setBytes scope key v vs = (vs', None) \<longrightarrow>
        I vs' \<and> (\<forall>s k. (s, k) \<noteq> (scope, key) \<longrightarrow> view vs' s k = view vs s k))"

lemma writeValue_local:
  assumes "writeValue env scope entry val m = (m', None)" "writesLocal (ev_Store env) I view" "I (mg_Values m)"
    and "validateName (ee_Name entry) = None"
  shows "I (mg_Values m') \<and> (\<forall>s k. (s, k) \<noteq> (scope, ee_Name entry) \<longrightarrow> view (mg_Values m') s k = view (mg_Values m) s k)"
proof (cases "ee_Kind entry = EntryFile")
  case True
  with assms(1) obtain setBytes vs where "vst_SetBytes (ev_Store env) = Some setBytes"
    "setBytes scope (ee_Name entry) val (mg_Values m) = (vs, None)" "mg_Values m' = vs"
    by (auto simp: writeValue_def Let_def split: option.splits prod.splits)
  with assms(2-4) show ?thesis unfolding writesLocal_def by blast
next
  case False
  with assms(1) obtain vs where "vst_Set (ev_Store env) scope (ee_Name entry) val (mg_Values m) = (vs, None)" "mg_Values m' = vs"
    by (auto simp: writeValue_def Let_def split: prod.splits)
  with assms(2-4) show ?thesis unfolding writesLocal_def by blast
qed

lemma PutEntry_others:
  assumes "managerInv m" "writesLocal (ev_Store env) I view" "I (mg_Values m)" "PutEntry env e entry val m = (m', None)"
  shows "managerInv m' \<and> I (mg_Values m') \<and> mg_File m' = File (mg_Meta m') \<and>
    (mg_File m = File (mg_Meta m) \<longrightarrow> (\<forall>name. name \<noteq> ee_Name entry \<longrightarrow> heldValue env view m' e name = heldValue env view m e name))"
proof -
  let ?scope = "envScope (ev_Identity env) (loadedMeta m) e"
  from PutEntry_exact [OF assms(1,4)] obtain s s' m1 where valid: "validateName (ee_Name entry) = None"
    and w: "writeValue env ?scope (normalEntry entry) val (m\<lparr>mg_Meta := loadedMeta m\<rparr>) = (m1, None)"
    and m': "m' = m1\<lparr>mg_Meta := (loadedMeta m)\<lparr>md_Sets := mapPut e s' (md_Sets (loadedMeta m))\<rparr>,
       mg_File := File ((loadedMeta m)\<lparr>md_Sets := mapPut e s' (md_Sets (loadedMeta m))\<rparr>)\<rparr>" by metis
  have vals: "I (mg_Values m')" "\<And>s k. (s, k) \<noteq> (?scope, ee_Name entry) \<Longrightarrow> view (mg_Values m') s k = view (mg_Values m) s k"
    using writeValue_local [OF w assms(2)] assms(3) valid by (simp_all add: m')
  have scope: "envScope (ev_Identity env) (mg_Meta m') e = ?scope" by (simp add: m' envScope_def)
  have same: "loadedMeta m = mg_Meta m" if "mg_File m = File (mg_Meta m)"
    using that assms(1) by (simp add: loadedMeta_def migrateMetadata_def managerInv_def metadataVersion_def)
  have "managerInv m'" using PutEntry_inv [OF assms(1), of env e entry val] assms(4) by simp
  then show ?thesis using vals scope same by (simp add: heldValue_def) (simp add: m')
qed

lemma GetBytes_file: "GetBytes env e name m = (m', r) \<Longrightarrow> mg_File m' = mg_File m"
  by (auto simp: GetBytes_def liftGet_split Let_def split: option.splits)

lemma GetBytes_managerInv: "GetBytes env e name m = (m', r) \<Longrightarrow> managerInv m \<Longrightarrow> managerInv m'"
  using GetBytes_inv [of m env e name] by simp

text \<open>A value that was copied is the one that was read back from the store.\<close>

lemma copyValues_held:
  assumes "readsOk (ev_Store env) I view" "writesLocal (ev_Store env) I view"
    and "copyValues env e copies added m = (m', Inr added')" "managerInv m \<and> I (mg_Values m)" "distinct (List.map (\<lambda>c. mp_Entry (fst c)) copies)"
  shows "(\<forall>(item, v) \<in> set copies. heldValue env view m' e (mp_Entry item) = Some v) \<and>
    (mg_File m = File (mg_Meta m) \<longrightarrow>
      (\<forall>name. name \<notin> (\<lambda>c. mp_Entry (fst c)) ` set copies \<longrightarrow> heldValue env view m' e name = heldValue env view m e name))"
  using assms(3-5)
proof (induction copies arbitrary: added m)
  case (Cons c copies)
  obtain item v where c: "c = (item, v)" by fastforce
  obtain m1 err where put: "PutEntry env e (copyEntry item) v m = (m1, err)" by fastforce
  obtain m2 got where get: "GetBytes env e (mp_Entry item) m1 = (m2, got)" by fastforce
  from Cons.prems(1) c put get have none: "err = None" and got: "got = Inr v"
    and rest: "copyValues env e copies (added @ [mp_Entry item]) m2 = (m', Inr added')"
    by (auto split: option.splits if_splits)
  have name: "ee_Name (copyEntry item) = mp_Entry item" by (simp add: copyEntry_def)
  from Cons.prems(2) have inv: "managerInv m" "I (mg_Values m)" by simp_all
  note p = PutEntry_others [OF inv(1) assms(2) inv(2) put [unfolded none], unfolded name]
  have own: "heldValue env view m1 e (mp_Entry item) = Some v" using GetBytes_held(2) [OF assms(1) _ get] p got by simp
  have sm: "sameManager I view m1 m2" using GetBytes_held(1) [OF assms(1) _ get] p by simp
  note same = sameManager_read(3) [OF sm]
  have m2: "managerInv m2 \<and> I (mg_Values m2)" "mg_File m2 = File (mg_Meta m2)"
    using GetBytes_managerInv [OF get] GetBytes_file [OF get] sm p by (simp_all add: sameManager_def)
  from Cons.IH [OF rest m2(1)] Cons.prems(3) m2(2)
  have ih: "\<forall>(item, v) \<in> set copies. heldValue env view m' e (mp_Entry item) = Some v"
    "name \<notin> (\<lambda>c. mp_Entry (fst c)) ` set copies \<Longrightarrow> heldValue env view m' e name = heldValue env view m2 e name" for name
    by auto
  have "heldValue env view m' e (mp_Entry item) = Some v"
    using ih(2) [of "mp_Entry item"] Cons.prems(3) c own same [of env e "mp_Entry item"] by auto
  moreover have "heldValue env view m' e name = heldValue env view m e name"
    if "mg_File m = File (mg_Meta m)" "name \<notin> (\<lambda>c. mp_Entry (fst c)) ` set (c # copies)" for name
    using that ih(2) [of name] c p same [of env e name] by auto
  ultimately show ?case using ih(1) c by auto
qed simp

lemma collectCopies_legacy:
  assumes "collectCopies os False e x items m = (m', Inr copies)"
  shows "m' = m \<and> List.map fst copies = items \<and> (\<forall>(item, v) \<in> set copies. go_LegacyGet os (mp_Store item) (mp_Alias item) x = Inr v)"
  using assms
proof (induction items arbitrary: copies m)
  case (Cons item items)
  from Cons.prems obtain v m1 cs where g: "go_LegacyGet os (mp_Store item) (mp_Alias item) x = Inr v"
    "collectCopies os False e x items m = (m1, Inr cs)" "m' = m1" "copies = (item, v) # cs"
    by (auto split: if_splits option.splits sum.splits prod.splits)
  from Cons.IH [OF g(2) [folded g(3)]] g show ?case by auto
qed simp

lemma collectCopies_active:
  assumes "readsOk (ev_Store (go_Env os)) I view" "collectCopies os True e x items m = (m', Inr copies)" "I (mg_Values m)"
  shows "copies = [] \<and> sameManager I view m m' \<and> (\<forall>item \<in> set items. heldValue (go_Env os) view m e (mp_Entry item) \<noteq> None)"
  using assms(2,3)
proof (induction items arbitrary: m)
  case (Cons item items)
  let ?r = "\<lambda>en. if ee_Kind en = EntryFile then GetBytes (go_Env os) e (mp_Entry item) m else GetValue (go_Env os) e (mp_Entry item) m"
  from Cons.prems(1) obtain en m1 v where g: "EntryOf m e (mp_Entry item) = Some en" "?r en = (m1, Inr v)"
    "collectCopies os True e x items m1 = (m', Inr copies)"
    by (auto split: option.splits sum.splits prod.splits if_splits)
  have one: "sameManager I view m m1" "heldValue (go_Env os) view m e (mp_Entry item) = Some v"
    using g(2) GetBytes_held [OF assms(1) Cons.prems(2)] GetValue_held [OF assms(1) Cons.prems(2)] by (auto split: if_splits)
  from Cons.IH [OF g(3) sameManager_inv [OF one(1)]] one sameManager_trans [OF one(1)] sameManager_read(3) [OF one(1)] show ?case by auto
qed (simp add: sameManager_def)

section \<open>What a successful migration leaves\<close>

definition migrationApplied :: "('s, 'x) migrationOS \<Rightarrow> ('s \<Rightarrow> string \<Rightarrow> string \<Rightarrow> bytes option) \<Rightarrow> ('s, 'x) migrationState \<Rightarrow>
    ('s, 'x) migrationState \<Rightarrow> manifest \<Rightarrow> bool" where
  "migrationApplied os view st st' mani \<longleftrightarrow>
     (\<exists>original f migrated t d.
        gs_Policy st = ReadData original \<and> Parse (yc_Decode (go_Codec os)) original = Inr f \<and>
        MigrateV1ToV2 (go_Codec os) original = Ok (migrated, t) \<and> gs_Policy st' = ReadData migrated \<and> gs_Legacy st' = gs_Legacy st \<and>
        mapGet (gs_Dirs st') (mn_ID mani) = Some d \<and> dr_Backup d = ReadData original \<and> dr_Manifest d = ManifestStored mani \<and>
        mn_Status mani = ''applied'' \<and> migrationID os = Inr (mn_ID mani) \<and>
        (\<forall>(name, decl) \<in> set (f_Secrets f). \<exists>v. heldValue (go_Env os) view (gs_Env st') (mn_Environment mani) (sd_Env decl) = Some v \<and>
           (f_EnvironmentSet f \<noteq> ''active'' \<longrightarrow> go_LegacyGet os (sd_Store decl) name (gs_Legacy st) = Inr v)))"

lemma Plan_Ok:
  assumes "Plan os p st = (st', Inr preview)" "gs_Policy st = ReadData original" "Parse (yc_Decode (go_Codec os)) original = Inr f"
  shows "pv_Mappings preview = planMappings f"
proof -
  obtain path g where "go_Abs os p = Inr path" and g: "loadPolicy os 0 st = Inr g"
    using assms(1) by (auto simp: Plan_def split: sum.splits)
  with assms(1) have "pv_Mappings preview = planMappings g"
    by (auto simp: Plan_def split: sum.splits if_splits prod.splits option.splits)
  moreover have "g = f" using g assms(2,3) by (auto simp: loadPolicy_def readPolicy_def Load_def split: option.splits)
  ultimately show ?thesis by simp
qed

lemma distinct_sort_key: "distinct (List.map g (sort_key k xs)) = distinct (List.map g xs)"
  by (simp add: distinct_map)

lemma planMappings_entries:
  assumes "checkTargets [] (f_Secrets f) = None" "distinct (List.map fst (f_Secrets f))"
  shows "distinct (List.map mp_Entry (planMappings f))"
proof -
  have inj: "\<forall>a d a' d'. (a, d) \<in> set (f_Secrets f) \<and> (a', d') \<in> set (f_Secrets f) \<and> sd_Env d = sd_Env d' \<longrightarrow> a = a'"
    using checkTargets_inj [OF assms(1)] by simp
  have "inj_on (\<lambda>x. sd_Env (snd x)) (set (f_Secrets f))"
  proof (rule inj_onI)
    fix x y assume xy: "x \<in> set (f_Secrets f)" "y \<in> set (f_Secrets f)" "sd_Env (snd x) = sd_Env (snd y)"
    with inj have "fst x = fst y" by (metis prod.collapse)
    with xy assms(2) show "x = y" by (metis eq_key_imp_eq_value prod.collapse)
  qed
  moreover have "distinct (f_Secrets f)" using assms(2) by (simp add: distinct_map)
  ultimately have "distinct (List.map (\<lambda>x. sd_Env (snd x)) (f_Secrets f))" by (simp add: distinct_map)
  then show ?thesis by (simp add: planMappings_def distinct_sort_key o_def aliasMapping_def case_prod_beta)
qed

lemma ensureSet_inv: "ensureSet env name m = (m', e) \<Longrightarrow> managerInv m \<Longrightarrow> managerInv m'"
  using CreateEnv_inv [of m env name False 0] by (auto simp: ensureSet_def Ensure_def split: if_splits)

lemma ensureSet_values: "ensureSet env name m = (m', e) \<Longrightarrow> mg_Values m' = mg_Values m"
  by (auto simp: ensureSet_def Ensure_def CreateEnv_def createSet_def updateMeta_def updateCommit_def Let_def
      split: if_splits option.splits metadataFile.splits sum.splits)

text \<open>What a successful \<open>Apply\<close> did: it copied the values, and then wrote the policy and the manifest beside the backup.\<close>

lemma Apply_done:
  assumes "Apply os p st = (st', Ok mani)" "mapInv (gs_Dirs st)"
  obtains original f migrated t d st1 st2 preview m1 m copies added where
    "gs_Policy st = ReadData original" "Parse (yc_Decode (go_Codec os)) original = Inr f"
    "MigrateV1ToV2 (go_Codec os) original = Ok (migrated, t)" "gs_Policy st' = ReadData migrated" "gs_Legacy st' = gs_Legacy st"
    "mapGet (gs_Dirs st') (mn_ID mani) = Some d" "dr_Backup d = ReadData original" "dr_Manifest d = ManifestStored mani"
    "mn_Status mani = ''applied''" "migrationID os = Inr (mn_ID mani)"
    "Plan os p st = (st1, Inr preview)" "mn_Environment mani = pv_Environment preview"
    "openEnvironments os st1 = (st2, None)" "ensureSet (go_Env os) (pv_Environment preview) (gs_Env st2) = (m1, None)"
    "collectCopies os (f_EnvironmentSet f = ''active'') (pv_Environment preview) (gs_Legacy st) (pv_Mappings preview) m1 = (m, Inr copies)"
    "copyValues (go_Env os) (pv_Environment preview) copies [] m = (gs_Env st', Inr added)"
  using assms(1)
proof (cases rule: Apply_cases)
  case (recorded st1 st2 preview original f migrated t m1 m copies)
  note run = recorded
  from run(8) show thesis
  proof (cases rule: recordMigration_cases)
    case (recorded mid s1 s2)
    let ?mani = "preparedManifest os mid preview"
    have s1: "s1 = st\<lparr>gs_Env := m, gs_Dirs := gs_Dirs s1\<rparr>" "mapInv (gs_Dirs s1)"
      using prepareDir_frame [OF recorded(2)] assms(2) by (auto simp: dirsKept_def)
    have s2: "s2 = s1\<lparr>gs_Dirs := gs_Dirs s2\<rparr>" "mapInv (gs_Dirs s2)"
      using saveManifest_frame [OF recorded(3)] s1(2) by (auto simp: dirsKept_def)
    have s: "gs_Policy s2 = ReadData original" "gs_Legacy s2 = gs_Legacy st" "gs_Env s2 = m"
      using s1(1) s2(1) run(2) by (metis migrationState.select_convs migrationState.surjective migrationState.update_convs)+
    from commitMigration_result [OF recorded(4) s(1)] obtain added s3 where res: "gs_Legacy st' = gs_Legacy st"
      "mani = ?mani\<lparr>mn_Status := ''applied''\<rparr>" "gs_Policy st' = ReadData migrated"
      "copyValues (go_Env os) (pv_Environment preview) copies [] m = (gs_Env st', Inr added)"
      "gs_Dirs s3 = gs_Dirs s2" "saveManifest os 1 mid mani s3 = (st', None)"
      by (auto simp: commitResult_def s preparedManifest_def)
    obtain d where d: "mapGet (gs_Dirs s1) mid = Some d" "dr_Backup d = ReadData original"
      using prepareDir_backup [OF recorded(2)] assms(2) by auto
    obtain d2 where d2: "mapGet (gs_Dirs s2) mid = Some d2" "dr_Backup d2 = ReadData original"
      using saveManifest_stored [OF recorded(3) s1(2)] d by auto
    obtain d3 where d3: "mapGet (gs_Dirs st') mid = Some d3" "dr_Backup d3 = ReadData original" "dr_Manifest d3 = ManifestStored mani"
      using saveManifest_stored [OF res(6)] res(5) s2(2) d2 by auto
    have mani: "mn_ID mani = mid" "mn_Status mani = ''applied''" "mn_Environment mani = pv_Environment preview"
      by (simp_all add: res(2) preparedManifest_def)
    show thesis
      by (rule that [OF run(2-4) res(3,1) d3(1) [folded mani(1)] d3(2,3) mani(2) recorded(1) [folded mani(1)] run(1) mani(3) run(5-7) res(4)])
  qed simp
qed simp

lemma Apply_Ok:
  assumes "Apply os p st = (st', Ok mani)" "yamlOk (go_Codec os)"
    and "readsOk (ev_Store (go_Env os)) I view" "writesLocal (ev_Store (go_Env os)) I view"
    and "\<forall>m m'. go_Open os m = Inr m' \<longrightarrow> managerInv m' \<and> I (mg_Values m')" "mapInv (gs_Dirs st)"
  shows "migrationApplied os view st st' mani"
  using assms(1,6)
proof (rule Apply_done)
  fix original f migrated t d st1 st2 preview m1 m copies added
  assume old: "gs_Policy st = ReadData original" "Parse (yc_Decode (go_Codec os)) original = Inr f"
      "MigrateV1ToV2 (go_Codec os) original = Ok (migrated, t)"
    and new: "gs_Policy st' = ReadData migrated" "gs_Legacy st' = gs_Legacy st"
      "mapGet (gs_Dirs st') (mn_ID mani) = Some d" "dr_Backup d = ReadData original" "dr_Manifest d = ManifestStored mani"
      "mn_Status mani = ''applied''" "migrationID os = Inr (mn_ID mani)"
    and plan: "Plan os p st = (st1, Inr preview)" "mn_Environment mani = pv_Environment preview"
    and opened: "openEnvironments os st1 = (st2, None)" "ensureSet (go_Env os) (pv_Environment preview) (gs_Env st2) = (m1, None)"
    and collected: "collectCopies os (f_EnvironmentSet f = ''active'') (pv_Environment preview) (gs_Legacy st) (pv_Mappings preview) m1 = (m, Inr copies)"
    and copied: "copyValues (go_Env os) (pv_Environment preview) copies [] m = (gs_Env st', Inr added)"
  from opened(1) assms(5) have "managerInv (gs_Env st2) \<and> I (mg_Values (gs_Env st2))"
    by (auto simp: openEnvironments_def split: sum.splits)
  with ensureSet_inv [OF opened(2)] ensureSet_values [OF opened(2)] have inv1: "managerInv m1" "I (mg_Values m1)" by simp_all
  have maps: "pv_Mappings preview = planMappings f" by (rule Plan_Ok [OF plan(1) old(1,2)])
  obtain fx where fx: "Parse (yc_Decode (go_Codec os)) original = Inr fx" "checkTargets [] (f_Secrets fx) = None"
    "distinct (List.map fst (f_Secrets fx))"
  proof (rule MigrateV1ToV2_Ok [OF old(3)])
    fix f2 doc root content f3
    assume a: "Parse (yc_Decode (go_Codec os)) original = Inr f2" "checkTargets [] (f_Secrets f2) = None"
      "yc_Node (go_Codec os) original = Inr doc" "yn_Content doc = [root]"
    with assms(2) obtain dc dp where "readsRoot dc dp (yn_Content root) f2" unfolding yamlOk_def by (metis Parse_Ok)
    with a that show thesis by (auto simp: readsRoot_def)
  qed
  with old(2) have targets: "checkTargets [] (f_Secrets f) = None" "distinct (List.map fst (f_Secrets f))" by auto
  have held: "\<exists>v. heldValue (go_Env os) view (gs_Env st') (pv_Environment preview) (mp_Entry item) = Some v \<and>
      (f_EnvironmentSet f \<noteq> ''active'' \<longrightarrow> go_LegacyGet os (mp_Store item) (mp_Alias item) (gs_Legacy st) = Inr v)"
    if item: "item \<in> set (planMappings f)" for item
  proof (cases "f_EnvironmentSet f = ''active''")
    case True
    with collected maps collectCopies_active [OF assms(3) _ inv1(2)] have a: "copies = []" "sameManager I view m1 m"
      "heldValue (go_Env os) view m1 (pv_Environment preview) (mp_Entry item) \<noteq> None" using item by auto
    with copied have "gs_Env st' = m" by simp
    with a(3) True show ?thesis using sameManager_read(3) [OF a(2)] by auto
  next
    case False
    with collected maps have col: "collectCopies os False (pv_Environment preview) (gs_Legacy st) (planMappings f) m1 = (m, Inr copies)" by simp
    note c = collectCopies_legacy [OF col]
    have dist: "distinct (List.map (\<lambda>c. mp_Entry (fst c)) copies)"
      using planMappings_entries [OF targets] c by (metis (no_types, lifting) list.map_comp map_eq_conv o_apply)
    from c have "m = m1" by simp
    with inv1 have "managerInv m \<and> I (mg_Values m)" by simp
    from copyValues_held [OF assms(3,4) copied this dist] have h: "\<forall>(item, v) \<in> set copies.
      heldValue (go_Env os) view (gs_Env st') (pv_Environment preview) (mp_Entry item) = Some v" by blast
    from c item have "item \<in> fst ` set copies" by (metis list.set_map)
    then obtain v where "(item, v) \<in> set copies" by auto
    with h c show ?thesis by fastforce
  qed
  have "\<exists>v. heldValue (go_Env os) view (gs_Env st') (mn_Environment mani) (sd_Env decl) = Some v \<and>
      (f_EnvironmentSet f \<noteq> ''active'' \<longrightarrow> go_LegacyGet os (sd_Store decl) name (gs_Legacy st) = Inr v)"
    if "(name, decl) \<in> set (f_Secrets f)" for name decl
  proof -
    have "aliasMapping f (name, decl) \<in> set (planMappings f)" using that by (simp add: planMappings_def)
    from held [OF this] plan(2) show ?thesis by (simp add: aliasMapping_def)
  qed
  with old new show ?thesis
    unfolding migrationApplied_def by (intro exI [of _ original] exI [of _ f] exI [of _ migrated] exI [of _ t] exI [of _ d]) auto
qed

text \<open>C34: A successful migration loses no secret. If the YAML library keeps its contract (\<open>yamlOk\<close>), the environments' store reads back
  what it holds, its writes change no other value and the manager that is opened is in order, then after
  \<open>Apply\<close> succeeds the policy is the migration of what it was, the old policy is kept beside a
  manifest marked applied, every alias of the old policy has a value in the environment under the entry that replaces it,
  the very value that the legacy store holds where it was copied, and the legacy stores are untouched. Nothing is assumed of
  how the store keeps a value that is written: the copy is right because \<open>Apply\<close> reads it back.\<close>

theorem migration_apply_complete:
  assumes "Apply os p st = (st', Ok mani)" "yamlOk (go_Codec os)"
    and "readsOk (ev_Store (go_Env os)) I view" "writesLocal (ev_Store (go_Env os)) I view"
    and "\<forall>m m'. go_Open os m = Inr m' \<longrightarrow> managerInv m' \<and> I (mg_Values m')" "mapInv (gs_Dirs st)"
  shows "migrationApplied os view st st' mani"
  by (rule Apply_Ok [OF assms])

section \<open>Rollback and cleanup\<close>

lemma loadMigration_dir: "loadMigration os mid st = Inr (d, mani) \<Longrightarrow>
    mapGet (gs_Dirs st) (mn_ID mani) = Some d \<and> dr_Manifest d = ManifestStored mani"
  by (auto simp: loadMigration_def Let_def split: if_splits option.splits manifestFile.splits)

lemma finishMigration_frame: "finishMigration os status mani st = (st', r) \<Longrightarrow>
    gs_Policy st' = gs_Policy st \<and> gs_Legacy st' = gs_Legacy st \<and> gs_Env st' = gs_Env st"
proof -
  assume f: "finishMigration os status mani st = (st', r)"
  obtain st1 e where s: "saveManifest os 0 (mn_ID mani) (mani\<lparr>mn_Status := status\<rparr>) st = (st1, e)" by fastforce
  with f have "st' = st1" by (auto simp: finishMigration_def split: option.splits)
  with saveManifest_frame [OF s] show ?thesis
    by (metis migrationState.select_convs migrationState.surjective migrationState.update_convs)
qed

lemma restorePolicy_cases:
  assumes "restorePolicy os d st = (st', r)"
  obtains (kept) e where "r = Some e" "st' = st"
  | (restored) backup where "dr_Backup d = ReadData backup" "st' = st\<lparr>gs_Policy := ReadData backup\<rparr>"
proof (cases "dr_Backup d")
  case (ReadData backup)
  obtain st1 e where rep: "replaceFile os 0 backup st = (st1, e)" by fastforce
  then show thesis
  proof (cases rule: replaceFile_cases)
    case (failed x)
    with assms ReadData rep show thesis by (intro kept) (auto simp: restorePolicy_def)
  next
    case replaced
    with assms ReadData rep have "st' = st\<lparr>gs_Policy := ReadData backup\<rparr>"
      by (auto simp: restorePolicy_def split: sum.splits)
    with ReadData show thesis by (rule restored)
  qed
qed (use assms in \<open>auto simp: restorePolicy_def intro: kept\<close>)

lemma Rollback_effect:
  assumes "Rollback os p mid st = (st', r)"
  shows "gs_Legacy st' = gs_Legacy st \<and>
    ((\<exists>err. r = Inl err) \<and> gs_Policy st' = gs_Policy st \<or>
     (\<exists>d mani backup. loadMigration os mid st = Inr (d, mani) \<and> mn_Status mani = ''applied'' \<and> dr_Backup d = ReadData backup \<and>
       gs_Policy st' = ReadData backup))"
proof -
  consider (refused) err where "st' = st" "r = Inl err"
    | (going) d mani where "loadMigration os mid st = Inr (d, mani)" "mn_Status mani = ''applied''"
    using assms by (auto simp: Rollback_def split: sum.splits if_splits)
  then show ?thesis
  proof cases
    case refused
    then show ?thesis by simp
  next
    case going
    obtain path where path: "go_Abs os p = Inr path \<or> st' = st \<and> (\<exists>err. r = Inl err)"
      using assms by (auto simp: Rollback_def split: sum.splits)
    obtain st1 e1 where re: "restorePolicy os d st = (st1, e1)" by fastforce
    obtain st2 e2 where op: "openEnvironments os st1 = (st2, e2)" by fastforce
    obtain m e3 where rm: "removeCopied (go_Env os) (mn_Environment mani) (mn_Mappings mani) (gs_Env st2) = (m, e3)" by fastforce
    obtain st3 r3 where fi: "finishMigration os ''rolled_back'' mani (st2\<lparr>gs_Env := m\<rparr>) = (st3, r3)" by fastforce
    note frame = finishMigration_frame [OF fi] openEnvironments_frame [OF op]
    have states: "st' = st \<and> (\<exists>err. r = Inl err) \<or> st' \<in> {st1, st2, st2\<lparr>gs_Env := m\<rparr>, st3} \<and> (e1 \<noteq> None \<longrightarrow> st' = st1 \<and> (\<exists>err. r = Inl err))"
      using assms going re op rm fi path by (auto simp: Rollback_def split: option.splits sum.splits)
    have same: "gs_Policy s = gs_Policy st1 \<and> gs_Legacy s = gs_Legacy st1" if "s \<in> {st1, st2, st2\<lparr>gs_Env := m\<rparr>, st3}" for s
      using that frame by auto
    from re show ?thesis
    proof (cases rule: restorePolicy_cases)
      case (kept e)
      with states show ?thesis by auto
    next
      case (restored backup)
      then have eff: "gs_Policy st1 = ReadData backup" "gs_Legacy st1 = gs_Legacy st" by simp_all
      from states show ?thesis
      proof
        assume "st' = st \<and> (\<exists>err. r = Inl err)"
        then show ?thesis by simp
      next
        assume "st' \<in> {st1, st2, st2\<lparr>gs_Env := m\<rparr>, st3} \<and> (e1 \<noteq> None \<longrightarrow> st' = st1 \<and> (\<exists>err. r = Inl err))"
        then have "st' \<in> {st1, st2, st2\<lparr>gs_Env := m\<rparr>, st3}" by (rule conjunct1)
        from same [OF this] have "gs_Policy st' = ReadData backup" "gs_Legacy st' = gs_Legacy st" by (simp_all only: eff)
        with going restored(1) show ?thesis by blast
      qed
    qed
  qed
qed

lemma loadMigration_id: "loadMigration os mid st = Inr (d, mani) \<Longrightarrow> mid \<noteq> [] \<Longrightarrow> mn_ID mani = mid"
  by (auto simp: loadMigration_def Let_def split: if_splits option.splits manifestFile.splits)

text \<open>C36: A migration can be taken back. If \<open>Apply\<close> succeeded (on a project whose migrations have distinct IDs) and the
  migration's directory is still as it left it, then a \<open>Rollback\<close> of it
  that succeeds, at any later time and whatever else has changed, makes the policy byte for byte what it was before the migration
  and deletes nothing from the legacy stores, of which \<open>Apply\<close> had deleted nothing.\<close>

theorem migration_rollback_restores:
  assumes "Apply os p st = (st1, Ok mani)" "mapInv (gs_Dirs st)"
    and "mapGet (gs_Dirs later) (mn_ID mani) = mapGet (gs_Dirs st1) (mn_ID mani)"
    and "Rollback os' p' (mn_ID mani) later = (st2, Ok mani')"
  shows "gs_Policy st2 = gs_Policy st \<and> gs_Legacy st2 = gs_Legacy later \<and> gs_Legacy st1 = gs_Legacy st"
  using assms(1,2)
proof (rule Apply_done)
  fix original d
  assume applied: "gs_Policy st = ReadData original" "gs_Legacy st1 = gs_Legacy st"
    "mapGet (gs_Dirs st1) (mn_ID mani) = Some d" "dr_Backup d = ReadData original" "migrationID os = Inr (mn_ID mani)"
  then have "mn_ID mani \<noteq> []" by (auto simp: migrationID_def split: sum.splits)
  from Rollback_effect [OF assms(4)] obtain d' mani'' backup where r: "gs_Legacy st2 = gs_Legacy later"
    "loadMigration os' (mn_ID mani) later = Inr (d', mani'')" "dr_Backup d' = ReadData backup" "gs_Policy st2 = ReadData backup"
    by auto
  with loadMigration_dir [OF r(2)] loadMigration_id [OF r(2) \<open>mn_ID mani \<noteq> []\<close>] applied assms(3) have "backup = original" by simp
  with applied r show ?thesis by simp
qed

lemma loadMigration_cong: "gs_Dirs st' = gs_Dirs st \<Longrightarrow> loadMigration os mid st' = loadMigration os mid st"
  by (simp only: loadMigration_def)

lemma loadMigration_error: "loadMigration os mid st = Inl err \<Longrightarrow> \<forall>a e. err \<noteq> LegacyDelete a e"
  by (auto simp: loadMigration_def Let_def split: if_splits option.splits manifestFile.splits)

lemma Cleanup_effect:
  assumes "Cleanup os p mid st = (st', r)"
  shows "gs_Policy st' = gs_Policy st \<and> gs_Env st' = gs_Env st \<and>
    (st' = st \<and> (\<exists>err. r = Inl err \<and> (\<forall>a e. err \<noteq> LegacyDelete a e)) \<or>
     (\<exists>d mani f x e. loadMigration os mid st = Inr (d, mani) \<and> mn_Status mani = ''applied'' \<and> loadPolicy os 0 st = Inr f \<and>
       UsesEnvironmentEntries (Some f) \<and> deleteAliases os (mn_Mappings mani) (gs_Legacy st) = (x, e) \<and> gs_Legacy st' = x \<and>
       (e \<noteq> None \<longrightarrow> gs_Dirs st' = gs_Dirs st \<and> r = Inl (the e)) \<and>
       (e = None \<longrightarrow> finishMigration os ''cleaned'' mani (st\<lparr>gs_Legacy := x\<rparr>) = (st', r))))"
proof -
  consider (refused) err where "st' = st" "r = Inl err" "\<forall>a e. err \<noteq> LegacyDelete a e"
    | (going) path d mani f where "go_Abs os p = Inr path" "loadMigration os mid st = Inr (d, mani)" "mn_Status mani = ''applied''"
        "loadPolicy os 0 st = Inr f" "UsesEnvironmentEntries (Some f)"
    using assms by (auto simp: Cleanup_def dest: loadMigration_error split: sum.splits if_splits)
  then show ?thesis
  proof cases
    case refused
    then show ?thesis by simp
  next
    case going
    obtain x e where del: "deleteAliases os (mn_Mappings mani) (gs_Legacy st) = (x, e)" by fastforce
    show ?thesis
    proof (cases e)
      case (Some err)
      with assms going del have "st' = st\<lparr>gs_Legacy := x\<rparr>" "r = Inl err" by (simp_all add: Cleanup_def)
      with going del Some show ?thesis by auto
    next
      case None
      with assms going del have fin: "finishMigration os ''cleaned'' mani (st\<lparr>gs_Legacy := x\<rparr>) = (st', r)" by (simp add: Cleanup_def)
      with finishMigration_frame [OF fin] going del None show ?thesis by auto
    qed
  qed
qed

text \<open>Legacy values are deleted only by a cleanup, and only when they are no longer needed. \<open>Cleanup\<close> touches the legacy
  stores only if the migration is applied and the policy as it is now uses environment entries; it
  changes neither the policy nor the environment; after it succeeds no rollback and no cleanup of that
  migration does anything.\<close>

lemma migration_cleanup_guarded:
  assumes "Cleanup os p mid st = (st', r)" "mid \<noteq> []" "mapInv (gs_Dirs st)"
  shows "gs_Policy st' = gs_Policy st \<and> gs_Env st' = gs_Env st \<and>
    (gs_Legacy st' \<noteq> gs_Legacy st \<longrightarrow> (\<exists>d mani f. loadMigration os mid st = Inr (d, mani) \<and> mn_Status mani = ''applied'' \<and>
      loadPolicy os 0 st = Inr f \<and> f_Version f = SupportedVersionV2)) \<and>
    ((\<exists>mani. r = Inr mani) \<longrightarrow> (\<forall>os' p' later. mapGet (gs_Dirs later) mid = mapGet (gs_Dirs st') mid \<longrightarrow>
      (\<exists>err. Rollback os' p' mid later = (later, Inl err)) \<and> (\<exists>err. Cleanup os' p' mid later = (later, Inl err))))"
proof -
  note eff = Cleanup_effect [OF assms(1)]
  have final: "(\<exists>err. Rollback os' p' mid later = (later, Inl err)) \<and> (\<exists>err. Cleanup os' p' mid later = (later, Inl err))"
    if r: "r = Inr mani'" and later: "mapGet (gs_Dirs later) mid = mapGet (gs_Dirs st') mid" for mani' os' p' later
  proof -
    from eff r obtain d mani x where c: "loadMigration os mid st = Inr (d, mani)" "finishMigration os ''cleaned'' mani (st\<lparr>gs_Legacy := x\<rparr>) = (st', r)"
      by auto
    have mid: "mn_ID mani = mid" by (rule loadMigration_id [OF c(1) assms(2)])
    with c(2) r have "saveManifest os 0 mid (mani\<lparr>mn_Status := ''cleaned''\<rparr>) (st\<lparr>gs_Legacy := x\<rparr>) = (st', None)"
      by (auto simp: finishMigration_def split: prod.splits option.splits)
    from saveManifest_stored [OF this] assms(3) obtain d' where "mapGet (gs_Dirs st') mid = Some d'"
      "dr_Manifest d' = ManifestStored (mani\<lparr>mn_Status := ''cleaned''\<rparr>)" by auto
    with later have status: "mn_Status mani2 \<noteq> ''applied''" if "loadMigration os' mid later = Inr (d2, mani2)" for d2 mani2
      using loadMigration_dir [OF that] loadMigration_id [OF that assms(2)] by auto
    show ?thesis
    proof (cases "go_Abs os' p'")
      case (Inr path)
      show ?thesis
      proof (cases "loadMigration os' mid later")
        case (Inl err)
        with Inr show ?thesis by (simp add: Rollback_def Cleanup_def)
      next
        case l: (Inr dm)
        obtain d2 mani2 where "dm = (d2, mani2)" by fastforce
        with l status Inr show ?thesis by (simp add: Rollback_def Cleanup_def)
      qed
    qed (simp add: Rollback_def Cleanup_def)
  qed
  from eff have "gs_Policy st' = gs_Policy st \<and> gs_Env st' = gs_Env st" by blast
  moreover have "gs_Legacy st' \<noteq> gs_Legacy st \<Longrightarrow> \<exists>d mani f. loadMigration os mid st = Inr (d, mani) \<and> mn_Status mani = ''applied'' \<and>
      loadPolicy os 0 st = Inr f \<and> f_Version f = SupportedVersionV2"
    using eff by (auto simp: UsesEnvironmentEntries_def)
  ultimately show ?thesis using final by blast
qed

text \<open>
  A cleanup that fails at an alias has deleted the aliases before it, and leaves the migration applied: it can still be
  rolled back, which deletes the copies of those values.
\<close>

lemma cleanup_failed_stays_applied:
  assumes "Cleanup os p mid st = (st', Inl (LegacyDelete a err))"
  shows "loadMigration os mid st' = loadMigration os mid st \<and> (\<exists>d mani x. loadMigration os mid st = Inr (d, mani) \<and>
    mn_Status mani = ''applied'' \<and> deleteAliases os (mn_Mappings mani) (gs_Legacy st) = (x, Some (LegacyDelete a err)) \<and> gs_Legacy st' = x)"
proof -
  from Cleanup_effect [OF assms] obtain d mani x e where c: "loadMigration os mid st = Inr (d, mani)" "mn_Status mani = ''applied''"
    "deleteAliases os (mn_Mappings mani) (gs_Legacy st) = (x, e)" "gs_Legacy st' = x" "e \<noteq> None \<longrightarrow> gs_Dirs st' = gs_Dirs st \<and> LegacyDelete a err = the e"
    "e = None \<longrightarrow> finishMigration os ''cleaned'' mani (st\<lparr>gs_Legacy := x\<rparr>) = (st', Inl (LegacyDelete a err))"
    by auto
  have "e \<noteq> None" using c(6) by (auto simp: finishMigration_def split: prod.splits option.splits)
  with c have "gs_Dirs st' = gs_Dirs st" "e = Some (LegacyDelete a err)" by auto
  with c loadMigration_cong [of st' st os mid] show ?thesis by blast
qed

section \<open>Witnesses\<close>

text \<open>One alias of the file store moves to the environment \<open>''dev''\<close>; the legacy store is a map.\<close>

definition exMigrationOS :: "(string \<Rightarrow> string \<Rightarrow> string option, string \<Rightarrow> string option) migrationOS" where
  "exMigrationOS =
     \<lparr>go_Codec = exCodec, go_Abs = (\<lambda>p. Inr p), go_Env = exampleEnvEnv, go_Open = (\<lambda>_. Inr exampleManager), go_OpenStore = (\<lambda>_. None),
      go_LegacyGet = (\<lambda>_ name x. case x name of None \<Rightarrow> Inl (SecretMissing name) | Some v \<Rightarrow> Inr v),
      go_LegacyDelete = (\<lambda>_ name x. (x(name := None), None)), go_ListDirs = None, go_Mkdir = None, go_WriteBackup = None,
      go_SaveManifest = (\<lambda>_. None), go_Replace = (\<lambda>_. None), go_ReadPolicy = (\<lambda>_. None), go_Random = Inr ''7'', go_Stamp = ''t0'', go_Now = 0\<rparr>"

definition exUnmigrated :: "(string \<Rightarrow> string \<Rightarrow> string option, string \<Rightarrow> string option) migrationState" where
  "exUnmigrated = \<lparr>gs_Policy = ReadData ''v1'', gs_Dirs = [], gs_Env = exampleManager, gs_Legacy = (\<lambda>_. None)(''db'' \<mapsto> ''pw'')\<rparr>"

definition exManifest :: manifest where
  "exManifest = \<lparr>mn_Version = 1, mn_ID = ''t0-37'', mn_Status = ''applied'', mn_PolicyPath = ''/w/ironrun.yml'', mn_Environment = ''dev'',
     mn_CreatedAt = 0, mn_Mappings = [\<lparr>mp_Alias = ''db'', mp_Entry = ''DB_URL'', mp_Kind = ''env'', mp_Filename = [], mp_Store = [], mp_Copied = True\<rparr>]\<rparr>"

definition exMigrationDir :: migrationDir where
  "exMigrationDir = \<lparr>dr_IsDir = True, dr_Backup = ReadData ''v1'', dr_Manifest = ManifestStored exManifest\<rparr>"

definition exCopied :: mapping where
  "exCopied = \<lparr>mp_Alias = ''db'', mp_Entry = ''DB_URL'', mp_Kind = ''env'', mp_Filename = [], mp_Store = [], mp_Copied = True\<rparr>"

lemma exMigration_copy: "snd (copyValues exampleEnvEnv ''dev'' [(exCopied, ''pw'')] [] exampleManager) = Ok [''DB_URL'']"
proof -
  have valid: "validateEntry (normalEntry (copyEntry exCopied)) = None"
    by (simp add: validateEntry_def normalEntry_def copyEntry_def exCopied_def EntryEnvironment_def EntryFile_def validateName_def
        trim_eval nameChar_def alnum_def validateEnvironmentTarget_def)
  have norm: "normalEntry (copyEntry exCopied) = copyEntry exCopied" "ee_Kind (copyEntry exCopied) \<noteq> EntryFile"
    "ee_Name (copyEntry exCopied) = ''DB_URL''" "mp_Entry exCopied = ''DB_URL''"
    by (simp_all add: normalEntry_def copyEntry_def exCopied_def EntryFile_def)
  from valid norm show ?thesis
    by (simp add: Let_def PutEntry_def updateMeta_def updateCommit_def putEntry_def SetOf_def mapGet_def exampleManager_def
        exampleEnvEnv_def newSet_def envExpired_def writeValue_def mapStore_def GetBytes_def liveSet_def liftGet_def envScope_def)
qed

lemma exMigration_policy:
  "Parse (yc_Decode exCodec) ''v1'' = Inr exAliasPolicy" "planMappings exAliasPolicy = [exCopied]"
  "Parse (yc_Decode exCodec) ''v2'' = Inr exEntryPolicy" "f_EnvironmentSet exAliasPolicy \<noteq> ''active''" "f_Version exAliasPolicy = SupportedVersionV1"
  by code_simp+

lemma exMigration_plan: "Plan exMigrationOS ''/w/ironrun.yml'' exUnmigrated =
    (exUnmigrated, Ok \<lparr>pv_PolicyPath = ''/w/ironrun.yml'', pv_Environment = ''dev'', pv_Mappings = [exCopied]\<rparr>)"
  by (simp add: Plan_def loadPolicy_def readPolicy_def Load_def exMigrationOS_def exUnmigrated_def exMigration_policy)

lemma exMigration_sources:
  "openEnvironments exMigrationOS exUnmigrated = (exUnmigrated, None)"
  "ensureSet exampleEnvEnv ''dev'' exampleManager = (exampleManager, None)"
  "collectCopies exMigrationOS False ''dev'' (gs_Legacy exUnmigrated) [exCopied] exampleManager = (exampleManager, Ok [(exCopied, ''pw'')])"
  by (simp_all add: openEnvironments_def exMigrationOS_def exUnmigrated_def ensureSet_def SetOf_def EntryOf_def mapGet_def
      exampleManager_def newSet_def exCopied_def)

lemma exMigration_run:
  obtains st where "Apply exMigrationOS ''/w/ironrun.yml'' exUnmigrated = (st, Ok exManifest)" "gs_Dirs st = [(''t0-37'', exMigrationDir)]"
proof -
  obtain m where copy: "copyValues exampleEnvEnv ''dev'' [(exCopied, ''pw'')] [] exampleManager = (m, Ok [''DB_URL''])"
    using exMigration_copy by (metis prod.collapse)
  have mid: "migrationID exMigrationOS = Ok ''t0-37''" by code_simp
  have os: "go_Codec exMigrationOS = exCodec" "go_Env exMigrationOS = exampleEnvEnv" "go_Mkdir exMigrationOS = None"
    "go_WriteBackup exMigrationOS = None" "\<And>n. go_SaveManifest exMigrationOS n = None" "\<And>n. go_Replace exMigrationOS n = None"
    "\<And>n. go_ReadPolicy exMigrationOS n = None" "go_Now exMigrationOS = 0" by (simp_all add: exMigrationOS_def)
  have st: "gs_Policy exUnmigrated = ReadData ''v1''" "gs_Env exUnmigrated = exampleManager" "gs_Dirs exUnmigrated = []"
    by (simp_all add: exUnmigrated_def)
  have mani: "preparedManifest exMigrationOS ''t0-37'' \<lparr>pv_PolicyPath = ''/w/ironrun.yml'', pv_Environment = ''dev'', pv_Mappings = [exCopied]\<rparr>
      \<lparr>mn_Status := ''applied''\<rparr> = exManifest" "mn_ID exManifest = ''t0-37''" "mn_Environment exManifest = ''dev''"
    by (simp_all add: preparedManifest_def exManifest_def exCopied_def os)
  have "snd (Apply exMigrationOS ''/w/ironrun.yml'' exUnmigrated) = Ok exManifest \<and>
      gs_Dirs (fst (Apply exMigrationOS ''/w/ironrun.yml'' exUnmigrated)) = [(''t0-37'', exMigrationDir)]"
    using mani copy
    by (simp add: Apply_def exMigration_plan readPolicy_def os st exMigration_policy exCodec_migrates exMigration_sources
        recordMigration_def mid prepareDir_def mapGet_def saveManifest_def commitMigration_def preparedManifest_def
        replaceFile_def loadPolicy_def Load_def newMigrationDir_def exMigrationDir_def Let_def
        del: collectCopies.simps copyValues.simps)
  with that show thesis by (metis prod.collapse)
qed

lemma exMigration_laws:
  "yamlOk (go_Codec exMigrationOS)" "readsOk (ev_Store (go_Env exMigrationOS)) (\<lambda>_. True) (\<lambda>vs. vs)"
  "writesLocal (ev_Store (go_Env exMigrationOS)) (\<lambda>_. True) (\<lambda>vs. vs)"
  "\<forall>m m'. go_Open exMigrationOS m = Inr m' \<longrightarrow> managerInv m' \<and> True"
  "mapInv (gs_Dirs exUnmigrated)"
  using exCodec_ok exampleManager_inv
  by (auto simp: exMigrationOS_def exampleEnvEnv_def mapStore_def readsOk_def writesLocal_def exUnmigrated_def split: option.splits)

theorem migration_apply_complete_witness:
  "\<exists>st. Apply exMigrationOS ''/w/ironrun.yml'' exUnmigrated = (st, Ok exManifest) \<and>
     heldValue exampleEnvEnv (\<lambda>vs. vs) (gs_Env st) ''dev'' ''DB_URL'' = Some ''pw''"
proof -
  obtain st where run: "Apply exMigrationOS ''/w/ironrun.yml'' exUnmigrated = (st, Ok exManifest)" by (rule exMigration_run)
  have parse: "Parse (yc_Decode (go_Codec exMigrationOS)) ''v1'' = Inr exAliasPolicy" by code_simp
  from migration_apply_complete [OF run exMigration_laws] parse show ?thesis
    by (auto simp: migrationApplied_def run) (simp add: exUnmigrated_def exMigrationOS_def exAliasPolicy_def exManifest_def)
qed

definition exApplied :: "(string \<Rightarrow> string \<Rightarrow> string option, string \<Rightarrow> string option) migrationState" where
  "exApplied = exUnmigrated\<lparr>gs_Policy := ReadData ''v2'', gs_Dirs := [(''t0-37'', exMigrationDir)]\<rparr>"

lemma exMigration_rolls_back:
  "snd (Rollback exMigrationOS ''/w/ironrun.yml'' ''t0-37'' exApplied) = Ok (exManifest\<lparr>mn_Status := ''rolled_back''\<rparr>)"
  by code_simp

theorem migration_rollback_restores_witness:
  "gs_Policy (fst (Rollback exMigrationOS ''/w/ironrun.yml'' ''t0-37'' exApplied)) = ReadData ''v1''"
proof -
  obtain st where run: "Apply exMigrationOS ''/w/ironrun.yml'' exUnmigrated = (st, Ok exManifest)" "gs_Dirs st = [(''t0-37'', exMigrationDir)]"
    by (rule exMigration_run)
  have mid: "mn_ID exManifest = ''t0-37''" by (simp add: exManifest_def)
  have same: "mapGet (gs_Dirs exApplied) (mn_ID exManifest) = mapGet (gs_Dirs st) (mn_ID exManifest)"
    by (simp add: run(2) exApplied_def exUnmigrated_def)
  obtain st2 where back': "Rollback exMigrationOS ''/w/ironrun.yml'' ''t0-37'' exApplied = (st2, Ok (exManifest\<lparr>mn_Status := ''rolled_back''\<rparr>))"
    using exMigration_rolls_back by (metis prod.collapse)
  from migration_rollback_restores [OF run(1) exMigration_laws(5) same back' [folded mid]] back' show ?thesis
    by (simp add: exUnmigrated_def)
qed

lemma exMigration_refused: "snd (Apply exMigrationOS ''/w/ironrun.yml'' exApplied) = Err (NotVersion1 ''2'')"
  by code_simp

theorem migration_apply_fails_clean_witness:
  "gs_Legacy (fst (Apply exMigrationOS ''/w/ironrun.yml'' exApplied)) = gs_Legacy exApplied"
proof -
  obtain st where run: "Apply exMigrationOS ''/w/ironrun.yml'' exApplied = (st, Err (NotVersion1 ''2''))"
    using exMigration_refused by (metis prod.collapse)
  have "mapInv (gs_Dirs exApplied)" by (simp add: exApplied_def exUnmigrated_def)
  from migration_apply_fails_clean [OF run this] run show ?thesis by simp
qed

lemma exMigration_cleans: "snd (Cleanup exMigrationOS ''/w/ironrun.yml'' ''t0-37'' exApplied) = Ok (exManifest\<lparr>mn_Status := ''cleaned''\<rparr>)"
  by code_simp

theorem migration_cleanup_guarded_witness:
  "\<exists>st err. Cleanup exMigrationOS ''/w/ironrun.yml'' ''t0-37'' exApplied = (st, Ok (exManifest\<lparr>mn_Status := ''cleaned''\<rparr>)) \<and>
     Rollback exMigrationOS ''/w/ironrun.yml'' ''t0-37'' st = (st, Inl err)"
proof -
  obtain st where run: "Cleanup exMigrationOS ''/w/ironrun.yml'' ''t0-37'' exApplied = (st, Ok (exManifest\<lparr>mn_Status := ''cleaned''\<rparr>))"
    using exMigration_cleans by (metis prod.collapse)
  have "mapInv (gs_Dirs exApplied)" "(''t0-37'' :: string) \<noteq> []" by (simp_all add: exApplied_def exUnmigrated_def)
  from migration_cleanup_guarded [OF run this(2,1)] run show ?thesis by blast
qed

end
