(* ===== verification/ProjectStore.thy ===== *)
theory ProjectStore
  imports VaultStore Envset_Props Execution_Props Migration_Props
begin

text \<open>
  The value store that the program opens for a project, \<open>src/internal/envset/vault_store.go\<close>: the
  environment manager of \<open>Envset\<close> over the encrypted vault of \<open>VaultStore\<close>.

  The vault's environment (\<open>vaultEnv\<close>) is that of one operation, so what is shown of an operation that
  writes is shown of one with a single write, which \<open>PutEntry\<close> is.
\<close>

section \<open>The vault as the manager's store\<close>

text \<open>The manager tells a missing value from other failures only; the texts of the errors are left out.\<close>

primrec projectError :: "migError \<Rightarrow> storeError" where
  "projectError MigMissing = StoreMissing"
| "projectError (MigVault e) = StoreFailure ''vault''"
| "projectError (MigMigrate e) = StoreFailure ''migrate environment value into vault''"
| "projectError (MigLegacy e) = e"

definition projectDone :: "'l migState \<times> migError option \<Rightarrow> 'l migState \<times> storeError option" where
  "projectDone r = (fst r, map_option projectError (snd r))"

definition projectRead :: "'l migState \<times> (migError + 'v) \<Rightarrow> 'l migState \<times> (storeError + 'v)" where
  "projectRead r = (fst r, case snd r of Inl e \<Rightarrow> Inl (projectError e) | Inr v \<Rightarrow> Inr v)"

definition projectStore :: "vaultEnv \<Rightarrow> 'l valueStore \<Rightarrow> 'l migState valueStore" where
  "projectStore venv legacy =
     \<lparr>vst_Set = (\<lambda>scope key val s. projectDone (migSet venv scope key val s)),
      vst_Get = (\<lambda>scope key s. projectRead (migGet venv legacy scope key s)),
      vst_Delete = (\<lambda>scope key s. projectDone (migDelete venv legacy scope key s)),
      vst_SetBytes = Some (\<lambda>scope key val s. projectDone (migSetBytes venv scope key val s)),
      vst_GetBytes = Some (\<lambda>scope key s. projectRead (migGetBytes venv legacy scope key s))\<rparr>"

section \<open>Reading\<close>

text \<open>
  The bytes that are held under a key, and the states in which reading moves nothing: every scope of the
  vault opens, and no value waits in the native store to be moved.
\<close>

definition projectView :: "vaultEnv \<Rightarrow> 'l migState \<Rightarrow> string \<Rightarrow> string \<Rightarrow> bytes option" where
  "projectView venv s scope key =
     (case vaultView venv (ms_Disk s) scope key of None \<Rightarrow> None | Some (Text v) \<Rightarrow> Some v | Some (Blob b) \<Rightarrow> Some b)"

definition projectSettled :: "vaultEnv \<Rightarrow> ('l \<Rightarrow> string \<Rightarrow> string \<Rightarrow> string option) \<Rightarrow> 'l migState \<Rightarrow> bool" where
  "projectSettled venv view s \<longleftrightarrow> vaultOk venv (ms_Disk s) \<and> (\<forall>scope key. view (ms_Legacy s) scope key = None)"

lemma vaultGet_sound:
  assumes "vaultOk venv disk"
  shows "vaultGet venv scope key disk = Inr v \<Longrightarrow> vaultView venv disk scope key = Some (Text v)"
    and "vaultGetBytes venv scope key disk = Inr v \<Longrightarrow> vaultView venv disk scope key \<in> {Some (Text v), Some (Blob v)}"
proof -
  have names: "checkNames scope key = None"
    if "vaultGet venv scope key disk = Inr v \<or> vaultGetBytes venv scope key disk = Inr v"
    using that by (cases "checkNames scope key") (auto simp: vaultGet_def vaultGetBytes_def openExisting_def)
  show "vaultView venv disk scope key = Some (Text v)" if "vaultGet venv scope key disk = Inr v"
    using that vaultGet_view(1) [OF assms names] by (auto split: option.splits vaultVal.splits)
  show "vaultView venv disk scope key \<in> {Some (Text v), Some (Blob v)}" if "vaultGetBytes venv scope key disk = Inr v"
    using that vaultGet_view(2) [OF assms names] by (auto split: option.splits vaultVal.splits)
qed

lemma legacy_settled:
  assumes "legacyOk legacy view" "\<forall>s k. view l s k = None" "vst_Get legacy scope key l = (l', r)"
  shows "\<exists>e. r = Inl e" "\<forall>s k. view l' s k = None"
  using legacyOk_get [OF assms(1,3)] assms(2) by (cases r; simp)+

lemma projectStore_reads:
  assumes "legacyOk legacy view"
  shows "readsOk (projectStore venv legacy) (projectSettled venv view) (projectView venv)"
proof -
  have get: "projectSettled venv view (fst (migGet venv legacy scope key s)) \<and>
      projectView venv (fst (migGet venv legacy scope key s)) = projectView venv s \<and>
      (\<forall>v. snd (migGet venv legacy scope key s) = Inr v \<longrightarrow> projectView venv s scope key = Some v)"
    if "projectSettled venv view s" for scope key s
  proof (cases "vaultGet venv scope key (ms_Disk s)")
    case (Inl e)
    obtain l r where l: "vst_Get legacy scope key (ms_Legacy s) = (l, r)" by force
    from legacy_settled [OF assms _ l] that obtain err where "r = Inl err" "\<forall>s k. view l s k = None"
      by (auto simp: projectSettled_def)
    with that Inl l show ?thesis by (auto simp: migGet_def projectSettled_def projectView_def fun_eq_iff)
  next
    case (Inr v)
    with that vaultGet_sound(1) [of venv "ms_Disk s" scope key v] show ?thesis
      by (auto simp: migGet_def projectSettled_def projectView_def)
  qed
  have bytes: "projectSettled venv view (fst (migGetBytes venv legacy scope key s)) \<and>
      projectView venv (fst (migGetBytes venv legacy scope key s)) = projectView venv s \<and>
      (\<forall>v. snd (migGetBytes venv legacy scope key s) = Inr v \<longrightarrow> projectView venv s scope key = Some v)"
    if "projectSettled venv view s" for scope key s
  proof (cases "vaultGetBytes venv scope key (ms_Disk s)")
    case (Inl e)
    obtain l r where l: "vst_Get legacy scope key (ms_Legacy s) = (l, r)" by force
    from legacy_settled [OF assms _ l] that obtain err where "r = Inl err" "\<forall>s k. view l s k = None"
      by (auto simp: projectSettled_def)
    with that Inl l show ?thesis by (auto simp: migGetBytes_def projectSettled_def projectView_def fun_eq_iff)
  next
    case (Inr v)
    with that vaultGet_sound(2) [of venv "ms_Disk s" scope key v] show ?thesis
      by (auto simp: migGetBytes_def projectSettled_def projectView_def)
  qed
  show ?thesis
    using get bytes by (auto simp: readsOk_def projectStore_def projectRead_def split: sum.splits)
qed

section \<open>Writing\<close>

text \<open>
  A write of any value, which need not be UTF-8, keeps all others: what is relied on of the JSON decoder is that it reads back a payload that
  it had decoded before, with one key of a valid name changed, up to the value under that key.
\<close>

definition emptyPayload :: scopePayload where
  "emptyPayload = \<lparr>sp_Values = [], sp_Blobs = []\<rparr>"

fun opKey :: "vaultOp \<Rightarrow> string" where
  "opKey (OpSet s k v) = k"
| "opKey (OpSetBytes s k b) = k"
| "opKey (OpDelete s k) = k"
| "opKey (OpDeleteScope s) = []"

definition decoderLocal :: "vaultCrypto \<Rightarrow> bool" where
  "decoderLocal c \<longleftrightarrow>
     (\<forall>p op. (p = emptyPayload \<or> (\<exists>b. decodedPayload c b = Some p)) \<and> payloadInv p \<and> validateName (opKey op) = None \<longrightarrow>
        (\<exists>q. decodedPayload c (marshalPayload (newPayload op p)) = Some q \<and> payloadInv q \<and>
           (\<forall>k. k \<noteq> opKey op \<longrightarrow> payloadAt q k = payloadAt p k)))"

lemma openOrEmpty_decoded:
  "openOrEmpty env doc s = Inr p \<Longrightarrow> p = emptyPayload \<or> (\<exists>b. decodedPayload (ve_Crypto env) b = Some p)"
  by (auto simp: openOrEmpty_def emptyPayload_def dest: openScope_decoded split: option.splits)

lemma vault_write_local:
  assumes "op = OpSet s k v \<or> op = OpSetBytes s k v" "vaultRun venv op disk = (disk', None)"
    and "vaultOk venv disk" "cryptoOk (ve_Crypto venv)" "decoderLocal (ve_Crypto venv)" "validateName k = None"
  shows "vaultOk venv disk' \<and> (\<forall>s' k'. (s', k') \<noteq> (s, k) \<longrightarrow> vaultView venv disk' s' k' = vaultView venv disk s' k')"
proof -
  from assms(1) have op: "opKey op = k" by auto
  from assms(1,2) obtain doc p sealed where doc: "loadDoc venv disk = Inr doc" "openOrEmpty venv doc s = Inr p"
    and seal: "sealScope venv s (newPayload op p) = Inr sealed"
      "commitDoc venv (doc\<lparr>vd_Scopes := mapPut s sealed (vd_Scopes doc)\<rparr>) disk = (disk', None)"
    by (auto simp: vaultSet_def vaultSetBytes_def withVault_def split: option.splits sum.splits)
  note ok = vaultOk_load [OF assms(3) doc(1)]
  then have sc: "scopesOk venv (vd_Scopes doc)" by simp
  note p = scopes_open [OF sc doc(2)]
  from assms(5,6) openOrEmpty_decoded [OF doc(2)] p(1) op obtain q where
    q: "decodedPayload (ve_Crypto venv) (marshalPayload (newPayload op p)) = Some q" "payloadInv q"
      "\<And>k'. k' \<noteq> k \<Longrightarrow> payloadAt q k' = payloadAt p k'"
    unfolding decoderLocal_def by blast
  from ok have head: "docHeader venv doc" "ve_Read venv = None" by simp_all
  from seal_commit_decoded [OF seal head(1) assms(4) head(2) q(1) sc q(2)] ok p(2) q(3) show ?thesis by auto
qed

lemma projectStore_local:
  assumes "cryptoOk (ve_Crypto venv)" "decoderLocal (ve_Crypto venv)"
  shows "writesLocal (projectStore venv legacy) (projectSettled venv view) (projectView venv)"
proof -
  have set: "projectSettled venv view st' \<and> (\<forall>s' k'. (s', k') \<noteq> (s, k) \<longrightarrow> projectView venv st' s' k' = projectView venv st s' k')"
    if "projectSettled venv view st" "validateName k = None" "op = OpSet s k v \<or> op = OpSetBytes s k v"
      "vaultRun venv op (ms_Disk st) = (disk, None)" "st' = st\<lparr>ms_Disk := disk\<rparr>" for st st' s k v op disk
    using vault_write_local [OF that(3,4) _ assms that(2)] that(1,5) by (auto simp: projectSettled_def projectView_def)
  show ?thesis
    unfolding writesLocal_def
  proof (intro conjI allI impI, goal_cases)
    case (1 s k v st st')
    then obtain disk where "vaultRun venv (OpSet s k v) (ms_Disk st) = (disk, None)" "st' = st\<lparr>ms_Disk := disk\<rparr>"
      by (auto simp: projectStore_def projectDone_def migSet_def split: prod.splits)
    with set 1 show ?case by blast
  next
    case (2 s k v st st' s' k')
    then obtain disk where "vaultRun venv (OpSet s k v) (ms_Disk st) = (disk, None)" "st' = st\<lparr>ms_Disk := disk\<rparr>"
      by (auto simp: projectStore_def projectDone_def migSet_def split: prod.splits)
    with set 2 show ?case by blast
  next
    case (3 setBytes s k v st st')
    then obtain disk where "vaultRun venv (OpSetBytes s k v) (ms_Disk st) = (disk, None)" "st' = st\<lparr>ms_Disk := disk\<rparr>"
      by (auto simp: projectStore_def projectDone_def migSetBytes_def split: prod.splits)
    with set 3 show ?case by blast
  next
    case (4 setBytes s k v st st' s' k')
    then obtain disk where "vaultRun venv (OpSetBytes s k v) (ms_Disk st) = (disk, None)" "st' = st\<lparr>ms_Disk := disk\<rparr>"
      by (auto simp: projectStore_def projectDone_def migSetBytes_def split: prod.splits)
    with set 4 show ?case by blast
  qed
qed

text \<open>The one operation of the vault that putting an entry makes.\<close>

definition putOp :: "entry \<Rightarrow> string \<Rightarrow> bytes \<Rightarrow> vaultOp" where
  "putOp entry scope val =
     (if ee_Kind entry = EntryFile then OpSetBytes scope (ee_Name entry) val else OpSet scope (ee_Name entry) val)"

lemma writeValue_vault:
  assumes "writeValue env scope entry val m = (m1, None)" "ev_Store env = projectStore venv legacy"
  obtains disk where "vaultRun venv (putOp entry scope val) (ms_Disk (mg_Values m)) = (disk, None)"
    "m1 = m\<lparr>mg_Values := (mg_Values m)\<lparr>ms_Disk := disk\<rparr>\<rparr>"
  using assms
  by (auto simp: writeValue_def projectStore_def projectDone_def putOp_def migSet_def migSetBytes_def Let_def
      split: if_splits prod.splits)

lemma vaultRun_names:
  "vaultRun venv (putOp entry scope val) disk = (disk', None) \<Longrightarrow> checkNames scope (ee_Name entry) = None"
  by (auto simp: putOp_def vaultSet_def vaultSetBytes_def split: if_splits option.splits)

lemma putOp_view:
  "vaultSpec (putOp entry scope val) V =
     V(scope := (V scope)(ee_Name entry \<mapsto> (if ee_Kind entry = EntryFile then Blob val else Text val)))"
  by (simp add: putOp_def)

lemma project_reads:
  assumes "liveSet env setName m = None" "ev_Store env = projectStore venv legacy"
  shows "snd (GetBytes env setName key m) =
      (case snd (migGetBytes venv legacy (envScope (ev_Identity env) (mg_Meta m) setName) key (mg_Values m)) of
         Inl e \<Rightarrow> Inl (StoreErr (projectError e)) | Inr v \<Rightarrow> Inr v)"
    and "snd (GetValue env setName key m) =
      (case snd (migGet venv legacy (envScope (ev_Identity env) (mg_Meta m) setName) key (mg_Values m)) of
         Inl e \<Rightarrow> Inl (StoreErr (projectError e)) | Inr v \<Rightarrow> Inr v)"
  using assms by (simp_all add: GetBytes_def GetValue_def projectStore_def projectRead_def liftGet_def split: sum.split)

text \<open>C14: A successful \<open>PutEntry\<close> is durable, exact and readable. Over the encrypted vault of the project, when its scopes
  open, decryption inverts encryption and the JSON decoder reads back the payload that this write makes (true of
  UTF-8 text and of file contents): after success the set existed and had not expired; the
  committed metadata is what the last commit had with the entry put into that one set, at the time of the write and with
  its defaults filled in, every other entry, set and field unchanged; the vault holds the value under the entry's name
  and every other value as before, and all its scopes open; and reading the entry, as bytes or as the text of
  a variable, gives the value.\<close>

theorem envset_put_get:
  assumes "managerInv m" "ev_Store env = projectStore venv legacy"
    and "vaultOk venv (ms_Disk (mg_Values m))" "cryptoOk (ve_Crypto venv)"
    and "resultCodec venv (putOp (normalEntry entry) (envScope (ev_Identity env) (loadedMeta m) setName) val)
           (ms_Disk (mg_Values m))"
    and "PutEntry env setName entry val m = (m', None)"
  shows "(\<exists>s s'. mapGet (md_Sets (loadedMeta m)) setName = Some s \<and> \<not> envExpired env s \<and>
      putInto (ev_Now env) (normalEntry entry) s s' \<and>
      mg_Meta m' = (loadedMeta m)\<lparr>md_Sets := mapPut setName s' (md_Sets (loadedMeta m))\<rparr>) \<and>
    mg_File m' = File (mg_Meta m') \<and>
    vaultOk venv (ms_Disk (mg_Values m')) \<and> ms_Legacy (mg_Values m') = ms_Legacy (mg_Values m) \<and>
    vaultView venv (ms_Disk (mg_Values m')) =
      (vaultView venv (ms_Disk (mg_Values m)))
        (envScope (ev_Identity env) (loadedMeta m) setName :=
          (vaultView venv (ms_Disk (mg_Values m)) (envScope (ev_Identity env) (loadedMeta m) setName))
            (ee_Name entry \<mapsto> (if ee_Kind entry = EntryFile then Blob val else Text val))) \<and>
    snd (GetBytes env setName (ee_Name entry) m') = Inr val \<and>
    (ee_Kind entry \<noteq> EntryFile \<longrightarrow> snd (GetValue env setName (ee_Name entry) m') = Inr val)"
proof -
  let ?scope = "envScope (ev_Identity env) (loadedMeta m) setName"
  let ?e = "normalEntry entry"
  from PutEntry_exact [OF assms(1,6)] obtain s s' m1 where s: "mapGet (md_Sets (loadedMeta m)) setName = Some s"
    "\<not> envExpired env s" "putInto (ev_Now env) ?e s s'"
    and w: "writeValue env ?scope ?e val (m\<lparr>mg_Meta := loadedMeta m\<rparr>) = (m1, None)"
    and m': "m' = m1\<lparr>mg_Meta := (loadedMeta m)\<lparr>md_Sets := mapPut setName s' (md_Sets (loadedMeta m))\<rparr>,
       mg_File := File ((loadedMeta m)\<lparr>md_Sets := mapPut setName s' (md_Sets (loadedMeta m))\<rparr>)\<rparr>" .
  from writeValue_vault [OF w assms(2)] obtain disk where run: "vaultRun venv (putOp ?e ?scope val) (ms_Disk (mg_Values m)) = (disk, None)"
    and m1: "m1 = m\<lparr>mg_Meta := loadedMeta m, mg_Values := (mg_Values m)\<lparr>ms_Disk := disk\<rparr>\<rparr>" by auto
  note names = vaultRun_names [OF run]
  from vaultRun_refines [OF assms(3,4,5) run] have ok: "vaultOk venv disk"
    and view: "vaultView venv disk = vaultSpec (putOp ?e ?scope val) (vaultView venv (ms_Disk (mg_Values m)))" by simp_all
  have kind: "ee_Kind ?e = EntryFile \<longleftrightarrow> ee_Kind entry = EntryFile"
    by (simp add: normalEntry_def Let_def EntryFile_def EntryEnvironment_def)
  have "mapInv (md_Sets (loadedMeta m))"
    using loadedMeta_inv(1) [OF assms(1) assms(6) [unfolded PutEntry_def]] by (auto simp: currentInv_def setsInv_def)
  then have set: "SetOf m' setName = Some s'" by (simp add: m' SetOf_def)
  have "es_ExpiresAt s' = es_ExpiresAt s" using s(3) unfolding putInto_def by (elim conjE) (metis envSet.select_convs(4) envSet.update_convs(5,6) envSet.surjective)
  then have live: "liveSet env setName m' = None" using s(2) set by (simp add: liveSet_def envExpired_def)
  have scope: "envScope (ev_Identity env) (mg_Meta m') setName = ?scope" by (simp add: m' envScope_def)
  have disk: "ms_Disk (mg_Values m') = disk" by (simp add: m' m1)
  have bytes: "snd (GetBytes env setName (ee_Name entry) m') = Inr val"
    using vaultGet_view(2) [OF ok names] view kind
    unfolding project_reads(1) [OF live assms(2)] scope migGetBytes_def disk by (simp add: putOp_view)
  have asText: "snd (GetValue env setName (ee_Name entry) m') = Inr val" if "ee_Kind entry \<noteq> EntryFile"
    using vaultGet_view(1) [OF ok names] view kind that
    unfolding project_reads(2) [OF live assms(2)] scope migGet_def disk by (simp add: putOp_view)
  show ?thesis
    using s ok view bytes asText kind by (auto simp: m' m1 putOp_view)
qed

text \<open>A new project: an empty vault and a native store that holds nothing.\<close>

definition newProjectEnv :: "(string \<Rightarrow> string \<Rightarrow> string option) migState envEnv" where
  "newProjectEnv = \<lparr>ev_Identity = \<lparr>ie_parseURL = (\<lambda>_. None), ie_showURL = (\<lambda>_. ''''), ie_SHA256 = (\<lambda>_. [])\<rparr>,
     ev_Store = projectStore exampleVault VaultStore.mapStore, ev_Now = 1000, ev_Mkdir = None, ev_Lock = None, ev_Write = None\<rparr>"

definition newProject :: "(string \<Rightarrow> string \<Rightarrow> string option) migState envManager" where
  "newProject = \<lparr>mg_Meta = \<lparr>md_Version = metadataVersion,
       md_Identity = \<lparr>id_RemoteURL = '''', id_CanonicalPath = ''/w''\<rparr>, md_Active = ''dev'',
       md_Sets = [(''dev'', newSet newProjectEnv ''dev'' False 0)]\<rparr>,
     mg_File = NoFile, mg_Values = \<lparr>ms_Disk = None, ms_Legacy = (\<lambda>_ _. None)\<rparr>\<rparr>"

lemma newProject_inv: "managerInv newProject" "loadedMeta newProject = mg_Meta newProject"
  by (simp_all add: managerInv_def newProject_def metaInv_def mapKeys_def metadataVersion_def loadedMeta_def)

lemma newProject_entry: "validateEntry (envEntry ''TOKEN'') = None" "normalEntry (envEntry ''TOKEN'') = envEntry ''TOKEN''"
  "ee_Kind (envEntry ''TOKEN'') \<noteq> EntryFile" "ee_Name (envEntry ''TOKEN'') = ''TOKEN''"
  by (simp_all add: validateEntry_def normalEntry_def envEntry_def EntryEnvironment_def EntryFile_def validateName_def
      trim_eval nameChar_def alnum_def validateEnvironmentTarget_def)

lemma newProject_scope: "checkNames ''/dev'' ''TOKEN'' = None"
  by (simp add: checkNames_def validateVaultName_def trim_eval)

lemma newProject_put:
  "snd (PutEntry newProjectEnv ''dev'' (envEntry ''TOKEN'') ''t0'' newProject) = None"
  using newProject_entry
  by (simp add: Let_def PutEntry_def updateMeta_def updateCommit_def putEntry_def SetOf_def mapGet_def newProject_def
      newProjectEnv_def newSet_def envExpired_def writeValue_def projectStore_def projectDone_def migSet_def vaultSet_def
      envScope_def identityHash_def hexEncode_def newProject_scope withVault_def loadDoc_def openOrEmpty_def newDoc_def sealScope_def
      newAEAD_def commitDoc_def saveDoc_def exampleVault_def)

lemma envset_put_get_witness:
  "snd (GetValue newProjectEnv ''dev'' ''TOKEN''
     (fst (PutEntry newProjectEnv ''dev'' (envEntry ''TOKEN'') ''t0'' newProject))) = Inr ''t0''"
proof -
  let ?r = "PutEntry newProjectEnv ''dev'' (envEntry ''TOKEN'') ''t0'' newProject"
  have run: "?r = (fst ?r, None)" using newProject_put by (metis prod.collapse)
  have codec: "resultCodec exampleVault (OpSet s ''TOKEN'' ''t0'') None" for s
    by (simp add: resultCodec_def loadDoc_def newDoc_def openOrEmpty_def codecOk_def exampleVault_def mapDel_def)
  have store: "ev_Store newProjectEnv = projectStore exampleVault VaultStore.mapStore" "ms_Disk (mg_Values newProject) = None"
    by (simp_all add: newProjectEnv_def newProject_def)
  from envset_put_get [OF newProject_inv(1) store(1) _ _ _ run] show ?thesis
    using oldState_vault(1,3) codec newProject_entry store(2) by (simp add: putOp_def)
qed

end
