(* ===== verification/Registry.thy ===== *)
theory Registry
  imports AuditLog "HOL-Library.Word"
begin

unbundle bit_operations_syntax

text \<open>
  The registry of projects: \<open>src/internal/project/registry.go\<close>.

  The registry file is what it decodes to.  The file system, the remote of a checkout, the clock and the random
  source are \<open>registryOS\<close>; the steps of \<open>save\<close> are one, which fails before or after the file was replaced.
\<close>

section \<open>Data\<close>

record project =
  pj_ID :: string
  pj_Name :: string
  pj_Path :: string
  pj_RemoteHint :: string
  pj_Configured :: bool
  pj_CreatedAt :: time
  pj_LastOpenedAt :: time

definition registryVersion :: int where "registryVersion = 1"

datatype registryFile = NoRegistry | RegistryUnreadable string | RegistryCorrupt string | RegistryStored int "project list"

datatype registryError =
    ProjectNotFound string | RegistryIO string | RegistryBroken string | RegistryVersion int | NotDirectory string
  | PathTaken string | ProjectAmbiguous string

datatype registrySave = Saved | SaveFailed string | SavedUnsecured string

record registryOS =
  rg_Abs :: "string \<Rightarrow> string + string"
  rg_EvalSymlinks :: "string \<Rightarrow> string + string"
  rg_IsDir :: "string \<Rightarrow> string + bool"
  rg_Exists :: "string \<Rightarrow> bool"
  rg_Remote :: "string \<Rightarrow> string option"
  rg_Now :: time
  rg_Random :: "string + bytes"
  rg_Save :: registrySave

section \<open>Paths and IDs\<close>

definition samePath :: "string \<Rightarrow> string \<Rightarrow> bool" where
  "samePath a b \<longleftrightarrow> Clean a = Clean b"

definition projectName :: "string \<Rightarrow> string" where
  "projectName path = Base (Clean path)"

definition canonicalProject :: "registryOS \<Rightarrow> string \<Rightarrow> registryError + string" where
  "canonicalProject os path =
     (case rg_Abs os path of
        Inl err \<Rightarrow> Err (RegistryIO err)
      | Inr abs' \<Rightarrow> (case rg_EvalSymlinks os abs' of
          Inl err \<Rightarrow> Err (RegistryIO err)
        | Inr resolved \<Rightarrow> (case rg_IsDir os resolved of
            Inl err \<Rightarrow> Err (RegistryIO err)
          | Inr dir \<Rightarrow> if \<not> dir then Err (NotDirectory path) else Ok (Clean resolved))))"

definition remoteHint :: "registryOS \<Rightarrow> string \<Rightarrow> string" where
  "remoteHint os path = (case rg_Remote os path of None \<Rightarrow> [] | Some out \<Rightarrow> TrimSpace out)"

definition configured :: "registryOS \<Rightarrow> string \<Rightarrow> bool" where
  "configured os path \<longleftrightarrow> rg_Exists os (pathJoin [path, ''ironrun.yml'']) \<or> rg_Exists os (pathJoin [path, ''.ironrun'', ''environments.json''])"

text \<open>The version and variant bits of bytes 6 and 8.\<close>

definition byteOf :: "8 word \<Rightarrow> char" where
  "byteOf w = char_of (unat w)"

definition wordOf :: "char \<Rightarrow> 8 word" where
  "wordOf c = of_nat (of_char c)"

definition uuidBytes :: "bytes \<Rightarrow> bytes" where
  "uuidBytes b =
     (let b = b[6 := byteOf ((wordOf (b ! 6) AND 0x0F) OR 0x40)]
      in b[8 := byteOf ((wordOf (b ! 8) AND 0x3F) OR 0x80)])"

definition projectID :: "bytes \<Rightarrow> string" where
  "projectID b =
     (let e = hexEncode (uuidBytes b)
      in take 8 e @ ''-'' @ take 4 (drop 8 e) @ ''-'' @ take 4 (drop 12 e) @ ''-'' @ take 4 (drop 16 e) @ ''-'' @ take 12 (drop 20 e))"

definition randomProjectID :: "registryOS \<Rightarrow> registryError + string" where
  "randomProjectID os = (case rg_Random os of Inl err \<Rightarrow> Err (RegistryIO err) | Inr b \<Rightarrow> Ok (projectID b))"

section \<open>The file\<close>

definition loadRegistry :: "registryFile \<Rightarrow> registryError + project list" where
  "loadRegistry file' =
     (case file' of
        NoRegistry \<Rightarrow> Ok []
      | RegistryUnreadable err \<Rightarrow> Err (RegistryIO err)
      | RegistryCorrupt err \<Rightarrow> Err (RegistryBroken err)
      | RegistryStored version ps \<Rightarrow> if version \<noteq> registryVersion then Err (RegistryVersion version) else Ok ps)"

definition saveRegistry :: "registryOS \<Rightarrow> project list \<Rightarrow> registryFile \<Rightarrow> registryFile \<times> registryError option" where
  "saveRegistry os ps file' =
     (case rg_Save os of
        Saved \<Rightarrow> (RegistryStored registryVersion ps, None)
      | SavedUnsecured err \<Rightarrow> (RegistryStored registryVersion ps, Some (RegistryIO err))
      | SaveFailed err \<Rightarrow> (file', Some (RegistryIO err)))"

section \<open>Operations\<close>

text \<open>\<open>sort.Slice\<close> keeps no order among projects opened at the same time; the order of the file is taken.\<close>

definition ListProjects :: "registryFile \<Rightarrow> registryError + project list" where
  "ListProjects file' =
     (case loadRegistry file' of Inl err \<Rightarrow> Err err | Inr ps \<Rightarrow> Ok (sort_key (\<lambda>p. - pj_LastOpenedAt p) ps))"

definition refreshProject :: "registryOS \<Rightarrow> string \<Rightarrow> project \<Rightarrow> project" where
  "refreshProject os canonical p =
     p\<lparr>pj_Name := projectName canonical, pj_RemoteHint := remoteHint os canonical, pj_Configured := configured os canonical,
       pj_LastOpenedAt := rg_Now os\<rparr>"

definition newProject :: "registryOS \<Rightarrow> string \<Rightarrow> string \<Rightarrow> project" where
  "newProject os pid canonical =
     \<lparr>pj_ID = pid, pj_Name = projectName canonical, pj_Path = canonical, pj_RemoteHint = remoteHint os canonical,
      pj_Configured = configured os canonical, pj_CreatedAt = rg_Now os, pj_LastOpenedAt = rg_Now os\<rparr>"

text \<open>The first index that a loop over the projects stops at.\<close>

fun firstProject :: "(project \<Rightarrow> bool) \<Rightarrow> project list \<Rightarrow> nat option" where
  "firstProject P [] = None"
| "firstProject P (p # ps) = (if P p then Some 0 else map_option Suc (firstProject P ps))"

definition saveAndReturn :: "registryOS \<Rightarrow> project \<Rightarrow> project list \<Rightarrow> registryFile \<Rightarrow> registryFile \<times> (registryError + project)" where
  "saveAndReturn os p ps file' =
     (case saveRegistry os ps file' of (file', Some err) \<Rightarrow> (file', Err err) | (file', None) \<Rightarrow> (file', Ok p))"

definition Register :: "registryOS \<Rightarrow> string \<Rightarrow> registryFile \<Rightarrow> registryFile \<times> (registryError + project)" where
  "Register os path file' =
     (case canonicalProject os path of
        Inl err \<Rightarrow> (file', Err err)
      | Inr canonical \<Rightarrow> (case loadRegistry file' of
          Inl err \<Rightarrow> (file', Err err)
        | Inr ps \<Rightarrow> (case firstProject (\<lambda>p. samePath (pj_Path p) canonical) ps of
            Some i \<Rightarrow>
              (let p = refreshProject os canonical (ps ! i) in saveAndReturn os p (ps[i := p]) file')
          | None \<Rightarrow> (case randomProjectID os of
              Inl err \<Rightarrow> (file', Err err)
            | Inr pid \<Rightarrow> (let p = newProject os pid canonical in saveAndReturn os p (ps @ [p]) file')))))"

fun matchProjects :: "string \<Rightarrow> project list \<Rightarrow> project list \<Rightarrow> registryError + project" where
  "matchProjects q matches [] =
     (case matches of
        [p] \<Rightarrow> Ok p
      | [] \<Rightarrow> Err (ProjectNotFound q)
      | _ \<Rightarrow> Err (ProjectAmbiguous q))"
| "matchProjects q matches (p # ps) =
     (if pj_ID p = q then Ok p
      else matchProjects q (if prefix q (pj_ID p) \<or> pj_Name p = q then matches @ [p] else matches) ps)"

definition ResolveProject :: "registryOS \<Rightarrow> string \<Rightarrow> registryFile \<Rightarrow> registryError + project" where
  "ResolveProject os q file' =
     (case ListProjects file' of
        Inl err \<Rightarrow> Err err
      | Inr ps \<Rightarrow>
          if q = [] then Err (ProjectNotFound [])
          else case (case rg_Abs os q of Inl _ \<Rightarrow> None | Inr path \<Rightarrow> find (\<lambda>p. samePath (pj_Path p) path) ps) of
            Some p \<Rightarrow> Ok p
          | None \<Rightarrow> matchProjects q [] ps)"

definition Repair :: "registryOS \<Rightarrow> string \<Rightarrow> string \<Rightarrow> registryFile \<Rightarrow> registryFile \<times> (registryError + project)" where
  "Repair os pid newPath file' =
     (case canonicalProject os newPath of
        Inl err \<Rightarrow> (file', Err err)
      | Inr canonical \<Rightarrow> (case loadRegistry file' of
          Inl err \<Rightarrow> (file', Err err)
        | Inr ps \<Rightarrow> (case find (\<lambda>p. pj_ID p \<noteq> pid \<and> samePath (pj_Path p) canonical) ps of
            Some p \<Rightarrow> (file', Err (PathTaken (pj_ID p)))
          | None \<Rightarrow> (case firstProject (\<lambda>p. pj_ID p = pid) ps of
              None \<Rightarrow> (file', Err (ProjectNotFound pid))
            | Some i \<Rightarrow>
                (let p = refreshProject os canonical ((ps ! i)\<lparr>pj_Path := canonical\<rparr>) in saveAndReturn os p (ps[i := p]) file')))))"

definition RemoveProject :: "registryOS \<Rightarrow> string \<Rightarrow> registryFile \<Rightarrow> registryFile \<times> registryError option" where
  "RemoveProject os pid file' =
     (case loadRegistry file' of
        Inl err \<Rightarrow> (file', Some err)
      | Inr ps \<Rightarrow> (case firstProject (\<lambda>p. pj_ID p = pid) ps of
          None \<Rightarrow> (file', Some (ProjectNotFound pid))
        | Some i \<Rightarrow> saveRegistry os (take i ps @ drop (Suc i) ps) file'))"

section \<open>IDs and paths stay unique\<close>

definition registryInv :: "project list \<Rightarrow> bool" where
  "registryInv ps \<longleftrightarrow> distinct (List.map pj_ID ps) \<and> distinct (List.map (\<lambda>p. Clean (pj_Path p)) ps)"

definition fileInv :: "registryFile \<Rightarrow> bool" where
  "fileInv file' \<longleftrightarrow> (\<forall>ps. loadRegistry file' = Inr ps \<longrightarrow> registryInv ps)"

text \<open>One call that is alone on the file (the mutex of a store reaches no further than its process), with whatever the system does; a new random ID is one that is not in use.\<close>

inductive registryStep :: "registryFile \<Rightarrow> registryFile \<Rightarrow> bool" where
  register: "Register os path file' = (file'', r) \<Longrightarrow>
    (\<And>ps pid. loadRegistry file' = Inr ps \<Longrightarrow> randomProjectID os = Inr pid \<Longrightarrow> pid \<notin> pj_ID ` set ps) \<Longrightarrow> registryStep file' file''"
| repair: "Repair os pid path file' = (file'', r) \<Longrightarrow> registryStep file' file''"
| remove: "RemoveProject os pid file' = (file'', e) \<Longrightarrow> registryStep file' file''"

lemma firstProject_Some: "firstProject P ps = Some i \<Longrightarrow> i < length ps \<and> P (ps ! i)"
  by (induction P ps arbitrary: i rule: firstProject.induct) (auto split: if_splits)

lemma firstProject_None: "firstProject P ps = None \<longleftrightarrow> (\<forall>p \<in> set ps. \<not> P p)"
  by (induction P ps rule: firstProject.induct) auto

lemma saveRegistry_load: "saveRegistry os ps file' = (file'', e) \<Longrightarrow> loadRegistry file'' = Inr ps \<or> file'' = file'"
  by (auto simp: saveRegistry_def loadRegistry_def split: registrySave.splits)

lemma saveAndReturn_load: "saveAndReturn os p ps file' = (file'', r) \<Longrightarrow> loadRegistry file'' = Inr ps \<or> file'' = file'"
  using saveRegistry_load [of os ps file'] by (auto simp: saveAndReturn_def split: prod.splits option.splits)

lemma fileInv_saved: "registryInv ps \<Longrightarrow> fileInv file' \<Longrightarrow> loadRegistry file'' = Inr ps \<or> file'' = file' \<Longrightarrow> fileInv file''"
  by (auto simp: fileInv_def)

lemma map_update_same: "i < length ps \<Longrightarrow> f p = f (ps ! i) \<Longrightarrow> List.map f (ps[i := p]) = List.map f ps"
  by (simp add: map_update) (metis list_update_id nth_map)

lemma refreshProject_simps [simp]:
  "pj_ID (refreshProject os c p) = pj_ID p" "pj_Path (refreshProject os c p) = pj_Path p" "pj_CreatedAt (refreshProject os c p) = pj_CreatedAt p"
  by (simp_all add: refreshProject_def)

lemma register_inv:
  assumes "Register os path file' = (file'', r)" "fileInv file'"
    and "\<And>ps pid. loadRegistry file' = Inr ps \<Longrightarrow> randomProjectID os = Inr pid \<Longrightarrow> pid \<notin> pj_ID ` set ps"
  shows "fileInv file''"
proof -
  consider "file'' = file'" | (saved) c ps i p where "loadRegistry file' = Inr ps" "firstProject (\<lambda>p. samePath (pj_Path p) c) ps = Some i"
      "p = refreshProject os c (ps ! i)" "saveAndReturn os p (ps[i := p]) file' = (file'', r)"
    | (added) c ps pid p where "loadRegistry file' = Inr ps" "firstProject (\<lambda>p. samePath (pj_Path p) c) ps = None"
      "randomProjectID os = Inr pid" "p = newProject os pid c" "saveAndReturn os p (ps @ [p]) file' = (file'', r)"
    using assms(1) by (auto simp: Register_def Let_def split: sum.splits option.splits)
  then show ?thesis
  proof cases
    case saved
    then have "registryInv (ps[i := p])"
      using firstProject_Some [OF saved(2)] assms(2) by (simp add: registryInv_def fileInv_def map_update_same)
    with saved assms(2) saveAndReturn_load show ?thesis by (blast intro: fileInv_saved)
  next
    case added
    then have "registryInv (ps @ [p])"
      using assms(2) assms(3) [OF added(1,3)] firstProject_None [of _ ps] added(2)
      by (auto simp: registryInv_def fileInv_def newProject_def samePath_def firstProject_None)
    with added assms(2) saveAndReturn_load show ?thesis by (blast intro: fileInv_saved)
  qed (use assms in simp)
qed

lemma repair_inv:
  assumes "Repair os pid path file' = (file'', r)" "fileInv file'"
  shows "fileInv file''"
proof -
  consider "file'' = file'" | (saved) c ps i p where "loadRegistry file' = Inr ps" "find (\<lambda>p. pj_ID p \<noteq> pid \<and> samePath (pj_Path p) c) ps = None"
      "firstProject (\<lambda>p. pj_ID p = pid) ps = Some i" "p = refreshProject os c ((ps ! i)\<lparr>pj_Path := c\<rparr>)"
      "saveAndReturn os p (ps[i := p]) file' = (file'', r)"
    using assms(1) by (auto simp: Repair_def Let_def split: sum.splits option.splits)
  then show ?thesis
  proof cases
    case saved
    note i = firstProject_Some [OF saved(3)]
    have inv: "registryInv ps" using assms(2) saved(1) by (simp add: fileInv_def)
    have ids: "List.map pj_ID (ps[i := p]) = List.map pj_ID ps" by (rule map_update_same) (simp_all add: i saved(4))
    have other: "Clean (pj_Path (ps ! j)) \<noteq> Clean c" if j: "j < length ps" "j \<noteq> i" for j
    proof -
      have "pj_ID (ps ! j) \<noteq> pj_ID (ps ! i)" using inv i j by (auto simp: registryInv_def distinct_conv_nth)
      with saved(2) j i show ?thesis unfolding find_None_iff samePath_def by (metis nth_mem)
    qed
    have "distinct (List.map (\<lambda>p. Clean (pj_Path p)) (ps[i := p]))"
      unfolding distinct_conv_nth using inv i saved(4) other
      by (auto simp: registryInv_def distinct_conv_nth nth_list_update) metis
    with ids inv have "registryInv (ps[i := p])" by (simp add: registryInv_def)
    with saved assms(2) saveAndReturn_load show ?thesis by (blast intro: fileInv_saved)
  qed (use assms in simp)
qed

lemma distinct_without: "distinct (List.map f ps) \<Longrightarrow> distinct (List.map f (take i ps @ drop (Suc i) ps))"
proof -
  assume "distinct (List.map f ps)"
  then have "distinct (take i (List.map f ps) @ drop i (List.map f ps))" by simp
  with set_drop_subset_set_drop [of i "Suc i" "List.map f ps"] \<open>distinct (List.map f ps)\<close>
  have "distinct (take i (List.map f ps) @ drop (Suc i) (List.map f ps))" unfolding distinct_append by (auto simp: distinct_drop)
  then show ?thesis by (simp only: map_append take_map drop_map)
qed

lemma remove_inv:
  assumes "RemoveProject os pid file' = (file'', e)" "fileInv file'"
  shows "fileInv file''"
proof -
  consider "file'' = file'" | (saved) ps i where "loadRegistry file' = Inr ps" "saveRegistry os (take i ps @ drop (Suc i) ps) file' = (file'', e)"
    using assms(1) by (auto simp: RemoveProject_def split: sum.splits option.splits)
  then show ?thesis
  proof cases
    case saved
    then have "registryInv (take i ps @ drop (Suc i) ps)" using assms(2) distinct_without unfolding registryInv_def fileInv_def by blast
    with saved assms(2) saveRegistry_load show ?thesis by (blast intro: fileInv_saved)
  qed (use assms in simp)
qed

text \<open>No two projects share an ID or a checkout. Whatever sequence of \<open>Register\<close>, \<open>Repair\<close> and \<open>Remove\<close> runs on the registry, failing
  or not, a registry with distinct IDs and distinct paths keeps both.\<close>

lemma registry_invariant:
  assumes "registryStep\<^sup>*\<^sup>* file' file''" "fileInv file'"
  shows "fileInv file''"
  using assms
proof (induction rule: rtranclp_induct)
  case (step y z)
  from step(2) show ?case
    by (cases rule: registryStep.cases) (use step.IH step.prems register_inv repair_inv remove_inv in blast)+
qed

section \<open>A witness\<close>

definition exRegistryOS :: registryOS where
  "exRegistryOS = \<lparr>rg_Abs = (\<lambda>p. Inr p), rg_EvalSymlinks = (\<lambda>p. Inr p), rg_IsDir = (\<lambda>_. Inr True), rg_Exists = (\<lambda>_. False),
     rg_Remote = (\<lambda>_. None), rg_Now = 0, rg_Random = Inr (replicate 16 CHR ''x''), rg_Save = Saved\<rparr>"

lemma registry_invariant_witness:
  "fileInv (fst (Repair exRegistryOS ''x'' ''/q'' (fst (Register exRegistryOS ''/p'' NoRegistry))))"
proof -
  have "registryStep NoRegistry (fst (Register exRegistryOS ''/p'' NoRegistry))"
    by (rule registryStep.register [OF prod.collapse [symmetric]]) (simp add: loadRegistry_def)
  moreover have "registryStep f (fst (Repair exRegistryOS ''x'' ''/q'' f))" for f
    by (rule registryStep.repair [OF prod.collapse [symmetric]])
  ultimately have "registryStep\<^sup>*\<^sup>* NoRegistry (fst (Repair exRegistryOS ''x'' ''/q'' (fst (Register exRegistryOS ''/p'' NoRegistry))))"
    by (meson converse_rtranclp_into_rtranclp r_into_rtranclp)
  then show ?thesis by (rule registry_invariant) (simp add: fileInv_def loadRegistry_def registryInv_def)
qed

end
