(* ===== verification/GitScan.thy ===== *)
theory GitScan
  imports Envset_Props Scrub_Props
begin

text \<open>
  What the git hooks check: \<open>src/cmd/ironrun/gitcmd.go\<close> and the loading and matching of values in
  \<open>src/cmd/ironrun/agentscrub.go\<close>.

  The git commands are functions from their arguments to their output.  A check opens the project anew for every
  push line, so what opening gives is a function of the number of the line.
\<close>

section \<open>Values to look for\<close>

definition entryValue :: "'s envEnv \<Rightarrow> envSet \<Rightarrow> entry \<Rightarrow> 's envManager \<Rightarrow> 's envManager \<times> (envError + bytes)" where
  "entryValue env s e m =
     (if ee_Kind e = EntryFile then GetBytes env (es_Name s) (ee_Name e) m else GetValue env (es_Name s) (ee_Name e) m)"

fun setSecretsFrom :: "'s envEnv \<Rightarrow> envSet \<Rightarrow> entry list \<Rightarrow> 's envManager \<Rightarrow> scrubSecret list \<Rightarrow> 's envManager \<times> scrubSecret list" where
  "setSecretsFrom env s [] m out = (m, out)"
| "setSecretsFrom env s (e # es) m out =
     (case entryValue env s e m of
        (m, Inl _) \<Rightarrow> setSecretsFrom env s es m out
      | (m, Inr v) \<Rightarrow>
          (let secret = \<lparr>ss_Alias = ee_Name e, ss_Value = v\<rparr>
           in setSecretsFrom env s es m (if v = [] \<or> secret \<in> set out then out else out @ [secret])))"

definition setSecrets :: "'s envEnv \<Rightarrow> envSet \<Rightarrow> 's envManager \<Rightarrow> scrubSecret list \<Rightarrow> 's envManager \<times> scrubSecret list" where
  "setSecrets env s m out = setSecretsFrom env s (es_Entries s) m out"

fun setsSecrets :: "'s envEnv \<Rightarrow> string list \<Rightarrow> 's envManager \<Rightarrow> scrubSecret list \<Rightarrow> 's envManager \<times> scrubSecret list" where
  "setsSecrets env [] m out = (m, out)"
| "setsSecrets env (name # names) m out =
     (case SetOf m name of
        None \<Rightarrow> setsSecrets env names m out
      | Some s \<Rightarrow>
          if envExpired env s then setsSecrets env names m out
          else (case setSecrets env s m out of (m, out) \<Rightarrow> setsSecrets env names m out))"

datatype loadError = OpenProject string | NoActiveValues string | NoValues | NoActiveEnvironment envError

definition allSetSecrets :: "'s envEnv \<Rightarrow> 's envManager \<Rightarrow> loadError + scrubSecret list" where
  "allSetSecrets env m =
     (case setsSecrets env (Names m) m [] of (_, out) \<Rightarrow> if out = [] then Err NoValues else Ok out)"

type_synonym 's opened = "string + 's envEnv \<times> 's envManager"

definition loadAllSecrets :: "'s opened \<Rightarrow> loadError + scrubSecret list" where
  "loadAllSecrets project = (case project of Inl err \<Rightarrow> Err (OpenProject err) | Inr (env, m) \<Rightarrow> allSetSecrets env m)"

definition loadActiveSecrets :: "'s opened \<Rightarrow> loadError + scrubSecret list" where
  "loadActiveSecrets project =
     (case project of
        Inl err \<Rightarrow> Err (OpenProject err)
      | Inr (env, m) \<Rightarrow> (case Active env m of
          Inl err \<Rightarrow> Err (NoActiveEnvironment err)
        | Inr s \<Rightarrow> (case setSecrets env s m [] of (_, out) \<Rightarrow> if out = [] then Err (NoActiveValues (es_Name s)) else Ok out)))"

section \<open>Hits\<close>

record aliasHit =
  ah_Alias :: string
  ah_Placeholder :: bytes
  ah_Count :: nat

text \<open>\<open>sort.Slice\<close> keeps no order among hits of the same alias; the order of the secrets is taken.\<close>

definition aliasHits :: "(bytes \<Rightarrow> bytes) \<Rightarrow> bytes \<Rightarrow> scrubSecret \<Rightarrow> aliasHit list" where
  "aliasHits sha256 content s =
     (let m = NewMatcher sha256 [s]; n = snd (Redact m content)
      in if mt_secrets m = [] then []
         else if n > 0 then [\<lparr>ah_Alias = ss_Alias s, ah_Placeholder = Placeholder sha256 (ss_Alias s) (ss_Value s), ah_Count = n\<rparr>]
         else [])"

definition hitsByAlias :: "(bytes \<Rightarrow> bytes) \<Rightarrow> scrubSecret list \<Rightarrow> bytes \<Rightarrow> aliasHit list" where
  "hitsByAlias sha256 secrets content = sort_key ah_Alias (concat (List.map (aliasHits sha256 content) secrets))"

datatype hookError =
    HookVault loadError | HookHits string "aliasHit list" | HookInput string | HookGit string string | EmptyPush string

definition blockOnHits :: "(bytes \<Rightarrow> bytes) \<Rightarrow> 's opened \<Rightarrow> string \<Rightarrow> bytes \<Rightarrow> hookError option" where
  "blockOnHits sha256 project where' content =
     (case loadAllSecrets project of
        Inl err \<Rightarrow> Some (HookVault err)
      | Inr secrets \<Rightarrow> (let hits = hitsByAlias sha256 secrets content in if hits = [] then None else Some (HookHits where' hits)))"

section \<open>What a diff adds\<close>

fun addedLines :: "bool \<Rightarrow> bytes list \<Rightarrow> bytes" where
  "addedLines inHunk [] = []"
| "addedLines inHunk (line # rest) =
     (if prefix ''@@'' line then addedLines True rest
      else if \<not> inHunk then addedLines inHunk rest
      else if prefix ''+'' line then tl line @ newline # addedLines inHunk rest
      else if line = [] \<or> hd line \<in> {CHR '' '', CHR ''-'', CHR 0x5C} then addedLines inHunk rest
      else addedLines False rest)"

definition addedContent :: "bytes \<Rightarrow> bytes" where
  "addedContent diff = addedLines False (splitByte newline diff)"

section \<open>The checks\<close>

definition trimByte :: "char \<Rightarrow> string \<Rightarrow> string" where
  "trimByte c s = rev (dropWhile (\<lambda>d. d = c) (rev (dropWhile (\<lambda>d. d = c) s)))"

definition isZeroSha :: "string \<Rightarrow> bool" where
  "isZeroSha sha \<longleftrightarrow> sha \<noteq> [] \<and> trimByte (CHR ''0'') sha = []"

definition scanDiffFlags :: "string list" where
  "scanDiffFlags = [''--no-color'', ''--text'', ''--no-ext-diff'', ''--no-textconv'']"

record gitCommands =
  gt_RevList :: "string list \<Rightarrow> string + bytes"
  gt_Output :: "string list \<Rightarrow> string + bytes"

definition pushRange :: "gitCommands \<Rightarrow> string \<Rightarrow> string \<Rightarrow> string \<Rightarrow> hookError + string list" where
  "pushRange git localRef localSha remoteSha =
     (if isZeroSha localSha then Err (EmptyPush localRef)
      else if \<not> isZeroSha remoteSha then Ok [remoteSha @ ''..'' @ localSha]
      else (case gt_RevList git [''rev-list'', localSha, ''--not'', ''--remotes''] of
              Inr out \<Rightarrow> if Fields out \<noteq> [] then Ok [localSha, ''--not'', ''--remotes''] else Ok [''HEAD..'' @ localSha]
            | Inl _ \<Rightarrow> Ok [''HEAD..'' @ localSha]))"

definition logArgs :: "string list \<Rightarrow> string list" where
  "logArgs revArgs = [''log'', ''-p''] @ scanDiffFlags @ revArgs"

definition checkRef :: "(bytes \<Rightarrow> bytes) \<Rightarrow> gitCommands \<Rightarrow> 's opened \<Rightarrow> bytes \<Rightarrow> hookError option" where
  "checkRef sha256 git project line =
     (case Fields line of
        [localRef, localSha, _, remoteSha] \<Rightarrow>
          if isZeroSha localSha then None
          else (case pushRange git localRef localSha remoteSha of
              Inl err \<Rightarrow> Some err
            | Inr revArgs \<Rightarrow> (case gt_Output git (logArgs revArgs) of
                Inl err \<Rightarrow> Some (HookGit localRef err)
              | Inr diff \<Rightarrow> blockOnHits sha256 project (''push of '' @ localRef) (addedContent diff)))
      | _ \<Rightarrow> None)"

fun checkRefs :: "(bytes \<Rightarrow> bytes) \<Rightarrow> gitCommands \<Rightarrow> (nat \<Rightarrow> 's opened) \<Rightarrow> nat \<Rightarrow> bytes list \<Rightarrow> hookError option" where
  "checkRefs sha256 git projects i [] = None"
| "checkRefs sha256 git projects i (line # rest) =
     (case checkRef sha256 git (projects i) line of
        Some err \<Rightarrow> Some err
      | None \<Rightarrow> checkRefs sha256 git projects (Suc i) rest)"

definition planLines :: "bytes \<Rightarrow> bytes list" where
  "planLines plan = splitByte newline (TrimSpace plan)"

definition checkPush :: "(bytes \<Rightarrow> bytes) \<Rightarrow> gitCommands \<Rightarrow> (nat \<Rightarrow> 's opened) \<Rightarrow> string + bytes \<Rightarrow> hookError option" where
  "checkPush sha256 git projects stdin =
     (case stdin of Inl err \<Rightarrow> Some (HookInput err) | Inr plan \<Rightarrow> checkRefs sha256 git projects 0 (planLines plan))"

definition checkStaged :: "(bytes \<Rightarrow> bytes) \<Rightarrow> gitCommands \<Rightarrow> 's opened \<Rightarrow> hookError option" where
  "checkStaged sha256 git project =
     (case gt_Output git ([''diff'', ''--cached''] @ scanDiffFlags) of
        Inl err \<Rightarrow> Some (HookGit ''git diff --cached'' err)
      | Inr diff \<Rightarrow> blockOnHits sha256 project ''staged diff'' (addedContent diff))"

definition scanDiff :: "(bytes \<Rightarrow> bytes) \<Rightarrow> 's opened \<Rightarrow> string + bytes \<Rightarrow> hookError option" where
  "scanDiff sha256 project stdin =
     (case stdin of Inl err \<Rightarrow> Some (HookInput err) | Inr diff \<Rightarrow> blockOnHits sha256 project ''diff'' (addedContent diff))"

section \<open>The scrub command\<close>

datatype scrubError = ScrubLoad loadError | NoStore "string list" | ScrubFailed string scanState

definition selectRoots :: "string list \<Rightarrow> rootDir list \<Rightarrow> rootDir list" where
  "selectRoots only roots = List.filter (\<lambda>r. fst r \<in> ToLower ` set only) roots"

definition agentScrub :: "(bytes \<Rightarrow> bytes) \<Rightarrow> 's opened \<Rightarrow> rootDir list \<Rightarrow> string list \<Rightarrow> bool \<Rightarrow> (string \<Rightarrow> bytes) \<Rightarrow> scrubError + scanState" where
  "agentScrub sha256 project roots only apply' fs =
     (case loadActiveSecrets project of
        Inl err \<Rightarrow> Err (ScrubLoad err)
      | Inr secrets \<Rightarrow>
          if only \<noteq> [] \<and> selectRoots only roots = [] then Err (NoStore only)
          else (case Scrub (NewMatcher sha256 secrets) (if only \<noteq> [] then selectRoots only roots else roots) apply' fs of
                  Inl (err, st) \<Rightarrow> Err (ScrubFailed err st)
                | Inr st \<Rightarrow> Ok st))"

end
