(* ===== verification/GitScan_Props.thy ===== *)
theory GitScan_Props
  imports GitScan
begin

text \<open>
  What passes the git hooks: the reading of a diff against a grammar of diffs, and a push that is let through
  adds no managed value in any form.
\<close>

section \<open>Diffs\<close>

text \<open>
  The output of \<open>git diff\<close> and \<open>git log -p\<close>: sections of header lines and hunks.  The blank line that separates
  the commits of a log follows the hunk before it.
\<close>

datatype diffLine = Context bytes | Added bytes | Removed bytes | NoNewline bytes | Blank

fun lineText :: "diffLine \<Rightarrow> bytes" where
  "lineText (Context s) = CHR '' '' # s"
| "lineText (Added s) = CHR ''+'' # s"
| "lineText (Removed s) = CHR ''-'' # s"
| "lineText (NoNewline s) = CHR 0x5C # s"
| "lineText Blank = []"

record hunk =
  hk_Header :: bytes
  hk_Lines :: "diffLine list"

record diffSection =
  ds_Title :: bytes
  ds_Headers :: "bytes list"
  ds_Hunks :: "hunk list"

definition hunkLines :: "hunk \<Rightarrow> bytes list" where
  "hunkLines h = (''@@'' @ hk_Header h) # List.map lineText (hk_Lines h)"

definition sectionLines :: "diffSection \<Rightarrow> bytes list" where
  "sectionLines d = ds_Title d # ds_Headers d @ concat (List.map hunkLines (ds_Hunks d))"

definition renderLines :: "bytes list \<Rightarrow> bytes" where
  "renderLines ls = concat (List.map (\<lambda>l. l @ [newline]) ls)"

definition renderDiff :: "diffSection list \<Rightarrow> bytes" where
  "renderDiff ds = renderLines (concat (List.map sectionLines ds))"

definition titleOk :: "bytes \<Rightarrow> bool" where
  "titleOk l \<longleftrightarrow> l \<noteq> [] \<and> \<not> prefix ''@@'' l \<and> hd l \<notin> {CHR '' '', CHR ''+'', CHR ''-'', CHR 0x5C}"

definition sectionOk :: "diffSection \<Rightarrow> bool" where
  "sectionOk d \<longleftrightarrow> titleOk (ds_Title d) \<and> list_all (\<lambda>l. \<not> prefix ''@@'' l) (ds_Headers d) \<and>
     list_all (\<lambda>l. newline \<notin> set l) (sectionLines d)"

fun addedText :: "diffLine \<Rightarrow> bytes" where
  "addedText (Added s) = s @ [newline]"
| "addedText _ = []"

definition addedBy :: "diffSection list \<Rightarrow> bytes" where
  "addedBy ds = concat (List.map (\<lambda>d. concat (List.map (\<lambda>h. concat (List.map addedText (hk_Lines h))) (ds_Hunks d))) ds)"

lemma splitByte_render: "list_all (\<lambda>l. newline \<notin> set l) ls \<Longrightarrow> splitByte newline (renderLines ls) = ls @ [[]]"
  by (induction ls) (simp_all add: renderLines_def splitByte_append_sep splitByte_free)

lemma Join_splitByte: "Join (splitByte sep s) [sep] = s"
proof (induction s)
  case (Cons c s)
  obtain a as where s: "splitByte sep s = a # as" by (cases "splitByte sep s") simp_all
  with Cons show ?case by (cases as) auto
qed simp

lemma addedLines_hunk: "addedLines True (List.map lineText ls @ rest) = concat (List.map addedText ls) @ addedLines True rest"
proof (induction ls)
  case (Cons l ls)
  then show ?case by (cases l) auto
qed simp

lemma addedLines_hunks:
  "addedLines b (concat (List.map hunkLines hs) @ rest) =
     concat (List.map (\<lambda>h. concat (List.map addedText (hk_Lines h))) hs) @ addedLines (b \<or> hs \<noteq> []) rest"
  by (induction hs arbitrary: b) (simp_all add: hunkLines_def addedLines_hunk)

lemma addedLines_headers: "list_all (\<lambda>l. \<not> prefix ''@@'' l) ls \<Longrightarrow> addedLines False (ls @ rest) = addedLines False rest"
  by (induction ls) simp_all

lemma addedLines_title: "titleOk l \<Longrightarrow> addedLines b (l # rest) = addedLines False rest"
  by (cases l) (auto simp: titleOk_def)

lemma addedLines_diff:
  "list_all sectionOk ds \<Longrightarrow> addedLines b (concat (List.map sectionLines ds) @ [[]]) = addedBy ds"
proof (induction ds arbitrary: b)
  case (Cons d ds)
  then show ?case
    by (simp add: sectionOk_def sectionLines_def addedLines_title addedLines_headers addedLines_hunks addedBy_def
        del: addedLines.simps)
qed (simp add: addedBy_def)

lemma addedContent_render: "list_all sectionOk ds \<Longrightarrow> addedContent (renderDiff ds) = addedBy ds"
  unfolding addedContent_def renderDiff_def
  by (subst splitByte_render) (auto simp: sectionOk_def list_all_iff intro!: addedLines_diff)

text \<open>C37: What is scanned of a diff is exactly what it adds: the added lines of every hunk in order, each with its line end, and nothing of
  file names, commit messages, context or removed lines, however these begin.\<close>

theorem added_content_exact:
  assumes "list_all sectionOk ds"
  shows "addedContent (renderDiff ds) = addedBy ds"
  using assms by (rule addedContent_render)

definition exDiff :: "diffSection list" where
  "exDiff =
     [\<lparr>ds_Title = ''commit 1'', ds_Headers = [[], ''    +fix'', []], ds_Hunks = []\<rparr>,
      \<lparr>ds_Title = ''diff --git a/k b/k'', ds_Headers = [''--- a/k'', ''+++ b/k''],
       ds_Hunks = [\<lparr>hk_Header = '' -1 +1,2 @@'', hk_Lines = [Removed ''old'', Added ''-----KEY'', Added ''++ab'', NoNewline '' No newline'', Blank]\<rparr>]\<rparr>]"

theorem added_content_exact_witness:
  "addedContent (renderDiff exDiff) = ''-----KEY'' @ newline # ''++ab'' @ [newline]"
proof -
  have "list_all sectionOk exDiff" by code_simp
  from added_content_exact [OF this] show ?thesis by (simp add: addedBy_def exDiff_def)
qed

section \<open>Which values are looked for\<close>

text \<open>
  The contract of a store under reads: a read changes nothing that any read can see.  The migrating store moves a
  value on its first read, which its view hides.
\<close>

definition steadyRead :: "('s \<Rightarrow> 'v) \<Rightarrow> (string \<Rightarrow> string \<Rightarrow> 's \<Rightarrow> 's \<times> (storeError + bytes)) \<Rightarrow> bool" where
  "steadyRead view get \<longleftrightarrow>
     (\<forall>scope key vs. view (fst (get scope key vs)) = view vs) \<and>
     (\<forall>scope key vs vs'. view vs = view vs' \<longrightarrow> snd (get scope key vs) = snd (get scope key vs'))"

definition steadyStore :: "'s valueStore \<Rightarrow> ('s \<Rightarrow> 'v) \<Rightarrow> bool" where
  "steadyStore st view \<longleftrightarrow> steadyRead view (vst_Get st) \<and> (\<forall>get. vst_GetBytes st = Some get \<longrightarrow> steadyRead view get)"

definition sameView :: "('s \<Rightarrow> 'v) \<Rightarrow> 's envManager \<Rightarrow> 's envManager \<Rightarrow> bool" where
  "sameView view m m' \<longleftrightarrow> mg_Meta m' = mg_Meta m \<and> view (mg_Values m') = view (mg_Values m)"

lemma sameView_refl [simp]: "sameView view m m"
  by (simp add: sameView_def)

lemma sameView_trans: "sameView view a b \<Longrightarrow> sameView view b c \<Longrightarrow> sameView view a c"
  by (simp add: sameView_def)

lemma liftGet_sel: "fst (liftGet m r) = m\<lparr>mg_Values := fst r\<rparr>"
  "snd (liftGet m r) = (case snd r of Inl e \<Rightarrow> Inl (StoreErr e) | Inr v \<Rightarrow> Inr v)"
  by (simp_all add: liftGet_def)

definition entryRead :: "'s envEnv \<Rightarrow> entry \<Rightarrow> string \<Rightarrow> string \<Rightarrow> 's \<Rightarrow> 's \<times> (storeError + bytes)" where
  "entryRead env e =
     (if ee_Kind e = EntryFile then (case vst_GetBytes (ev_Store env) of Some get \<Rightarrow> get | None \<Rightarrow> vst_Get (ev_Store env))
      else vst_Get (ev_Store env))"

lemma entryValue_read:
  "entryValue env s e m =
     (case liveSet env (es_Name s) m of
        Some err \<Rightarrow> (m, Inl err)
      | None \<Rightarrow> liftGet m (entryRead env e (envScope (ev_Identity env) (mg_Meta m) (es_Name s)) (ee_Name e) (mg_Values m)))"
  by (cases "liveSet env (es_Name s) m"; cases "vst_GetBytes (ev_Store env)")
    (simp_all add: entryValue_def entryRead_def GetBytes_def GetValue_def Let_def)

lemma steadyStore_entryRead: "steadyStore (ev_Store env) view \<Longrightarrow> steadyRead view (entryRead env e)"
  by (cases "vst_GetBytes (ev_Store env)") (simp_all add: entryRead_def steadyStore_def)

lemma entryValue_keeps:
  assumes "steadyStore (ev_Store env) view"
  shows "sameView view m (fst (entryValue env s e m))"
proof (cases "liveSet env (es_Name s) m")
  case None
  then show ?thesis
    using steadyStore_entryRead [OF assms, of e] by (simp add: entryValue_read sameView_def liftGet_sel steadyRead_def)
qed (simp add: entryValue_read)

lemma entryValue_cong:
  assumes "steadyStore (ev_Store env) view" "sameView view m m'"
  shows "snd (entryValue env s e m') = snd (entryValue env s e m)"
proof -
  from assms(2) have meta: "mg_Meta m' = mg_Meta m" and vals: "view (mg_Values m') = view (mg_Values m)"
    by (simp_all add: sameView_def)
  then have "liveSet env (es_Name s) m' = liveSet env (es_Name s) m" by (simp add: liveSet_def SetOf_def)
  moreover have "snd (entryRead env e scope key (mg_Values m')) = snd (entryRead env e scope key (mg_Values m))" for scope key
    using steadyStore_entryRead [OF assms(1), of e] vals unfolding steadyRead_def by blast
  ultimately show ?thesis by (simp add: entryValue_read meta liftGet_sel split: option.split)
qed

definition hasValue :: "'s envEnv \<Rightarrow> 's envManager \<Rightarrow> envSet \<Rightarrow> entry \<Rightarrow> bytes \<Rightarrow> bool" where
  "hasValue env m s e v \<longleftrightarrow> snd (entryValue env s e m) = Inr v \<and> v \<noteq> []"

lemma setSecretsFrom_spec:
  assumes "steadyStore (ev_Store env) view" "setSecretsFrom env s es m out = (m', out')"
  shows "sameView view m m' \<and> set out \<subseteq> set out' \<and>
    (\<forall>e \<in> set es. \<forall>v. hasValue env m s e v \<longrightarrow> \<lparr>ss_Alias = ee_Name e, ss_Value = v\<rparr> \<in> set out')"
  using assms(2)
proof (induction es arbitrary: m out)
  case (Cons e es)
  obtain m1 r where read: "entryValue env s e m = (m1, r)" by force
  have m1: "sameView view m m1" using entryValue_keeps [OF assms(1), of m s e] read by simp
  obtain out1 where step: "setSecretsFrom env s es m1 out1 = (m', out')" and out1: "set out \<subseteq> set out1"
    "\<And>v. hasValue env m s e v \<Longrightarrow> \<lparr>ss_Alias = ee_Name e, ss_Value = v\<rparr> \<in> set out1"
    using Cons.prems read by (cases r) (fastforce simp: hasValue_def Let_def split: if_splits)+
  have same: "hasValue env m1 s e' v = hasValue env m s e' v" for e' v
    using entryValue_cong [OF assms(1) m1] by (simp add: hasValue_def)
  from Cons.IH [OF step] out1 m1 same show ?case by (auto dest: sameView_trans)
qed simp

lemma setsSecrets_spec:
  assumes "steadyStore (ev_Store env) view" "setsSecrets env names m out = (m', out')"
  shows "set out \<subseteq> set out' \<and>
    (\<forall>name \<in> set names. \<forall>s e v. SetOf m name = Some s \<longrightarrow> \<not> envExpired env s \<longrightarrow> e \<in> set (es_Entries s) \<longrightarrow>
       hasValue env m s e v \<longrightarrow> \<lparr>ss_Alias = ee_Name e, ss_Value = v\<rparr> \<in> set out')"
  using assms(2)
proof (induction names arbitrary: m out)
  case (Cons name names)
  show ?case
  proof (cases "\<exists>s. SetOf m name = Some s \<and> \<not> envExpired env s")
    case True
    then obtain s where s: "SetOf m name = Some s" "\<not> envExpired env s" by blast
    obtain m1 out1 where read: "setSecrets env s m out = (m1, out1)" by force
    from setSecretsFrom_spec [OF assms(1) read [unfolded setSecrets_def]]
    have m1: "sameView view m m1" and out1: "set out \<subseteq> set out1"
      "\<And>e v. e \<in> set (es_Entries s) \<Longrightarrow> hasValue env m s e v \<Longrightarrow> \<lparr>ss_Alias = ee_Name e, ss_Value = v\<rparr> \<in> set out1"
      by auto
    have same: "hasValue env m1 s' e v = hasValue env m s' e v" "SetOf m1 n = SetOf m n" for s' e v n
      using entryValue_cong [OF assms(1) m1] m1 by (simp_all add: hasValue_def sameView_def SetOf_def)
    have "setsSecrets env names m1 out1 = (m', out')" using Cons.prems s read by simp
    from Cons.IH [OF this] show ?thesis using out1 s by (auto simp: same)
  next
    case False
    then have "setsSecrets env names m out = (m', out')" using Cons.prems by (auto split: option.splits if_splits)
    from Cons.IH [OF this] False show ?thesis by auto
  qed
qed simp

section \<open>A push that passes\<close>

lemma mt_secrets_single: "mt_secrets (NewMatcher sha256 [s]) \<noteq> [] \<longleftrightarrow> MinSecretLen \<le> length (ss_Value s)"
  by (simp add: NewMatcher_def addSecretNeedles_def Let_def)

lemma aliasHits_none: "aliasHits sha256 content s = [] \<longleftrightarrow> (\<forall>w \<in> needleSet [s]. \<not> sublist w content)"
proof (cases "MinSecretLen \<le> length (ss_Value s)")
  case True
  then show ?thesis using Redact_none [of sha256 "[s]" content] mt_secrets_single [of sha256 s]
    by (auto simp: aliasHits_def Let_def)
next
  case False
  then show ?thesis using mt_secrets_single [of sha256 s] by (simp add: aliasHits_def needleSet_def Let_def)
qed

lemma needleSet_UN: "needleSet ss = (\<Union>s \<in> set ss. needleSet [s])"
  by (auto simp: needleSet_def)

lemma hitsByAlias_none: "hitsByAlias sha256 secrets content = [] \<longleftrightarrow> (\<forall>w \<in> needleSet secrets. \<not> sublist w content)"
proof -
  have "hitsByAlias sha256 secrets content = [] \<longleftrightarrow> concat (List.map (aliasHits sha256 content) secrets) = []"
    unfolding hitsByAlias_def by (metis length_0_conv length_sort)
  then show ?thesis by (auto simp: aliasHits_none needleSet_UN [of secrets])
qed

lemma blockOnHits_none:
  "blockOnHits sha256 project where' content = None \<longleftrightarrow>
     (\<exists>secrets. loadAllSecrets project = Inr secrets \<and> (\<forall>w \<in> needleSet secrets. \<not> sublist w content))"
  by (auto simp: blockOnHits_def Let_def hitsByAlias_none split: sum.splits)

lemma loadAllSecrets_has:
  assumes "loadAllSecrets (Inr (env, m)) = Inr secrets" "steadyStore (ev_Store env) view"
    and "SetOf m name = Some s" "\<not> envExpired env s" "e \<in> set (es_Entries s)" "hasValue env m s e v"
  shows "\<lparr>ss_Alias = ee_Name e, ss_Value = v\<rparr> \<in> set secrets"
proof -
  have "name \<in> set (Names m)" using assms(3) using mapGet_None [of "md_Sets (mg_Meta m)" name] by (auto simp: Names_def SetOf_def)
  moreover obtain m' where "setsSecrets env (Names m) m [] = (m', secrets)"
    using assms(1) by (auto simp: loadAllSecrets_def allSetSecrets_def split: prod.splits if_splits)
  ultimately show ?thesis using setsSecrets_spec [OF assms(2)] assms(3-6) by blast
qed

lemma checkRefs_None: "checkRefs sha256 git projects k ls = None \<Longrightarrow> i < length ls \<Longrightarrow> checkRef sha256 git (projects (k + i)) (ls ! i) = None"
proof (induction ls arbitrary: k i)
  case (Cons l ls)
  show ?case
  proof (cases i)
    case (Suc j)
    with Cons.IH [of "Suc k" j] Cons.prems show ?thesis by (auto split: option.splits)
  qed (use Cons.prems in \<open>auto split: option.splits\<close>)
qed simp

text \<open>C38: A push that the hook lets through publishes no managed value of eight bytes or more that git shows it. For every ref that is not deleted
  the project could be opened and git showed the range of commits; and where that output is a well-formed diff and the store is steady, what it
  adds contains no form of any such value of any unexpired environment. What \<open>git log -p\<close> does not print (the changes of a merge commit, commits
  that some remote already has) is not covered.\<close>

theorem check_push_clean:
  assumes passed: "checkPush sha256 git projects (Inr plan) = None"
    and line: "i < length (planLines plan)" "Fields (planLines plan ! i) = [localRef, localSha, remoteRef, remoteSha]" "\<not> isZeroSha localSha"
  shows "\<exists>range env m out. pushRange git localRef localSha remoteSha = Inr range \<and> gt_Output git (logArgs range) = Inr out \<and>
    projects i = Inr (env, m) \<and>
    (\<forall>view ds name s e v w. steadyStore (ev_Store env) view \<longrightarrow> out = renderDiff ds \<longrightarrow> list_all sectionOk ds \<longrightarrow>
       SetOf m name = Some s \<longrightarrow> \<not> envExpired env s \<longrightarrow> e \<in> set (es_Entries s) \<longrightarrow> hasValue env m s e v \<longrightarrow>
       MinSecretLen \<le> length v \<longrightarrow> w \<in> set (Variants v) \<longrightarrow> \<not> sublist w (addedBy ds))"
proof -
  have "checkRef sha256 git (projects i) (planLines plan ! i) = None"
    using checkRefs_None [of sha256 git projects 0 "planLines plan" i] passed line(1) by (simp add: checkPush_def)
  then obtain range out where range: "pushRange git localRef localSha remoteSha = Inr range"
      and out: "gt_Output git (logArgs range) = Inr out"
      and "blockOnHits sha256 (projects i) (''push of '' @ localRef) (addedContent out) = None"
    using line by (auto simp: checkRef_def split: sum.splits)
  then obtain secrets where secrets: "loadAllSecrets (projects i) = Inr secrets"
      and clean: "\<forall>w \<in> needleSet secrets. \<not> sublist w (addedContent out)"
    unfolding blockOnHits_none by blast
  then obtain env m where project: "projects i = Inr (env, m)" by (auto simp: loadAllSecrets_def split: sum.splits)
  have "\<not> sublist w (addedBy ds)"
    if "steadyStore (ev_Store env) view" "out = renderDiff ds" "list_all sectionOk ds" "SetOf m name = Some s" "\<not> envExpired env s"
      "e \<in> set (es_Entries s)" "hasValue env m s e v" "MinSecretLen \<le> length v" "w \<in> set (Variants v)" for view ds name s e v w
  proof -
    have "\<lparr>ss_Alias = ee_Name e, ss_Value = v\<rparr> \<in> set secrets"
      using loadAllSecrets_has [of env m secrets view] secrets project that by simp
    then have "w \<in> needleSet secrets" using that(8,9) by (force simp: needleSet_def)
    with clean that(2,3) show ?thesis by (simp add: addedContent_render)
  qed
  with range out project show ?thesis by blast
qed


section \<open>A witness\<close>

definition exScanManager :: "(string \<Rightarrow> string \<Rightarrow> string option) envManager" where
  "exScanManager = exampleManager\<lparr>
     mg_Meta := (mg_Meta exampleManager)\<lparr>md_Sets := [(''dev'', (newSet exampleEnvEnv ''dev'' False 0)\<lparr>es_Entries := [envEntry ''TOKEN'']\<rparr>)]\<rparr>,
     mg_Values := (\<lambda>_ _. Some ''hunter22'')\<rparr>"

definition exGit :: gitCommands where
  "exGit = \<lparr>gt_RevList = (\<lambda>_. Inl ''exit 128''), gt_Output = (\<lambda>_. Inr (renderDiff exDiff))\<rparr>"

definition exPush :: bytes where
  "exPush = ''b 1f b 2f''"

lemma exScan_set: "SetOf exScanManager ''dev'' = Some ((newSet exampleEnvEnv ''dev'' False 0)\<lparr>es_Entries := [envEntry ''TOKEN'']\<rparr>)"
  "\<not> envExpired exampleEnvEnv ((newSet exampleEnvEnv ''dev'' False 0)\<lparr>es_Entries := [envEntry ''TOKEN'']\<rparr>)"
  by (simp_all add: exScanManager_def SetOf_def mapGet_def envExpired_def newSet_def)

lemma exScan_value:
  "hasValue exampleEnvEnv exScanManager ((newSet exampleEnvEnv ''dev'' False 0)\<lparr>es_Entries := [envEntry ''TOKEN'']\<rparr>) (envEntry ''TOKEN'') ''hunter22''"
proof -
  have "liveSet exampleEnvEnv ''dev'' exScanManager = None" using exScan_set by (simp add: liveSet_def)
  then show ?thesis
    by (simp add: hasValue_def entryValue_def envEntry_def EntryEnvironment_def EntryFile_def GetValue_def newSet_def liftGet_sel)
      (simp add: exampleEnvEnv_def mapStore_def exScanManager_def)
qed

lemma exScan_steady: "steadyStore (ev_Store exampleEnvEnv) (\<lambda>vs. vs)"
  by (simp add: steadyStore_def steadyRead_def exampleEnvEnv_def mapStore_def)

lemma exScan_secrets: "loadAllSecrets (Inr (exampleEnvEnv, exScanManager)) = Inr [\<lparr>ss_Alias = ''TOKEN'', ss_Value = ''hunter22''\<rparr>]"
proof -
  let ?s = "(newSet exampleEnvEnv ''dev'' False 0)\<lparr>es_Entries := [envEntry ''TOKEN'']\<rparr>"
  have names: "Names exScanManager = [''dev'']" by (simp add: Names_def mapKeys_def exScanManager_def)
  obtain m where "entryValue exampleEnvEnv ?s (envEntry ''TOKEN'') exScanManager = (m, Inr ''hunter22'')"
    using exScan_value unfolding hasValue_def by (metis prod.collapse)
  then show ?thesis
    using exScan_set by (simp add: loadAllSecrets_def allSetSecrets_def names setSecrets_def envEntry_def)
qed

lemma exScan_hits: "aliasHits (\<lambda>s. s) (addedBy exDiff) \<lparr>ss_Alias = ''TOKEN'', ss_Value = ''hunter22''\<rparr> = []"
  by code_simp

lemma exPush_lines: "planLines exPush = [exPush]" "Fields exPush = [''b'', ''1f'', ''b'', ''2f'']"
  by (simp_all add: planLines_def exPush_def trim_eval Fields_def fieldsFrom.simps)

lemma exPush_shas: "\<not> isZeroSha ''1f''" "\<not> isZeroSha ''2f''"
  by (simp_all add: isZeroSha_def trimByte_def)

lemma exPush_passes: "checkPush (\<lambda>s. s) exGit (\<lambda>_. Inr (exampleEnvEnv, exScanManager)) (Inr exPush) = None"
proof -
  have "list_all sectionOk exDiff" by code_simp
  then show ?thesis
    using exScan_hits
    by (simp add: checkPush_def checkRef_def exPush_lines exPush_shas pushRange_def exGit_def blockOnHits_def exScan_secrets
        addedContent_render hitsByAlias_def)
qed

theorem check_push_clean_witness: "\<not> sublist ''hunter22'' (addedBy exDiff)"
proof -
  have i: "0 < length (planLines exPush)" by (simp add: exPush_lines)
  have fields: "Fields (planLines exPush ! 0) = [''b'', ''1f'', ''b'', ''2f'']" by (simp add: exPush_lines)
  have ok: "list_all sectionOk exDiff" by code_simp
  from check_push_clean [OF exPush_passes i fields exPush_shas(1)]
  have "\<forall>view ds name s e v w. steadyStore (ev_Store exampleEnvEnv) view \<longrightarrow> renderDiff exDiff = renderDiff ds \<longrightarrow>
      list_all sectionOk ds \<longrightarrow> SetOf exScanManager name = Some s \<longrightarrow> \<not> envExpired exampleEnvEnv s \<longrightarrow> e \<in> set (es_Entries s) \<longrightarrow>
      hasValue exampleEnvEnv exScanManager s e v \<longrightarrow> MinSecretLen \<le> length v \<longrightarrow> w \<in> set (Variants v) \<longrightarrow> \<not> sublist w (addedBy ds)"
    by (auto simp: exGit_def)
  with ok exScan_steady exScan_set exScan_value show ?thesis
    using Variants_nonempty [of "''hunter22''"] by (force simp: MinSecretLen_def)
qed

end
