(* ===== verification/History.thy ===== *)
theory History
  imports GitScan_Props AuditLog
begin

text \<open>
  Purging shell histories: \<open>src/internal/shellguard/history.go\<close> and the command in
  \<open>src/cmd/ironrun/historycmd.go\<close>.

  The file system is a map from paths to contents; a read or a replacement may fail.  The steps of
  \<open>atomicWrite\<close> are one, which replaces the file or changes nothing.
\<close>

record historyFile =
  hf_Shell :: string
  hf_Path :: string

record shellVars =
  sh_Home :: string
  sh_Getenv :: "string \<Rightarrow> string"

definition addHistory :: "string \<Rightarrow> string \<Rightarrow> historyFile list \<Rightarrow> historyFile list" where
  "addHistory shell path out =
     (if path = [] \<or> path \<in> hf_Path ` set out then out else out @ [\<lparr>hf_Shell = shell, hf_Path = path\<rparr>])"

definition shellHistory :: "shellVars \<Rightarrow> string \<Rightarrow> string \<Rightarrow> string" where
  "shellHistory v versionVar base =
     (if sh_Getenv v versionVar \<noteq> [] \<and> sh_Getenv v ''HISTFILE'' \<noteq> [] then sh_Getenv v ''HISTFILE'' else pathJoin [sh_Home v, base])"

definition HistoryFiles :: "shellVars \<Rightarrow> historyFile list" where
  "HistoryFiles v =
     (let out = addHistory ''bash'' (shellHistory v ''BASH_VERSION'' ''.bash_history'') [];
          out = addHistory ''zsh'' (shellHistory v ''ZSH_VERSION'' ''.zsh_history'') out;
          xdg = (if sh_Getenv v ''XDG_DATA_HOME'' = [] then pathJoin [sh_Home v, ''.local'', ''share''] else sh_Getenv v ''XDG_DATA_HOME'')
      in addHistory ''fish'' (pathJoin [xdg, ''fish'', ''fish_history'']) out)"

record purgeFileResult =
  pf_Shell :: string
  pf_Path :: string
  pf_MatchedLines :: nat
  pf_Rewritten :: bool
  pf_Missing :: bool

record purgeResult =
  pr_Files :: "purgeFileResult list"
  pr_Matched :: nat
  pr_Rewrote :: nat
  pr_DryRun :: bool

type_synonym histFs = "string \<Rightarrow> bytes option"

record histOS =
  ho_Read :: "string \<Rightarrow> string option"
  ho_Write :: "string \<Rightarrow> string option"
  ho_Remove :: "string \<Rightarrow> bool"

datatype purgeError = PurgeRead string string | PurgeRewrite string string

text \<open>The loop over the lines: those kept, and how many matched.  In a fish history the time of a command follows it.\<close>

definition afterMatch :: "string \<Rightarrow> bytes list \<Rightarrow> bytes list" where
  "afterMatch shell rest = (if shell = ''fish'' \<and> rest \<noteq> [] \<and> prefix ''  when:'' (hd rest) then tl rest else rest)"

function purgeLines :: "(bytes \<Rightarrow> bool) \<Rightarrow> string \<Rightarrow> bytes list \<Rightarrow> bytes list \<times> nat" where
  "purgeLines found shell [] = ([], 0)"
| "purgeLines found shell (line # rest) =
     (if found line then (let (kept, n) = purgeLines found shell (afterMatch shell rest) in (kept, Suc n))
      else (let (kept, n) = purgeLines found shell rest in (line # kept, n)))"
  by pat_completeness auto
termination
  by (relation "measure (\<lambda>(_, _, ls). length ls)") (auto simp: afterMatch_def)

definition purgeFile :: "histOS \<Rightarrow> matcher \<Rightarrow> bool \<Rightarrow> historyFile \<Rightarrow> histFs \<Rightarrow> histFs \<times> (purgeError + purgeFileResult)" where
  "purgeFile os m apply' f fs =
     (let path = hf_Path f;
          fr = \<lparr>pf_Shell = hf_Shell f, pf_Path = path, pf_MatchedLines = 0, pf_Rewritten = False, pf_Missing = False\<rparr>
      in case fs path of
           None \<Rightarrow> (fs, Ok (fr\<lparr>pf_Missing := True\<rparr>))
         | Some data \<Rightarrow> (case ho_Read os path of
             Some err \<Rightarrow> (fs, Err (PurgeRead path err))
           | None \<Rightarrow>
               (let (kept, dropped) = purgeLines (Contains m) (hf_Shell f) (splitByte newline data);
                    fr = fr\<lparr>pf_MatchedLines := dropped\<rparr>
                in if dropped = 0 \<or> \<not> apply' then (fs, Ok fr)
                   else (case ho_Write os path of
                       Some err \<Rightarrow> (fs, Err (PurgeRewrite path err))
                     | None \<Rightarrow>
                         (let fs = fs(path \<mapsto> Join kept [newline]);
                              bak = path @ ''.ironrun.bak''
                          in (if ho_Remove os bak then fs(bak := None) else fs, Ok (fr\<lparr>pf_Rewritten := True\<rparr>)))))))"

fun purgeLoop :: "histOS \<Rightarrow> matcher \<Rightarrow> bool \<Rightarrow> historyFile list \<Rightarrow> purgeResult \<Rightarrow> histFs \<Rightarrow> histFs \<times> purgeResult \<times> purgeError option" where
  "purgeLoop os m apply' [] res fs = (fs, res, None)"
| "purgeLoop os m apply' (f # rest) res fs =
     (case purgeFile os m apply' f fs of
        (fs, Inl err) \<Rightarrow> (fs, res, Some err)
      | (fs, Inr fr) \<Rightarrow>
          purgeLoop os m apply' rest
            (res\<lparr>pr_Files := pr_Files res @ [fr], pr_Matched := pr_Matched res + pf_MatchedLines fr,
                 pr_Rewrote := (if pf_Rewritten fr then pr_Rewrote res + 1 else pr_Rewrote res)\<rparr>) fs)"

definition Purge :: "histOS \<Rightarrow> matcher \<Rightarrow> historyFile list \<Rightarrow> bool \<Rightarrow> histFs \<Rightarrow> histFs \<times> purgeResult \<times> purgeError option" where
  "Purge os m files apply' fs = purgeLoop os m apply' files \<lparr>pr_Files = [], pr_Matched = 0, pr_Rewrote = 0, pr_DryRun = \<not> apply'\<rparr> fs"

datatype historyError = HistoryLoad loadError | HistoryPurge purgeError

definition selectShells :: "string list \<Rightarrow> historyFile list \<Rightarrow> historyFile list" where
  "selectShells shells files = (if shells = [] then files else List.filter (\<lambda>f. hf_Shell f \<in> ToLower ` set shells) files)"

definition historyPurge ::
  "(bytes \<Rightarrow> bytes) \<Rightarrow> histOS \<Rightarrow> 's opened \<Rightarrow> shellVars \<Rightarrow> string list \<Rightarrow> bool \<Rightarrow> histFs \<Rightarrow> histFs \<times> (historyError + purgeResult)" where
  "historyPurge sha256 os project v shells apply' fs =
     (case loadActiveSecrets project of
        Inl err \<Rightarrow> (fs, Err (HistoryLoad err))
      | Inr secrets \<Rightarrow>
          (case Purge os (NewMatcher sha256 secrets) (selectShells shells (HistoryFiles v)) apply' fs of
             (fs, _, Some err) \<Rightarrow> (fs, Err (HistoryPurge err))
           | (fs, res, None) \<Rightarrow> (fs, Ok res)))"

section \<open>What is left of a history\<close>

definition clean :: "scrubSecret list \<Rightarrow> bytes \<Rightarrow> bool" where
  "clean secrets line \<longleftrightarrow> (\<forall>w \<in> needleSet secrets. \<not> sublist w line)"

lemma Contains_clean: "Contains (NewMatcher sha256 secrets) line \<longleftrightarrow> \<not> clean secrets line"
  using Redact_none [of sha256 secrets line] by (auto simp: Contains_def clean_def)

text \<open>Of a history all lines are kept but the matching ones and, in a fish history, the time that follows one.\<close>

inductive purged :: "(bytes \<Rightarrow> bool) \<Rightarrow> string \<Rightarrow> bytes list \<Rightarrow> bytes list \<Rightarrow> bool" for found shell where
  empty: "purged found shell [] []"
| keep: "\<not> found l \<Longrightarrow> purged found shell ls ks \<Longrightarrow> purged found shell (l # ls) (l # ks)"
| drop: "found l \<Longrightarrow> purged found shell (afterMatch shell ls) ks \<Longrightarrow> purged found shell (l # ls) ks"

lemma purgeLines_purged: "purged found shell ls (fst (purgeLines found shell ls))"
  by (induction found shell ls rule: purgeLines.induct) (auto simp: split_def Let_def intro: purged.intros)

lemma purgeLines_count: "snd (purgeLines found shell ls) = 0 \<longleftrightarrow> list_all (\<lambda>l. \<not> found l) ls"
  by (induction found shell ls rule: purgeLines.induct) (auto simp: split_def Let_def)

lemma purged_clean: "purged found shell ls ks \<Longrightarrow> list_all (\<lambda>l. \<not> found l) ks"
  by (induction rule: purged.induct) simp_all

lemma purged_subset: "purged found shell ls ks \<Longrightarrow> set ks \<subseteq> set ls"
proof (induction rule: purged.induct)
  case (drop l ls ks)
  then show ?case by (cases ls) (auto simp: afterMatch_def split: if_splits)
qed auto

lemma purged_all: "shell \<noteq> ''fish'' \<Longrightarrow> purged found shell ls ks \<Longrightarrow> ks = List.filter (\<lambda>l. \<not> found l) ls"
  by (induction ls arbitrary: ks) (auto elim: purged.cases simp: afterMatch_def)

lemma splitByte_parts: "\<forall>p \<in> set (splitByte sep s). sep \<notin> set p"
  by (induction s) (auto split: list.split)

lemma splitByte_Join: "ls \<noteq> [] \<Longrightarrow> \<forall>p \<in> set ls. sep \<notin> set p \<Longrightarrow> splitByte sep (Join ls [sep]) = ls"
proof (induction ls rule: induct_list012)
  case (3 a b ls)
  then show ?case by (simp add: splitByte_append_sep splitByte_free)
qed (simp_all add: splitByte_free)

text \<open>The lines of the file that is written.\<close>

lemma purged_file:
  assumes "purged found shell (splitByte newline data) ks"
  shows "splitByte newline (Join ks [newline]) = (if ks = [] then [[]] else ks)"
proof (cases ks)
  case (Cons k ks')
  have "\<forall>p \<in> set ks. newline \<notin> set p" using purged_subset [OF assms] splitByte_parts [of newline data] by auto
  then show ?thesis using splitByte_Join [of ks newline] Cons by simp
qed simp

lemma purgeFile_applied:
  assumes "purgeFile os (NewMatcher sha256 secrets) True f fs = (fs', Inr fr)" "fs (hf_Path f) = Some data"
  shows "\<exists>ks. purged (\<lambda>l. \<not> clean secrets l) (hf_Shell f) (splitByte newline data) ks \<and>
    fs' (hf_Path f) = Some (Join ks [newline])"
proof -
  let ?r = "purgeLines (\<lambda>l. \<not> clean secrets l) (hf_Shell f) (splitByte newline data)"
  have contains: "Contains (NewMatcher sha256 secrets) = (\<lambda>l. \<not> clean secrets l)" using Contains_clean by blast
  have bak: "hf_Path f \<noteq> hf_Path f @ ''.ironrun.bak''" by simp
  show ?thesis
  proof (cases "snd ?r = 0")
    case True
    then have all: "list_all (clean secrets) (splitByte newline data)" by (simp add: purgeLines_count)
    have "purged (\<lambda>l. \<not> clean secrets l) (hf_Shell f) ls ls" if "list_all (clean secrets) ls" for ls
      using that by (induction ls) (auto intro: purged.intros)
    moreover have "Join (splitByte newline data) [newline] = data" by (rule Join_splitByte)
    moreover have "fs' = fs" using assms True contains by (auto simp: purgeFile_def Let_def split_def split: option.splits)
    ultimately show ?thesis using all assms(2) by metis
  next
    case False
    with assms contains have "fs' (hf_Path f) = Some (Join (fst ?r) [newline])"
      by (auto simp: purgeFile_def Let_def split_def split: option.splits if_splits)
    with purgeLines_purged show ?thesis by blast
  qed
qed

lemma purgeFile_frame:
  "purgeFile os m apply' f fs = (fs', r) \<Longrightarrow> path \<noteq> hf_Path f \<Longrightarrow> path \<noteq> hf_Path f @ ''.ironrun.bak'' \<Longrightarrow> fs' path = fs path"
  by (auto simp: purgeFile_def Let_def split_def split: option.splits if_splits)

lemma purgeFile_dry: "purgeFile os m False f fs = (fs', r) \<Longrightarrow> fs' = fs"
  by (auto simp: purgeFile_def Let_def split_def split: option.splits if_splits)


lemma purgeLoop_prefix: "purgeLoop os m a (f # rest) res fs = (fs', res', None) \<Longrightarrow>
    \<exists>fs1 fr res1. purgeFile os m a f fs = (fs1, Inr fr) \<and> purgeLoop os m a rest res1 fs1 = (fs', res', None)"
  by (auto split: prod.splits sum.splits)

lemma purgeLoop_frame:
  "purgeLoop os m a files res fs = (fs', r) \<Longrightarrow> path \<notin> hf_Path ` set files \<Longrightarrow>
     path \<notin> (\<lambda>f. hf_Path f @ ''.ironrun.bak'') ` set files \<Longrightarrow> fs' path = fs path"
proof (induction files arbitrary: res fs)
  case (Cons f files)
  obtain fs1 x where step: "purgeFile os m a f fs = (fs1, x)" by force
  have fs1: "fs1 path = fs path" using purgeFile_frame [OF step] Cons.prems(2,3) by auto
  show ?case
  proof (cases x)
    case (Inl e)
    then show ?thesis using step fs1 Cons.prems(1) by auto
  next
    case (Inr fr)
    then show ?thesis using step fs1 Cons.IH Cons.prems by auto
  qed
qed simp

text \<open>No history is the backup of another one.\<close>

definition separate :: "historyFile list \<Rightarrow> bool" where
  "separate files \<longleftrightarrow> distinct (List.map hf_Path files) \<and>
     list_all (\<lambda>f. hf_Path f \<notin> (\<lambda>g. hf_Path g @ ''.ironrun.bak'') ` set files) files"

lemma purgeLoop_applied:
  assumes "purgeLoop os (NewMatcher sha256 secrets) True files res fs = (fs', res', None)" "separate files"
    and "f \<in> set files" "fs (hf_Path f) = Some data"
  shows "\<exists>ks. purged (\<lambda>l. \<not> clean secrets l) (hf_Shell f) (splitByte newline data) ks \<and> fs' (hf_Path f) = Some (Join ks [newline])"
  using assms
proof (induction files arbitrary: res fs)
  case (Cons g files)
  from purgeLoop_prefix [OF Cons.prems(1)] obtain fs1 fr res1 where
    step: "purgeFile os (NewMatcher sha256 secrets) True g fs = (fs1, Inr fr)" and
    rest: "purgeLoop os (NewMatcher sha256 secrets) True files res1 fs1 = (fs', res', None)" by blast
  have sep: "separate files" using Cons.prems(2) by (simp add: separate_def list_all_iff)
  show ?case
  proof (cases "f = g")
    case True
    have "fs' (hf_Path g) = fs1 (hf_Path g)"
      using purgeLoop_frame [OF rest, of "hf_Path g"] Cons.prems(2) by (auto simp: separate_def list_all_iff)
    with purgeFile_applied [OF step] Cons.prems(4) True show ?thesis by simp
  next
    case False
    with Cons.prems(3) have f: "f \<in> set files" by simp
    have "hf_Path f \<noteq> hf_Path g" "hf_Path f \<noteq> hf_Path g @ ''.ironrun.bak''"
      using Cons.prems(2) imageI [OF f, of hf_Path] f unfolding separate_def list_all_iff by force+
    then have "fs1 (hf_Path f) = Some data" using purgeFile_frame [OF step] Cons.prems(4) by simp
    with Cons.IH [OF rest sep f] show ?thesis by blast
  qed
qed simp

lemma clean_Nil: "clean secrets []"
  using needleSet_nonempty [of secrets] by (auto simp: clean_def)

lemma purged_lines_clean:
  assumes "purged (\<lambda>l. \<not> clean secrets l) shell (splitByte newline data) ks"
  shows "list_all (clean secrets) (splitByte newline (Join ks [newline]))"
  using purged_clean [OF assms] by (simp add: purged_file [OF assms] clean_Nil)

text \<open>C39: After a successful purge of histories whose files and backups are separate paths, each history holds exactly its old lines in
  order, less those in which a managed value of at least eight bytes or one of its forms stood (and the time stamps of these in a fish
  history): no line that is left has one, and no other file but an old backup is touched. Shorter values are not searched for, as in the code.\<close>

theorem history_purge_clean:
  assumes "Purge os (NewMatcher sha256 secrets) files True fs = (fs', res, None)" "separate files"
  shows "(\<forall>f \<in> set files. \<forall>data. fs (hf_Path f) = Some data \<longrightarrow>
      (\<exists>ks. purged (\<lambda>l. \<not> clean secrets l) (hf_Shell f) (splitByte newline data) ks \<and> fs' (hf_Path f) = Some (Join ks [newline]) \<and>
         list_all (clean secrets) (splitByte newline (Join ks [newline])))) \<and>
    (\<forall>path. path \<notin> hf_Path ` set files \<longrightarrow> path \<notin> (\<lambda>f. hf_Path f @ ''.ironrun.bak'') ` set files \<longrightarrow> fs' path = fs path)"
  using purgeLoop_applied [OF assms(1) [unfolded Purge_def] assms(2)] purgeLoop_frame [OF assms(1) [unfolded Purge_def]]
    purged_lines_clean by meson


section \<open>A witness\<close>

definition exHistory :: historyFile where
  "exHistory = \<lparr>hf_Shell = ''bash'', hf_Path = ''/h/.bash_history''\<rparr>"

definition exHistSecrets :: "scrubSecret list" where
  "exHistSecrets = [\<lparr>ss_Alias = ''TOKEN'', ss_Value = ''hunter22''\<rparr>]"

definition exHistData :: bytes where
  "exHistData = ''ls'' @ newline # ''export T=hunter22'' @ newline # ''pwd'' @ [newline]"

definition exPurge :: "histFs \<times> purgeResult \<times> purgeError option" where
  "exPurge = Purge \<lparr>ho_Read = (\<lambda>_. None), ho_Write = (\<lambda>_. None), ho_Remove = (\<lambda>_. True)\<rparr> (NewMatcher (\<lambda>s. s) exHistSecrets)
     [exHistory] True [''/h/.bash_history'' \<mapsto> exHistData]"

lemma exPurge_ok: "snd (snd exPurge) = None"
  by (simp add: exPurge_def Purge_def purgeFile_def exHistory_def Let_def split_def)

theorem history_purge_clean_witness:
  "\<exists>ks. purged (\<lambda>l. \<not> clean exHistSecrets l) ''bash'' (splitByte newline exHistData) ks \<and>
     fst exPurge ''/h/.bash_history'' = Some (Join ks [newline]) \<and>
     list_all (clean exHistSecrets) (splitByte newline (Join ks [newline]))"
proof -
  have run: "exPurge = (fst exPurge, fst (snd exPurge), None)" using exPurge_ok by (metis prod.collapse)
  have "separate [exHistory]" by (simp add: separate_def)
  from history_purge_clean [OF run [unfolded exPurge_def] this] show ?thesis by (simp add: exPurge_def exHistory_def)
qed

end
