(* ===== verification/GitHooks.thy ===== *)
theory GitHooks
  imports GitScan_Props AuditLog
begin

text \<open>
  Installing and removing the git hooks: \<open>src/internal/githooks/hooks.go\<close>.

  The file system is a map from paths to contents.  What git answers and which reads, writes and removals fail is
  \<open>hookOS\<close>; each write through a temporary file is one step.
\<close>

section \<open>The scripts\<close>

definition Marker :: bytes where
  "Marker = ''# managed by ironrun git install-hooks''"

definition emDash :: bytes where
  "emDash = [CHR 0xE2, CHR 0x80, CHR 0x94]"

definition PreCommitScript :: bytes where
  "PreCommitScript =
     renderLines
       [''#!/bin/sh'',
        Marker @ '' '' @ emDash @ '' do not edit; re-run `ironrun git install-hooks` to regenerate.'',
        ''# Layer 1: gitleaks / Betterleaks on the staged diff, when available.'',
        ''if command -v gitleaks >/dev/null 2>&1; then'',
        ''    gitleaks protect --staged --redact --verbose || exit 1'',
        ''elif command -v betterleaks >/dev/null 2>&1; then'',
        ''    betterleaks protect --staged --redact || exit 1'',
        ''else'',
        ''    echo \"ironrun hook: no gitleaks/Betterleaks on PATH '' @ emDash @ '' scanner layer skipped\" >&2'',
        ''fi'',
        ''# Layer 2: ironrun exact-value check of the staged diff.'',
        ''IRONRUN_BIN=\"${IRONRUN_BIN:-$(command -v ironrun || true)}\"'',
        ''if [ -z \"$IRONRUN_BIN\" ]; then'',
        ''    echo \"ironrun hook: BLOCKED '' @ emDash @ '' ironrun not on PATH, exact-value check cannot run.\" >&2'',
        ''    echo \"Reinstall ironrun, or remove these hooks with: ironrun git uninstall-hooks\" >&2'',
        ''    exit 1'',
        ''fi'',
        ''\"$IRONRUN_BIN\" git check-staged || exit 1'',
        ''exit 0'']"

definition PrePushScript :: bytes where
  "PrePushScript =
     renderLines
       [''#!/bin/sh'',
        Marker @ '' '' @ emDash @ '' do not edit; re-run `ironrun git install-hooks` to regenerate.'',
        ''IRONRUN_BIN=\"${IRONRUN_BIN:-$(command -v ironrun || true)}\"'',
        ''if [ -z \"$IRONRUN_BIN\" ]; then'',
        ''    echo \"ironrun hook: BLOCKED '' @ emDash @ '' ironrun not on PATH, push cannot be scanned.\" >&2'',
        ''    echo \"Reinstall ironrun, or remove these hooks with: ironrun git uninstall-hooks\" >&2'',
        ''    exit 1'',
        ''fi'',
        ''# Pass the push plan to ironrun; it computes the commit ranges and scans them.'',
        ''\"$IRONRUN_BIN\" git check-push || exit 1'',
        ''exit 0'']"

definition gitignoreEntries :: "string list" where
  "gitignoreEntries = [''.ironrun/'']"

section \<open>The environment\<close>

type_synonym hookFs = "string \<Rightarrow> bytes option"

record hookOS =
  hs_HooksPath :: "string \<Rightarrow> bytes option"
  hs_Mkdir :: "string option"
  hs_Unreadable :: "string \<Rightarrow> bool"
  hs_Write :: "string \<Rightarrow> string option"
  hs_Remove :: "string \<Rightarrow> string option"

datatype installError =
    NotARepository string | CreateHooksDir string | ForeignHook string | HookWrite string | HookRemove string string | GitignoreWrite string

definition readHook :: "hookOS \<Rightarrow> hookFs \<Rightarrow> string \<Rightarrow> bytes option" where
  "readHook os fs path = (if hs_Unreadable os path then None else fs path)"

definition hooksDirFor :: "hookOS \<Rightarrow> string \<Rightarrow> installError + string" where
  "hooksDirFor os root' =
     (case hs_HooksPath os root' of
        None \<Rightarrow> Err (NotARepository root')
      | Some out \<Rightarrow>
          (let dir = rev (dropWhile (\<lambda>c. c = newline) (rev out))
           in Ok (if prefix ''/'' dir then dir else pathJoin [root', dir])))"

section \<open>The section of .gitignore\<close>

definition ensureGitignore :: "hookOS \<Rightarrow> string \<Rightarrow> hookFs \<Rightarrow> hookFs \<times> (installError + string list)" where
  "ensureGitignore os root' fs =
     (let path = pathJoin [root', ''.gitignore''];
          raw = (case readHook os fs path of None \<Rightarrow> [] | Some data \<Rightarrow> data);
          existing = (case readHook os fs path of None \<Rightarrow> [] | Some data \<Rightarrow> splitByte newline data);
          missing = List.filter (\<lambda>e. e \<notin> TrimSpace ` set existing) gitignoreEntries
      in if missing = [] then (fs, Ok [])
         else (case hs_Write os path of
             Some err \<Rightarrow> (fs, Err (GitignoreWrite err))
           | None \<Rightarrow>
               (fs(path \<mapsto> raw @ (if raw \<noteq> [] \<and> \<not> suffix [newline] raw then [newline] else []) @ renderLines (Marker # missing)),
                Ok missing)))"

definition managedLine :: "bytes \<Rightarrow> bool" where
  "managedLine line \<longleftrightarrow> TrimSpace line \<in> set gitignoreEntries"

function dropSections :: "bytes list \<Rightarrow> bytes list \<times> bool" where
  "dropSections [] = ([], False)"
| "dropSections (line # rest) =
     (if TrimSpace line = Marker then (fst (dropSections (dropWhile managedLine rest)), True)
      else (let (out, removed) = dropSections rest in (line # out, removed)))"
  by pat_completeness auto
termination
  by (relation "measure length") (auto simp: le_imp_less_Suc length_dropWhile_le)

definition removeGitignoreSection :: "hookOS \<Rightarrow> string \<Rightarrow> hookFs \<Rightarrow> hookFs \<times> (installError + bool)" where
  "removeGitignoreSection os root' fs =
     (let path = pathJoin [root', ''.gitignore''] in
      case readHook os fs path of
        None \<Rightarrow> (fs, Ok False)
      | Some data \<Rightarrow>
          (let (out, removed) = dropSections (splitByte newline data)
           in if \<not> removed then (fs, Ok False)
              else (case hs_Write os path of
                  Some err \<Rightarrow> (fs, Err (GitignoreWrite err))
                | None \<Rightarrow> (fs(path \<mapsto> Join out [newline]), Ok True))))"

section \<open>Installing and removing\<close>

record installResult =
  ir_HooksDir :: string
  ir_PreCommit :: string
  ir_PrePush :: string
  ir_HooksRewrote :: nat
  ir_GitignoreAdds :: "string list"

text \<open>The two hooks are visited in the order of a map, which the first argument of \<open>Install\<close> decides.\<close>

definition hookScripts :: "bool \<Rightarrow> (string \<times> bytes) list" where
  "hookScripts swapped =
     (let hooks = [(''pre-commit'', PreCommitScript), (''pre-push'', PrePushScript)] in if swapped then rev hooks else hooks)"

definition noteHook :: "string \<Rightarrow> string \<Rightarrow> installResult \<Rightarrow> installResult" where
  "noteHook name path res =
     (let res = res\<lparr>ir_HooksRewrote := ir_HooksRewrote res + 1\<rparr>
      in if name = ''pre-commit'' then res\<lparr>ir_PreCommit := path\<rparr> else if name = ''pre-push'' then res\<lparr>ir_PrePush := path\<rparr> else res)"

definition writeHook :: "hookOS \<Rightarrow> string \<Rightarrow> bytes \<Rightarrow> hookFs \<Rightarrow> hookFs \<times> installError option" where
  "writeHook os path script fs =
     (case hs_Write os path of Some err \<Rightarrow> (fs, Some (HookWrite err)) | None \<Rightarrow> (fs(path \<mapsto> script), None))"

fun installHooks :: "hookOS \<Rightarrow> bool \<Rightarrow> string \<Rightarrow> (string \<times> bytes) list \<Rightarrow> installResult \<Rightarrow> hookFs \<Rightarrow> hookFs \<times> (installError + installResult)" where
  "installHooks os force dir [] res fs = (fs, Ok res)"
| "installHooks os force dir ((name, script) # hooks) res fs =
     (let path = pathJoin [dir, name]; old = readHook os fs path in
      if \<not> force \<and> (case old of None \<Rightarrow> False | Some data \<Rightarrow> \<not> sublist Marker data) then (fs, Err (ForeignHook path))
      else if old = Some script then installHooks os force dir hooks res fs
      else (case writeHook os path script fs of
          (fs, Some err) \<Rightarrow> (fs, Err err)
        | (fs, None) \<Rightarrow> installHooks os force dir hooks (noteHook name path res) fs))"

definition Install :: "bool \<Rightarrow> hookOS \<Rightarrow> string \<Rightarrow> bool \<Rightarrow> hookFs \<Rightarrow> hookFs \<times> (installError + installResult)" where
  "Install swapped os root' force fs =
     (case hooksDirFor os root' of
        Inl err \<Rightarrow> (fs, Err err)
      | Inr dir \<Rightarrow> (case hs_Mkdir os of
          Some err \<Rightarrow> (fs, Err (CreateHooksDir err))
        | None \<Rightarrow>
            (let res = \<lparr>ir_HooksDir = dir, ir_PreCommit = [], ir_PrePush = [], ir_HooksRewrote = 0, ir_GitignoreAdds = []\<rparr> in
             case installHooks os force dir (hookScripts swapped) res fs of
               (fs, Inl err) \<Rightarrow> (fs, Err err)
             | (fs, Inr res) \<Rightarrow> (case ensureGitignore os root' fs of
                 (fs, Inl err) \<Rightarrow> (fs, Err err)
               | (fs, Inr added) \<Rightarrow> (fs, Ok (res\<lparr>ir_GitignoreAdds := added\<rparr>))))))"

fun uninstallHooks :: "hookOS \<Rightarrow> string \<Rightarrow> string list \<Rightarrow> string list \<Rightarrow> hookFs \<Rightarrow> hookFs \<times> (installError + string list)" where
  "uninstallHooks os dir [] removed fs = (fs, Ok removed)"
| "uninstallHooks os dir (name # names) removed fs =
     (let path = pathJoin [dir, name] in
      case readHook os fs path of
        None \<Rightarrow> uninstallHooks os dir names removed fs
      | Some data \<Rightarrow>
          if \<not> sublist Marker data then uninstallHooks os dir names removed fs
          else (case hs_Remove os path of
              Some err \<Rightarrow> (fs, Err (HookRemove path err))
            | None \<Rightarrow> uninstallHooks os dir names (removed @ [path]) (fs(path := None))))"

definition Uninstall :: "hookOS \<Rightarrow> string \<Rightarrow> hookFs \<Rightarrow> hookFs \<times> (installError + string list \<times> bool)" where
  "Uninstall os root' fs =
     (case hooksDirFor os root' of
        Inl err \<Rightarrow> (fs, Err err)
      | Inr dir \<Rightarrow> (case uninstallHooks os dir [''pre-commit'', ''pre-push''] [] fs of
          (fs, Inl err) \<Rightarrow> (fs, Err err)
        | (fs, Inr removed) \<Rightarrow> (case removeGitignoreSection os root' fs of
            (fs, Inl err) \<Rightarrow> (fs, Err err)
          | (fs, Inr cleaned) \<Rightarrow> (fs, Ok (removed, cleaned)))))"


section \<open>The section comes and goes\<close>

definition closedText :: "bytes \<Rightarrow> bytes" where
  "closedText raw = raw @ (if raw \<noteq> [] \<and> \<not> suffix [newline] raw then [newline] else [])"

definition freshLine :: "bytes \<Rightarrow> bool" where
  "freshLine line \<longleftrightarrow> TrimSpace line \<noteq> Marker \<and> TrimSpace line \<notin> set gitignoreEntries"

lemma managed_lines: "TrimSpace Marker = Marker" "managedLine ''.ironrun/''" "\<not> managedLine []" "TrimSpace [] \<noteq> Marker"
  by (simp_all add: managedLine_def gitignoreEntries_def Marker_def trim_eval)

lemma splitByte_parts_free: "list_all (\<lambda>p. sep \<notin> set p) (splitByte sep s)"
  by (induction s) (auto split: list.split)

lemma render_Join: "ls \<noteq> [] \<Longrightarrow> renderLines ls = Join ls [newline] @ [newline]"
  by (induction ls rule: induct_list012) (simp_all add: renderLines_def)

lemma closedText_lines:
  assumes "list_all freshLine (splitByte newline raw)"
  obtains ls where "closedText raw = renderLines ls" "list_all (\<lambda>l. newline \<notin> set l) ls" "list_all freshLine ls"
proof (cases "raw = []")
  case True
  then show ?thesis using that [of "[]"] by (simp add: closedText_def renderLines_def)
next
  case False
  have "\<exists>r. closedText raw = r @ [newline] \<and> set (splitByte newline r) \<subseteq> set (splitByte newline raw)"
  proof (cases "suffix [newline] raw")
    case True
    then obtain r where "raw = r @ [newline]" by (auto simp: suffix_def)
    then show ?thesis using splitByte_append_sep [of newline r "[]"] True by (auto simp: closedText_def)
  next
    case False
    then show ?thesis using \<open>raw \<noteq> []\<close> by (auto simp: closedText_def)
  qed
  then obtain r where r: "closedText raw = r @ [newline]" "set (splitByte newline r) \<subseteq> set (splitByte newline raw)" by blast
  then have "closedText raw = renderLines (splitByte newline r)" by (simp add: render_Join Join_splitByte)
  moreover have "list_all freshLine (splitByte newline r)" using r(2) assms by (auto simp: list_all_iff)
  ultimately show ?thesis using that splitByte_parts_free by blast
qed

lemma dropSections_fresh:
  "list_all freshLine ls \<Longrightarrow> dropSections (ls @ [Marker, ''.ironrun/'', []]) = (ls @ [[]], True)"
proof (induction ls)
  case Nil
  show ?case using managed_lines by simp
next
  case (Cons l ls)
  then show ?case by (simp add: freshLine_def)
qed

lemma section_removed:
  assumes "list_all freshLine (splitByte newline raw)"
  shows "\<exists>out. dropSections (splitByte newline (closedText raw @ renderLines (Marker # gitignoreEntries))) = (out, True) \<and>
    Join out [newline] = closedText raw"
proof -
  obtain ls where ls: "closedText raw = renderLines ls" "list_all (\<lambda>l. newline \<notin> set l) ls" "list_all freshLine ls"
    using closedText_lines [OF assms] by blast
  let ?all = "ls @ [Marker, ''.ironrun/'']"
  have "closedText raw @ renderLines (Marker # gitignoreEntries) = renderLines ?all"
    by (simp add: ls(1) renderLines_def gitignoreEntries_def)
  moreover have "splitByte newline (renderLines ?all) = ?all @ [[]]"
    using ls(2) by (intro splitByte_render) (simp add: Marker_def)
  moreover have "Join (ls @ [[]]) [newline] = renderLines ls"
    by (induction ls rule: induct_list012) (simp_all add: renderLines_def)
  ultimately show ?thesis using dropSections_fresh [OF ls(3)] ls(1) by simp
qed

lemma sublist_Marker: "sublist Marker PreCommitScript" "sublist Marker PrePushScript"
proof -
  have "renderLines (a # (Marker @ x) # ls) = (a @ [newline]) @ Marker @ (x @ newline # renderLines ls)" for a x ls
    by (simp add: renderLines_def)
  then have "sublist Marker (renderLines (a # (Marker @ x) # ls))" for a x ls by (metis sublist_appendI)
  then show "sublist Marker PreCommitScript" "sublist Marker PrePushScript"
    unfolding PreCommitScript_def PrePushScript_def append_assoc by blast+
qed

lemma ensureGitignore_fresh:
  assumes "ensureGitignore os root' fs = (fs', Inr added)" "\<not> hs_Unreadable os (pathJoin [root', ''.gitignore''])"
    and "raw = (case fs (pathJoin [root', ''.gitignore'']) of None \<Rightarrow> [] | Some data \<Rightarrow> data)" "list_all freshLine (splitByte newline raw)"
  shows "fs' = fs(pathJoin [root', ''.gitignore''] \<mapsto> closedText raw @ renderLines (Marker # gitignoreEntries))"
proof -
  have "e \<notin> TrimSpace ` set (splitByte newline raw)" if "e \<in> set gitignoreEntries" for e
    using assms(4) that by (auto simp: freshLine_def list_all_iff)
  then have "List.filter (\<lambda>e. e \<notin> TrimSpace ` set (splitByte newline raw)) gitignoreEntries = gitignoreEntries"
    by (simp add: filter_id_conv)
  moreover have "TrimSpace [] \<notin> set gitignoreEntries" by (simp add: gitignoreEntries_def trim_eval)
  ultimately show ?thesis
    using assms(1-3)
    by (cases "fs (pathJoin [root', ''.gitignore''])")
      (auto simp: ensureGitignore_def readHook_def closedText_def gitignoreEntries_def Let_def split: option.splits if_splits)
qed


section \<open>Installing and removing\<close>

lemma installHooks_ok:
  assumes "installHooks os False dir hooks res fs = (fs', Inr res')" "distinct (List.map (\<lambda>h. pathJoin [dir, fst h]) hooks)"
    and "\<forall>path. \<not> hs_Unreadable os path"
  shows "(\<forall>(name, script) \<in> set hooks. fs' (pathJoin [dir, name]) = Some script \<and>
      (\<forall>data. fs (pathJoin [dir, name]) = Some data \<longrightarrow> sublist Marker data)) \<and>
    (\<forall>path. path \<notin> (\<lambda>h. pathJoin [dir, fst h]) ` set hooks \<longrightarrow> fs' path = fs path)"
  using assms(1,2)
proof (induction hooks arbitrary: res fs)
  case (Cons h hooks)
  obtain name script where h: "h = (name, script)" by force
  let ?path = "pathJoin [dir, name]"
  have marked: "\<forall>data. fs ?path = Some data \<longrightarrow> sublist Marker data"
    using Cons.prems(1) assms(3) by (auto simp: h Let_def readHook_def split: if_splits)
  obtain fs1 res1 where fs1: "fs1 ?path = Some script" "\<And>p. p \<noteq> ?path \<Longrightarrow> fs1 p = fs p"
    and rest: "installHooks os False dir hooks res1 fs1 = (fs', Inr res')"
  proof (cases "fs ?path = Some script")
    case True
    then show ?thesis using that [of fs res] Cons.prems(1) marked assms(3) by (simp add: h Let_def readHook_def)
  next
    case False
    then show ?thesis using that [of "fs(?path \<mapsto> script)" "noteHook name ?path res"] Cons.prems(1) marked assms(3)
      by (auto simp: h Let_def readHook_def writeHook_def split: option.splits if_splits)
  qed
  have dist: "distinct (List.map (\<lambda>h. pathJoin [dir, fst h]) hooks)" "?path \<notin> (\<lambda>h. pathJoin [dir, fst h]) ` set hooks"
    using Cons.prems(2) by (auto simp: h)
  from Cons.IH [OF rest dist(1)] have
    IH: "\<forall>(n, s) \<in> set hooks. fs' (pathJoin [dir, n]) = Some s \<and> (\<forall>data. fs1 (pathJoin [dir, n]) = Some data \<longrightarrow> sublist Marker data)"
      "\<forall>path. path \<notin> (\<lambda>h. pathJoin [dir, fst h]) ` set hooks \<longrightarrow> fs' path = fs1 path" by blast+
  have "pathJoin [dir, n] \<noteq> ?path" if "(n, s) \<in> set hooks" for n s using dist(2) that by force
  with IH fs1 dist(2) marked show ?case by (auto simp: h)
qed simp

lemma uninstallHooks_ok:
  assumes "uninstallHooks os dir names removed fs = (fs', Inr removed')" "\<forall>path. \<not> hs_Unreadable os path"
    and "\<forall>name \<in> set names. \<exists>data. fs (pathJoin [dir, name]) = Some data \<and> sublist Marker data" "distinct (List.map (\<lambda>n. pathJoin [dir, n]) names)"
  shows "fs' = (\<lambda>p. if p \<in> (\<lambda>n. pathJoin [dir, n]) ` set names then None else fs p)"
  using assms(1,3,4)
proof (induction names arbitrary: removed fs)
  case (Cons name names)
  let ?path = "pathJoin [dir, name]"
  from Cons.prems(1,2) assms(2) have rest: "uninstallHooks os dir names (removed @ [?path]) (fs(?path := None)) = (fs', Inr removed')"
    by (auto simp: Let_def readHook_def split: option.splits if_splits)
  have "\<forall>n \<in> set names. \<exists>data. (fs(?path := None)) (pathJoin [dir, n]) = Some data \<and> sublist Marker data"
    using Cons.prems(2,3) by (auto simp: image_iff)
  with Cons.IH [OF rest] Cons.prems(3) show ?case by (auto simp: fun_eq_iff)
qed simp

text \<open>C40: Installing the hooks and removing them again leaves no trace but a line end. If no path is unreadable, the three paths are
  distinct and \<open>.gitignore\<close> has no line of the section yet, an installation without force that succeeds overwrote no
  foreign hook and put both scripts in place; a removal that succeeds then deletes both, and of \<open>.gitignore\<close> exactly the section that was added.\<close>

theorem hooks_install_uninstall:
  assumes "Install swapped os root' False fs = (fs1, Inr res)" "Uninstall os root' fs1 = (fs2, Inr removed)"
    and dir: "hooksDirFor os root' = Inr dir" and readable: "\<forall>path. \<not> hs_Unreadable os path"
    and paths: "distinct [pathJoin [dir, ''pre-commit''], pathJoin [dir, ''pre-push''], pathJoin [root', ''.gitignore'']]"
    and raw: "raw = (case fs (pathJoin [root', ''.gitignore'']) of None \<Rightarrow> [] | Some data \<Rightarrow> data)"
    and fresh: "list_all freshLine (splitByte newline raw)"
  shows "fs1 (pathJoin [dir, ''pre-commit'']) = Some PreCommitScript \<and> fs1 (pathJoin [dir, ''pre-push'']) = Some PrePushScript \<and>
    (\<forall>name \<in> {''pre-commit'', ''pre-push''}. \<forall>data. fs (pathJoin [dir, name]) = Some data \<longrightarrow> sublist Marker data) \<and>
    fs2 = fs(pathJoin [dir, ''pre-commit''] := None, pathJoin [dir, ''pre-push''] := None,
      pathJoin [root', ''.gitignore''] \<mapsto> closedText raw)"
proof -
  let ?pc = "pathJoin [dir, ''pre-commit'']" and ?pp = "pathJoin [dir, ''pre-push'']" and ?gi = "pathJoin [root', ''.gitignore'']"
  let ?sec = "closedText raw @ renderLines (Marker # gitignoreEntries)"
  obtain fsh res0 res1 added where hooks: "installHooks os False dir (hookScripts swapped) res0 fs = (fsh, Inr res1)"
      and ignore: "ensureGitignore os root' fsh = (fs1, Inr added)"
    using assms(1) dir by (auto simp: Install_def Let_def split: option.splits prod.splits sum.splits)
  have set: "set (hookScripts swapped) = {(''pre-commit'', PreCommitScript), (''pre-push'', PrePushScript)}"
    by (auto simp: hookScripts_def Let_def)
  have "distinct (List.map (\<lambda>h. pathJoin [dir, fst h]) (hookScripts swapped))" using paths by (auto simp: hookScripts_def Let_def)
  from installHooks_ok [OF hooks this readable]
  have fsh: "fsh ?pc = Some PreCommitScript" "fsh ?pp = Some PrePushScript"
      "\<forall>name \<in> {''pre-commit'', ''pre-push''}. \<forall>data. fs (pathJoin [dir, name]) = Some data \<longrightarrow> sublist Marker data"
      "\<And>p. p \<noteq> ?pc \<Longrightarrow> p \<noteq> ?pp \<Longrightarrow> fsh p = fs p"
    unfolding set by auto
  have gi: "fsh ?gi = fs ?gi" by (rule fsh(4)) (use paths in auto)
  have "fs1 = fsh(?gi \<mapsto> ?sec)"
    by (rule ensureGitignore_fresh [OF ignore]) (use readable fresh raw gi in simp_all)
  with fsh(1,2) paths have fs1: "fs1 = fsh(?gi \<mapsto> ?sec)" "fs1 ?pc = Some PreCommitScript" "fs1 ?pp = Some PrePushScript" by auto
  obtain fsu rem cleaned where gone: "uninstallHooks os dir [''pre-commit'', ''pre-push''] [] fs1 = (fsu, Inr rem)"
      and clean: "removeGitignoreSection os root' fsu = (fs2, Inr cleaned)"
    using assms(2) dir by (auto simp: Uninstall_def split: prod.splits sum.splits)
  have fsu: "fsu = fs1(?pc := None, ?pp := None)"
    using uninstallHooks_ok [OF gone readable] fs1(2,3) sublist_Marker paths by (auto simp: fun_eq_iff)
  obtain out where out: "dropSections (splitByte newline ?sec) = (out, True)" "Join out [newline] = closedText raw"
    using section_removed [OF fresh] by blast
  have "?gi \<noteq> ?pc" "?gi \<noteq> ?pp" using paths by auto
  with fsu fs1(1) have "fsu ?gi = Some ?sec" by simp
  with clean out readable have "fs2 = fsu(?gi \<mapsto> closedText raw)"
    by (auto simp: removeGitignoreSection_def readHook_def Let_def split: option.splits)
  with fsu fs1 fsh(4) have "fs2 = fs(?pc := None, ?pp := None, ?gi \<mapsto> closedText raw)" by (auto simp: fun_eq_iff)
  with fs1 fsh(3) show ?thesis by blast
qed


section \<open>A witness\<close>

definition exHookOS :: hookOS where
  "exHookOS = \<lparr>hs_HooksPath = (\<lambda>_. Some (''.git/hooks'' @ [newline])), hs_Mkdir = None, hs_Unreadable = (\<lambda>_. False),
     hs_Write = (\<lambda>_. None), hs_Remove = (\<lambda>_. None)\<rparr>"

definition exHookFs :: hookFs where
  "exHookFs = [''/r/.gitignore'' \<mapsto> ''bin'']"

lemma exHook_paths: "hooksDirFor exHookOS ''/r'' = Inr ''/r/.git/hooks''" "pathJoin [''/r'', ''.gitignore''] = ''/r/.gitignore''"
  "pathJoin [''/r/.git/hooks'', ''pre-commit''] = ''/r/.git/hooks/pre-commit''"
  "pathJoin [''/r/.git/hooks'', ''pre-push''] = ''/r/.git/hooks/pre-push''"
  by code_simp+

lemma exHookOS_simps: "hs_Mkdir exHookOS = None" "hs_Unreadable exHookOS p = False" "hs_Write exHookOS p = None" "hs_Remove exHookOS p = None"
  by (simp_all add: exHookOS_def)

lemma exInstall_ok: "\<exists>fs1 res. Install False exHookOS ''/r'' False exHookFs = (fs1, Inr res)"
  by (simp add: Install_def exHook_paths hookScripts_def writeHook_def readHook_def ensureGitignore_def Let_def exHookOS_simps exHookFs_def)

lemma exUninstall_ok: "\<exists>fs2 removed. Uninstall exHookOS ''/r'' fs = (fs2, Inr removed)"
  by (cases "fs ''/r/.git/hooks/pre-commit''"; cases "fs ''/r/.git/hooks/pre-push''"; cases "fs ''/r/.gitignore''")
    (auto simp: Uninstall_def exHook_paths readHook_def removeGitignoreSection_def Let_def split_def exHookOS_simps)

theorem hooks_install_uninstall_witness:
  "\<exists>fs1 res fs2 removed. Install False exHookOS ''/r'' False exHookFs = (fs1, Inr res) \<and> Uninstall exHookOS ''/r'' fs1 = (fs2, Inr removed) \<and>
     fs1 ''/r/.git/hooks/pre-push'' = Some PrePushScript \<and> fs2 ''/r/.gitignore'' = Some (''bin'' @ [newline])"
proof -
  obtain fs1 res where inst: "Install False exHookOS ''/r'' False exHookFs = (fs1, Inr res)" using exInstall_ok by blast
  obtain fs2 removed where rem: "Uninstall exHookOS ''/r'' fs1 = (fs2, Inr removed)" using exUninstall_ok by blast
  have fresh: "list_all freshLine (splitByte newline ''bin'')"
    by (simp add: freshLine_def trim_eval gitignoreEntries_def Marker_def)
  have "closedText ''bin'' = ''bin'' @ [newline]" by code_simp
  with hooks_install_uninstall [OF inst rem exHook_paths(1), of "''bin''"] fresh inst rem show ?thesis
    by (auto simp: exHook_paths exHookFs_def exHookOS_simps)
qed

end
