(* ===== verification/Spec2Isabelle.thy ===== *)
theory Spec2Isabelle
  imports Redactor_Props Encodings Scrub_Props AuditLog_Props Vault_Props Envset_Props Access_Props Policy_Props
    Runner_Props VaultStore Execution_Props Proposals_Props Authorization_Props MCPTools_Props LocalAPI_Props Migration_Props
    ProjectStore Registry GitScan_Props History GitHooks
begin

text \<open>
  Verification library of ironrun, the program that hands secrets to commands and keeps them out of what an
  agent can read.

  \<^bold>\<open>The program.\<close>  A project has a policy (\<open>ironrun.yml\<close>) of commands and the secrets they may use, environments
  of named values in an encrypted vault, and a file of access requests, leases and workspace grants.  An agent asks through the MCP
  server (or the local control plane) to run a command; it waits until the people concerned have approved what is missing; the execution
  resolves references, entries and aliases, and the runner starts the child behind the sealed-exec shim, with every
  stream through the redactor and a record in the audit log.  Around that, hooks, history purges and the scrubber look for values that got
  out, and a migration rewrites old policies.  All paths below are under \<open>src/\<close>.

  \<^bold>\<open>Theories, from the bottom up.\<close>  A theory with the suffix \<open>_Props\<close> holds the facts about the definitions of the theory it is named after.

  \<^item> \<open>Prelude\<close>, \<open>GoStrings\<close>, \<open>GoEncoding\<close>, \<open>GoJSON\<close>, \<open>GoRunes\<close>, \<open>GoMaps\<close>: what the code uses of Go and its standard
    library: byte strings, \<open>strings\<close>, \<open>bufio.Scanner\<close>, base64 and hex, the JSON writer, UTF-8, and maps as lists in the order of their keys
    (the locale \<open>go_map\<close> states what the components rely on of a map).
  \<^item> \<open>Redactor\<close> and \<open>Redactor_Match\<close>, \<open>_Index\<close>, \<open>_Tiers\<close>, \<open>_Stream\<close>, \<open>_Props\<close>: \<open>internal/redact/redact.go\<close>.  The record
    \<open>redactor\<close> is the \<open>Writer\<close>; \<open>Write\<close>, \<open>Flush\<close> and \<open>scan\<close> are its methods.  \<open>scanFrom\<close> has the length of the rest as its fuel, and each
    turn consumes a byte.  The locale \<open>byte_sink\<close> is what the writer relies on of the writer below it.
  \<^item> \<open>Encodings\<close>, \<open>Entropy\<close>: \<open>encodings.go\<close> and \<open>entropy.go\<close> of the same package.
  \<^item> \<open>Scrub\<close>, \<open>Scrub_Props\<close>: \<open>internal/scrub\<close>, the needle trie and the walk over transcripts.
  \<^item> \<open>AuditLog\<close>, \<open>AuditLog_Props\<close>: \<open>internal/audit/audit.go\<close>.  A log is its bytes.
  \<^item> \<open>Vault\<close>, \<open>Vault_Props\<close>: \<open>internal/vault\<close>.  \<open>vaultView\<close> is the map that a document stands for, and every operation refines its map update.
  \<^item> \<open>Envset\<close>, \<open>Envset_Props\<close>: \<open>internal/envset/manager.go\<close> and \<open>store.go\<close>; \<open>VaultStore\<close>: \<open>vault_store.go\<close>;
    \<open>ProjectStore\<close>: the two together, with what the clients rely on of a store (\<open>readsOk\<close>, \<open>writesLocal\<close>) shown of the vault.
  \<^item> \<open>Access\<close>, \<open>Access_Props\<close>: \<open>internal/access/access.go\<close>.  \<open>mutate\<close> is a transaction: lock, load, expire, change, save.
    \<open>reachable\<close> is every manager that any sequence of operations, failures included, leads to.
  \<^item> \<open>Policy\<close>, \<open>Policy_Props\<close>, \<open>PolicyMigrate\<close>, \<open>PolicyMigrate_Props\<close>: \<open>internal/policy\<close>.  The YAML library is an argument (\<open>yamlCodec\<close>).
  \<^item> \<open>Seccomp\<close>, \<open>SealedExec\<close>, \<open>SealedExec_Props\<close>: \<open>internal/sealedexec\<close> and \<open>internal/runner/seccomp_linux.go\<close>.  The locale
    \<open>bpf_machine\<close> is the documented semantics of the instructions that the filter uses.
  \<^item> \<open>CITrust\<close>, \<open>Runner\<close>, \<open>Runner_Props\<close>: \<open>internal/runner\<close>.
  \<^item> \<open>Provider\<close>, \<open>SecretStore\<close>, \<open>FileWorkspace\<close>, \<open>Execution\<close>, \<open>Execution_Props\<close>: \<open>internal/provider\<close>, \<open>internal/secrets\<close> and
    \<open>internal/execution\<close>.
  \<^item> \<open>Proposals\<close>, \<open>Proposals_Props\<close>: \<open>internal/pending/pending.go\<close> and \<open>cmd/ironrun/review.go\<close>.
  \<^item> \<open>Capsule\<close>: \<open>internal/capsule/capsule.go\<close>.
  \<^item> \<open>Authorization\<close>, \<open>MCPTools\<close> and their \<open>_Props\<close>: \<open>mcp/server.go\<close>, the first the waiting of \<open>run_sealed\<close>, the second the tools.
    \<open>LocalAPI\<close>, \<open>LocalAPI_Props\<close>: \<open>internal/localapi/server.go\<close>.
  \<^item> \<open>Migration\<close>, \<open>Migration_Props\<close>: \<open>internal/migration/migration.go\<close>.
  \<^item> \<open>Registry\<close>: \<open>internal/project/registry.go\<close>; \<open>GitScan\<close>, \<open>GitScan_Props\<close>: \<open>cmd/ironrun/gitcmd.go\<close> and \<open>agentscrub.go\<close>;
    \<open>History\<close>: \<open>internal/shellguard/history.go\<close> and \<open>cmd/ironrun/historycmd.go\<close>; \<open>GitHooks\<close>: \<open>internal/githooks/hooks.go\<close>.

  \<^bold>\<open>How state and effects are modelled.\<close>  A struct is a record, an operation takes the state and returns it; an error is a value of a
  sum type with one constructor for each cause.  Every call of the system that can fail has its answer in a record (\<open>runOS\<close>, \<open>vaultEnv\<close>,
  \<open>envEnv\<close>, \<open>migrationOS\<close>, and so on), so a theorem speaks of all ways it can fail.  Files that hold JSON or YAML are what they decode
  to; where that matters the decoder is an argument and a hypothesis says what it reads back, which is true of text that is UTF-8.
  Machine integers are words where they wrap (the revision of the vault, the instructions of the filter) and integers elsewhere.

  \<^bold>\<open>Concurrency and waiting.\<close>  A transaction under a file lock is one step; what other processes do between two steps is an argument: a list of
  worlds (\<open>Authorization\<close>), one for each round of polling, holds what others did to the access state, the policy, the clock
  and the answers of the system.  A call that has not returned when the list ends is \<open>None\<close>, and it is shown that fifteen minutes of rounds
  suffice.  Attempts at the lock are a list too; when it ends while every attempt goes on, the call is still in the loop (\<open>ErrSpinning\<close>),
  which only a stale lock that cannot be removed achieves for ever.

  \<^bold>\<open>What is shown.\<close>
  \<^item> Nothing leaks: any chunking of a stream is redacted as the whole, no secret, gapped secret or long fragment is in the output
    (\<open>redactor_*\<close>), a run shows only that (\<open>run_output_redacted\<close>), masks are the needed ones (\<open>masks_exact\<close>), a push that passes and a history
    that was purged hold no value (\<open>check_push_clean\<close>, \<open>history_purge_clean\<close>).
  \<^item> Nothing runs unasked: \<open>run_fails_closed\<close>, \<open>sealed_child_hardened\<close>, \<open>seccomp_filter_decides\<close>, \<open>mcp_run_authorized\<close>,
    \<open>localapi_run_authorized\<close>, \<open>execution_injects_declared\<close>, \<open>access_invariant\<close>, \<open>access_history\<close>, \<open>policy_parse_iff\<close>.
  \<^item> Nothing changes unreviewed: \<open>approve_exact\<close>, \<open>pending_immutable\<close>, \<open>block_lines_fixed\<close>, \<open>mcp_proposal_clean\<close>,
    \<open>mcp_capsule_once\<close>, \<open>capsule_roundtrip\<close>.
  \<^item> Nothing is lost: the vault refines a map (\<open>vault_refines_map\<close>, \<open>envset_put_get\<close>, \<open>mig_get_preserves\<close>), its revision goes forward,
    opening fails closed, the metadata stays well-formed, migrations keep, restore and verify (\<open>migration_*\<close>, \<open>migrated_policy_typed\<close>), the audit
    log is intact and evident of tampering, files of secrets are removed, and hooks go as they came.

  \<^bold>\<open>What is not modelled.\<close>  The native credential stores, the daemon's sockets, remotes and subprocess tools are calls of the platform; the text of the
  command line, of the terminal interface and of the shell snippets is presentation; ciphers, hashes, URL and YAML parsing are arguments with
  the laws that are relied on.  The evaluation under \<open>paper/\<close> and test programs are not part of the product.
\<close>

end
